(* ===== verification/Prelude.thy ===== *)
theory Prelude
  imports Main "HOL-Library.Word"
begin

text \<open>
  What every component of the development shares: the widths of the C integers on the
  LP64 targets of the library, the AEE error codes of \<^verbatim>\<open>inc/AEEStdErr.h\<close>, the conversion of
  a mathematical integer to a C \<^verbatim>\<open>int\<close>, windows of byte lists (what \<^verbatim>\<open>memcpy\<close> reads and
  writes), little-endian encoding, and rounding up to a multiple of eight.
\<close>

unbundle bit_operations_syntax

named_theorems c_simps "definitions of C conversions and of small helpers"
named_theorems window_simps "windows of byte lists"

type_synonym u8 = "8 word"
type_synonym u16 = "16 word"
type_synonym u32 = "32 word"
type_synonym u64 = "64 word"
type_synonym byte = "8 word"
type_synonym uptr = "64 word"

section \<open>Error codes\<close>

text \<open>A C function that returns \<^verbatim>\<open>AEEResult\<close> or \<^verbatim>\<open>int nErr\<close> returns an \<open>int\<close> here.\<close>

abbreviation (input) AEE_SUCCESS :: int where "AEE_SUCCESS \<equiv> 0"
abbreviation (input) AEE_EFAILED :: int where "AEE_EFAILED \<equiv> 1"
abbreviation (input) AEE_ENOMEMORY :: int where "AEE_ENOMEMORY \<equiv> 2"
abbreviation (input) AEE_EEXPIRED :: int where "AEE_EEXPIRED \<equiv> 12"
abbreviation (input) AEE_EBADSTATE :: int where "AEE_EBADSTATE \<equiv> 13"
abbreviation (input) AEE_EBADPARM :: int where "AEE_EBADPARM \<equiv> 14"
abbreviation (input) AEE_EBADITEM :: int where "AEE_EBADITEM \<equiv> 16"
abbreviation (input) AEE_EUNSUPPORTED :: int where "AEE_EUNSUPPORTED \<equiv> 20"
abbreviation (input) AEE_ERESOURCENOTFOUND :: int where "AEE_ERESOURCENOTFOUND \<equiv> 22"
abbreviation (input) AEE_EALREADY :: int where "AEE_EALREADY \<equiv> 26"
abbreviation (input) AEE_ENOSUCH :: int where "AEE_ENOSUCH \<equiv> 39"
abbreviation (input) AEE_EINVALIDITEM :: int where "AEE_EINVALIDITEM \<equiv> 42"
abbreviation (input) AEE_EINVHANDLE :: int where "AEE_EINVHANDLE \<equiv> 44"
abbreviation (input) AEE_EINTERRUPTED :: int where "AEE_EINTERRUPTED \<equiv> 46"
abbreviation (input) AEE_EINVALIDDOMAIN :: int where "AEE_EINVALIDDOMAIN \<equiv> 57"
abbreviation (input) AEE_ENOSUCHMAP :: int where "AEE_ENOSUCHMAP \<equiv> 72"
abbreviation (input) AEE_EBADDOMAIN :: int where "AEE_EBADDOMAIN \<equiv> 75"
abbreviation (input) AEE_ENORPCMEMORY :: int where "AEE_ENORPCMEMORY \<equiv> 104"
abbreviation (input) AEE_ECONNRESET :: int where "AEE_ECONNRESET \<equiv> 104"
abbreviation (input) AEE_ERPC :: int where "AEE_ERPC \<equiv> 512"
abbreviation (input) AEE_EWOULDBLOCK :: int where "AEE_EWOULDBLOCK \<equiv> 516"

section \<open>C integers\<close>

text \<open>Conversion of any integer value to a 32-bit \<^verbatim>\<open>int\<close>: two's complement truncation.\<close>

definition int32 :: "int \<Rightarrow> int" where
  "int32 x = signed_take_bit 31 x"

abbreviation (input) INT_MAX :: int where "INT_MAX \<equiv> 2147483647"
abbreviation (input) INT_MIN :: int where "INT_MIN \<equiv> - 2147483648"

lemma int32_id [c_simps]: "INT_MIN \<le> x \<Longrightarrow> x \<le> INT_MAX \<Longrightarrow> int32 x = x"
  by (simp add: int32_def signed_take_bit_int_eq_self)

lemma int32_range: "INT_MIN \<le> int32 x \<and> int32 x \<le> INT_MAX"
  using signed_take_bit_int_greater_eq_minus_exp [of 31 x] signed_take_bit_int_less_exp [of 31 x]
  by (simp add: int32_def)

section \<open>Windows of lists\<close>

text \<open>\<open>window xs i n\<close> is what a copy of \<open>n\<close> bytes from offset \<open>i\<close> reads, \<open>overwrite xs i ys\<close>
  what a copy of the bytes \<open>ys\<close> to offset \<open>i\<close> leaves.\<close>

definition window :: "'a list \<Rightarrow> nat \<Rightarrow> nat \<Rightarrow> 'a list" where
  "window xs i n = take n (drop i xs)"

definition overwrite :: "'a list \<Rightarrow> nat \<Rightarrow> 'a list \<Rightarrow> 'a list" where
  "overwrite xs i ys = take i xs @ ys @ drop (i + length ys) xs"

lemma length_overwrite [simp]: "i + length ys \<le> length xs \<Longrightarrow> length (overwrite xs i ys) = length xs"
  by (simp add: overwrite_def)

lemma length_window [simp]: "i + n \<le> length xs \<Longrightarrow> length (window xs i n) = n"
  by (simp add: window_def)

lemma window_0 [simp]: "window xs i 0 = []"
  by (simp add: window_def)

lemma nth_window [simp]: "k < n \<Longrightarrow> i + n \<le> length xs \<Longrightarrow> window xs i n ! k = xs ! (i + k)"
  by (simp add: window_def)

lemma nth_overwrite:
  assumes "i + length ys \<le> length xs" and "k < length xs"
  shows "overwrite xs i ys ! k = (if i \<le> k \<and> k < i + length ys then ys ! (k - i) else xs ! k)"
  using assms by (auto simp: overwrite_def nth_append min_def)

lemma window_eqI:
  assumes "i + n \<le> length xs" and "j + n \<le> length ys"
    and "\<And>k. k < n \<Longrightarrow> xs ! (i + k) = ys ! (j + k)"
  shows "window xs i n = window ys j n"
  using assms by (intro nth_equalityI) auto

lemma window_overwrite_same [window_simps]:
  "i + length ys \<le> length xs \<Longrightarrow> window (overwrite xs i ys) i (length ys) = ys"
  by (intro nth_equalityI) (auto simp: nth_overwrite)

lemma window_overwrite_other [window_simps]:
  assumes "i + length ys \<le> length xs" and "j + n \<le> length xs"
    and "j + n \<le> i \<or> i + length ys \<le> j"
  shows "window (overwrite xs i ys) j n = window xs j n"
  using assms by (intro window_eqI) (auto simp: nth_overwrite)

lemma window_append: "window xs i (m + n) = window xs i m @ window xs (i + m) n"
  by (simp add: window_def take_add add.commute)

section \<open>Little-endian encoding\<close>

fun le_bytes :: "nat \<Rightarrow> 'a::len word \<Rightarrow> byte list" where
  "le_bytes 0 x = []"
| "le_bytes (Suc n) x = ucast x # le_bytes n (drop_bit 8 x)"

fun le_word :: "byte list \<Rightarrow> 'a::len word" where
  "le_word [] = 0"
| "le_word (b # bs) = ucast b OR push_bit 8 (le_word bs)"

lemma length_le_bytes [simp]: "length (le_bytes n x) = n"
  by (induction n arbitrary: x) auto

lemma le_word_le_bytes_take: "le_word (le_bytes n x) = take_bit (8 * n) x"
proof (induction n arbitrary: x)
  case 0
  then show ?case by simp
next
  case (Suc n)
  have "ucast (ucast x :: byte) OR push_bit 8 (take_bit (8 * n) (drop_bit 8 x)) = take_bit (8 * Suc n) x"
    by (rule bit_word_eqI)
      (auto simp: bit_or_iff bit_push_bit_iff bit_take_bit_iff bit_drop_bit_eq bit_ucast_iff not_less
        dest: bit_imp_le_length)
  then show ?case by (simp add: Suc.IH)
qed

lemma le_word_le_bytes32 [simp]: "le_word (le_bytes 4 x) = (x :: u32)"
  by (simp add: le_word_le_bytes_take take_bit_word_eq_self)

lemma le_word_le_bytes64 [simp]: "le_word (le_bytes 8 x) = (x :: u64)"
  by (simp add: le_word_le_bytes_take take_bit_word_eq_self)

section \<open>Rounding up to eight\<close>

text \<open>The C expression \<^verbatim>\<open>(len + 7) & (~7)\<close> on \<^verbatim>\<open>uint32_t\<close>, and its value where it does not wrap.\<close>

definition align8 :: "nat \<Rightarrow> nat" where
  "align8 n = (n + 7) div 8 * 8"

lemma align8_ge: "n \<le> align8 n"
  by (simp add: align8_def)

lemma align8_less: "align8 n < n + 8"
  by (simp add: align8_def)

lemma align8_dvd [simp]: "8 dvd align8 n"
  by (simp add: align8_def)

lemma align8_id [simp]: "8 dvd n \<Longrightarrow> align8 n = n"
  by (auto simp: align8_def)

lemma align8_add: "8 dvd m \<Longrightarrow> align8 (m + n) = m + align8 n"
proof -
  assume "8 dvd m"
  then obtain k where "m = 8 * k" ..
  then show ?thesis
    using div_mult_self1 [of 8 "n + 7" k] by (simp add: align8_def algebra_simps)
qed

lemma align8_le_iff: "8 dvd m \<Longrightarrow> align8 n \<le> m \<longleftrightarrow> n \<le> m"
  by (auto simp: align8_def elim: dvdE)

lemma unat_and_not_mask:
  fixes x :: "'a::len word"
  shows "unat (x AND NOT (mask n)) = unat x div 2 ^ n * 2 ^ n"
proof -
  have "x AND NOT (mask n) = push_bit n (drop_bit n x)"
    by (rule bit_word_eqI)
      (auto simp: bit_and_iff bit_not_iff bit_push_bit_iff bit_drop_bit_eq bit_mask_iff)
  moreover have lt: "unat x < 2 ^ LENGTH('a)" by (rule unsigned_less)
  moreover have "take_bit LENGTH('a) (unat x div 2 ^ n * 2 ^ n) = unat x div 2 ^ n * 2 ^ n"
    using lt div_times_less_eq_dividend [of "unat x" "2 ^ n"] by (intro take_bit_nat_eq_self) linarith
  ultimately show ?thesis
    by (simp add: unsigned_push_bit_eq unsigned_drop_bit_eq take_bit_nat_eq_self
        push_bit_eq_mult [of n "unat x div 2 ^ n"] drop_bit_eq_div [of n "unat x"])
qed

lemma align8_word:
  fixes x :: u32
  assumes "unat x + 7 < 2 ^ 32"
  shows "unat ((x + 7) AND NOT 7) = align8 (unat x)"
proof -
  have "unat (x + 7) = unat x + 7"
    using assms by (simp add: unat_word_ariths)
  then show ?thesis
    using unat_and_not_mask [of "x + 7" 3] by (simp add: align8_def mask_eq_exp_minus_1)
qed

end
