(* ===== verification/QList.thy ===== *)
theory QList
  imports Prelude
begin

text \<open>
  The intrusive, circular, doubly-linked list of \<^verbatim>\<open>inc/AEEQList.h\<close> on an explicit store: a node is
  an address, and the store maps every address to its two link fields. The operations are the
  assignments of the source in the source's order, so that aliasing between the nodes they touch
  (an empty list, a list of one node) is the source's. \<open>qlist h l xs\<close> says that in the store \<open>h\<close>
  the head node \<open>l\<close> heads a well-formed ring through exactly the nodes \<open>xs\<close>, in order; the
  lemmas show that every operation refines the operation on \<open>xs\<close> its name promises.
\<close>

type_synonym addr = nat

text \<open>\<^verbatim>\<open>struct QNode\<close>: the two link fields of every address; 0 is the null pointer.\<close>

record qstore =
  pNext :: "addr \<Rightarrow> addr"
  pPrev :: "addr \<Rightarrow> addr"

section \<open>Operations\<close>

definition set_next :: "addr \<Rightarrow> addr \<Rightarrow> qstore \<Rightarrow> qstore" where
  "set_next a v h = h\<lparr>pNext := (pNext h)(a := v)\<rparr>"

definition set_prev :: "addr \<Rightarrow> addr \<Rightarrow> qstore \<Rightarrow> qstore" where
  "set_prev a v h = h\<lparr>pPrev := (pPrev h)(a := v)\<rparr>"

definition QNode_InsPrev :: "addr \<Rightarrow> addr \<Rightarrow> qstore \<Rightarrow> qstore" where
  "QNode_InsPrev me pn h =
     (let pp = pPrev h me;
          h = set_next pn me h;
          h = set_prev pn pp h;
          h = set_next pp pn h
      in set_prev me pn h)"

definition QNode_InsNext :: "addr \<Rightarrow> addr \<Rightarrow> qstore \<Rightarrow> qstore" where
  "QNode_InsNext me pn h =
     (let nx = pNext h me;
          h = set_prev pn me h;
          h = set_next pn nx h;
          h = set_prev nx pn h
      in set_next me pn h)"

definition QNode_Dequeue :: "addr \<Rightarrow> qstore \<Rightarrow> qstore" where
  "QNode_Dequeue me h =
     (let nx = pNext h me;
          pp = pPrev h me;
          h = set_next pp nx h
      in set_prev nx pp h)"

definition QNode_CtorZ :: "addr \<Rightarrow> qstore \<Rightarrow> qstore" where
  "QNode_CtorZ me h = set_next me 0 (set_prev me 0 h)"

definition QNode_IsQueuedZ :: "addr \<Rightarrow> qstore \<Rightarrow> bool" where
  "QNode_IsQueuedZ me h \<longleftrightarrow> 0 \<noteq> pNext h me"

definition QNode_DequeueZ :: "addr \<Rightarrow> qstore \<Rightarrow> qstore" where
  "QNode_DequeueZ me h =
     (if QNode_IsQueuedZ me h then set_next me 0 (set_prev me 0 (QNode_Dequeue me h)) else h)"

definition QList_Zero :: "addr \<Rightarrow> qstore \<Rightarrow> qstore" where
  "QList_Zero me h = set_next me me (set_prev me me h)"

definition QList_Ctor :: "addr \<Rightarrow> qstore \<Rightarrow> qstore" where
  "QList_Ctor me h = QList_Zero me h"

definition QList_IsEmpty :: "addr \<Rightarrow> qstore \<Rightarrow> bool" where
  "QList_IsEmpty me h \<longleftrightarrow> pNext h me = me"

definition QList_IsNull :: "addr \<Rightarrow> qstore \<Rightarrow> bool" where
  "QList_IsNull me h \<longleftrightarrow> 0 = pNext h me \<and> 0 = pPrev h me"

definition QList_AppendNode :: "addr \<Rightarrow> addr \<Rightarrow> qstore \<Rightarrow> qstore" where
  "QList_AppendNode me pn h = QNode_InsPrev me pn h"

definition QList_PrependNode :: "addr \<Rightarrow> addr \<Rightarrow> qstore \<Rightarrow> qstore" where
  "QList_PrependNode me pn h = QNode_InsNext me pn h"

definition QList_CtorFrom :: "addr \<Rightarrow> addr \<Rightarrow> qstore \<Rightarrow> qstore" where
  "QList_CtorFrom me psrc h =
     (let s = psrc; d = me;
          h = set_prev (pNext h s) d h;
          h = set_prev d (pPrev h s) h;
          h = set_next d (pNext h s) h;
          h = set_next (pPrev h s) d h
      in QList_Zero psrc h)"

definition QList_AppendList :: "addr \<Rightarrow> addr \<Rightarrow> qstore \<Rightarrow> qstore" where
  "QList_AppendList me psrc h =
     (let s = psrc; d = me;
          dp = pPrev h d;
          sn = pNext h s;
          h = set_prev sn dp h;
          h = set_next dp sn h;
          sp = pPrev h s;
          h = set_prev d sp h;
          h = set_next sp d h
      in QList_Zero psrc h)"

definition QList_GetFirst :: "addr \<Rightarrow> qstore \<Rightarrow> addr" where
  "QList_GetFirst me h = (let pn = pNext h me in if pn = me then 0 else pn)"

definition QList_GetLast :: "addr \<Rightarrow> qstore \<Rightarrow> addr" where
  "QList_GetLast me h = (let pn = pPrev h me in if pn = me then 0 else pn)"

definition QList_Pop :: "addr \<Rightarrow> qstore \<Rightarrow> addr \<times> qstore" where
  "QList_Pop me h =
     (let pn = pNext h me;
          pnn = pNext h pn;
          h = set_next me pnn h;
          h = set_prev pnn me h
      in (if pn = me then 0 else pn, h))"

definition QList_PopZ :: "addr \<Rightarrow> qstore \<Rightarrow> addr \<times> qstore" where
  "QList_PopZ me h =
     (case QList_Pop me h of (pn, h) \<Rightarrow> (pn, if 0 \<noteq> pn then QNode_CtorZ pn h else h))"

definition QList_PopLast :: "addr \<Rightarrow> qstore \<Rightarrow> addr \<times> qstore" where
  "QList_PopLast me h =
     (let pp = pPrev h me;
          ppp = pPrev h pp;
          h = set_prev me ppp h;
          h = set_next ppp me h
      in (if pp = me then 0 else pp, h))"

definition QList_PopLastZ :: "addr \<Rightarrow> qstore \<Rightarrow> addr \<times> qstore" where
  "QList_PopLastZ me h =
     (case QList_PopLast me h of (pn, h) \<Rightarrow> (pn, if 0 \<noteq> pn then QNode_CtorZ pn h else h))"

text \<open>
  The iteration macros. A loop over the ring need not end in a store that is no ring, so the
  loops take fuel, and \<open>None\<close> is a loop that has not ended. \<open>QLIST_FOR_ALL\<close> visits the nodes and
  leaves the store alone. \<open>QLIST_NEXTSAFE_FOR_ALL\<close> runs a body at every node that may change the
  store, and reads the next node's link before the body runs.
\<close>

fun qlist_for_rest :: "nat \<Rightarrow> addr \<Rightarrow> addr \<Rightarrow> qstore \<Rightarrow> addr list option" where
  "qlist_for_rest 0 l pn h = None"
| "qlist_for_rest (Suc k) l pn h =
     (if pn \<noteq> l then map_option ((#) pn) (qlist_for_rest k l (pNext h pn) h) else Some [])"

definition QLIST_FOR_ALL :: "nat \<Rightarrow> addr \<Rightarrow> qstore \<Rightarrow> addr list option" where
  "QLIST_FOR_ALL k l h = qlist_for_rest k l (pNext h l) h"

fun qlist_rev_for_rest :: "nat \<Rightarrow> addr \<Rightarrow> addr \<Rightarrow> qstore \<Rightarrow> addr list option" where
  "qlist_rev_for_rest 0 l pn h = None"
| "qlist_rev_for_rest (Suc k) l pn h =
     (if pn \<noteq> l then map_option ((#) pn) (qlist_rev_for_rest k l (pPrev h pn) h) else Some [])"

definition QLIST_REV_FOR_ALL :: "nat \<Rightarrow> addr \<Rightarrow> qstore \<Rightarrow> addr list option" where
  "QLIST_REV_FOR_ALL k l h = qlist_rev_for_rest k l (pPrev h l) h"

fun qlist_nextsafe :: "nat \<Rightarrow> (addr \<Rightarrow> qstore \<Rightarrow> qstore) \<Rightarrow> addr \<Rightarrow> addr \<Rightarrow> addr \<Rightarrow> qstore \<Rightarrow> qstore option" where
  "qlist_nextsafe 0 f l pn pnn h = None"
| "qlist_nextsafe (Suc k) f l pn pnn h =
     (if pn \<noteq> l then let h = f pn h in qlist_nextsafe k f l pnn (pNext h pnn) h else Some h)"

definition QLIST_NEXTSAFE_FOR_ALL ::
  "nat \<Rightarrow> (addr \<Rightarrow> qstore \<Rightarrow> qstore) \<Rightarrow> addr \<Rightarrow> qstore \<Rightarrow> qstore option" where
  "QLIST_NEXTSAFE_FOR_ALL k f l h = (let pn = pNext h l in qlist_nextsafe k f l pn (pNext h pn) h)"

section \<open>Well-formed rings\<close>

text \<open>\<open>links h a xs b\<close>: the links lead from \<open>a\<close> through \<open>xs\<close> to \<open>b\<close>, and back.\<close>

fun links :: "qstore \<Rightarrow> addr \<Rightarrow> addr list \<Rightarrow> addr \<Rightarrow> bool" where
  "links h a [] b \<longleftrightarrow> pNext h a = b \<and> pPrev h b = a"
| "links h a (x # xs) b \<longleftrightarrow> pNext h a = x \<and> pPrev h x = a \<and> links h x xs b"

definition qlist :: "qstore \<Rightarrow> addr \<Rightarrow> addr list \<Rightarrow> bool" where
  "qlist h l xs \<longleftrightarrow> distinct (l # xs) \<and> 0 \<notin> set (l # xs) \<and> links h l xs l"

lemmas qstore_simps = set_next_def set_prev_def Let_def

lemma links_append:
  "links h a (xs @ y # ys) b \<longleftrightarrow> links h a xs y \<and> links h y ys b"
  by (induction xs arbitrary: a) auto

lemma links_cong:
  assumes "\<And>x. x \<in> set (a # xs) \<Longrightarrow> pNext h' x = pNext h x"
    and "\<And>x. x \<in> set (b # xs) \<Longrightarrow> pPrev h' x = pPrev h x"
  shows "links h' a xs b \<longleftrightarrow> links h a xs b"
  using assms by (induction xs arbitrary: a) auto

lemma links_last_next: "links h a xs b \<Longrightarrow> pNext h (last (a # xs)) = b"
  by (induction xs arbitrary: a) auto

lemma links_last_prev: "links h a xs b \<Longrightarrow> pPrev h b = last (a # xs)"
  by (induction xs arbitrary: a) auto

lemma links_first_next: "links h a xs b \<Longrightarrow> pNext h a = hd (xs @ [b])"
  by (cases xs) auto

lemma links_first_prev: "links h a xs b \<Longrightarrow> pPrev h (hd (xs @ [b])) = a"
  by (cases xs) auto

lemma links_append2:
  "links h a (xs @ ys) b \<longleftrightarrow> links h a xs (hd (ys @ [b])) \<and> links h (last (a # xs)) ys b"
  by (induction xs arbitrary: a) (auto dest: links_first_next links_first_prev)

text \<open>
  Cutting and joining: every operation of the interface moves one end of a chain of links to
  another node and leaves the rest of the chain alone.
\<close>

lemma links_redirect_end:
  assumes "links h a xs b" and "distinct (a # xs)"
    and "\<And>x. x \<in> set (a # xs) \<Longrightarrow> x \<noteq> last (a # xs) \<Longrightarrow> pNext h' x = pNext h x"
    and "\<And>x. x \<in> set xs \<Longrightarrow> pPrev h' x = pPrev h x"
    and "pNext h' (last (a # xs)) = c" and "pPrev h' c = last (a # xs)"
  shows "links h' a xs c"
  using assms
proof (induction xs arbitrary: a)
  case Nil
  then show ?case by simp
next
  case (Cons x xs)
  then have "a \<noteq> last (x # xs)"
    using last_in_set [of "x # xs"] by auto
  with Cons show ?case by auto
qed

lemma links_redirect_start:
  assumes "links h a xs b" and "distinct (xs @ [b])"
    and "\<And>x. x \<in> set xs \<Longrightarrow> pNext h' x = pNext h x"
    and "\<And>x. x \<in> set (b # xs) \<Longrightarrow> x \<noteq> hd (xs @ [b]) \<Longrightarrow> pPrev h' x = pPrev h x"
    and "pNext h' c = hd (xs @ [b])" and "pPrev h' (hd (xs @ [b])) = c"
  shows "links h' c xs b"
proof (cases xs)
  case Nil
  with assms show ?thesis by simp
next
  case (Cons x ys)
  have "links h' x ys b = links h x ys b"
    using assms Cons by (intro links_cong) auto
  with assms Cons show ?thesis by simp
qed

lemma qlist_frame:
  assumes "qlist h l xs"
    and "\<And>x. x \<in> set (l # xs) \<Longrightarrow> pNext h' x = pNext h x \<and> pPrev h' x = pPrev h x"
  shows "qlist h' l xs"
  using assms links_cong [of l xs h' h l] by (auto simp: qlist_def)

lemma qlist_Ctor: "l \<noteq> 0 \<Longrightarrow> qlist (QList_Ctor l h) l []"
  by (simp add: qlist_def QList_Ctor_def QList_Zero_def qstore_simps)

lemma qlist_IsEmpty: "qlist h l xs \<Longrightarrow> QList_IsEmpty l h \<longleftrightarrow> xs = []"
  by (cases xs) (auto simp: qlist_def QList_IsEmpty_def)

lemma qlist_GetFirst: "qlist h l xs \<Longrightarrow> QList_GetFirst l h = (if xs = [] then 0 else hd xs)"
  by (cases xs) (auto simp: qlist_def QList_GetFirst_def)

lemma qlist_prev_head: "qlist h l xs \<Longrightarrow> pPrev h l = last (l # xs)"
  by (auto simp: qlist_def dest: links_last_prev)

lemma qlist_GetLast:
  assumes "qlist h l xs"
  shows "QList_GetLast l h = (if xs = [] then 0 else last xs)"
proof -
  have "xs \<noteq> [] \<Longrightarrow> last xs \<noteq> l"
    using assms last_in_set [of xs] by (auto simp: qlist_def)
  with qlist_prev_head [OF assms] show ?thesis
    by (simp add: QList_GetLast_def)
qed

lemma qlist_InsPrev:
  assumes q: "qlist h l (xs @ ys)" and me: "hd (ys @ [l]) = me"
    and pn: "pn \<notin> set (l # xs @ ys)" "pn \<noteq> 0"
  shows "qlist (QNode_InsPrev me pn h) l (xs @ pn # ys)"
proof -
  obtain p where p: "last (l # xs) = p" by blast
  let ?h = "QNode_InsPrev me pn h"
  from q have d: "distinct (l # xs @ ys)" and nz: "0 \<notin> set (l # xs @ ys)"
    and l1: "links h l xs me" and l2: "links h p ys l"
    using me p by (auto simp only: qlist_def links_append2)
  have p_in: "p \<in> set (l # xs)" unfolding p [symmetric] by (rule last_in_set) simp
  have me_in: "me \<in> set (l # ys)" unfolding me [symmetric] by (cases ys) auto
  have h: "pNext ?h = (pNext h)(pn := me, p := pn)" "pPrev ?h = (pPrev h)(pn := p, me := pn)"
    using links_last_prev [OF l1] p by (simp_all add: QNode_InsPrev_def qstore_simps)
  have "links ?h l xs pn"
    by (rule links_redirect_end [OF l1]) (use d pn me_in p_in in \<open>auto simp: h p simp del: last.simps\<close>)
  moreover have "links ?h pn ys l"
    by (rule links_redirect_start [OF l2]) (use d pn me_in p_in in \<open>auto simp: h me\<close>)
  ultimately show ?thesis
    using d nz pn by (auto simp: qlist_def links_append)
qed

lemma qlist_AppendNode:
  "qlist h l xs \<Longrightarrow> pn \<notin> set (l # xs) \<Longrightarrow> pn \<noteq> 0 \<Longrightarrow> qlist (QList_AppendNode l pn h) l (xs @ [pn])"
  using qlist_InsPrev [of h l xs "[]" l pn] by (simp add: QList_AppendNode_def)

text \<open>Inserting after a node is inserting before its successor.\<close>

lemma qlist_InsNext:
  assumes q: "qlist h l (xs @ ys)" and me: "last (l # xs) = me"
    and pn: "pn \<notin> set (l # xs @ ys)" "pn \<noteq> 0"
  shows "qlist (QNode_InsNext me pn h) l (xs @ pn # ys)"
proof -
  obtain n where n: "hd (ys @ [l]) = n" by blast
  from q have l1: "links h l xs n" and l2: "links h me ys l"
    using me n by (auto simp only: qlist_def links_append2)
  have "me \<in> set (l # xs)" unfolding me [symmetric] by (rule last_in_set) simp
  moreover have "n \<in> set (l # ys)" unfolding n [symmetric] by (cases ys) auto
  ultimately have "QNode_InsNext me pn h = QNode_InsPrev n pn h"
    using pn links_last_prev [OF l1] links_first_next [OF l2] me n
    by (auto simp: QNode_InsNext_def QNode_InsPrev_def qstore_simps fun_upd_twist)
  with qlist_InsPrev [OF q n pn] show ?thesis by simp
qed

lemma qlist_PrependNode:
  assumes "qlist h l xs" and "pn \<notin> set (l # xs)" and "pn \<noteq> 0"
  shows "qlist (QList_PrependNode l pn h) l (pn # xs)"
  using qlist_InsNext [of h l "[]" xs l pn] assms by (simp add: QList_PrependNode_def)

lemma Dequeue_fields:
  assumes "links h l xs x" and "links h x ys l"
  shows "pNext (QNode_Dequeue x h) = (pNext h)(last (l # xs) := hd (ys @ [l]))"
    and "pPrev (QNode_Dequeue x h) = (pPrev h)(hd (ys @ [l]) := last (l # xs))"
  using links_last_prev [OF assms(1)] links_first_next [OF assms(2)]
  by (simp_all add: QNode_Dequeue_def qstore_simps)

lemma qlist_Dequeue:
  assumes q: "qlist h l (xs @ x # ys)"
  shows "qlist (QNode_Dequeue x h) l (xs @ ys)"
proof -
  obtain p n where p: "last (l # xs) = p" and n: "hd (ys @ [l]) = n" by blast
  let ?h = "QNode_Dequeue x h"
  from q have d: "distinct (l # xs @ x # ys)" and nz: "0 \<notin> set (l # xs @ x # ys)"
    and l1: "links h l xs x" and l2: "links h x ys l"
    by (auto simp: qlist_def links_append)
  note h = Dequeue_fields [OF l1 l2, unfolded p n]
  have p_in: "p \<in> set (l # xs)" unfolding p [symmetric] by (rule last_in_set) simp
  have n_in: "n \<in> set (l # ys)" unfolding n [symmetric] by (cases ys) auto
  have "links ?h l xs n"
    by (rule links_redirect_end [OF l1]) (use d n_in p_in in \<open>auto simp: h p simp del: last.simps\<close>)
  moreover have "links ?h p ys l"
    by (rule links_redirect_start [OF l2]) (use d n_in p_in in \<open>auto simp: h n\<close>)
  ultimately have "links ?h l (xs @ ys) l"
    unfolding links_append2 p n by blast
  with d nz show ?thesis by (auto simp: qlist_def)
qed

lemma qlist_set_unlinked:
  "qlist h l xs \<Longrightarrow> x \<notin> set (l # xs) \<Longrightarrow> qlist (set_next x v (set_prev x w h)) l xs"
  by (erule qlist_frame) (auto simp: qstore_simps)

lemma qlist_member_queued: "qlist h l xs \<Longrightarrow> x \<in> set xs \<Longrightarrow> QNode_IsQueuedZ x h"
proof -
  assume q: "qlist h l xs" and "x \<in> set xs"
  then obtain as bs where xs: "xs = as @ x # bs" by (meson split_list)
  with q have "links h x bs l" and "0 \<notin> set (l # xs)" by (auto simp: qlist_def links_append)
  then have "pNext h x = hd (bs @ [l])" and "hd (bs @ [l]) \<noteq> 0"
    using xs by (cases bs; auto dest: links_first_next)+
  then show ?thesis by (simp add: QNode_IsQueuedZ_def)
qed

lemma qlist_DequeueZ:
  assumes "qlist h l (xs @ x # ys)"
  shows "qlist (QNode_DequeueZ x h) l (xs @ ys)" and "\<not> QNode_IsQueuedZ x (QNode_DequeueZ x h)"
proof -
  have "x \<notin> set (l # xs @ ys)" using assms by (auto simp: qlist_def)
  with qlist_set_unlinked [OF qlist_Dequeue [OF assms]] qlist_member_queued [OF assms]
  show "qlist (QNode_DequeueZ x h) l (xs @ ys)"
    by (simp add: QNode_DequeueZ_def)
  show "\<not> QNode_IsQueuedZ x (QNode_DequeueZ x h)"
    using qlist_member_queued [OF assms]
    by (simp add: QNode_DequeueZ_def QNode_IsQueuedZ_def qstore_simps)
qed

lemma Pop_Cons: "qlist h l (x # xs) \<Longrightarrow> QList_Pop l h = (x, QNode_Dequeue x h)"
  by (auto simp: qlist_def QList_Pop_def QNode_Dequeue_def qstore_simps)

lemma qlist_Pop:
  assumes "qlist h l xs"
  shows "qlist (snd (QList_Pop l h)) l (tl xs)"
    and "fst (QList_Pop l h) = (if xs = [] then 0 else hd xs)"
proof -
  have "qlist (snd (QList_Pop l h)) l (tl xs) \<and> fst (QList_Pop l h) = (if xs = [] then 0 else hd xs)"
  proof (cases xs)
    case Nil
    with assms show ?thesis by (simp add: qlist_def QList_Pop_def qstore_simps)
  next
    case (Cons x ys)
    with assms qlist_Dequeue [of h l "[]" x ys] show ?thesis by (simp add: Pop_Cons)
  qed
  then show "qlist (snd (QList_Pop l h)) l (tl xs)"
    and "fst (QList_Pop l h) = (if xs = [] then 0 else hd xs)" by simp_all
qed

lemma PopLast_snoc:
  assumes q: "qlist h l (xs @ [x])"
  shows "QList_PopLast l h = (x, QNode_Dequeue x h)"
proof -
  from q have "x \<noteq> l" and "pNext h x = l" and "pPrev h l = x" by (auto simp: qlist_def links_append)
  then show ?thesis
    by (simp add: QList_PopLast_def QNode_Dequeue_def qstore_simps)
qed

lemma qlist_PopLast:
  assumes "qlist h l xs"
  shows "qlist (snd (QList_PopLast l h)) l (butlast xs) \<and>
    fst (QList_PopLast l h) = (if xs = [] then 0 else last xs)"
proof (cases xs rule: rev_cases)
  case Nil
  with assms show ?thesis by (simp add: qlist_def QList_PopLast_def qstore_simps)
next
  case (snoc ys x)
  with assms qlist_Dequeue [of h l ys x "[]"] show ?thesis by (simp add: PopLast_snoc)
qed

lemma qlist_PopZ:
  assumes "qlist h l (x # xs)"
  shows "fst (QList_PopZ l h) = x" and "qlist (snd (QList_PopZ l h)) l xs"
    and "\<not> QNode_IsQueuedZ x (snd (QList_PopZ l h))"
proof -
  have x: "x \<noteq> 0" "x \<notin> set (l # xs)" using assms by (auto simp: qlist_def)
  then show "fst (QList_PopZ l h) = x"
    by (simp add: QList_PopZ_def Pop_Cons [OF assms])
  show "qlist (snd (QList_PopZ l h)) l xs"
    using x qlist_set_unlinked [OF qlist_Pop(1) [OF assms, simplified] x(2)]
    by (simp add: QList_PopZ_def QNode_CtorZ_def Pop_Cons [OF assms])
  show "\<not> QNode_IsQueuedZ x (snd (QList_PopZ l h))"
    using x by (simp add: QList_PopZ_def QNode_CtorZ_def Pop_Cons [OF assms] QNode_IsQueuedZ_def qstore_simps)
qed

lemma qlist_CtorFrom:
  assumes q: "qlist h s xs" and d: "d \<notin> set (s # xs)" "d \<noteq> 0"
  shows "qlist (QList_CtorFrom d s h) d xs" and "qlist (QList_CtorFrom d s h) s []"
proof -
  let ?h = "QList_CtorFrom d s h"
  have s: "s \<noteq> 0" "s \<noteq> d" using q d by (auto simp: qlist_def)
  show "qlist ?h s []"
    using s by (simp add: qlist_def QList_CtorFrom_def QList_Zero_def qstore_simps)
  show "qlist ?h d xs"
  proof (cases xs)
    case Nil
    with q d s show ?thesis
      by (auto simp: qlist_def QList_CtorFrom_def QList_Zero_def qstore_simps)
  next
    case (Cons x ys)
    obtain p where p: "last (x # ys) = p" by blast
    from q Cons have x: "pNext h s = x" and l: "links h x ys s" and dist: "distinct (s # x # ys)"
      by (auto simp: qlist_def)
    have p_in: "p \<in> set (x # ys)" unfolding p [symmetric] by (rule last_in_set) simp
    have "pPrev h s = p" using links_last_prev [OF l] p by simp
    then have h: "pNext ?h = (pNext h)(d := x, p := d, s := s)"
      "pPrev ?h = (pPrev h)(x := d, d := p, s := s)"
      using x d dist Cons s by (auto simp: QList_CtorFrom_def QList_Zero_def qstore_simps)
    have "links ?h x ys d"
      by (rule links_redirect_end [OF l])
        (use dist d Cons p_in in \<open>auto simp: h p simp del: last.simps\<close>)
    then show ?thesis
      using q d dist Cons p_in by (auto simp: qlist_def h)
  qed
qed

lemma qlist_AppendList:
  assumes q: "qlist h d xs" and r: "qlist h s ys" and disj: "set (d # xs) \<inter> set (s # ys) = {}"
  shows "qlist (QList_AppendList d s h) d (xs @ ys)" and "qlist (QList_AppendList d s h) s []"
proof -
  let ?h = "QList_AppendList d s h"
  obtain dp where dp: "last (d # xs) = dp" by blast
  have dp_in: "dp \<in> set (d # xs)" unfolding dp [symmetric] by (rule last_in_set) simp
  have pd: "pPrev h d = dp" and nd: "pNext h dp = d" and l1: "links h d xs d"
    using q dp links_last_prev links_last_next by (auto simp: qlist_def simp del: last.simps)
  show "qlist ?h s []"
    using r by (simp add: qlist_def QList_AppendList_def QList_Zero_def qstore_simps)
  show "qlist ?h d (xs @ ys)"
  proof (cases ys)
    case Nil
    have "qlist ?h d xs"
      by (rule qlist_frame [OF q])
        (use r Nil disj pd nd dp_in in \<open>auto simp: qlist_def QList_AppendList_def QList_Zero_def qstore_simps\<close>)
    with Nil show ?thesis by simp
  next
    case (Cons y zs)
    obtain sp where sp: "last (y # zs) = sp" by blast
    have sp_in: "sp \<in> set (y # zs)" unfolding sp [symmetric] by (rule last_in_set) simp
    from r Cons have y: "pNext h s = y" and l2: "links h y zs s" and dist: "distinct (s # y # zs)"
      by (auto simp: qlist_def)
    have "pPrev h s = sp" using links_last_prev [OF l2] sp by simp
    then have h: "pNext ?h = (pNext h)(dp := y, sp := d, s := s)"
      "pPrev ?h = (pPrev h)(y := dp, d := sp, s := s)"
      using y pd dist by (auto simp: QList_AppendList_def QList_Zero_def qstore_simps)
    have dd: "distinct (d # xs)" "0 \<notin> set (d # xs)" "0 \<notin> set ys"
      using q r by (auto simp: qlist_def)
    have "links ?h d xs y"
      by (rule links_redirect_end [OF l1])
        (use dd dist disj Cons dp_in sp_in in \<open>auto simp: h dp simp del: last.simps\<close>)
    moreover have "links ?h y zs d"
      by (rule links_redirect_end [OF l2])
        (use dist disj Cons dp_in sp_in in \<open>auto simp: h sp simp del: last.simps\<close>)
    ultimately show ?thesis
      using dd dist disj Cons by (auto simp: qlist_def links_append)
  qed
qed

section \<open>The iteration macros visit the ring\<close>

lemma qlist_for_rest_links:
  "links h a xs l \<Longrightarrow> l \<notin> set xs \<Longrightarrow> length xs < k \<Longrightarrow>
     qlist_for_rest k l (pNext h a) h = Some xs"
proof (induction xs arbitrary: a k)
  case Nil
  then show ?case by (cases k) auto
next
  case (Cons x xs)
  then obtain j where "k = Suc j" by (cases k) auto
  with Cons show ?case by auto
qed

lemma QLIST_FOR_ALL_visits:
  "qlist h l xs \<Longrightarrow> length xs < k \<Longrightarrow> QLIST_FOR_ALL k l h = Some xs"
  by (auto simp: QLIST_FOR_ALL_def qlist_def intro: qlist_for_rest_links)

lemma qlist_rev_for_rest_links:
  "links h l xs b \<Longrightarrow> l \<notin> set xs \<Longrightarrow> length xs < k \<Longrightarrow>
     qlist_rev_for_rest k l (pPrev h b) h = Some (rev xs)"
proof (induction xs arbitrary: b k rule: rev_induct)
  case Nil
  then show ?case by (cases k) auto
next
  case (snoc x xs)
  then obtain j where "k = Suc j" by (cases k) auto
  with snoc show ?case by (auto simp: links_append)
qed

lemma QLIST_REV_FOR_ALL_visits:
  "qlist h l xs \<Longrightarrow> length xs < k \<Longrightarrow> QLIST_REV_FOR_ALL k l h = Some (rev xs)"
  by (auto simp: QLIST_REV_FOR_ALL_def qlist_def intro: qlist_rev_for_rest_links)

text \<open>Dequeuing every node while iterating empties the ring: the loop the memory module runs
  when a session closes.\<close>

lemma QLIST_NEXTSAFE_drain:
  "qlist h l xs \<Longrightarrow> length xs < k \<Longrightarrow>
     \<exists>h'. QLIST_NEXTSAFE_FOR_ALL k QNode_DequeueZ l h = Some h' \<and> qlist h' l []"
proof (induction xs arbitrary: h k)
  case Nil
  then show ?case by (cases k) (auto simp: QLIST_NEXTSAFE_FOR_ALL_def qlist_def)
next
  case (Cons x xs)
  let ?h = "QNode_DequeueZ x h"
  from Cons.prems obtain j where j: "k = Suc j" "length xs < j" by (cases k) auto
  have q: "qlist ?h l xs" using qlist_DequeueZ(1) [of h l "[]" x xs] Cons.prems by simp
  have "x \<noteq> l" and "pNext h l = x" and "pNext h x = pNext ?h l"
  proof -
    show "x \<noteq> l" and "pNext h l = x" using Cons.prems by (auto simp: qlist_def)
    have "pNext h x = hd (xs @ [l])"
      using Cons.prems by (auto simp: qlist_def dest: links_first_next)
    moreover have "pNext ?h l = hd (xs @ [l])"
      using q by (auto simp: qlist_def dest: links_first_next)
    ultimately show "pNext h x = pNext ?h l" by simp
  qed
  then have "QLIST_NEXTSAFE_FOR_ALL k QNode_DequeueZ l h = QLIST_NEXTSAFE_FOR_ALL j QNode_DequeueZ l ?h"
    by (simp add: QLIST_NEXTSAFE_FOR_ALL_def j Let_def)
  with Cons.IH [OF q j(2)] show ?case by simp
qed

section \<open>The interface the list's users rely on\<close>

text \<open>What a user of the list needs: a representation by a list of nodes, a node added at the end
  and the first node taken off. Adding nodes and taking as many off gives them back in order.\<close>

locale node_queue =
  fixes rep :: "'h \<Rightarrow> addr \<Rightarrow> addr list \<Rightarrow> bool"
    and put :: "addr \<Rightarrow> addr \<Rightarrow> 'h \<Rightarrow> 'h"
    and take_first :: "addr \<Rightarrow> 'h \<Rightarrow> addr \<times> 'h"
  assumes put_rep: "rep h l xs \<Longrightarrow> pn \<notin> set (l # xs) \<Longrightarrow> pn \<noteq> 0 \<Longrightarrow> rep (put l pn h) l (xs @ [pn])"
    and take_rep: "rep h l (x # xs) \<Longrightarrow> rep (snd (take_first l h)) l xs"
    and take_fst: "rep h l (x # xs) \<Longrightarrow> fst (take_first l h) = x"
begin

fun take_n :: "nat \<Rightarrow> addr \<Rightarrow> 'h \<Rightarrow> addr list \<times> 'h" where
  "take_n 0 l h = ([], h)"
| "take_n (Suc n) l h =
     (case take_first l h of (x, h) \<Rightarrow> case take_n n l h of (xs, h) \<Rightarrow> (x # xs, h))"

lemma put_all:
  "rep h l xs \<Longrightarrow> distinct (l # xs @ ns) \<Longrightarrow> 0 \<notin> set ns \<Longrightarrow> rep (fold (put l) ns h) l (xs @ ns)"
proof (induction ns arbitrary: h xs)
  case Nil
  then show ?case by simp
next
  case (Cons n ns)
  then have "rep (put l n h) l (xs @ [n])" by (intro put_rep) auto
  then show ?case using Cons.IH [of "put l n h" "xs @ [n]"] Cons.prems by simp
qed

lemma take_all: "rep h l (xs @ ys) \<Longrightarrow> \<exists>h'. take_n (length xs) l h = (xs, h') \<and> rep h' l ys"
proof (induction xs arbitrary: h)
  case Nil
  then show ?case by simp
next
  case (Cons x xs)
  then have "rep (snd (take_first l h)) l (xs @ ys)" and "fst (take_first l h) = x"
    by (auto intro: take_rep take_fst)
  with Cons.IH show ?case by (fastforce simp: split_beta)
qed

lemma fifo:
  assumes "rep h l []" and "distinct (l # ns)" and "0 \<notin> set ns"
  shows "\<exists>h'. take_n (length ns) l (fold (put l) ns h) = (ns, h') \<and> rep h' l []"
  using put_all [OF assms(1), of ns] take_all [of "fold (put l) ns h" l ns "[]"] assms by simp

end

interpretation qn: node_queue qlist QList_AppendNode QList_PopZ
  by unfold_locales (auto intro: qlist_AppendNode qlist_PopZ)

end
