(* ===== verification/Bufbound.thy ===== *)
theory Bufbound
  imports Prelude
begin

text \<open>
  The bounded output buffer of \<^verbatim>\<open>src/BufBound.c\<close>. Pointers are 64-bit words, so pointer
  arithmetic wraps as the comment at the head of the source says it may; a difference of pointers
  is signed and is cut to 32 bits where the source stores it in an \<^verbatim>\<open>int\<close>. The memory is a
  function from addresses to characters that every operation returns. The reference is the text
  written so far: \<open>bb_rep\<close> says that the write pointer counts its length, saturating at
  \<open>INT_MAX\<close>, and that the buffer holds as much of its beginning as fits.
\<close>

type_synonym cmem = "uptr \<Rightarrow> char"

record BufBound =
  pcBuf :: uptr
  pcWrite :: uptr
  pcEnd :: uptr

section \<open>Operations\<close>

text \<open>\<^verbatim>\<open>ptrdiff_t\<close>: the signed difference of two pointers.\<close>

definition pdiff :: "uptr \<Rightarrow> uptr \<Rightarrow> int" where
  "pdiff a b = sint (a - b)"

definition PCSAT :: "BufBound \<Rightarrow> uptr" where
  "PCSAT me = pcBuf me + of_int INT_MAX"

text \<open>Returns the advanced buffer, where to write and how many characters to write.\<close>

definition BufBound_ValidateWrite :: "BufBound \<Rightarrow> int \<Rightarrow> BufBound \<times> uptr \<times> int" where
  "BufBound_ValidateWrite me nLen =
     (let w = pcWrite me;
          nMaxCopy = int32 (pdiff (pcEnd me) w);
          (nLen', nMaxCopy') =
            (if nMaxCopy < nLen
             then (let nMaxAdvance = int32 (pdiff (PCSAT me) w)
                   in (if nLen > nMaxAdvance then nMaxAdvance else nLen,
                       if nMaxCopy < 0 then 0 else nMaxCopy))
             else (nLen, nLen))
      in (me\<lparr>pcWrite := w + of_int nLen'\<rparr>, w, nMaxCopy'))"

text \<open>The loops \<^verbatim>\<open>while (--nLen >= 0) pcDest[nLen] = \<dots>\<close>: from the last character to the first.\<close>

fun write_down :: "nat \<Rightarrow> uptr \<Rightarrow> (nat \<Rightarrow> char) \<Rightarrow> cmem \<Rightarrow> cmem" where
  "write_down 0 d f m = m"
| "write_down (Suc n) d f m = write_down n d f (m(d + of_nat n := f n))"

definition BufBound_Write :: "BufBound \<Rightarrow> char list \<Rightarrow> int \<Rightarrow> cmem \<Rightarrow> BufBound \<times> cmem" where
  "BufBound_Write me pc nLen m =
     (if nLen > 0
      then (case BufBound_ValidateWrite me nLen of
              (me', pcDest, nLen') \<Rightarrow> (me', write_down (nat nLen') pcDest (\<lambda>i. pc ! i) m))
      else (me, m))"

definition BufBound_Putnc :: "BufBound \<Rightarrow> char \<Rightarrow> int \<Rightarrow> cmem \<Rightarrow> BufBound \<times> cmem" where
  "BufBound_Putnc me c nLen m =
     (if nLen > 0
      then (case BufBound_ValidateWrite me nLen of
              (me', pcDest, nLen') \<Rightarrow> (me', write_down (nat nLen') pcDest (\<lambda>_. c) m))
      else (me, m))"

definition BufBound_Advance :: "BufBound \<Rightarrow> int \<Rightarrow> BufBound" where
  "BufBound_Advance me nLen =
     (let u = uint (word_of_int (pdiff (pcWrite me) (pcBuf me) + nLen) :: u32);
          uOffset = (if u > INT_MAX then (if nLen < 0 then 0 else INT_MAX) else u)
      in me\<lparr>pcWrite := pcBuf me + of_int uOffset\<rparr>)"

definition BufBound_Init :: "uptr \<Rightarrow> int \<Rightarrow> BufBound" where
  "BufBound_Init pBuf nLen =
     (let nLen' = (if nLen < 0 then 0 else nLen)
      in \<lparr>pcBuf = pBuf, pcWrite = pBuf, pcEnd = pBuf + of_int nLen'\<rparr>)"

definition BufBound_Putc :: "BufBound \<Rightarrow> char \<Rightarrow> cmem \<Rightarrow> BufBound \<times> cmem" where
  "BufBound_Putc me c m =
     (if pdiff (pcEnd me) (pcWrite me) > 0
      then (me\<lparr>pcWrite := pcWrite me + 1\<rparr>, m(pcWrite me := c))
      else if pcWrite me \<noteq> PCSAT me then (me\<lparr>pcWrite := pcWrite me + 1\<rparr>, m)
      else (me, m))"

definition BufBound_ForceNullTerm :: "BufBound \<Rightarrow> cmem \<Rightarrow> BufBound \<times> cmem" where
  "BufBound_ForceNullTerm me m =
     (if pdiff (pcEnd me) (pcWrite me) > 0
      then (me\<lparr>pcWrite := pcWrite me + 1\<rparr>, m(pcWrite me := CHR 0x00))
      else (let me' = (if pcWrite me \<noteq> PCSAT me then me\<lparr>pcWrite := pcWrite me + 1\<rparr> else me)
            in (me', if pcEnd me' \<noteq> pcBuf me' then m(pcEnd me' - 1 := CHR 0x00) else m)))"

text \<open>A C string argument is its characters; \<^verbatim>\<open>strlen\<close> is converted to \<^verbatim>\<open>int\<close> by the call.\<close>

definition BufBound_Puts :: "BufBound \<Rightarrow> char list \<Rightarrow> cmem \<Rightarrow> BufBound \<times> cmem" where
  "BufBound_Puts me cpsz m = BufBound_Write me cpsz (int32 (int (length cpsz))) m"

definition BufBound_BufSize :: "BufBound \<Rightarrow> int" where
  "BufBound_BufSize me = int32 (pdiff (pcEnd me) (pcBuf me))"

definition BufBound_Left :: "BufBound \<Rightarrow> int" where
  "BufBound_Left me = int32 (pdiff (pcEnd me) (pcWrite me))"

definition BufBound_ReallyWrote :: "BufBound \<Rightarrow> int" where
  "BufBound_ReallyWrote me =
     int32 (min (pdiff (pcEnd me) (pcBuf me)) (pdiff (pcWrite me) (pcBuf me)))"

definition BufBound_Wrote :: "BufBound \<Rightarrow> int" where
  "BufBound_Wrote me = int32 (pdiff (pcWrite me) (pcBuf me))"

section \<open>The reference: the text written\<close>

definition sat_len :: "'a list \<Rightarrow> int" where
  "sat_len t = min (int (length t)) INT_MAX"

definition bb_rep :: "BufBound \<Rightarrow> cmem \<Rightarrow> uptr \<Rightarrow> int \<Rightarrow> char list \<Rightarrow> bool" where
  "bb_rep me m base n t \<longleftrightarrow>
     0 \<le> n \<and> n \<le> INT_MAX \<and> pcBuf me = base \<and> pcEnd me = base + of_int n \<and>
     pcWrite me = base + of_int (sat_len t) \<and>
     (\<forall>i < length t. int i < n \<longrightarrow> m (base + of_nat i) = t ! i)"

text \<open>Two memories agree outside the \<open>n\<close> bytes at \<open>base\<close>.\<close>

definition same_outside :: "uptr \<Rightarrow> int \<Rightarrow> cmem \<Rightarrow> cmem \<Rightarrow> bool" where
  "same_outside base n m m' \<longleftrightarrow> (\<forall>a. (\<forall>i. int i < n \<longrightarrow> a \<noteq> base + of_nat i) \<longrightarrow> m' a = m a)"

lemma sat_len_bounds: "0 \<le> sat_len t" "sat_len t \<le> INT_MAX"
  by (simp_all add: sat_len_def)

lemma same_outside_refl [simp]: "same_outside base n m m"
  by (simp add: same_outside_def)

lemma same_outside_trans:
  "same_outside base n m m' \<Longrightarrow> same_outside base n m' m'' \<Longrightarrow> same_outside base n m m''"
  by (simp add: same_outside_def)

lemma pdiff_offsets:
  assumes "- (2 ^ 63) \<le> x - y" and "x - y < 2 ^ 63"
  shows "pdiff (base + of_int x) (base + of_int y) = x - y"
proof -
  have "(base + of_int x) - (base + of_int y) = (of_int (x - y) :: uptr)" by simp
  then show ?thesis
    using assms by (simp add: pdiff_def sint_sbintrunc' signed_take_bit_int_eq_self del: of_int_diff)
qed

lemma offset_eq_iff:
  assumes "0 \<le> x" "x < 2 ^ 64" "0 \<le> y" "y < 2 ^ 64"
  shows "base + of_int x = (base + of_int y :: uptr) \<longleftrightarrow> x = y"
  using assms by (auto simp: word_of_int_eq_iff take_bit_int_eq_self)

lemma write_down_other: "(\<And>i. i < n \<Longrightarrow> a \<noteq> d + of_nat i) \<Longrightarrow> write_down n d f m a = m a"
  by (induction n arbitrary: m) auto

lemma write_down_at:
  assumes "i < n" and "n \<le> 2 ^ 63"
  shows "write_down n d f m (d + of_nat i) = f i"
  using assms
proof (induction n arbitrary: m)
  case 0
  then show ?case by simp
next
  case (Suc n)
  have "(of_nat n :: uptr) \<noteq> of_nat j" if "j < n" for j
    using that Suc.prems by (auto simp: word_of_nat_eq_iff take_bit_nat_eq_self)
  then have "i = n \<Longrightarrow> ?case" by (auto simp: write_down_other)
  with Suc show ?case by (cases "i = n") auto
qed

text \<open>What \<^verbatim>\<open>BufBound_ValidateWrite\<close> computes, in terms of the text written so far.\<close>

lemma ValidateWrite_rep:
  assumes r: "bb_rep me m base n t" and k: "0 < k" "k \<le> INT_MAX"
  shows "BufBound_ValidateWrite me k =
    (me\<lparr>pcWrite := base + of_int (min (sat_len t + k) INT_MAX)\<rparr>, base + of_int (sat_len t),
     max 0 (min k (n - sat_len t)))"
proof -
  let ?w = "sat_len t"
  note b = sat_len_bounds [of t]
  from r have n: "0 \<le> n" "n \<le> INT_MAX" and f: "pcBuf me = base" "pcEnd me = base + of_int n"
    "pcWrite me = base + of_int ?w" by (auto simp: bb_rep_def)
  have d: "pdiff (base + of_int n) (base + of_int ?w) = n - ?w" "pdiff (PCSAT me) (base + of_int ?w) = INT_MAX - ?w"
    using n b pdiff_offsets [of n ?w base] pdiff_offsets [of INT_MAX ?w base]
    by (simp_all add: f PCSAT_def)
  show ?thesis
    using n b k by (auto simp: BufBound_ValidateWrite_def f d int32_id min_def max_def Let_def add.assoc)
qed

lemma bb_rep_write_down:
  assumes r: "bb_rep me m base n t" and f: "\<And>i. i < length s \<Longrightarrow> f i = s ! i"
    and me': "me' = me\<lparr>pcWrite := base + of_int (min (sat_len t + int (length s)) INT_MAX)\<rparr>"
    and m': "m' = write_down (nat (max 0 (min (int (length s)) (n - sat_len t))))
      (base + of_int (sat_len t)) f m"
  shows "bb_rep me' m' base n (t @ s)" and "same_outside base n m m'"
proof -
  let ?w = "sat_len t" and ?k = "nat (max 0 (min (int (length s)) (n - sat_len t)))"
  note b = sat_len_bounds [of t]
  from r have n: "0 \<le> n" "n \<le> INT_MAX" and old: "\<And>i. i < length t \<Longrightarrow> int i < n \<Longrightarrow> m (base + of_nat i) = t ! i"
    by (auto simp: bb_rep_def)
  have at: "base + of_int ?w + of_nat j = base + of_int (?w + int j)" for j by simp
  show "same_outside base n m m'"
    unfolding same_outside_def
  proof (intro allI impI)
    fix a assume out: "\<forall>i. int i < n \<longrightarrow> a \<noteq> base + of_nat i"
    have "a \<noteq> base + of_int ?w + of_nat j" if "j < ?k" for j
    proof -
      have "int (nat (?w + int j)) < n" using that b by auto
      with out have "a \<noteq> base + of_nat (nat (?w + int j))" by blast
      with b show ?thesis by (simp add: at)
    qed
    then show "m' a = m a" unfolding m' by (rule write_down_other)
  qed
  have "m' (base + of_nat i) = (t @ s) ! i" if i: "i < length (t @ s)" "int i < n" for i
  proof (cases "i < length t")
    case True
    have "base + of_nat i \<noteq> base + of_int ?w + of_nat j" if "j < ?k" for j
      using that True i n b offset_eq_iff [of "int i" "?w + int j" base]
      by (simp add: at sat_len_def min_def split: if_splits)
    with True i old show ?thesis by (simp add: m' write_down_other nth_append)
  next
    case False
    then have w: "?w = int (length t)" using i n by (simp add: sat_len_def)
    then have "i - length t < ?k" "base + of_nat i = base + of_int ?w + of_nat (i - length t)"
      using False i n by auto
    moreover have "?k \<le> 2 ^ 63" using n b by simp
    ultimately have "m' (base + of_nat i) = f (i - length t)"
      unfolding m' using write_down_at by metis
    with f False i show ?thesis by (simp add: nth_append)
  qed
  then show "bb_rep me' m' base n (t @ s)"
    using r by (auto simp: me' bb_rep_def sat_len_def min_def)
qed

lemma BufBound_Write_rep:
  assumes r: "bb_rep me m base n t" and len: "length s \<le> nat INT_MAX"
    and w: "BufBound_Write me s (int (length s)) m = (me', m')"
  shows "bb_rep me' m' base n (t @ s) \<and> same_outside base n m m'"
proof (cases "s = []")
  case True
  with r w show ?thesis by (simp add: BufBound_Write_def)
next
  case False
  then have "0 < int (length s)" "int (length s) \<le> INT_MAX" using len by auto
  with ValidateWrite_rep [OF r] w False show ?thesis
    by (auto simp: BufBound_Write_def intro!: bb_rep_write_down [OF r])
qed

lemma BufBound_Puts_rep:
  assumes "bb_rep me m base n t" and "length s \<le> nat INT_MAX" and "BufBound_Puts me s m = (me', m')"
  shows "bb_rep me' m' base n (t @ s) \<and> same_outside base n m m'"
  using assms BufBound_Write_rep [OF assms(1,2)] by (auto simp: BufBound_Puts_def int32_id)

lemma BufBound_Putnc_rep:
  assumes r: "bb_rep me m base n t" and k: "0 \<le> k" "k \<le> INT_MAX" and w: "BufBound_Putnc me c k m = (me', m')"
  shows "bb_rep me' m' base n (t @ replicate (nat k) c) \<and> same_outside base n m m'"
proof (cases "k = 0")
  case True
  with r w show ?thesis by (simp add: BufBound_Putnc_def)
next
  case False
  with ValidateWrite_rep [OF r, of k] k w show ?thesis
    by (auto simp: BufBound_Putnc_def intro!: bb_rep_write_down [OF r, of "replicate (nat k) c" "\<lambda>_. c"])
qed

text \<open>\<^verbatim>\<open>Putc\<close> is \<^verbatim>\<open>Write\<close> of one character.\<close>

lemma Putc_eq_Write:
  assumes r: "bb_rep me m base n t"
  shows "BufBound_Putc me c m = BufBound_Write me [c] 1 m"
proof -
  let ?w = "sat_len t"
  note b = sat_len_bounds [of t]
  from r have n: "0 \<le> n" "n \<le> INT_MAX" and f: "pcBuf me = base" "pcEnd me = base + of_int n"
    "pcWrite me = base + of_int ?w" by (auto simp: bb_rep_def)
  have d: "pdiff (base + of_int n) (base + of_int ?w) = n - ?w"
    using n b pdiff_offsets [of n ?w base] by simp
  have e: "base + of_int ?w = PCSAT me \<longleftrightarrow> ?w = INT_MAX"
    using b offset_eq_iff [of ?w INT_MAX base] by (simp add: PCSAT_def f)
  have me_eq: "?w = INT_MAX \<Longrightarrow> me\<lparr>pcWrite := base + 2147483647\<rparr> = me"
    using f by simp
  show ?thesis
    using n b ValidateWrite_rep [OF r, of 1] me_eq
    by (auto simp: BufBound_Putc_def BufBound_Write_def f d e min_def max_def add.assoc)
qed

lemma BufBound_Putc_rep:
  assumes "bb_rep me m base n t" and "BufBound_Putc me c m = (me', m')"
  shows "bb_rep me' m' base n (t @ [c]) \<and> same_outside base n m m'"
  using assms BufBound_Write_rep [OF assms(1), of "[c]"] by (simp add: Putc_eq_Write)

lemma BufBound_Init_rep: "n \<le> INT_MAX \<Longrightarrow> bb_rep (BufBound_Init p n) m p (max 0 n) []"
  by (auto simp: bb_rep_def BufBound_Init_def sat_len_def max_def)

lemma BufBound_Wrote_rep: "bb_rep me m base n t \<Longrightarrow> BufBound_Wrote me = sat_len t"
  using sat_len_bounds [of t] pdiff_offsets [of "sat_len t" 0 base]
  by (simp add: bb_rep_def BufBound_Wrote_def int32_id)

lemma BufBound_ReallyWrote_rep: "bb_rep me m base n t \<Longrightarrow> BufBound_ReallyWrote me = min n (int (length t))"
  using sat_len_bounds [of t] pdiff_offsets [of "sat_len t" 0 base] pdiff_offsets [of n 0 base]
  by (auto simp: bb_rep_def BufBound_ReallyWrote_def int32_id sat_len_def min_def)

lemma BufBound_Left_rep: "bb_rep me m base n t \<Longrightarrow> BufBound_Left me = n - sat_len t"
  using sat_len_bounds [of t] pdiff_offsets [of n "sat_len t" base]
  by (simp add: bb_rep_def BufBound_Left_def int32_id)

lemma BufBound_BufSize_rep: "bb_rep me m base n t \<Longrightarrow> BufBound_BufSize me = n"
  using pdiff_offsets [of n 0 base] by (simp add: bb_rep_def BufBound_BufSize_def int32_id)

text \<open>\<^verbatim>\<open>BufBound_Advance\<close> clamps the write offset to the range it may have.\<close>

lemma BufBound_Advance_clamps:
  assumes w: "pcWrite me = pcBuf me + of_int w" "0 \<le> w" "w \<le> INT_MAX"
    and k: "INT_MIN \<le> k" "k \<le> INT_MAX"
  shows "BufBound_Advance me k = me\<lparr>pcWrite := pcBuf me + of_int (max 0 (min INT_MAX (w + k)))\<rparr>"
proof -
  have d: "pdiff (pcWrite me) (pcBuf me) = w"
    using w pdiff_offsets [of w 0 "pcBuf me"] by simp
  have "(w + k) mod 2 ^ 32 = (w + k + 2 ^ 32) mod 2 ^ 32" by simp
  then have u: "uint (word_of_int (w + k) :: u32) = (if w + k < 0 then w + k + 2 ^ 32 else w + k)"
    using w k by (auto simp: uint_word_of_int mod_pos_pos_trivial simp del: mod_add_self2 of_int_add)
  show ?thesis
    using w(2,3) k by (auto simp: BufBound_Advance_def Let_def d u min_def max_def simp del: of_int_add)
qed

text \<open>\<^verbatim>\<open>BufBound_ForceNullTerm\<close> leaves a C string: the text cut to what fits with its terminator.\<close>

lemma ForceNullTerm_cases:
  assumes r: "bb_rep me m base n t"
  shows "int (length t) < n \<Longrightarrow> BufBound_ForceNullTerm me m = BufBound_Putc me (CHR 0x00) m"
    and "n \<le> int (length t) \<Longrightarrow> BufBound_ForceNullTerm me m =
      (fst (BufBound_Putc me (CHR 0x00) m), if n = 0 then m else m(base + of_int (n - 1) := CHR 0x00))"
proof -
  let ?w = "sat_len t"
  note b = sat_len_bounds [of t]
  from r have n: "0 \<le> n" "n \<le> INT_MAX" and f: "pcBuf me = base" "pcEnd me = base + of_int n"
    "pcWrite me = base + of_int ?w" by (auto simp: bb_rep_def)
  have d: "pdiff (base + of_int n) (base + of_int ?w) = n - ?w"
    using n b pdiff_offsets [of n ?w base] by simp
  have e: "base + of_int n = base \<longleftrightarrow> n = 0"
    using n offset_eq_iff [of n 0 base] by simp
  show "int (length t) < n \<Longrightarrow> BufBound_ForceNullTerm me m = BufBound_Putc me (CHR 0x00) m"
    using n by (auto simp: BufBound_ForceNullTerm_def BufBound_Putc_def f d) (auto simp: sat_len_def)
  show "n \<le> int (length t) \<Longrightarrow> BufBound_ForceNullTerm me m =
      (fst (BufBound_Putc me (CHR 0x00) m), if n = 0 then m else m(base + of_int (n - 1) := CHR 0x00))"
    using n e f d by (auto simp: BufBound_ForceNullTerm_def BufBound_Putc_def sat_len_def Let_def algebra_simps)
qed

lemma BufBound_ForceNullTerm_rep:
  assumes r: "bb_rep me m base n t" and f: "BufBound_ForceNullTerm me m = (me', m')"
  shows "same_outside base n m m'" (is ?out)
    and "BufBound_Wrote me' = sat_len (t @ [CHR 0x00])" (is ?wrote)
    and "\<forall>i < length t. int i < n - 1 \<longrightarrow> m' (base + of_nat i) = t ! i" (is ?text)
    and "0 < n \<longrightarrow> m' (base + of_int (min (int (length t)) (n - 1))) = CHR 0x00" (is ?nul)
proof -
  obtain me1 m1 where p: "BufBound_Putc me (CHR 0x00) m = (me1, m1)" by fastforce
  then have r1: "bb_rep me1 m1 base n (t @ [CHR 0x00])" and o1: "same_outside base n m m1"
    using BufBound_Putc_rep [OF r] by blast+
  have n: "0 \<le> n" "n \<le> INT_MAX" using r by (auto simp: bb_rep_def)
  have "?out \<and> ?wrote \<and> ?text \<and> ?nul"
  proof (cases "int (length t) < n")
    case True
    with ForceNullTerm_cases(1) [OF r] f p have eq: "me' = me1" "m' = m1" by simp_all
    have "m1 (base + of_nat i) = (t @ [CHR 0x00]) ! i" if "i \<le> length t" for i
      using r1 that True by (auto simp: bb_rep_def)
    then have "i < length t \<Longrightarrow> m1 (base + of_nat i) = t ! i" "m1 (base + of_nat (length t)) = CHR 0x00" for i
      by (auto simp: nth_append)
    with True o1 BufBound_Wrote_rep [OF r1] show ?thesis by (auto simp: eq min_def)
  next
    case False
    with ForceNullTerm_cases(2) [OF r] f p
    have eq: "me' = me1" "m' = (if n = 0 then m else m(base + of_int (n - 1) := CHR 0x00))"
      by (auto split: if_splits)
    have "base + of_nat i \<noteq> base + of_int (n - 1)" if "int i < n - 1" for i
      using that n offset_eq_iff [of "int i" "n - 1" base] by simp
    then have ?text using r by (auto simp: eq bb_rep_def)
    moreover have ?out
      using n by (auto simp: same_outside_def eq dest!: spec [of _ "nat (n - 1)"])
    ultimately show ?thesis
      using False n BufBound_Wrote_rep [OF r1] by (auto simp: eq min_def)
  qed
  then show ?out ?wrote ?text ?nul by blast+
qed

end
