(* ===== verification/StdPath.thy ===== *)
theory StdPath
  imports Bufbound
begin

text \<open>
  Path construction and splitting of \<^verbatim>\<open>src/std_path.c\<close>. \<^verbatim>\<open>std_makepath\<close> is the sequence of
  bounded-buffer calls of the source; its input strings are their characters, without the
  terminator. \<^verbatim>\<open>std_splitpath\<close> and \<^verbatim>\<open>std_basename\<close> return a pointer into their argument, here the
  string that starts at it, and \<open>None\<close> for the null pointer.
\<close>

section \<open>Operations\<close>

definition std_makepath :: "string \<Rightarrow> string \<Rightarrow> uptr \<Rightarrow> int \<Rightarrow> cmem \<Rightarrow> int \<times> cmem" where
  "std_makepath cpszDir cpszFile pszOut nOutLen m =
     (let bb = BufBound_Init pszOut nOutLen;
          (bb, m) = BufBound_Puts bb cpszDir m;
          (bb, m) = (if cpszDir \<noteq> [] \<and> CHR ''/'' \<noteq> last cpszDir
                     then BufBound_Putc bb (CHR ''/'') m else (bb, m));
          cpszFile = (if cpszFile \<noteq> [] \<and> CHR ''/'' = hd cpszFile then tl cpszFile else cpszFile);
          (bb, m) = BufBound_Puts bb cpszFile m;
          (bb, m) = BufBound_ForceNullTerm bb m
      in (BufBound_Wrote bb - 1, m))"

text \<open>The loop of \<^verbatim>\<open>std_splitpath\<close> compares the directory with the path character by character;
  the terminator of a path that ends early differs from any character of the directory.\<close>

fun std_splitpath :: "string \<Rightarrow> string \<Rightarrow> string option" where
  "std_splitpath cpsz cpszDir =
     (if cpszDir = [] \<or> cpszDir = ''/''
      then (case cpsz of
              [] \<Rightarrow> Some []
            | c # cs \<Rightarrow> if CHR ''/'' = c then Some cs else None)
      else (case cpsz of
              [] \<Rightarrow> None
            | c # cs \<Rightarrow> if hd cpszDir \<noteq> c then None else std_splitpath cs (tl cpszDir)))"

declare std_splitpath.simps [simp del]

text \<open>\<^verbatim>\<open>strrchr\<close>: the suffix that starts at the last occurrence of a character.\<close>

fun strrchr :: "string \<Rightarrow> char \<Rightarrow> string option" where
  "strrchr [] c = None"
| "strrchr (x # xs) c =
     (case strrchr xs c of Some s \<Rightarrow> Some s | None \<Rightarrow> if x = c then Some (x # xs) else None)"

definition std_basename :: "string \<Rightarrow> string" where
  "std_basename cpszFile = (case strrchr cpszFile (CHR ''/'') of Some s \<Rightarrow> tl s | None \<Rightarrow> cpszFile)"

section \<open>Reference\<close>

text \<open>The path that \<^verbatim>\<open>std_makepath\<close> is to build.\<close>

definition path_of :: "string \<Rightarrow> string \<Rightarrow> string" where
  "path_of d f = d @ (if d \<noteq> [] \<and> last d \<noteq> CHR ''/'' then ''/'' else []) @
     (if f \<noteq> [] \<and> hd f = CHR ''/'' then tl f else f)"

text \<open>The directory without the one trailing slash that \<^verbatim>\<open>std_splitpath\<close> ignores.\<close>

definition dir_base :: "string \<Rightarrow> string" where
  "dir_base d = (if d \<noteq> [] \<and> last d = CHR ''/'' then butlast d else d)"

text \<open>The memory at \<open>p\<close> holds the C string \<open>s\<close>.\<close>

definition holds_cstr :: "cmem \<Rightarrow> uptr \<Rightarrow> string \<Rightarrow> bool" where
  "holds_cstr m p s \<longleftrightarrow>
     (\<forall>i < length s. m (p + of_nat i) = s ! i) \<and> m (p + of_nat (length s)) = CHR 0x00"

lemma std_makepath_run:
  assumes n: "n \<le> INT_MAX" and d: "length d \<le> nat INT_MAX" and f: "length f \<le> nat INT_MAX"
    and run: "std_makepath d f p n m = (ret, m')"
  obtains bb1 m1 where "bb_rep bb1 m1 p (max 0 n) (path_of d f)" and "same_outside p (max 0 n) m m1"
    and "BufBound_Wrote (fst (BufBound_ForceNullTerm bb1 m1)) - 1 = ret"
    and "snd (BufBound_ForceNullTerm bb1 m1) = m'"
proof -
  let ?sl = "d \<noteq> [] \<and> CHR ''/'' \<noteq> last d"
  let ?f = "if f \<noteq> [] \<and> CHR ''/'' = hd f then tl f else f"
  obtain b1 m1 where s1: "BufBound_Puts (BufBound_Init p n) d m = (b1, m1)" by fastforce
  obtain b2 m2 where s2: "(if ?sl then BufBound_Putc b1 (CHR ''/'') m1 else (b1, m1)) = (b2, m2)" by fastforce
  obtain b3 m3 where s3: "BufBound_Puts b2 ?f m2 = (b3, m3)" by fastforce
  have f': "length ?f \<le> nat INT_MAX" using f by auto
  have r1: "bb_rep b1 m1 p (max 0 n) d \<and> same_outside p (max 0 n) m m1"
    using BufBound_Puts_rep [OF BufBound_Init_rep [OF n] d s1] by simp
  then have r2: "bb_rep b2 m2 p (max 0 n) (d @ (if ?sl then ''/'' else [])) \<and> same_outside p (max 0 n) m1 m2"
    using s2 BufBound_Putc_rep [of b1 m1 p "max 0 n" d "CHR ''/''" b2 m2] by (cases ?sl) auto
  then have r3: "bb_rep b3 m3 p (max 0 n) (path_of d f) \<and> same_outside p (max 0 n) m2 m3"
    using BufBound_Puts_rep [OF conjunct1 [OF r2] f' s3] by (auto simp: path_of_def split: if_splits)
  show ?thesis
  proof (rule that)
    show "bb_rep b3 m3 p (max 0 n) (path_of d f)" using r3 by simp
    show "same_outside p (max 0 n) m m3" using r1 r2 r3 by (meson same_outside_trans)
    show "BufBound_Wrote (fst (BufBound_ForceNullTerm b3 m3)) - 1 = ret"
      and "snd (BufBound_ForceNullTerm b3 m3) = m'"
      using run s1 s2 s3 by (auto simp: std_makepath_def Let_def split_beta split: if_splits)
  qed
qed

lemma std_makepath_correct:
  assumes n: "n \<le> INT_MAX" and d: "length d \<le> nat INT_MAX" and f: "length f \<le> nat INT_MAX"
    and run: "std_makepath d f p n m = (ret, m')"
  shows "ret = sat_len (path_of d f @ [CHR 0x00]) - 1"
    and "0 < n \<longrightarrow> holds_cstr m' p (take (nat (n - 1)) (path_of d f))"
    and "same_outside p (max 0 n) m m'"
proof -
  from std_makepath_run [OF assms] obtain bb1 m1 where
    r: "bb_rep bb1 m1 p (max 0 n) (path_of d f)" and o: "same_outside p (max 0 n) m m1"
    and w: "BufBound_Wrote (fst (BufBound_ForceNullTerm bb1 m1)) - 1 = ret"
    and m: "snd (BufBound_ForceNullTerm bb1 m1) = m'" by blast
  note F = BufBound_ForceNullTerm_rep [OF r surjective_pairing]
  show "ret = sat_len (path_of d f @ [CHR 0x00]) - 1" using F(2) w by simp
  show "same_outside p (max 0 n) m m'" using same_outside_trans [OF o F(1)] m by simp
  show "0 < n \<longrightarrow> holds_cstr m' p (take (nat (n - 1)) (path_of d f))"
  proof
    assume pos: "0 < n"
    have len: "of_nat (length (take (nat (n - 1)) (path_of d f))) =
        (of_int (min (int (length (path_of d f))) (n - 1)) :: uptr)"
    proof -
      have "int (length (take (nat (n - 1)) (path_of d f))) = min (int (length (path_of d f))) (n - 1)"
        using pos by auto
      then show ?thesis by (metis of_int_of_nat_eq)
    qed
    show "holds_cstr m' p (take (nat (n - 1)) (path_of d f))"
      unfolding holds_cstr_def len using F(3,4) pos m by auto
  qed
qed

lemma std_splitpath_iff:
  "std_splitpath path d = Some f \<longleftrightarrow> path = dir_base d @ CHR ''/'' # f \<or> path = dir_base d \<and> f = []"
proof (induction path d rule: std_splitpath.induct)
  case (1 cpsz d)
  show ?case
  proof (cases "d = [] \<or> d = ''/''")
    case True
    then show ?thesis
      by (auto simp: std_splitpath.simps [of cpsz] dir_base_def split: list.splits)
  next
    case False
    then obtain a as where d: "d = a # as" by (cases d) auto
    have base: "dir_base (a # as) = a # dir_base as"
      using False d by (auto simp: dir_base_def)
    show ?thesis
    proof (cases cpsz)
      case Nil
      then show ?thesis using False d by (auto simp: std_splitpath.simps [of "[]"] base)
    next
      case (Cons c cs)
      then show ?thesis
        using "1.IH" [OF False Cons] False d by (auto simp: std_splitpath.simps [of "c # cs"] base)
    qed
  qed
qed

lemma strrchr_None: "strrchr s c = None \<longleftrightarrow> c \<notin> set s"
  by (induction s) (auto split: option.splits)

lemma strrchr_Some: "strrchr s c = Some t \<Longrightarrow> \<exists>a b. s = a @ t \<and> t = c # b \<and> c \<notin> set b"
proof (induction s arbitrary: t)
  case Nil
  then show ?case by simp
next
  case (Cons x xs)
  show ?case
  proof (cases "strrchr xs c")
    case None
    with Cons.prems show ?thesis by (auto simp: strrchr_None split: if_splits)
  next
    case (Some u)
    with Cons.prems have "t = u" by simp
    with Cons.IH [OF Some] show ?thesis by (metis append_Cons)
  qed
qed

section \<open>Properties\<close>

text \<open>For any directory, file and output size, \<^verbatim>\<open>std_makepath\<close> returns the length of the joined
  path (saturating), whether or not it fits; it leaves a terminated string, cut to the output size,
  and writes nowhere outside the output buffer.\<close>

theorem std_makepath_spec:
  assumes "n \<le> INT_MAX" and "length d \<le> nat INT_MAX" and "length f \<le> nat INT_MAX"
  shows "case std_makepath d f p n m of (ret, m') \<Rightarrow>
     ret = min (int (length (path_of d f))) (INT_MAX - 1) \<and>
     (0 < n \<longrightarrow> holds_cstr m' p (take (nat (n - 1)) (path_of d f))) \<and>
     same_outside p (max 0 n) m m'"
proof -
  obtain ret m' where run: "std_makepath d f p n m = (ret, m')" by fastforce
  with std_makepath_correct [OF assms run] show ?thesis
    by (auto simp: sat_len_def)
qed

theorem std_makepath_spec_witness:
  "case std_makepath ''d/'' ''/f'' 4096 3 (\<lambda>_. CHR ''x'') of (ret, m') \<Rightarrow>
     ret = 3 \<and> holds_cstr m' 4096 ''d/'' \<and> same_outside 4096 3 (\<lambda>_. CHR ''x'') m'"
  using std_makepath_spec [of 3 "''d/''" "''/f''" 4096 "\<lambda>_. CHR ''x''"]
  by (simp add: path_of_def split_beta numeral_2_eq_2)

text \<open>\<^verbatim>\<open>std_splitpath\<close> returns \<open>f\<close> exactly when the path is the directory (one trailing slash
  ignored) followed by a slash and \<open>f\<close>, or is the directory itself and \<open>f\<close> is empty.\<close>

theorem std_splitpath_spec:
  "std_splitpath path d = Some f \<longleftrightarrow> path = dir_base d @ ''/'' @ f \<or> path = dir_base d \<and> f = ''''"
  by (simp add: std_splitpath_iff)

text \<open>Splitting a path that \<^verbatim>\<open>std_makepath\<close> joined, by the same directory, gives the file back.\<close>

theorem splitpath_makepath_roundtrip:
  assumes "d \<noteq> ''''" and "f = '''' \<or> hd f \<noteq> CHR ''/''"
  shows "std_splitpath (path_of d f) d = Some f"
proof -
  have "last d = CHR ''/'' \<Longrightarrow> d = butlast d @ ''/''"
    using append_butlast_last_id [OF assms(1)] by simp
  then have "path_of d f = dir_base d @ ''/'' @ f"
    using assms by (cases "last d = CHR ''/''") (auto simp: path_of_def dir_base_def)
  then show ?thesis by (simp add: std_splitpath_iff)
qed

theorem splitpath_makepath_roundtrip_witness:
  "std_splitpath (path_of ''/d'' ''f'') ''/d'' = Some ''f''"
  by (rule splitpath_makepath_roundtrip) simp_all

text \<open>\<^verbatim>\<open>std_basename\<close> returns the part after the last slash.\<close>

theorem std_basename_spec:
  "CHR ''/'' \<notin> set (std_basename s) \<and>
   (s = std_basename s \<or> (\<exists>a. s = a @ ''/'' @ std_basename s))"
proof (cases "strrchr s (CHR ''/'')")
  case None
  moreover from None have "CHR ''/'' \<notin> set s" by (simp add: strrchr_None)
  ultimately show ?thesis by (simp add: std_basename_def)
next
  case (Some t)
  with strrchr_Some [OF Some] show ?thesis by (auto simp: std_basename_def)
qed

text \<open>The header says that the result of \<^verbatim>\<open>std_splitpath\<close> never begins with a slash; with a
  doubled slash in the path it does.\<close>

theorem std_splitpath_may_begin_with_slash: "std_splitpath ''/d//f'' ''/d'' = Some ''/f''"
  by (simp add: std_splitpath.simps)

end
