(* ===== verification/Session.thy ===== *)
theory Session
  imports Prelude
begin

text \<open>
  The part of the session table \<^verbatim>\<open>hlist\<close> of \<^verbatim>\<open>src/fastrpc_apps_user.c\<close> that the memory and queue
  modules use: the device and the reference count of every effective domain, the thread's current
  domain, the translation of kernel error numbers in \<^verbatim>\<open>inc/fastrpc_internal.h\<close>, and the requests
  that \<^verbatim>\<open>src/fastrpc_ioctl.c\<close> hands to the kernel driver. The driver itself is not part of the
  repository: it is an argument, the function from requests to answers.
\<close>

abbreviation (input) AEE_EUNKNOWN :: int where "AEE_EUNKNOWN \<equiv> -1"
abbreviation (input) AEE_EITEMBUSY :: int where "AEE_EITEMBUSY \<equiv> 32"
abbreviation (input) AEE_ENOSUCHDEVICE :: int where "AEE_ENOSUCHDEVICE \<equiv> 67"
abbreviation (input) AEE_EBADPERMS :: int where "AEE_EBADPERMS \<equiv> 78"
abbreviation (input) AEE_ENOTINITIALIZED :: int where "AEE_ENOTINITIALIZED \<equiv> 107"
abbreviation (input) AEE_ECONNREFUSED :: int where "AEE_ECONNREFUSED \<equiv> 114"
abbreviation (input) AEE_EFILE :: int where "AEE_EFILE \<equiv> 513"
abbreviation (input) INVALID_DEVICE :: int where "INVALID_DEVICE \<equiv> -1"

section \<open>Domains and kernel errors\<close>

text \<open>Eight domains in four sessions: 32 effective domain ids.\<close>

definition IS_VALID_EFFECTIVE_DOMAIN_ID :: "int \<Rightarrow> bool" where
  "IS_VALID_EFFECTIVE_DOMAIN_ID domain \<longleftrightarrow> 0 \<le> domain \<and> domain < 32"

definition all_domains :: "int list" where
  "all_domains = [0..31]"

text \<open>The \<^verbatim>\<open>switch\<close> of \<^verbatim>\<open>convert_kernel_to_user_error\<close>; the cases \<^verbatim>\<open>ENOENT\<close> (2) and \<^verbatim>\<open>EBUSY\<close> (16) have
  no \<^verbatim>\<open>break\<close> and fall through to the default.\<close>

definition convert_kernel_to_user_error :: "int \<Rightarrow> int \<Rightarrow> int" where
  "convert_kernel_to_user_error nErr err_no =
     (if \<not> (nErr = AEE_EUNKNOWN \<and> err_no \<noteq> 0 \<and> 0 \<le> err_no \<and> err_no \<le> 135) then nErr
      else if err_no \<in> {5, 109, 99, 25, 56} then AEE_ERPC
      else if err_no \<in> {14, 44, 77, 22, 9, 52, 53, 75, 112, 17, 74} then AEE_EBADPARM
      else if err_no \<in> {6, 19, 126} then AEE_ENOSUCHDEVICE
      else if err_no \<in> {105, 12} then AEE_ENOMEMORY
      else if err_no \<in> {63, 122, 110, 87, 108} then AEE_EEXPIRED
      else if err_no \<in> {107, 111} then AEE_ECONNREFUSED
      else if err_no \<in> {104, 32} then AEE_ECONNRESET
      else if err_no = 93 then AEE_EUNSUPPORTED
      else if err_no = 27 then AEE_EFILE
      else if err_no \<in> {13, 1} then AEE_EBADPERMS
      else AEE_ERPC)"

section \<open>The session table\<close>

datatype domain_state = FASTRPC_DOMAIN_STATE_CLEAN | FASTRPC_DOMAIN_STATE_INIT | FASTRPC_DOMAIN_STATE_DEINIT

record handle_list =
  state :: domain_state
  ref :: u32
  dev :: int

text \<open>\<open>hlist\<close> is \<open>None\<close> while the table is not allocated. \<open>tls\<close> is the table entry the calling thread
  last used, \<open>tlsKey\<close> whether the thread-local key was created, \<open>init_err\<close> what the one-time
  initialisation of the library returned.\<close>

record session =
  hlist :: "(int \<Rightarrow> handle_list) option"
  tlsKey :: bool
  tls :: "int option"
  init_err :: int

definition upd_domain :: "int \<Rightarrow> (handle_list \<Rightarrow> handle_list) \<Rightarrow> session \<Rightarrow> session" where
  "upd_domain d f s = s\<lparr>hlist := map_option (\<lambda>h. h(d := f (h d))) (hlist s)\<rparr>"

definition set_thread_context :: "int \<Rightarrow> session \<Rightarrow> session" where
  "set_thread_context domain s = (if tlsKey s then s\<lparr>tls := Some domain\<rparr> else s)"

definition get_current_domain :: "int \<Rightarrow> session \<Rightarrow> int" where
  "get_current_domain default_domain_id s =
     (let domain = (case tls s of Some d \<Rightarrow> d | None \<Rightarrow> -1)
      in if \<not> IS_VALID_EFFECTIVE_DOMAIN_ID domain then default_domain_id else domain)"

definition fastrpc_session_get :: "int \<Rightarrow> session \<Rightarrow> int \<times> session" where
  "fastrpc_session_get domain s =
     (case hlist s of
        None \<Rightarrow> (AEE_ENOTINITIALIZED, s)
      | Some h \<Rightarrow>
          if state (h domain) = FASTRPC_DOMAIN_STATE_DEINIT then (AEE_ENOTINITIALIZED, s)
          else (0, set_thread_context domain (upd_domain domain (\<lambda>e. e\<lparr>ref := ref e + 1\<rparr>) s)))"

definition fastrpc_session_put :: "int \<Rightarrow> session \<Rightarrow> int \<times> session" where
  "fastrpc_session_put domain s =
     (case hlist s of
        None \<Rightarrow> (AEE_ENOTINITIALIZED, s)
      | Some h \<Rightarrow>
          (let s' = (if ref (h domain) > 0 then upd_domain domain (\<lambda>e. e\<lparr>ref := ref e - 1\<rparr>) s else s);
               r = (if ref (h domain) > 0 then ref (h domain) - 1 else ref (h domain))
           in (sint r, s')))"

text \<open>Returns the error and the device that \<^verbatim>\<open>*dev\<close> is set to.\<close>

definition fastrpc_session_dev :: "int \<Rightarrow> session \<Rightarrow> int \<times> int" where
  "fastrpc_session_dev domain s =
     (if \<not> IS_VALID_EFFECTIVE_DOMAIN_ID domain then (AEE_ENOTINITIALIZED, INVALID_DEVICE)
      else case hlist s of
        None \<Rightarrow> (AEE_ENOTINITIALIZED, INVALID_DEVICE)
      | Some h \<Rightarrow>
          if state (h domain) = FASTRPC_DOMAIN_STATE_DEINIT then (AEE_ENOTINITIALIZED, INVALID_DEVICE)
          else if dev (h domain) < 0 then (AEE_ENOTINITIALIZED, INVALID_DEVICE)
          else (AEE_SUCCESS, dev (h domain)))"

definition get_device_fd :: "int \<Rightarrow> session \<Rightarrow> int" where
  "get_device_fd domain s =
     (case hlist s of Some h \<Rightarrow> if dev (h domain) \<noteq> -1 then dev (h domain) else -1 | None \<Rightarrow> -1)"

text \<open>\<^verbatim>\<open>open_device_node\<close> opens a device file: its answer is an argument. \<open>None\<close>: \<^verbatim>\<open>*dev\<close> is not set.\<close>

definition fastrpc_session_open :: "int \<Rightarrow> int \<Rightarrow> session \<Rightarrow> int \<times> int option" where
  "fastrpc_session_open domain device s =
     (case hlist s of
        Some h \<Rightarrow> if dev (h domain) \<noteq> -1 then (0, Some (dev (h domain)))
                  else if device \<ge> 0 then (0, Some device) else (AEE_ECONNREFUSED, None)
      | None \<Rightarrow> if device \<ge> 0 then (0, Some device) else (AEE_ECONNREFUSED, None))"

text \<open>Returns the table and the device descriptor that is closed, if any.\<close>

definition fastrpc_session_close :: "int \<Rightarrow> int \<Rightarrow> session \<Rightarrow> session \<times> int option" where
  "fastrpc_session_close domain d s =
     (case hlist s of
        None \<Rightarrow> (s, None)
      | Some h \<Rightarrow>
          if dev (h domain) = INVALID_DEVICE \<and> d \<noteq> INVALID_DEVICE then (s, Some d)
          else if dev (h domain) \<noteq> INVALID_DEVICE \<and> d = INVALID_DEVICE
          then (upd_domain domain (\<lambda>e. e\<lparr>dev := INVALID_DEVICE\<rparr>) s, Some (dev (h domain)))
          else (s, None))"

section \<open>Requests to the kernel driver\<close>

datatype ioctl_req = MEM_MAP | MEM_UNMAP | MMAP | MUNMAP | MMAP_64 | MUNMAP_64 | MUNMAP_FD

text \<open>The structures that the driver interface fills: device, then the fields in order.\<close>

datatype kreq =
    KMemMap int int int u32 u64 u64 int   \<comment> \<open>device, fd, offset, flags, vaddrin, length, attrs\<close>
  | KMmap int int u32 u64 u64             \<comment> \<open>device, fd, flags, vaddrin, size\<close>
  | KMemUnmap int int u64 u64             \<comment> \<open>device, fd, vaddr, length\<close>
  | KMunmap int u64 u64                   \<comment> \<open>device, vaddrout, size\<close>

record kans =
  k_err :: int
  k_vaddrout :: u64
  k_errno :: int

type_synonym kernel = "kreq \<Rightarrow> kans"

text \<open>Returns the error, what \<^verbatim>\<open>*vaddrout\<close> is set to (if it is) and \<^verbatim>\<open>errno\<close>.\<close>

definition ioctl_mmap ::
  "kernel \<Rightarrow> int \<Rightarrow> ioctl_req \<Rightarrow> u32 \<Rightarrow> int \<Rightarrow> int \<Rightarrow> int \<Rightarrow> u64 \<Rightarrow> u64 \<Rightarrow> int \<times> u64 option \<times> int" where
  "ioctl_mmap k d req flags attr fd offset len vaddrin =
     (case req of
        MEM_MAP \<Rightarrow> (let a = k (KMemMap d fd offset flags vaddrin len attr)
                     in (k_err a, Some (k_vaddrout a), k_errno a))
      | MMAP \<Rightarrow> (let a = k (KMmap d fd flags vaddrin len) in (k_err a, Some (k_vaddrout a), k_errno a))
      | MMAP_64 \<Rightarrow> (let a = k (KMmap d fd flags vaddrin len) in (k_err a, Some (k_vaddrout a), k_errno a))
      | _ \<Rightarrow> (AEE_EBADPARM, None, 0))"

text \<open>The length is an \<^verbatim>\<open>int\<close>: a caller's \<^verbatim>\<open>size_t\<close> is cut to 32 bits, then sign-extended.\<close>

definition cut_len :: "u64 \<Rightarrow> u64" where
  "cut_len l = word_of_int (int32 (uint l))"

definition ioctl_munmap :: "kernel \<Rightarrow> int \<Rightarrow> ioctl_req \<Rightarrow> int \<Rightarrow> u64 \<Rightarrow> u64 \<Rightarrow> int \<times> int" where
  "ioctl_munmap k d req fd len vaddr =
     (case req of
        MEM_UNMAP \<Rightarrow> (let a = k (KMemUnmap d fd vaddr (cut_len len)) in (k_err a, k_errno a))
      | MUNMAP_FD \<Rightarrow> (let a = k (KMemUnmap d fd vaddr (cut_len len)) in (k_err a, k_errno a))
      | MUNMAP \<Rightarrow> (let a = k (KMunmap d vaddr (cut_len len)) in (k_err a, k_errno a))
      | MUNMAP_64 \<Rightarrow> (let a = k (KMunmap d vaddr (cut_len len)) in (k_err a, k_errno a))
      | _ \<Rightarrow> (AEE_SUCCESS, 0))"

section \<open>Lemmas\<close>

lemma valid_iff_all_domains: "IS_VALID_EFFECTIVE_DOMAIN_ID d \<longleftrightarrow> d \<in> set all_domains"
  by (auto simp: IS_VALID_EFFECTIVE_DOMAIN_ID_def all_domains_def)

text \<open>The number of references a domain holds; \<^verbatim>\<open>FASTRPC_GET_REF\<close> and \<^verbatim>\<open>FASTRPC_PUT_REF\<close> balance.\<close>

definition refs_of :: "session \<Rightarrow> int \<Rightarrow> u32 option" where
  "refs_of s d = map_option (\<lambda>h. ref (h d)) (hlist s)"

lemma hlist_upd_domain [simp]: "hlist (upd_domain d f s) = map_option (\<lambda>h. h(d := f (h d))) (hlist s)"
  by (simp add: upd_domain_def)

lemma hlist_set_thread_context [simp]: "hlist (set_thread_context d s) = hlist s"
  by (simp add: set_thread_context_def)

lemma session_get_error: "fastrpc_session_get d s = (e, s') \<Longrightarrow> e \<noteq> 0 \<Longrightarrow> s' = s"
  by (auto simp: fastrpc_session_get_def split: option.splits if_splits)

lemma session_get_put:
  assumes "fastrpc_session_get d s = (0, s')" and "refs_of s d \<noteq> Some (- 1)"
  shows "hlist (snd (fastrpc_session_put d s')) = hlist s"
proof -
  from assms(1) obtain h where h: "hlist s = Some h"
    and s': "hlist s' = Some (h(d := (h d)\<lparr>ref := ref (h d) + 1\<rparr>))"
    by (auto simp: fastrpc_session_get_def split: option.splits if_splits)
  with assms(2) have "ref (h d) + 1 \<noteq> 0"
    by (simp add: refs_of_def eq_neg_iff_add_eq_0)
  with h s' show ?thesis
    by (simp add: fastrpc_session_put_def word_neq_0_conv)
qed

end
