(* ===== verification/FastrpcMem.thy ===== *)
theory FastrpcMem
  imports Session
begin

text \<open>
  \<^verbatim>\<open>src/fastrpc_mem.c\<close>: the registered buffers (\<^verbatim>\<open>fdlist\<close>), the DMA handle table (\<^verbatim>\<open>dhandles\<close>), the
  static mappings of every domain (\<^verbatim>\<open>smaplst\<close>) with their reference counts, and the list of remote
  mappings (\<^verbatim>\<open>memlist\<close>). The intrusive lists are HOL lists here; that the operations of
  \<^verbatim>\<open>AEEQList.h\<close> implement list operations is shown in \<open>QList\<close>. Each operation holds the mutex of the
  list it works on, so it is one step on the state; \<open>fastrpc_munmap\<close> drops the mutex around the
  call to the driver and is therefore given as two steps.
\<close>

section \<open>State\<close>

record mem_to_fd =
  t_buf :: u64
  t_size :: u64
  t_fd :: int
  t_nova :: int
  t_attr :: int
  t_refcount :: int
  t_mapped :: "int \<Rightarrow> bool"

record dma_handle_info =
  d_fd :: int
  d_len :: int
  d_used :: int
  d_attr :: u32

record static_map =
  s_fd :: int
  s_offset :: int
  s_flags :: u32
  s_attrs :: int
  s_vaddrin :: u64
  s_length :: u64
  s_vaddrout :: u64
  s_refs :: int

record fastrpc_remote_map =
  r_vadsp :: u64
  r_flags :: u32

record memst =
  sess :: session
  errno :: int
  memlist :: "int \<Rightarrow> fastrpc_remote_map list"
  smaplst :: "int \<Rightarrow> static_map list"
  fdlist :: "mem_to_fd list"
  dhandles :: "dma_handle_info list"
  dma_handle_count :: nat

text \<open>What the environment answers during one operation: the kernel driver, whether the allocations
  of a list node succeed (per domain for mapping nodes), what the anonymous \<^verbatim>\<open>mmap\<close> returns
  (\<open>-1\<close> when it fails), and the default domain the library was built with.\<close>

record menv =
  driver :: kernel
  smap_alloc :: "int \<Rightarrow> bool"
  fd_alloc :: bool
  rmap_alloc :: bool
  anon_mmap :: u64
  default_domain :: int

abbreviation (input) MAX_DMA_HANDLES :: nat where "MAX_DMA_HANDLES \<equiv> 256"
abbreviation (input) FASTRPC_MAP_FLAGS_MASK :: u32 where "FASTRPC_MAP_FLAGS_MASK \<equiv> 0xFFFF"
abbreviation (input) FASTRPC_MAP_STATIC :: u32 where "FASTRPC_MAP_STATIC \<equiv> 0"
abbreviation (input) FASTRPC_MAP_RESERVED :: u32 where "FASTRPC_MAP_RESERVED \<equiv> 1"
abbreviation (input) FASTRPC_MAP_MAX :: u32 where "FASTRPC_MAP_MAX \<equiv> 17"
abbreviation (input) REMOTE_MAP_MAX_FLAG :: int where "REMOTE_MAP_MAX_FLAG \<equiv> 1"
abbreviation (input) ADSP_MMAP_REMOTE_HEAP_ADDR :: u32 where "ADSP_MMAP_REMOTE_HEAP_ADDR \<equiv> 8"
abbreviation (input) ADSP_MMAP_ADD_PAGES :: u32 where "ADSP_MMAP_ADD_PAGES \<equiv> 0x1000"
abbreviation (input) FASTRPC_ATTR_KEEP_MAP :: int where "FASTRPC_ATTR_KEEP_MAP \<equiv> 8"
abbreviation (input) FASTRPC_ATTR_NOMAP :: u32 where "FASTRPC_ATTR_NOMAP \<equiv> 16"
abbreviation (input) FASTRPC_ATTR_TRY_MAP_STATIC :: int where "FASTRPC_ATTR_TRY_MAP_STATIC \<equiv> 128"
abbreviation (input) ENOTTY :: int where "ENOTTY \<equiv> 25"
abbreviation (input) EINVAL :: int where "EINVAL \<equiv> 22"
abbreviation (input) DSP_EUNSUPPORTED :: int where "DSP_EUNSUPPORTED \<equiv> - 2147482604"

definition fastrpc_init_once :: "memst \<Rightarrow> int" where
  "fastrpc_init_once st = init_err (sess st)"

definition fastrpc_mem_init :: "memst \<Rightarrow> int \<times> memst" where
  "fastrpc_mem_init st =
     (0, st\<lparr>fdlist := [],
            dhandles := replicate MAX_DMA_HANDLES \<lparr>d_fd = 0, d_len = 0, d_used = 0, d_attr = 0\<rparr>,
            smaplst := (\<lambda>ii. if ii \<in> set all_domains then [] else smaplst st ii),
            memlist := (\<lambda>ii. if ii \<in> set all_domains then [] else memlist st ii)\<rparr>)"

text \<open>\<^verbatim>\<open>FASTRPC_GET_REF\<close> at the start, \<^verbatim>\<open>FASTRPC_PUT_REF\<close> at the label \<^verbatim>\<open>bail\<close>: the body runs only with a
  reference to the session; \<open>fail\<close> turns the error of the first into the result.\<close>

definition with_session :: "int \<Rightarrow> (int \<Rightarrow> 'r) \<Rightarrow> (memst \<Rightarrow> 'r \<times> memst) \<Rightarrow> memst \<Rightarrow> 'r \<times> memst" where
  "with_session domain fail body st =
     (case fastrpc_session_get domain (sess st) of (nErr, s) \<Rightarrow>
        if nErr \<noteq> 0 then (fail nErr, st\<lparr>sess := s\<rparr>)
        else case body (st\<lparr>sess := s\<rparr>) of (r, st') \<Rightarrow>
               (r, st'\<lparr>sess := snd (fastrpc_session_put domain (sess st'))\<rparr>))"

text \<open>A loop over a list with \<^verbatim>\<open>break\<close> at the first match leaves its variable at the last node visited.\<close>

fun scan_break :: "('a \<Rightarrow> bool) \<Rightarrow> 'a option \<Rightarrow> 'a list \<Rightarrow> 'a option" where
  "scan_break P node [] = node"
| "scan_break P node (x # xs) = (if P x then Some x else scan_break P (Some x) xs)"

fun upd_first :: "('a \<Rightarrow> bool) \<Rightarrow> ('a \<Rightarrow> 'a) \<Rightarrow> 'a list \<Rightarrow> 'a list" where
  "upd_first P f [] = []"
| "upd_first P f (x # xs) = (if P x then f x # xs else x # upd_first P f xs)"

fun del_first :: "('a \<Rightarrow> bool) \<Rightarrow> 'a list \<Rightarrow> 'a list" where
  "del_first P [] = []"
| "del_first P (x # xs) = (if P x then xs else x # del_first P xs)"

definition upd_smap :: "int \<Rightarrow> (static_map list \<Rightarrow> static_map list) \<Rightarrow> memst \<Rightarrow> memst" where
  "upd_smap domain f st = st\<lparr>smaplst := (smaplst st)(domain := f (smaplst st domain))\<rparr>"

definition upd_memlist ::
  "int \<Rightarrow> (fastrpc_remote_map list \<Rightarrow> fastrpc_remote_map list) \<Rightarrow> memst \<Rightarrow> memst" where
  "upd_memlist domain f st = st\<lparr>memlist := (memlist st)(domain := f (memlist st domain))\<rparr>"

definition resolve_domain :: "menv \<Rightarrow> int \<Rightarrow> memst \<Rightarrow> int" where
  "resolve_domain env domain st =
     (if domain = -1 then get_current_domain (default_domain env) (sess st) else domain)"

text \<open>At \<^verbatim>\<open>bail\<close> of the static mapping functions: an error that did not come from the driver clears
  \<^verbatim>\<open>errno\<close>.\<close>

definition clear_errno :: "int \<Rightarrow> int \<Rightarrow> memst \<Rightarrow> memst" where
  "clear_errno nErr iocErr st = (if nErr \<noteq> 0 \<and> iocErr = 0 then st\<lparr>errno := 0\<rparr> else st)"

section \<open>Static mappings\<close>

text \<open>The part of \<^verbatim>\<open>fastrpc_mmap_helper\<close> that runs with the session held. Returns \<^verbatim>\<open>nErr\<close>, \<^verbatim>\<open>iocErr\<close> and what is
  written to \<^verbatim>\<open>*vaddrout\<close>.\<close>

definition mmap_locked ::
  "menv \<Rightarrow> int \<Rightarrow> int \<Rightarrow> u64 \<Rightarrow> int \<Rightarrow> u64 \<Rightarrow> u32 \<Rightarrow> int \<Rightarrow> memst \<Rightarrow> (int \<times> int \<times> u64 option) \<times> memst" where
  "mmap_locked env domain fd vaddr offset len flags attrs st =
     (case fastrpc_session_dev domain (sess st) of (nErr, dv) \<Rightarrow>
        if nErr \<noteq> 0 then ((nErr, 0, None), st)
        else if dv = -1 then ((AEE_ERPC, 0, None), st)
        else if (case scan_break (\<lambda>m. s_fd m = fd) None (smaplst st domain) of
                   Some tNode \<Rightarrow> s_fd tNode = fd | None \<Rightarrow> False)
        then ((AEE_EALREADY, 0, None), st)
        else if \<not> smap_alloc env domain then ((AEE_ENOMEMORY, 0, None), st)
        else case ioctl_mmap (driver env) dv MEM_MAP flags attrs fd offset len vaddr of
               (iocErr, vaddrout, en) \<Rightarrow>
          let st = st\<lparr>errno := en\<rparr>;
              mNode = \<lparr>s_fd = fd, s_offset = offset, s_flags = flags, s_attrs = attrs, s_vaddrin = vaddr,
                       s_length = len, s_vaddrout = (case vaddrout of Some v \<Rightarrow> v | None \<Rightarrow> 0), s_refs = 1\<rparr>
          in if iocErr = 0 then ((0, 0, vaddrout), upd_smap domain (\<lambda>l. l @ [mNode]) st)
             else if en = ENOTTY \<or> iocErr = DSP_EUNSUPPORTED then ((AEE_EUNSUPPORTED, iocErr, vaddrout), st)
             else ((AEE_EFAILED, iocErr, vaddrout), st))"

definition fastrpc_mmap_helper ::
  "menv \<Rightarrow> int \<Rightarrow> int \<Rightarrow> u64 \<Rightarrow> int \<Rightarrow> u64 \<Rightarrow> u32 \<Rightarrow> int \<Rightarrow> memst \<Rightarrow> (int \<times> u64 option) \<times> memst" where
  "fastrpc_mmap_helper env domain fd vaddr offset len flags attrs st =
     (let domain = resolve_domain env domain st
      in case (if \<not> IS_VALID_EFFECTIVE_DOMAIN_ID domain then ((AEE_EBADPARM, 0, None), st)
               else with_session domain (\<lambda>e. (e, 0, None))
                      (mmap_locked env domain fd vaddr offset len flags attrs) st)
         of ((nErr, iocErr, vaddrout), st') \<Rightarrow> ((nErr, vaddrout), clear_errno nErr iocErr st'))"

definition fastrpc_mmap ::
  "menv \<Rightarrow> int \<Rightarrow> int \<Rightarrow> u64 \<Rightarrow> int \<Rightarrow> u64 \<Rightarrow> u32 \<Rightarrow> memst \<Rightarrow> int \<times> memst" where
  "fastrpc_mmap env domain fd vaddr offset len flags st =
     (let attrs = sint (flags AND NOT FASTRPC_MAP_FLAGS_MASK);
          flags = flags AND FASTRPC_MAP_FLAGS_MASK
      in if fastrpc_init_once st \<noteq> 0 then (fastrpc_init_once st, st)
         else if \<not> (fd \<ge> 0 \<and> offset = 0 \<and> attrs = 0) then (AEE_EBADPARM, st)
         else if \<not> (flags < FASTRPC_MAP_MAX \<and> flags \<noteq> FASTRPC_MAP_RESERVED) then (AEE_EBADPARM, st)
         else case fastrpc_mmap_helper env domain fd vaddr offset len flags attrs st of
                ((nErr, vaddrout), st') \<Rightarrow> (nErr, st'))"

definition fastrpc_mmap_internal ::
  "menv \<Rightarrow> int \<Rightarrow> int \<Rightarrow> u64 \<Rightarrow> int \<Rightarrow> u64 \<Rightarrow> u32 \<Rightarrow> memst \<Rightarrow> (int \<times> u64 option) \<times> memst" where
  "fastrpc_mmap_internal env domain fd vaddr offset len flags st =
     (let attrs = sint (flags AND NOT FASTRPC_MAP_FLAGS_MASK);
          flags = flags AND FASTRPC_MAP_FLAGS_MASK
      in if fastrpc_init_once st \<noteq> 0 then ((fastrpc_init_once st, None), st)
         else if \<not> (fd \<ge> 0 \<and> offset = 0 \<and> attrs = 0) then ((AEE_EBADPARM, None), st)
         else fastrpc_mmap_helper env domain fd vaddr offset len flags attrs st)"

text \<open>The search and the claim of the entry, under the first lock: the entry that \<open>P\<close> selects, with its
  reference count set to zero.\<close>

definition munmap_claim :: "(static_map \<Rightarrow> bool) \<Rightarrow> int \<Rightarrow> memst \<Rightarrow> (int + static_map) \<times> memst" where
  "munmap_claim P domain st =
     (case scan_break P None (smaplst st domain) of
        None \<Rightarrow> (Inl AEE_ENOSUCHMAP, st)
      | Some mNode \<Rightarrow>
          if \<not> P mNode then (Inl AEE_ENOSUCHMAP, st)
          else if s_refs mNode > 1 then (Inl AEE_EBADPARM, st)
          else (Inr mNode, upd_smap domain (upd_first P (\<lambda>m. m\<lparr>s_refs := 0\<rparr>)) st))"

text \<open>After the driver answered, under the second lock.\<close>

definition munmap_finish :: "(static_map \<Rightarrow> bool) \<Rightarrow> int \<Rightarrow> int \<Rightarrow> memst \<Rightarrow> int \<times> memst" where
  "munmap_finish P domain iocErr st =
     (if iocErr = 0 then (0, upd_smap domain (del_first P) st)
      else if errno st = ENOTTY \<or> errno st = EINVAL then (AEE_EUNSUPPORTED, st)
      else (AEE_EFAILED, upd_smap domain (upd_first P (\<lambda>m. m\<lparr>s_refs := 1\<rparr>)) st))"

definition munmap_locked ::
  "menv \<Rightarrow> (static_map \<Rightarrow> bool) \<Rightarrow> int \<Rightarrow> memst \<Rightarrow> (int \<times> int) \<times> memst" where
  "munmap_locked env P domain st =
     (case fastrpc_session_dev domain (sess st) of (nErr, dv) \<Rightarrow>
        if nErr \<noteq> 0 then ((nErr, 0), st)
        else case munmap_claim P domain st of
               (Inl e, st1) \<Rightarrow> ((e, 0), st1)
             | (Inr mNode, st1) \<Rightarrow>
                 (case ioctl_munmap (driver env) dv MEM_UNMAP (s_fd mNode) (s_length mNode) (s_vaddrout mNode) of
                    (iocErr, en) \<Rightarrow>
                      (case munmap_finish P domain iocErr (st1\<lparr>errno := en\<rparr>) of
                         (nErr, st2) \<Rightarrow> ((nErr, iocErr), st2))))"

definition fastrpc_munmap :: "menv \<Rightarrow> int \<Rightarrow> int \<Rightarrow> u64 \<Rightarrow> u64 \<Rightarrow> memst \<Rightarrow> int \<times> memst" where
  "fastrpc_munmap env domain fd vaddr len st =
     (let domain = resolve_domain env domain st
      in case (if fastrpc_init_once st \<noteq> 0 then ((fastrpc_init_once st, 0), st)
               else if \<not> (fd \<ge> 0 \<and> IS_VALID_EFFECTIVE_DOMAIN_ID domain) then ((AEE_EBADPARM, 0), st)
               else with_session domain (\<lambda>e. (e, 0)) (munmap_locked env (\<lambda>m. s_fd m = fd) domain) st)
         of ((nErr, iocErr), st') \<Rightarrow> (nErr, clear_errno nErr iocErr st'))"

definition fastrpc_munmap_internal :: "menv \<Rightarrow> int \<Rightarrow> u64 \<Rightarrow> u64 \<Rightarrow> memst \<Rightarrow> int \<times> memst" where
  "fastrpc_munmap_internal env domain raddr len st =
     (let domain = resolve_domain env domain st
      in case (if fastrpc_init_once st \<noteq> 0 then ((fastrpc_init_once st, 0), st)
               else if \<not> IS_VALID_EFFECTIVE_DOMAIN_ID domain then ((AEE_EBADPARM, 0), st)
               else with_session domain (\<lambda>e. (e, 0)) (munmap_locked env (\<lambda>m. s_vaddrout m = raddr) domain) st)
         of ((nErr, iocErr), st') \<Rightarrow> (nErr, clear_errno nErr iocErr st'))"

text \<open>Returns the error and what \<^verbatim>\<open>*va\<close> and \<^verbatim>\<open>*size\<close> are set to (when they are).\<close>

definition fastrpc_buffer_ref ::
  "int \<Rightarrow> int \<Rightarrow> int \<Rightarrow> memst \<Rightarrow> (int \<times> (u64 \<times> u64) option) \<times> memst" where
  "fastrpc_buffer_ref domain fd r st =
     (if \<not> IS_VALID_EFFECTIVE_DOMAIN_ID domain then ((AEE_EBADPARM, None), st)
      else case find (\<lambda>m. s_fd m = fd) (smaplst st domain) of
        None \<Rightarrow> ((AEE_ENOSUCHMAP, None), st)
      | Some m \<Rightarrow>
          if \<not> s_refs m > 0 then ((AEE_ERPC, None), st)
          else let out = Some (s_vaddrin m, s_length m);
                   upd = (\<lambda>n. upd_smap domain (upd_first (\<lambda>m. s_fd m = fd) (\<lambda>m. m\<lparr>s_refs := n\<rparr>)) st)
               in if r = 1 then ((0, out), upd (s_refs m + 1))
                  else if r = -1
                  then if s_refs m = 1 then ((AEE_EBADPARM, out), st) else ((0, out), upd (s_refs m - 1))
                  else if r \<noteq> 0 then ((AEE_ERPC, out), st) else ((0, out), st))"

section \<open>Remote mappings\<close>

text \<open>The first node with the address is taken off the list.\<close>

definition fastrpc_remote_map_lookup ::
  "int \<Rightarrow> u64 \<Rightarrow> memst \<Rightarrow> (int \<times> fastrpc_remote_map option) \<times> memst" where
  "fastrpc_remote_map_lookup domain vadsp st =
     (case find (\<lambda>m. r_vadsp m = vadsp) (memlist st domain) of
        Some mNode \<Rightarrow> ((AEE_SUCCESS, Some mNode), upd_memlist domain (del_first (\<lambda>m. r_vadsp m = vadsp)) st)
      | None \<Rightarrow> ((AEE_ERESOURCENOTFOUND, None), st))"

text \<open>\<open>raddr\<close> tells whether the pointer for the result is not null; the second component of the result is
  what is stored there.\<close>

definition remote_mem_map ::
  "menv \<Rightarrow> int \<Rightarrow> int \<Rightarrow> int \<Rightarrow> u64 \<Rightarrow> u64 \<Rightarrow> bool \<Rightarrow> memst \<Rightarrow> (int \<times> u64 option) \<times> memst" where
  "remote_mem_map env domain fd flags vaddr len raddr st =
     (case (if fastrpc_init_once st \<noteq> 0 then ((fastrpc_init_once st, None), st)
            else if \<not> fd \<ge> 0 then ((AEE_EBADPARM, None), st)
            else if \<not> (flags \<ge> 0 \<and> flags < REMOTE_MAP_MAX_FLAG \<and> raddr) then ((AEE_EBADPARM, None), st)
            else let domain = resolve_domain env domain st
                 in if \<not> IS_VALID_EFFECTIVE_DOMAIN_ID domain then ((AEE_EBADPARM, None), st)
                    else with_session domain (\<lambda>e. (e, None))
                           (\<lambda>st. case fastrpc_session_dev domain (sess st) of (nErr, dv) \<Rightarrow>
                                   if nErr \<noteq> 0 then ((nErr, None), st)
                                   else case ioctl_mmap (driver env) dv MMAP_64 (word_of_int flags) 0 fd 0 len vaddr of
                                          (nErr, vaddrout, en) \<Rightarrow> ((nErr, vaddrout), st\<lparr>errno := en\<rparr>)) st)
      of ((nErr, out), st') \<Rightarrow> ((convert_kernel_to_user_error nErr (errno st'), out), st'))"

definition remote_mem_unmap :: "menv \<Rightarrow> int \<Rightarrow> u64 \<Rightarrow> u64 \<Rightarrow> memst \<Rightarrow> int \<times> memst" where
  "remote_mem_unmap env domain raddr len st =
     (case (if fastrpc_init_once st \<noteq> 0 then (fastrpc_init_once st, st)
            else if raddr = 0 then (AEE_EBADPARM, st)
            else let domain = resolve_domain env domain st
                 in if \<not> IS_VALID_EFFECTIVE_DOMAIN_ID domain then (AEE_EBADPARM, st)
                    else with_session domain (\<lambda>e. e)
                           (\<lambda>st. case fastrpc_session_dev domain (sess st) of (nErr, dv) \<Rightarrow>
                                   if nErr \<noteq> 0 then (nErr, st)
                                   else case ioctl_munmap (driver env) dv MUNMAP_64 (-1) len raddr of
                                          (nErr, en) \<Rightarrow> (nErr, st\<lparr>errno := en\<rparr>)) st)
      of (nErr, st') \<Rightarrow> (convert_kernel_to_user_error nErr (errno st'), st'))"

definition is_heap_flag :: "u32 \<Rightarrow> bool" where
  "is_heap_flag flags \<longleftrightarrow> flags = ADSP_MMAP_ADD_PAGES \<or> flags = ADSP_MMAP_REMOTE_HEAP_ADDR"

text \<open>With the session held: the mapping call, then the node of the list. In the first branch an error
  of the driver does not jump to \<^verbatim>\<open>bail\<close>: the node is appended all the same.\<close>

definition mmap64_locked ::
  "menv \<Rightarrow> int \<Rightarrow> int \<Rightarrow> u32 \<Rightarrow> u64 \<Rightarrow> u64 \<Rightarrow> memst \<Rightarrow> (int \<times> u64 option) \<times> memst" where
  "mmap64_locked env domain fd flags vaddrin len st =
     (case fastrpc_session_dev domain (sess st) of (nErr, dv) \<Rightarrow>
        if nErr \<noteq> 0 then ((nErr, None), st)
        else if dv = -1 then ((AEE_ERPC, None), st)
        else let record_node = (\<lambda>nErr v st.
                   ((nErr, Some v),
                    if rmap_alloc env
                    then upd_memlist domain (\<lambda>l. l @ [\<lparr>r_vadsp = v, r_flags = flags\<rparr>]) st else st))
             in if is_heap_flag flags
                then case ioctl_mmap (driver env) dv MMAP_64 flags 0 fd 0 len vaddrin of
                       (nErr, vaddrout, en) \<Rightarrow>
                         record_node nErr (case vaddrout of Some v \<Rightarrow> v | None \<Rightarrow> 0) (st\<lparr>errno := en\<rparr>)
                else case fastrpc_mmap_internal env domain fd vaddrin 0 len flags st of
                       ((nErr, vaddrout), st') \<Rightarrow>
                         if nErr \<noteq> 0 then ((nErr, None), st')
                         else record_node nErr (case vaddrout of Some v \<Rightarrow> v | None \<Rightarrow> 0) st')"

definition remote_mmap64_internal ::
  "menv \<Rightarrow> int \<Rightarrow> u32 \<Rightarrow> u64 \<Rightarrow> u64 \<Rightarrow> memst \<Rightarrow> (int \<times> u64 option) \<times> memst" where
  "remote_mmap64_internal env fd flags vaddrin len st =
     (case (if fastrpc_init_once st \<noteq> 0 then ((fastrpc_init_once st, None), st)
            else let domain = get_current_domain (default_domain env) (sess st)
                 in if \<not> IS_VALID_EFFECTIVE_DOMAIN_ID domain then ((AEE_EBADDOMAIN, None), st)
                    else with_session domain (\<lambda>e. (e, None)) (mmap64_locked env domain fd flags vaddrin len) st)
      of ((nErr, out), st') \<Rightarrow> ((convert_kernel_to_user_error nErr (errno st'), out), st'))"

definition remote_mmap64 ::
  "menv \<Rightarrow> int \<Rightarrow> u32 \<Rightarrow> u64 \<Rightarrow> int \<Rightarrow> bool \<Rightarrow> memst \<Rightarrow> (int \<times> u64 option) \<times> memst" where
  "remote_mmap64 env fd flags vaddrin len vaddrout st =
     (if fastrpc_init_once st \<noteq> 0 then ((fastrpc_init_once st, None), st)
      else if flags \<noteq> 0 then ((AEE_EBADPARM, None), st)
      else if \<not> len \<ge> 0 then ((AEE_EBADPARM, None), st)
      else if \<not> fd \<ge> 0 then ((AEE_EBADPARM, None), st)
      else if \<not> vaddrout then ((AEE_EBADPARM, None), st)
      else case remote_mmap64_internal env fd flags vaddrin (word_of_int len) st of
             ((nErr, out), st') \<Rightarrow> ((if nErr = AEE_EBADDOMAIN then AEE_ERPC else nErr, out), st'))"

text \<open>The 32-bit entry point keeps the low half of the address (0 when none was stored).\<close>

definition remote_mmap ::
  "menv \<Rightarrow> int \<Rightarrow> u32 \<Rightarrow> u32 \<Rightarrow> int \<Rightarrow> bool \<Rightarrow> memst \<Rightarrow> (int \<times> u32 option) \<times> memst" where
  "remote_mmap env fd flags vaddrin len vaddrout st =
     (if \<not> vaddrout then ((AEE_EBADPARM, None), st)
      else case remote_mmap64 env fd flags (ucast vaddrin) len True st of
             ((nErr, out), st') \<Rightarrow> ((nErr, Some (case out of Some v \<Rightarrow> ucast v | None \<Rightarrow> 0)), st'))"

definition munmap64_locked :: "menv \<Rightarrow> int \<Rightarrow> u64 \<Rightarrow> u64 \<Rightarrow> memst \<Rightarrow> int \<times> memst" where
  "munmap64_locked env domain vaddrout len st =
     (case fastrpc_session_dev domain (sess st) of (nErr, dv) \<Rightarrow>
        if nErr \<noteq> 0 then (nErr, st)
        else let direct = (\<lambda>st. case ioctl_munmap (driver env) dv MUNMAP_64 (-1) len vaddrout of
                                  (nErr, en) \<Rightarrow> (nErr, st\<lparr>errno := en\<rparr>))
             in case fastrpc_remote_map_lookup domain vaddrout st of
                  ((e, Some mNode), st1) \<Rightarrow>
                    (case (if is_heap_flag (r_flags mNode) then direct st1
                           else fastrpc_munmap_internal env domain vaddrout len st1) of
                       (nErr, st2) \<Rightarrow>
                         if nErr = 0 then (0, st2) else (nErr, upd_memlist domain (\<lambda>l. l @ [mNode]) st2))
                | ((e, None), st1) \<Rightarrow> direct st1)"

definition remote_munmap64 :: "menv \<Rightarrow> u64 \<Rightarrow> int \<Rightarrow> memst \<Rightarrow> int \<times> memst" where
  "remote_munmap64 env vaddrout len st =
     (case (if fastrpc_init_once st \<noteq> 0 then (fastrpc_init_once st, st)
            else let domain = get_current_domain (default_domain env) (sess st)
                 in if \<not> IS_VALID_EFFECTIVE_DOMAIN_ID domain then (AEE_ERPC, st)
                    else with_session domain (\<lambda>e. e) (munmap64_locked env domain vaddrout (word_of_int len)) st)
      of (nErr, st') \<Rightarrow> (convert_kernel_to_user_error nErr (errno st'), st'))"

definition remote_munmap :: "menv \<Rightarrow> u32 \<Rightarrow> int \<Rightarrow> memst \<Rightarrow> int \<times> memst" where
  "remote_munmap env vaddrout len st = remote_munmap64 env (ucast vaddrout) len st"

section \<open>Registered buffers\<close>

definition fastrpc_unmap_fd1 :: "menv \<Rightarrow> u64 \<Rightarrow> int \<Rightarrow> int \<Rightarrow> int \<times> memst \<Rightarrow> int \<times> memst" where
  "fastrpc_unmap_fd1 env len fd ii acc =
     (let st = snd acc; (nErr, s) = fastrpc_session_get ii (sess st); st = st\<lparr>sess := s\<rparr>;
          put = (\<lambda>st. st\<lparr>sess := snd (fastrpc_session_put ii (sess st))\<rparr>)
      in if nErr = 0 then (nErr, st)
         else case fastrpc_session_dev ii (sess st) of (nErr, dv) \<Rightarrow>
                if nErr = 0 then (nErr, put st)
                else case ioctl_munmap (driver env) dv MUNMAP_FD fd len 0 of
                       (nErr, en) \<Rightarrow> (nErr, put (st\<lparr>errno := en\<rparr>)))"

definition fastrpc_unmap_fd :: "menv \<Rightarrow> u64 \<Rightarrow> int \<Rightarrow> memst \<Rightarrow> int \<times> memst" where
  "fastrpc_unmap_fd env len fd st = fold (fastrpc_unmap_fd1 env len fd) all_domains (0, st)"

text \<open>Mapping a buffer on every domain; a failure on a domain is ignored.\<close>

definition try_map_buffer1 :: "menv \<Rightarrow> int \<Rightarrow> mem_to_fd \<times> memst \<Rightarrow> mem_to_fd \<times> memst" where
  "try_map_buffer1 env domain acc =
     (case acc of (tofd, st) \<Rightarrow>
        case fastrpc_mmap env domain (t_fd tofd) (t_buf tofd) 0 (t_size tofd) FASTRPC_MAP_STATIC st of
          (nErr, st') \<Rightarrow>
            (if nErr = 0 then tofd\<lparr>t_mapped := (t_mapped tofd)(domain := True)\<rparr> else tofd, st'))"

definition try_map_buffer :: "menv \<Rightarrow> mem_to_fd \<Rightarrow> memst \<Rightarrow> mem_to_fd \<times> memst" where
  "try_map_buffer env tofd st = fold (try_map_buffer1 env) all_domains (tofd, st)"

definition try_unmap_buffer1 :: "menv \<Rightarrow> int \<Rightarrow> int \<times> mem_to_fd \<times> memst \<Rightarrow> int \<times> mem_to_fd \<times> memst" where
  "try_unmap_buffer1 env domain acc =
     (case acc of (errcnt, tofd, st) \<Rightarrow>
        if \<not> t_mapped tofd domain then acc
        else case fastrpc_munmap env domain (t_fd tofd) (t_buf tofd) (t_size tofd) st of
               (nErr, st') \<Rightarrow>
                 if nErr = 0 then (errcnt, tofd\<lparr>t_mapped := (t_mapped tofd)(domain := False)\<rparr>, st')
                 else (errcnt + 1, tofd, st'))"

definition try_unmap_buffer :: "menv \<Rightarrow> mem_to_fd \<Rightarrow> memst \<Rightarrow> int \<times> mem_to_fd \<times> memst" where
  "try_unmap_buffer env tofd st = fold (try_unmap_buffer1 env) all_domains (0, tofd, st)"

text \<open>Returns the address (0 is the null pointer); the anonymous mapping of a failed call is removed
  again.\<close>

definition remote_register_fd_attr :: "menv \<Rightarrow> int \<Rightarrow> u64 \<Rightarrow> int \<Rightarrow> memst \<Rightarrow> u64 \<times> memst" where
  "remote_register_fd_attr env fd len attr st =
     (if fastrpc_init_once st \<noteq> 0 then (0, st)
      else if \<not> fd \<ge> 0 then (0, st)
      else if \<not> fd_alloc env then (0, st)
      else if anon_mmap env = -1 then (0, st)
      else (anon_mmap env,
            st\<lparr>fdlist := fdlist st @ [\<lparr>t_buf = anon_mmap env, t_size = len, t_fd = fd, t_nova = 1,
                                       t_attr = attr, t_refcount = 0, t_mapped = (\<lambda>_. False)\<rparr>]\<rparr>))"

definition remote_register_fd :: "menv \<Rightarrow> int \<Rightarrow> int \<Rightarrow> memst \<Rightarrow> u64 \<times> memst" where
  "remote_register_fd env fd len st =
     (if len < 0 then (0, st) else remote_register_fd_attr env fd (word_of_int len) 0 st)"

definition remote_register_fd2 :: "menv \<Rightarrow> int \<Rightarrow> u64 \<Rightarrow> memst \<Rightarrow> u64 \<times> memst" where
  "remote_register_fd2 env fd len st = remote_register_fd_attr env fd len 0 st"

text \<open>Registration, \<^verbatim>\<open>fd != -1\<close>.\<close>

definition register_buf_add :: "menv \<Rightarrow> u64 \<Rightarrow> u64 \<Rightarrow> int \<Rightarrow> int \<Rightarrow> memst \<Rightarrow> int \<times> memst" where
  "register_buf_add env buf len fd attr st =
     (let same = (\<lambda>t. t_buf t = buf \<and> t_size t = len \<and> t_fd t = fd)
      in if \<exists>t \<in> set (fdlist st). same t
         then (0, st\<lparr>fdlist := upd_first same
                        (\<lambda>t. t\<lparr>t_attr := (if attr \<noteq> 0 then attr else t_attr t), t_refcount := t_refcount t + 1\<rparr>)
                        (fdlist st)\<rparr>)
         else if \<not> fd_alloc env then (AEE_ENOMEMORY, st)
         else let tofd = \<lparr>t_buf = buf, t_size = len, t_fd = fd, t_nova = 0, t_attr = attr,
                          t_refcount = 1, t_mapped = (\<lambda>_. False)\<rparr>;
                  (tofd, st) = (if t_attr tofd AND FASTRPC_ATTR_TRY_MAP_STATIC \<noteq> 0
                                then try_map_buffer env tofd st else (tofd, st))
              in (0, st\<lparr>fdlist := fdlist st @ [tofd]\<rparr>))"

text \<open>The search of the other branch: the loop stops at the first node with the address and the size and
  remembers the last node before it that has the address only.\<close>

fun dereg_scan :: "u64 \<Rightarrow> u64 \<Rightarrow> mem_to_fd option \<Rightarrow> mem_to_fd list \<Rightarrow> mem_to_fd option \<times> mem_to_fd option" where
  "dereg_scan buf len addr_match_fd [] = (None, addr_match_fd)"
| "dereg_scan buf len addr_match_fd (t # ts) =
     (if t_buf t = buf
      then if t_size t = len then (Some t, addr_match_fd) else dereg_scan buf len (Some t) ts
      else dereg_scan buf len addr_match_fd ts)"

text \<open>Deregistration, \<^verbatim>\<open>fd == -1\<close>; \<open>None\<close> is \<^verbatim>\<open>raise(SIGABRT)\<close>.\<close>

definition register_buf_remove :: "menv \<Rightarrow> u64 \<Rightarrow> u64 \<Rightarrow> memst \<Rightarrow> (int \<times> memst) option" where
  "register_buf_remove env buf len st =
     (let same = (\<lambda>t. t_buf t = buf \<and> t_size t = len)
      in case dereg_scan buf len None (fdlist st) of
           (Some t, addr_match_fd) \<Rightarrow>
             if t_refcount t - 1 \<le> 0
             then let freefd = t\<lparr>t_refcount := t_refcount t - 1\<rparr>;
                      st = st\<lparr>fdlist := del_first same (fdlist st)\<rparr>;
                      st = (if t_attr freefd AND FASTRPC_ATTR_KEEP_MAP \<noteq> 0
                            then snd (fastrpc_unmap_fd env (t_size freefd) (t_fd freefd) st) else st);
                      st = (if t_attr freefd AND FASTRPC_ATTR_TRY_MAP_STATIC \<noteq> 0
                            then snd (snd (try_unmap_buffer env freefd st)) else st)
                  in Some (0, st)
             else let st = st\<lparr>fdlist := upd_first same (\<lambda>t. t\<lparr>t_refcount := t_refcount t - 1\<rparr>) (fdlist st)\<rparr>
                  in if addr_match_fd = None then Some (0, st) else None
         | (None, addr_match_fd) \<Rightarrow> if addr_match_fd = None then Some (0, st) else None)"

definition remote_register_buf_common ::
  "menv \<Rightarrow> u64 \<Rightarrow> u64 \<Rightarrow> int \<Rightarrow> int \<Rightarrow> memst \<Rightarrow> (int \<times> memst) option" where
  "remote_register_buf_common env buf len fd attr st =
     (if fastrpc_init_once st \<noteq> 0 then Some (fastrpc_init_once st, st)
      else if buf = 0 then Some (AEE_EBADPARM, st)
      else if len = 0 then Some (AEE_EBADPARM, st)
      else if fd \<noteq> -1 then Some (register_buf_add env buf len fd attr st)
      else register_buf_remove env buf len st)"

definition remote_register_buf :: "menv \<Rightarrow> u64 \<Rightarrow> int \<Rightarrow> int \<Rightarrow> memst \<Rightarrow> memst option" where
  "remote_register_buf env buf len fd st =
     map_option snd (remote_register_buf_common env buf (word_of_int len) fd 0 st)"

definition remote_register_buf_attr :: "menv \<Rightarrow> u64 \<Rightarrow> int \<Rightarrow> int \<Rightarrow> int \<Rightarrow> memst \<Rightarrow> memst option" where
  "remote_register_buf_attr env buf len fd attr st =
     map_option snd (remote_register_buf_common env buf (word_of_int len) fd attr st)"

definition remote_register_buf_attr2 :: "menv \<Rightarrow> u64 \<Rightarrow> u64 \<Rightarrow> int \<Rightarrow> int \<Rightarrow> memst \<Rightarrow> memst option" where
  "remote_register_buf_attr2 env buf len fd attr st =
     map_option snd (remote_register_buf_common env buf len fd attr st)"

definition STD_BETWEEN :: "u64 \<Rightarrow> u64 \<Rightarrow> u64 \<Rightarrow> bool" where
  "STD_BETWEEN val minGE maxLT \<longleftrightarrow> minGE \<le> val \<and> val - minGE < maxLT - minGE"

text \<open>The loop of \<^verbatim>\<open>fdlist_fd_from_buf\<close>: the result is the error, what \<^verbatim>\<open>*nova\<close>, \<^verbatim>\<open>*base\<close>, \<^verbatim>\<open>*attr\<close> are set to (if they
  are) and what \<^verbatim>\<open>*ofd\<close> is set to (if it is).\<close>

fun fdlist_scan ::
  "u64 \<Rightarrow> u64 \<Rightarrow> int \<Rightarrow> (int \<times> u64 \<times> int) option \<Rightarrow> mem_to_fd list \<Rightarrow> int \<times> (int \<times> u64 \<times> int) option \<times> int option" where
  "fdlist_scan buf lst fd out [] = (0, out, Some fd)"
| "fdlist_scan buf lst fd out (t # ts) =
     (if fd \<noteq> -1 then (0, out, Some fd)
      else if STD_BETWEEN buf (t_buf t) (t_buf t + t_size t)
      then if STD_BETWEEN lst (t_buf t) (t_buf t + t_size t)
           then fdlist_scan buf lst (t_fd t) (Some (t_nova t, t_buf t, t_attr t)) ts
           else (AEE_EBADPARM, out, None)
      else fdlist_scan buf lst fd out ts)"

definition fdlist_fd_from_buf :: "u64 \<Rightarrow> int \<Rightarrow> memst \<Rightarrow> int \<times> (int \<times> u64 \<times> int) option \<times> int option" where
  "fdlist_fd_from_buf buf bufLen st =
     fdlist_scan buf (buf + word_of_int bufLen - 1) (-1) None (fdlist st)"

section \<open>DMA handles\<close>

text \<open>A loop over the first \<open>n\<close> entries that stops at the first match: the index it stops at.\<close>

definition first_idx :: "('a \<Rightarrow> bool) \<Rightarrow> nat \<Rightarrow> 'a list \<Rightarrow> nat" where
  "first_idx P n xs = length (takeWhile (\<lambda>x. \<not> P x) (take n xs))"

definition remote_register_dma_handle_attr :: "int \<Rightarrow> u32 \<Rightarrow> u32 \<Rightarrow> memst \<Rightarrow> int \<times> memst" where
  "remote_register_dma_handle_attr fd len attr st =
     (let n = dma_handle_count st; dh = dhandles st;
          new = \<lparr>d_fd = fd, d_len = int32 (uint len), d_used = 1, d_attr = attr\<rparr>
      in if fastrpc_init_once st \<noteq> 0 then (fastrpc_init_once st, st)
         else if attr \<noteq> 0 \<and> attr \<noteq> FASTRPC_ATTR_NOMAP then (AEE_EBADPARM, st)
         else if \<not> fd \<ge> 0 then (AEE_EBADPARM, st)
         else let i = first_idx (\<lambda>h. d_used h \<noteq> 0 \<and> d_fd h = fd) n dh
              in if i < n
                 then (AEE_SUCCESS,
                       st\<lparr>dhandles := dh[i := (dh ! i)\<lparr>d_attr := (if d_attr (dh ! i) = 0 then attr else d_attr (dh ! i)),
                                                        d_used := d_used (dh ! i) + 1\<rparr>]\<rparr>)
                 else let i = first_idx (\<lambda>h. d_used h = 0) n dh
                      in if i < n then (AEE_SUCCESS, st\<lparr>dhandles := dh[i := new]\<rparr>)
                         else if n \<ge> MAX_DMA_HANDLES then (AEE_EINVHANDLE, st)
                         else (AEE_SUCCESS, st\<lparr>dhandles := dh[n := new], dma_handle_count := n + 1\<rparr>))"

definition remote_register_dma_handle :: "int \<Rightarrow> u32 \<Rightarrow> memst \<Rightarrow> int \<times> memst" where
  "remote_register_dma_handle fd len st = remote_register_dma_handle_attr fd len 0 st"

text \<open>\<open>last_used\<close>: the last index below \<open>i\<close> of an entry in use, 0 when there is none.\<close>

primrec last_used :: "dma_handle_info list \<Rightarrow> nat \<Rightarrow> nat" where
  "last_used dh 0 = 0"
| "last_used dh (Suc i) = (if d_used (dh ! i) \<noteq> 0 then i else last_used dh i)"

definition unregister_dma_handle :: "int \<Rightarrow> memst \<Rightarrow> (u32 \<times> u32) \<times> memst" where
  "unregister_dma_handle fd st =
     (let n = dma_handle_count st; dh = dhandles st;
          i = first_idx (\<lambda>h. d_used h \<noteq> 0 \<and> d_fd h = fd) n dh
      in if i < n
         then let h = (dh ! i)\<lparr>d_used := d_used (dh ! i) - 1\<rparr>;
                  n' = (if i = n - 1 \<and> d_used h = 0 then last_used dh i + 1 else n)
              in ((word_of_int (d_len h), d_attr h), st\<lparr>dhandles := dh[i := h], dma_handle_count := n'\<rparr>)
         else ((0, 0), st))"

section \<open>Opening and closing a session\<close>

definition mem_open1 :: "menv \<Rightarrow> int \<Rightarrow> mem_to_fd \<Rightarrow> mem_to_fd list \<times> memst \<Rightarrow> mem_to_fd list \<times> memst" where
  "mem_open1 env domain tofd acc =
     (case acc of (seen, st) \<Rightarrow>
        if t_attr tofd AND FASTRPC_ATTR_TRY_MAP_STATIC \<noteq> 0 \<and> \<not> t_mapped tofd domain
        then case fastrpc_mmap env domain (t_fd tofd) (t_buf tofd) 0 (t_size tofd) FASTRPC_MAP_STATIC st of
               (nErr, st') \<Rightarrow>
                 (seen @ [if nErr = 0 then tofd\<lparr>t_mapped := (t_mapped tofd)(domain := True)\<rparr> else tofd], st')
        else (seen @ [tofd], st))"

definition fastrpc_mem_open :: "menv \<Rightarrow> int \<Rightarrow> memst \<Rightarrow> int \<times> memst" where
  "fastrpc_mem_open env domain st =
     (if \<not> IS_VALID_EFFECTIVE_DOMAIN_ID domain then (AEE_EBADPARM, st)
      else case fold (mem_open1 env domain) (fdlist st) ([], st) of
             (fds, st') \<Rightarrow> (0, st'\<lparr>fdlist := fds\<rparr>))"

definition fastrpc_mem_close :: "int \<Rightarrow> memst \<Rightarrow> int \<times> memst" where
  "fastrpc_mem_close domain st =
     (if \<not> IS_VALID_EFFECTIVE_DOMAIN_ID domain then (AEE_EBADPARM, st)
      else (0, (upd_smap domain (\<lambda>_. []) st)
                 \<lparr>fdlist := map (\<lambda>t. t\<lparr>t_mapped := (t_mapped t)(domain := False)\<rparr>) (fdlist st)\<rparr>))"

end
