(* ===== verification/FastrpcMemLaws.thy ===== *)
theory FastrpcMemLaws
  imports FastrpcMem
begin

text \<open>
  What the operations of \<open>FastrpcMem\<close> guarantee: the tables stay well formed under every sequence of
  operations, static mappings and their reference counts behave like a map from descriptors to
  counted buffers, the DMA handle table implements a bounded counted map, and session references
  are balanced.
\<close>

section \<open>Scanning lists\<close>

lemma scan_break_find: "find P xs = Some y \<Longrightarrow> scan_break P n xs = Some y"
  by (induction xs arbitrary: n) (auto split: if_splits)

lemma scan_break_none:
  "find P xs = None \<Longrightarrow> scan_break P n xs = (if xs = [] then n else Some (last xs))"
  by (induction xs arbitrary: n) (auto split: if_splits)

lemma find_cases:
  obtains "find P xs = None" "\<forall>x \<in> set xs. \<not> P x" | y where "find P xs = Some y" "y \<in> set xs" "P y"
  by (cases "find P xs") (auto simp: find_None_iff find_Some_iff)

lemma scan_break_hit:
  "(case scan_break P None xs of Some t \<Rightarrow> P t | None \<Rightarrow> False) \<longleftrightarrow> (\<exists>x \<in> set xs. P x)"
  by (rule find_cases [of P xs]) (auto simp: scan_break_find scan_break_none)

lemma upd_first_map_const:
  "(\<And>x. g (f x) = g x) \<Longrightarrow> map g (upd_first P f xs) = map g xs"
  by (induction xs) auto

lemma set_upd_first: "x \<in> set (upd_first P f xs) \<Longrightarrow> x \<in> set xs \<or> (\<exists>y \<in> set xs. P y \<and> x = f y)"
  by (induction xs) (auto split: if_splits)

lemma set_del_first: "x \<in> set (del_first P xs) \<Longrightarrow> x \<in> set xs"
  by (induction xs) (auto split: if_splits)

lemma distinct_map_del_first: "distinct (map g xs) \<Longrightarrow> distinct (map g (del_first P xs))"
  by (induction xs) (auto dest: set_del_first)

lemma del_first_append_new: "\<forall>x \<in> set xs. \<not> P x \<Longrightarrow> P y \<Longrightarrow> del_first P (xs @ [y]) = xs"
  by (induction xs) auto

lemma find_append_new: "\<forall>x \<in> set xs. \<not> P x \<Longrightarrow> P y \<Longrightarrow> find P (xs @ [y]) = Some y"
  by (induction xs) auto

lemma find_upd_first:
  "find P xs = Some y \<Longrightarrow> P (f y) \<Longrightarrow> find P (upd_first P f xs) = Some (f y)"
  by (induction xs) (auto split: if_splits)

lemma find_upd_first_other:
  "(\<And>x. P x \<Longrightarrow> \<not> Q x \<and> \<not> Q (f x)) \<Longrightarrow> find Q (upd_first P f xs) = find Q xs"
  by (induction xs) auto

lemma upd_first_twice:
  "(\<And>x. P x \<Longrightarrow> P (f x)) \<Longrightarrow> upd_first P g (upd_first P f xs) = upd_first P (\<lambda>x. g (f x)) xs"
  by (induction xs) auto

lemma upd_first_same: "find P xs = Some y \<Longrightarrow> f y = y \<Longrightarrow> upd_first P f xs = xs"
  by (induction xs) (auto split: if_splits)

lemma del_upd_first: "(\<And>x. P x \<Longrightarrow> P (f x)) \<Longrightarrow> del_first P (upd_first P f xs) = del_first P xs"
  by (induction xs) auto

lemma smaplst_upd_smap [simp]: "smaplst (upd_smap d f st) = (smaplst st)(d := f (smaplst st d))"
  by (simp add: upd_smap_def)

lemma upd_smap_other [simp]:
  "sess (upd_smap d f st) = sess st" "errno (upd_smap d f st) = errno st"
  "memlist (upd_smap d f st) = memlist st" "fdlist (upd_smap d f st) = fdlist st"
  "dhandles (upd_smap d f st) = dhandles st" "dma_handle_count (upd_smap d f st) = dma_handle_count st"
  by (simp_all add: upd_smap_def)

lemma upd_memlist_other [simp]:
  "sess (upd_memlist d f st) = sess st" "errno (upd_memlist d f st) = errno st"
  "smaplst (upd_memlist d f st) = smaplst st" "fdlist (upd_memlist d f st) = fdlist st"
  "dhandles (upd_memlist d f st) = dhandles st" "dma_handle_count (upd_memlist d f st) = dma_handle_count st"
  "memlist (upd_memlist d f st) = (memlist st)(d := f (memlist st d))"
  by (simp_all add: upd_memlist_def)

lemma clear_errno_other [simp]:
  "sess (clear_errno a b st) = sess st" "memlist (clear_errno a b st) = memlist st"
  "smaplst (clear_errno a b st) = smaplst st" "fdlist (clear_errno a b st) = fdlist st"
  "dhandles (clear_errno a b st) = dhandles st" "dma_handle_count (clear_errno a b st) = dma_handle_count st"
  by (simp_all add: clear_errno_def)

section \<open>Session references\<close>

text \<open>Room for \<open>n\<close> more references on every domain.\<close>

definition room :: "nat \<Rightarrow> session \<Rightarrow> bool" where
  "room n s \<longleftrightarrow> (\<forall>h d. hlist s = Some h \<longrightarrow> unat (ref (h d)) + n < 2 ^ 32)"

lemma room_mono: "room n s \<Longrightarrow> m \<le> n \<Longrightarrow> room m s"
  unfolding room_def by (metis add_left_mono le_less_trans)

lemma room_hlist: "hlist s = hlist s' \<Longrightarrow> room n s = room n s'"
  by (simp add: room_def)

lemma room_get:
  assumes "fastrpc_session_get d s = (e, s')" and "room (Suc n) s"
  shows "room n s'"
proof (cases "e = 0")
  case False
  with assms session_get_error [of d s e s'] show ?thesis
    by (auto intro: room_mono)
next
  case True
  with assms(1) obtain h where h: "hlist s = Some h"
    and s': "hlist s' = Some (h(d := (h d)\<lparr>ref := ref (h d) + 1\<rparr>))"
    by (auto simp: fastrpc_session_get_def split: option.splits if_splits)
  have b: "unat (ref (h e)) + Suc n < 2 ^ 32" for e
    using assms(2) h by (auto simp: room_def)
  have "unat (ref (h d) + 1) = unat (ref (h d)) + 1"
    using b [of d] by (simp add: unat_word_ariths)
  with b s' show ?thesis
    by (auto simp: room_def intro: Suc_lessD)
qed

lemma room_not_max: "room 1 s \<Longrightarrow> refs_of s d \<noteq> Some (- 1)"
proof
  assume r: "room 1 s" and m: "refs_of s d = Some (- 1)"
  then obtain h where "hlist s = Some h" "ref (h d) = - 1"
    by (auto simp: refs_of_def)
  with r have "unat (- 1 :: u32) + 1 < 2 ^ 32"
    unfolding room_def by metis
  then show False by (simp add: unsigned_minus_1_eq_mask mask_eq_exp_minus_1)
qed

lemma with_session_hlist:
  assumes "with_session d fail body st = (r, st')" and "room 1 (sess st)"
    and "\<And>s q st1. fastrpc_session_get d (sess st) = (0, s) \<Longrightarrow> body (st\<lparr>sess := s\<rparr>) = (q, st1)
            \<Longrightarrow> hlist (sess st1) = hlist s"
  shows "hlist (sess st') = hlist (sess st)"
proof -
  obtain e s where g: "fastrpc_session_get d (sess st) = (e, s)" by fastforce
  obtain q st1 where b: "body (st\<lparr>sess := s\<rparr>) = (q, st1)" by fastforce
  show ?thesis
  proof (cases "e = 0")
    case False
    with assms(1) g session_get_error [OF g] show ?thesis by (auto simp: with_session_def)
  next
    case True
    with assms(3) g b have "hlist (sess st1) = hlist s" by simp
    then have "hlist (snd (fastrpc_session_put d (sess st1))) = hlist (snd (fastrpc_session_put d s))"
      by (auto simp: fastrpc_session_put_def split: option.splits)
    with True g have "hlist (snd (fastrpc_session_put d (sess st1))) = hlist (sess st)"
      using session_get_put room_not_max [OF assms(2)] by metis
    with True assms(1) g b show ?thesis by (auto simp: with_session_def)
  qed
qed

text \<open>A predicate of the tables that the body keeps is kept.\<close>

lemma with_session_keeps:
  assumes "with_session d fail body st = (r, st')" and "Q st"
    and "\<And>st s. Q st \<Longrightarrow> Q (st\<lparr>sess := s\<rparr>)"
    and "\<And>st q st1. Q st \<Longrightarrow> body st = (q, st1) \<Longrightarrow> Q st1"
  shows "Q st'"
proof -
  obtain e s where g: "fastrpc_session_get d (sess st) = (e, s)" by fastforce
  obtain q st1 where b: "body (st\<lparr>sess := s\<rparr>) = (q, st1)" by fastforce
  have "Q (st\<lparr>sess := s\<rparr>)" "Q st1" using assms(2-4) b by blast+
  with assms(1,3) g b show ?thesis
    by (auto simp: with_session_def split: if_splits)
qed

text \<open>A session that can be used: initialised, not being closed, with a device.\<close>

definition session_usable :: "memst \<Rightarrow> int \<Rightarrow> int \<Rightarrow> bool" where
  "session_usable st d dv \<longleftrightarrow>
     IS_VALID_EFFECTIVE_DOMAIN_ID d \<and> dv \<ge> 0 \<and> fastrpc_init_once st = 0 \<and>
     (case hlist (sess st) of None \<Rightarrow> False
      | Some h \<Rightarrow> state (h d) \<noteq> FASTRPC_DOMAIN_STATE_DEINIT \<and> dev (h d) = dv)"

lemma usable_get:
  assumes "session_usable st d dv"
  obtains s where "fastrpc_session_get d (sess st) = (0, s)"
    and "fastrpc_session_dev d s = (0, dv)" and "init_err s = 0"
  using assms
  by (auto simp: session_usable_def fastrpc_session_get_def fastrpc_session_dev_def fastrpc_init_once_def
      upd_domain_def set_thread_context_def split: option.splits)

lemma usable_not_minus1: "session_usable st d dv \<Longrightarrow> d \<noteq> -1 \<and> dv \<noteq> -1"
  by (auto simp: session_usable_def IS_VALID_EFFECTIVE_DOMAIN_ID_def)

section \<open>Well-formed tables\<close>

definition smaps_ok :: "(int \<Rightarrow> static_map list) \<Rightarrow> bool" where
  "smaps_ok sm \<longleftrightarrow> (\<forall>d. distinct (map s_fd (sm d)) \<and> (\<forall>m \<in> set (sm d). s_fd m \<ge> 0 \<and> s_refs m \<ge> 0))"

lemma smaps_okI_upd:
  assumes "smaps_ok sm" "distinct (map s_fd l)" "\<forall>m \<in> set l. s_fd m \<ge> 0 \<and> s_refs m \<ge> 0"
  shows "smaps_ok (sm(d := l))"
  using assms by (simp add: smaps_ok_def)

lemma smaps_ok_append:
  assumes "smaps_ok sm" "\<forall>x \<in> set (sm d). s_fd x \<noteq> s_fd m" "s_fd m \<ge> 0" "s_refs m \<ge> 0"
  shows "smaps_ok (sm(d := sm d @ [m]))"
  using assms by (intro smaps_okI_upd) (auto simp: smaps_ok_def)

lemma smaps_ok_upd_first:
  assumes "smaps_ok sm" "\<And>m. m \<in> set (sm d) \<Longrightarrow> P m \<Longrightarrow> s_fd (f m) = s_fd m \<and> s_refs (f m) \<ge> 0"
  shows "smaps_ok (sm(d := upd_first P f (sm d)))"
proof (rule smaps_okI_upd [OF assms(1)])
  have "map s_fd (upd_first P f l) = map s_fd l"
    if "\<And>m. m \<in> set l \<Longrightarrow> P m \<Longrightarrow> s_fd (f m) = s_fd m" for l
    using that by (induction l) auto
  with assms show "distinct (map s_fd (upd_first P f (sm d)))" by (simp add: smaps_ok_def)
  show "\<forall>m \<in> set (upd_first P f (sm d)). s_fd m \<ge> 0 \<and> s_refs m \<ge> 0"
    using assms by (auto simp: smaps_ok_def dest!: set_upd_first)
qed

lemma smaps_ok_del_first: "smaps_ok sm \<Longrightarrow> smaps_ok (sm(d := del_first P (sm d)))"
  by (intro smaps_okI_upd) (auto simp: smaps_ok_def distinct_map_del_first dest: set_del_first)

definition maps_wf :: "memst \<Rightarrow> bool" where
  "maps_wf st \<longleftrightarrow> smaps_ok (smaplst st)"

lemma maps_wf_simps [simp]:
  "maps_wf (st\<lparr>sess := s\<rparr>) = maps_wf st" "maps_wf (st\<lparr>errno := e\<rparr>) = maps_wf st"
  "maps_wf (st\<lparr>fdlist := f\<rparr>) = maps_wf st" "maps_wf (clear_errno a b st) = maps_wf st"
  "maps_wf (upd_memlist d g st) = maps_wf st"
  by (simp_all add: maps_wf_def)

lemma mmap_locked_wf:
  assumes "mmap_locked env d fd va off len fl at st = (r, st')" "maps_wf st" "fd \<ge> 0"
  shows "maps_wf st'"
  using assms
  by (auto simp: mmap_locked_def maps_wf_def scan_break_hit Let_def
      intro!: smaps_ok_append split: if_splits prod.splits option.splits)

lemma munmap_locked_wf:
  assumes "munmap_locked env P d st = (r, st')" "maps_wf st"
    and "\<And>m n. P (m\<lparr>s_refs := n\<rparr>) = P m"
  shows "maps_wf st'"
  using assms
  by (auto simp: munmap_locked_def munmap_claim_def munmap_finish_def maps_wf_def
      upd_first_twice del_upd_first
      intro!: smaps_ok_upd_first smaps_ok_del_first split: if_splits prod.splits option.splits sum.splits)

lemma mmap_helper_wf:
  assumes "fastrpc_mmap_helper env d fd va off len fl at st = (r, st')" "maps_wf st" "fd \<ge> 0"
  shows "maps_wf st'"
  using assms mmap_locked_wf
  by (auto simp: fastrpc_mmap_helper_def Let_def split: if_splits prod.splits
      elim!: with_session_keeps [where Q = maps_wf])

lemma fastrpc_mmap_wf:
  "fastrpc_mmap env d fd va off len fl st = (e, st') \<Longrightarrow> maps_wf st \<Longrightarrow> maps_wf st'"
  by (auto simp: fastrpc_mmap_def Let_def split: if_splits prod.splits elim!: mmap_helper_wf)

lemma fastrpc_mmap_internal_wf:
  "fastrpc_mmap_internal env d fd va off len fl st = (e, st') \<Longrightarrow> maps_wf st \<Longrightarrow> maps_wf st'"
  by (auto simp: fastrpc_mmap_internal_def Let_def split: if_splits prod.splits elim!: mmap_helper_wf)

lemma fastrpc_munmap_wf:
  "fastrpc_munmap env d fd va len st = (e, st') \<Longrightarrow> maps_wf st \<Longrightarrow> maps_wf st'"
  by (auto simp: fastrpc_munmap_def Let_def split: if_splits prod.splits
      elim!: with_session_keeps [where Q = maps_wf] munmap_locked_wf)

lemma fastrpc_munmap_internal_wf:
  "fastrpc_munmap_internal env d ra len st = (e, st') \<Longrightarrow> maps_wf st \<Longrightarrow> maps_wf st'"
  by (auto simp: fastrpc_munmap_internal_def Let_def split: if_splits prod.splits
      elim!: with_session_keeps [where Q = maps_wf] munmap_locked_wf)

text \<open>The mapping operations leave the registered buffers and the DMA handles alone.\<close>

definition tabs :: "memst \<Rightarrow> dma_handle_info list \<times> nat \<times> mem_to_fd list" where
  "tabs st = (dhandles st, dma_handle_count st, fdlist st)"

lemma tabs_simps [simp]:
  "tabs (st\<lparr>sess := s\<rparr>) = tabs st" "tabs (st\<lparr>errno := e\<rparr>) = tabs st"
  "tabs (clear_errno a b st) = tabs st" "tabs (upd_memlist d g st) = tabs st" "tabs (upd_smap d h st) = tabs st"
  by (simp_all add: tabs_def)

lemma mmap_locked_tabs: "mmap_locked env d fd va off len fl at st = (r, st') \<Longrightarrow> tabs st' = tabs st"
  by (auto simp: mmap_locked_def Let_def split: if_splits prod.splits)

lemma munmap_locked_tabs: "munmap_locked env P d st = (r, st') \<Longrightarrow> tabs st' = tabs st"
  by (auto simp: munmap_locked_def munmap_claim_def munmap_finish_def
      split: if_splits prod.splits option.splits sum.splits)

lemma with_session_tabs:
  assumes "with_session d fail body st = (r, st')"
    and "\<And>st q st1. body st = (q, st1) \<Longrightarrow> tabs st1 = tabs st"
  shows "tabs st' = tabs st"
  by (rule with_session_keeps [OF assms(1), where Q = "\<lambda>s. tabs s = tabs st"]) (auto dest: assms(2))

lemma mmap_helper_tabs:
  "fastrpc_mmap_helper env d fd va off len fl at st = (r, st') \<Longrightarrow> tabs st' = tabs st"
  by (auto simp: fastrpc_mmap_helper_def Let_def split: if_splits prod.splits
      dest!: with_session_tabs mmap_locked_tabs)

lemma fastrpc_mmap_tabs: "fastrpc_mmap env d fd va off len fl st = (e, st') \<Longrightarrow> tabs st' = tabs st"
  by (auto simp: fastrpc_mmap_def Let_def split: if_splits prod.splits dest!: mmap_helper_tabs)

lemma fastrpc_mmap_internal_tabs:
  "fastrpc_mmap_internal env d fd va off len fl st = (e, st') \<Longrightarrow> tabs st' = tabs st"
  by (auto simp: fastrpc_mmap_internal_def Let_def split: if_splits prod.splits dest!: mmap_helper_tabs)

lemma fastrpc_munmap_tabs: "fastrpc_munmap env d fd va len st = (e, st') \<Longrightarrow> tabs st' = tabs st"
  by (auto simp: fastrpc_munmap_def Let_def split: if_splits prod.splits
      dest!: with_session_tabs munmap_locked_tabs)

lemma fastrpc_munmap_internal_tabs: "fastrpc_munmap_internal env d ra len st = (e, st') \<Longrightarrow> tabs st' = tabs st"
  by (auto simp: fastrpc_munmap_internal_def Let_def split: if_splits prod.splits
      dest!: with_session_tabs munmap_locked_tabs)

lemmas map_ops_wf = fastrpc_mmap_wf fastrpc_munmap_wf fastrpc_mmap_internal_wf fastrpc_munmap_internal_wf
lemmas map_ops_tabs = fastrpc_mmap_tabs fastrpc_munmap_tabs fastrpc_mmap_internal_tabs fastrpc_munmap_internal_tabs

lemma buffer_ref_wf: "fastrpc_buffer_ref d fd r st = (x, st') \<Longrightarrow> maps_wf st \<Longrightarrow> maps_wf st'"
  by (auto simp: fastrpc_buffer_ref_def Let_def maps_wf_def intro!: smaps_ok_upd_first
      split: if_splits option.splits)

lemma buffer_ref_tabs: "fastrpc_buffer_ref d fd r st = (x, st') \<Longrightarrow> tabs st' = tabs st"
  by (auto simp: fastrpc_buffer_ref_def Let_def split: if_splits option.splits)

text \<open>The operations on remote mappings: \<open>keepable\<close> collects what they need to keep.\<close>

definition maps_frame :: "dma_handle_info list \<times> nat \<times> mem_to_fd list \<Rightarrow> memst \<Rightarrow> bool" where
  "maps_frame t st \<longleftrightarrow> maps_wf st \<and> tabs st = t"

lemma maps_frame_simps [simp]:
  "maps_frame t (st\<lparr>sess := s\<rparr>) = maps_frame t st" "maps_frame t (st\<lparr>errno := e\<rparr>) = maps_frame t st"
  "maps_frame t (upd_memlist d g st) = maps_frame t st" "maps_frame t (clear_errno a b st) = maps_frame t st"
  by (simp_all add: maps_frame_def)

lemma maps_frame_ops:
  "fastrpc_mmap env d fd va off len fl st = (e, st') \<Longrightarrow> maps_frame t st \<Longrightarrow> maps_frame t st'"
  "fastrpc_mmap_internal env d fd va off len fl st = (q, st') \<Longrightarrow> maps_frame t st \<Longrightarrow> maps_frame t st'"
  "fastrpc_munmap env d fd va len st = (e, st') \<Longrightarrow> maps_frame t st \<Longrightarrow> maps_frame t st'"
  "fastrpc_munmap_internal env d ra len st = (e, st') \<Longrightarrow> maps_frame t st \<Longrightarrow> maps_frame t st'"
  "fastrpc_buffer_ref d fd r st = (x, st') \<Longrightarrow> maps_frame t st \<Longrightarrow> maps_frame t st'"
  by (auto simp: maps_frame_def map_ops_wf map_ops_tabs buffer_ref_wf buffer_ref_tabs)

lemma remote_mem_map_frame:
  "remote_mem_map env d fd fl va len p st = (r, st') \<Longrightarrow> maps_frame t st \<Longrightarrow> maps_frame t st'"
  by (auto simp: remote_mem_map_def Let_def split: if_splits prod.splits
      elim!: with_session_keeps [where Q = "maps_frame t"])

lemma remote_mem_unmap_frame:
  "remote_mem_unmap env d ra len st = (r, st') \<Longrightarrow> maps_frame t st \<Longrightarrow> maps_frame t st'"
  by (auto simp: remote_mem_unmap_def Let_def split: if_splits prod.splits
      elim!: with_session_keeps [where Q = "maps_frame t"])

lemma mmap64_locked_frame:
  "mmap64_locked env d fd fl va len st = (r, st') \<Longrightarrow> maps_frame t st \<Longrightarrow> maps_frame t st'"
  by (auto simp: mmap64_locked_def Let_def split: if_splits prod.splits dest: maps_frame_ops)

lemma remote_map_lookup_frame:
  "fastrpc_remote_map_lookup d va st = (r, st') \<Longrightarrow> maps_frame t st \<Longrightarrow> maps_frame t st'"
  by (auto simp: fastrpc_remote_map_lookup_def split: option.splits)

lemma munmap64_locked_frame:
  assumes "munmap64_locked env d va len st = (r, st')" "maps_frame t st"
  shows "maps_frame t st'"
  using assms
  by (auto simp: munmap64_locked_def Let_def split: if_splits prod.splits option.splits
      dest!: remote_map_lookup_frame [where t = t] maps_frame_ops [where t = t])

lemma remote_mmap64_internal_frame:
  "remote_mmap64_internal env fd fl va len st = (r, st') \<Longrightarrow> maps_frame t st \<Longrightarrow> maps_frame t st'"
  by (auto simp: remote_mmap64_internal_def Let_def split: if_splits prod.splits
      elim!: with_session_keeps [where Q = "maps_frame t"] mmap64_locked_frame)

lemma remote_mmap64_frame:
  "remote_mmap64 env fd fl va len p st = (r, st') \<Longrightarrow> maps_frame t st \<Longrightarrow> maps_frame t st'"
  by (auto simp: remote_mmap64_def split: if_splits prod.splits elim!: remote_mmap64_internal_frame)

lemma remote_munmap64_frame:
  "remote_munmap64 env va len st = (r, st') \<Longrightarrow> maps_frame t st \<Longrightarrow> maps_frame t st'"
  by (auto simp: remote_munmap64_def Let_def split: if_splits prod.splits
      elim!: with_session_keeps [where Q = "maps_frame t"] munmap64_locked_frame)

section \<open>The DMA handle table is a counted map of at most 256 entries\<close>

lemma first_idx_less:
  assumes "first_idx P n xs < n" "n \<le> length xs"
  shows "P (xs ! first_idx P n xs)"
proof -
  have "first_idx P n xs < length (take n xs)" using assms by simp
  then have "P (take n xs ! first_idx P n xs)"
    unfolding first_idx_def using nth_length_takeWhile by blast
  with assms(1) show ?thesis by simp
qed

lemma first_idx_before:
  assumes "j < first_idx P n xs" shows "\<not> P (xs ! j)"
proof -
  have j: "j < length (takeWhile (\<lambda>x. \<not> P x) (take n xs))" using assms by (simp add: first_idx_def)
  then have "takeWhile (\<lambda>x. \<not> P x) (take n xs) ! j = xs ! j"
    using length_takeWhile_le [of "\<lambda>x. \<not> P x" "take n xs"] by (simp add: takeWhile_nth)
  with j show ?thesis using nth_mem set_takeWhileD by metis
qed

lemma first_idx_none: "\<not> first_idx P n xs < n \<Longrightarrow> j < n \<Longrightarrow> \<not> P (xs ! j)"
  using first_idx_before [of j P n xs] by linarith

definition entry :: "dma_handle_info \<Rightarrow> int \<times> u32 \<times> int" where
  "entry h = (d_len h, d_attr h, d_used h)"

definition dma_abs :: "dma_handle_info list \<Rightarrow> int \<rightharpoonup> int \<times> u32 \<times> int" where
  "dma_abs dh fd = map_option entry (find (\<lambda>h. d_used h \<noteq> 0 \<and> d_fd h = fd) dh)"

definition dma_uniq :: "dma_handle_info list \<Rightarrow> bool" where
  "dma_uniq dh \<longleftrightarrow> (\<forall>i < length dh. \<forall>j < length dh.
     d_used (dh ! i) \<noteq> 0 \<and> d_used (dh ! j) \<noteq> 0 \<and> d_fd (dh ! i) = d_fd (dh ! j) \<longrightarrow> i = j)"

definition dma_wf :: "memst \<Rightarrow> bool" where
  "dma_wf st \<longleftrightarrow> length (dhandles st) = MAX_DMA_HANDLES \<and> dma_handle_count st \<le> MAX_DMA_HANDLES \<and>
     (\<forall>h \<in> set (dhandles st). d_used h \<ge> 0) \<and>
     (\<forall>i. dma_handle_count st \<le> i \<and> i < MAX_DMA_HANDLES \<longrightarrow> d_used (dhandles st ! i) = 0) \<and>
     dma_uniq (dhandles st)"

lemma dma_abs_Some:
  assumes "dma_uniq dh"
  shows "dma_abs dh fd = Some v \<longleftrightarrow> (\<exists>i < length dh. d_used (dh ! i) \<noteq> 0 \<and> d_fd (dh ! i) = fd \<and> v = entry (dh ! i))"
proof
  assume "dma_abs dh fd = Some v"
  then show "\<exists>i < length dh. d_used (dh ! i) \<noteq> 0 \<and> d_fd (dh ! i) = fd \<and> v = entry (dh ! i)"
    by (auto simp: dma_abs_def find_Some_iff)
next
  assume "\<exists>i < length dh. d_used (dh ! i) \<noteq> 0 \<and> d_fd (dh ! i) = fd \<and> v = entry (dh ! i)"
  then obtain i where i: "i < length dh" "d_used (dh ! i) \<noteq> 0" "d_fd (dh ! i) = fd" "v = entry (dh ! i)" by blast
  moreover have "\<not> (d_used (dh ! j) \<noteq> 0 \<and> d_fd (dh ! j) = fd)" if "j < i" for j
    using assms i that unfolding dma_uniq_def by (metis less_irrefl less_trans)
  ultimately have "find (\<lambda>h. d_used h \<noteq> 0 \<and> d_fd h = fd) dh = Some (dh ! i)"
    by (auto simp: find_Some_iff)
  with i show "dma_abs dh fd = Some v" by (simp add: dma_abs_def)
qed

lemma dma_abs_None: "dma_abs dh fd = None \<longleftrightarrow> (\<forall>i < length dh. d_used (dh ! i) \<noteq> 0 \<longrightarrow> d_fd (dh ! i) \<noteq> fd)"
  by (auto simp: dma_abs_def find_None_iff in_set_conv_nth)

lemma dma_abs_upd:
  assumes "dma_uniq dh" "dma_uniq (dh[i := h])" "i < length dh"
    and "d_used (dh ! i) \<noteq> 0 \<longrightarrow> d_fd (dh ! i) = d_fd h"
    and "d_used (dh ! i) = 0 \<longrightarrow> d_used h \<noteq> 0"
  shows "dma_abs (dh[i := h]) = (dma_abs dh)(d_fd h := if d_used h \<noteq> 0 then Some (entry h) else None)"
proof
  fix fd
  have "dma_abs (dh[i := h]) fd = Some v \<longleftrightarrow>
        ((dma_abs dh)(d_fd h := if d_used h \<noteq> 0 then Some (entry h) else None)) fd = Some v" for v
  proof (cases "fd = d_fd h")
    case True
    show ?thesis
    proof (cases "d_used h = 0")
      case used: False
      with True assms(3) dma_abs_Some [OF assms(2), of fd "entry h"] have "dma_abs (dh[i := h]) fd = Some (entry h)"
        by (metis length_list_update nth_list_update_eq)
      with True used show ?thesis by simp
    next
      case unused: True
      have "d_fd (dh[i := h] ! j) \<noteq> fd" if "j < length dh" "d_used (dh[i := h] ! j) \<noteq> 0" for j
        using that assms(1,3-5) True unused unfolding dma_uniq_def
        by (cases "j = i") (simp, metis nth_list_update_neq)
      then have "dma_abs (dh[i := h]) fd = None" by (simp add: dma_abs_None)
      with True unused show ?thesis by simp
    qed
  next
    case False
    then show ?thesis
      using assms(3,4) dma_abs_Some [OF assms(1), of fd v] dma_abs_Some [OF assms(2), of fd v]
      by (auto simp: nth_list_update)
  qed
  then show "dma_abs (dh[i := h]) fd =
     ((dma_abs dh)(d_fd h := if d_used h \<noteq> 0 then Some (entry h) else None)) fd"
    by (metis option.exhaust)
qed

lemma dma_uniq_upd:
  assumes "dma_uniq dh" "i < length dh"
    and "d_used h \<noteq> 0 \<Longrightarrow> \<forall>j < length dh. j \<noteq> i \<longrightarrow> d_used (dh ! j) \<noteq> 0 \<longrightarrow> d_fd (dh ! j) \<noteq> d_fd h"
  shows "dma_uniq (dh[i := h])"
  using assms unfolding dma_uniq_def by (auto simp: nth_list_update)

lemma last_used_le: "last_used dh i \<le> i"
  by (induction i) (auto intro: le_SucI)

lemma last_used_above: "last_used dh i < j \<Longrightarrow> j < i \<Longrightarrow> d_used (dh ! j) = 0"
  by (induction i) (auto simp: less_Suc_eq split: if_splits)

text \<open>A slot at or above the count is free, so an index of an entry in use is below the count.\<close>

lemma dma_used_below: "dma_wf st \<Longrightarrow> i < MAX_DMA_HANDLES \<Longrightarrow> d_used (dhandles st ! i) \<noteq> 0 \<Longrightarrow> i < dma_handle_count st"
  unfolding dma_wf_def by (meson not_less)

lemma dma_lookup:
  assumes "dma_wf st" and "i = first_idx (\<lambda>h. d_used h \<noteq> 0 \<and> d_fd h = fd) (dma_handle_count st) (dhandles st)"
  shows "i < dma_handle_count st \<Longrightarrow>
           d_used (dhandles st ! i) > 0 \<and> d_fd (dhandles st ! i) = fd \<and> i < length (dhandles st) \<and>
           dma_abs (dhandles st) fd = Some (entry (dhandles st ! i))"
    and "\<not> i < dma_handle_count st \<Longrightarrow> dma_abs (dhandles st) fd = None"
proof -
  let ?P = "\<lambda>h. d_used h \<noteq> 0 \<and> d_fd h = fd"
  assume i: "i < dma_handle_count st"
  with assms have l: "i < length (dhandles st)" and P: "?P (dhandles st ! i)"
    using first_idx_less [of ?P "dma_handle_count st" "dhandles st"] by (auto simp: dma_wf_def)
  have "d_used (dhandles st ! i) \<ge> 0"
    using assms(1) nth_mem [OF l] by (simp add: dma_wf_def)
  with P have "d_used (dhandles st ! i) > 0" by simp
  with l P show "d_used (dhandles st ! i) > 0 \<and> d_fd (dhandles st ! i) = fd \<and> i < length (dhandles st) \<and>
           dma_abs (dhandles st) fd = Some (entry (dhandles st ! i))"
    using assms(1) dma_abs_Some [of "dhandles st" fd] by (auto simp: dma_wf_def)
next
  let ?P = "\<lambda>h. d_used h \<noteq> 0 \<and> d_fd h = fd"
  assume i: "\<not> i < dma_handle_count st"
  then show "dma_abs (dhandles st) fd = None"
    using assms dma_used_below [OF assms(1)] first_idx_none [of ?P "dma_handle_count st" "dhandles st"]
    by (auto simp: dma_abs_None dma_wf_def)
qed

text \<open>Registration on the abstract map.\<close>

definition dma_register :: "int \<Rightarrow> u32 \<Rightarrow> u32 \<Rightarrow> (int \<rightharpoonup> int \<times> u32 \<times> int) \<Rightarrow> (int \<rightharpoonup> int \<times> u32 \<times> int)" where
  "dma_register fd len attr m =
     m(fd \<mapsto> (case m fd of
                Some (l, a, u) \<Rightarrow> (l, if a = 0 then attr else a, u + 1)
              | None \<Rightarrow> (int32 (uint len), attr, 1)))"

definition dma_unregister :: "int \<Rightarrow> (int \<rightharpoonup> int \<times> u32 \<times> int) \<Rightarrow> (u32 \<times> u32) \<times> (int \<rightharpoonup> int \<times> u32 \<times> int)" where
  "dma_unregister fd m =
     (case m fd of
        None \<Rightarrow> ((0, 0), m)
      | Some (l, a, u) \<Rightarrow> ((word_of_int l, a), m(fd := if u = 1 then None else Some (l, a, u - 1))))"

lemma dma_new_slot:
  assumes wf: "dma_wf st" and none: "dma_abs (dhandles st) fd = None"
    and i: "i < MAX_DMA_HANDLES" "d_used (dhandles st ! i) = 0"
    and h: "d_fd h = fd" "d_used h = 1"
    and n: "i < n" "dma_handle_count st \<le> n" "n \<le> MAX_DMA_HANDLES"
  shows "dma_wf (st\<lparr>dhandles := (dhandles st)[i := h], dma_handle_count := n\<rparr>)"
    and "dma_abs ((dhandles st)[i := h]) = (dma_abs (dhandles st))(fd \<mapsto> entry h)"
proof -
  have l: "length (dhandles st) = MAX_DMA_HANDLES" "dma_uniq (dhandles st)" using wf by (auto simp: dma_wf_def)
  then have u: "dma_uniq ((dhandles st)[i := h])"
    using i h none by (intro dma_uniq_upd) (auto simp: dma_abs_None)
  show "dma_abs ((dhandles st)[i := h]) = (dma_abs (dhandles st))(fd \<mapsto> entry h)"
    using dma_abs_upd [OF l(2) u] l(1) i h by simp
  show "dma_wf (st\<lparr>dhandles := (dhandles st)[i := h], dma_handle_count := n\<rparr>)"
    using wf u l i h n by (auto simp: dma_wf_def nth_list_update dest!: set_update_subset_insert [THEN subsetD])
qed

lemma dma_same_slot:
  assumes wf: "dma_wf st" and i: "i < MAX_DMA_HANDLES" "d_used (dhandles st ! i) \<noteq> 0"
    and h: "d_fd h = d_fd (dhandles st ! i)" "d_used h \<ge> 0"
    and n: "dma_handle_count st \<le> n \<or> (\<forall>j. n \<le> j \<and> j < dma_handle_count st \<longrightarrow> d_used ((dhandles st)[i := h] ! j) = 0)"
      "n \<le> MAX_DMA_HANDLES" "i < n \<or> d_used h = 0"
  shows "dma_wf (st\<lparr>dhandles := (dhandles st)[i := h], dma_handle_count := n\<rparr>)"
    and "dma_abs ((dhandles st)[i := h]) =
         (dma_abs (dhandles st))(d_fd h := if d_used h \<noteq> 0 then Some (entry h) else None)"
proof -
  have l: "length (dhandles st) = MAX_DMA_HANDLES" "dma_uniq (dhandles st)" using wf by (auto simp: dma_wf_def)
  have u: "dma_uniq ((dhandles st)[i := h])"
    using l i h by (intro dma_uniq_upd) (auto simp: dma_uniq_def)
  show "dma_abs ((dhandles st)[i := h]) =
        (dma_abs (dhandles st))(d_fd h := if d_used h \<noteq> 0 then Some (entry h) else None)"
    using dma_abs_upd [OF l(2) u] l(1) i h by simp
  have "d_used ((dhandles st)[i := h] ! j) = 0" if "n \<le> j" "j < MAX_DMA_HANDLES" for j
  proof (cases "j < dma_handle_count st")
    case True
    with n(1) that show ?thesis by auto
  next
    case False
    with wf that n(3) l i show ?thesis by (auto simp: dma_wf_def nth_list_update)
  qed
  with wf u l h n(2) show "dma_wf (st\<lparr>dhandles := (dhandles st)[i := h], dma_handle_count := n\<rparr>)"
    by (auto simp: dma_wf_def dest!: set_update_subset_insert [THEN subsetD])
qed

lemma register_dma_refines:
  assumes wf: "dma_wf st" and r: "remote_register_dma_handle_attr fd len attr st = (e, st')"
  shows "dma_wf st' \<and>
    (if e = 0 then dma_abs (dhandles st') = dma_register fd len attr (dma_abs (dhandles st))
     else st' = st \<and> (fastrpc_init_once st \<noteq> 0 \<or> (attr \<noteq> 0 \<and> attr \<noteq> FASTRPC_ATTR_NOMAP) \<or> fd < 0 \<or>
            e = AEE_EINVHANDLE \<and> dma_abs (dhandles st) fd = None \<and> (\<forall>h \<in> set (dhandles st). d_used h \<noteq> 0)))"
proof (cases "fastrpc_init_once st \<noteq> 0 \<or> (attr \<noteq> 0 \<and> attr \<noteq> FASTRPC_ATTR_NOMAP) \<or> fd < 0")
  case True
  with r wf show ?thesis by (auto simp: remote_register_dma_handle_attr_def Let_def split: if_splits)
next
  case ok: False
  let ?n = "dma_handle_count st" and ?dh = "dhandles st"
  let ?i = "first_idx (\<lambda>h. d_used h \<noteq> 0 \<and> d_fd h = fd) ?n ?dh"
  let ?k = "first_idx (\<lambda>h. d_used h = 0) ?n ?dh"
  have n: "?n \<le> MAX_DMA_HANDLES" "length ?dh = MAX_DMA_HANDLES" using wf by (auto simp: dma_wf_def)
  show ?thesis
  proof (cases "?i < ?n")
    case True
    let ?h = "(?dh ! ?i)\<lparr>d_attr := (if d_attr (?dh ! ?i) = 0 then attr else d_attr (?dh ! ?i)),
                          d_used := d_used (?dh ! ?i) + 1\<rparr>"
    have st': "e = 0" "st' = st\<lparr>dhandles := ?dh[?i := ?h], dma_handle_count := ?n\<rparr>"
      using r ok True by (auto simp: remote_register_dma_handle_attr_def Let_def)
    have L: "d_used (?dh ! ?i) > 0 \<and> d_fd (?dh ! ?i) = fd \<and> ?i < length ?dh \<and> dma_abs ?dh fd = Some (entry (?dh ! ?i))"
      using dma_lookup(1) [OF wf refl True] .
    then show ?thesis
      using dma_same_slot [OF wf, of ?i ?h ?n] st' n True by (simp add: dma_register_def entry_def)
  next
    case no: False
    then have none: "dma_abs ?dh fd = None" using dma_lookup(2) [OF wf refl] by blast
    let ?new = "\<lparr>d_fd = fd, d_len = int32 (uint len), d_used = 1, d_attr = attr\<rparr>"
    consider (slot) "?k < ?n" | (full) "\<not> ?k < ?n" "?n \<ge> MAX_DMA_HANDLES" | (grow) "\<not> ?k < ?n" "?n < MAX_DMA_HANDLES"
      by linarith
    then show ?thesis
    proof cases
      case slot
      then have "e = 0" "st' = st\<lparr>dhandles := ?dh[?k := ?new], dma_handle_count := ?n\<rparr>"
        using r ok no by (auto simp: remote_register_dma_handle_attr_def Let_def)
      moreover have "d_used (?dh ! ?k) = 0" using first_idx_less [OF slot] n by simp
      ultimately show ?thesis
        using dma_new_slot [OF wf none, of ?k ?new ?n] slot n none by (simp add: dma_register_def entry_def)
    next
      case full
      then have "e = AEE_EINVHANDLE" "st' = st"
        using r ok no by (auto simp: remote_register_dma_handle_attr_def Let_def)
      moreover have "\<forall>h \<in> set ?dh. d_used h \<noteq> 0"
        using first_idx_none [OF full(1)] full(2) n by (auto simp: in_set_conv_nth)
      ultimately show ?thesis using none wf by simp
    next
      case grow
      then have "e = 0" "st' = st\<lparr>dhandles := ?dh[?n := ?new], dma_handle_count := ?n + 1\<rparr>"
        using r ok no by (auto simp: remote_register_dma_handle_attr_def Let_def)
      moreover have "d_used (?dh ! ?n) = 0" using wf grow by (auto simp: dma_wf_def)
      ultimately show ?thesis
        using dma_new_slot [OF wf none, of ?n ?new "?n + 1"] grow n none by (simp add: dma_register_def entry_def)
    qed
  qed
qed

lemma unregister_dma_refines:
  assumes wf: "dma_wf st" and r: "unregister_dma_handle fd st = (out, st')"
  shows "dma_wf st' \<and> (out, dma_abs (dhandles st')) = dma_unregister fd (dma_abs (dhandles st))"
proof -
  let ?n = "dma_handle_count st" and ?dh = "dhandles st"
  let ?i = "first_idx (\<lambda>h. d_used h \<noteq> 0 \<and> d_fd h = fd) ?n ?dh"
  let ?h = "(?dh ! ?i)\<lparr>d_used := d_used (?dh ! ?i) - 1\<rparr>"
  let ?m = "if ?i = ?n - 1 \<and> d_used ?h = 0 then last_used ?dh ?i + 1 else ?n"
  show ?thesis
  proof (cases "?i < ?n")
    case False
    with r wf dma_lookup(2) [OF wf refl False] show ?thesis
      by (simp add: unregister_dma_handle_def dma_unregister_def Let_def)
  next
    case True
    have L: "d_used (?dh ! ?i) > 0" "d_fd (?dh ! ?i) = fd" "?i < length ?dh" "dma_abs ?dh fd = Some (entry (?dh ! ?i))"
      using dma_lookup(1) [OF wf refl True] by auto
    have n: "?n \<le> MAX_DMA_HANDLES" "length ?dh = MAX_DMA_HANDLES" using wf by (auto simp: dma_wf_def)
    have st': "out = (word_of_int (d_len (?dh ! ?i)), d_attr (?dh ! ?i))"
      "st' = st\<lparr>dhandles := ?dh[?i := ?h], dma_handle_count := ?m\<rparr>"
      using r True by (auto simp: unregister_dma_handle_def Let_def)
    have free: "d_used (?dh[?i := ?h] ! j) = 0" if "?m \<le> j" "j < ?n" for j
      using that L(3) last_used_above [of ?dh ?i j] last_used_le [of ?dh ?i]
      by (cases "j = ?i") (auto split: if_splits)
    have m: "?m \<le> MAX_DMA_HANDLES" "?i < ?m \<or> d_used ?h = 0"
      using n(1) True last_used_le [of ?dh ?i] by auto
    have "dma_wf st'"
      using dma_same_slot(1) [OF wf, of ?i ?h ?m] L n(2) m free st'(2) by simp
    moreover have "dma_abs (dhandles st') = (dma_abs ?dh)(fd := if d_used ?h \<noteq> 0 then Some (entry ?h) else None)"
      using dma_same_slot(2) [OF wf, of ?i ?h ?m] L n(2) m free st'(2) by simp
    ultimately show ?thesis using L(1,4) st'(1) by (simp add: dma_unregister_def entry_def)
  qed
qed

section \<open>Static mappings on a usable session\<close>

lemma small_flags:
  assumes "(f :: u32) < FASTRPC_MAP_MAX"
  shows "f AND FASTRPC_MAP_FLAGS_MASK = f" and "f AND NOT FASTRPC_MAP_FLAGS_MASK = 0"
proof -
  have m: "(FASTRPC_MAP_FLAGS_MASK :: u32) = mask 16" by (simp add: mask_eq_exp_minus_1)
  have "unat f < 2 ^ 16" using assms by (simp add: word_less_nat_alt)
  then show a: "f AND FASTRPC_MAP_FLAGS_MASK = f"
    unfolding m take_bit_eq_mask [symmetric]
    by (metis unsigned_take_bit_eq take_bit_nat_eq_self word_unat_eq_iff)
  have "f AND NOT FASTRPC_MAP_FLAGS_MASK = (f AND FASTRPC_MAP_FLAGS_MASK) AND NOT FASTRPC_MAP_FLAGS_MASK"
    by (simp only: a)
  also have "\<dots> = 0" by (simp only: and.assoc bit.conj_cancel_right and_zero_eq)
  finally show "f AND NOT FASTRPC_MAP_FLAGS_MASK = 0" .
qed

lemma with_session_run:
  assumes "fastrpc_session_get d (sess st) = (0, s)"
  shows "with_session d fail body st =
           (fst (body (st\<lparr>sess := s\<rparr>)),
            (snd (body (st\<lparr>sess := s\<rparr>)))\<lparr>sess := snd (fastrpc_session_put d (sess (snd (body (st\<lparr>sess := s\<rparr>)))))\<rparr>)"
  using assms by (simp add: with_session_def split: prod.splits)

definition new_map :: "int \<Rightarrow> u64 \<Rightarrow> u64 \<Rightarrow> u32 \<Rightarrow> u64 \<Rightarrow> static_map" where
  "new_map fd va len flags va_out =
     \<lparr>s_fd = fd, s_offset = 0, s_flags = flags, s_attrs = 0, s_vaddrin = va, s_length = len,
      s_vaddrout = va_out, s_refs = 1\<rparr>"

lemma fastrpc_mmap_usable:
  assumes u: "session_usable st d dv" and fd: "fd \<ge> 0" and f: "flags < FASTRPC_MAP_MAX" "flags \<noteq> FASTRPC_MAP_RESERVED"
    and a: "smap_alloc env d" and k: "ans = driver env (KMemMap dv fd 0 flags va len 0)"
  shows "(fst (fastrpc_mmap env d fd va 0 len flags st), smaplst (snd (fastrpc_mmap env d fd va 0 len flags st))) =
    (if \<exists>m \<in> set (smaplst st d). s_fd m = fd then (AEE_EALREADY, smaplst st)
     else if k_err ans = 0
     then (0, (smaplst st)(d := smaplst st d @ [new_map fd va len flags (k_vaddrout ans)]))
     else (if k_errno ans = ENOTTY \<or> k_err ans = DSP_EUNSUPPORTED then AEE_EUNSUPPORTED else AEE_EFAILED, smaplst st))"
proof -
  obtain s where s: "fastrpc_session_dev d s = (0, dv)" and g: "fastrpc_session_get d (sess st) = (0, s)"
    using usable_get [OF u] by metis
  note w = with_session_run [OF g]
  have "IS_VALID_EFFECTIVE_DOMAIN_ID d" "d \<noteq> -1" "dv \<noteq> -1" "fastrpc_init_once st = 0"
    using u usable_not_minus1 [OF u] by (auto simp: session_usable_def)
  moreover have "flags AND - 65536 = 0" using small_flags(2) [OF f(1)] by simp
  ultimately show ?thesis using s fd f a k
    by (simp add: w fastrpc_mmap_def small_flags fastrpc_mmap_helper_def resolve_domain_def mmap_locked_def
        scan_break_hit ioctl_mmap_def new_map_def Let_def split: prod.splits)
qed

lemma scan_break_cases:
  "(case scan_break P None xs of None \<Rightarrow> a | Some m \<Rightarrow> if \<not> P m then a else g m) =
   (case find P xs of None \<Rightarrow> a | Some m \<Rightarrow> g m)"
  by (rule find_cases [of P xs]) (auto simp: scan_break_find scan_break_none)

lemma munmap_claim_find:
  "munmap_claim P d st =
     (case find P (smaplst st d) of
        None \<Rightarrow> (Inl AEE_ENOSUCHMAP, st)
      | Some m \<Rightarrow> if s_refs m > 1 then (Inl AEE_EBADPARM, st)
                  else (Inr m, upd_smap d (upd_first P (\<lambda>m. m\<lparr>s_refs := 0\<rparr>)) st))"
  by (simp add: munmap_claim_def scan_break_cases)

lemma munmap_locked_usable:
  assumes "fastrpc_session_dev d (sess st) = (0, dv)" and P: "\<And>m n. P (m\<lparr>s_refs := n\<rparr>) = P m"
  shows "(fst (fst (munmap_locked env P d st)), smaplst (snd (munmap_locked env P d st))) =
    (case find P (smaplst st d) of
       None \<Rightarrow> (AEE_ENOSUCHMAP, smaplst st)
     | Some m \<Rightarrow>
         if s_refs m > 1 then (AEE_EBADPARM, smaplst st)
         else let ans = driver env (KMemUnmap dv (s_fd m) (s_vaddrout m) (cut_len (s_length m)))
              in if k_err ans = 0 then (0, (smaplst st)(d := del_first P (smaplst st d)))
                 else if k_errno ans = ENOTTY \<or> k_errno ans = EINVAL
                 then (AEE_EUNSUPPORTED, (smaplst st)(d := upd_first P (\<lambda>m. m\<lparr>s_refs := 0\<rparr>) (smaplst st d)))
                 else (AEE_EFAILED, (smaplst st)(d := upd_first P (\<lambda>m. m\<lparr>s_refs := 1\<rparr>) (smaplst st d))))"
  using assms
  by (simp add: munmap_locked_def munmap_claim_find munmap_finish_def ioctl_munmap_def Let_def
      del_upd_first upd_first_twice split: option.splits prod.splits)

lemma fastrpc_munmap_usable:
  assumes u: "session_usable st d dv" and fd: "fd \<ge> 0"
  shows "(fst (fastrpc_munmap env d fd va len st), smaplst (snd (fastrpc_munmap env d fd va len st))) =
    (case find (\<lambda>m. s_fd m = fd) (smaplst st d) of
       None \<Rightarrow> (AEE_ENOSUCHMAP, smaplst st)
     | Some m \<Rightarrow>
         if s_refs m > 1 then (AEE_EBADPARM, smaplst st)
         else let ans = driver env (KMemUnmap dv (s_fd m) (s_vaddrout m) (cut_len (s_length m)))
              in if k_err ans = 0 then (0, (smaplst st)(d := del_first (\<lambda>m. s_fd m = fd) (smaplst st d)))
                 else if k_errno ans = ENOTTY \<or> k_errno ans = EINVAL
                 then (AEE_EUNSUPPORTED, (smaplst st)(d := upd_first (\<lambda>m. s_fd m = fd) (\<lambda>m. m\<lparr>s_refs := 0\<rparr>) (smaplst st d)))
                 else (AEE_EFAILED, (smaplst st)(d := upd_first (\<lambda>m. s_fd m = fd) (\<lambda>m. m\<lparr>s_refs := 1\<rparr>) (smaplst st d))))" (is "_ = ?rhs")
proof -
  obtain s where s: "fastrpc_session_dev d s = (0, dv)" and g: "fastrpc_session_get d (sess st) = (0, s)"
    using usable_get [OF u] by metis
  note w = with_session_run [OF g]
  have v: "IS_VALID_EFFECTIVE_DOMAIN_ID d" "d \<noteq> -1" "fastrpc_init_once st = 0"
    using u usable_not_minus1 [OF u] by (auto simp: session_usable_def)
  let ?L = "munmap_locked env (\<lambda>m. s_fd m = fd) d (st\<lparr>sess := s\<rparr>)"
  have "(fst (fastrpc_munmap env d fd va len st), smaplst (snd (fastrpc_munmap env d fd va len st))) =
        (fst (fst ?L), smaplst (snd ?L))"
    using v fd by (simp add: w fastrpc_munmap_def resolve_domain_def Let_def split: prod.splits)
  also have "\<dots> = ?rhs"
    using munmap_locked_usable [of d "st\<lparr>sess := s\<rparr>" dv "\<lambda>m. s_fd m = fd" env] s
    by (simp add: Let_def split: option.splits)
  finally show ?thesis .
qed

section \<open>Counted buffer references\<close>

text \<open>What the packet queues rely on: \<open>bref fd r\<close> changes the count of one buffer by \<open>r\<close>, never below one, and a
  call that fails changes nothing. A client takes the changes of a packet's buffers in order and, on an
  error, undoes those it made, again in order.\<close>

locale counted_refs =
  fixes bref :: "int \<Rightarrow> int \<Rightarrow> 'st \<Rightarrow> (int \<times> 'o) \<times> 'st"
    and cnt :: "'st \<Rightarrow> int \<Rightarrow> int option"
  assumes up: "cnt st fd = Some n \<Longrightarrow> n > 0 \<Longrightarrow>
      \<exists>v st'. bref fd 1 st = ((0, v), st') \<and> cnt st' = (cnt st)(fd \<mapsto> n + 1)"
    and down: "cnt st fd = Some n \<Longrightarrow> n > 1 \<Longrightarrow>
      \<exists>v st'. bref fd (-1) st = ((0, v), st') \<and> cnt st' = (cnt st)(fd \<mapsto> n - 1)"
    and success: "bref fd r st = ((0, v), st') \<Longrightarrow> r = 1 \<or> r = -1 \<Longrightarrow>
      \<exists>n. cnt st fd = Some n \<and> n > 0 \<and> n + r > 0"
    and failure: "bref fd r st = ((e, v), st') \<Longrightarrow> e \<noteq> 0 \<Longrightarrow> st' = st"
begin

text \<open>The changes until the first error. Undoing them goes on after an error, as the code does, and returns the
  last call's error (\<open>e\<close> when there was no call).\<close>

fun take_refs :: "(int \<times> int) list \<Rightarrow> 'st \<Rightarrow> int \<times> nat \<times> 'st" where
  "take_refs [] st = (0, 0, st)"
| "take_refs ((fd, r) # xs) st =
     (case bref fd r st of ((e, v), st') \<Rightarrow>
        if e \<noteq> 0 then (e, 0, st')
        else case take_refs xs st' of (e, n, st'') \<Rightarrow> (e, Suc n, st''))"

fun undo_refs :: "(int \<times> int) list \<Rightarrow> int \<Rightarrow> 'st \<Rightarrow> int \<times> 'st" where
  "undo_refs [] e st = (e, st)"
| "undo_refs ((fd, r) # xs) e st = (case bref fd (- r) st of ((e', v), st') \<Rightarrow> undo_refs xs e' st')"

definition delta :: "(int \<times> int) list \<Rightarrow> int \<Rightarrow> int" where
  "delta xs fd = sum_list (map snd (filter (\<lambda>x. fst x = fd) xs))"

definition units :: "(int \<times> int) list \<Rightarrow> bool" where
  "units xs \<longleftrightarrow> (\<forall>x \<in> set xs. snd x = 1 \<or> snd x = -1)"

text \<open>No buffer is both referenced and dereferenced by the same packet.\<close>

definition unmixed :: "(int \<times> int) list \<Rightarrow> bool" where
  "unmixed xs \<longleftrightarrow> (\<forall>x \<in> set xs. \<forall>y \<in> set xs. fst x = fst y \<longrightarrow> snd x = snd y)"

lemma step_count:
  assumes "bref fd r st = ((0, v), st')" "r = 1 \<or> r = -1"
  shows "\<exists>n. cnt st fd = Some n \<and> n > 0 \<and> n + r > 0 \<and> cnt st' = (cnt st)(fd \<mapsto> n + r)"
proof -
  obtain n where n: "cnt st fd = Some n" "n > 0" "n + r > 0" using success [OF assms] by blast
  with assms up [OF n(1,2)] down [OF n(1)] show ?thesis by auto
qed

lemma take_refs_count:
  assumes "take_refs xs st = (e, n, st')" "units xs"
  shows "n \<le> length xs \<and> (\<forall>fd. cnt st' fd = map_option (\<lambda>c. c + delta (take n xs) fd) (cnt st fd)) \<and>
    (\<forall>x \<in> set (take n xs). \<exists>c. cnt st (fst x) = Some c \<and> c > 0)"
  using assms
proof (induction xs st arbitrary: e n st' rule: take_refs.induct)
  case (1 st)
  then show ?case by (simp add: delta_def map_option.identity option.map_ident)
next
  case (2 fd r xs st)
  obtain e1 v s1 where b: "bref fd r st = ((e1, v), s1)" by (metis surj_pair)
  have r: "r = 1 \<or> r = -1" "units xs" using "2.prems"(2) by (auto simp: units_def)
  show ?case
  proof (cases "e1 = 0")
    case False
    with b 2 failure [OF b] show ?thesis by (auto simp: delta_def option.map_ident)
  next
    case True
    obtain e2 m s2 where t: "take_refs xs s1 = (e2, m, s2)" by (metis surj_pair)
    then have n: "n = Suc m" "st' = s2" using "2.prems"(1) b True by auto
    obtain c where c: "cnt st fd = Some c" "c > 0" "cnt s1 = (cnt st)(fd \<mapsto> c + r)"
      using step_count [of fd r st v s1] b True r by blast
    have IH: "m \<le> length xs" "\<forall>fd. cnt s2 fd = map_option (\<lambda>c. c + delta (take m xs) fd) (cnt s1 fd)"
      "\<forall>x \<in> set (take m xs). \<exists>c. cnt s1 (fst x) = Some c \<and> c > 0"
      using "2.IH" [OF b [symmetric] refl _ t] True r(2) by auto
    show ?thesis using IH c n by (auto simp: delta_def split: if_splits)
  qed
qed

lemma bref_positive:
  assumes "bref fd r st = ((0, v), st')" "r = 1 \<or> r = -1" "cnt st fd' = Some c" "c > 0"
  shows "\<exists>c'. cnt st' fd' = Some c' \<and> c' > 0"
  using step_count [OF assms(1,2)] assms(3,4) by auto

lemma take_refs_positive:
  assumes "take_refs xs st = (e, n, st')" "units xs" "fd \<in> fst ` set (take n xs) \<or> cnt st fd = Some c \<and> c > 0"
  shows "\<exists>c'. cnt st' fd = Some c' \<and> c' > 0"
  using assms
proof (induction xs st arbitrary: e n st' c rule: take_refs.induct)
  case (2 fd1 r xs st)
  obtain e1 v s1 where b: "bref fd1 r st = ((e1, v), s1)" by (metis surj_pair)
  have r: "r = 1 \<or> r = -1" "units xs" using "2.prems"(2) by (auto simp: units_def)
  show ?case
  proof (cases "e1 = 0")
    case False
    with b 2 failure [OF b] show ?thesis by auto
  next
    case True
    obtain e2 m s2 where t: "take_refs xs s1 = (e2, m, s2)" by (metis surj_pair)
    then have n: "n = Suc m" "st' = s2" using "2.prems"(1) b True by auto
    obtain c1 where c1: "cnt st fd1 = Some c1" "c1 + r > 0" "cnt s1 = (cnt st)(fd1 \<mapsto> c1 + r)"
      using step_count [of fd1 r st v s1] b True r by blast
    have "fd \<in> fst ` set (take m xs) \<or> (\<exists>c'. cnt s1 fd = Some c' \<and> c' > 0)"
      using "2.prems"(3) c1 n by auto
    then show ?thesis using "2.IH" [OF b [symmetric] refl _ t] True r(2) n by auto
  qed
qed auto

lemma delta_Cons: "delta ((fd, r) # xs) fd' = (if fd = fd' then r else 0) + delta xs fd'"
  by (simp add: delta_def)

lemma delta_sign:
  assumes "unmixed ((fd, r) # xs)" "units ((fd, r) # xs)"
  shows "r = 1 \<Longrightarrow> delta xs fd \<ge> 0"
proof -
  assume r: "r = 1"
  have "\<forall>x \<in> set (map snd (filter (\<lambda>x. fst x = fd) xs)). x \<ge> 0"
    using assms r by (auto simp: unmixed_def)
  then show ?thesis unfolding delta_def by (intro sum_list_nonneg) blast
qed

lemma undo_refs_count:
  assumes "unmixed xs" "units xs"
    and "\<And>fd. cnt st fd = map_option (\<lambda>c. c + delta xs fd) (c0 fd)"
    and "\<And>fd c. c0 fd = Some c \<Longrightarrow> fd \<in> fst ` set xs \<Longrightarrow> c > 0 \<and> c + delta xs fd > 0"
    and "\<And>fd. fd \<in> fst ` set xs \<Longrightarrow> c0 fd \<noteq> None"
  shows "cnt (snd (undo_refs xs e st)) = c0 \<and> fst (undo_refs xs e st) = (if xs = [] then e else 0)"
  using assms
proof (induction xs arbitrary: e st)
  case Nil
  then show ?case by (auto simp: delta_def option.map_ident)
next
  case (Cons x xs)
  obtain fd r where x: "x = (fd, r)" by (cases x)
  obtain c where c: "c0 fd = Some c" using Cons.prems(5) [of fd] x by auto
  have r: "r = 1 \<or> r = -1" using Cons.prems(2) x by (auto simp: units_def)
  have cs: "cnt st fd = Some (c + r + delta xs fd)" "c > 0" "c + r + delta xs fd > 0"
    using Cons.prems(3) [of fd] Cons.prems(4) [OF c] c x by (auto simp: delta_Cons add.assoc)
  have big: "r = 1 \<Longrightarrow> c + r + delta xs fd > 1"
    using delta_sign [of fd r xs] Cons.prems(1,2) x cs(2) by simp
  obtain v s1 where s1: "bref fd (- r) st = ((0, v), s1)" "cnt s1 = (cnt st)(fd \<mapsto> c + delta xs fd)"
  proof (cases "r = 1")
    case True
    with down [OF cs(1) big] that show ?thesis by auto
  next
    case False
    with up [OF cs(1,3)] r that show ?thesis by auto
  qed
  have "cnt (snd (undo_refs xs 0 s1)) = c0 \<and> fst (undo_refs xs 0 s1) = (if xs = [] then 0 else 0)"
  proof (rule Cons.IH)
    show "unmixed xs" using Cons.prems(1) unfolding unmixed_def by (meson list.set_intros(2))
    show "units xs" using Cons.prems(2) by (simp add: units_def)
    show "cnt s1 fd' = map_option (\<lambda>c. c + delta xs fd') (c0 fd')" for fd'
      using s1(2) Cons.prems(3) [of fd'] c x by (auto simp: delta_Cons)
    show "c0 fd' \<noteq> None" if "fd' \<in> fst ` set xs" for fd' using Cons.prems(5) that by auto
    show "c' > 0 \<and> c' + delta xs fd' > 0" if "c0 fd' = Some c'" "fd' \<in> fst ` set xs" for fd' c'
    proof (cases "fd' = fd")
      case True
      with that c cs r big show ?thesis by auto
    next
      case False
      with Cons.prems(4) [OF that(1)] that x show ?thesis by (auto simp: delta_Cons)
    qed
  qed
  with s1 x show ?case by simp
qed

end

context counted_refs
begin

theorem take_undo:
  assumes "take_refs xs st = (e, n, st')" "units xs" "unmixed xs"
  shows "cnt (snd (undo_refs (take n xs) e' st')) = cnt st \<and>
    fst (undo_refs (take n xs) e' st') = (if take n xs = [] then e' else 0)"
proof (rule undo_refs_count)
  let ?ys = "take n xs"
  have sub: "set ?ys \<subseteq> set xs" by (rule set_take_subset)
  have C: "cnt st' fd = map_option (\<lambda>c. c + delta ?ys fd) (cnt st fd)"
    "x \<in> set ?ys \<Longrightarrow> \<exists>c. cnt st (fst x) = Some c \<and> c > 0" for fd x
    using take_refs_count [OF assms(1,2)] by auto
  show "unmixed ?ys" using assms(3) sub unfolding unmixed_def by blast
  show u: "units ?ys" using assms(2) sub unfolding units_def by blast
  show "cnt st' fd = map_option (\<lambda>c. c + delta ?ys fd) (cnt st fd)" for fd by (rule C(1))
  show "cnt st fd \<noteq> None" if "fd \<in> fst ` set ?ys" for fd using C(2) that by fastforce
  show "c > 0 \<and> c + delta ?ys fd > 0" if "cnt st fd = Some c" "fd \<in> fst ` set ?ys" for fd c
    using take_refs_positive [OF assms(1,2), of fd] C(1) [of fd] C(2) that by fastforce
qed

end

definition buf_count :: "int \<Rightarrow> memst \<Rightarrow> int \<Rightarrow> int option" where
  "buf_count d st fd =
     (if IS_VALID_EFFECTIVE_DOMAIN_ID d then map_option s_refs (find (\<lambda>m. s_fd m = fd) (smaplst st d)) else None)"

lemma buf_count_upd:
  assumes "find (\<lambda>m. s_fd m = fd) (smaplst st d) = Some m" "IS_VALID_EFFECTIVE_DOMAIN_ID d"
  shows "buf_count d (upd_smap d (upd_first (\<lambda>m. s_fd m = fd) (\<lambda>m. m\<lparr>s_refs := n\<rparr>)) st) = (buf_count d st)(fd \<mapsto> n)"
proof
  fix fd'
  show "buf_count d (upd_smap d (upd_first (\<lambda>m. s_fd m = fd) (\<lambda>m. m\<lparr>s_refs := n\<rparr>)) st) fd' = ((buf_count d st)(fd \<mapsto> n)) fd'"
  proof (cases "fd' = fd")
    case True
    have "s_fd m = fd" using assms(1) by (auto simp: find_Some_iff)
    with True assms find_upd_first [OF assms(1), of "\<lambda>m. m\<lparr>s_refs := n\<rparr>"] show ?thesis
      by (simp add: buf_count_def)
  next
    case False
    have "find (\<lambda>m. s_fd m = fd') (upd_first (\<lambda>m. s_fd m = fd) (\<lambda>m. m\<lparr>s_refs := n\<rparr>) (smaplst st d)) =
          find (\<lambda>m. s_fd m = fd') (smaplst st d)"
      using False by (intro find_upd_first_other) auto
    with False show ?thesis using assms(2) by (simp add: buf_count_def)
  qed
qed

interpretation br: counted_refs "fastrpc_buffer_ref d" "buf_count d" for d
proof
  fix st fd n
  assume c: "buf_count d st fd = Some n" "n > 0"
  then obtain m where m: "IS_VALID_EFFECTIVE_DOMAIN_ID d" "find (\<lambda>m. s_fd m = fd) (smaplst st d) = Some m" "s_refs m = n"
    by (auto simp: buf_count_def split: if_splits)
  with c show "\<exists>v st'. fastrpc_buffer_ref d fd 1 st = ((0, v), st') \<and> buf_count d st' = (buf_count d st)(fd \<mapsto> n + 1)"
    using buf_count_upd [OF m(2,1)] by (simp add: fastrpc_buffer_ref_def Let_def)
next
  fix st fd n
  assume c: "buf_count d st fd = Some n" "n > 1"
  then obtain m where m: "IS_VALID_EFFECTIVE_DOMAIN_ID d" "find (\<lambda>m. s_fd m = fd) (smaplst st d) = Some m" "s_refs m = n"
    by (auto simp: buf_count_def split: if_splits)
  with c show "\<exists>v st'. fastrpc_buffer_ref d fd (-1) st = ((0, v), st') \<and> buf_count d st' = (buf_count d st)(fd \<mapsto> n - 1)"
    using buf_count_upd [OF m(2,1)] by (simp add: fastrpc_buffer_ref_def Let_def)
next
  fix fd r st v st'
  assume "fastrpc_buffer_ref d fd r st = ((0, v), st')" "r = 1 \<or> r = -1"
  then show "\<exists>n. buf_count d st fd = Some n \<and> n > 0 \<and> n + r > 0"
    by (auto simp: fastrpc_buffer_ref_def buf_count_def Let_def split: if_splits option.splits)
next
  fix fd r st e v st'
  assume "fastrpc_buffer_ref d fd r st = ((e, v), st')" "e \<noteq> 0"
  then show "st' = st"
    by (auto simp: fastrpc_buffer_ref_def Let_def split: if_splits option.splits)
qed

section \<open>Balance of session references\<close>

lemma mmap_locked_sess: "mmap_locked env d fd va off len fl at st = (r, st') \<Longrightarrow> sess st' = sess st"
  by (auto simp: mmap_locked_def Let_def split: if_splits prod.splits)

lemma munmap_locked_sess: "munmap_locked env P d st = (r, st') \<Longrightarrow> sess st' = sess st"
  by (auto simp: munmap_locked_def munmap_claim_def munmap_finish_def
      split: if_splits prod.splits option.splits sum.splits)

lemma mmap_helper_balance:
  assumes "fastrpc_mmap_helper env d fd va off len fl at st = (r, st')" "room 1 (sess st)"
  shows "hlist (sess st') = hlist (sess st)"
  using assms
  by (auto simp: fastrpc_mmap_helper_def Let_def split: if_splits prod.splits
      elim!: with_session_hlist dest!: mmap_locked_sess)

lemma fastrpc_mmap_balance:
  "fastrpc_mmap env d fd va off len fl st = (e, st') \<Longrightarrow> room 1 (sess st) \<Longrightarrow> hlist (sess st') = hlist (sess st)"
  by (auto simp: fastrpc_mmap_def Let_def split: if_splits prod.splits dest!: mmap_helper_balance)

lemma fastrpc_mmap_internal_balance:
  "fastrpc_mmap_internal env d fd va off len fl st = (q, st') \<Longrightarrow> room 1 (sess st) \<Longrightarrow> hlist (sess st') = hlist (sess st)"
  by (auto simp: fastrpc_mmap_internal_def Let_def split: if_splits prod.splits dest!: mmap_helper_balance)

lemma fastrpc_munmap_balance:
  "fastrpc_munmap env d fd va len st = (e, st') \<Longrightarrow> room 1 (sess st) \<Longrightarrow> hlist (sess st') = hlist (sess st)"
  by (auto simp: fastrpc_munmap_def Let_def split: if_splits prod.splits
      elim!: with_session_hlist dest!: munmap_locked_sess)

lemma fastrpc_munmap_internal_balance:
  "fastrpc_munmap_internal env d ra len st = (e, st') \<Longrightarrow> room 1 (sess st) \<Longrightarrow> hlist (sess st') = hlist (sess st)"
  by (auto simp: fastrpc_munmap_internal_def Let_def split: if_splits prod.splits
      elim!: with_session_hlist dest!: munmap_locked_sess)

lemma mmap64_locked_balance:
  "mmap64_locked env d fd fl va len st = (r, st') \<Longrightarrow> room 1 (sess st) \<Longrightarrow> hlist (sess st') = hlist (sess st)"
  by (auto simp: mmap64_locked_def Let_def split: if_splits prod.splits dest!: fastrpc_mmap_internal_balance)

lemma remote_map_lookup_sess: "fastrpc_remote_map_lookup d va st = (r, st') \<Longrightarrow> sess st' = sess st"
  by (auto simp: fastrpc_remote_map_lookup_def split: option.splits)

lemma munmap64_locked_balance:
  "munmap64_locked env d va len st = (r, st') \<Longrightarrow> room 1 (sess st) \<Longrightarrow> hlist (sess st') = hlist (sess st)"
  by (auto simp: munmap64_locked_def Let_def split: if_splits prod.splits option.splits
      dest!: remote_map_lookup_sess fastrpc_munmap_internal_balance)

lemma remote_mmap64_internal_balance:
  assumes "remote_mmap64_internal env fd fl va len st = (r, st')" "room 2 (sess st)"
  shows "hlist (sess st') = hlist (sess st)"
  using assms room_mono [OF assms(2), of 1] room_get [where n = 1] mmap64_locked_balance
  by (fastforce simp: remote_mmap64_internal_def Let_def numeral_2_eq_2 split: if_splits prod.splits
      elim!: with_session_hlist)

lemma remote_munmap64_balance:
  assumes "remote_munmap64 env va len st = (r, st')" "room 2 (sess st)"
  shows "hlist (sess st') = hlist (sess st)"
  using assms room_mono [OF assms(2), of 1] room_get [where n = 1] munmap64_locked_balance
  by (fastforce simp: remote_munmap64_def Let_def numeral_2_eq_2 split: if_splits prod.splits
      elim!: with_session_hlist)

end
