(* ===== verification/MemProps.thy ===== *)
theory MemProps
  imports FastrpcMemLaws
begin

text \<open>
  The operations of \<^verbatim>\<open>fastrpc_mem.c\<close> as a transition system, the invariant of its reachable states, and
  the properties of the memory component.
\<close>

section \<open>Registered buffers\<close>

definition fds_ok :: "mem_to_fd list \<Rightarrow> bool" where
  "fds_ok l \<longleftrightarrow> (\<forall>t \<in> set l. t_fd t \<noteq> -1)"

definition mem_inv :: "memst \<Rightarrow> bool" where
  "mem_inv st \<longleftrightarrow> maps_wf st \<and> dma_wf st \<and> fds_ok (fdlist st)"

lemma mem_inv_frame: "mem_inv st \<Longrightarrow> maps_frame (tabs st) st' \<Longrightarrow> mem_inv st'"
  by (auto simp: mem_inv_def maps_frame_def tabs_def dma_wf_def)

lemma maps_frame_self: "maps_wf st \<Longrightarrow> maps_frame (tabs st) st"
  by (simp add: maps_frame_def)

lemma mem_inv_step:
  "mem_inv st \<Longrightarrow> (maps_frame (tabs st) st \<Longrightarrow> maps_frame (tabs st) st') \<Longrightarrow> mem_inv st'"
  using mem_inv_frame maps_frame_self mem_inv_def by blast

lemma mem_inv_fdlist: "mem_inv st \<Longrightarrow> fds_ok l \<Longrightarrow> mem_inv (st\<lparr>fdlist := l\<rparr>)"
  by (simp add: mem_inv_def dma_wf_def)

lemma fold_invariant_pair: "(\<And>x a. x \<in> set xs \<Longrightarrow> I a \<Longrightarrow> I (f x a)) \<Longrightarrow> I a \<Longrightarrow> I (fold f xs a)"
  by (induction xs arbitrary: a) auto

lemma try_map_buffer_frame:
  assumes "try_map_buffer env tofd st = (tofd', st')" "maps_frame t st"
  shows "maps_frame t st' \<and> t_fd tofd' = t_fd tofd"
proof -
  let ?I = "\<lambda>a. maps_frame t (snd a) \<and> t_fd (fst a) = t_fd tofd"
  have "?I (try_map_buffer1 env d a)" if "?I a" for d a
    using that by (auto simp: try_map_buffer1_def dest: maps_frame_ops split: prod.splits)
  then have "?I (fold (try_map_buffer1 env) all_domains (tofd, st))"
    using assms(2) by - (rule fold_invariant_pair [where I = ?I], auto)
  with assms(1) show ?thesis by (simp add: try_map_buffer_def)
qed

lemma try_unmap_buffer_frame:
  assumes "maps_frame t st" shows "maps_frame t (snd (snd (try_unmap_buffer env tofd st)))"
proof -
  let ?I = "\<lambda>a. maps_frame t (snd (snd a))"
  have "?I (try_unmap_buffer1 env d a)" if "?I a" for d a
    using that by (auto simp: try_unmap_buffer1_def dest: maps_frame_ops split: prod.splits)
  then show ?thesis
    using assms unfolding try_unmap_buffer_def by - (rule fold_invariant_pair [where I = ?I], auto)
qed

lemma unmap_fd_frame:
  assumes "maps_frame t st" shows "maps_frame t (snd (fastrpc_unmap_fd env len fd st))"
proof -
  let ?I = "\<lambda>a. maps_frame t (snd a)"
  have "?I (fastrpc_unmap_fd1 env len fd d a)" if "?I a" for d a
    using that by (auto simp: fastrpc_unmap_fd1_def Let_def split: prod.splits)
  then show ?thesis
    using assms unfolding fastrpc_unmap_fd_def by - (rule fold_invariant_pair [where I = ?I], auto)
qed

lemma register_buf_add_inv:
  assumes "register_buf_add env buf len fd attr st = (e, st')" "mem_inv st" "fd \<noteq> -1"
  shows "mem_inv st'"
proof -
  have 1: "mem_inv (s\<lparr>fdlist := fdlist s @ [td]\<rparr>)" if "maps_frame (tabs st) s" "t_fd td = fd" for s td
    using mem_inv_frame [OF assms(2) that(1)] that(2) assms(3)
    by (intro mem_inv_fdlist) (auto simp: fds_ok_def mem_inv_def)
  have 2: "mem_inv (st\<lparr>fdlist := upd_first P f (fdlist st)\<rparr>)" if "\<And>t. t_fd (f t) = t_fd t" for P f
    using that assms(2) by (intro mem_inv_fdlist) (auto simp: fds_ok_def mem_inv_def dest!: set_upd_first)
  show ?thesis
    using assms(1,2) maps_frame_self [of st] 1 2 try_map_buffer_frame [of env _ st _ _ "tabs st"]
      mem_inv_def [of st]
    by (auto simp: register_buf_add_def Let_def split: if_splits prod.splits)
qed

lemma register_buf_remove_inv:
  assumes "register_buf_remove env buf len st = Some (e, st')" "mem_inv st"
  shows "mem_inv st'"
proof -
  have d: "mem_inv (st\<lparr>fdlist := del_first P (fdlist st)\<rparr>)" for P
    using assms(2) by (intro mem_inv_fdlist) (auto simp: fds_ok_def mem_inv_def dest!: set_del_first)
  have u: "mem_inv (st\<lparr>fdlist := upd_first P (\<lambda>t. t\<lparr>t_refcount := t_refcount t - 1\<rparr>) (fdlist st)\<rparr>)" for P
    using assms(2) by (intro mem_inv_fdlist) (auto simp: fds_ok_def mem_inv_def dest!: set_upd_first)
  have m: "mem_inv s \<Longrightarrow> mem_inv (snd (fastrpc_unmap_fd env l fd s))"
    "mem_inv s \<Longrightarrow> mem_inv (snd (snd (try_unmap_buffer env td s)))" for s l fd td
    by (auto elim!: mem_inv_step intro: unmap_fd_frame try_unmap_buffer_frame)
  show ?thesis
    using assms d u m by (auto simp: register_buf_remove_def Let_def split: if_splits prod.splits option.splits)
qed

lemma register_buf_common_inv:
  "remote_register_buf_common env buf len fd attr st = Some (e, st') \<Longrightarrow> mem_inv st \<Longrightarrow> mem_inv st'"
  by (auto simp: remote_register_buf_common_def split: if_splits
      dest: register_buf_add_inv register_buf_remove_inv)

lemma register_fd_attr_inv:
  "remote_register_fd_attr env fd len attr st = (p, st') \<Longrightarrow> mem_inv st \<Longrightarrow> mem_inv st'"
  by (auto simp: remote_register_fd_attr_def mem_inv_def fds_ok_def maps_wf_def dma_wf_def split: if_splits)

lemma mem_open_inv:
  assumes "fastrpc_mem_open env d st = (e, st')" "mem_inv st"
  shows "mem_inv st'"
proof -
  let ?I = "\<lambda>a. maps_frame (tabs st) (snd a) \<and> fds_ok (fst a)"
  have step: "?I (mem_open1 env d td a)" if "td \<in> set (fdlist st)" "?I a" for td a
    using that assms(2)
    by (auto simp: mem_open1_def fds_ok_def mem_inv_def dest: maps_frame_ops split: prod.splits)
  have start: "?I ([], st)"
    using assms(2) maps_frame_self [of st] by (simp add: fds_ok_def mem_inv_def)
  have "?I (fold (mem_open1 env d) (fdlist st) ([], st))"
    by (rule fold_invariant_pair [where I = ?I]) (fact step, fact start)
  then show ?thesis
    using assms by (auto simp: fastrpc_mem_open_def split: if_splits prod.splits
        intro!: mem_inv_fdlist elim: mem_inv_frame)
qed

lemma mem_close_inv: "fastrpc_mem_close d st = (e, st') \<Longrightarrow> mem_inv st \<Longrightarrow> mem_inv st'"
  by (auto simp: fastrpc_mem_close_def mem_inv_def fds_ok_def maps_wf_def dma_wf_def smaps_ok_def split: if_splits)

section \<open>The one-time initialisation is not touched\<close>

lemma session_ops_init_err:
  "fastrpc_session_get d s = (e, s') \<Longrightarrow> init_err s' = init_err s"
  "init_err (snd (fastrpc_session_put d s)) = init_err s"
  by (auto simp: fastrpc_session_get_def fastrpc_session_put_def upd_domain_def set_thread_context_def Let_def
      split: option.splits if_splits)

lemma with_session_init_err:
  assumes "with_session d fail body st = (r, st')"
    and "\<And>st q st1. body st = (q, st1) \<Longrightarrow> sess st1 = sess st"
  shows "init_err (sess st') = init_err (sess st)"
proof -
  obtain e s where g: "fastrpc_session_get d (sess st) = (e, s)" by fastforce
  obtain q st1 where b: "body (st\<lparr>sess := s\<rparr>) = (q, st1)" by fastforce
  have "sess st1 = s" using assms(2) [OF b] by simp
  with assms(1) g b session_ops_init_err(1) [OF g] show ?thesis
    by (auto simp: with_session_def session_ops_init_err(2) split: if_splits)
qed

lemma fastrpc_mmap_init_err:
  "fastrpc_mmap env d fd va off len fl st = (e, st') \<Longrightarrow> init_err (sess st') = init_err (sess st)"
  by (auto simp: fastrpc_mmap_def fastrpc_mmap_helper_def Let_def split: if_splits prod.splits
      dest!: with_session_init_err mmap_locked_sess)

section \<open>The transition system\<close>

text \<open>One rule per entry point; between two calls other modules may change the sessions and \<^verbatim>\<open>errno\<close>.\<close>

inductive mem_step :: "memst \<Rightarrow> memst \<Rightarrow> bool" where
  mmap: "fastrpc_mmap env d fd va off len fl st = (e, st') \<Longrightarrow> mem_step st st'"
| mmap_internal: "fastrpc_mmap_internal env d fd va off len fl st = (q, st') \<Longrightarrow> mem_step st st'"
| munmap: "fastrpc_munmap env d fd va len st = (e, st') \<Longrightarrow> mem_step st st'"
| munmap_internal: "fastrpc_munmap_internal env d ra len st = (e, st') \<Longrightarrow> mem_step st st'"
| buffer_ref: "fastrpc_buffer_ref d fd r st = (x, st') \<Longrightarrow> mem_step st st'"
| mem_map: "remote_mem_map env d fd fl32 va len p st = (q, st') \<Longrightarrow> mem_step st st'"
| mem_unmap: "remote_mem_unmap env d ra len st = (e, st') \<Longrightarrow> mem_step st st'"
| mmap64_internal: "remote_mmap64_internal env fd fl va len st = (q, st') \<Longrightarrow> mem_step st st'"
| mmap64: "remote_mmap64 env fd fl va sz p st = (q, st') \<Longrightarrow> mem_step st st'"
| mmap32: "remote_mmap env fd fl va32 sz p st = (q32, st') \<Longrightarrow> mem_step st st'"
| munmap64: "remote_munmap64 env va sz st = (e, st') \<Longrightarrow> mem_step st st'"
| munmap32: "remote_munmap env va32 sz st = (e, st') \<Longrightarrow> mem_step st st'"
| register_fd: "remote_register_fd env fd sz st = (ptr, st') \<Longrightarrow> mem_step st st'"
| register_fd2: "remote_register_fd2 env fd len st = (ptr, st') \<Longrightarrow> mem_step st st'"
| register_buf: "remote_register_buf env va sz fd st = Some st' \<Longrightarrow> mem_step st st'"
| register_buf_attr: "remote_register_buf_attr env va sz fd attr st = Some st' \<Longrightarrow> mem_step st st'"
| register_buf_attr2: "remote_register_buf_attr2 env va len fd attr st = Some st' \<Longrightarrow> mem_step st st'"
| register_dma: "remote_register_dma_handle_attr fd l32 a32 st = (e, st') \<Longrightarrow> mem_step st st'"
| unregister_dma: "unregister_dma_handle fd st = (out, st') \<Longrightarrow> mem_step st st'"
| mem_open: "fastrpc_mem_open env d st = (e, st') \<Longrightarrow> mem_step st st'"
| mem_close: "fastrpc_mem_close d st = (e, st') \<Longrightarrow> mem_step st st'"
| elsewhere: "mem_step st (st\<lparr>sess := s, errno := en\<rparr>)"

inductive_cases mem_stepE: "mem_step st st'"

lemmas remote_frames = remote_mem_map_frame remote_mem_unmap_frame remote_mmap64_internal_frame
  remote_mmap64_frame remote_munmap64_frame

lemma mmap32_frame: "remote_mmap env fd fl va sz p st = (q, st') \<Longrightarrow> maps_frame t st \<Longrightarrow> maps_frame t st'"
  by (auto simp: remote_mmap_def split: if_splits prod.splits dest: remote_mmap64_frame)

lemma register_dma_inv:
  "remote_register_dma_handle_attr fd len attr st = (e, st') \<Longrightarrow> mem_inv st \<Longrightarrow> mem_inv st'"
  using register_dma_refines [of st fd len attr e st']
  by (auto simp: mem_inv_def maps_wf_def remote_register_dma_handle_attr_def Let_def split: if_splits)

lemma unregister_dma_inv: "unregister_dma_handle fd st = (out, st') \<Longrightarrow> mem_inv st \<Longrightarrow> mem_inv st'"
  using unregister_dma_refines [of st fd out st']
  by (auto simp: mem_inv_def maps_wf_def unregister_dma_handle_def Let_def split: if_splits)

lemma mem_step_inv: "mem_step st st' \<Longrightarrow> mem_inv st \<Longrightarrow> mem_inv st'"
proof (induction rule: mem_step.induct)
  case (register_buf env va sz fd st st')
  then show ?case by (auto simp: remote_register_buf_def dest: register_buf_common_inv)
next
  case (register_buf_attr env va sz fd attr st st')
  then show ?case by (auto simp: remote_register_buf_attr_def dest: register_buf_common_inv)
next
  case (register_buf_attr2 env va len fd attr st st')
  then show ?case by (auto simp: remote_register_buf_attr2_def dest: register_buf_common_inv)
next
  case (register_fd env fd sz st ptr st')
  then show ?case by (auto simp: remote_register_fd_def split: if_splits dest: register_fd_attr_inv)
next
  case (register_fd2 env fd len st ptr st')
  then show ?case by (auto simp: remote_register_fd2_def dest: register_fd_attr_inv)
next
  case (munmap32 env va32 sz st e st')
  then show ?case by (auto simp: remote_munmap_def elim!: mem_inv_step dest: remote_munmap64_frame)
next
  case (elsewhere st s en)
  then show ?case by (simp add: mem_inv_def dma_wf_def)
qed (blast intro: mem_inv_step maps_frame_ops remote_frames mmap32_frame register_dma_inv unregister_dma_inv
      mem_open_inv mem_close_inv)+

text \<open>C3: The tables of the memory module stay well formed whatever sequence of its entry points runs after
  \<^verbatim>\<open>fastrpc_mem_init\<close>: on every domain the static mappings have pairwise different non-negative
  descriptors and non-negative reference counts, the DMA table has 256 slots of which none at or above the
  count is in use and no two in use have the same descriptor, and no registered buffer has the descriptor \<open>-1\<close>.\<close>

theorem mem_reachable_inv:
  assumes "\<forall>d. d \<notin> set all_domains \<longrightarrow> smaplst st0 d = []" and "dma_handle_count st0 \<le> MAX_DMA_HANDLES"
    and "mem_step\<^sup>*\<^sup>* (snd (fastrpc_mem_init st0)) st"
  shows "(\<forall>d. distinct (map s_fd (smaplst st d)) \<and> (\<forall>m \<in> set (smaplst st d). s_fd m \<ge> 0 \<and> s_refs m \<ge> 0)) \<and>
    dma_wf st \<and> (\<forall>t \<in> set (fdlist st). t_fd t \<noteq> -1)"
proof -
  have "mem_inv (snd (fastrpc_mem_init st0))"
    using assms(1,2)
    by (auto simp: mem_inv_def fastrpc_mem_init_def maps_wf_def smaps_ok_def dma_wf_def dma_uniq_def fds_ok_def)
  with assms(3) have "mem_inv st"
    by (induction rule: rtranclp_induct) (auto dest: mem_step_inv)
  then show ?thesis by (simp add: mem_inv_def maps_wf_def smaps_ok_def fds_ok_def)
qed

text \<open>A concrete state for the examples below: every domain has device 7 and one reference, the driver
  answers every request with success and the address \<open>0x9000\<close>.\<close>

definition demo_st :: memst where
  "demo_st = \<lparr>sess = \<lparr>hlist = Some (\<lambda>_. \<lparr>state = FASTRPC_DOMAIN_STATE_INIT, ref = 1, dev = 7\<rparr>),
                      tlsKey = True, tls = None, init_err = 0\<rparr>,
              errno = 0, memlist = (\<lambda>_. []), smaplst = (\<lambda>_. []), fdlist = [],
              dhandles = replicate MAX_DMA_HANDLES \<lparr>d_fd = 0, d_len = 0, d_used = 0, d_attr = 0\<rparr>, dma_handle_count = 0\<rparr>"

definition demo_env :: menv where
  "demo_env = \<lparr>driver = (\<lambda>_. \<lparr>k_err = 0, k_vaddrout = 0x9000, k_errno = 0\<rparr>), smap_alloc = (\<lambda>_. True),
               fd_alloc = True, rmap_alloc = True, anon_mmap = 0x70000, default_domain = 3\<rparr>"

lemma demo_usable: "session_usable demo_st 3 7"
  by (simp add: session_usable_def demo_st_def fastrpc_init_once_def IS_VALID_EFFECTIVE_DOMAIN_ID_def)

lemma demo_mmap:
  "(fst (fastrpc_mmap demo_env 3 5 0x1000 0 0x2000 0 demo_st), smaplst (snd (fastrpc_mmap demo_env 3 5 0x1000 0 0x2000 0 demo_st))) =
   (0, (\<lambda>_. [])(3 := [new_map 5 0x1000 0x2000 0 0x9000]))"
  using fastrpc_mmap_usable [OF demo_usable, of 5 0 demo_env _ "0x1000" "0x2000"]
  by (simp add: demo_env_def) (simp add: demo_st_def)

theorem mem_reachable_inv_witness:
  "let st = snd (fastrpc_mmap demo_env 3 5 0x1000 0 0x2000 0 (snd (fastrpc_mem_init demo_st)))
   in map s_fd (smaplst st 3) = [5] \<and> dma_wf st"
proof -
  let ?st = "snd (fastrpc_mmap demo_env 3 5 0x1000 0 0x2000 0 (snd (fastrpc_mem_init demo_st)))"
  have i: "snd (fastrpc_mem_init demo_st) = demo_st" by (simp add: fastrpc_mem_init_def demo_st_def fun_eq_iff)
  have "mem_step\<^sup>*\<^sup>* (snd (fastrpc_mem_init demo_st)) ?st"
    by (rule r_into_rtranclp) (metis mem_step.mmap prod.collapse)
  then have "dma_wf ?st"
    using mem_reachable_inv [of demo_st ?st] by (simp add: demo_st_def)
  with demo_mmap i show ?thesis by (simp add: new_map_def Let_def)
qed

section \<open>Static mappings\<close>

lemma mmap_present_refused:
  assumes "\<exists>m \<in> set (smaplst st d). s_fd m = fd" "session_usable st d dv" "fd \<ge> 0"
  shows "fst (fastrpc_mmap env d fd va 0 len FASTRPC_MAP_STATIC st) = AEE_EALREADY"
proof -
  obtain s where s: "fastrpc_session_dev d s = (0, dv)" and g: "fastrpc_session_get d (sess st) = (0, s)"
    using usable_get [OF assms(2)] by metis
  have "IS_VALID_EFFECTIVE_DOMAIN_ID d" "d \<noteq> -1" "dv \<noteq> -1" "fastrpc_init_once st = 0"
    using assms(2) usable_not_minus1 [OF assms(2)] by (auto simp: session_usable_def)
  with assms(1,3) s show ?thesis
    by (simp add: with_session_run [OF g] fastrpc_mmap_def fastrpc_mmap_helper_def resolve_domain_def mmap_locked_def
        scan_break_hit Let_def split: prod.splits)
qed

text \<open>The life of a static mapping. On a usable session \<^verbatim>\<open>fastrpc_mmap\<close> of a descriptor that is not mapped
  succeeds when the driver does; from then on \<^verbatim>\<open>fastrpc_buffer_ref\<close> finds the buffer's address and length,
  a second mapping of the descriptor is refused with \<^verbatim>\<open>AEE_EALREADY\<close> and changes nothing, and
  \<^verbatim>\<open>fastrpc_munmap\<close>, which passes the address the driver returned, restores the list of mappings. No session
  reference is left behind.\<close>

theorem mmap_ref_munmap_roundtrip:
  assumes u: "session_usable st d dv" and room: "room 1 (sess st)"
    and fd: "fd \<ge> 0" "\<forall>m \<in> set (smaplst st d). s_fd m \<noteq> fd"
    and fl: "flags < FASTRPC_MAP_MAX" "flags \<noteq> FASTRPC_MAP_RESERVED" and al: "smap_alloc env d"
    and k1: "k_err (driver env (KMemMap dv fd 0 flags va len 0)) = 0"
    and k2: "k_err (driver env' (KMemUnmap dv fd (k_vaddrout (driver env (KMemMap dv fd 0 flags va len 0))) (cut_len len))) = 0"
    and m: "fastrpc_mmap env d fd va 0 len flags st = (e, st1)"
  shows "e = 0 \<and> hlist (sess st1) = hlist (sess st) \<and>
    fastrpc_buffer_ref d fd 0 st1 = ((0, Some (va, len)), st1) \<and>
    (fst (fastrpc_mmap env d fd va' 0 len' flags st1) = AEE_EALREADY \<and>
     smaplst (snd (fastrpc_mmap env d fd va' 0 len' flags st1)) = smaplst st1) \<and>
    (fst (fastrpc_munmap env' d fd va len st1) = 0 \<and>
     smaplst (snd (fastrpc_munmap env' d fd va len st1)) = smaplst st)"
proof -
  let ?n = "new_map fd va len flags (k_vaddrout (driver env (KMemMap dv fd 0 flags va len 0)))"
  have n: "s_fd ?n = fd" "s_refs ?n = 1" "s_vaddrin ?n = va" "s_length ?n = len"
    "s_vaddrout ?n = k_vaddrout (driver env (KMemMap dv fd 0 flags va len 0))" by (simp_all add: new_map_def)
  have "\<not> (\<exists>m \<in> set (smaplst st d). s_fd m = fd)" using fd(2) by blast
  then have e: "e = 0" and sm: "smaplst st1 = (smaplst st)(d := smaplst st d @ [?n])"
    using fastrpc_mmap_usable [OF u fd(1) fl al refl, of va len] m k1 by simp_all
  have h: "hlist (sess st1) = hlist (sess st)" using fastrpc_mmap_balance [OF m room] .
  have "init_err (sess st1) = init_err (sess st)" using fastrpc_mmap_init_err [OF m] .
  then have u1: "session_usable st1 d dv" using u h by (simp add: session_usable_def fastrpc_init_once_def)
  have f: "find (\<lambda>m. s_fd m = fd) (smaplst st1 d) = Some ?n"
    using fd(2) n(1) sm by (simp add: find_append_new)
  have del: "del_first (\<lambda>m. s_fd m = fd) (smaplst st1 d) = smaplst st d"
    using fd(2) n(1) sm by (simp add: del_first_append_new)
  have v: "IS_VALID_EFFECTIVE_DOMAIN_ID d" using u by (simp add: session_usable_def)
  have B: "fastrpc_buffer_ref d fd 0 st1 = ((0, Some (va, len)), st1)"
    using v f n by (simp add: fastrpc_buffer_ref_def Let_def)
  have "\<exists>m \<in> set (smaplst st1 d). s_fd m = fd" using sm n(1) by auto
  then have A: "fst (fastrpc_mmap env d fd va' 0 len' flags st1) = AEE_EALREADY \<and>
     smaplst (snd (fastrpc_mmap env d fd va' 0 len' flags st1)) = smaplst st1"
    using fastrpc_mmap_usable [OF u1 fd(1) fl al refl, of va' len'] by simp
  have "(smaplst st1)(d := smaplst st d) = smaplst st" using sm by (simp add: fun_upd_idem)
  then have U: "fst (fastrpc_munmap env' d fd va len st1) = 0 \<and>
     smaplst (snd (fastrpc_munmap env' d fd va len st1)) = smaplst st"
    using fastrpc_munmap_usable [OF u1 fd(1), of env' va len] f n k2 del by (simp add: Let_def)
  show ?thesis using e h B A U by blast
qed

lemma demo_room: "room n (sess demo_st) \<longleftrightarrow> n < 4294967295"
  by (auto simp: room_def demo_st_def)

theorem mmap_ref_munmap_roundtrip_witness:
  "let st1 = snd (fastrpc_mmap demo_env 3 5 0x1000 0 0x2000 0 demo_st)
   in fastrpc_buffer_ref 3 5 0 st1 = ((0, Some (0x1000, 0x2000)), st1) \<and>
      fst (fastrpc_munmap demo_env 3 5 0x1000 0x2000 st1) = 0"
proof -
  obtain e st1 where m: "fastrpc_mmap demo_env 3 5 0x1000 0 0x2000 0 demo_st = (e, st1)" by fastforce
  show ?thesis
    using mmap_ref_munmap_roundtrip [OF demo_usable, of 5 0 demo_env "0x1000" "0x2000" demo_env e st1] m
    by (simp add: demo_room demo_env_def) (simp add: demo_st_def)
qed


text \<open>One mapping with one reference, and drivers that answer each of the three ways.\<close>

definition demo_mapped :: memst where
  "demo_mapped = upd_smap 3 (\<lambda>_. [new_map 5 0x1000 0x2000 0 0x9000]) demo_st"




text \<open>The window of \<^verbatim>\<open>fastrpc_munmap\<close>. The list's mutex is released while the driver removes the mapping.
  Between the claim of the entry and the end of the call no reference to the buffer can be taken or dropped:
  \<^verbatim>\<open>fastrpc_buffer_ref\<close> fails with \<^verbatim>\<open>AEE_ERPC\<close>, and a new \<^verbatim>\<open>fastrpc_mmap\<close> of the descriptor is refused.\<close>

theorem munmap_window_closed:
  assumes c: "munmap_claim (\<lambda>m. s_fd m = fd) d st = (Inr m, st1)" and v: "IS_VALID_EFFECTIVE_DOMAIN_ID d"
  shows "fastrpc_buffer_ref d fd r st1 = ((AEE_ERPC, None), st1) \<and>
    (session_usable st1 d dv \<and> fd \<ge> 0 \<longrightarrow>
       fst (fastrpc_mmap env d fd va 0 len FASTRPC_MAP_STATIC st1) = AEE_EALREADY)"
proof -
  let ?P = "\<lambda>m. s_fd m = fd"
  have f: "find ?P (smaplst st d) = Some m" and st1: "st1 = upd_smap d (upd_first ?P (\<lambda>m. m\<lparr>s_refs := 0\<rparr>)) st"
    using c by (auto simp: munmap_claim_find split: option.splits if_splits)
  have g: "find ?P (smaplst st1 d) = Some (m\<lparr>s_refs := 0\<rparr>)"
    using find_upd_first [OF f, of "\<lambda>m. m\<lparr>s_refs := 0\<rparr>"] f st1
    by (auto dest!: find_Some_iff [THEN iffD1])
  then have ex: "\<exists>m \<in> set (smaplst st1 d). s_fd m = fd" by (metis (mono_tags, lifting) find_Some_iff nth_mem)
  have "fst (fastrpc_mmap env d fd va 0 len FASTRPC_MAP_STATIC st1) = AEE_EALREADY"
    if "session_usable st1 d dv" "fd \<ge> 0"
    using ex that mmap_present_refused by blast
  with g v show ?thesis by (simp add: fastrpc_buffer_ref_def)
qed

theorem munmap_window_closed_witness:
  "fst (fst (fastrpc_buffer_ref 3 5 1 (snd (munmap_claim (\<lambda>m. s_fd m = 5) 3 demo_mapped)))) = AEE_ERPC"
proof -
  have "munmap_claim (\<lambda>m. s_fd m = 5) 3 demo_mapped =
        (Inr (new_map 5 0x1000 0x2000 0 0x9000), snd (munmap_claim (\<lambda>m. s_fd m = 5) 3 demo_mapped))"
    by (simp add: munmap_claim_def demo_mapped_def new_map_def)
  then show ?thesis
    using munmap_window_closed [of 5 3 demo_mapped _ _ 1] by (simp add: IS_VALID_EFFECTIVE_DOMAIN_ID_def)
qed

section \<open>Session references\<close>

text \<open>C21: None of the mapping entry points leaks or drops a session reference: whatever happens inside, after
  \<^verbatim>\<open>fastrpc_mmap\<close>, \<^verbatim>\<open>fastrpc_munmap\<close>, \<^verbatim>\<open>remote_mmap64\<close> and \<^verbatim>\<open>remote_munmap64\<close> the table of sessions, with its
  reference counts, is what it was, provided the 32-bit counts do not overflow (the 64-bit functions nest and
  need room for two).\<close>

theorem map_ops_balance_sessions:
  assumes "room 2 (sess st)"
  shows "hlist (sess (snd (fastrpc_mmap env d fd va off len fl st))) = hlist (sess st) \<and>
    hlist (sess (snd (fastrpc_munmap env d fd va len st))) = hlist (sess st) \<and>
    hlist (sess (snd (remote_mmap64 env fd fl va sz p st))) = hlist (sess st) \<and>
    hlist (sess (snd (remote_munmap64 env va sz st))) = hlist (sess st)"
proof -
  have r1: "room 1 (sess st)" using room_mono [OF assms] by simp
  have "hlist (sess (snd (remote_mmap64 env fd fl va sz p st))) = hlist (sess st)"
    using remote_mmap64_internal_balance [OF _ assms] prod.collapse
    by (fastforce simp: remote_mmap64_def split: prod.splits)
  with r1 show ?thesis
    using fastrpc_mmap_balance fastrpc_munmap_balance remote_munmap64_balance [OF _ assms] by (metis prod.collapse)
qed

theorem map_ops_balance_sessions_witness:
  "hlist (sess (snd (remote_mmap64 demo_env 5 0 0x1000 0x2000 True demo_st))) = hlist (sess demo_st)"
  using map_ops_balance_sessions [of demo_st] by (simp add: demo_room)

text \<open>Deregistering a buffer with the attribute \<^verbatim>\<open>FASTRPC_ATTR_KEEP_MAP\<close> calls \<^verbatim>\<open>fastrpc_unmap_fd\<close>, whose two
  conditions are inverted: on every domain whose session can be taken it goes on to the next domain at once. It
  never asks the driver to unmap the buffer there, and the reference it took is never given back.\<close>

theorem unmap_fd_leaks_references:
  assumes "hlist (sess st) = Some h" "\<forall>d. state (h d) \<noteq> FASTRPC_DOMAIN_STATE_DEINIT"
  shows "fastrpc_unmap_fd env len fd st = fastrpc_unmap_fd env' len' fd' st \<and>
    fst (fastrpc_unmap_fd env len fd st) = 0 \<and>
    (\<forall>d. refs_of (sess (snd (fastrpc_unmap_fd env len fd st))) d =
           Some (if d \<in> set all_domains then ref (h d) + 1 else ref (h d)))"
proof -
  let ?g = "\<lambda>d (st :: memst). st\<lparr>sess := snd (fastrpc_session_get d (sess st))\<rparr>"
  let ?ok = "\<lambda>st h'. hlist (sess st) = Some h' \<and> (\<forall>d. state (h' d) \<noteq> FASTRPC_DOMAIN_STATE_DEINIT)"
  have step: "fastrpc_unmap_fd1 env len fd d (x, s) = (0, ?g d s)" if "?ok s h'" for env len fd d x s h'
    using that by (simp add: fastrpc_unmap_fd1_def fastrpc_session_get_def Let_def)
  have get: "?ok (?g d s) (h'(d := (h' d)\<lparr>ref := ref (h' d) + 1\<rparr>))" if "?ok s h'" for d s h'
    using that by (simp add: fastrpc_session_get_def)
  have run: "fold (fastrpc_unmap_fd1 env len fd) ds (0, s) = (0, fold ?g ds s)" if "?ok s h'" for env len fd ds s h'
    using that
  proof (induction ds arbitrary: s h')
    case (Cons d ds)
    show ?case using Cons.IH [OF get [OF Cons.prems]] step [OF Cons.prems] by simp
  qed simp
  have refs: "refs_of (sess (fold ?g ds s)) d = Some (if d \<in> set ds then ref (h' d) + 1 else ref (h' d))"
    if "?ok s h'" "distinct ds" for d ds s h'
    using that
  proof (induction ds arbitrary: s h')
    case Nil
    then show ?case by (simp add: refs_of_def)
  next
    case (Cons d1 ds)
    then show ?case using Cons.IH [OF get [OF Cons.prems(1), of d1]] by auto
  qed
  have ok: "?ok st h" and ds: "distinct all_domains" using assms by (simp_all add: all_domains_def)
  show ?thesis unfolding fastrpc_unmap_fd_def run [OF ok] using refs [OF ok ds] by simp
qed

theorem unmap_fd_leaks_references_witness:
  "refs_of (sess demo_st) 3 = Some 1 \<and> refs_of (sess (snd (fastrpc_unmap_fd demo_env 0x2000 5 demo_st))) 3 = Some 2"
proof -
  obtain h where h: "hlist (sess demo_st) = Some h" "\<forall>d. state (h d) \<noteq> FASTRPC_DOMAIN_STATE_DEINIT" "ref (h 3) = 1"
    by (simp add: demo_st_def)
  have d: "(3 :: int) \<in> set all_domains" by (simp add: all_domains_def)
  have "refs_of (sess (snd (fastrpc_unmap_fd demo_env 0x2000 5 demo_st))) 3 = Some (ref (h 3) + 1)"
    using unmap_fd_leaks_references [OF h(1,2)] d by metis
  with h show ?thesis by (simp add: refs_of_def)
qed

section \<open>Registered buffers\<close>

definition holds_addr :: "u64 \<Rightarrow> mem_to_fd \<Rightarrow> bool" where
  "holds_addr a t \<longleftrightarrow> unat (t_buf t) \<le> unat a \<and> unat a < unat (t_buf t) + unat (t_size t)"

lemma STD_BETWEEN_region:
  assumes "unat b + unat s < 2 ^ 64"
  shows "STD_BETWEEN a b (b + s) \<longleftrightarrow> unat b \<le> unat a \<and> unat a < unat b + unat s"
proof (cases "b \<le> a")
  case True
  then have "unat (a - b) = unat a - unat b" by (rule unat_sub)
  with True show ?thesis by (auto simp: STD_BETWEEN_def word_le_nat_alt word_less_nat_alt)
next
  case False
  then show ?thesis by (simp add: STD_BETWEEN_def word_le_nat_alt)
qed

lemma fdlist_scan_found: "fd \<noteq> -1 \<Longrightarrow> fdlist_scan buf lst fd out ts = (0, out, Some fd)"
  by (cases ts) auto

text \<open>\<^verbatim>\<open>fdlist_fd_from_buf\<close>, which decides what descriptor a call's buffer is passed with. Over registered
  regions that do not wrap, for a buffer of positive length: the first region that holds the buffer's first byte
  decides. If it holds the last byte too, the result is that region's descriptor, base address and attributes;
  if not, the call is refused. If no region holds the first byte, the result is descriptor \<open>-1\<close>.\<close>

theorem fdlist_fd_from_buf_spec:
  assumes reg: "\<forall>t \<in> set (fdlist st). unat (t_buf t) + unat (t_size t) < 2 ^ 64 \<and> t_fd t \<noteq> -1"
    and len: "bufLen \<ge> 1" "int (unat buf) + bufLen \<le> 2 ^ 64"
  shows "fdlist_fd_from_buf buf bufLen st =
    (case find (holds_addr buf) (fdlist st) of
       None \<Rightarrow> (0, None, Some (-1))
     | Some t \<Rightarrow>
         if int (unat buf) + bufLen \<le> int (unat (t_buf t)) + int (unat (t_size t))
         then (0, Some (t_nova t, t_buf t, t_attr t), Some (t_fd t))
         else (AEE_EBADPARM, None, None))"
proof -
  let ?lst = "buf + word_of_int bufLen - 1"
  have l: "?lst = word_of_int (int (unat buf) + bufLen - 1)" by simp
  have "uint ?lst = (int (unat buf) + bufLen - 1) mod 2 ^ 64" unfolding l uint_word_of_int by simp
  also have "\<dots> = int (unat buf) + bufLen - 1" using len uint_ge_0 [of buf] by (intro mod_pos_pos_trivial) (simp_all add: add_nonneg_pos)
  finally have lst: "int (unat ?lst) = int (unat buf) + bufLen - 1" by simp
  have b: "STD_BETWEEN a (t_buf t) (t_buf t + t_size t) \<longleftrightarrow> holds_addr a t" if "t \<in> set (fdlist st)" for a t
    using STD_BETWEEN_region reg that by (simp add: holds_addr_def)
  have last: "holds_addr ?lst t \<longleftrightarrow> int (unat buf) + bufLen \<le> int (unat (t_buf t)) + int (unat (t_size t))"
    if "holds_addr buf t" for t
    using that lst len(1) unfolding holds_addr_def by linarith
  have "fdlist_scan buf ?lst (-1) None ts =
    (case find (holds_addr buf) ts of None \<Rightarrow> (0, None, Some (-1))
     | Some t \<Rightarrow> if int (unat buf) + bufLen \<le> int (unat (t_buf t)) + int (unat (t_size t))
         then (0, Some (t_nova t, t_buf t, t_attr t), Some (t_fd t)) else (AEE_EBADPARM, None, None))"
    if "set ts \<subseteq> set (fdlist st)" for ts
    using that
  proof (induction ts)
    case (Cons t ts)
    then show ?case using b last [of t] reg by (auto simp: fdlist_scan_found)
  qed simp
  then show ?thesis by (simp add: fdlist_fd_from_buf_def)
qed

theorem fdlist_fd_from_buf_spec_witness:
  "fdlist_fd_from_buf 0x1100 0x100 (demo_st\<lparr>fdlist := [\<lparr>t_buf = 0x1000, t_size = 0x1000, t_fd = 9, t_nova = 0,
      t_attr = 2, t_refcount = 1, t_mapped = (\<lambda>_. False)\<rparr>]\<rparr>) = (0, Some (0, 0x1000, 2), Some 9)"
  by (subst fdlist_fd_from_buf_spec) (simp_all add: holds_addr_def)

text \<open>Registering a buffer and deregistering it again, when no buffer with that address was registered and
  the attributes ask for no persistent mapping, leaves the state as it was; registering it twice and
  deregistering it once leaves it registered with one reference.\<close>

theorem register_deregister_buf:
  assumes "fastrpc_init_once st = 0" "buf \<noteq> 0" "len \<noteq> 0" "fd \<noteq> -1" "fd_alloc env"
    and "attr AND FASTRPC_ATTR_TRY_MAP_STATIC = 0" "attr AND FASTRPC_ATTR_KEEP_MAP = 0"
    and new: "\<forall>t \<in> set (fdlist st). t_buf t \<noteq> buf"
    and r1: "remote_register_buf_common env buf len fd attr st = Some (e1, st1)"
  shows "e1 = 0 \<and> remote_register_buf_common env' buf len (-1) 0 st1 = Some (0, st) \<and>
    (\<exists>st2. remote_register_buf_common env buf len fd attr st1 = Some (0, st2) \<and>
           remote_register_buf_common env' buf len (-1) 0 st2 = Some (0, st1))"
proof -
  let ?t = "\<lparr>t_buf = buf, t_size = len, t_fd = fd, t_nova = 0, t_attr = attr, t_refcount = 1, t_mapped = (\<lambda>_. False)\<rparr>"
  let ?P = "\<lambda>t. t_buf t = buf \<and> t_size t = len"
  let ?Q = "\<lambda>t. t_buf t = buf \<and> t_size t = len \<and> t_fd t = fd"
  have e1: "e1 = 0" and st1: "st1 = st\<lparr>fdlist := fdlist st @ [?t]\<rparr>"
    using r1 assms(1-6) new by (auto simp: remote_register_buf_common_def register_buf_add_def Let_def)
  have scan: "dereg_scan buf len None (ts @ [t]) = (Some t, None)"
    if "\<forall>t \<in> set ts. t_buf t \<noteq> buf" "t_buf t = buf" "t_size t = len" for ts t
    using that by (induction ts) auto
  have upd: "upd_first Q f (ts @ [t]) = ts @ [f t]" if "\<forall>t \<in> set ts. \<not> Q t" "Q t" for Q f ts and t :: mem_to_fd
    using that by (induction ts) auto
  have del: "del_first ?P (fdlist st @ [?t]) = fdlist st"
    using new by (intro del_first_append_new) auto
  have i: "fastrpc_init_once (st\<lparr>fdlist := l\<rparr>) = 0" for l using assms(1) by (simp add: fastrpc_init_once_def)
  have d1: "remote_register_buf_common env' buf len (-1) 0 st1 = Some (0, st)"
    using assms(2,3,6,7) new i
    by (simp add: st1 remote_register_buf_common_def register_buf_remove_def scan del Let_def)
  let ?t2 = "?t\<lparr>t_refcount := 2\<rparr>"
  have r2: "remote_register_buf_common env buf len fd attr st1 = Some (0, st\<lparr>fdlist := fdlist st @ [?t2]\<rparr>)"
    using assms(2-4) new i
    by (auto simp: st1 remote_register_buf_common_def register_buf_add_def Let_def upd)
  have d2: "remote_register_buf_common env' buf len (-1) 0 (st\<lparr>fdlist := fdlist st @ [?t2]\<rparr>) = Some (0, st1)"
    using assms(2,3) new i
    by (auto simp: st1 remote_register_buf_common_def register_buf_remove_def scan upd Let_def)
  show ?thesis using e1 d1 r2 d2 by blast
qed

theorem register_deregister_buf_witness:
  "\<exists>st1. remote_register_buf_common demo_env 0x1000 0x2000 9 2 demo_st = Some (0, st1) \<and>
         remote_register_buf_common demo_env 0x1000 0x2000 (-1) 0 st1 = Some (0, demo_st)"
proof -
  obtain e st1 where r: "remote_register_buf_common demo_env 0x1000 0x2000 9 2 demo_st = Some (e, st1)"
    by (simp add: remote_register_buf_common_def fastrpc_init_once_def demo_st_def) (metis surj_pair)
  have "e = 0 \<and> remote_register_buf_common demo_env 0x1000 0x2000 (-1) 0 st1 = Some (0, demo_st)"
    using register_deregister_buf [of demo_st "0x1000" "0x2000" 9 demo_env 2 e st1 demo_env] r
    by (simp add: fastrpc_init_once_def demo_env_def demo_st_def)
  with r show ?thesis by simp
qed

section \<open>DMA handles\<close>



section \<open>Remote mappings\<close>

text \<open>\<^verbatim>\<open>remote_mmap64_internal\<close> with a heap flag (\<^verbatim>\<open>ADSP_MMAP_ADD_PAGES\<close>, \<^verbatim>\<open>ADSP_MMAP_REMOTE_HEAP_ADDR\<close>) does not
  check the driver's answer before it records the mapping: a request that failed is still appended to the
  domain's list of remote mappings, with whatever address the driver left.\<close>

theorem heap_mapping_recorded_on_failure:
  assumes u: "session_usable st d dv" and cur: "get_current_domain (default_domain env) (sess st) = d"
    and fl: "flags = ADSP_MMAP_ADD_PAGES \<or> flags = ADSP_MMAP_REMOTE_HEAP_ADDR" and al: "rmap_alloc env"
    and k: "ans = driver env (KMmap dv fd flags va len)" "k_err ans \<noteq> 0"
    and r: "remote_mmap64_internal env fd flags va len st = ((e, out), st')"
  shows "e = convert_kernel_to_user_error (k_err ans) (k_errno ans) \<and> out = Some (k_vaddrout ans) \<and>
    memlist st' d = memlist st d @ [\<lparr>r_vadsp = k_vaddrout ans, r_flags = flags\<rparr>]"
proof -
  obtain s where s: "fastrpc_session_dev d s = (0, dv)" and g: "fastrpc_session_get d (sess st) = (0, s)"
    using usable_get [OF u] by metis
  have "IS_VALID_EFFECTIVE_DOMAIN_ID d" "dv \<noteq> -1" "fastrpc_init_once st = 0" "is_heap_flag flags"
    using u usable_not_minus1 [OF u] fl by (auto simp: session_usable_def is_heap_flag_def)
  with s al k cur r show ?thesis
    by (auto simp: remote_mmap64_internal_def with_session_run [OF g] mmap64_locked_def ioctl_mmap_def Let_def
        split: prod.splits)
qed

theorem heap_mapping_recorded_on_failure_witness:
  "let env = demo_env\<lparr>driver := (\<lambda>_. \<lparr>k_err = -1, k_vaddrout = 0, k_errno = 12\<rparr>)\<rparr>
   in fst (fst (remote_mmap64_internal env 5 0x1000 0 0x1000 demo_st)) = AEE_ENOMEMORY \<and>
      length (memlist (snd (remote_mmap64_internal env 5 0x1000 0 0x1000 demo_st)) 3) = 1"
proof -
  let ?env = "demo_env\<lparr>driver := (\<lambda>_. \<lparr>k_err = -1, k_vaddrout = 0, k_errno = 12\<rparr>)\<rparr>"
  obtain e out st' where r: "remote_mmap64_internal ?env 5 0x1000 0 0x1000 demo_st = ((e, out), st')"
    by (metis surj_pair)
  have c: "get_current_domain (default_domain ?env) (sess demo_st) = 3" "memlist demo_st 3 = []"
    by (simp_all add: get_current_domain_def demo_env_def demo_st_def IS_VALID_EFFECTIVE_DOMAIN_ID_def)
  show ?thesis
    using heap_mapping_recorded_on_failure [OF demo_usable c(1) _ _ refl _ r] r c(2)
    by (simp add: demo_env_def convert_kernel_to_user_error_def)
qed

end
