(* ===== verification/PacketRing.thy ===== *)
theory PacketRing
  imports Prelude
begin

text \<open>
  The one-way packet queue in shared memory of \<^verbatim>\<open>src/dspqueue/dspqueue_cpu.c\<close>: a circular buffer of
  packets that are never split by the end of the buffer (a packet that does not fit is moved to the beginning
  and its header is written twice), with a read and a write position that the two sides own. The functions keep
  the \<^verbatim>\<open>uint32_t\<close> arithmetic of the code; a failed \<^verbatim>\<open>assert\<close> and an access outside the ring are the outcome \<open>None\<close>.
\<close>

section \<open>Data\<close>

record ring =
  qlen :: u32
  qmem :: "byte list"
  rpos :: u32
  wpos :: u32

record dspqueue_buffer =
  b_fd :: u32
  b_size :: u32
  b_offset :: u32
  b_flags :: u32
  b_ptr :: u64

abbreviation (input) FLAG_MESSAGE :: u32 where "FLAG_MESSAGE \<equiv> 1"
abbreviation (input) FLAG_BUFFERS :: u32 where "FLAG_BUFFERS \<equiv> 2"
abbreviation (input) FLAG_WAKEUP :: u32 where "FLAG_WAKEUP \<equiv> 4"
abbreviation (input) FLAG_USER_READY :: u32 where "FLAG_USER_READY \<equiv> 16"

text \<open>The 24 bytes of a buffer reference in the queue.\<close>

definition enc_buf :: "dspqueue_buffer \<Rightarrow> byte list" where
  "enc_buf b = le_bytes 4 (b_fd b) @ le_bytes 4 (b_size b) @ le_bytes 4 (b_offset b) @ le_bytes 4 (b_flags b) @
     le_bytes 8 (b_ptr b)"

definition dec_buf :: "byte list \<Rightarrow> dspqueue_buffer" where
  "dec_buf bs = \<lparr>b_fd = le_word (window bs 0 4), b_size = le_word (window bs 4 4), b_offset = le_word (window bs 8 4),
                 b_flags = le_word (window bs 12 4), b_ptr = le_word (window bs 16 8)\<rparr>"

definition enc_bufs :: "dspqueue_buffer list \<Rightarrow> byte list" where
  "enc_bufs bs = concat (map enc_buf bs)"

primrec dec_bufs :: "nat \<Rightarrow> byte list \<Rightarrow> dspqueue_buffer list" where
  "dec_bufs 0 bs = []"
| "dec_bufs (Suc n) bs = dec_buf (take 24 bs) # dec_bufs n (drop 24 bs)"

section \<open>Positions\<close>

text \<open>Returns the space left, the read and the write position.\<close>

definition get_queue_state_write :: "ring \<Rightarrow> (u32 \<times> u32 \<times> u32) option" where
  "get_queue_state_write g =
     (let qsize = qlen g; r = rpos g; w = wpos g;
          qleft = (if r = w then qsize - 8 else if w > r then qsize - w + r - 8 else r - w - 8)
      in if \<not> (r AND 7 = 0 \<and> w AND 7 = 0) then None
         else if qleft AND 7 \<noteq> 0 then None
         else Some (qleft, r, w))"

text \<open>Returns the data left, the read and the write position.\<close>

definition get_queue_state_read :: "ring \<Rightarrow> (u32 \<times> u32 \<times> u32) option" where
  "get_queue_state_read g =
     (let qsize = qlen g; r = rpos g; w = wpos g;
          qleft = (if r = w then 0 else if w > r then w - r else qsize - r + w)
      in if \<not> (r AND 7 = 0 \<and> w AND 7 = 0) then None
         else if qleft AND 7 \<noteq> 0 then None
         else Some (qleft, r, w))"

section \<open>Copying into and out of the ring\<close>

definition write_64 :: "byte list \<Rightarrow> u32 \<Rightarrow> u32 \<Rightarrow> u64 \<Rightarrow> (byte list \<times> u32) option" where
  "write_64 mem write_pos queue_len data =
     (if unat write_pos + 8 > length mem then None
      else let mem' = overwrite mem (unat write_pos) (le_bytes 8 data); write_pos = write_pos + 8
           in Some (mem', if write_pos \<ge> queue_len then 0 else write_pos))"

definition write_data :: "byte list \<Rightarrow> u32 \<Rightarrow> u32 \<Rightarrow> byte list \<Rightarrow> (byte list \<times> u32) option" where
  "write_data mem write_pos queue_len data =
     (let data_len = word_of_nat (length data) :: u32; next = write_pos + ((data_len + 7) AND NOT 7)
      in if data_len = 0 then None
         else if write_pos AND 7 \<noteq> 0 then None
         else if \<not> queue_len - write_pos \<ge> data_len then None
         else if unat write_pos + length data > length mem then None
         else if \<not> next \<le> queue_len then None
         else Some (overwrite mem (unat write_pos) data, if next \<ge> queue_len then 0 else next))"

definition read_data :: "byte list \<Rightarrow> u32 \<Rightarrow> u32 \<Rightarrow> u32 \<Rightarrow> (byte list \<times> u32) option" where
  "read_data mem read_pos queue_len data_len =
     (let next = read_pos + ((data_len + 7) AND NOT 7)
      in if data_len = 0 then None
         else if read_pos AND 7 \<noteq> 0 then None
         else if \<not> queue_len - read_pos \<ge> data_len then None
         else if unat read_pos + unat data_len > length mem then None
         else if \<not> next \<le> queue_len then None
         else Some (window mem (unat read_pos) (unat data_len), if next \<ge> queue_len then 0 else next))"

section \<open>Packets\<close>

definition packet_len :: "u32 \<Rightarrow> u32 \<Rightarrow> u32" where
  "packet_len num_buffers message_length = 8 + num_buffers * 24 + message_length"

definition packet_header :: "u32 \<Rightarrow> u32 \<Rightarrow> u32 \<Rightarrow> u16 \<Rightarrow> u64" where
  "packet_header len flags num_buffers seq_no =
     ucast len OR push_bit 32 (ucast (flags AND 0xFFFF)) OR push_bit 48 (ucast (num_buffers AND 0xFF)) OR
     push_bit 56 (ucast (seq_no AND 0xFF))"

text \<open>The check for space of \<^verbatim>\<open>dspqueue_write_noblock\<close>: \<open>None\<close> inside is \<^verbatim>\<open>AEE_EWOULDBLOCK\<close>, otherwise the write position
  and whether the packet wraps.\<close>

definition space_for :: "ring \<Rightarrow> u32 \<Rightarrow> (u32 \<times> bool) option option" where
  "space_for g alen =
     (case get_queue_state_write g of
        None \<Rightarrow> None
      | Some (qleft, r, w) \<Rightarrow>
          if qleft < alen then Some None
          else if qlen g - w < alen
          then if qleft - (qlen g - w) < alen then Some None else Some (Some (w, True))
          else Some (Some (w, False)))"

text \<open>Writing the packet: header, once more at the beginning when it wraps, buffer references, message.\<close>

definition put_packet :: "ring \<Rightarrow> u32 \<Rightarrow> bool \<Rightarrow> u64 \<Rightarrow> byte list \<Rightarrow> byte list \<Rightarrow> (byte list \<times> u32) option" where
  "put_packet g w wrap phdr bufs msg =
     (case write_64 (qmem g) w (qlen g) phdr of None \<Rightarrow> None
      | Some (mem, w) \<Rightarrow>
          (case (if wrap then write_64 mem 0 (qlen g) phdr else Some (mem, w)) of None \<Rightarrow> None
           | Some (mem, w) \<Rightarrow>
               (case (if bufs \<noteq> [] then write_data mem w (qlen g) bufs else Some (mem, w)) of None \<Rightarrow> None
                | Some (mem, w) \<Rightarrow> if msg \<noteq> [] then write_data mem w (qlen g) msg else Some (mem, w))))"

text \<open>The header at a position: flags, number of buffers, message length and the raw header, or an error.\<close>

definition peek_locked :: "byte list \<Rightarrow> u32 \<Rightarrow> (int + u32 \<times> u32 \<times> u32 \<times> u64) option" where
  "peek_locked mem r =
     (if unat r + 8 > length mem then None
      else let d = le_word (window mem (unat r) 8) :: u64;
               len = ucast d :: u32;
               f = ucast (drop_bit 32 d AND 0xFFFF) :: u32;
               nb = (if f AND FLAG_BUFFERS \<noteq> 0 then ucast (drop_bit 48 d AND 0xFF) else 0) :: u32
           in if \<not> len \<ge> 8 + nb * 24 then Some (Inl AEE_EBADITEM)
              else Some (Inr (f, nb, if f AND FLAG_MESSAGE \<noteq> 0 then len - 8 - nb * 24 else 0, d)))"

text \<open>Where the packet's data begins: after the header, or after its copy at the beginning of the ring.\<close>

definition body_pos :: "u32 \<Rightarrow> u32 \<Rightarrow> u32 \<Rightarrow> u32 \<Rightarrow> u32 option" where
  "body_pos qsize qleft r len =
     (if qsize - r < len then if \<not> qleft - (qsize - r) \<ge> len then None else Some 8 else Some (r + 8))"

text \<open>Reading the data of a packet; a null output pointer (\<open>False\<close>) skips over it. Returns the bytes of the buffer
  references and of the message as far as they are read, and the position, brought back to 0 at the end.\<close>

definition get_body ::
  "ring \<Rightarrow> u32 \<Rightarrow> u32 \<Rightarrow> u32 \<Rightarrow> bool \<Rightarrow> bool \<Rightarrow> (byte list \<times> byte list \<times> u32) option" where
  "get_body g r num_b msg_l buffers message =
     (case (if num_b > 0
            then if buffers then read_data (qmem g) r (qlen g) (num_b * 24) else Some ([], r + num_b * 24)
            else Some ([], r)) of None \<Rightarrow> None
      | Some (bs, r) \<Rightarrow>
          (case (if msg_l > 0
                 then if message then read_data (qmem g) r (qlen g) msg_l else Some ([], r + ((msg_l + 7) AND NOT 7))
                 else Some ([], r)) of None \<Rightarrow> None
           | Some (ms, r) \<Rightarrow> if \<not> r \<le> qlen g then None else Some (bs, ms, if r \<ge> qlen g then 0 else r)))"

section \<open>Arithmetic of positions\<close>

lemma and_7_iff: "(x :: u32) AND 7 = 0 \<longleftrightarrow> 8 dvd unat x"
proof -
  have "(x AND 7) = take_bit 3 x" by (simp add: take_bit_eq_mask mask_eq_exp_minus_1)
  moreover have "unat (take_bit 3 x) = unat x mod 8"
    by (simp only: unsigned_take_bit_eq) (simp add: take_bit_eq_mod)
  ultimately show ?thesis by (metis mod_eq_0_iff_dvd unat_eq_0)
qed

lemma unat_plus: "unat (a :: u32) + unat b < 2 ^ 32 \<Longrightarrow> unat (a + b) = unat a + unat b"
  by (simp add: unat_word_ariths)

lemma unat_minus: "unat (b :: u32) \<le> unat a \<Longrightarrow> unat (a - b) = unat a - unat b"
  by (simp add: unat_sub word_le_nat_alt)

lemma unat_of_nat_small: "n < 2 ^ 32 \<Longrightarrow> unat (word_of_nat n :: u32) = n"
  by (simp add: unat_of_nat take_bit_nat_eq_self)

definition wrapq :: "nat \<Rightarrow> nat \<Rightarrow> nat" where
  "wrapq q x = (if x = q then 0 else x)"

definition geometry :: "nat \<Rightarrow> nat \<Rightarrow> nat \<Rightarrow> bool" where
  "geometry q r w \<longleftrightarrow> 8 dvd q \<and> q \<le> 16777216 \<and> 8 dvd r \<and> 8 dvd w \<and> r < q \<and> w < q"

definition ring_ok :: "ring \<Rightarrow> bool" where
  "ring_ok g \<longleftrightarrow> length (qmem g) = unat (qlen g) \<and> geometry (unat (qlen g)) (unat (rpos g)) (unat (wpos g))"

lemma dvd8_less: "8 dvd (a :: nat) \<Longrightarrow> 8 dvd b \<Longrightarrow> a < b \<Longrightarrow> a + 8 \<le> b"
  by (elim dvdE) auto

definition free_space :: "nat \<Rightarrow> nat \<Rightarrow> nat \<Rightarrow> nat" where
  "free_space q r w = (if r = w then q - 8 else if r < w then q - w + r - 8 else r - w - 8)"

definition used_space :: "nat \<Rightarrow> nat \<Rightarrow> nat \<Rightarrow> nat" where
  "used_space q r w = (if r = w then 0 else if r < w then w - r else q - r + w)"

lemma state_write:
  assumes "ring_ok g"
  obtains qleft where "get_queue_state_write g = Some (qleft, rpos g, wpos g)"
    and "unat qleft = free_space (unat (qlen g)) (unat (rpos g)) (unat (wpos g))"
proof -
  let ?q = "unat (qlen g)" and ?r = "unat (rpos g)" and ?w = "unat (wpos g)"
  have G: "8 dvd ?q" "?q \<le> 16777216" "8 dvd ?r" "8 dvd ?w" "?r < ?q" "?w < ?q"
    using assms by (auto simp: ring_ok_def geometry_def)
  let ?l = "if rpos g = wpos g then qlen g - 8
            else if wpos g > rpos g then qlen g - wpos g + rpos g - 8 else rpos g - wpos g - 8"
  have q8: "8 \<le> ?q" using G dvd8_less [of 0 ?q] by simp
  have l: "unat ?l = free_space ?q ?r ?w"
  proof -
    consider "?r = ?w" | "?r < ?w" | "?w < ?r" by linarith
    then show ?thesis
    proof cases
      case 1
      then have "rpos g = wpos g" by (simp add: word_unat_eq_iff)
      with q8 show ?thesis by (simp add: free_space_def unat_minus)
    next
      case 2
      have "?w + 8 \<le> ?q" using G by (intro dvd8_less) auto
      moreover from this have "unat (qlen g - wpos g) = ?q - ?w" by (simp add: unat_minus)
      ultimately have "unat (qlen g - wpos g + rpos g) = ?q - ?w + ?r" using G by (simp add: unat_plus)
      with 2 G \<open>?w + 8 \<le> ?q\<close> show ?thesis by (auto simp: free_space_def unat_minus word_less_nat_alt)
    next
      case 3
      have "?w + 8 \<le> ?r" using G 3 by (intro dvd8_less) auto
      with 3 show ?thesis by (auto simp: free_space_def unat_minus word_less_nat_alt)
    qed
  qed
  have "8 dvd free_space ?q ?r ?w"
    using G by (auto simp: free_space_def intro!: dvd_diff_nat dvd_add)
  then have "get_queue_state_write g = Some (?l, rpos g, wpos g)"
    using G l by (simp add: get_queue_state_write_def Let_def and_7_iff)
  with l that show ?thesis by blast
qed

lemma state_read:
  assumes "ring_ok g"
  obtains qleft where "get_queue_state_read g = Some (qleft, rpos g, wpos g)"
    and "unat qleft = used_space (unat (qlen g)) (unat (rpos g)) (unat (wpos g))"
proof -
  let ?q = "unat (qlen g)" and ?r = "unat (rpos g)" and ?w = "unat (wpos g)"
  have G: "8 dvd ?q" "?q \<le> 16777216" "8 dvd ?r" "8 dvd ?w" "?r < ?q" "?w < ?q"
    using assms by (auto simp: ring_ok_def geometry_def)
  let ?l = "if rpos g = wpos g then 0 else if wpos g > rpos g then wpos g - rpos g else qlen g - rpos g + wpos g"
  have l: "unat ?l = used_space ?q ?r ?w"
  proof -
    consider "?r = ?w" | "?r < ?w" | "?w < ?r" by linarith
    then show ?thesis
    proof cases
      case 1
      then have "rpos g = wpos g" by (simp add: word_unat_eq_iff)
      then show ?thesis by (simp add: used_space_def)
    next
      case 3
      have "unat (qlen g - rpos g) = ?q - ?r" using G by (simp add: unat_minus)
      then have "unat (qlen g - rpos g + wpos g) = ?q - ?r + ?w" using G by (simp add: unat_plus)
      with 3 show ?thesis by (auto simp: used_space_def word_less_nat_alt)
    qed (auto simp: used_space_def unat_minus word_less_nat_alt)
  qed
  have "8 dvd used_space ?q ?r ?w"
    using G by (auto simp: used_space_def intro!: dvd_diff_nat dvd_add)
  then have "get_queue_state_read g = Some (?l, rpos g, wpos g)"
    using G l by (simp add: get_queue_state_read_def Let_def and_7_iff)
  with l that show ?thesis by blast
qed

section \<open>Writing a packet\<close>

lemma wrap_word:
  assumes "unat (p :: u32) \<le> unat q"
  shows "unat (if p \<ge> q then 0 else p) = wrapq (unat q) (unat p)"
  using assms by (auto simp: wrapq_def word_le_nat_alt)

lemma write_64_ok:
  assumes "unat p + 8 \<le> unat q" "length mem = unat q"
  obtains p' where "write_64 mem p q d = Some (overwrite mem (unat p) (le_bytes 8 d), p')"
    and "unat p' = wrapq (unat q) (unat p + 8)"
proof -
  have "unat (p + 8) = unat p + 8"
  proof -
    have "unat q < 2 ^ 32" using unsigned_less [of q, where ?'a = nat] by simp
    with assms(1) show ?thesis by (intro unat_plus [of p 8, simplified]) simp
  qed
  with assms that wrap_word [of "p + 8" q] show ?thesis
    by (simp add: write_64_def Let_def)
qed

lemma unat_next:
  assumes "unat (p :: u32) + align8 (unat n) \<le> unat (q :: u32)" "unat q \<le> 16777216"
  shows "unat (p + ((n + 7) AND NOT 7)) = unat p + align8 (unat n)"
proof -
  have n: "unat n + 7 < 2 ^ 32" using assms align8_ge [of "unat n"] by simp
  show ?thesis
    using assms unat_plus [of p "(n + 7) AND NOT 7"] by (simp only: align8_word [OF n]) simp
qed

lemma write_data_ok:
  assumes "data \<noteq> []" "8 dvd unat p" "unat p + align8 (length data) \<le> unat q" "unat q \<le> 16777216" "length mem = unat q"
  obtains p' where "write_data mem p q data = Some (overwrite mem (unat p) data, p')"
    and "unat p' = wrapq (unat q) (unat p + align8 (length data))"
proof -
  let ?n = "word_of_nat (length data) :: u32"
  have len: "length data \<le> unat q - unat p" "length data < 2 ^ 32"
    using assms(3,4) align8_ge [of "length data"] by simp_all
  then have n: "unat ?n = length data" by (intro unat_of_nat_small)
  then have n0: "?n \<noteq> 0" using assms(1) by (metis length_0_conv unat_0)
  have nx: "unat (p + ((?n + 7) AND NOT 7)) = unat p + align8 (length data)"
    using unat_next [of p ?n q] assms(3,4) n by simp
  have sub: "unat (q - p) = unat q - unat p" using assms(3) by (intro unat_minus) simp
  have "write_data mem p q data =
    Some (overwrite mem (unat p) data, if p + ((?n + 7) AND NOT 7) \<ge> q then 0 else p + ((?n + 7) AND NOT 7))"
    using assms(2,3,5) n0 len n nx sub
    by (simp only: write_data_def Let_def and_7_iff word_le_nat_alt) auto
  moreover have "unat (if p + ((?n + 7) AND NOT 7) \<ge> q then 0 else p + ((?n + 7) AND NOT 7)) =
      wrapq (unat q) (unat p + align8 (length data))"
    using wrap_word [of "p + ((?n + 7) AND NOT 7)" q] nx assms(3) by simp
  ultimately show ?thesis using that by blast
qed

lemma read_data_ok:
  assumes "n \<noteq> 0" "8 dvd unat p" "unat p + align8 (unat n) \<le> unat q" "unat q \<le> 16777216" "length mem = unat q"
  obtains p' where "read_data mem p q n = Some (window mem (unat p) (unat n), p')"
    and "unat p' = wrapq (unat q) (unat p + align8 (unat n))"
proof -
  have nx: "unat (p + ((n + 7) AND NOT 7)) = unat p + align8 (unat n)"
    using unat_next [of p n q] assms(3,4) by simp
  have sub: "unat (q - p) = unat q - unat p" using assms(3) by (intro unat_minus) simp
  have len: "unat p + unat n \<le> unat q" using assms(3) align8_ge [of "unat n"] by simp
  have "read_data mem p q n =
    Some (window mem (unat p) (unat n), if p + ((n + 7) AND NOT 7) \<ge> q then 0 else p + ((n + 7) AND NOT 7))"
    using assms(1,2,3,5) nx sub len
    by (simp only: read_data_def Let_def and_7_iff word_le_nat_alt) auto
  moreover have "unat (if p + ((n + 7) AND NOT 7) \<ge> q then 0 else p + ((n + 7) AND NOT 7)) =
      wrapq (unat q) (unat p + align8 (unat n))"
    using wrap_word [of "p + ((n + 7) AND NOT 7)" q] nx assms(3) by simp
  ultimately show ?thesis using that by blast
qed

text \<open>A packet as it lies in the ring: header, then data. \<open>extent\<close> is the space it takes.\<close>

type_synonym raw_packet = "u64 \<times> byte list"

definition extent :: "raw_packet \<Rightarrow> nat" where
  "extent p = align8 (8 + length (snd p))"

definition lies_at :: "byte list \<Rightarrow> nat \<Rightarrow> raw_packet \<Rightarrow> bool" where
  "lies_at mem a p \<longleftrightarrow> window mem a 8 = le_bytes 8 (fst p) \<and> window mem (a + 8) (length (snd p)) = snd p"

lemma extent_ge: "8 + length (snd p) \<le> extent p" "8 dvd extent p" "8 \<le> extent p"
proof -
  show "8 + length (snd p) \<le> extent p" unfolding extent_def by (rule align8_ge)
  then show "8 \<le> extent p" by simp
qed (simp add: extent_def)

lemma extent_eq: "extent p = 8 + align8 (length (snd p))"
  by (simp add: extent_def align8_add)

text \<open>What \<open>put_packet\<close> does to the ring when the packet fits at \<open>a\<close>.\<close>

definition placed :: "byte list \<Rightarrow> nat \<Rightarrow> raw_packet \<Rightarrow> byte list" where
  "placed mem a p = overwrite (overwrite mem a (le_bytes 8 (fst p))) (a + 8) (snd p)"

lemma overwrite_append:
  assumes "i + length xs + length ys \<le> length mem"
  shows "overwrite (overwrite mem i xs) (i + length xs) ys = overwrite mem i (xs @ ys)"
  using assms by (intro nth_equalityI) (auto simp: nth_overwrite nth_append)

lemma overwrite_Nil [simp]: "overwrite mem i [] = mem"
  by (simp add: overwrite_def)

lemma length_placed: "a + extent p \<le> length mem \<Longrightarrow> length (placed mem a p) = length mem"
  using extent_ge(1) [of p] by (simp add: placed_def)

lemma lies_at_placed:
  assumes "a + extent p \<le> length mem" shows "lies_at (placed mem a p) a p"
  using assms extent_ge(1) [of p] window_overwrite_same [of a "le_bytes 8 (fst p)" mem]
  by (simp add: lies_at_def placed_def window_overwrite_other window_overwrite_same)

lemma window_placed_other:
  assumes "a + extent p \<le> length mem" "i + n \<le> length mem" "i + n \<le> a \<or> a + extent p \<le> i"
  shows "window (placed mem a p) i n = window mem i n"
  using assms extent_ge(1) [of p] by (auto simp: placed_def window_overwrite_other)

lemma write_opt_data:
  assumes "8 dvd unat a" "unat p = wrapq (unat q) (unat a)" "unat a + align8 (length data) \<le> unat q"
    "unat q \<le> 16777216" "length mem = unat q"
  obtains p' where "(if data \<noteq> [] then write_data mem p q data else Some (mem, p)) = Some (overwrite mem (unat a) data, p')"
    and "unat p' = wrapq (unat q) (unat a + align8 (length data))"
proof (cases "data = []")
  case True
  with that assms(2) show ?thesis by simp
next
  case False
  then have "length data > 0" by simp
  then have "align8 (length data) \<ge> 1" using align8_ge [of "length data"] by linarith
  with assms(2,3) have "unat p = unat a" by (simp add: wrapq_def)
  with False assms that write_data_ok [of data p q mem] show ?thesis by (auto simp: word_unat_eq_iff)
qed

lemma put_packet_ok:
  assumes ok: "length (qmem g) = unat (qlen g)" "unat (qlen g) \<le> 16777216" "8 dvd unat w" "unat w + 8 \<le> unat (qlen g)"
    and b: "8 dvd length bufs" and a: "a = (if wrap then 0 else unat w)"
    and fit: "a + extent (phdr, bufs @ msg) \<le> unat (qlen g)"
  obtains w' where "put_packet g w wrap phdr bufs msg =
      Some (placed (if wrap then overwrite (qmem g) (unat w) (le_bytes 8 phdr) else qmem g) a (phdr, bufs @ msg), w')"
    and "unat w' = wrapq (unat (qlen g)) (a + extent (phdr, bufs @ msg))"
proof -
  let ?q = "qlen g"
  let ?base = "if wrap then overwrite (qmem g) (unat w) (le_bytes 8 phdr) else qmem g"
  have ext: "extent (phdr, bufs @ msg) = 8 + length bufs + align8 (length msg)"
    using b by (simp add: extent_eq align8_add)
  have lens: "length ?base = unat ?q" using ok by simp
  obtain w1 where w1: "write_64 (qmem g) w ?q phdr = Some (overwrite (qmem g) (unat w) (le_bytes 8 phdr), w1)"
    "unat w1 = wrapq (unat ?q) (unat w + 8)"
    using write_64_ok [OF ok(4,1)] by metis
  obtain w2 where w2: "(if wrap then write_64 (overwrite (qmem g) (unat w) (le_bytes 8 phdr)) 0 ?q phdr
        else Some (overwrite (qmem g) (unat w) (le_bytes 8 phdr), w1)) = Some (overwrite ?base a (le_bytes 8 phdr), w2)"
    "unat w2 = wrapq (unat ?q) (a + 8)"
    using w1(2) a fit ext lens write_64_ok [of 0 ?q "overwrite (qmem g) (unat w) (le_bytes 8 phdr)" phdr]
    by (cases wrap) auto
  define m2 where "m2 = overwrite ?base a (le_bytes 8 phdr)"
  have l2: "length m2 = unat ?q" unfolding m2_def using lens fit ext by (subst length_overwrite) auto
  have big: "a + 8 + length bufs < 2 ^ 32" using fit ext ok(2) by simp
  let ?a1 = "word_of_nat (a + 8) :: u32" and ?a2 = "word_of_nat (a + 8 + length bufs) :: u32"
  have a1: "unat ?a1 = a + 8" and a2: "unat ?a2 = a + 8 + length bufs"
    using big by (intro unat_of_nat_small; simp)+
  have "8 dvd a" using a ok(3) by simp
  then have d: "8 dvd unat ?a1" "8 dvd unat ?a2" unfolding a1 a2 using b by (auto intro: dvd_add)
  obtain w3 where w3: "(if bufs \<noteq> [] then write_data m2 w2 ?q bufs else Some (m2, w2)) = Some (overwrite m2 (unat ?a1) bufs, w3)"
    "unat w3 = wrapq (unat ?q) (unat ?a1 + align8 (length bufs))"
    by (rule write_opt_data [of ?a1 w2 ?q bufs m2]) (use d w2(2) a1 fit ext ok(2) l2 b in auto)
  have l3: "length (overwrite m2 (a + 8) bufs) = unat ?q" using l2 fit ext by (subst length_overwrite) auto
  obtain w4 where w4: "(if msg \<noteq> [] then write_data (overwrite m2 (a + 8) bufs) w3 ?q msg
        else Some (overwrite m2 (a + 8) bufs, w3)) = Some (overwrite (overwrite m2 (a + 8) bufs) (unat ?a2) msg, w4)"
    "unat w4 = wrapq (unat ?q) (unat ?a2 + align8 (length msg))"
    by (rule write_opt_data [of ?a2 w3 ?q msg "overwrite m2 (a + 8) bufs"])
      (use d w3(2) a1 a2 fit ext ok(2) l3 b in auto)
  have "overwrite (overwrite m2 (a + 8) bufs) (a + 8 + length bufs) msg = placed ?base a (phdr, bufs @ msg)"
    unfolding placed_def fst_conv snd_conv m2_def [symmetric]
    using l2 fit ext align8_ge [of "length msg"] by (intro overwrite_append) simp
  then have "put_packet g w wrap phdr bufs msg = Some (placed ?base a (phdr, bufs @ msg), w4)"
    using w1(1) w2(1) w3(1) w4(1) unfolding put_packet_def m2_def [symmetric] a1 a2
    by (simp only: option.case prod.case)
  moreover have "unat w4 = wrapq (unat ?q) (a + extent (phdr, bufs @ msg))"
    using w4(2) a2 ext by (simp add: add.assoc)
  ultimately show ?thesis using that by blast
qed

section \<open>The ring holds a sequence of packets\<close>

text \<open>\<open>chain mem a b ps\<close>: the packets \<open>ps\<close> lie one after the other from \<open>a\<close> to \<open>b\<close>.\<close>

fun chain :: "byte list \<Rightarrow> nat \<Rightarrow> nat \<Rightarrow> raw_packet list \<Rightarrow> bool" where
  "chain mem a b [] \<longleftrightarrow> a = b"
| "chain mem a b (p # ps) \<longleftrightarrow> lies_at mem a p \<and> a + extent p \<le> b \<and> chain mem (a + extent p) b ps"

lemma chain_le: "chain mem a b ps \<Longrightarrow> a \<le> b"
  by (induction ps arbitrary: a) (auto intro: add_leD1)

lemma chain_dvd: "chain mem a b ps \<Longrightarrow> 8 dvd a \<Longrightarrow> 8 dvd b"
  by (induction ps arbitrary: a) (auto simp: extent_ge(2) dvd_add)

lemma chain_snoc:
  "chain mem a b ps \<Longrightarrow> lies_at mem b p \<Longrightarrow> chain mem a (b + extent p) (ps @ [p])"
  by (induction ps arbitrary: a) (auto dest: chain_le intro: le_trans)

lemma chain_cong:
  assumes "chain mem a b ps" "\<And>i n. a \<le> i \<Longrightarrow> i + n \<le> b \<Longrightarrow> window mem' i n = window mem i n"
  shows "chain mem' a b ps"
  using assms
proof (induction ps arbitrary: a)
  case (Cons p ps)
  have e: "a + extent p \<le> b" using Cons.prems(1) by simp
  have "lies_at mem' a p"
    using Cons.prems e extent_ge(1) [of p] by (simp add: lies_at_def)
  moreover have "chain mem' (a + extent p) b ps"
    using Cons.prems by (intro Cons.IH) auto
  ultimately show ?case using e by simp
qed simp

lemma chain_placed:
  assumes "chain mem x y ps" "a + extent p \<le> length mem" "y \<le> length mem" "y \<le> a \<or> a + extent p \<le> x"
  shows "chain (placed mem a p) x y ps"
  using assms by (intro chain_cong [OF assms(1)]) (auto intro!: window_placed_other)

lemma chain_overwrite8:
  assumes "chain mem x y ps" "e + 8 \<le> length mem" "y \<le> length mem" "y \<le> e \<or> e + 8 \<le> x"
  shows "chain (overwrite mem e (le_bytes 8 h)) x y ps"
  using assms by (intro chain_cong [OF assms(1)]) (auto intro!: window_overwrite_other)

text \<open>The sequence from the read to the write position: it does not reach the end of the ring, or it reaches it
  exactly, or its last packet before the end has only its header there and lies at the beginning.\<close>

inductive holds :: "byte list \<Rightarrow> nat \<Rightarrow> nat \<Rightarrow> nat \<Rightarrow> raw_packet list \<Rightarrow> bool" for mem q where
  straight: "r \<le> w \<Longrightarrow> chain mem r w ps \<Longrightarrow> holds mem q r w ps"
| exact: "w < r \<Longrightarrow> chain mem r q ps1 \<Longrightarrow> chain mem 0 w ps2 \<Longrightarrow> holds mem q r w (ps1 @ ps2)"
| moved: "w < r \<Longrightarrow> chain mem r e ps1 \<Longrightarrow> e < q \<Longrightarrow> window mem e 8 = le_bytes 8 (fst p) \<Longrightarrow> q - e < extent p \<Longrightarrow>
    chain mem 0 w (p # ps2) \<Longrightarrow> holds mem q r w (ps1 @ p # ps2)"

lemma holdsE:
  assumes "holds mem q r w ps"
  obtains (straight) "r \<le> w" "chain mem r w ps"
  | (exact) ps1 ps2 where "ps = ps1 @ ps2" "w < r" "chain mem r q ps1" "chain mem 0 w ps2"
  | (moved) e ps1 p ps2 where "ps = ps1 @ p # ps2" "w < r" "chain mem r e ps1" "e < q"
      "window mem e 8 = le_bytes 8 (fst p)" "q - e < extent p" "chain mem 0 w (p # ps2)"
  using assms by (rule holds.cases) auto

text \<open>Where a packet of extent \<open>E\<close> goes: its position, if there is space.\<close>

definition target :: "nat \<Rightarrow> nat \<Rightarrow> nat \<Rightarrow> nat \<Rightarrow> (nat \<times> bool) option" where
  "target q r w E =
     (if free_space q r w < E then None
      else if q - w < E then if free_space q r w - (q - w) < E then None else Some (0, True)
      else Some (w, False))"

lemma space_for_target:
  assumes ok: "ring_ok g" and E: "unat alen = E"
  shows "space_for g alen =
    Some (map_option (\<lambda>(a, wrap). (wpos g, wrap)) (target (unat (qlen g)) (unat (rpos g)) (unat (wpos g)) E))"
proof -
  let ?q = "unat (qlen g)" and ?r = "unat (rpos g)" and ?w = "unat (wpos g)"
  obtain l where s: "get_queue_state_write g = Some (l, rpos g, wpos g)" and l: "unat l = free_space ?q ?r ?w"
    using state_write [OF ok] by metis
  have qw: "unat (qlen g - wpos g) = ?q - ?w"
    using ok by (intro unat_minus) (auto simp: ring_ok_def geometry_def)
  have "unat (l - (qlen g - wpos g)) = free_space ?q ?r ?w - (?q - ?w)"
    if "\<not> free_space ?q ?r ?w < E" "?q - ?w < E"
    using that l qw by (subst unat_minus) auto
  with s l qw E show ?thesis
    by (auto simp: space_for_def target_def word_less_nat_alt)
qed

text \<open>Space arithmetic: the packet's place is free, and the write position stays behind the read position.\<close>

lemma target_bounds:
  assumes G: "geometry q r w" and t: "target q r w E = Some (a, wrap)" and E: "8 dvd E" "8 \<le> E" "E + 8 \<le> q"
  shows "a + E \<le> q" and "a = (if wrap then 0 else w)"
    and "wrap \<Longrightarrow> q - w < E \<and> E + 8 \<le> r \<and> r \<le> w"
    and "\<not> wrap \<Longrightarrow> w < r \<Longrightarrow> w + E + 8 \<le> r" and "\<not> wrap \<Longrightarrow> r \<le> w \<Longrightarrow> w + E = q \<Longrightarrow> 8 \<le> r"
proof -
  have D: "8 dvd q" "8 dvd r" "8 dvd w" "r < q" "w < q" using G by (auto simp: geometry_def)
  have rw: "r \<noteq> w \<Longrightarrow> w < r \<Longrightarrow> w + 8 \<le> r" "w + 8 \<le> q" using D by (auto intro: dvd8_less)
  show "a = (if wrap then 0 else w)" using t by (auto simp: target_def split: if_splits)
  show "a + E \<le> q" using t D E by (auto simp: target_def split: if_splits)
  show "q - w < E \<and> E + 8 \<le> r \<and> r \<le> w" if wrap
    using that t D E rw by (auto simp: target_def free_space_def split: if_splits)
  show "w + E + 8 \<le> r" if "\<not> wrap" "w < r"
    using that t D E rw by (auto simp: target_def free_space_def split: if_splits)
  show "8 \<le> r" if "\<not> wrap" "r \<le> w" "w + E = q"
    using that t D E rw by (auto simp: target_def free_space_def split: if_splits)
qed

lemma holds_put_straight:
  assumes G: "geometry q r w" and len: "length mem = q" and c: "r \<le> w" "chain mem r w ps"
    and t: "target q r w (extent p) = Some (w, False)" and E: "extent p + 8 \<le> q"
  shows "holds (placed mem w p) q r (wrapq q (w + extent p)) (ps @ [p])"
proof -
  note B = target_bounds [OF G t extent_ge(2,3) E]
  have fit: "w + extent p \<le> length mem" using B(1,2) len by simp
  have "w \<le> length mem" using G len by (simp add: geometry_def)
  then have "chain (placed mem w p) r w ps" using c fit by (intro chain_placed) auto
  then have ch: "chain (placed mem w p) r (w + extent p) (ps @ [p])"
    using lies_at_placed [OF fit] by (rule chain_snoc)
  show ?thesis
  proof (cases "w + extent p = q")
    case True
    then have "8 \<le> r" using B(5) c(1) by simp
    with True ch show ?thesis using holds.exact [of 0 r "placed mem w p" q "ps @ [p]" "[]"] by (simp add: wrapq_def)
  next
    case False
    then show ?thesis using ch c(1) by (simp add: wrapq_def holds.straight)
  qed
qed

lemma holds_put_moved:
  assumes G: "geometry q r w" and len: "length mem = q" and c: "r \<le> w" "chain mem r w ps"
    and t: "target q r w (extent p) = Some (0, True)" and E: "extent p + 8 \<le> q"
  shows "holds (placed (overwrite mem w (le_bytes 8 (fst p))) 0 p) q r (wrapq q (extent p)) (ps @ [p])"
proof -
  note B = target_bounds [OF G t extent_ge(2,3) E]
  let ?m = "overwrite mem w (le_bytes 8 (fst p))"
  have w8: "w + 8 \<le> q" using G by (intro dvd8_less) (auto simp: geometry_def)
  then have lm: "length ?m = q" using len by simp
  have b: "q - w < extent p" "extent p + 8 \<le> r" using B(3) by simp_all
  have fit: "0 + extent p \<le> length ?m" using E lm by simp
  have "chain ?m r w ps" using c w8 len by (intro chain_overwrite8) auto
  then have ch: "chain (placed ?m 0 p) r w ps" using fit b(2) c(1) lm w8 by (intro chain_placed) auto
  have "window ?m w 8 = le_bytes 8 (fst p)"
    using window_overwrite_same [of w "le_bytes 8 (fst p)" mem] w8 len by simp
  moreover have "window (placed ?m 0 p) w 8 = window ?m w 8"
    using fit b(2) c(1) w8 lm by (intro window_placed_other) auto
  ultimately have h: "window (placed ?m 0 p) w 8 = le_bytes 8 (fst p)" by simp
  have "chain (placed ?m 0 p) 0 (extent p) [p]" using lies_at_placed [OF fit] by simp
  with ch h b w8 have "holds (placed ?m 0 p) q r (extent p) (ps @ p # [])"
    by (intro holds.moved [where e = w]) auto
  moreover have "wrapq q (extent p) = extent p" using E by (auto simp: wrapq_def)
  ultimately show ?thesis by simp
qed

lemma holds_put_behind:
  assumes G: "geometry q r w" and len: "length mem = q" and h: "holds mem q r w ps" and wr: "w < r"
    and t: "target q r w (extent p) = Some (a, wrap)" and E: "extent p + 8 \<le> q"
  shows "\<not> wrap \<and> a = w \<and> holds (placed mem w p) q r (wrapq q (w + extent p)) (ps @ [p])"
proof -
  note B = target_bounds [OF G t extent_ge(2,3) E]
  have nw: "\<not> wrap" using B(3) wr by auto
  then have a: "a = w" using B(2) by simp
  have b: "w + extent p + 8 \<le> r" using B(4) nw wr by simp
  have rq: "r < q" using G by (simp add: geometry_def)
  have fit: "w + extent p \<le> length mem" using b rq len by simp
  have wq: "wrapq q (w + extent p) = w + extent p" using b rq by (simp add: wrapq_def)
  have keep: "chain (placed mem w p) x y l" if "chain mem x y l" "r \<le> x" "y \<le> q" for x y l
    using that b fit len by (intro chain_placed) auto
  have ext: "chain (placed mem w p) 0 (w + extent p) (l @ [p])" if "chain mem 0 w l" for l
    using that fit lies_at_placed [OF fit] by (intro chain_snoc chain_placed) auto
  from h have "holds (placed mem w p) q r (w + extent p) (ps @ [p])"
  proof (cases rule: holdsE)
    case straight
    with wr show ?thesis by simp
  next
    case (exact ps1 ps2)
    then have "holds (placed mem w p) q r (w + extent p) (ps1 @ ps2 @ [p])"
      using keep [of r q ps1] ext [of ps2] b by (intro holds.exact) auto
    with exact show ?thesis by simp
  next
    case (moved e ps1 p' ps2)
    have re: "r \<le> e" using moved(3) by (rule chain_le)
    have "8 dvd e" using chain_dvd [OF moved(3)] G by (simp add: geometry_def)
    then have e8: "e + 8 \<le> q" using G moved(4) by (intro dvd8_less) (auto simp: geometry_def)
    have "window (placed mem w p) e 8 = window mem e 8"
      using fit b re e8 len by (intro window_placed_other) auto
    with moved have "holds (placed mem w p) q r (w + extent p) (ps1 @ p' # (ps2 @ [p]))"
      using keep [of r e ps1] ext [of "p' # ps2"] b by (intro holds.moved) auto
    with moved show ?thesis by simp
  qed
  with nw a wq show ?thesis by simp
qed

lemma holds_put:
  assumes "geometry q r w" "length mem = q" "holds mem q r w ps" "target q r w (extent p) = Some (a, wrap)" "extent p + 8 \<le> q"
  shows "holds (placed (if wrap then overwrite mem w (le_bytes 8 (fst p)) else mem) a p) q r (wrapq q (a + extent p)) (ps @ [p])"
proof (cases "w < r")
  case True
  then show ?thesis using holds_put_behind [OF assms(1-3) True assms(4,5)] by auto
next
  case False
  then have "chain mem r w ps" using assms(3) by (auto elim: holdsE)
  moreover have "a = (if wrap then 0 else w)" using target_bounds(2) [OF assms(1,4) extent_ge(2,3) assms(5)] .
  ultimately show ?thesis
    using False assms holds_put_straight [of q r w mem ps p] holds_put_moved [of q r w mem ps p] by (cases wrap) auto
qed

lemma geometry_put:
  assumes "geometry q r w" "a + extent p \<le> q" "8 dvd a"
  shows "geometry q r (wrapq q (a + extent p))"
  using assms extent_ge(2) [of p] by (auto simp: geometry_def wrapq_def intro: dvd_add)

section \<open>Reading a packet\<close>

definition source :: "nat \<Rightarrow> nat \<Rightarrow> raw_packet \<Rightarrow> nat" where
  "source q r p = (if q - r < 8 + length (snd p) then 0 else r)"

lemma chain_self: "chain mem a a ps \<Longrightarrow> ps = []"
proof (cases ps)
  case (Cons p l)
  moreover assume "chain mem a a ps"
  ultimately show ?thesis using extent_ge(3) [of p] by simp
qed

lemma holds_empty_iff:
  assumes "geometry q r w" "holds mem q r w ps"
  shows "ps = [] \<longleftrightarrow> r = w"
  using assms(2)
proof (cases rule: holdsE)
  case straight
  then show ?thesis by (auto dest: chain_self)
next
  case (exact ps1 ps2)
  then have "ps1 \<noteq> []" using assms(1) by (auto simp: geometry_def)
  with exact show ?thesis by auto
next
  case (moved e ps1 p ps2)
  then show ?thesis by auto
qed

lemma extent_small_iff:
  assumes "8 dvd q" "8 dvd r" "r \<le> q"
  shows "q - r < 8 + length (snd p) \<longleftrightarrow> q - r < extent p"
proof -
  have "8 dvd q - r" using assms by (simp add: dvd_diff_nat)
  then show ?thesis unfolding extent_def using align8_le_iff [of "q - r" "8 + length (snd p)"] by (simp add: not_le [symmetric])
qed

lemma holds_get:
  assumes G: "geometry q r w" and h: "holds mem q r w (p # ps)"
  defines "a \<equiv> source q r p"
  shows "window mem r 8 = le_bytes 8 (fst p)" and "lies_at mem a p" and "a + extent p \<le> q"
    and "holds mem q (wrapq q (a + extent p)) w ps"
    and "a \<noteq> r \<Longrightarrow> w < r \<and> extent p \<le> w" and "8 \<le> used_space q r w"
proof -
  have D: "8 dvd q" "8 dvd r" "8 dvd w" "r < q" "w < q" using G by (auto simp: geometry_def)
  have sm: "q - r < 8 + length (snd p) \<longleftrightarrow> q - r < extent p" using D by (intro extent_small_iff) auto
  have "r \<noteq> w" using holds_empty_iff [OF G h] by simp
  then show "8 \<le> used_space q r w"
    using D dvd8_less [of r w] dvd8_less [of r q] by (auto simp: used_space_def)
  have "window mem r 8 = le_bytes 8 (fst p) \<and> lies_at mem a p \<and> a + extent p \<le> q \<and>
    holds mem q (wrapq q (a + extent p)) w ps \<and> (a \<noteq> r \<longrightarrow> w < r \<and> extent p \<le> w)"
    using h
  proof (cases rule: holdsE)
    case straight
    then have "a = r" using sm D by (auto simp: a_def source_def)
    with straight D show ?thesis by (auto simp: lies_at_def wrapq_def intro: holds.straight)
  next
    case (exact ps1 ps2)
    then obtain ps1' where ps1: "ps1 = p # ps1'" using D by (cases ps1) auto
    then have le: "r + extent p \<le> q" using exact by simp
    then have a: "a = r" using sm D by (auto simp: a_def source_def)
    have "holds mem q (wrapq q (r + extent p)) w ps"
    proof (cases "r + extent p = q")
      case True
      then have "ps1' = []" using exact ps1 by (auto dest: chain_self)
      with True exact ps1 show ?thesis by (auto simp: wrapq_def intro: holds.straight)
    next
      case False
      then show ?thesis using exact ps1 by (auto simp: wrapq_def intro!: holds.exact)
    qed
    with a le exact ps1 show ?thesis by (auto simp: lies_at_def)
  next
    case (moved e ps1 p' ps2)
    show ?thesis
    proof (cases ps1)
      case Nil
      with moved have e: "e = r" "p' = p" "ps2 = ps" by auto
      then have "a = 0" using moved sm by (simp add: a_def source_def)
      with moved e D show ?thesis by (auto simp: wrapq_def intro: holds.straight)
    next
      case (Cons p1 ps1')
      with moved have p1: "p1 = p" "ps = ps1' @ p' # ps2" "r + extent p \<le> e" by auto
      then have a: "a = r" using sm D moved(4) by (auto simp: a_def source_def)
      have "holds mem q (r + extent p) w ps"
        using moved Cons p1 by (auto intro!: holds.moved)
      with a p1 moved Cons show ?thesis by (auto simp: lies_at_def wrapq_def)
    qed
  qed
  then show "window mem r 8 = le_bytes 8 (fst p)" and "lies_at mem a p" and "a + extent p \<le> q"
    and "holds mem q (wrapq q (a + extent p)) w ps" and "a \<noteq> r \<Longrightarrow> w < r \<and> extent p \<le> w" by auto
qed

lemma geometry_get:
  assumes "geometry q r w" "holds mem q r w (p # ps)"
  shows "geometry q (wrapq q (source q r p + extent p)) w"
  using assms holds_get(3) [OF assms] extent_ge(2) [of p]
  by (auto simp: geometry_def wrapq_def source_def intro: dvd_add)

section \<open>Encoding of packets\<close>

lemma length_enc_buf [simp]: "length (enc_buf b) = 24"
  by (simp add: enc_buf_def)

lemma length_enc_bufs [simp]: "length (enc_bufs bs) = 24 * length bs"
  by (induction bs) (simp_all add: enc_bufs_def)

lemma window_append_left: "i + n \<le> length xs \<Longrightarrow> window (xs @ ys) i n = window xs i n"
  by (simp add: window_def)

lemma window_append_right: "length xs \<le> i \<Longrightarrow> window (xs @ ys) i n = window ys (i - length xs) n"
  by (simp add: window_def)

lemma window_all: "window xs 0 (length xs) = xs"
  by (simp add: window_def)

lemma window_le_bytes: "window (le_bytes n x) 0 n = le_bytes n x"
  using window_all [of "le_bytes n x"] by simp

lemma dec_enc_buf [simp]: "dec_buf (enc_buf b) = b"
  by (simp add: dec_buf_def enc_buf_def window_append_left window_append_right window_le_bytes)

lemma dec_enc_bufs [simp]: "dec_bufs (length bs) (enc_bufs bs) = bs"
  by (induction bs) (simp_all add: enc_bufs_def)

lemma header_len [simp]: "ucast (packet_header len flags nb seq) = len"
  unfolding packet_header_def
  by (rule bit_word_eqI)
    (auto simp: bit_ucast_iff bit_or_iff bit_push_bit_iff dest: bit_imp_le_length)

lemma header_flags [simp]:
  "ucast (drop_bit 32 (packet_header len flags nb seq) AND 0xFFFF) = flags AND 0xFFFF"
proof -
  have m: "(0xFFFF :: u64) = mask 16" "(0xFFFF :: u32) = mask 16" by (simp_all add: mask_eq_exp_minus_1)
  show ?thesis unfolding packet_header_def m
    by (rule bit_word_eqI)
      (auto simp: bit_ucast_iff bit_or_iff bit_and_iff bit_push_bit_iff bit_drop_bit_eq bit_mask_iff
        dest: bit_imp_le_length)
qed

lemma header_buffers [simp]:
  "ucast (drop_bit 48 (packet_header len flags nb seq) AND 0xFF) = nb AND 0xFF"
proof -
  have m: "(0xFF :: u64) = mask 8" "(0xFF :: u32) = mask 8" "(0xFFFF :: u32) = mask 16" "(0xFF :: u16) = mask 8"
    by (simp_all add: mask_eq_exp_minus_1)
  show ?thesis unfolding packet_header_def m
    by (rule bit_word_eqI)
      (auto simp: bit_ucast_iff bit_or_iff bit_and_iff bit_push_bit_iff bit_drop_bit_eq bit_mask_iff
        dest: bit_imp_le_length)
qed

type_synonym packet = "u32 \<times> dspqueue_buffer list \<times> byte list"

definition wf_packet :: "packet \<Rightarrow> bool" where
  "wf_packet p = (case p of (f, bufs, msg) \<Rightarrow>
     length bufs \<le> 64 \<and> length msg \<le> 65536 \<and> f AND 0xFFFF = f \<and>
     (f AND FLAG_BUFFERS \<noteq> 0 \<longleftrightarrow> bufs \<noteq> []) \<and> (f AND FLAG_MESSAGE \<noteq> 0 \<longleftrightarrow> msg \<noteq> []))"

definition num_of :: "'a list \<Rightarrow> u32" where
  "num_of xs = word_of_nat (length xs)"

definition raw_of :: "u16 \<Rightarrow> packet \<Rightarrow> raw_packet" where
  "raw_of seq p = (case p of (f, bufs, msg) \<Rightarrow>
     (packet_header (packet_len (num_of bufs) (num_of msg)) f (num_of bufs) seq, enc_bufs bufs @ msg))"

lemma unat_num_of: "length xs \<le> 65536 \<Longrightarrow> unat (num_of xs) = length xs"
  unfolding num_of_def by (intro unat_of_nat_small) simp

lemma unat_24: "unat (n :: u32) \<le> 255 \<Longrightarrow> unat (n * 24) = 24 * unat n"
  by (simp add: unat_word_ariths)

lemma unat_packet_len:
  assumes "length bufs \<le> 64" "length msg \<le> 65536"
  shows "unat (packet_len (num_of bufs) (num_of msg)) = 8 + 24 * length bufs + length msg"
proof -
  have b: "unat (num_of bufs * 24) = 24 * length bufs" and m: "unat (num_of msg) = length msg"
    using assms by (simp_all add: unat_24 unat_num_of)
  have "unat (8 + num_of bufs * 24) = 8 + 24 * length bufs"
    using assms b by (subst unat_plus) auto
  with assms m show ?thesis unfolding packet_len_def by (subst unat_plus) auto
qed

lemma extent_raw_of:
  assumes "wf_packet (f, bufs, msg)" "len = packet_len (num_of bufs) (num_of msg)"
  shows "extent (raw_of seq (f, bufs, msg)) = align8 (unat len)"
    and "unat ((len + 7) AND NOT 7) = extent (raw_of seq (f, bufs, msg))"
    and "length (snd (raw_of seq (f, bufs, msg))) + 8 = unat len"
proof -
  have l: "unat len = 8 + 24 * length bufs + length msg"
    using assms by (simp add: wf_packet_def unat_packet_len)
  then show e: "extent (raw_of seq (f, bufs, msg)) = align8 (unat len)"
    by (simp add: extent_def raw_of_def add.assoc)
  show "length (snd (raw_of seq (f, bufs, msg))) + 8 = unat len" using l by (simp add: raw_of_def)
  have "unat len + 7 < 2 ^ 32" using l assms by (simp add: wf_packet_def)
  from align8_word [OF this] e show "unat ((len + 7) AND NOT 7) = extent (raw_of seq (f, bufs, msg))" by simp
qed

section \<open>The ring as a queue of packets\<close>

definition ring_holds :: "ring \<Rightarrow> packet list \<Rightarrow> bool" where
  "ring_holds g ps \<longleftrightarrow> ring_ok g \<and> list_all wf_packet ps \<and>
     (\<exists>raws. holds (qmem g) (unat (qlen g)) (unat (rpos g)) (unat (wpos g)) raws \<and>
             list_all2 (\<lambda>raw p. \<exists>seq. raw = raw_of seq p) raws ps)"

lemma ring_holds_put:
  assumes h: "ring_holds g ps" and wf: "wf_packet (f, bufs, msg)"
    and len: "len = packet_len (num_of bufs) (num_of msg)" and alen: "alen = (len + 7) AND NOT 7" "\<not> alen > qlen g - 8"
    and s: "space_for g alen = Some (Some (w, wrap))"
    and hdr: "hdr = packet_header len f (num_of bufs) seq"
  shows "\<exists>mem w'. put_packet g w wrap hdr (enc_bufs bufs) msg = Some (mem, w') \<and>
    ring_holds (g\<lparr>qmem := mem, wpos := w'\<rparr>) (ps @ [(f, bufs, msg)])"
proof -
  let ?q = "unat (qlen g)" and ?r = "unat (rpos g)" and ?w = "unat (wpos g)" and ?p = "raw_of seq (f, bufs, msg)"
  obtain raws where ok: "ring_ok g" and hr: "holds (qmem g) ?q ?r ?w raws"
    and l2: "list_all2 (\<lambda>raw p. \<exists>seq. raw = raw_of seq p) raws ps" and wfs: "list_all wf_packet ps"
    using h by (auto simp: ring_holds_def)
  have G: "geometry ?q ?r ?w" "length (qmem g) = ?q" "?q \<le> 16777216" "8 dvd ?w" "?w < ?q" "8 dvd ?q"
    using ok by (auto simp: ring_ok_def geometry_def)
  have ext: "unat alen = extent ?p" using extent_raw_of(2) [OF wf len] alen(1) by simp
  have q8: "8 \<le> ?q" using G dvd8_less [of 0 ?q] by simp
  then have "unat (qlen g - 8) = ?q - 8" by (simp add: unat_minus)
  with alen(2) ext q8 have E: "extent ?p + 8 \<le> ?q" by (simp add: word_less_nat_alt not_less)
  have "map_option (\<lambda>(a, wrap). (wpos g, wrap)) (target ?q ?r ?w (extent ?p)) = Some (w, wrap)"
    using trans [OF space_for_target [OF ok ext, symmetric] s] by (rule option.inject [THEN iffD1])
  then obtain a where t: "target ?q ?r ?w (extent ?p) = Some (a, wrap)" and w: "w = wpos g"
    unfolding map_option_eq_Some by (elim exE conjE) (simp split: prod.splits)
  note B = target_bounds [OF G(1) t extent_ge(2,3) E]
  have w8: "?w + 8 \<le> ?q" using G by (intro dvd8_less) auto
  have p: "?p = (hdr, enc_bufs bufs @ msg)" using hdr len by (simp add: raw_of_def)
  obtain w' where pp: "put_packet g w wrap hdr (enc_bufs bufs) msg =
      Some (placed (if wrap then overwrite (qmem g) ?w (le_bytes 8 hdr) else qmem g) a ?p, w')"
    and w': "unat w' = wrapq ?q (a + extent ?p)"
    using put_packet_ok [OF G(2,3), of w "enc_bufs bufs" a wrap hdr msg] w G(4) w8 B(1,2) p by auto
  let ?m = "placed (if wrap then overwrite (qmem g) ?w (le_bytes 8 hdr) else qmem g) a ?p"
  have "holds ?m ?q ?r (wrapq ?q (a + extent ?p)) (raws @ [?p])"
    using holds_put [OF G(1,2) hr t E] unfolding p fst_conv .
  moreover have "length ?m = ?q" using G(2) B(1) w8 by (subst length_placed) auto
  moreover have "geometry ?q ?r (wrapq ?q (a + extent ?p))"
    using geometry_put [OF G(1) B(1)] B(2) G(4) by simp
  ultimately have "ring_holds (g\<lparr>qmem := ?m, wpos := w'\<rparr>) (ps @ [(f, bufs, msg)])"
    using w' wfs wf l2 unfolding ring_holds_def ring_ok_def
    by (auto intro!: exI [of _ "raws @ [?p]"] list_all2_appendI)
  with pp show ?thesis by blast
qed

lemma mask_small: "(n :: u32) \<le> 64 \<Longrightarrow> n AND 0xFF = n"
proof -
  assume "n \<le> 64"
  then have "unat n < 2 ^ 8" by (simp add: word_le_nat_alt)
  moreover have "(0xFF :: u32) = mask 8" by (simp add: mask_eq_exp_minus_1)
  ultimately show ?thesis
    by (metis take_bit_eq_mask take_bit_nat_eq_self unsigned_take_bit_eq word_unat_eq_iff)
qed

lemma peek_header:
  assumes wf: "wf_packet (f, bufs, msg)" and r: "unat r + 8 \<le> length mem"
    and w: "window mem (unat r) 8 = le_bytes 8 (fst (raw_of seq (f, bufs, msg)))"
  shows "peek_locked mem r = Some (Inr (f, num_of bufs, num_of msg, fst (raw_of seq (f, bufs, msg))))"
proof -
  let ?len = "packet_len (num_of bufs) (num_of msg)"
  have bl: "length bufs \<le> 64" "length msg \<le> 65536" using wf by (auto simp: wf_packet_def)
  then have nb: "unat (num_of bufs) = length bufs" by (simp add: unat_num_of)
  then have "num_of bufs \<le> 64" using bl by (simp add: word_le_nat_alt)
  then have m: "num_of bufs AND 0xFF = num_of bufs" by (rule mask_small)
  have z: "bufs = [] \<longleftrightarrow> num_of bufs = 0" using nb by (metis length_0_conv unat_0 unat_eq_0)
  have zm: "msg = [] \<Longrightarrow> num_of msg = 0" by (simp add: num_of_def)
  have n: "(if f AND FLAG_BUFFERS \<noteq> 0 then num_of bufs else 0) = num_of bufs"
    using wf z by (auto simp: wf_packet_def)
  have l8: "unat (8 + num_of bufs * 24) = 8 + 24 * length bufs"
    using bl nb by (subst unat_plus) (auto simp: unat_24)
  have ge: "\<not> ?len < 8 + num_of bufs * 24"
    using l8 unat_packet_len [OF bl] by (simp add: word_less_nat_alt)
  have sub: "?len - 8 - num_of bufs * 24 = num_of msg" by (simp add: packet_len_def)
  show ?thesis
    using wf r w m n ge sub zm by (auto simp: peek_locked_def raw_of_def Let_def not_le wf_packet_def)
qed

lemma read_opt_data:
  assumes "8 dvd x" "unat p = wrapq (unat q) x \<or> unat p = x" "x + align8 (unat n) \<le> unat q"
    "unat q \<le> 16777216" "length mem = unat q" "unat adv = align8 (unat n)"
  obtains p' where "(if n > 0 then if flag then read_data mem p q n else Some ([], p + adv) else Some ([], p)) =
      Some (if flag then window mem x (unat n) else [], p')"
    and "unat p' = wrapq (unat q) (x + align8 (unat n)) \<or> unat p' = x + align8 (unat n)"
proof (cases "n = 0")
  case True
  with that [of p] assms(2) show ?thesis by simp
next
  case False
  then have n: "n > 0" "1 \<le> unat n" by (simp_all add: word_neq_0_conv unat_gt_0 Suc_le_eq)
  then have "1 \<le> align8 (unat n)" using align8_ge [of "unat n"] by linarith
  with assms(2,3) have p: "unat p = x" by (auto simp: wrapq_def)
  show ?thesis
  proof (cases flag)
    case True
    with False p assms n that read_data_ok [of n p q mem] show ?thesis by auto
  next
    case nf: False
    have "unat (p + adv) = x + align8 (unat n)"
      using p assms(3,4,6) by (subst unat_plus) auto
    with nf n that [of "p + adv"] show ?thesis by simp
  qed
qed

lemma lies_at_split:
  assumes "lies_at mem a (raw_of seq (f, bufs, msg))"
  shows "window mem (a + 8) (24 * length bufs) = enc_bufs bufs"
    and "window mem (a + 8 + 24 * length bufs) (length msg) = msg"
proof -
  have "window mem (a + 8) (24 * length bufs + length msg) = enc_bufs bufs @ msg"
    using assms by (simp add: lies_at_def raw_of_def)
  then have e: "window mem (a + 8) (24 * length bufs) @ window mem (a + 8 + 24 * length bufs) (length msg) =
      enc_bufs bufs @ msg"
    by (simp only: window_append)
  moreover have "length (window mem (a + 8) (24 * length bufs)) = length (enc_bufs bufs)"
  proof -
    have "length (window mem (a + 8) (24 * length bufs)) \<le> 24 * length bufs"
      "length (window mem (a + 8 + 24 * length bufs) (length msg)) \<le> length msg" by (simp_all add: window_def)
    with arg_cong [OF e, of length] show ?thesis by simp
  qed
  ultimately show "window mem (a + 8) (24 * length bufs) = enc_bufs bufs"
    and "window mem (a + 8 + 24 * length bufs) (length msg) = msg" by auto
qed

lemma get_body_ok:
  assumes wf: "wf_packet (f, bufs, msg)" and l: "lies_at (qmem g) a (raw_of seq (f, bufs, msg))"
    and d: "8 dvd a" "a + extent (raw_of seq (f, bufs, msg)) \<le> unat (qlen g)" "unat (qlen g) \<le> 16777216"
    "length (qmem g) = unat (qlen g)" "unat b = a + 8"
  obtains r' where "get_body g b (num_of bufs) (num_of msg) bflag mflag =
      Some (if bflag then enc_bufs bufs else [], if mflag then msg else [], r')"
    and "unat r' = wrapq (unat (qlen g)) (a + extent (raw_of seq (f, bufs, msg)))"
proof -
  let ?q = "qlen g" and ?nb = "num_of bufs" and ?ml = "num_of msg"
  have bl: "length bufs \<le> 64" "length msg \<le> 65536" using wf by (auto simp: wf_packet_def)
  have nb: "unat ?nb = length bufs" "unat (?nb * 24) = 24 * length bufs" and ml: "unat ?ml = length msg"
    using bl by (simp_all add: unat_num_of unat_24)
  have d24: "8 dvd 24 * length bufs" by simp
  have ext: "extent (raw_of seq (f, bufs, msg)) = 8 + 24 * length bufs + align8 (length msg)"
    by (simp add: extent_eq raw_of_def align8_add [OF d24])
  have nz: "?nb > 0 \<longleftrightarrow> ?nb * 24 > 0" by (simp add: word_less_nat_alt nb)
  obtain r1 where r1: "(if ?nb > 0 then if bflag then read_data (qmem g) b ?q (?nb * 24) else Some ([], b + ?nb * 24) else Some ([], b)) =
      Some (if bflag then enc_bufs bufs else [], r1)"
    "unat r1 = wrapq (unat ?q) (a + 8 + 24 * length bufs) \<or> unat r1 = a + 8 + 24 * length bufs"
  proof (rule read_opt_data [of "a + 8" b ?q "?nb * 24" "qmem g" "?nb * 24" bflag])
    show "a + 8 + align8 (unat (?nb * 24)) \<le> unat ?q" using d(2) ext nb(2) by simp
  qed (use d nb lies_at_split(1) [OF l] nz that in \<open>auto intro: dvd_add\<close>)
  have ml7: "unat ((?ml + 7) AND NOT 7) = align8 (unat ?ml)" using bl ml by (intro align8_word) simp
  obtain r2 where r2: "(if ?ml > 0 then if mflag then read_data (qmem g) r1 ?q ?ml else Some ([], r1 + ((?ml + 7) AND NOT 7)) else Some ([], r1)) =
      Some (if mflag then msg else [], r2)"
    "unat r2 = wrapq (unat ?q) (a + extent (raw_of seq (f, bufs, msg))) \<or> unat r2 = a + extent (raw_of seq (f, bufs, msg))"
  proof (rule read_opt_data [of "a + 8 + 24 * length bufs" r1 ?q ?ml "qmem g" "(?ml + 7) AND NOT 7" mflag])
    show "8 dvd a + 8 + 24 * length bufs" using d(1) by (intro dvd_add) auto
    show "a + 8 + 24 * length bufs + align8 (unat ?ml) \<le> unat ?q" using d(2) ext ml by simp
  qed (use d r1(2) ml ml7 ext lies_at_split(2) [OF l] that in \<open>auto simp: add.assoc\<close>)
  have le: "unat r2 \<le> unat ?q" using r2(2) d(2) by (auto simp: wrapq_def split: if_splits)
  have "get_body g b ?nb ?ml bflag mflag =
      Some (if bflag then enc_bufs bufs else [], if mflag then msg else [], if r2 \<ge> ?q then 0 else r2)"
    using le unfolding get_body_def r1(1) option.case prod.case r2(1) by (simp add: word_le_nat_alt)
  moreover have "unat (if r2 \<ge> ?q then 0 else r2) = wrapq (unat ?q) (a + extent (raw_of seq (f, bufs, msg)))"
    using wrap_word [OF le] r2(2) by (auto simp: wrapq_def split: if_splits)
  ultimately show ?thesis using that by blast
qed

lemma ring_holds_get:
  assumes h: "ring_holds g ((f, bufs, msg) # ps)"
  obtains qleft hdr b where "get_queue_state_read g = Some (qleft, rpos g, wpos g)" and "\<not> qleft < 8"
    and "peek_locked (qmem g) (rpos g) = Some (Inr (f, num_of bufs, num_of msg, hdr))"
    and "body_pos (qlen g) qleft (rpos g) (packet_len (num_of bufs) (num_of msg)) = Some b"
    and "\<forall>bflag mflag. \<exists>r'. get_body g b (num_of bufs) (num_of msg) bflag mflag =
           Some (if bflag then enc_bufs bufs else [], if mflag then msg else [], r') \<and>
           ring_holds (g\<lparr>rpos := r'\<rparr>) ps"
proof -
  let ?q = "unat (qlen g)" and ?r = "unat (rpos g)" and ?w = "unat (wpos g)"
  obtain raws seq where ok: "ring_ok g" and wfs: "wf_packet (f, bufs, msg)" "list_all wf_packet ps"
    and hr: "holds (qmem g) ?q ?r ?w (raw_of seq (f, bufs, msg) # raws)"
    and l2: "list_all2 (\<lambda>raw p. \<exists>seq. raw = raw_of seq p) raws ps"
    using h by (auto simp: ring_holds_def list_all2_Cons2)
  let ?p = "raw_of seq (f, bufs, msg)" and ?len = "packet_len (num_of bufs) (num_of msg)"
  have G: "geometry ?q ?r ?w" "length (qmem g) = ?q" "?q \<le> 16777216" "8 dvd ?q" "8 dvd ?r" "?r < ?q" "?w < ?q"
    using ok by (auto simp: ring_ok_def geometry_def)
  note H = holds_get [OF G(1) hr]
  let ?a = "source ?q ?r ?p"
  obtain qleft where s: "get_queue_state_read g = Some (qleft, rpos g, wpos g)" and ql: "unat qleft = used_space ?q ?r ?w"
    using state_read [OF ok] by metis
  have r8: "?r + 8 \<le> ?q" using G by (intro dvd8_less) auto
  have pk: "peek_locked (qmem g) (rpos g) = Some (Inr (f, num_of bufs, num_of msg, fst ?p))"
    using wfs(1) r8 G(2) H(1) by (intro peek_header) auto
  have len: "8 + length (snd ?p) = unat ?len" using extent_raw_of(3) [OF wfs(1) refl, of seq] by simp
  have qr: "unat (qlen g - rpos g) = ?q - ?r" using G by (intro unat_minus) simp
  have wrapcase: "?w < ?r \<and> unat ?len \<le> ?w" if "?q - ?r < unat ?len"
  proof -
    from that have a0: "?a = 0" using len by (simp add: source_def)
    have "?r \<noteq> 0"
    proof
      assume "?r = 0"
      with that len a0 H(3) extent_ge(1) [of ?p] show False by simp
    qed
    with a0 H(5) len extent_ge(1) [of ?p] show ?thesis by auto
  qed
  obtain b where b: "body_pos (qlen g) qleft (rpos g) ?len = Some b" "unat b = ?a + 8"
  proof (cases "?q - ?r < unat ?len")
    case True
    have "unat (qleft - (qlen g - rpos g)) = ?w"
      using wrapcase [OF True] ql qr by (subst unat_minus) (auto simp: used_space_def)
    with True wrapcase [OF True] qr len that [of 8] show ?thesis
      by (simp add: body_pos_def word_less_nat_alt word_le_nat_alt source_def)
  next
    case False
    have "unat (rpos g + 8) = ?r + 8" using r8 G(3) by (subst unat_plus) auto
    with False qr len that [of "rpos g + 8"] show ?thesis
      by (simp add: body_pos_def word_less_nat_alt source_def)
  qed
  have a8: "8 dvd ?a" using G by (simp add: source_def)
  have "\<exists>r'. get_body g b (num_of bufs) (num_of msg) bflag mflag =
           Some (if bflag then enc_bufs bufs else [], if mflag then msg else [], r') \<and>
           ring_holds (g\<lparr>rpos := r'\<rparr>) ps" for bflag mflag
  proof -
    obtain r' where r': "get_body g b (num_of bufs) (num_of msg) bflag mflag =
           Some (if bflag then enc_bufs bufs else [], if mflag then msg else [], r')"
      "unat r' = wrapq ?q (?a + extent ?p)"
      using get_body_ok [OF wfs(1) H(2) a8 H(3) G(3,2) b(2)] by metis
    have "ring_holds (g\<lparr>rpos := r'\<rparr>) ps"
      using H(4) geometry_get [OF G(1) hr] r'(2) G(2) wfs(2) l2
      by (auto simp: ring_holds_def ring_ok_def)
    with r'(1) show ?thesis by blast
  qed
  moreover have "\<not> qleft < 8" using H(6) ql by (simp add: word_less_nat_alt)
  ultimately show ?thesis using that s pk b(1) by blast
qed

lemma ring_holds_empty:
  assumes "ring_holds g []"
  shows "get_queue_state_read g = Some (0, rpos g, wpos g)"
proof -
  have ok: "ring_ok g" and h: "holds (qmem g) (unat (qlen g)) (unat (rpos g)) (unat (wpos g)) []"
    using assms by (auto simp: ring_holds_def)
  obtain l where l: "get_queue_state_read g = Some (l, rpos g, wpos g)"
    "unat l = used_space (unat (qlen g)) (unat (rpos g)) (unat (wpos g))" using state_read [OF ok] by metis
  have "unat (rpos g) = unat (wpos g)" using holds_empty_iff [of _ _ _ "qmem g" "[]"] ok h by (auto simp: ring_ok_def)
  with l show ?thesis by (simp add: used_space_def unat_eq_0)
qed

section \<open>The queue interface\<close>

text \<open>What a client of a packet queue relies on: packets come out in the order in which they were accepted, and none
  is lost or invented. \<open>'x\<close> is what a writer stamps a packet with and a reader does not return.\<close>

locale packet_fifo =
  fixes put :: "'x \<Rightarrow> 'p \<Rightarrow> 's \<Rightarrow> 's option"
    and get :: "'s \<Rightarrow> ('p \<times> 's) option"
    and rep :: "'s \<Rightarrow> 'p list \<Rightarrow> bool"
    and valid :: "'p \<Rightarrow> bool"
  assumes put_rep: "rep s ps \<Longrightarrow> valid p \<Longrightarrow> put x p s = Some s' \<Longrightarrow> rep s' (ps @ [p])"
    and get_rep: "rep s (p # ps) \<Longrightarrow> \<exists>s'. get s = Some (p, s') \<and> rep s' ps"
    and get_empty: "rep s [] \<Longrightarrow> get s = None"
begin

text \<open>A schedule: \<open>Some (x, p)\<close> tries to write \<open>p\<close>, \<open>None\<close> tries to read. The result lists the accepted and the read
  packets.\<close>

fun run :: "('x \<times> 'p) option list \<Rightarrow> 's \<Rightarrow> 'p list \<times> 'p list \<times> 's" where
  "run [] s = ([], [], s)"
| "run (Some (x, p) # ops) s =
     (case put x p s of None \<Rightarrow> run ops s
      | Some s' \<Rightarrow> (case run ops s' of (acc, out, s'') \<Rightarrow> (p # acc, out, s'')))"
| "run (None # ops) s =
     (case get s of None \<Rightarrow> run ops s
      | Some (p, s') \<Rightarrow> (case run ops s' of (acc, out, s'') \<Rightarrow> (acc, p # out, s'')))"

theorem fifo:
  assumes "rep s ps" "run ops s = (acc, out, s')" "\<And>x p. Some (x, p) \<in> set ops \<Longrightarrow> valid p"
  shows "\<exists>rest. ps @ acc = out @ rest \<and> rep s' rest"
  using assms
proof (induction ops s arbitrary: ps acc out s' rule: run.induct)
  case (1 s)
  then show ?case by auto
next
  case (2 x p ops s)
  show ?case
  proof (cases "put x p s")
    case None
    then have r: "run ops s = (acc, out, s')" using "2.prems"(2) by simp
    show ?thesis by (rule "2.IH"(1) [OF None "2.prems"(1) r]) (use "2.prems"(3) in auto)
  next
    case (Some s1)
    obtain acc1 out1 s2 where r: "run ops s1 = (acc1, out1, s2)" by (metis surj_pair)
    have "rep s1 (ps @ [p])" using put_rep [OF "2.prems"(1) _ Some] "2.prems"(3) by auto
    from "2.IH"(2) [OF Some this r] "2.prems" Some r show ?thesis by auto
  qed
next
  case (3 ops s)
  show ?case
  proof (cases ps)
    case Nil
    then have n: "get s = None" using get_empty "3.prems"(1) by simp
    then have r: "run ops s = (acc, out, s')" using "3.prems"(2) by simp
    show ?thesis by (rule "3.IH"(1) [OF n "3.prems"(1) r]) (use "3.prems"(3) in auto)
  next
    case (Cons p qs)
    then obtain s1 where g: "get s = Some (p, s1)" "rep s1 qs" using get_rep "3.prems"(1) by blast
    obtain acc1 out1 s2 where r: "run ops s1 = (acc1, out1, s2)" by (metis surj_pair)
    from "3.IH"(2) [OF g(1) refl g(2) r] "3.prems" Cons g r show ?thesis by auto
  qed
qed

end

text \<open>The code's steps put together: space check, packet, write position; header, data, read position.\<close>

definition ring_put :: "u16 \<Rightarrow> packet \<Rightarrow> ring \<Rightarrow> ring option" where
  "ring_put seq p g =
     (case p of (f, bufs, msg) \<Rightarrow>
        let len = packet_len (num_of bufs) (num_of msg); alen = (len + 7) AND NOT 7
        in if alen > qlen g - 8 then None
           else case space_for g alen of
                  Some (Some (w, wrap)) \<Rightarrow>
                    (case put_packet g w wrap (packet_header len f (num_of bufs) seq) (enc_bufs bufs) msg of
                       Some (mem, w') \<Rightarrow> Some (g\<lparr>qmem := mem, wpos := w'\<rparr>) | None \<Rightarrow> None)
                | _ \<Rightarrow> None)"

definition ring_get :: "ring \<Rightarrow> (packet \<times> ring) option" where
  "ring_get g =
     (case get_queue_state_read g of
        None \<Rightarrow> None
      | Some (qleft, r, w) \<Rightarrow>
          if qleft < 8 then None
          else case peek_locked (qmem g) r of
                 Some (Inr (f, nb, ml, hdr)) \<Rightarrow>
                   (case body_pos (qlen g) qleft r (packet_len nb ml) of
                      None \<Rightarrow> None
                    | Some b \<Rightarrow>
                        (case get_body g b nb ml True True of
                           None \<Rightarrow> None
                         | Some (bs, ms, r') \<Rightarrow> Some ((f, dec_bufs (unat nb) bs, ms), g\<lparr>rpos := r'\<rparr>)))
               | _ \<Rightarrow> None)"

interpretation rf: packet_fifo ring_put ring_get ring_holds wf_packet
proof
  fix s ps p x s'
  assume h: "ring_holds s ps" "wf_packet p" and put: "ring_put x p s = Some s'"
  obtain f bufs msg where p: "p = (f, bufs, msg)" by (metis surj_pair)
  let ?len = "packet_len (num_of bufs) (num_of msg)"
  let ?alen = "(?len + 7) AND NOT 7"
  obtain w wrap where a: "\<not> ?alen > qlen s - 8" "space_for s ?alen = Some (Some (w, wrap))"
    using put p by (auto simp: ring_put_def Let_def split: if_splits option.splits)
  show "ring_holds s' (ps @ [p])"
    using ring_holds_put [OF h(1), of f bufs msg ?len ?alen w wrap _ x] h(2) put p a
    by (auto simp: ring_put_def Let_def split: if_splits)
next
  fix s p ps
  assume h: "ring_holds s (p # ps)"
  obtain f bufs msg where p: "p = (f, bufs, msg)" by (metis surj_pair)
  from h p have h': "ring_holds s ((f, bufs, msg) # ps)" by simp
  have "length bufs \<le> 64" using h' by (simp add: ring_holds_def wf_packet_def)
  then have n: "unat (num_of bufs) = length bufs" by (simp add: unat_num_of)
  obtain qleft hdr b where g: "get_queue_state_read s = Some (qleft, rpos s, wpos s)" "\<not> qleft < 8"
    "peek_locked (qmem s) (rpos s) = Some (Inr (f, num_of bufs, num_of msg, hdr))"
    "body_pos (qlen s) qleft (rpos s) (packet_len (num_of bufs) (num_of msg)) = Some b"
    and B: "\<forall>bflag mflag. \<exists>r'. get_body s b (num_of bufs) (num_of msg) bflag mflag =
           Some (if bflag then enc_bufs bufs else [], if mflag then msg else [], r') \<and>
           ring_holds (s\<lparr>rpos := r'\<rparr>) ps"
    using ring_holds_get [OF h'] by blast
  obtain r' where "get_body s b (num_of bufs) (num_of msg) True True = Some (enc_bufs bufs, msg, r')"
    "ring_holds (s\<lparr>rpos := r'\<rparr>) ps"
    using B [rule_format, of True True] by auto
  with g p n show "\<exists>s'. ring_get s = Some (p, s') \<and> ring_holds s' ps" by (simp add: ring_get_def)
next
  fix s
  assume "ring_holds s []"
  then show "ring_get s = None" using ring_holds_empty by (simp add: ring_get_def)
qed

end
