(* ===== verification/DspSignal.thy ===== *)
theory DspSignal
  imports Session
begin

text \<open>
  \<^verbatim>\<open>src/dspsignal.c\<close>: the table of the domains' signalling devices, and the calls to the driver, which
  \<^verbatim>\<open>src/fastrpc_ioctl.c\<close> answers without asking it. A dereference of the null pointer \<^verbatim>\<open>signals\<close> is the
  outcome \<open>None\<close>.
\<close>

abbreviation (input) DSPSIGNAL_NUM_SIGNALS :: u32 where "DSPSIGNAL_NUM_SIGNALS \<equiv> 1024"
abbreviation (input) DSPSIGNAL_TIMEOUT_NONE :: u32 where "DSPSIGNAL_TIMEOUT_NONE \<equiv> 0xFFFFFFFF"

definition ioctl_signal_create :: "int \<Rightarrow> u32 \<Rightarrow> u32 \<Rightarrow> int" where
  "ioctl_signal_create dv sig flags = AEE_EUNSUPPORTED"

definition ioctl_signal_destroy :: "int \<Rightarrow> u32 \<Rightarrow> int" where
  "ioctl_signal_destroy dv sig = AEE_EUNSUPPORTED"

definition ioctl_signal_signal :: "int \<Rightarrow> u32 \<Rightarrow> int" where
  "ioctl_signal_signal dv sig = AEE_EUNSUPPORTED"

definition ioctl_signal_wait :: "int \<Rightarrow> u32 \<Rightarrow> u32 \<Rightarrow> int" where
  "ioctl_signal_wait dv sig timeout_usec = AEE_EUNSUPPORTED"

definition ioctl_signal_cancel_wait :: "int \<Rightarrow> u32 \<Rightarrow> int" where
  "ioctl_signal_cancel_wait dv sig = AEE_EUNSUPPORTED"

text \<open>\<open>signals\<close>: the table, per domain the device; \<open>signals_once\<close>: whether the one-time initialisation ran.\<close>

record sigst =
  signals :: "(int \<Rightarrow> int option) option"
  signals_once :: bool

definition init_process_signals_once :: "bool \<Rightarrow> sigst \<Rightarrow> sigst" where
  "init_process_signals_once alloc s =
     (if signals_once s then s
      else s\<lparr>signals := (if alloc then Some (\<lambda>_. None) else None), signals_once := True\<rparr>)"

definition deinit_process_signals :: "sigst \<Rightarrow> sigst" where
  "deinit_process_signals s = s\<lparr>signals := None\<rparr>"

text \<open>\<open>alloc\<close>, \<open>alloc_ds\<close>: whether the two allocations succeed. The result \<open>-1\<close> for an invalid domain is that of
  \<^verbatim>\<open>VERIFY\<close>; the jump to \<^verbatim>\<open>bail\<close> then unlocks a mutex that was not locked (or does not exist: \<open>None\<close>).\<close>

definition init_domain_signals :: "bool \<Rightarrow> bool \<Rightarrow> session \<Rightarrow> int \<Rightarrow> sigst \<Rightarrow> (int \<times> sigst) option" where
  "init_domain_signals alloc alloc_ds ses domain s =
     (if \<not> IS_VALID_EFFECTIVE_DOMAIN_ID domain then (if signals s = None then None else Some (-1, s))
      else let s = init_process_signals_once alloc s
           in case signals s of
                None \<Rightarrow> Some (AEE_ERPC, s)
              | Some tab \<Rightarrow>
                  (case tab domain of
                     Some dv \<Rightarrow> Some (AEE_SUCCESS, s)
                   | None \<Rightarrow>
                       if \<not> alloc_ds then Some (AEE_ENOMEMORY, s)
                       else case fastrpc_session_dev domain ses of (nErr, dv) \<Rightarrow>
                              if nErr \<noteq> 0 then Some (nErr, s)
                              else if dv = -1 then Some (AEE_ERPC, s)
                              else Some (AEE_SUCCESS, s\<lparr>signals := Some (tab(domain \<mapsto> dv))\<rparr>)))"

definition get_domain :: "int \<Rightarrow> session \<Rightarrow> int \<Rightarrow> int" where
  "get_domain default_domain_id ses domain =
     (if domain = -1 then get_current_domain default_domain_id ses else domain)"

definition dspsignal_domain_deinit :: "int \<Rightarrow> sigst \<Rightarrow> sigst" where
  "dspsignal_domain_deinit domain s =
     (case signals s of
        None \<Rightarrow> s
      | Some tab \<Rightarrow> if \<not> IS_VALID_EFFECTIVE_DOMAIN_ID domain then s
                    else s\<lparr>signals := Some (tab(domain := None))\<rparr>)"

definition dspsignal_create ::
  "bool \<Rightarrow> bool \<Rightarrow> int \<Rightarrow> session \<Rightarrow> int \<Rightarrow> u32 \<Rightarrow> u32 \<Rightarrow> sigst \<Rightarrow> (int \<times> sigst) option" where
  "dspsignal_create alloc alloc_ds default_domain_id ses domain sid flags s =
     (let domain' = get_domain default_domain_id ses domain
      in if \<not> sid < DSPSIGNAL_NUM_SIGNALS then Some (AEE_EBADPARM, s)
         else if flags \<noteq> 0 then Some (AEE_EBADPARM, s)
         else if \<not> IS_VALID_EFFECTIVE_DOMAIN_ID domain' then Some (AEE_EBADPARM, s)
         else case init_domain_signals alloc alloc_ds ses domain' s of
                None \<Rightarrow> None
              | Some (nErr, s) \<Rightarrow>
                  if nErr \<noteq> 0 then Some (nErr, s)
                  else case signals s of
                    None \<Rightarrow> None
                  | Some tab \<Rightarrow>
                      (case tab domain' of
                         None \<Rightarrow> Some (AEE_EBADSTATE, s)
                       | Some dv \<Rightarrow>
                           let nErr = ioctl_signal_create dv sid flags
                           in Some (if nErr \<noteq> 0 then convert_kernel_to_user_error nErr 0 else 0, s)))"

text \<open>The other four calls have one shape: check the signal and the domain, find the device, ask the driver
  with \<^verbatim>\<open>errno\<close> cleared, translate its error.\<close>

definition with_device :: "int \<Rightarrow> session \<Rightarrow> int \<Rightarrow> u32 \<Rightarrow> (int \<Rightarrow> int) \<Rightarrow> sigst \<Rightarrow> int option" where
  "with_device default_domain_id ses domain sid request s =
     (let domain' = get_domain default_domain_id ses domain
      in if \<not> sid < DSPSIGNAL_NUM_SIGNALS then Some AEE_EBADPARM
         else if \<not> IS_VALID_EFFECTIVE_DOMAIN_ID domain' then Some AEE_EBADPARM
         else case signals s of
                None \<Rightarrow> None
              | Some tab \<Rightarrow>
                  (case tab domain' of
                     None \<Rightarrow> Some AEE_EBADSTATE
                   | Some dv \<Rightarrow> let nErr = request dv
                                in Some (if nErr \<noteq> 0 then convert_kernel_to_user_error nErr 0 else 0)))"

definition dspsignal_destroy :: "int \<Rightarrow> session \<Rightarrow> int \<Rightarrow> u32 \<Rightarrow> sigst \<Rightarrow> int option" where
  "dspsignal_destroy dflt ses domain sid s = with_device dflt ses domain sid (\<lambda>dv. ioctl_signal_destroy dv sid) s"

definition dspsignal_signal :: "int \<Rightarrow> session \<Rightarrow> int \<Rightarrow> u32 \<Rightarrow> sigst \<Rightarrow> int option" where
  "dspsignal_signal dflt ses domain sid s = with_device dflt ses domain sid (\<lambda>dv. ioctl_signal_signal dv sid) s"

definition dspsignal_wait :: "int \<Rightarrow> session \<Rightarrow> int \<Rightarrow> u32 \<Rightarrow> u32 \<Rightarrow> sigst \<Rightarrow> int option" where
  "dspsignal_wait dflt ses domain sid timeout s =
     with_device dflt ses domain sid (\<lambda>dv. ioctl_signal_wait dv sid timeout) s"

definition dspsignal_cancel_wait :: "int \<Rightarrow> session \<Rightarrow> int \<Rightarrow> u32 \<Rightarrow> sigst \<Rightarrow> int option" where
  "dspsignal_cancel_wait dflt ses domain sid s =
     with_device dflt ses domain sid (\<lambda>dv. ioctl_signal_cancel_wait dv sid) s"

section \<open>Lemmas\<close>

lemma with_device_error:
  assumes "with_device dflt ses domain sid request s = Some e" "\<And>dv. request dv = AEE_EUNSUPPORTED"
  shows "e \<noteq> 0"
  using assms by (auto simp: with_device_def convert_kernel_to_user_error_def Let_def split: if_splits option.splits)

text \<open>In this build no signal can be created. When the arguments are valid and the domain has a session,
  \<^verbatim>\<open>dspsignal_create\<close> returns \<^verbatim>\<open>AEE_EUNSUPPORTED\<close>, the error on which the queue library falls back to its own
  signalling. The domain's device is then recorded in the table, and no other domain's entry has changed.\<close>

theorem dspsignal_create_unsupported:
  assumes "IS_VALID_EFFECTIVE_DOMAIN_ID domain" "sid < DSPSIGNAL_NUM_SIGNALS" "fastrpc_session_dev domain ses = (0, dv)" "dv \<ge> 0"
    and "signals_once s \<longrightarrow> signals s \<noteq> None" and "\<not> signals_once s \<longrightarrow> signals s = None"
  shows "\<exists>s' tab dv'. dspsignal_create True True dflt ses domain sid 0 s = Some (AEE_EUNSUPPORTED, s') \<and>
    signals s' = Some tab \<and> tab domain = Some dv' \<and>
    (\<forall>d. d \<noteq> domain \<longrightarrow> tab d = (case signals s of None \<Rightarrow> None | Some t \<Rightarrow> t d))"
proof -
  have "domain \<noteq> -1" using assms(1) by (auto simp: IS_VALID_EFFECTIVE_DOMAIN_ID_def)
  with assms show ?thesis
    by (auto simp: dspsignal_create_def get_domain_def init_domain_signals_def init_process_signals_once_def
        ioctl_signal_create_def convert_kernel_to_user_error_def Let_def split: option.splits)
qed

theorem dspsignal_create_unsupported_witness:
  "let ses = \<lparr>hlist = Some (\<lambda>_. \<lparr>state = FASTRPC_DOMAIN_STATE_INIT, ref = 1, dev = 7\<rparr>), tlsKey = True,
              tls = None, init_err = 0\<rparr>
   in \<exists>s'. dspsignal_create True True 3 ses 3 5 0 \<lparr>signals = None, signals_once = False\<rparr> = Some (AEE_EUNSUPPORTED, s')"
proof -
  let ?ses = "\<lparr>hlist = Some (\<lambda>_. \<lparr>state = FASTRPC_DOMAIN_STATE_INIT, ref = 1, dev = 7\<rparr>), tlsKey = True,
               tls = None, init_err = 0\<rparr>"
  have "fastrpc_session_dev 3 ?ses = (0, 7)" "IS_VALID_EFFECTIVE_DOMAIN_ID 3"
    by (simp_all add: fastrpc_session_dev_def IS_VALID_EFFECTIVE_DOMAIN_ID_def)
  then show ?thesis
    using dspsignal_create_unsupported [of 3 5 ?ses 7 "\<lparr>signals = None, signals_once = False\<rparr>" 3]
    by (auto simp: Let_def)
qed

end
