(* ===== verification/DspQueue.thy ===== *)
theory DspQueue
  imports PacketRing MemProps DspSignal
begin

text \<open>
  The packet operations of \<^verbatim>\<open>src/dspqueue/dspqueue_cpu.c\<close> on one queue and on a multi-domain queue: writing,
  peeking, reading, early wakeup, signalling and statistics. A queue has a request ring, which this side writes,
  and a response ring, which it reads; the other side (the DSP) is not part of the repository. The memory module's
  state (for the buffer references of a packet) and the signalling state are shared by all queues.
\<close>

section \<open>State\<close>

text \<open>Outcome of an operation: a result, a failed assertion or invalid access, or still waiting when the given
  events of the environment are used up.\<close>

datatype 'a outcome = Done 'a | Fault | Blocked

record dspqueue =
  q_id :: u32
  q_domain :: int
  req :: ring
  req_rd_count :: u32
  req_wr_count :: u32
  req_rd_wait :: u32
  req_wr_wait :: u32
  resp :: ring
  resp_rd_count :: u32
  resp_wr_count :: u32
  resp_rd_wait :: u32
  resp_wr_wait :: u32
  hdr_queue_count :: u32
  queue_count :: u32
  seq_no :: u16
  read_packet_count :: u32
  write_packet_count :: u32
  req_packet_count :: u32
  req_space_count :: u32
  resp_packet_count :: u32
  resp_space_count :: u32
  packet_mask :: u32
  space_mask :: u32
  st_req_packet_count :: u32
  st_resp_space_count :: u32
  early_wakeup_wait :: u64
  early_wakeup_misses :: u32
  have_wait_counts :: bool
  have_driver_signaling :: bool

record world =
  w_mem :: memst
  w_sig :: sigst
  w_send_mask :: "int \<Rightarrow> u32"
  w_default_domain :: int

abbreviation (input) DSPQUEUE_MAX_BUFFERS :: u32 where "DSPQUEUE_MAX_BUFFERS \<equiv> 64"
abbreviation (input) DSPQUEUE_MAX_MESSAGE_SIZE :: u32 where "DSPQUEUE_MAX_MESSAGE_SIZE \<equiv> 65536"
abbreviation (input) BUFFER_REF :: u32 where "BUFFER_REF \<equiv> 4"
abbreviation (input) BUFFER_DEREF :: u32 where "BUFFER_DEREF \<equiv> 8"
abbreviation (input) DSPQUEUE_NUM_SIGNALS :: u32 where "DSPQUEUE_NUM_SIGNALS \<equiv> 4"
abbreviation (input) SIGNAL_REQ_PACKET :: u32 where "SIGNAL_REQ_PACKET \<equiv> 0"
abbreviation (input) SIGNAL_REQ_SPACE :: u32 where "SIGNAL_REQ_SPACE \<equiv> 1"
abbreviation (input) SIGNAL_RESP_PACKET :: u32 where "SIGNAL_RESP_PACKET \<equiv> 2"
abbreviation (input) SIGNAL_RESP_SPACE :: u32 where "SIGNAL_RESP_SPACE \<equiv> 3"

section \<open>Signals\<close>

definition QUEUE_SIGNAL :: "u32 \<Rightarrow> u32 \<Rightarrow> u32" where
  "QUEUE_SIGNAL queue_id signal_no = DSPQUEUE_NUM_SIGNALS * queue_id + signal_no"

definition send_signal :: "dspqueue \<Rightarrow> u32 \<Rightarrow> world \<Rightarrow> (int \<times> world) option" where
  "send_signal q signal_no w =
     (if have_driver_signaling q
      then if \<not> signal_no < DSPQUEUE_NUM_SIGNALS then Some (AEE_EBADPARM, w)
           else case dspsignal_signal (w_default_domain w) (sess (w_mem w)) (q_domain q)
                       (QUEUE_SIGNAL (q_id q) signal_no) (w_sig w) of
                  None \<Rightarrow> None | Some nErr \<Rightarrow> Some (nErr, w)
      else Some (0, w\<lparr>w_send_mask := (w_send_mask w)(q_domain q := w_send_mask w (q_domain q) OR 1)\<rparr>))"

text \<open>With wait counts the other side is signalled only when it may be waiting.\<close>

definition notify :: "dspqueue \<Rightarrow> u32 \<Rightarrow> u32 \<Rightarrow> world \<Rightarrow> (int \<times> world) option" where
  "notify q wait_count signal_no w =
     (if have_wait_counts q \<and> wait_count = 0 then Some (0, w) else send_signal q signal_no w)"

section \<open>Buffer references of a packet\<close>

definition ref_change :: "dspqueue_buffer \<Rightarrow> int" where
  "ref_change b =
     (if b_flags b AND BUFFER_REF \<noteq> 0 then 1 else if b_flags b AND BUFFER_DEREF \<noteq> 0 then -1 else 0)"

text \<open>The loop over the buffers, in \<^verbatim>\<open>dspqueue_write_noblock\<close> and \<^verbatim>\<open>dspqueue_read_noblock\<close>; \<open>bad\<close> is the error for a range
  outside the mapping. Returns the error, \<^verbatim>\<open>buf_refs\<close>, the buffers as the reader fills them in, and the memory
  state.\<close>

fun ref_buffers ::
  "int \<Rightarrow> int \<Rightarrow> nat \<Rightarrow> dspqueue_buffer list \<Rightarrow> memst \<Rightarrow> int \<times> nat \<times> dspqueue_buffer list \<times> memst" where
  "ref_buffers domain bad i [] m = (0, i, [], m)"
| "ref_buffers domain bad i (b # bs) m =
     (if b_flags b AND BUFFER_REF \<noteq> 0 \<and> b_flags b AND BUFFER_DEREF \<noteq> 0 then (AEE_EBADPARM, i, b # bs, m)
      else case fastrpc_buffer_ref domain (sint (b_fd b)) (ref_change b) m of ((nErr, out), m') \<Rightarrow>
        if nErr \<noteq> 0 then (nErr, i, b # bs, m')
        else let (va, sz) = (case out of Some x \<Rightarrow> x | None \<Rightarrow> (0, 0))
             in if b_size b \<noteq> 0
                then if \<not> (ucast (b_offset b) + ucast (b_size b) :: u64) \<le> sz then (bad, Suc i, b # bs, m')
                     else let b' = b\<lparr>b_ptr := va + ucast (b_offset b)\<rparr>
                          in case ref_buffers domain bad (Suc i) bs m' of
                               (e, n, bs', m'') \<Rightarrow> (e, n, b' # bs', m'')
                else if b_offset b \<noteq> 0 then (bad, Suc i, b # bs, m')
                     else let b' = b\<lparr>b_ptr := va, b_size := ucast sz\<rparr>
                          in case ref_buffers domain bad (Suc i) bs m' of
                               (e, n, bs', m'') \<Rightarrow> (e, n, b' # bs', m''))"

text \<open>The loop at \<^verbatim>\<open>bail\<close>, over the buffers done so far, from the first. The error of the last call is returned,
  \<open>e\<close> when there was none.\<close>

fun undo_buffers :: "int \<Rightarrow> int \<Rightarrow> dspqueue_buffer list \<Rightarrow> memst \<Rightarrow> int \<times> memst" where
  "undo_buffers domain e [] m = (e, m)"
| "undo_buffers domain e (b # bs) m =
     (if ref_change b = 0 then undo_buffers domain e bs m
      else case fastrpc_buffer_ref domain (sint (b_fd b)) (- ref_change b) m of ((e', out), m') \<Rightarrow>
             undo_buffers domain e' bs m')"

section \<open>Writing\<close>

text \<open>\<open>buffers\<close> and \<open>message\<close> are \<open>None\<close> for a null pointer; otherwise \<open>num_buffers\<close> and \<open>message_length\<close> say how much of the
  arrays is used.\<close>

definition write_noblock1 ::
  "u32 \<Rightarrow> u32 \<Rightarrow> dspqueue_buffer list option \<Rightarrow> u32 \<Rightarrow> byte list option \<Rightarrow> dspqueue \<Rightarrow> world
     \<Rightarrow> (int \<times> dspqueue \<times> world) outcome" where
  "write_noblock1 flags num_buffers buffers message_length message q w =
     (let qsize = qlen (req q);
          flags1 = (if num_buffers > 0 then flags OR FLAG_BUFFERS else flags AND NOT FLAG_BUFFERS);
          flags2 = (if message_length > 0 then flags1 OR FLAG_MESSAGE else flags1 AND NOT FLAG_MESSAGE);
          bufs = (case buffers of Some bs \<Rightarrow> take (unat num_buffers) bs | None \<Rightarrow> []);
          msg = (case message of Some ms \<Rightarrow> take (unat message_length) ms | None \<Rightarrow> []);
          len = packet_len num_buffers message_length;
          alen = (len + 7) AND NOT 7
      in if \<not> num_buffers \<le> DSPQUEUE_MAX_BUFFERS then Done (AEE_EBADPARM, q, w)
         else if \<not> message_length \<le> DSPQUEUE_MAX_MESSAGE_SIZE then Done (AEE_EBADPARM, q, w)
         else if num_buffers > 0 \<and> buffers = None then Done (AEE_EBADPARM, q, w)
         else if message_length > 0 \<and> message = None then Done (AEE_EBADPARM, q, w)
         else if alen > qsize - 8 then Done (AEE_EBADPARM, q, w)
         else if hdr_queue_count q \<noteq> queue_count q then Done (AEE_ERPC, q, w)
         else case space_for (req q) alen of
                None \<Rightarrow> Fault
              | Some None \<Rightarrow> Done (AEE_EWOULDBLOCK, q, w)
              | Some (Some (wp, wrap)) \<Rightarrow>
                  (case ref_buffers (q_domain q) AEE_EBADPARM 0 bufs (w_mem w) of (nErr, buf_refs, _, m) \<Rightarrow>
                     let undo = (\<lambda>nErr q n w. Done (nErr, q,
                           w\<lparr>w_mem := snd (undo_buffers (q_domain q) 0 (take n bufs) (w_mem w))\<rparr>))
                     in if nErr \<noteq> 0 then undo nErr q buf_refs (w\<lparr>w_mem := m\<rparr>)
                        else let phdr = packet_header len (flags2 OR FLAG_USER_READY) num_buffers (seq_no q)
                             in case put_packet (req q) wp wrap phdr (enc_bufs bufs) msg of
                                  None \<Rightarrow> Fault
                                | Some (mem, wp') \<Rightarrow>
                                    let q = q\<lparr>req := (req q)\<lparr>qmem := mem, wpos := wp'\<rparr>,
                                              write_packet_count := write_packet_count q + 1,
                                              req_wr_count := write_packet_count q + 1,
                                              req_packet_count := req_packet_count q + 1,
                                              st_req_packet_count := req_packet_count q + 1\<rparr>
                                    in case notify q (req_rd_wait q) SIGNAL_REQ_PACKET (w\<lparr>w_mem := m\<rparr>) of
                                         None \<Rightarrow> Fault
                                       | Some (nErr, w) \<Rightarrow>
                                           if nErr \<noteq> 0 then undo nErr q buf_refs w
                                           else Done (0, q\<lparr>seq_no := seq_no q + 1\<rparr>, w)))"

text \<open>A queue handle: one queue, or the queues of a multi-domain queue.\<close>

datatype queue = Single dspqueue | Multi "dspqueue list"

fun multidomain_write ::
  "(dspqueue \<Rightarrow> world \<Rightarrow> (int \<times> dspqueue \<times> world) outcome) \<Rightarrow> dspqueue list \<Rightarrow> world
     \<Rightarrow> (int \<times> dspqueue list \<times> world) outcome" where
  "multidomain_write wr [] w = Done (0, [], w)"
| "multidomain_write wr (q # qs) w =
     (case wr q w of
        Fault \<Rightarrow> Fault | Blocked \<Rightarrow> Blocked
      | Done (nErr, q', w') \<Rightarrow>
          if nErr \<noteq> 0 then Done (AEE_EBADSTATE, q' # qs, w')
          else case multidomain_write wr qs w' of
                 Fault \<Rightarrow> Fault | Blocked \<Rightarrow> Blocked | Done (e, qs', w'') \<Rightarrow> Done (e, q' # qs', w''))"

definition dspqueue_write_noblock ::
  "u32 \<Rightarrow> u32 \<Rightarrow> dspqueue_buffer list option \<Rightarrow> u32 \<Rightarrow> byte list option \<Rightarrow> queue \<Rightarrow> world
     \<Rightarrow> (int \<times> queue \<times> world) outcome" where
  "dspqueue_write_noblock flags nb bufs ml msg q w =
     (case q of
        Single q \<Rightarrow> (case write_noblock1 flags nb bufs ml msg q w of
                       Done (e, q', w') \<Rightarrow> Done (e, Single q', w') | Fault \<Rightarrow> Fault | Blocked \<Rightarrow> Blocked)
      | Multi qs \<Rightarrow> (case multidomain_write (write_noblock1 flags nb bufs ml msg) qs w of
                       Done (e, qs', w') \<Rightarrow> Done (e, Multi qs', w') | Fault \<Rightarrow> Fault | Blocked \<Rightarrow> Blocked))"

definition dspqueue_write_early_wakeup_noblock ::
  "u32 \<Rightarrow> u32 \<Rightarrow> queue \<Rightarrow> world \<Rightarrow> (int \<times> queue \<times> world) outcome" where
  "dspqueue_write_early_wakeup_noblock wakeup_delay packet_flags q w =
     (let flags = packet_flags OR FLAG_WAKEUP
      in if wakeup_delay \<noteq> 0
         then dspqueue_write_noblock flags 0 None 4 (Some (le_bytes 4 wakeup_delay)) q w
         else dspqueue_write_noblock flags 0 None 0 None q w)"

section \<open>Peeking and reading\<close>

definition peek_noblock1 :: "dspqueue \<Rightarrow> (int \<times> (u32 \<times> u32 \<times> u32) option) outcome" where
  "peek_noblock1 q =
     (case get_queue_state_read (resp q) of
        None \<Rightarrow> Fault
      | Some (qleft, r, _) \<Rightarrow>
          if qleft < 8 then Done (AEE_EWOULDBLOCK, None)
          else case peek_locked (qmem (resp q)) r of
                 None \<Rightarrow> Fault
               | Some (Inl nErr) \<Rightarrow> Done (nErr, None)
               | Some (Inr (f, nb, ml, hdr)) \<Rightarrow> Done (0, Some (f, nb, ml)))"

text \<open>What the environment does during the wait of an early wakeup packet: the first clock reading, then for every
  turn of the loop a clock reading and the response ring as the loop finds it (\<open>None\<close>: the clock fails).\<close>

record polls =
  t_start :: "u64 option"
  turns :: "(u64 option \<times> ring) list"

abbreviation (input) DEFAULT_EARLY_WAKEUP_WAIT :: u32 where "DEFAULT_EARLY_WAKEUP_WAIT \<equiv> 1000"
abbreviation (input) MAX_EARLY_WAKEUP_WAIT :: u32 where "MAX_EARLY_WAKEUP_WAIT \<equiv> 2500"

text \<open>The loop: an error, or the number of data bytes and the read position it ends with.\<close>

fun wakeup_wait ::
  "u64 \<Rightarrow> u32 \<Rightarrow> (u64 option \<times> ring) list \<Rightarrow> dspqueue \<Rightarrow> ((int + u32 \<times> u32) \<times> dspqueue) outcome" where
  "wakeup_wait t1 waittime [] q = Blocked"
| "wakeup_wait t1 waittime ((None, g) # ts) q = Done (Inl (-1), q)"
| "wakeup_wait t1 waittime ((Some t2, g) # ts) q =
     (let q = q\<lparr>resp := g\<rparr>
      in case get_queue_state_read g of
           None \<Rightarrow> Fault
         | Some (qleft, r, _) \<Rightarrow>
             if qleft \<ge> 8
             then Done (Inr (qleft, r),
                        if t2 \<noteq> 0 then q\<lparr>early_wakeup_wait := early_wakeup_wait q + (t2 - t1)\<rparr> else q)
             else if t1 + ucast waittime > t2 then wakeup_wait t1 waittime ts q
             else Done (Inl AEE_EWOULDBLOCK,
                        q\<lparr>early_wakeup_wait := early_wakeup_wait q + (t2 - t1),
                          early_wakeup_misses := early_wakeup_misses q + 1\<rparr>))"

text \<open>Consuming a packet: counts and read position, then the signal.\<close>

definition consume :: "u32 \<Rightarrow> dspqueue \<Rightarrow> world \<Rightarrow> (int \<times> dspqueue \<times> world) option" where
  "consume r q w =
     (let q = q\<lparr>read_packet_count := read_packet_count q + 1, resp := (resp q)\<lparr>rpos := r\<rparr>,
                resp_rd_count := read_packet_count q + 1, resp_space_count := resp_space_count q + 1,
                st_resp_space_count := resp_space_count q + 1\<rparr>
      in case notify q (resp_wr_wait q) SIGNAL_RESP_SPACE w of
           None \<Rightarrow> None | Some (nErr, w') \<Rightarrow> Some (nErr, q, w'))"

text \<open>The early wakeup branch of \<^verbatim>\<open>dspqueue_read_noblock\<close>: it consumes the packet, waits for the next one and returns
  that packet's header, or the error to return.\<close>

definition early_wakeup ::
  "polls \<Rightarrow> u32 \<Rightarrow> u32 \<Rightarrow> u32 \<Rightarrow> u32 \<Rightarrow> dspqueue \<Rightarrow> world
     \<Rightarrow> ((int + (u32 \<times> u32 \<times> u32) \<times> u32 \<times> u32) \<times> dspqueue \<times> world) outcome" where
  "early_wakeup ps qleft r num_b msg_l q w =
     (if num_b \<noteq> 0 then Done (Inl AEE_ERPC, q, w)
      else case body_pos (qlen (resp q)) qleft r (8 + msg_l) of
        None \<Rightarrow> Fault
      | Some r \<Rightarrow>
          if msg_l > 0 \<and> msg_l \<noteq> 4 then Done (Inl AEE_EBADITEM, q, w)
          else case (if msg_l > 0 then read_data (qmem (resp q)) r (qlen (resp q)) 4 else Some (le_bytes 4 (0 :: u32), r)) of
            None \<Rightarrow> Fault
          | Some (bytes, r) \<Rightarrow>
              let wakeup = le_word bytes :: u32;
                  waittime = (if wakeup > MAX_EARLY_WAKEUP_WAIT then MAX_EARLY_WAKEUP_WAIT
                              else if wakeup \<noteq> 0 then wakeup else DEFAULT_EARLY_WAKEUP_WAIT)
              in case consume r q w of
                   None \<Rightarrow> Fault
                 | Some (nErr, q, w) \<Rightarrow>
                     if nErr \<noteq> 0 then Done (Inl nErr, q, w)
                     else case get_queue_state_read (resp q) of
                       None \<Rightarrow> Fault
                     | Some (qleft, r, _) \<Rightarrow>
                         let next = (\<lambda>qleft r q.
                               case peek_locked (qmem (resp q)) r of
                                 None \<Rightarrow> Fault
                               | Some (Inl e) \<Rightarrow> Done (Inl e, q, w)
                               | Some (Inr (f, nb, ml, hdr)) \<Rightarrow> Done (Inr ((f, nb, ml), qleft, r), q, w))
                         in if qleft \<ge> 8 then next qleft r q
                            else case t_start ps of
                              None \<Rightarrow> Done (Inl (-1), q, w)
                            | Some t1 \<Rightarrow>
                                (case wakeup_wait t1 waittime (turns ps) q of
                                   Fault \<Rightarrow> Fault | Blocked \<Rightarrow> Blocked
                                 | Done (Inl e, q) \<Rightarrow> Done (Inl e, q, w)
                                 | Done (Inr (qleft, r), q) \<Rightarrow> next qleft r q))"

text \<open>The rest of the function, from the check of the client's space on: \<open>buffers\<close> and \<open>message\<close> tell whether the output
  pointers are given. The output is flags, buffers and message, once they are read. At \<^verbatim>\<open>bail\<close> the error code
  is overwritten by the result of undoing a buffer reference.\<close>

type_synonym read_out = "u32 \<times> u32 \<times> dspqueue_buffer list \<times> u32 \<times> byte list"

definition read_packet ::
  "u32 \<Rightarrow> bool \<Rightarrow> u32 \<Rightarrow> bool \<Rightarrow> u32 \<times> u32 \<times> u32 \<Rightarrow> u32 \<Rightarrow> u32 \<Rightarrow> dspqueue \<Rightarrow> world
     \<Rightarrow> (int \<times> read_out option \<times> dspqueue \<times> world) outcome" where
  "read_packet max_buffers buffers max_message_length message head qleft r q w =
     (case head of (f, num_b, msg_l) \<Rightarrow>
        if f AND FLAG_BUFFERS \<noteq> 0 \<and> buffers \<and> max_buffers < num_b then Done (AEE_EBADPARM, None, q, w)
        else if \<not> num_b \<le> DSPQUEUE_MAX_BUFFERS then Done (AEE_EBADITEM, None, q, w)
        else if f AND FLAG_MESSAGE \<noteq> 0 \<and> message \<and> max_message_length < msg_l then Done (AEE_EBADPARM, None, q, w)
        else case body_pos (qlen (resp q)) qleft r (packet_len num_b msg_l) of
               None \<Rightarrow> Fault
             | Some r \<Rightarrow>
                 if f AND FLAG_USER_READY = 0 then Done (AEE_EBADITEM, None, q, w)
                 else case get_body (resp q) r num_b msg_l buffers message of
                        None \<Rightarrow> Fault
                      | Some (bs, msg, r) \<Rightarrow>
                          (case consume r q w of
                             None \<Rightarrow> Fault
                           | Some (nErr, q, w) \<Rightarrow>
                               let bufs = (if buffers then dec_bufs (unat num_b) bs else [])
                               in if nErr \<noteq> 0 then Done (nErr, Some (f, num_b, bufs, msg_l, msg), q, w)
                                  else case ref_buffers (q_domain q) AEE_EBADITEM 0 bufs (w_mem w) of (e, buf_refs, bufs', m) \<Rightarrow>
                                         if e = 0 then Done (0, Some (f, num_b, bufs', msg_l, msg), q, w\<lparr>w_mem := m\<rparr>)
                                         else case undo_buffers (q_domain q) e (take buf_refs bufs) m of (e', m') \<Rightarrow>
                                                Done (e', Some (f, num_b, bufs', msg_l, msg), q, w\<lparr>w_mem := m'\<rparr>)))"

definition read_noblock1 ::
  "polls \<Rightarrow> u32 \<Rightarrow> bool \<Rightarrow> u32 \<Rightarrow> bool \<Rightarrow> dspqueue \<Rightarrow> world \<Rightarrow> (int \<times> read_out option \<times> dspqueue \<times> world) outcome" where
  "read_noblock1 ps max_buffers buffers max_message_length message q w =
     (if hdr_queue_count q \<noteq> queue_count q then Done (AEE_ERPC, None, q, w)
      else case get_queue_state_read (resp q) of
             None \<Rightarrow> Fault
           | Some (qleft, r, _) \<Rightarrow>
               if qleft < 8 then Done (AEE_EWOULDBLOCK, None, q, w)
               else case peek_locked (qmem (resp q)) r of
                      None \<Rightarrow> Fault
                    | Some (Inl nErr) \<Rightarrow> Done (nErr, None, q, w)
                    | Some (Inr (f, num_b, msg_l, hdr)) \<Rightarrow>
                        if f AND FLAG_WAKEUP \<noteq> 0
                        then (case early_wakeup ps qleft r num_b msg_l q w of
                                Fault \<Rightarrow> Fault | Blocked \<Rightarrow> Blocked
                              | Done (Inl e, q, w) \<Rightarrow> Done (e, None, q, w)
                              | Done (Inr (head, qleft, r), q, w) \<Rightarrow>
                                  read_packet max_buffers buffers max_message_length message head qleft r q w)
                        else read_packet max_buffers buffers max_message_length message (f, num_b, msg_l) qleft r q w)"

text \<open>A multi-domain queue is read in the order of its domains; the first queue with a packet is used.\<close>

fun multidomain_read ::
  "(dspqueue \<Rightarrow> world \<Rightarrow> (int \<times> 'o option \<times> dspqueue \<times> world) outcome) \<Rightarrow> dspqueue list \<Rightarrow> world
     \<Rightarrow> (int \<times> 'o option \<times> dspqueue list \<times> world) outcome" where
  "multidomain_read rd [] w = Done (0, None, [], w)"
| "multidomain_read rd (q # qs) w =
     (case rd q w of
        Fault \<Rightarrow> Fault | Blocked \<Rightarrow> Blocked
      | Done (nErr, out, q', w') \<Rightarrow>
          if nErr \<noteq> AEE_EWOULDBLOCK \<or> qs = [] then Done (nErr, out, q' # qs, w')
          else case multidomain_read rd qs w' of
                 Fault \<Rightarrow> Fault | Blocked \<Rightarrow> Blocked
               | Done (e, out, qs', w'') \<Rightarrow> Done (e, out, q' # qs', w''))"

definition dspqueue_read_noblock ::
  "polls \<Rightarrow> u32 \<Rightarrow> bool \<Rightarrow> u32 \<Rightarrow> bool \<Rightarrow> queue \<Rightarrow> world \<Rightarrow> (int \<times> read_out option \<times> queue \<times> world) outcome" where
  "dspqueue_read_noblock ps mb bufs mm msg q w =
     (case q of
        Single q \<Rightarrow> (case read_noblock1 ps mb bufs mm msg q w of
                       Done (e, out, q', w') \<Rightarrow> Done (e, out, Single q', w') | Fault \<Rightarrow> Fault | Blocked \<Rightarrow> Blocked)
      | Multi qs \<Rightarrow> (case multidomain_read (read_noblock1 ps mb bufs mm msg) qs w of
                       Done (e, out, qs', w') \<Rightarrow> Done (e, out, Multi qs', w') | Fault \<Rightarrow> Fault | Blocked \<Rightarrow> Blocked))"

definition dspqueue_peek_noblock :: "queue \<Rightarrow> world \<Rightarrow> (int \<times> (u32 \<times> u32 \<times> u32) option) outcome" where
  "dspqueue_peek_noblock q w =
     (case q of
        Single q \<Rightarrow> peek_noblock1 q
      | Multi qs \<Rightarrow>
          (case multidomain_read (\<lambda>q w. case peek_noblock1 q of
                                          Done (e, out) \<Rightarrow> Done (e, out, q, w) | Fault \<Rightarrow> Fault | Blocked \<Rightarrow> Blocked) qs w of
             Done (e, out, qs', w') \<Rightarrow> Done (e, out) | Fault \<Rightarrow> Fault | Blocked \<Rightarrow> Blocked))"

section \<open>Time\<close>

record timespec =
  tv_sec :: int
  tv_nsec :: int

text \<open>C division of signed integers rounds towards zero.\<close>

definition tdiv :: "int \<Rightarrow> int \<Rightarrow> int" where
  "tdiv a b = (if a < 0 then - ((- a) div b) else a div b)"

definition timespec_diff_us :: "timespec \<Rightarrow> timespec \<Rightarrow> u32" where
  "timespec_diff_us a b =
     (let diffsec = tv_sec a - tv_sec b; diffnsec = tv_nsec a - tv_nsec b;
          diffusec = diffsec * 1000000 + tdiv diffnsec 1000
      in if diffsec < 0 \<or> diffsec = 0 \<and> diffnsec < 0 then 0
         else if diffsec > 4294967295 then -1
         else if diffusec > 4294967295 then -1
         else word_of_int diffusec)"

definition timespec_add_us :: "timespec \<Rightarrow> u32 \<Rightarrow> timespec" where
  "timespec_add_us ts us =
     (let ns = tv_nsec ts + 1000 * (uint us mod 1000000)
      in if ns > 1000000000
         then \<lparr>tv_sec = tv_sec ts + uint us div 1000000 + 1, tv_nsec = ns - 1000000000\<rparr>
         else \<lparr>tv_sec = tv_sec ts + uint us div 1000000, tv_nsec = ns\<rparr>)"

section \<open>Blocking operations\<close>

text \<open>While a thread waits on a condition variable the other threads and the DSP go on: an event is the result of
  the wait call and the state found after it.\<close>

type_synonym event = "int \<times> dspqueue \<times> world"

abbreviation (input) ETIMEDOUT :: int where "ETIMEDOUT \<equiv> 110"

definition sig_count :: "u32 \<Rightarrow> dspqueue \<Rightarrow> u32" where
  "sig_count signal_no q = (if signal_no = SIGNAL_REQ_SPACE then req_space_count q else resp_packet_count q)"

definition sig_mask :: "u32 \<Rightarrow> dspqueue \<Rightarrow> u32" where
  "sig_mask signal_no q = (if signal_no = SIGNAL_REQ_SPACE then space_mask q else packet_mask q)"

fun wait_timed :: "u32 \<Rightarrow> u32 \<Rightarrow> event list \<Rightarrow> dspqueue \<Rightarrow> world \<Rightarrow> (int \<times> dspqueue \<times> world \<times> event list) outcome" where
  "wait_timed sn c evs q w =
     (if c \<noteq> sig_count sn q then Done (0, q, w, evs)
      else if sig_mask sn q AND 2 \<noteq> 0 then Done (AEE_EINTERRUPTED, q, w, evs)
      else case evs of
             [] \<Rightarrow> Blocked
           | (rc, q', w') # evs' \<Rightarrow>
               if rc = ETIMEDOUT then Done (AEE_EEXPIRED, q', w', evs')
               else if rc \<noteq> 0 then Done (-1, q', w', evs')
               else wait_timed sn c evs' q' w')"

fun wait_untimed :: "u32 \<Rightarrow> u32 \<Rightarrow> event list \<Rightarrow> dspqueue \<Rightarrow> world \<Rightarrow> (int \<times> dspqueue \<times> world \<times> event list) outcome" where
  "wait_untimed sn c evs q w =
     (if c \<noteq> sig_count sn q then Done (0, q, w, evs)
      else case evs of
             [] \<Rightarrow> Blocked
           | (rc, q', w') # evs' \<Rightarrow>
               if sig_mask sn q' AND 2 \<noteq> 0 then Done (AEE_EINTERRUPTED, q', w', evs')
               else wait_untimed sn c evs' q' w')"

text \<open>\<open>now\<close> is the clock reading of the driver branch (\<open>None\<close>: it fails).\<close>

definition wait_signal_locked ::
  "timespec option \<Rightarrow> u32 \<Rightarrow> timespec option \<Rightarrow> event list \<Rightarrow> dspqueue \<Rightarrow> world
     \<Rightarrow> (int \<times> dspqueue \<times> world \<times> event list) outcome" where
  "wait_signal_locked now sn timeout evs q w =
     (let driver_wait = (\<lambda>to_now.
            case dspsignal_wait (w_default_domain w) (sess (w_mem w)) (q_domain q) (QUEUE_SIGNAL (q_id q) sn) to_now (w_sig w) of
              None \<Rightarrow> Fault | Some nErr \<Rightarrow> Done (nErr, q, w, evs))
      in if have_driver_signaling q
         then case timeout of
                None \<Rightarrow> driver_wait DSPSIGNAL_TIMEOUT_NONE
              | Some t \<Rightarrow> (case now of
                  None \<Rightarrow> Done (AEE_EFAILED, q, w, evs)
                | Some n \<Rightarrow> if timespec_diff_us t n = 0 then Done (AEE_EEXPIRED, q, w, evs)
                            else driver_wait (timespec_diff_us t n))
         else if sn \<noteq> SIGNAL_REQ_SPACE \<and> sn \<noteq> SIGNAL_RESP_PACKET then Done (AEE_EBADPARM, q, w, evs)
         else case timeout of
                Some t \<Rightarrow> wait_timed sn (sig_count sn q) evs q w
              | None \<Rightarrow> wait_untimed sn (sig_count sn q) evs q w)"

text \<open>The loop of the blocking calls, with the attempt they repeat; \<open>fuel\<close> bounds the number of turns.\<close>

fun wait_loop ::
  "nat \<Rightarrow> (dspqueue \<Rightarrow> world \<Rightarrow> (int \<times> 'o \<times> dspqueue \<times> world) outcome) \<Rightarrow> 'o \<Rightarrow> timespec option \<Rightarrow> u32
     \<Rightarrow> timespec option \<Rightarrow> event list \<Rightarrow> dspqueue \<Rightarrow> world \<Rightarrow> (int \<times> 'o \<times> dspqueue \<times> world) outcome" where
  "wait_loop 0 att none now sn timeout evs q w = Blocked"
| "wait_loop (Suc fuel) att none now sn timeout evs q w =
     (case wait_signal_locked now sn timeout evs q w of
        Fault \<Rightarrow> Fault | Blocked \<Rightarrow> Blocked
      | Done (nErr, q, w, evs') \<Rightarrow>
          if nErr \<noteq> 0 then Done (nErr, none, q, w)
          else case att q w of
                 Fault \<Rightarrow> Fault | Blocked \<Rightarrow> Blocked
               | Done (e, out, q, w) \<Rightarrow>
                   if e \<noteq> AEE_EWOULDBLOCK then Done (e, out, q, w)
                   else wait_loop fuel att none now sn timeout evs' q w)"

text \<open>The common body of \<^verbatim>\<open>dspqueue_write\<close>, \<^verbatim>\<open>dspqueue_peek\<close> and \<^verbatim>\<open>dspqueue_read\<close>: try, announce the wait and try again, then
  wait. \<open>bump d\<close> adds \<open>d\<close> to the wait count; \<open>clock\<close> gives the two clock readings.\<close>

definition blocking ::
  "(u32 \<Rightarrow> dspqueue \<Rightarrow> dspqueue) \<Rightarrow> (dspqueue \<Rightarrow> world \<Rightarrow> (int \<times> 'o \<times> dspqueue \<times> world) outcome) \<Rightarrow> 'o
     \<Rightarrow> u32 \<Rightarrow> u32 \<Rightarrow> timespec option \<times> timespec option \<Rightarrow> event list \<Rightarrow> dspqueue \<Rightarrow> world
     \<Rightarrow> (int \<times> 'o \<times> dspqueue \<times> world) outcome" where
  "blocking bump att none sn timeout_us clock evs q w =
     (case att q w of
        Fault \<Rightarrow> Fault | Blocked \<Rightarrow> Blocked
      | Done (e, out, q, w) \<Rightarrow>
          if e \<noteq> AEE_EWOULDBLOCK then Done (e, out, q, w)
          else
            let waiting = have_wait_counts q;
                finish = (\<lambda>res. case res of Done (e, out, q, w) \<Rightarrow> Done (e, out, if waiting then bump (-1) q else q, w)
                                          | Fault \<Rightarrow> Fault | Blocked \<Rightarrow> Blocked);
                wait_for = (\<lambda>q w.
                  if timeout_us \<noteq> 0xFFFFFFFF
                  then case fst clock of
                         None \<Rightarrow> Done (AEE_EFAILED, none, q, w)
                       | Some ts \<Rightarrow> wait_loop (length evs + 1) att none (snd clock) sn
                                      (Some (timespec_add_us ts timeout_us)) evs q w
                  else wait_loop (length evs + 1) att none (snd clock) sn None evs q w)
            in if waiting
               then (case att (bump 1 q) w of
                       Fault \<Rightarrow> Fault | Blocked \<Rightarrow> Blocked
                     | Done (e, out, q, w) \<Rightarrow>
                         if e \<noteq> AEE_EWOULDBLOCK then finish (Done (e, out, q, w)) else finish (wait_for q w))
               else finish (wait_for q w))"

definition write1 ::
  "u32 \<Rightarrow> u32 \<Rightarrow> dspqueue_buffer list option \<Rightarrow> u32 \<Rightarrow> byte list option \<Rightarrow> u32
     \<Rightarrow> timespec option \<times> timespec option \<Rightarrow> event list \<Rightarrow> dspqueue \<Rightarrow> world \<Rightarrow> (int \<times> unit \<times> dspqueue \<times> world) outcome" where
  "write1 flags nb bufs ml msg timeout_us clock evs q w =
     blocking (\<lambda>d q. q\<lparr>req_wr_wait := req_wr_wait q + d\<rparr>)
       (\<lambda>q w. case write_noblock1 flags nb bufs ml msg q w of
                Done (e, q, w) \<Rightarrow> Done (e, (), q, w) | Fault \<Rightarrow> Fault | Blocked \<Rightarrow> Blocked)
       () SIGNAL_REQ_SPACE timeout_us clock evs q w"

definition peek1 ::
  "u32 \<Rightarrow> timespec option \<times> timespec option \<Rightarrow> event list \<Rightarrow> dspqueue \<Rightarrow> world
     \<Rightarrow> (int \<times> (u32 \<times> u32 \<times> u32) option \<times> dspqueue \<times> world) outcome" where
  "peek1 timeout_us clock evs q w =
     blocking (\<lambda>d q. q\<lparr>resp_rd_wait := resp_rd_wait q + d\<rparr>)
       (\<lambda>q w. case peek_noblock1 q of Done (e, out) \<Rightarrow> Done (e, out, q, w) | Fault \<Rightarrow> Fault | Blocked \<Rightarrow> Blocked)
       None SIGNAL_RESP_PACKET timeout_us clock evs q w"

definition read1 ::
  "polls \<Rightarrow> u32 \<Rightarrow> bool \<Rightarrow> u32 \<Rightarrow> bool \<Rightarrow> u32 \<Rightarrow> timespec option \<times> timespec option \<Rightarrow> event list \<Rightarrow> dspqueue \<Rightarrow> world
     \<Rightarrow> (int \<times> read_out option \<times> dspqueue \<times> world) outcome" where
  "read1 ps mb bufs mm msg timeout_us clock evs q w =
     blocking (\<lambda>d q. q\<lparr>resp_rd_wait := resp_rd_wait q + d\<rparr>) (read_noblock1 ps mb bufs mm msg)
       None SIGNAL_RESP_PACKET timeout_us clock evs q w"

text \<open>The entry points. A blocking write on a multi-domain queue blocks on one queue after the other; each has its
  own events. A blocking read or peek is refused on more than one domain.\<close>

fun multidomain_write_block ::
  "(event list \<Rightarrow> dspqueue \<Rightarrow> world \<Rightarrow> (int \<times> unit \<times> dspqueue \<times> world) outcome) \<Rightarrow> (dspqueue \<times> event list) list \<Rightarrow> world
     \<Rightarrow> (int \<times> dspqueue list \<times> world) outcome" where
  "multidomain_write_block wr [] w = Done (0, [], w)"
| "multidomain_write_block wr ((q, evs) # qs) w =
     (case wr evs q w of
        Fault \<Rightarrow> Fault | Blocked \<Rightarrow> Blocked
      | Done (nErr, _, q', w') \<Rightarrow>
          if nErr \<noteq> 0 then Done (AEE_EBADSTATE, q' # map fst qs, w')
          else case multidomain_write_block wr qs w' of
                 Fault \<Rightarrow> Fault | Blocked \<Rightarrow> Blocked | Done (e, qs', w'') \<Rightarrow> Done (e, q' # qs', w''))"

definition dspqueue_write ::
  "u32 \<Rightarrow> u32 \<Rightarrow> dspqueue_buffer list option \<Rightarrow> u32 \<Rightarrow> byte list option \<Rightarrow> u32
     \<Rightarrow> timespec option \<times> timespec option \<Rightarrow> event list list \<Rightarrow> queue \<Rightarrow> world \<Rightarrow> (int \<times> queue \<times> world) outcome" where
  "dspqueue_write flags nb bufs ml msg timeout_us clock evss q w =
     (case q of
        Single q \<Rightarrow> (case write1 flags nb bufs ml msg timeout_us clock (concat evss) q w of
                       Done (e, _, q', w') \<Rightarrow> Done (e, Single q', w') | Fault \<Rightarrow> Fault | Blocked \<Rightarrow> Blocked)
      | Multi qs \<Rightarrow>
          (case multidomain_write_block (write1 flags nb bufs ml msg timeout_us clock) (zip qs (evss @ replicate (length qs) [])) w of
             Done (e, qs', w') \<Rightarrow> Done (e, Multi qs', w') | Fault \<Rightarrow> Fault | Blocked \<Rightarrow> Blocked))"

definition dspqueue_peek ::
  "u32 \<Rightarrow> timespec option \<times> timespec option \<Rightarrow> event list \<Rightarrow> queue \<Rightarrow> world
     \<Rightarrow> (int \<times> (u32 \<times> u32 \<times> u32) option \<times> queue \<times> world) outcome" where
  "dspqueue_peek timeout_us clock evs q w =
     (case q of
        Single q \<Rightarrow> (case peek1 timeout_us clock evs q w of
                       Done (e, out, q', w') \<Rightarrow> Done (e, out, Single q', w') | Fault \<Rightarrow> Fault | Blocked \<Rightarrow> Blocked)
      | Multi qs \<Rightarrow>
          if length qs > 1 then Done (AEE_EUNSUPPORTED, None, Multi qs, w)
          else case multidomain_read (peek1 timeout_us clock evs) qs w of
                 Done (e, out, qs', w') \<Rightarrow> Done (e, out, Multi qs', w') | Fault \<Rightarrow> Fault | Blocked \<Rightarrow> Blocked)"

definition dspqueue_read ::
  "polls \<Rightarrow> u32 \<Rightarrow> bool \<Rightarrow> u32 \<Rightarrow> bool \<Rightarrow> u32 \<Rightarrow> timespec option \<times> timespec option \<Rightarrow> event list \<Rightarrow> queue \<Rightarrow> world
     \<Rightarrow> (int \<times> read_out option \<times> queue \<times> world) outcome" where
  "dspqueue_read ps mb bufs mm msg timeout_us clock evs q w =
     (case q of
        Single q \<Rightarrow> (case read1 ps mb bufs mm msg timeout_us clock evs q w of
                       Done (e, out, q', w') \<Rightarrow> Done (e, out, Single q', w') | Fault \<Rightarrow> Fault | Blocked \<Rightarrow> Blocked)
      | Multi qs \<Rightarrow>
          if length qs > 1 then Done (AEE_EUNSUPPORTED, None, Multi qs, w)
          else case multidomain_read (read1 ps mb bufs mm msg timeout_us clock evs) qs w of
                 Done (e, out, qs', w') \<Rightarrow> Done (e, out, Multi qs', w') | Fault \<Rightarrow> Fault | Blocked \<Rightarrow> Blocked)"

section \<open>Statistics\<close>

datatype dspqueue_stat =
    STAT_EARLY_WAKEUP_WAIT_TIME | STAT_EARLY_WAKEUP_MISSES | STAT_READ_QUEUE_PACKETS | STAT_WRITE_QUEUE_PACKETS
  | STAT_READ_QUEUE_BYTES | STAT_WRITE_QUEUE_BYTES | STAT_SIGNALING_PERF | STAT_OTHER

definition get_stat1 :: "dspqueue_stat \<Rightarrow> dspqueue \<Rightarrow> (int \<times> u64 option \<times> dspqueue) outcome" where
  "get_stat1 stat q =
     (case stat of
        STAT_EARLY_WAKEUP_WAIT_TIME \<Rightarrow> Done (0, Some (early_wakeup_wait q), q\<lparr>early_wakeup_wait := 0\<rparr>)
      | STAT_EARLY_WAKEUP_MISSES \<Rightarrow> Done (0, Some (ucast (early_wakeup_misses q)), q\<lparr>early_wakeup_misses := 0\<rparr>)
      | STAT_READ_QUEUE_PACKETS \<Rightarrow> Done (0, Some (ucast (resp_wr_count q - read_packet_count q)), q)
      | STAT_WRITE_QUEUE_PACKETS \<Rightarrow> Done (0, Some (ucast (write_packet_count q - req_rd_count q)), q)
      | STAT_READ_QUEUE_BYTES \<Rightarrow>
          (case get_queue_state_read (resp q) of None \<Rightarrow> Fault | Some (b, _, _) \<Rightarrow> Done (0, Some (ucast b), q))
      | STAT_WRITE_QUEUE_BYTES \<Rightarrow>
          (case get_queue_state_write (req q) of None \<Rightarrow> Fault
           | Some (b, _, _) \<Rightarrow> Done (0, Some (ucast (qlen (req q) - b - 8)), q))
      | STAT_SIGNALING_PERF \<Rightarrow>
          Done (0, Some (if have_driver_signaling q then 1000 else if have_wait_counts q then 100 else 0), q)
      | STAT_OTHER \<Rightarrow> Done (AEE_EBADPARM, None, q))"

definition dspqueue_get_stat :: "dspqueue_stat \<Rightarrow> queue \<Rightarrow> (int \<times> u64 option \<times> queue) outcome" where
  "dspqueue_get_stat stat q =
     (case q of
        Single q \<Rightarrow> (case get_stat1 stat q of
                       Done (e, v, q') \<Rightarrow> Done (e, v, Single q') | Fault \<Rightarrow> Fault | Blocked \<Rightarrow> Blocked)
      | Multi [] \<Rightarrow> Fault
      | Multi (q # qs) \<Rightarrow>
          if qs \<noteq> [] then Done (AEE_EUNSUPPORTED, None, Multi (q # qs))
          else case get_stat1 stat q of
                 Done (e, v, q') \<Rightarrow> Done (e, v, Multi [q']) | Fault \<Rightarrow> Fault | Blocked \<Rightarrow> Blocked)"

end
