(* ===== verification/QueueProps.thy ===== *)
theory QueueProps
  imports DspQueue
begin

text \<open>
  Properties of the packet queues: packets come out in the order they were accepted, a write or read on a well-formed
  ring never runs into an assertion, buffer references taken for a packet that is then refused are given back, and the
  behaviour of the error paths, of early wakeup packets and of the time arithmetic.
\<close>

section \<open>Buffer references\<close>

definition changes :: "dspqueue_buffer list \<Rightarrow> (int \<times> int) list" where
  "changes bs = filter (\<lambda>x. snd x \<noteq> 0) (map (\<lambda>b. (sint (b_fd b), ref_change b)) bs)"

text \<open>No buffer is referenced and dereferenced by the same packet.\<close>

definition unmixed_buffers :: "dspqueue_buffer list \<Rightarrow> bool" where
  "unmixed_buffers bs \<longleftrightarrow> (\<forall>b \<in> set bs. \<forall>c \<in> set bs.
     b_fd b = b_fd c \<and> ref_change b \<noteq> 0 \<and> ref_change c \<noteq> 0 \<longrightarrow> ref_change b = ref_change c)"

lemma changes_simps [simp]:
  "changes [] = []"
  "changes (b # bs) = (if ref_change b = 0 then changes bs else (sint (b_fd b), ref_change b) # changes bs)"
  by (simp_all add: changes_def)

lemma units_changes: "counted_refs.units (changes bs)"
  by (auto simp: br.units_def changes_def ref_change_def split: if_splits)

lemma unmixed_changes: "unmixed_buffers bs \<Longrightarrow> counted_refs.unmixed (changes (take n bs))"
proof -
  assume u: "unmixed_buffers bs"
  have origin: "\<exists>b \<in> set bs. x = (sint (b_fd b), ref_change b) \<and> ref_change b \<noteq> 0" if "x \<in> set (changes (take n bs))" for x
    using that by (auto simp: changes_def dest: in_set_takeD)
  have "snd x = snd y" if xy: "x \<in> set (changes (take n bs))" "y \<in> set (changes (take n bs))" "fst x = fst y" for x y
  proof -
    obtain b c where "b \<in> set bs" "x = (sint (b_fd b), ref_change b)" "ref_change b \<noteq> 0"
      "c \<in> set bs" "y = (sint (b_fd c), ref_change c)" "ref_change c \<noteq> 0"
      using origin [OF xy(1)] origin [OF xy(2)] by blast
    moreover from this xy(3) have "b_fd b = b_fd c" by (simp add: signed_word_eqI)
    ultimately show ?thesis using u by (simp add: unmixed_buffers_def)
  qed
  then show ?thesis unfolding br.unmixed_def by blast
qed

lemma buffer_ref_0: "fastrpc_buffer_ref d fd 0 m = ((e, out), m') \<Longrightarrow> m' = m"
  by (auto simp: fastrpc_buffer_ref_def Let_def split: if_splits option.splits)

lemma ref_buffers_take:
  assumes "ref_buffers d bad i bs m = (e, n, bs', m')"
  shows "i \<le> n \<and> n - i \<le> length bs \<and>
    counted_refs.take_refs (fastrpc_buffer_ref d) (changes (take (n - i) bs)) m = (0, length (changes (take (n - i) bs)), m')"
  using assms
proof (induction d bad i bs m arbitrary: e n bs' m' rule: ref_buffers.induct)
  case (1 domain bad i m)
  then show ?case by simp
next
  case (2 domain bad i b bs m)
  obtain e1 out m1 where r: "fastrpc_buffer_ref domain (sint (b_fd b)) (ref_change b) m = ((e1, out), m1)"
    by (metis surj_pair)
  consider (stop) "n = i" "m' = m" | (bad) "e1 = 0" "n = Suc i" "m' = m1"
    | (more) e2 bs2 where "e1 = 0" "\<not> (b_flags b AND BUFFER_REF \<noteq> 0 \<and> b_flags b AND BUFFER_DEREF \<noteq> 0)"
        "ref_buffers domain bad (Suc i) bs m1 = (e2, n, bs2, m')"
    using "2.prems" r br.failure [OF r]
    by (auto simp: Let_def split: if_splits option.splits prod.splits)
  then show ?case
  proof cases
    case stop
    then show ?thesis by simp
  next
    case bad
    then show ?thesis using r by (cases "ref_change b = 0") (auto dest: buffer_ref_0)
  next
    case (more e2 bs2)
    have IH: "Suc i \<le> n \<and> n - Suc i \<le> length bs \<and>
      counted_refs.take_refs (fastrpc_buffer_ref domain) (changes (take (n - Suc i) bs)) m1 =
        (0, length (changes (take (n - Suc i) bs)), m')"
      using "2.IH" "2.prems" r more by (auto simp: Let_def split: if_splits option.splits prod.splits)
    then have "n - i = Suc (n - Suc i)" by linarith
    with IH r more(1) show ?thesis by (cases "ref_change b = 0") (auto dest: buffer_ref_0)
  qed
qed

lemma undo_buffers_undo:
  "undo_buffers d e bs m = counted_refs.undo_refs (fastrpc_buffer_ref d) (changes bs) e m"
  by (induction d e bs m rule: undo_buffers.induct) (auto split: prod.splits)

lemma undo_restores:
  assumes "ref_buffers d bad 0 bs m = (e, n, bs', m')" "unmixed_buffers bs"
  shows "buf_count d (snd (undo_buffers d e' (take n bs) m')) = buf_count d m \<and>
    fst (undo_buffers d e' (take n bs) m') = (if changes (take n bs) = [] then e' else 0)"
proof -
  have t: "counted_refs.take_refs (fastrpc_buffer_ref d) (changes (take n bs)) m = (0, length (changes (take n bs)), m')"
    using ref_buffers_take [OF assms(1)] by simp
  show ?thesis
    using br.take_undo [OF t units_changes unmixed_changes [OF assms(2)], of e'] by (simp add: undo_buffers_undo)
qed

text \<open>C36: The buffer references of a packet that is refused are given back. Whatever the error and wherever in the list
  of buffers it happens, undoing the references taken so far restores every buffer's reference count, provided the
  packet does not both reference and dereference one buffer. If the packet had changed a reference at all, the undo
  loop ends with success.\<close>

theorem refused_packet_restores_refs:
  assumes "ref_buffers d bad 0 bs m = (e, n, bs', m')" "unmixed_buffers bs"
  shows "buf_count d (snd (undo_buffers d e' (take n bs) m')) = buf_count d m \<and>
    fst (undo_buffers d e' (take n bs) m') = (if changes (take n bs) = [] then e' else 0)"
  using assms by (rule undo_restores)

text \<open>Two buffers, the second on a descriptor that is not mapped: the reference of the first is taken and given back.\<close>

definition demo_bufs :: "dspqueue_buffer list" where
  "demo_bufs = [\<lparr>b_fd = 5, b_size = 16, b_offset = 0, b_flags = 4, b_ptr = 0\<rparr>,
                \<lparr>b_fd = 6, b_size = 16, b_offset = 0, b_flags = 4, b_ptr = 0\<rparr>]"

theorem refused_packet_restores_refs_witness:
  "case ref_buffers 3 AEE_EBADPARM 0 demo_bufs demo_mapped of (e, n, _, m) \<Rightarrow>
     e = AEE_ENOSUCHMAP \<and> n = 1 \<and> buf_count 3 m 5 = Some 2 \<and>
     buf_count 3 (snd (undo_buffers 3 0 (take n demo_bufs) m)) 5 = buf_count 3 demo_mapped 5"
proof -
  obtain e n bs m where r: "ref_buffers 3 AEE_EBADPARM 0 demo_bufs demo_mapped = (e, n, bs, m)" by (metis surj_pair)
  have "unmixed_buffers demo_bufs" by (simp add: unmixed_buffers_def demo_bufs_def ref_change_def)
  note U = refused_packet_restores_refs [OF r this, of 0]
  have "e = AEE_ENOSUCHMAP \<and> n = 1 \<and> buf_count 3 m 5 = Some 2"
    using r by (auto simp: demo_bufs_def ref_change_def fastrpc_buffer_ref_def demo_mapped_def new_map_def buf_count_def
        IS_VALID_EFFECTIVE_DOMAIN_ID_def)
  with r U show ?thesis by simp
qed

section \<open>Writing\<close>

definition written_flags :: "u32 \<Rightarrow> u32 \<Rightarrow> u32 \<Rightarrow> u32" where
  "written_flags flags nb ml =
     (let f1 = (if nb > 0 then flags OR FLAG_BUFFERS else flags AND NOT FLAG_BUFFERS);
          f2 = (if ml > 0 then f1 OR FLAG_MESSAGE else f1 AND NOT FLAG_MESSAGE)
      in (f2 OR FLAG_USER_READY) AND 0xFFFF)"

lemma flag_bit: "(f :: u32) AND 1 \<noteq> 0 \<longleftrightarrow> bit f 0" "f AND 2 \<noteq> 0 \<longleftrightarrow> bit f 1" "f AND 16 \<noteq> 0 \<longleftrightarrow> bit f 4"
  using and_exp_eq_0_iff_not_bit [of f 0] and_exp_eq_0_iff_not_bit [of f 1] and_exp_eq_0_iff_not_bit [of f 4]
  by simp_all

lemma bits_of_flags:
  "bit (1 :: u32) 0" "\<not> bit (1 :: u32) 1" "bit (2 :: u32) 1" "\<not> bit (2 :: u32) 0" "\<not> bit (16 :: u32) 0" "\<not> bit (16 :: u32) 1"
  "bit (0xFFFF :: u32) 0" "bit (0xFFFF :: u32) 1"
  by (simp_all add: bit_iff_odd)

lemma written_flags_wf:
  assumes "length bufs = unat nb" "length msg = unat ml" "nb \<le> 64" "ml \<le> 65536"
  shows "wf_packet (written_flags flags nb ml, bufs, msg)"
proof -
  have z: "bufs = [] \<longleftrightarrow> \<not> nb > 0" "msg = [] \<longleftrightarrow> \<not> ml > 0"
    using assms(1,2) by (auto simp: word_neq_0_conv [symmetric] unat_eq_0 simp flip: length_0_conv)
  have l: "length bufs \<le> 64" "length msg \<le> 65536" using assms by (simp_all add: word_le_nat_alt)
  have "written_flags flags nb ml AND 0xFFFF = written_flags flags nb ml"
    by (simp add: written_flags_def Let_def and.assoc)
  moreover have "written_flags flags nb ml AND 2 \<noteq> 0 \<longleftrightarrow> nb > 0" "written_flags flags nb ml AND 1 \<noteq> 0 \<longleftrightarrow> ml > 0"
    unfolding flag_bit
    by (auto simp: written_flags_def Let_def bit_and_iff bit_or_iff bit_not_iff bits_of_flags)
  ultimately show ?thesis using l z unfolding wf_packet_def by (simp only: prod.case) blast
qed

lemma packet_header_mask: "packet_header len (f AND 0xFFFF) nb seq = packet_header len f nb seq"
  by (simp add: packet_header_def and.assoc)

lemma num_of_take: "length xs = unat (n :: u32) \<Longrightarrow> num_of xs = n"
  by (simp add: num_of_def)

lemma notify_own:
  assumes "\<not> have_driver_signaling q"
  obtains w' where "notify q c sn w = Some (0, w')" and "w_mem w' = w_mem w"
    and "w_send_mask w' = (if have_wait_counts q \<and> c = 0 then w_send_mask w
       else (w_send_mask w)(q_domain q := w_send_mask w (q_domain q) OR 1))"
  by (rule that [of "if have_wait_counts q \<and> c = 0 then w
        else w\<lparr>w_send_mask := (w_send_mask w)(q_domain q := w_send_mask w (q_domain q) OR 1)\<rparr>"])
    (use assms in \<open>auto simp: notify_def send_signal_def\<close>)

text \<open>C2: \<^verbatim>\<open>dspqueue_write_noblock\<close> on a well-formed request ring that holds the packets \<open>ps\<close>, with the library's own
  signalling. It always returns: no assertion fails and nothing outside the ring is touched. If it returns success
  the ring holds \<open>ps\<close> followed by exactly the given packet (flags completed with the buffer, message and ready
  bits), the counters and the sequence number are advanced by one, the response ring is untouched, and the other
  side is signalled unless it keeps wait counts and is not waiting. If it returns an error the queue is as it was and
  no signal is sent; the reference count of every buffer is what it was, too, unless the packet both references and
  dereferences one buffer (for such a packet the undo loop can leave a reference behind).\<close>

theorem write_noblock_spec:
  assumes h: "ring_holds (req q) ps" and own: "\<not> have_driver_signaling q"
    and b: "case buffers of Some bs \<Rightarrow> unat nb \<le> length bs | None \<Rightarrow> True"
    and m: "case message of Some ms \<Rightarrow> unat ml \<le> length ms | None \<Rightarrow> True"
    and bufs: "bufs = (case buffers of Some bs \<Rightarrow> take (unat nb) bs | None \<Rightarrow> [])"
    and msg: "msg = (case message of Some ms \<Rightarrow> take (unat ml) ms | None \<Rightarrow> [])"
  shows "\<exists>e q' w'. write_noblock1 flags nb buffers ml message q w = Done (e, q', w') \<and>
    (e = 0 \<longrightarrow> ring_holds (req q') (ps @ [(written_flags flags nb ml, bufs, msg)]) \<and> resp q' = resp q \<and>
       seq_no q' = seq_no q + 1 \<and> write_packet_count q' = write_packet_count q + 1 \<and> req_wr_count q' = write_packet_count q' \<and>
       (have_wait_counts q \<and> req_rd_wait q = 0 \<or> w_send_mask w' (q_domain q) = w_send_mask w (q_domain q) OR 1)) \<and>
    (e \<noteq> 0 \<longrightarrow> q' = q \<and> w_send_mask w' = w_send_mask w \<and>
       (unmixed_buffers bufs \<longrightarrow> buf_count (q_domain q) (w_mem w') = buf_count (q_domain q) (w_mem w)))"
proof -
  let ?len = "packet_len nb ml" and ?f = "written_flags flags nb ml"
  let ?alen = "(?len + 7) AND NOT 7"
  let ?bad = "\<not> nb \<le> 64 \<or> \<not> ml \<le> 65536 \<or> nb > 0 \<and> buffers = None \<or> ml > 0 \<and> message = None \<or>
    ?alen > qlen (req q) - 8 \<or> hdr_queue_count q \<noteq> queue_count q"
  show ?thesis
  proof (cases ?bad)
    case True
    then show ?thesis by (auto simp: write_noblock1_def Let_def)
  next
    case ok: False
    have nb: "length bufs = unat nb" using ok b bufs by (auto simp: word_neq_0_conv [symmetric] split: option.splits)
    have ml: "length msg = unat ml" using ok m msg by (auto simp: word_neq_0_conv [symmetric] split: option.splits)
    have wf: "wf_packet (?f, bufs, msg)" using ok nb ml by (intro written_flags_wf) auto
    have rok: "ring_ok (req q)" using h by (simp add: ring_holds_def)
    obtain s where s: "space_for (req q) ?alen = Some s" using space_for_target [OF rok refl] by blast
    show ?thesis
    proof (cases s)
      case None
      with s ok show ?thesis by (auto simp: write_noblock1_def Let_def)
    next
      case (Some t)
      obtain wp wrap where t: "t = (wp, wrap)" by (cases t)
      obtain e n bs' mm where rb: "ref_buffers (q_domain q) AEE_EBADPARM 0 bufs (w_mem w) = (e, n, bs', mm)"
        by (metis surj_pair)
      note U = undo_restores [OF rb, of 0]
      let ?hdr = "packet_header ?len ?f nb (seq_no q)"
      have nn: "num_of bufs = nb" "num_of msg = ml" using nb ml by (simp_all add: num_of_take)
      obtain mem wp' where pp: "put_packet (req q) wp wrap ?hdr (enc_bufs bufs) msg = Some (mem, wp')"
        and rh: "ring_holds ((req q)\<lparr>qmem := mem, wpos := wp'\<rparr>) (ps @ [(?f, bufs, msg)])"
        using ring_holds_put [OF h wf, of ?len ?alen wp wrap ?hdr "seq_no q"] ok s Some t nn by auto
      have hd: "?hdr = packet_header ?len ((if ml > 0 then (if nb > 0 then flags OR FLAG_BUFFERS else flags AND NOT FLAG_BUFFERS) OR FLAG_MESSAGE
          else (if nb > 0 then flags OR FLAG_BUFFERS else flags AND NOT FLAG_BUFFERS) AND NOT FLAG_MESSAGE) OR FLAG_USER_READY) nb (seq_no q)"
        unfolding written_flags_def Let_def by (rule packet_header_mask)
      let ?q = "q\<lparr>req := (req q)\<lparr>qmem := mem, wpos := wp'\<rparr>, write_packet_count := write_packet_count q + 1,
          req_wr_count := write_packet_count q + 1, req_packet_count := req_packet_count q + 1,
          st_req_packet_count := req_packet_count q + 1\<rparr>"
      obtain w1 where w1: "notify ?q (req_rd_wait q) SIGNAL_REQ_PACKET (w\<lparr>w_mem := mm\<rparr>) = Some (0, w1)"
        "w_send_mask w1 = (if have_wait_counts q \<and> req_rd_wait q = 0 then w_send_mask w
           else (w_send_mask w)(q_domain q := w_send_mask w (q_domain q) OR 1))"
        by (rule notify_own [of ?q "req_rd_wait q" SIGNAL_REQ_PACKET "w\<lparr>w_mem := mm\<rparr>"]) (use own in auto)
      have E: "write_noblock1 flags nb buffers ml message q w =
        (if e \<noteq> 0 then Done (e, q, w\<lparr>w_mem := snd (undo_buffers (q_domain q) 0 (take n bufs) mm)\<rparr>)
         else Done (0, ?q\<lparr>seq_no := seq_no q + 1\<rparr>, w1))"
        using ok s Some t rb pp w1(1)
        unfolding write_noblock1_def Let_def bufs [symmetric] msg [symmetric] hd [symmetric] by auto
      show ?thesis
      proof (cases "e = 0")
        case True
        with E rh w1(2) show ?thesis by auto
      next
        case False
        with E U show ?thesis by auto
      qed
    qed
  qed
qed

text \<open>An empty 64-byte ring, a queue with two of them, and the example state of the memory module.\<close>

definition demo_ring :: ring where
  "demo_ring = \<lparr>qlen = 64, qmem = replicate 64 0, rpos = 0, wpos = 0\<rparr>"

definition demo_q :: dspqueue where
  "demo_q = \<lparr>q_id = 1, q_domain = 3, req = demo_ring, req_rd_count = 0, req_wr_count = 0, req_rd_wait = 0, req_wr_wait = 0,
     resp = demo_ring, resp_rd_count = 0, resp_wr_count = 0, resp_rd_wait = 0, resp_wr_wait = 0,
     hdr_queue_count = 2, queue_count = 2, seq_no = 0, read_packet_count = 0, write_packet_count = 0,
     req_packet_count = 0, req_space_count = 0, resp_packet_count = 0, resp_space_count = 0, packet_mask = 0, space_mask = 0,
     st_req_packet_count = 0, st_resp_space_count = 0, early_wakeup_wait = 0, early_wakeup_misses = 0,
     have_wait_counts = True, have_driver_signaling = False\<rparr>"

definition demo_w :: world where
  "demo_w = \<lparr>w_mem = demo_mapped, w_sig = \<lparr>signals = None, signals_once = False\<rparr>, w_send_mask = (\<lambda>_. 0), w_default_domain = 3\<rparr>"

lemma demo_ring_holds: "ring_holds demo_ring []"
  by (auto simp: ring_holds_def ring_ok_def geometry_def demo_ring_def intro!: exI [of _ "[]"] holds.straight)

theorem write_noblock_spec_witness:
  "\<exists>q' w'. write_noblock1 0 0 None 3 (Some [1, 2, 3]) demo_q demo_w = Done (0, q', w') \<and>
     ring_holds (req q') [(17, [], [1, 2, 3])]"
proof -
  obtain e q' w' where w: "write_noblock1 0 0 None 3 (Some [1, 2, 3]) demo_q demo_w = Done (e, q', w')"
    and s: "e = 0 \<longrightarrow> ring_holds (req q') ([] @ [(written_flags 0 0 3, [], [1, 2, 3])])"
    using write_noblock_spec [where q = demo_q and ps = "[]" and buffers = None and nb = 0 and message = "Some [1, 2, 3]"
        and ml = 3 and bufs = "[]" and msg = "[1, 2, 3]" and flags = 0 and w = demo_w] demo_ring_holds
    by (auto simp: demo_q_def unmixed_buffers_def)
  have sp: "space_for demo_ring 16 = Some (Some (0, False))"
    by (simp add: space_for_def get_queue_state_write_def demo_ring_def Let_def)
  have "e = 0"
    using w by (auto simp: write_noblock1_def demo_q_def packet_len_def sp Let_def notify_def
        demo_ring_def [THEN arg_cong, of qlen] split: option.splits)
  moreover have "written_flags 0 0 3 = 17" by (simp add: written_flags_def Let_def)
  ultimately show ?thesis using w s by auto
qed

section \<open>Reading\<close>

lemma consume_own:
  assumes "\<not> have_driver_signaling q"
  obtains q' w' where "consume r q w = Some (0, q', w')" and "w_mem w' = w_mem w" and "resp q' = (resp q)\<lparr>rpos := r\<rparr>"
    and "req q' = req q" and "q_domain q' = q_domain q" and "read_packet_count q' = read_packet_count q + 1"
    and "resp_rd_count q' = read_packet_count q'"
proof -
  let ?q = "q\<lparr>read_packet_count := read_packet_count q + 1, resp := (resp q)\<lparr>rpos := r\<rparr>,
                resp_rd_count := read_packet_count q + 1, resp_space_count := resp_space_count q + 1,
                st_resp_space_count := resp_space_count q + 1\<rparr>"
  obtain w' where "notify ?q (resp_wr_wait ?q) SIGNAL_RESP_SPACE w = Some (0, w')" "w_mem w' = w_mem w"
    by (rule notify_own [of ?q "resp_wr_wait ?q" SIGNAL_RESP_SPACE w]) (use assms in auto)
  then show ?thesis by (intro that [of ?q w']) (auto simp: consume_def Let_def)
qed

text \<open>What \<^verbatim>\<open>dspqueue_read_noblock\<close> does with a packet at the head of the response ring that fits the client's output.\<close>

lemma read_noblock_packet:
  assumes h: "ring_holds (resp q) ((f, bufs, msg) # ps)" and own: "\<not> have_driver_signaling q"
    and c: "hdr_queue_count q = queue_count q" and fl: "f AND FLAG_WAKEUP = 0" "f AND FLAG_USER_READY \<noteq> 0"
    and mb: "buffers \<longrightarrow> length bufs \<le> unat mb" and mm: "message \<longrightarrow> length msg \<le> unat ml"
    and rb: "ref_buffers (q_domain q) AEE_EBADITEM 0 (if buffers then bufs else []) (w_mem w) = (e, n, bs', m)"
  obtains q' w' where "read_noblock1 polls mb buffers ml message q w =
      Done (if e = 0 then 0 else fst (undo_buffers (q_domain q) e (take n (if buffers then bufs else [])) m),
            Some (f, num_of bufs, bs', num_of msg, if message then msg else []), q', w')"
    and "w_mem w' = (if e = 0 then m else snd (undo_buffers (q_domain q) e (take n (if buffers then bufs else [])) m))"
    and "ring_holds (resp q') ps" and "req q' = req q" and "read_packet_count q' = read_packet_count q + 1"
proof -
  obtain qleft hdr b where g: "get_queue_state_read (resp q) = Some (qleft, rpos (resp q), wpos (resp q))" "\<not> qleft < 8"
    "peek_locked (qmem (resp q)) (rpos (resp q)) = Some (Inr (f, num_of bufs, num_of msg, hdr))"
    "body_pos (qlen (resp q)) qleft (rpos (resp q)) (packet_len (num_of bufs) (num_of msg)) = Some b"
    and B: "\<forall>bflag mflag. \<exists>r'. get_body (resp q) b (num_of bufs) (num_of msg) bflag mflag =
           Some (if bflag then enc_bufs bufs else [], if mflag then msg else [], r') \<and>
           ring_holds ((resp q)\<lparr>rpos := r'\<rparr>) ps"
    using ring_holds_get [OF h] by blast
  obtain r' where r': "get_body (resp q) b (num_of bufs) (num_of msg) buffers message =
      Some (if buffers then enc_bufs bufs else [], if message then msg else [], r')" "ring_holds ((resp q)\<lparr>rpos := r'\<rparr>) ps"
    using B by blast
  obtain q1 w1 where q1: "consume r' q w = Some (0, q1, w1)" "w_mem w1 = w_mem w" "resp q1 = (resp q)\<lparr>rpos := r'\<rparr>"
    "req q1 = req q" "q_domain q1 = q_domain q" "read_packet_count q1 = read_packet_count q + 1"
    using consume_own [OF own] by metis
  have bl: "length bufs \<le> 64" "length msg \<le> 65536" using h by (auto simp: ring_holds_def wf_packet_def)
  then have nb: "unat (num_of bufs) = length bufs" and nm: "unat (num_of msg) = length msg" by (simp_all add: unat_num_of)
  have small: "num_of bufs \<le> 64" "buffers \<Longrightarrow> \<not> mb < num_of bufs" "message \<Longrightarrow> \<not> ml < num_of msg"
    using bl nb nm mb mm by (auto simp: word_le_nat_alt word_less_nat_alt)
  let ?w' = "if e = 0 then w1\<lparr>w_mem := m\<rparr>
     else w1\<lparr>w_mem := snd (undo_buffers (q_domain q) e (take n (if buffers then bufs else [])) m)\<rparr>"
  have "read_noblock1 polls mb buffers ml message q w =
      read_packet mb buffers ml message (f, num_of bufs, num_of msg) qleft (rpos (resp q)) q w"
    using c g fl(1) by (simp add: read_noblock1_def)
  also have "\<dots> = Done (if e = 0 then 0 else fst (undo_buffers (q_domain q) e (take n (if buffers then bufs else [])) m),
            Some (f, num_of bufs, bs', num_of msg, if message then msg else []), q1, ?w')"
    using g fl(2) small r'(1) q1 rb nb dec_enc_bufs [of bufs]
    by (auto simp: read_packet_def Let_def split: prod.splits)
  finally show ?thesis using that [of q1 ?w'] q1 r'(2) by simp
qed





text \<open>The error of a bad buffer reference in a received packet is lost. If a buffer of the packet fails after the
  reference of an earlier buffer of the packet was changed, the clean-up loop of \<^verbatim>\<open>dspqueue_read_noblock\<close> stores the
  result of giving references back in the variable that holds the error, and the function returns
  \<^verbatim>\<open>AEE_SUCCESS\<close>, although the references are undone and the number of buffers is not returned.\<close>

theorem read_error_lost:
  assumes h: "ring_holds (resp q) ((f, bufs, msg) # ps)" and own: "\<not> have_driver_signaling q"
    and c: "hdr_queue_count q = queue_count q" and fl: "f AND FLAG_WAKEUP = 0" "f AND FLAG_USER_READY \<noteq> 0"
    and sz: "length bufs \<le> unat mb" "length msg \<le> unat ml"
    and rb: "ref_buffers (q_domain q) AEE_EBADITEM 0 bufs (w_mem w) = (e, n, bs', m)" "e \<noteq> 0"
    and un: "unmixed_buffers bufs" and some: "\<exists>b \<in> set (take n bufs). ref_change b \<noteq> 0"
  shows "\<exists>out q' w'. read_noblock1 polls mb True ml True q w = Done (AEE_SUCCESS, Some out, q', w') \<and>
    buf_count (q_domain q) (w_mem w') = buf_count (q_domain q) (w_mem w)"
proof -
  note U = undo_restores [OF rb(1) un, of e]
  have ne: "changes (take n bufs) \<noteq> []" using some by (auto simp: changes_def filter_empty_conv)
  have rb': "ref_buffers (q_domain q) AEE_EBADITEM 0 (if True then bufs else []) (w_mem w) = (e, n, bs', m)"
    using rb(1) by simp
  obtain q' w' where r: "read_noblock1 polls mb True ml True q w =
      Done (if e = 0 then 0 else fst (undo_buffers (q_domain q) e (take n (if True then bufs else [])) m),
            Some (f, num_of bufs, bs', num_of msg, if True then msg else []), q', w')"
    and wm: "w_mem w' = (if e = 0 then m else snd (undo_buffers (q_domain q) e (take n (if True then bufs else [])) m))"
    by (rule read_noblock_packet [OF h own c fl _ _ rb', where polls = polls and ml = ml and mb = mb and message = True])
      (use sz in auto)
  have "fst (undo_buffers (q_domain q) e (take n bufs) m) = 0" using U ne by simp
  moreover have "buf_count (q_domain q) (snd (undo_buffers (q_domain q) e (take n bufs) m)) = buf_count (q_domain q) (w_mem w)"
    using U by simp
  ultimately show ?thesis using r wm rb(2) by auto
qed

text \<open>A received packet with two references: descriptor 5, which is mapped, and descriptor 6, which is not.\<close>

definition bad_bufs :: "dspqueue_buffer list" where
  "bad_bufs = [\<lparr>b_fd = 5, b_size = 0, b_offset = 0, b_flags = 4, b_ptr = 0\<rparr>,
               \<lparr>b_fd = 6, b_size = 0, b_offset = 0, b_flags = 4, b_ptr = 0\<rparr>]"

definition demo_full :: ring where
  "demo_full = the (ring_put 0 (18, bad_bufs, []) \<lparr>qlen = 128, qmem = replicate 128 0, rpos = 0, wpos = 0\<rparr>)"

lemma demo_full_holds: "ring_holds demo_full [(18, bad_bufs, [])]"
proof -
  let ?g = "\<lparr>qlen = 128, qmem = replicate 128 0, rpos = 0, wpos = 0\<rparr> :: ring"
  have h: "ring_holds ?g []"
    by (auto simp: ring_holds_def ring_ok_def geometry_def intro!: exI [of _ "[]"] holds.straight)
  have wf: "wf_packet (18, bad_bufs, [])" by (simp add: wf_packet_def bad_bufs_def)
  have len: "(packet_len (num_of bad_bufs) (num_of ([] :: byte list)) + 7) AND NOT 7 = 56"
    by (simp add: packet_len_def num_of_def bad_bufs_def)
  have sp: "space_for ?g 56 = Some (Some (0, False))"
    by (simp add: space_for_def get_queue_state_write_def Let_def)
  obtain mem w' where "put_packet ?g 0 False (packet_header (packet_len (num_of bad_bufs) (num_of ([] :: byte list))) 18
      (num_of bad_bufs) 0) (enc_bufs bad_bufs) [] = Some (mem, w')"
    "ring_holds (?g\<lparr>qmem := mem, wpos := w'\<rparr>) ([] @ [(18, bad_bufs, [])])"
    using ring_holds_put [OF h wf refl len [symmetric], of 0 False _ 0] sp by fastforce
  then show ?thesis unfolding demo_full_def ring_put_def Let_def prod.case len using sp by simp
qed

theorem read_error_lost_witness:
  "\<exists>out q' w'. read_noblock1 \<lparr>t_start = None, turns = []\<rparr> 4 True 64 True (demo_q\<lparr>resp := demo_full\<rparr>) demo_w = Done (AEE_SUCCESS, Some out, q', w')"
proof -
  let ?n = "new_map 5 0x1000 0x2000 0 0x9000"
  have r: "\<exists>bs' m. ref_buffers 3 AEE_EBADITEM 0 bad_bufs (w_mem demo_w) = (AEE_ENOSUCHMAP, 1, bs', m)"
    by (simp add: bad_bufs_def demo_w_def demo_mapped_def fastrpc_buffer_ref_def IS_VALID_EFFECTIVE_DOMAIN_ID_def
        new_map_def ref_change_def Let_def)
  then obtain bs' m where rb: "ref_buffers 3 AEE_EBADITEM 0 bad_bufs (w_mem demo_w) = (AEE_ENOSUCHMAP, 1, bs', m)" by blast
  show ?thesis
    using read_error_lost [where q = "demo_q\<lparr>resp := demo_full\<rparr>" and w = demo_w and polls = "\<lparr>t_start = None, turns = []\<rparr>" and mb = 4 and ml = 64,
        OF _ _ _ _ _ _ _ _ _ _, of 18 bad_bufs "[]" "[]" AEE_ENOSUCHMAP 1 bs' m] rb demo_full_holds
    by (auto simp: demo_q_def unmixed_buffers_def bad_bufs_def ref_change_def)
qed

section \<open>First in, first out\<close>

text \<open>C1: The packet rings are first-in first-out queues. Under any schedule of writes and reads on a well-formed ring
  (the code's space check, packet copy and position update on one side, its header parse, copy out and position
  update on the other), the packets read, followed by those still in the ring, are exactly the packets the ring held
  at the start followed by those accepted, in order: none is lost, duplicated, reordered or altered, wherever the
  ring wraps.\<close>

theorem ring_fifo:
  assumes "ring_holds g ps" and "packet_fifo.run ring_put ring_get ops g = (acc, out, g')"
    and "\<And>seq p. Some (seq, p) \<in> set ops \<Longrightarrow> wf_packet p"
  shows "\<exists>rest. ps @ acc = out @ rest \<and> ring_holds g' rest"
  using assms by (rule rf.fifo)

theorem ring_fifo_witness:
  "\<exists>rest. fst (packet_fifo.run ring_put ring_get [Some (0, (17, [], [1, 2, 3])), None, None] demo_ring) =
     fst (snd (packet_fifo.run ring_put ring_get [Some (0, (17, [], [1, 2, 3])), None, None] demo_ring)) @ rest"
proof -
  obtain acc out g' where r: "packet_fifo.run ring_put ring_get [Some (0, (17, [], [1, 2, 3])), None, None] demo_ring = (acc, out, g')"
    by (metis surj_pair)
  have "wf_packet (17, [], [1, 2, 3])" by (simp add: wf_packet_def)
  then have "\<exists>rest. [] @ acc = out @ rest \<and> ring_holds g' rest"
    by (intro ring_fifo [OF demo_ring_holds r]) auto
  with r show ?thesis by auto
qed

text \<open>An empty ring accepts a packet wherever its positions stand exactly if twice the packet's size fits the ring.
  The code accepts packets up to the ring size less eight bytes; for one larger than half of the ring there is a
  position at which an empty ring answers \<^verbatim>\<open>AEE_EWOULDBLOCK\<close>, and since there is nothing to read nothing will ever
  change that: a blocking write of such a packet waits forever.\<close>

theorem empty_ring_accepts_iff:
  assumes q: "8 dvd unat q" "unat q \<le> 16777216" and a: "8 dvd unat alen" "8 < unat alen" "unat alen + 8 \<le> unat q"
  shows "(\<forall>pos mem. unat pos < unat q \<and> 8 dvd unat pos \<and> length mem = unat q \<longrightarrow>
            space_for \<lparr>qlen = q, qmem = mem, rpos = pos, wpos = pos\<rparr> alen \<noteq> Some None) \<longleftrightarrow>
    2 * unat alen \<le> unat q"
proof -
  let ?Q = "unat q" and ?A = "unat alen"
  have s: "space_for \<lparr>qlen = q, qmem = mem, rpos = pos, wpos = pos\<rparr> alen \<noteq> Some None \<longleftrightarrow>
      ?A \<le> ?Q - unat pos \<or> ?A + 8 \<le> unat pos"
    if "unat pos < ?Q" "8 dvd unat pos" "length mem = ?Q" for pos mem
  proof -
    have "ring_ok \<lparr>qlen = q, qmem = mem, rpos = pos, wpos = pos\<rparr>"
      using that q by (simp add: ring_ok_def geometry_def)
    from space_for_target [OF this refl, of alen] that a show ?thesis
      by (auto simp: target_def free_space_def)
  qed
  show ?thesis
  proof
    assume all: "\<forall>pos mem. unat pos < unat q \<and> 8 dvd unat pos \<and> length mem = unat q \<longrightarrow>
            space_for \<lparr>qlen = q, qmem = mem, rpos = pos, wpos = pos\<rparr> alen \<noteq> Some None"
    let ?n = "?Q - ?A + 8"
    let ?pos = "word_of_nat ?n :: u32"
    have n: "?n < 2 ^ 32" "8 dvd ?n" using q a by (auto intro: dvd_add dvd_diff_nat)
    then have p: "unat ?pos = ?n" by (intro unat_of_nat_small)
    have "?n < ?Q" using a by linarith
    with all n(2) p have "space_for \<lparr>qlen = q, qmem = replicate ?Q 0, rpos = ?pos, wpos = ?pos\<rparr> alen \<noteq> Some None" by simp
    with s [of ?pos "replicate ?Q 0"] n(2) p \<open>?n < ?Q\<close> have "?A \<le> ?Q - ?n \<or> ?A + 8 \<le> ?n"
      by (simp only: length_replicate) blast
    with a show "2 * ?A \<le> ?Q" by arith
  next
    assume two: "2 * ?A \<le> ?Q"
    have "?A \<le> ?Q - unat pos \<or> ?A + 8 \<le> unat pos" if "unat pos < ?Q" "8 dvd unat pos" for pos :: u32
    proof (rule ccontr)
      assume n: "\<not> (?A \<le> ?Q - unat pos \<or> ?A + 8 \<le> unat pos)"
      then have "?Q - unat pos + 8 \<le> ?A" using that q a by (intro dvd8_less) (auto intro: dvd_diff_nat)
      with n two that show False by linarith
    qed
    with s show "\<forall>pos mem. unat pos < unat q \<and> 8 dvd unat pos \<and> length mem = unat q \<longrightarrow>
            space_for \<lparr>qlen = q, qmem = mem, rpos = pos, wpos = pos\<rparr> alen \<noteq> Some None" by blast
  qed
qed

theorem empty_ring_accepts_iff_witness:
  "\<exists>pos mem. unat pos < 64 \<and> length mem = 64 \<and>
     space_for \<lparr>qlen = 64, qmem = mem, rpos = pos, wpos = pos\<rparr> 56 = Some None"
  using empty_ring_accepts_iff [of 64 56] by (auto simp: numeral_eq_Suc [of "num.One"])

section \<open>Time\<close>

text \<open>\<^verbatim>\<open>timespec_add_us\<close> adds the right amount of time for every 32-bit number of microseconds, but its result is not
  always normalised: exactly when the nanoseconds add up to one second they are stored as 1000000000, which
  \<^verbatim>\<open>pthread_cond_timedwait\<close> rejects.\<close>

theorem timespec_add_us_total:
  assumes "0 \<le> tv_nsec ts" "tv_nsec ts < 1000000000"
  shows "tv_sec (timespec_add_us ts us) * 1000000000 + tv_nsec (timespec_add_us ts us) =
      tv_sec ts * 1000000000 + tv_nsec ts + uint us * 1000 \<and>
    0 \<le> tv_nsec (timespec_add_us ts us) \<and> tv_nsec (timespec_add_us ts us) \<le> 1000000000 \<and>
    (tv_nsec (timespec_add_us ts us) = 1000000000 \<longleftrightarrow> tv_nsec ts + 1000 * (uint us mod 1000000) = 1000000000)"
proof -
  have m: "0 \<le> uint us mod 1000000" "uint us mod 1000000 < 1000000" by simp_all
  have "uint us div 1000000 * 1000000 + uint us mod 1000000 = uint us" by (rule div_mult_mod_eq)
  then have "uint us div 1000000 * 1000000000 + 1000 * (uint us mod 1000000) = uint us * 1000" by linarith
  with m assms show ?thesis unfolding timespec_add_us_def Let_def by (auto split: if_splits)
qed

theorem timespec_add_us_total_witness:
  "tv_nsec (timespec_add_us \<lparr>tv_sec = 5, tv_nsec = 999999000\<rparr> 1) = 1000000000"
  using timespec_add_us_total [of "\<lparr>tv_sec = 5, tv_nsec = 999999000\<rparr>" 1] by simp

section \<open>Early wakeup\<close>

text \<open>An early wakeup packet without a message whose header is the last eight bytes of the ring breaks the queue. The
  read position is stored without being brought back to the beginning, it is then the ring's length, and once the
  next packet has been written (at the beginning) every peek reads its header behind the end of the ring.\<close>

theorem early_wakeup_leaves_ring:
  assumes h: "ring_holds (resp q) [(f, [], [])]" and f: "f AND FLAG_WAKEUP \<noteq> 0"
    and r: "unat (rpos (resp q)) + 8 = unat (qlen (resp q))"
    and own: "\<not> have_driver_signaling q" and c: "hdr_queue_count q = queue_count q"
    and clk: "polls = \<lparr>t_start = Some t1, turns = [(Some t2, (resp q)\<lparr>rpos := qlen (resp q)\<rparr>)]\<rparr>" "t1 + 1000 \<le> t2"
  shows "\<exists>q' w'. read_noblock1 polls mb buffers ml message q w = Done (AEE_EWOULDBLOCK, None, q', w') \<and>
    rpos (resp q') = qlen (resp q') \<and>
    (\<forall>mem pos. length mem = unat (qlen (resp q)) \<and> 8 dvd unat pos \<and> 8 \<le> unat pos \<and> unat pos < unat (qlen (resp q)) \<longrightarrow>
       peek_noblock1 (q'\<lparr>resp := (resp q')\<lparr>qmem := mem, wpos := pos\<rparr>\<rparr>) = Fault)"
proof -
  let ?g = "resp q"
  have ok: "ring_ok ?g" using h by (simp add: ring_holds_def)
  obtain qleft hdr b where g: "get_queue_state_read ?g = Some (qleft, rpos ?g, wpos ?g)" "\<not> qleft < 8"
    "peek_locked (qmem ?g) (rpos ?g) = Some (Inr (f, num_of ([] :: dspqueue_buffer list), num_of ([] :: byte list), hdr))"
    "body_pos (qlen ?g) qleft (rpos ?g) (packet_len (num_of ([] :: dspqueue_buffer list)) (num_of ([] :: byte list))) = Some b"
    and B: "\<forall>bflag mflag. \<exists>r'. get_body ?g b (num_of ([] :: dspqueue_buffer list)) (num_of ([] :: byte list)) bflag mflag =
           Some (if bflag then enc_bufs [] else [], if mflag then [] else [], r') \<and> ring_holds (?g\<lparr>rpos := r'\<rparr>) []"
    using ring_holds_get [OF h] by blast
  have z: "num_of ([] :: 'a list) = 0" by (simp add: num_of_def)
  have q8: "rpos ?g + 8 = qlen ?g"
    using r unsigned_less [of "qlen ?g", where ?'a = nat]
    by (simp add: word_unat_eq_iff unat_plus)
  have qr: "qlen ?g - rpos ?g = 8" by (simp add: q8 [symmetric])
  have bq: "b = qlen ?g" using g(4) qr q8 by (simp add: body_pos_def packet_len_def num_of_def)
  obtain r' where r': "get_body ?g b 0 0 True True = Some ([], [], r')" "ring_holds (?g\<lparr>rpos := r'\<rparr>) []"
    using B [rule_format, of True True] by (auto simp: num_of_def enc_bufs_def)
  have "r' = 0" using r'(1) bq by (simp add: get_body_def)
  then have w0: "wpos ?g = 0"
    using holds_empty_iff [of "unat (qlen ?g)" 0 "unat (wpos ?g)" "qmem ?g" "[]"] r'(2)
    by (auto simp: ring_holds_def ring_ok_def unat_eq_0)
  have Q: "8 dvd unat (qlen ?g)" "unat (qlen ?g) \<noteq> 0" "length (qmem ?g) = unat (qlen ?g)"
    using ok by (auto simp: ring_ok_def geometry_def)
  have st: "get_queue_state_read (?g\<lparr>rpos := qlen ?g, qmem := mem, wpos := pos\<rparr>) = Some (pos, qlen ?g, pos)"
    if "8 dvd unat pos" "unat pos < unat (qlen ?g)" for pos mem
    using that Q(1) by (auto simp: get_queue_state_read_def Let_def and_7_iff word_less_nat_alt)
  have st0: "get_queue_state_read (?g\<lparr>rpos := qlen ?g\<rparr>) = Some (0, qlen ?g, 0)"
  proof -
    have "?g\<lparr>rpos := qlen ?g, qmem := qmem ?g, wpos := 0\<rparr> = ?g\<lparr>rpos := qlen ?g\<rparr>"
      using w0 by (cases "resp q") simp
    with st [of 0 "qmem ?g"] Q(2) show ?thesis by simp
  qed
  obtain q1 w1 where q1: "consume (qlen ?g) q w = Some (0, q1, w1)" "resp q1 = ?g\<lparr>rpos := qlen ?g\<rparr>"
    using consume_own [OF own] by metis
  let ?q' = "q1\<lparr>resp := ?g\<lparr>rpos := qlen ?g\<rparr>, early_wakeup_wait := early_wakeup_wait q1 + (t2 - t1),
                early_wakeup_misses := early_wakeup_misses q1 + 1\<rparr>"
  have "early_wakeup polls qleft (rpos ?g) 0 0 q w = Done (Inl AEE_EWOULDBLOCK, ?q', w1)"
    using g(4) bq q1 st0 clk by (simp add: early_wakeup_def packet_len_def num_of_def Let_def not_less)
  then have "read_noblock1 polls mb buffers ml message q w = Done (AEE_EWOULDBLOCK, None, ?q', w1)"
    using c g(1-3) f z by (simp add: read_noblock1_def num_of_def)
  moreover have "peek_noblock1 (?q'\<lparr>resp := (resp ?q')\<lparr>qmem := mem, wpos := pos\<rparr>\<rparr>) = Fault"
    if "length mem = unat (qlen ?g)" "8 dvd unat pos" "8 \<le> unat pos" "unat pos < unat (qlen ?g)" for mem pos
  proof -
    have "\<not> pos < 8" using that(3) by (simp add: word_less_nat_alt)
    moreover have "get_queue_state_read ((resp ?q')\<lparr>qmem := mem, wpos := pos\<rparr>) = Some (pos, qlen ?g, pos)"
      using st [OF that(2,4), of mem] by simp
    ultimately show ?thesis using that(1) by (simp add: peek_noblock1_def peek_locked_def)
  qed
  ultimately show ?thesis by auto
qed

definition demo_wake :: ring where
  "demo_wake = the (ring_put 0 (20, [], []) \<lparr>qlen = 64, qmem = replicate 64 0, rpos = 56, wpos = 56\<rparr>)"

lemma demo_wake_holds: "ring_holds demo_wake [(20, [], [])] \<and> rpos demo_wake = 56 \<and> qlen demo_wake = 64"
proof -
  let ?g = "\<lparr>qlen = 64, qmem = replicate 64 0, rpos = 56, wpos = 56\<rparr> :: ring"
  let ?nb = "num_of ([] :: dspqueue_buffer list)" and ?nm = "num_of ([] :: byte list)"
  have h: "ring_holds ?g []"
    by (auto simp: ring_holds_def ring_ok_def geometry_def intro!: exI [of _ "[]"] holds.straight)
  have wf: "wf_packet (20, [], [])" by (simp add: wf_packet_def)
  have len: "(packet_len ?nb ?nm + 7) AND NOT 7 = 8" by (simp add: packet_len_def num_of_def)
  have sp: "space_for ?g 8 = Some (Some (56, False))"
    by (simp add: space_for_def get_queue_state_write_def Let_def)
  obtain mem w' where "put_packet ?g 56 False (packet_header (packet_len ?nb ?nm) 20 ?nb 0) (enc_bufs []) [] = Some (mem, w')"
    "ring_holds (?g\<lparr>qmem := mem, wpos := w'\<rparr>) ([] @ [(20, [], [])])"
    using ring_holds_put [OF h wf refl len [symmetric], of 56 False _ 0] sp by fastforce
  then show ?thesis unfolding demo_wake_def ring_put_def Let_def prod.case len using sp by simp
qed

theorem early_wakeup_leaves_ring_witness:
  "\<exists>polls q' w'. read_noblock1 polls 0 True 0 True (demo_q\<lparr>resp := demo_wake\<rparr>) demo_w = Done (AEE_EWOULDBLOCK, None, q', w') \<and>
     rpos (resp q') = qlen (resp q')"
proof -
  let ?q = "demo_q\<lparr>resp := demo_wake\<rparr>"
  let ?ps = "\<lparr>t_start = Some 0, turns = [(Some 2000, (resp ?q)\<lparr>rpos := qlen (resp ?q)\<rparr>)]\<rparr>"
  have "\<exists>q' w'. read_noblock1 ?ps 0 True 0 True ?q demo_w = Done (AEE_EWOULDBLOCK, None, q', w') \<and>
      rpos (resp q') = qlen (resp q') \<and>
      (\<forall>mem pos. length mem = unat (qlen (resp ?q)) \<and> 8 dvd unat pos \<and> 8 \<le> unat pos \<and> unat pos < unat (qlen (resp ?q)) \<longrightarrow>
         peek_noblock1 (q'\<lparr>resp := (resp q')\<lparr>qmem := mem, wpos := pos\<rparr>\<rparr>) = Fault)"
    by (rule early_wakeup_leaves_ring [OF _ _ _ _ _ refl]) (use demo_wake_holds in \<open>auto simp: demo_q_def\<close>)
  then show ?thesis by blast
qed

section \<open>Blocking calls\<close>

lemma write_noblock1_wait:
  "write_noblock1 flags nb b ml m q w = Done (e, q', w') \<Longrightarrow> req_wr_wait q' = req_wr_wait q \<and> have_wait_counts q' = have_wait_counts q"
  by (auto simp: write_noblock1_def Let_def split: if_splits option.splits prod.splits)

text \<open>A write that would block has changed nothing.\<close>

lemma ref_buffers_error:
  "ref_buffers d bad i bs m = (e, n, bs', m') \<Longrightarrow> e \<in> {0, bad, AEE_EBADPARM, AEE_ENOSUCHMAP, AEE_ERPC}"
proof (induction d bad i bs m arbitrary: e n bs' m' rule: ref_buffers.induct)
  case (2 domain bad i b bs m)
  obtain e1 out m1 where r: "fastrpc_buffer_ref domain (sint (b_fd b)) (ref_change b) m = ((e1, out), m1)"
    by (metis surj_pair)
  have "e1 \<in> {0, AEE_EBADPARM, AEE_ENOSUCHMAP, AEE_ERPC}"
    using r by (auto simp: fastrpc_buffer_ref_def Let_def split: if_splits option.splits)
  with 2 r show ?case by (auto simp: Let_def split: if_splits option.splits prod.splits)
qed simp

lemma notify_error: "notify q c sn w = Some (e, w') \<Longrightarrow> e \<noteq> AEE_EWOULDBLOCK"
  by (auto simp: notify_def send_signal_def dspsignal_signal_def with_device_def ioctl_signal_signal_def
      convert_kernel_to_user_error_def Let_def split: if_splits option.splits)

lemma write_noblock1_wouldblock:
  "write_noblock1 flags nb b ml m q w = Done (AEE_EWOULDBLOCK, q', w') \<Longrightarrow> q' = q"
  by (auto simp: write_noblock1_def Let_def split: if_splits option.splits prod.splits dest: ref_buffers_error notify_error)

declare wait_timed.simps [simp del] wait_untimed.simps [simp del]

lemma wait_timed_keeps:
  assumes "wait_timed sn c evs q w = Done (e, q', w', evs')" "P q" "\<forall>x \<in> set evs. P (fst (snd x))"
  shows "P q' \<and> set evs' \<subseteq> set evs \<and> e \<noteq> AEE_EWOULDBLOCK"
  using assms
proof (induction evs arbitrary: q w)
  case Nil
  from Nil.prems(1) [unfolded wait_timed.simps [of sn c "[]" q w]] Nil.prems(2) show ?case by (auto split: if_splits)
next
  case (Cons x xs)
  obtain rc p v where x: "x = (rc, p, v)" by (metis surj_pair)
  from Cons.prems(1) [unfolded wait_timed.simps [of sn c "x # xs" q w]] Cons.prems(2,3) Cons.IH [of p v] x
  show ?case by (auto split: if_splits)
qed

lemma wait_untimed_keeps:
  assumes "wait_untimed sn c evs q w = Done (e, q', w', evs')" "P q" "\<forall>x \<in> set evs. P (fst (snd x))"
  shows "P q' \<and> set evs' \<subseteq> set evs \<and> e \<noteq> AEE_EWOULDBLOCK"
  using assms
proof (induction evs arbitrary: q w)
  case Nil
  from Nil.prems(1) [unfolded wait_untimed.simps [of sn c "[]" q w]] Nil.prems(2) show ?case by (auto split: if_splits)
next
  case (Cons x xs)
  obtain rc p v where x: "x = (rc, p, v)" by (metis surj_pair)
  from Cons.prems(1) [unfolded wait_untimed.simps [of sn c "x # xs" q w]] Cons.prems(2,3) Cons.IH [of p v] x
  show ?case by (auto split: if_splits)
qed

lemma dspsignal_wait_error: "dspsignal_wait dflt ses d sid t s = Some e \<Longrightarrow> e \<noteq> 0 \<and> e \<noteq> AEE_EWOULDBLOCK"
  by (auto simp: dspsignal_wait_def with_device_def ioctl_signal_wait_def convert_kernel_to_user_error_def Let_def
      split: if_splits option.splits)

lemma wait_signal_keeps:
  assumes "wait_signal_locked now sn timeout evs q w = Done (e, q', w', evs')" "P q" "\<forall>x \<in> set evs. P (fst (snd x))"
  shows "P q' \<and> set evs' \<subseteq> set evs \<and> e \<noteq> AEE_EWOULDBLOCK"
  using assms wait_timed_keeps [of sn _ evs q w e q' w' evs' P] wait_untimed_keeps [of sn _ evs q w e q' w' evs' P]
  by (auto simp: wait_signal_locked_def Let_def split: if_splits option.splits dest: dspsignal_wait_error)

lemma wait_loop_keeps:
  assumes "wait_loop fuel att none now sn timeout evs q w = Done (e, out, q', w')" "P q" "\<forall>x \<in> set evs. P (fst (snd x))"
    and att: "\<And>q w e out q' w'. att q w = Done (e, out, q', w') \<Longrightarrow> P q \<Longrightarrow> P q'"
  shows "P q' \<and> e \<noteq> AEE_EWOULDBLOCK"
  using assms(1-3)
proof (induction fuel arbitrary: evs q w)
  case (Suc fuel)
  obtain e1 q1 w1 evs1 where ws: "wait_signal_locked now sn timeout evs q w = Done (e1, q1, w1, evs1)"
    using Suc.prems(1) by (auto split: outcome.splits prod.splits)
  note K = wait_signal_keeps [OF ws, of P, OF Suc.prems(2,3)]
  show ?case
  proof (cases "e1 = 0")
    case False
    with Suc.prems(1) ws K show ?thesis by auto
  next
    case True
    obtain e2 out2 q2 w2 where a: "att q1 w1 = Done (e2, out2, q2, w2)"
      using Suc.prems(1) ws True by (auto split: outcome.splits prod.splits)
    then have p2: "P q2" using att K by blast
    have evs1: "\<forall>x \<in> set evs1. P (fst (snd x))" using K Suc.prems(3) by blast
    show ?thesis
    proof (cases "e2 = AEE_EWOULDBLOCK")
      case True
      with Suc.prems(1) ws \<open>e1 = 0\<close> a have "wait_loop fuel att none now sn timeout evs1 q2 w2 = Done (e, out, q', w')" by simp
      then show ?thesis using Suc.IH p2 evs1 by blast
    next
      case False
      with Suc.prems(1) ws \<open>e1 = 0\<close> a p2 show ?thesis by auto
    qed
  qed
qed simp

lemma blocking_keeps:
  assumes b: "blocking bump att none sn t clock evs q w = Done (e, out, q', w')"
    and P: "P (1 :: u32) (bump 1 q)" "P 0 q" "\<forall>x \<in> set evs. P (if have_wait_counts q then 1 else 0) (fst (snd x))"
    and att: "\<And>d q w e out q' w'. att q w = Done (e, out, q', w') \<Longrightarrow> P d q \<Longrightarrow> P d q'"
    and bump: "\<And>q. P 1 q \<Longrightarrow> P 0 (bump (-1) q)" "\<And>q w e out q' w'. att q w = Done (e, out, q', w') \<Longrightarrow> e = AEE_EWOULDBLOCK \<Longrightarrow> q' = q"
  shows "P 0 q' \<and> e \<noteq> AEE_EWOULDBLOCK"
proof -
  obtain e0 out0 q0 w0 where a0: "att q w = Done (e0, out0, q0, w0)"
    using b by (auto simp: blocking_def split: outcome.splits)
  show ?thesis
  proof (cases "e0 = AEE_EWOULDBLOCK")
    case False
    with a0 b att [OF a0 P(2)] show ?thesis by (auto simp: blocking_def)
  next
    case True
    then have q0: "q0 = q" using bump(2) [OF a0] by simp
    let ?d = "if have_wait_counts q then 1 else 0 :: u32"
    let ?wait = "\<lambda>q w. if t \<noteq> 0xFFFFFFFF
        then case fst clock of None \<Rightarrow> Done (AEE_EFAILED, none, q, w)
             | Some ts \<Rightarrow> wait_loop (length evs + 1) att none (snd clock) sn (Some (timespec_add_us ts t)) evs q w
        else wait_loop (length evs + 1) att none (snd clock) sn None evs q w"
    have W: "P ?d q2 \<and> e2 \<noteq> AEE_EWOULDBLOCK" if "?wait q1 w1 = Done (e2, o2, q2, w2)" "P ?d q1" for q1 w1 e2 o2 q2 w2
    proof -
      have "P ?d q2 \<and> e2 \<noteq> AEE_EWOULDBLOCK"
        if "wait_loop (length evs + 1) att none (snd clock) sn tt evs q1 w1 = Done (e2, o2, q2, w2)" for tt
        using wait_loop_keeps [where P = "P ?d", OF that \<open>P ?d q1\<close> P(3)] att [where d = ?d] by blast
      with that show ?thesis by (auto simp del: wait_loop.simps split: if_splits option.splits)
    qed
    show ?thesis
    proof (cases "have_wait_counts q")
      case False
      then have "?wait q w0 = Done (e, out, q', w')"
        using b a0 True q0 by (auto simp: blocking_def Let_def split: outcome.splits)
      with W [of q w0 e out q' w'] False P(2) show ?thesis by simp
    next
      case hw: True
      obtain e1 o1 q1 w1 where a1: "att (bump 1 q) w0 = Done (e1, o1, q1, w1)"
        using b a0 True q0 hw by (auto simp: blocking_def Let_def split: outcome.splits)
      have p1: "P 1 q1" using att [OF a1 P(1)] .
      show ?thesis
      proof (cases "e1 = AEE_EWOULDBLOCK")
        case False
        with a0 a1 b True q0 hw have "q' = bump (-1) q1 \<and> e = e1" by (simp add: blocking_def Let_def)
        with False p1 bump(1) show ?thesis by simp
      next
        case e1: True
        obtain e2 o2 q2 w2 where w2: "?wait q1 w1 = Done (e2, o2, q2, w2)" "q' = bump (-1) q2" "e = e2"
          using b a0 a1 True q0 hw e1 by (auto simp: blocking_def Let_def split: outcome.splits prod.splits)
        with W [OF w2(1)] p1 hw bump(1) show ?thesis by simp
      qed
    qed
  qed
qed

text \<open>C40: A blocking call leaves no trace of its wait. If none of the states it wakes up in has the announced wait
  count changed (the other side only reads it), a blocking write that returns, whatever it returns and however
  often it waited, leaves the wait count as it was before the call, and it never returns
  \<^verbatim>\<open>AEE_EWOULDBLOCK\<close>.\<close>

theorem blocking_write_restores_wait_count:
  assumes b: "write1 flags nb bufs ml msg t clock evs q w = Done (e, u, q', w')"
    and ev: "\<forall>(rc, p, v) \<in> set evs. req_wr_wait p = req_wr_wait q + (if have_wait_counts q then 1 else 0)"
  shows "req_wr_wait q' = req_wr_wait q \<and> e \<noteq> AEE_EWOULDBLOCK"
proof -
  let ?P = "\<lambda>d p. req_wr_wait p = req_wr_wait q + d"
  have "?P 0 q' \<and> e \<noteq> AEE_EWOULDBLOCK"
    by (rule blocking_keeps [where P = ?P, OF b [unfolded write1_def]])
      (use ev in \<open>auto split: outcome.splits prod.splits dest: write_noblock1_wait write_noblock1_wouldblock\<close>)
  then show ?thesis by simp
qed

text \<open>A 64-byte ring filled by one packet that starts at position 8, and what a waiting writer finds once the other
  side has consumed it.\<close>

definition full_q :: dspqueue where
  "full_q = demo_q\<lparr>req := \<lparr>qlen = 64, qmem = replicate 64 0, rpos = 8, wpos = 0\<rparr>\<rparr>"

definition drained_q :: dspqueue where
  "drained_q = full_q\<lparr>req := demo_ring, req_wr_wait := 1, req_space_count := 1\<rparr>"

theorem blocking_write_restores_wait_count_witness:
  "\<exists>q' w'. write1 0 0 None 3 (Some [1, 2, 3]) 0xFFFFFFFF (None, None) [(0, drained_q, demo_w)] full_q demo_w = Done (0, (), q', w') \<and>
     req_wr_wait q' = 0"
proof -
  let ?wr = "write1 0 0 None 3 (Some [1, 2, 3]) 0xFFFFFFFF (None, None) [(0, drained_q, demo_w)] full_q demo_w"
  let ?wb = "\<lambda>q. write_noblock1 0 0 None 3 (Some [1, 2, 3]) q demo_w"
  have wb: "?wb full_q = Done (AEE_EWOULDBLOCK, full_q, demo_w)"
    "?wb (full_q\<lparr>req_wr_wait := 1\<rparr>) = Done (AEE_EWOULDBLOCK, full_q\<lparr>req_wr_wait := 1\<rparr>, demo_w)"
    by (simp_all add: write_noblock1_def full_q_def demo_q_def packet_len_def space_for_def get_queue_state_write_def Let_def)
  have fl: "\<not> have_driver_signaling full_q" "have_wait_counts full_q" "req_wr_wait full_q = 0" "req_space_count full_q = 0"
    "req_space_count drained_q = 1" "space_mask drained_q = 0" "space_mask full_q = 0"
    by (simp_all add: full_q_def drained_q_def demo_q_def)
  have sp: "space_for demo_ring 16 = Some (Some (0, False))"
    by (simp add: space_for_def get_queue_state_write_def demo_ring_def Let_def)
  have wf: "wf_packet (17, [], [1, 2, 3])" by (simp add: wf_packet_def)
  obtain mem p where "put_packet demo_ring 0 False (packet_header (packet_len 0 3) 17 0 0) (enc_bufs []) [1, 2, 3] = Some (mem, p)"
    using ring_holds_put [OF demo_ring_holds wf, of "packet_len 0 3" 16 0 False _ 0] sp
    by (auto simp: num_of_def packet_len_def demo_ring_def [THEN arg_cong, of qlen])
  then obtain q2 w2 where w2: "?wb drained_q = Done (0, q2, w2)"
    by (simp add: write_noblock1_def drained_q_def full_q_def demo_q_def packet_len_def sp Let_def notify_def
        demo_ring_def [THEN arg_cong, of qlen])
  have wr: "?wr = Done (0, (), q2\<lparr>req_wr_wait := req_wr_wait q2 - 1\<rparr>, w2)"
    using wb w2 fl
    by (simp add: write1_def blocking_def wait_signal_locked_def wait_untimed.simps Let_def sig_count_def sig_mask_def)
  have "req_wr_wait (q2\<lparr>req_wr_wait := req_wr_wait q2 - 1\<rparr>) = req_wr_wait full_q"
    using blocking_write_restores_wait_count [OF wr] fl by (simp add: drained_q_def)
  with wr fl show ?thesis by simp
qed

section \<open>Enough fuel, and time limits\<close>

lemma wait_timed_length: "wait_timed sn c evs q w = Done (0, q', w', evs') \<Longrightarrow> length evs' \<le> length evs"
proof (induction evs arbitrary: q w)
  case Nil
  from Nil [unfolded wait_timed.simps [of sn c "[]" q w]] show ?case by (auto split: if_splits)
next
  case (Cons x xs)
  obtain rc p v where x: "x = (rc, p, v)" by (metis surj_pair)
  from Cons.prems(1) [unfolded wait_timed.simps [of sn c "x # xs" q w]] Cons.IH [of p v] x
  show ?case by (auto split: if_splits)
qed

lemma wait_timed_consumes:
  assumes "wait_timed sn (sig_count sn q) evs q w = Done (0, q', w', evs')"
  shows "length evs' < length evs"
proof (cases evs)
  case Nil
  with assms [unfolded wait_timed.simps [of sn "sig_count sn q" evs q w]] show ?thesis by (auto split: if_splits)
next
  case (Cons x xs)
  obtain rc p v where "x = (rc, p, v)" by (metis surj_pair)
  with assms [unfolded wait_timed.simps [of sn "sig_count sn q" evs q w]] Cons
  have "wait_timed sn (sig_count sn q) xs p v = Done (0, q', w', evs')" by (auto split: if_splits)
  from wait_timed_length [OF this] Cons show ?thesis by simp
qed

lemma wait_untimed_length: "wait_untimed sn c evs q w = Done (0, q', w', evs') \<Longrightarrow> length evs' \<le> length evs"
proof (induction evs arbitrary: q w)
  case Nil
  from Nil [unfolded wait_untimed.simps [of sn c "[]" q w]] show ?case by (auto split: if_splits)
next
  case (Cons x xs)
  obtain rc p v where x: "x = (rc, p, v)" by (metis surj_pair)
  from Cons.prems(1) [unfolded wait_untimed.simps [of sn c "x # xs" q w]] Cons.IH [of p v] x
  show ?case by (auto split: if_splits)
qed

lemma wait_untimed_consumes:
  assumes "wait_untimed sn (sig_count sn q) evs q w = Done (0, q', w', evs')"
  shows "length evs' < length evs"
proof (cases evs)
  case Nil
  with assms [unfolded wait_untimed.simps [of sn "sig_count sn q" evs q w]] show ?thesis by (auto split: if_splits)
next
  case (Cons x xs)
  obtain rc p v where "x = (rc, p, v)" by (metis surj_pair)
  with assms [unfolded wait_untimed.simps [of sn "sig_count sn q" evs q w]] Cons
  have "wait_untimed sn (sig_count sn q) xs p v = Done (0, q', w', evs')" by (auto split: if_splits)
  from wait_untimed_length [OF this] Cons show ?thesis by simp
qed

lemma wait_signal_consumes:
  "wait_signal_locked now sn timeout evs q w = Done (0, q', w', evs') \<Longrightarrow> length evs' < length evs"
  by (auto simp: wait_signal_locked_def Let_def split: if_splits option.splits
      dest: dspsignal_wait_error wait_timed_consumes wait_untimed_consumes)

text \<open>The bound on the turns of the waiting loop is enough: every turn that goes on has used up at least one
  event of the environment, so more turns than events change nothing, and the loop ends or is really still waiting.\<close>

theorem wait_loop_fuel:
  assumes "length evs < n"
  shows "wait_loop n att none now sn timeout evs q w = wait_loop (length evs + 1) att none now sn timeout evs q w"
proof -
  have "wait_loop n att none now sn timeout evs q w = wait_loop m att none now sn timeout evs q w"
    if "length evs < n" "length evs < m" for n m
    using that
  proof (induction n arbitrary: m evs q w)
    case (Suc n)
    then obtain m' where m: "m = Suc m'" by (cases m) auto
    show ?case
    proof (cases "wait_signal_locked now sn timeout evs q w")
      case (Done x)
      obtain e q1 w1 evs1 where x: "x = (e, q1, w1, evs1)" by (metis surj_pair)
      have "wait_loop n att none now sn timeout evs1 q2 w2 = wait_loop m' att none now sn timeout evs1 q2 w2"
        if "e = 0" for q2 w2
        using wait_signal_consumes [of now sn timeout evs q w q1 w1 evs1] Done x that Suc.prems m
        by (intro Suc.IH) simp_all
      with Done x m show ?thesis by (simp split: outcome.split prod.split)
    qed (simp_all add: m)
  qed simp
  note E = this
  show ?thesis by (rule E) (use assms in simp_all)
qed

theorem wait_loop_fuel_witness:
  "wait_loop 7 (\<lambda>q w. Done (AEE_EWOULDBLOCK, (), q, w)) () None 1 None [(0, drained_q, demo_w)] full_q demo_w =
   wait_loop 2 (\<lambda>q w. Done (AEE_EWOULDBLOCK, (), q, w)) () None 1 None [(0, drained_q, demo_w)] full_q demo_w"
  using wait_loop_fuel [of "[(0, drained_q, demo_w)]" 7] by (simp del: wait_loop.simps add: numeral_2_eq_2)

end
