(* ===== verification/Rpcmem.thy ===== *)
theory Rpcmem
  imports FastrpcMemLaws
begin

text \<open>
  \<^verbatim>\<open>src/rpcmem_linux.c\<close>: shared buffers from the DMA heap, or from the FastRPC device when the heap cannot
  be opened. Every buffer is a node of the list \<^verbatim>\<open>rpclst\<close>, and is registered with the memory module. The answers
  of the kernel are arguments; what the code asks of it when a buffer is given back is kept in a log. \<open>None\<close> as the
  outcome of an operation is the \<^verbatim>\<open>raise(SIGABRT)\<close> of the memory module.
\<close>

section \<open>State\<close>

record rpc_info =
  ri_buf :: u64
  ri_aligned_buf :: u64
  ri_size :: int
  ri_fd :: int

datatype kcall = Munmap u64 int | Close int

record rpcst =
  dmafd :: int
  rpcfd :: int
  rpclst :: "rpc_info list"
  klog :: "kcall list"

text \<open>For one allocation: whether the node can be allocated, the allocation request's answer (on the heap or on the
  FastRPC device, for a size) and the result of \<^verbatim>\<open>mmap\<close>.\<close>

record renv =
  r_calloc :: bool
  r_ioctl :: "bool \<Rightarrow> u64 \<Rightarrow> int \<times> int"
  r_mmap :: u64

abbreviation (input) MAP_FAILED :: u64 where "MAP_FAILED \<equiv> -1"
abbreviation (input) PAGE_SIZE :: u64 where "PAGE_SIZE \<equiv> 4096"

section \<open>Operations\<close>

text \<open>\<open>heap\<close> and \<open>node\<close>: what opening the DMA heap and the device node return.\<close>

definition rpcmem_init :: "int \<Rightarrow> int \<Rightarrow> rpcst \<Rightarrow> rpcst" where
  "rpcmem_init heap node r =
     (let r = r\<lparr>rpclst := [], dmafd := heap\<rparr> in if heap < 0 then r\<lparr>rpcfd := node\<rparr> else r)"

definition rpcmem_deinit :: "rpcst \<Rightarrow> rpcst" where
  "rpcmem_deinit r =
     (let r = (if dmafd r \<noteq> -1 then r\<lparr>klog := klog r @ [Close (dmafd r)]\<rparr> else r)
      in if rpcfd r \<noteq> -1 then r\<lparr>klog := klog r @ [Close (rpcfd r)]\<rparr> else r)"

definition rpcmem_to_fd_internal :: "u64 \<Rightarrow> rpcst \<Rightarrow> int" where
  "rpcmem_to_fd_internal po r =
     (case find (\<lambda>rinfo. ri_aligned_buf rinfo = po) (rpclst r) of Some rfree \<Rightarrow> ri_fd rfree | None \<Rightarrow> -1)"

text \<open>The result 0 is the null pointer. \<open>heapid\<close> and \<open>flags\<close> are only printed.\<close>

definition rpcmem_alloc_internal ::
  "renv \<Rightarrow> menv \<Rightarrow> int \<Rightarrow> u32 \<Rightarrow> u64 \<Rightarrow> rpcst \<Rightarrow> memst \<Rightarrow> (u64 \<times> rpcst \<times> memst) option" where
  "rpcmem_alloc_internal k env heapid flags sz r st =
     (if dmafd r = -1 \<and> rpcfd r = -1 \<or> sz = 0 then Some (0, r, st)
      else if \<not> r_calloc k then Some (0, r, st)
      else case (if dmafd r \<noteq> -1 then r_ioctl k True sz else r_ioctl k False (sz + PAGE_SIZE)) of
        (nErr, fd) \<Rightarrow>
          if nErr \<noteq> 0 then Some (0, r, st)
          else if r_mmap k = 0 then Some (0, r, st)
          else let rinfo = \<lparr>ri_buf = r_mmap k, ri_aligned_buf = r_mmap k, ri_size = int32 (uint sz), ri_fd = fd\<rparr>
               in case remote_register_buf env (ri_buf rinfo) (ri_size rinfo) (ri_fd rinfo) st of
                    None \<Rightarrow> None
                  | Some st' \<Rightarrow> Some (ri_aligned_buf rinfo, r\<lparr>rpclst := rpclst r @ [rinfo]\<rparr>, st'))"

definition rpcmem_free_internal :: "menv \<Rightarrow> u64 \<Rightarrow> rpcst \<Rightarrow> memst \<Rightarrow> (rpcst \<times> memst) option" where
  "rpcmem_free_internal env po r st =
     (case find (\<lambda>rinfo. ri_aligned_buf rinfo = po) (rpclst r) of
        None \<Rightarrow> Some (r, st)
      | Some rfree \<Rightarrow>
          let r = r\<lparr>rpclst := del_first (\<lambda>rinfo. ri_aligned_buf rinfo = po) (rpclst r)\<rparr>
          in case remote_register_buf env (ri_buf rfree) (ri_size rfree) (-1) st of
               None \<Rightarrow> None
             | Some st' \<Rightarrow> Some (r\<lparr>klog := klog r @ [Munmap (ri_buf rfree) (ri_size rfree), Close (ri_fd rfree)]\<rparr>, st'))"

text \<open>The public 32-bit call: a negative size becomes a huge one.\<close>

definition rpcmem_alloc ::
  "renv \<Rightarrow> menv \<Rightarrow> int \<Rightarrow> u32 \<Rightarrow> int \<Rightarrow> rpcst \<Rightarrow> memst \<Rightarrow> (u64 \<times> rpcst \<times> memst) option" where
  "rpcmem_alloc k env heapid flags sz r st = rpcmem_alloc_internal k env heapid flags (word_of_int sz) r st"

section \<open>Laws\<close>

text \<open>Registering a buffer whose address is not registered, and deregistering it.\<close>

lemma register_new_buf:
  assumes "fastrpc_init_once st = 0" "buf \<noteq> 0" "(word_of_int len :: u64) \<noteq> 0" "fd \<noteq> -1"
    and new: "\<forall>t \<in> set (fdlist st). t_buf t \<noteq> buf"
  shows "remote_register_buf env buf len fd st = Some (if fd_alloc env
     then st\<lparr>fdlist := fdlist st @ [\<lparr>t_buf = buf, t_size = word_of_int len, t_fd = fd, t_nova = 0, t_attr = 0,
                                     t_refcount = 1, t_mapped = (\<lambda>_. False)\<rparr>]\<rparr> else st)"
  using assms by (auto simp: remote_register_buf_def remote_register_buf_common_def register_buf_add_def Let_def)

lemma dereg_scan_new:
  "\<forall>t \<in> set ts. t_buf t \<noteq> buf \<Longrightarrow> t_buf t = buf \<Longrightarrow> t_size t = len \<Longrightarrow> dereg_scan buf len None (ts @ [t]) = (Some t, None)"
  by (induction ts) auto

lemma dereg_scan_none: "\<forall>t \<in> set ts. t_buf t \<noteq> buf \<Longrightarrow> dereg_scan buf len None ts = (None, None)"
  by (induction ts) auto

lemma deregister_new_buf:
  assumes "fastrpc_init_once st = 0" "buf \<noteq> 0" "(word_of_int len :: u64) \<noteq> 0"
    and new: "\<forall>t \<in> set (fdlist st). t_buf t \<noteq> buf"
    and t: "ts = (if b then [\<lparr>t_buf = buf, t_size = word_of_int len, t_fd = fd, t_nova = 0, t_attr = 0,
                       t_refcount = 1, t_mapped = (\<lambda>_. False)\<rparr>] else [])"
  shows "remote_register_buf env buf len (-1) (st\<lparr>fdlist := fdlist st @ ts\<rparr>) = Some st"
proof -
  have d: "del_first (\<lambda>t. t_buf t = buf \<and> t_size t = word_of_int len)
      (fdlist st @ [\<lparr>t_buf = buf, t_size = word_of_int len, t_fd = fd, t_nova = 0, t_attr = 0,
                     t_refcount = 1, t_mapped = (\<lambda>_. False)\<rparr>]) = fdlist st"
    using new by (intro del_first_append_new) auto
  have i: "fastrpc_init_once (st\<lparr>fdlist := l\<rparr>) = 0" for l using assms(1) by (simp add: fastrpc_init_once_def)
  show ?thesis
    using assms(1-3) new i d
    by (cases b)
      (simp_all add: t remote_register_buf_def remote_register_buf_common_def register_buf_remove_def
        dereg_scan_new dereg_scan_none Let_def)
qed

lemma del_first_last: "\<forall>x \<in> set xs. \<not> P x \<Longrightarrow> P x \<Longrightarrow> del_first P (xs @ [x]) = xs"
  by (induction xs) auto

lemma find_last: "\<forall>x \<in> set xs. \<not> P x \<Longrightarrow> P x \<Longrightarrow> find P (xs @ [x]) = Some x"
  by (induction xs) auto

text \<open>A fresh address: no buffer of the list and no registered buffer has it. The kernel hands out only such
  addresses.\<close>

definition fresh_address :: "u64 \<Rightarrow> rpcst \<Rightarrow> memst \<Rightarrow> bool" where
  "fresh_address va r st \<longleftrightarrow> (\<forall>i \<in> set (rpclst r). ri_aligned_buf i \<noteq> va) \<and> (\<forall>t \<in> set (fdlist st). t_buf t \<noteq> va)"

lemma word_of_int32 [simp]: "(word_of_int (int32 (uint (sz :: u64))) :: u64) = cut_len sz"
  by (simp add: cut_len_def)

text \<open>What an allocation that succeeds leaves.\<close>

definition alloc_state :: "menv \<Rightarrow> u64 \<Rightarrow> u64 \<Rightarrow> int \<Rightarrow> rpcst \<Rightarrow> memst \<Rightarrow> rpcst \<times> memst" where
  "alloc_state env va sz fd r st =
     (r\<lparr>rpclst := rpclst r @ [\<lparr>ri_buf = va, ri_aligned_buf = va, ri_size = int32 (uint sz), ri_fd = fd\<rparr>]\<rparr>,
      st\<lparr>fdlist := fdlist st @ (if fd_alloc env then [\<lparr>t_buf = va, t_size = cut_len sz, t_fd = fd, t_nova = 0, t_attr = 0,
                                 t_refcount = 1, t_mapped = (\<lambda>_. False)\<rparr>] else [])\<rparr>)"

lemma rpcmem_alloc_cases:
  assumes "rpcmem_alloc_internal k env heapid flags sz r st = Some (va, r', st')"
    and "fastrpc_init_once st = 0" "cut_len sz \<noteq> 0" "fresh_address (r_mmap k) r st"
    and fd: "\<And>b s e fd. r_ioctl k b s = (e, fd) \<Longrightarrow> e = 0 \<Longrightarrow> fd \<ge> 0"
  shows "va = 0 \<and> r' = r \<and> st' = st \<or>
    va \<noteq> 0 \<and> va = r_mmap k \<and> (\<exists>fd. fd \<ge> 0 \<and> (r', st') = alloc_state env va sz fd r st)"
proof -
  obtain e f where q: "(if dmafd r \<noteq> -1 then r_ioctl k True sz else r_ioctl k False (sz + PAGE_SIZE)) = (e, f)"
    by (metis surj_pair)
  show ?thesis
  proof (cases "va = 0 \<and> r' = r \<and> st' = st")
    case False
    with assms(1) q have e: "e = 0" and m: "r_mmap k \<noteq> 0"
      by (auto simp: rpcmem_alloc_internal_def Let_def split: if_splits option.splits)
    have f: "f \<ge> 0" using q e fd by (metis (full_types))
    from assms(4) have n: "\<forall>t \<in> set (fdlist st). t_buf t \<noteq> r_mmap k" by (simp add: fresh_address_def)
    from f have "f \<noteq> -1" by simp
    note R = register_new_buf [OF assms(2) m _ this n, of "int32 (uint sz)" env, simplified, OF assms(3)]
    from assms(1) False q e m R have "va = r_mmap k \<and> (r', st') = alloc_state env va sz f r st"
      by (auto simp: rpcmem_alloc_internal_def Let_def alloc_state_def split: if_splits)
    with m f show ?thesis by (intro disjI2 conjI exI [of _ f]) simp_all
  qed simp
qed

lemma rpcmem_alloc_state:
  assumes "(r', st') = alloc_state env va sz fd r st" and f: "fresh_address va r st"
    and "fastrpc_init_once st = 0" "va \<noteq> 0" "cut_len sz \<noteq> 0"
  shows "rpcmem_to_fd_internal va r' = fd"
    and "rpcmem_free_internal env' va r' st' = Some (r\<lparr>klog := klog r @ [Munmap va (int32 (uint sz)), Close fd]\<rparr>, st)"
proof -
  have r': "rpclst r' = rpclst r @ [\<lparr>ri_buf = va, ri_aligned_buf = va, ri_size = int32 (uint sz), ri_fd = fd\<rparr>]"
    using assms(1) by (simp add: alloc_state_def)
  have n: "\<forall>i \<in> set (rpclst r). ri_aligned_buf i \<noteq> va" "\<forall>t \<in> set (fdlist st). t_buf t \<noteq> va"
    using f by (simp_all add: fresh_address_def)
  then have fnd: "find (\<lambda>i. ri_aligned_buf i = va) (rpclst r') =
      Some \<lparr>ri_buf = va, ri_aligned_buf = va, ri_size = int32 (uint sz), ri_fd = fd\<rparr>"
    unfolding r' by (intro find_last) auto
  then show "rpcmem_to_fd_internal va r' = fd" by (simp add: rpcmem_to_fd_internal_def)
  have del: "del_first (\<lambda>i. ri_aligned_buf i = va) (rpclst r') = rpclst r"
    unfolding r' using n by (intro del_first_last) auto
  have "remote_register_buf env' va (int32 (uint sz)) (-1) st' = Some st"
    using assms(1) deregister_new_buf [OF assms(3,4) _ n(2) refl, of "int32 (uint sz)" env' "fd_alloc env" fd] assms(5)
    by (cases "fd_alloc env") (simp_all add: alloc_state_def)
  with fnd del assms(1) show
    "rpcmem_free_internal env' va r' st' = Some (r\<lparr>klog := klog r @ [Munmap va (int32 (uint sz)), Close fd]\<rparr>, st)"
    by (simp add: rpcmem_free_internal_def alloc_state_def)
qed

end
