(* ===== verification/AppsMem.thy ===== *)
theory AppsMem
  imports Rpcmem MemProps
begin

text \<open>
  \<^verbatim>\<open>src/apps_mem_imp.c\<close>: the memory service that the DSP calls. It allocates shared buffers, maps them on the
  current domain and keeps a list of them per domain, by which they are unmapped and freed. It rests on the buffers
  of \<open>Rpcmem\<close> and the mappings of \<open>FastrpcMem\<close>. \<open>None\<close> is the abort of the memory module.
\<close>

abbreviation (input) AEE_EBADFD :: int where "AEE_EBADFD \<equiv> 79"
abbreviation (input) FASTRPC_MAP_FD_DELAYED :: u32 where "FASTRPC_MAP_FD_DELAYED \<equiv> 3"
abbreviation (input) FASTRPC_MAP_FD_NOMAP :: u32 where "FASTRPC_MAP_FD_NOMAP \<equiv> 16"
abbreviation (input) ADSP_MMAP_HEAP_ADDR :: u32 where "ADSP_MMAP_HEAP_ADDR \<equiv> 4"
abbreviation (input) ADSP_MMAP_ADD_PAGES_LLC :: u32 where "ADSP_MMAP_ADD_PAGES_LLC \<equiv> 0x3000"
abbreviation (input) FASTRPC_ALLOC_HLOS_FD :: u32 where "FASTRPC_ALLOC_HLOS_FD \<equiv> 0x10000"
abbreviation (input) AUDIO_STATICPD :: int where "AUDIO_STATICPD \<equiv> 2"

section \<open>State\<close>

record mem_info =
  m_vapps :: u64
  m_vadsp :: u64
  m_size :: int
  m_mapped :: bool
  m_rflags :: u32

record apps_mem_info =
  mem_list :: "mem_info list"
  a_init :: bool

record appst =
  nodes :: "int \<Rightarrow> apps_mem_info option"
  rpc :: rpcst
  mem :: memst

text \<open>The environment of one call: that of the memory module and of the allocator, whether the two \<^verbatim>\<open>malloc\<close>s succeed,
  the process attributes \<^verbatim>\<open>unsigned_module\<close> and \<^verbatim>\<open>dsppd\<close> of the session table, whether user-space allocation is
  supported, and the answer of \<^verbatim>\<open>mmap\<close>.\<close>

record aenv =
  a_env :: menv
  a_rpc :: renv
  a_node :: bool
  a_minfo :: bool
  a_unsigned :: "int \<Rightarrow> int"
  a_dsppd :: "int \<Rightarrow> int"
  a_ualloc :: int
  a_mmap :: u64

definition upd_list :: "int \<Rightarrow> (mem_info list \<Rightarrow> mem_info list) \<Rightarrow> appst \<Rightarrow> appst" where
  "upd_list domain f s =
     s\<lparr>nodes := (nodes s)(domain := map_option (\<lambda>me. me\<lparr>mem_list := f (mem_list me)\<rparr>) (nodes s domain))\<rparr>"

definition current_domain :: "aenv \<Rightarrow> appst \<Rightarrow> int" where
  "current_domain env s = get_current_domain (default_domain (a_env env)) (sess (mem s))"

definition get_unsigned_pd_attribute :: "(int \<Rightarrow> int) \<Rightarrow> int \<Rightarrow> session \<Rightarrow> int \<times> int" where
  "get_unsigned_pd_attribute attr domain s =
     (if hlist s = None then (AEE_EBADPARM, 0)
      else if \<not> IS_VALID_EFFECTIVE_DOMAIN_ID domain then (AEE_EBADPARM, 0)
      else (AEE_SUCCESS, attr domain))"

definition fastrpc_get_pd_type :: "(int \<Rightarrow> int) \<Rightarrow> int \<Rightarrow> session \<Rightarrow> int" where
  "fastrpc_get_pd_type dsppd domain s =
     (case hlist s of None \<Rightarrow> -1 | Some h \<Rightarrow> if dev (h domain) \<noteq> -1 then dsppd domain else -1)"

section \<open>Start and end\<close>

definition apps_mem_table_deinit :: "appst \<Rightarrow> appst" where
  "apps_mem_table_deinit s = s\<lparr>nodes := (\<lambda>_. None)\<rparr>"

definition apps_mem_init :: "aenv \<Rightarrow> int \<Rightarrow> appst \<Rightarrow> int \<times> appst" where
  "apps_mem_init env domain s =
     (if nodes s domain = None \<and> \<not> a_node env then (AEE_ENOMEMORY, s)
      else (AEE_SUCCESS, s\<lparr>nodes := (nodes s)(domain \<mapsto> \<lparr>mem_list = [], a_init = True\<rparr>)\<rparr>))"

fun drain_list :: "menv \<Rightarrow> mem_info list \<Rightarrow> rpcst \<Rightarrow> memst \<Rightarrow> (rpcst \<times> memst) option" where
  "drain_list env [] r st = Some (r, st)"
| "drain_list env (mfree # ms) r st =
     (if m_vapps mfree \<noteq> 0
      then if m_mapped mfree
           then drain_list env ms (r\<lparr>klog := klog r @ [Munmap (m_vapps mfree) (m_size mfree)]\<rparr>) st
           else case rpcmem_free_internal env (m_vapps mfree) r st of
                  None \<Rightarrow> None | Some (r, st) \<Rightarrow> drain_list env ms r st
      else drain_list env ms r st)"

definition apps_mem_deinit :: "aenv \<Rightarrow> int \<Rightarrow> appst \<Rightarrow> appst option" where
  "apps_mem_deinit env domain s =
     (case nodes s domain of
        None \<Rightarrow> Some s
      | Some me \<Rightarrow>
          if a_init me
          then case drain_list (a_env env) (mem_list me) (rpc s) (mem s) of
                 None \<Rightarrow> None
               | Some (r, st) \<Rightarrow>
                   Some (s\<lparr>nodes := (nodes s)(domain \<mapsto> \<lparr>mem_list = [], a_init = False\<rparr>), rpc := r, mem := st\<rparr>)
          else Some s)"

section \<open>Mapping\<close>

text \<open>The results of the functions below: the error and what the two output pointers are set to (\<open>None\<close>: not set).
  At \<^verbatim>\<open>bail\<close>, with an error, the buffer is freed.\<close>

type_synonym map_result = "int \<times> u64 option \<times> u64 option"

definition map_bail :: "aenv \<Rightarrow> int \<Rightarrow> u64 option \<Rightarrow> u64 \<Rightarrow> appst \<Rightarrow> (map_result \<times> appst) option" where
  "map_bail env nErr vadsp buf s =
     (if buf \<noteq> 0
      then case rpcmem_free_internal (a_env env) buf (rpc s) (mem s) of
             None \<Rightarrow> None | Some (r, st) \<Rightarrow> Some ((nErr, None, vadsp), s\<lparr>rpc := r, mem := st\<rparr>)
      else Some ((nErr, None, vadsp), s))"

definition map_done ::
  "int \<Rightarrow> u32 \<Rightarrow> int \<Rightarrow> bool \<Rightarrow> u64 \<Rightarrow> u64 \<Rightarrow> appst \<Rightarrow> (map_result \<times> appst) option" where
  "map_done domain rflags len mapped vapps vadsp s =
     Some ((0, Some vapps, Some vadsp),
           upd_list domain (\<lambda>l. l @ [\<lparr>m_vapps = vapps, m_vadsp = vadsp, m_size = int32 len, m_mapped = mapped,
                                      m_rflags = rflags\<rparr>]) s)"

text \<open>Which requests of the last branch are backed by memory that is allocated here.\<close>

definition user_backed :: "u32 \<Rightarrow> int \<Rightarrow> int \<Rightarrow> bool" where
  "user_backed rflags unsigned_module ualloc_support \<longleftrightarrow>
     rflags \<noteq> ADSP_MMAP_ADD_PAGES \<and> rflags \<noteq> ADSP_MMAP_ADD_PAGES_LLC \<or>
     (rflags = ADSP_MMAP_ADD_PAGES \<or> rflags = ADSP_MMAP_ADD_PAGES_LLC) \<and> unsigned_module \<noteq> 0 \<and> ualloc_support \<noteq> 0"

definition remote_map :: "aenv \<Rightarrow> int \<Rightarrow> u32 \<Rightarrow> u64 \<Rightarrow> int \<Rightarrow> bool \<Rightarrow> u32 \<Rightarrow> int \<Rightarrow> appst \<Rightarrow> (map_result \<times> appst) option" where
  "remote_map env fd flags buf len mapped rflags domain s =
     (case remote_mmap64_internal (a_env env) fd flags buf (word_of_int len) (mem s) of
        ((nErr, out), st) \<Rightarrow>
          let s = s\<lparr>mem := st\<rparr>; vadsp = (case out of Some v \<Rightarrow> v | None \<Rightarrow> 0)
          in if nErr \<noteq> 0
             then if mapped
                  then Some ((nErr, None, Some vadsp), if buf \<noteq> 0
                         then s\<lparr>rpc := (rpc s)\<lparr>klog := klog (rpc s) @ [Munmap buf len]\<rparr>\<rparr> else s)
                  else map_bail env nErr (Some vadsp) buf s
             else map_done domain rflags len mapped buf vadsp s)"

definition apps_mem_request_map64 ::
  "aenv \<Rightarrow> int \<Rightarrow> u32 \<Rightarrow> u32 \<Rightarrow> u64 \<Rightarrow> int \<Rightarrow> appst \<Rightarrow> (map_result \<times> appst) option" where
  "apps_mem_request_map64 env heapid lflags rflags vin len s =
     (let domain = current_domain env s;
          alloc = rpcmem_alloc_internal (a_rpc env) (a_env env) heapid lflags (word_of_int len) (rpc s) (mem s)
      in if nodes s domain = None then Some ((AEE_ERESOURCENOTFOUND, None, None), s)
         else case get_unsigned_pd_attribute (a_unsigned env) domain (sess (mem s)) of (nErr, unsigned_module) \<Rightarrow>
           if nErr \<noteq> 0 then Some ((nErr, None, None), s)
           else let ualloc_support = (if unsigned_module \<noteq> 0 then a_ualloc env else 0)
           in if \<not> len \<ge> 0 then Some ((AEE_EBADPARM, None, None), s)
           else if \<not> a_minfo env then Some ((AEE_ENOMEMORY, None, None), s)
           else if rflags = ADSP_MMAP_HEAP_ADDR \<or> rflags = ADSP_MMAP_REMOTE_HEAP_ADDR
           then remote_map env (-1) rflags 0 len False rflags domain s
           else if rflags = FASTRPC_ALLOC_HLOS_FD
           then case alloc of
                  None \<Rightarrow> None
                | Some (buf, r, st) \<Rightarrow>
                    let s = s\<lparr>rpc := r, mem := st\<rparr>; fd = rpcmem_to_fd_internal buf r
                    in if buf = 0 then map_bail env AEE_ENORPCMEMORY (Some 0) 0 s
                       else if \<not> 0 < fd then map_bail env AEE_EBADFD (Some 0) buf s
                       else (case fastrpc_mmap (a_env env) domain fd buf 0 (word_of_int len) FASTRPC_MAP_FD_DELAYED st of
                               (nErr, st) \<Rightarrow>
                                 let s = s\<lparr>mem := st\<rparr>
                                 in if nErr \<noteq> 0 then map_bail env nErr (Some 0) buf s
                                    else map_done domain rflags len False buf (word_of_int fd) s)
           else if user_backed rflags unsigned_module ualloc_support
           then case alloc of
                  None \<Rightarrow> None
                | Some (buf, r, st) \<Rightarrow>
                    let s = s\<lparr>rpc := r, mem := st\<rparr>; fd = rpcmem_to_fd_internal buf r
                    in if buf = 0 then map_bail env AEE_ENORPCMEMORY (Some 0) 0 s
                       else if \<not> fd > 0 then map_bail env AEE_EBADPARM (Some 0) buf s
                       else remote_map env fd rflags buf len False rflags domain s
           else remote_map env (-1) rflags 0 len False rflags domain s)"

text \<open>The 32-bit call cuts the two results; when they were not set, what it stores is indeterminate (\<open>None\<close>).\<close>

definition apps_mem_request_map ::
  "aenv \<Rightarrow> int \<Rightarrow> u32 \<Rightarrow> u32 \<Rightarrow> u32 \<Rightarrow> int \<Rightarrow> appst \<Rightarrow> ((int \<times> u32 option \<times> u32 option) \<times> appst) option" where
  "apps_mem_request_map env heapid lflags rflags vin len s =
     map_option (\<lambda>((nErr, vapps, vadsp), s). ((nErr, map_option ucast vapps, map_option ucast vadsp), s))
       (apps_mem_request_map64 env heapid lflags rflags (ucast vin) len s)"

definition apps_mem_share_map :: "aenv \<Rightarrow> int \<Rightarrow> int \<Rightarrow> appst \<Rightarrow> (map_result \<times> appst) option" where
  "apps_mem_share_map env fd sz s =
     (let domain = current_domain env s; buf = a_mmap env
      in if nodes s domain = None then Some ((AEE_ERESOURCENOTFOUND, None, None), s)
         else if \<not> fd > 0 then Some ((AEE_EBADPARM, None, None), s)
         else if \<not> a_minfo env then Some ((AEE_ENOMEMORY, None, None), s)
         else if buf = MAP_FAILED
         then Some ((AEE_ERPC, None, Some 0), s\<lparr>rpc := (rpc s)\<lparr>klog := klog (rpc s) @ [Munmap buf sz]\<rparr>\<rparr>)
         else remote_map env fd 0 buf sz True 0 domain s)"

section \<open>Unmapping\<close>

definition apps_mem_request_unmap64 :: "aenv \<Rightarrow> u64 \<Rightarrow> int \<Rightarrow> appst \<Rightarrow> (int \<times> appst) option" where
  "apps_mem_request_unmap64 env vadsp len s =
     (let domain = current_domain env s
      in case nodes s domain of
           None \<Rightarrow> Some (AEE_ERESOURCENOTFOUND, s)
         | Some me \<Rightarrow>
             let mfree = find (\<lambda>minfo. m_vadsp minfo = vadsp) (mem_list me);
                 (nErr, st) = (case mfree of
                     Some m \<Rightarrow> if m_rflags m = FASTRPC_ALLOC_HLOS_FD
                               then fastrpc_munmap (a_env env) domain (int32 (uint vadsp)) 0 (word_of_int len) (mem s)
                               else remote_munmap64 (a_env env) vadsp len (mem s)
                   | None \<Rightarrow> if fastrpc_get_pd_type (a_dsppd env) domain (sess (mem s)) = AUDIO_STATICPD
                             then remote_munmap64 (a_env env) vadsp len (mem s)
                             else (AEE_ENOSUCHMAP, mem s));
                 s = s\<lparr>mem := st\<rparr>
             in if nErr \<noteq> 0 then Some (nErr, s)
                else case mfree of
                  None \<Rightarrow> Some (0, s)
                | Some m \<Rightarrow>
                    let s = upd_list domain (del_first (\<lambda>minfo. m_vadsp minfo = vadsp)) s
                    in if m_mapped m
                       then Some (0, s\<lparr>rpc := (rpc s)\<lparr>klog := klog (rpc s) @ [Munmap (m_vapps m) (m_size m)]\<rparr>\<rparr>)
                       else if m_vapps m \<noteq> 0
                       then case rpcmem_free_internal (a_env env) (m_vapps m) (rpc s) (mem s) of
                              None \<Rightarrow> None | Some (r, st) \<Rightarrow> Some (0, s\<lparr>rpc := r, mem := st\<rparr>)
                       else Some (0, s))"

definition apps_mem_request_unmap :: "aenv \<Rightarrow> u32 \<Rightarrow> int \<Rightarrow> appst \<Rightarrow> (int \<times> appst) option" where
  "apps_mem_request_unmap env vadsp len s = apps_mem_request_unmap64 env (ucast vadsp) len s"

definition apps_mem_share_unmap :: "aenv \<Rightarrow> u64 \<Rightarrow> int \<Rightarrow> appst \<Rightarrow> (int \<times> appst) option" where
  "apps_mem_share_unmap env vadsp sz s = apps_mem_request_unmap64 env vadsp sz s"

section \<open>DMA handles\<close>

definition apps_mem_dma_handle_map :: "aenv \<Rightarrow> int \<Rightarrow> int \<Rightarrow> int \<Rightarrow> appst \<Rightarrow> int \<times> appst" where
  "apps_mem_dma_handle_map env fd offset sz s =
     (let domain = current_domain env s
      in if \<not> (fd > 0 \<and> sz > 0) then (AEE_EBADPARM, s)
         else case unregister_dma_handle fd (mem s) of
           ((len, attr), st) \<Rightarrow>
             if attr = FASTRPC_ATTR_NOMAP \<and> \<not> sz \<le> sint len then (AEE_EBADPARM, s\<lparr>mem := st\<rparr>)
             else case fastrpc_mmap (a_env env) domain fd 0 offset (word_of_int sz)
                         (if attr = FASTRPC_ATTR_NOMAP then FASTRPC_MAP_FD_NOMAP else FASTRPC_MAP_FD_DELAYED) st of
                    (nErr, st) \<Rightarrow> (nErr, s\<lparr>mem := st\<rparr>))"

definition apps_mem_dma_handle_unmap :: "aenv \<Rightarrow> int \<Rightarrow> int \<Rightarrow> appst \<Rightarrow> int \<times> appst" where
  "apps_mem_dma_handle_unmap env fd sz s =
     (if \<not> (fd > 0 \<and> sz > 0) then (AEE_EBADPARM, s)
      else case fastrpc_munmap (a_env env) (current_domain env s) fd 0 (word_of_int sz) (mem s) of
             (nErr, st) \<Rightarrow> (nErr, s\<lparr>mem := st\<rparr>))"

section \<open>Laws\<close>

text \<open>The mapping calls leave the registered buffers and the library's initialisation alone.\<close>

definition same_bufs :: "memst \<Rightarrow> memst \<Rightarrow> bool" where
  "same_bufs st st' \<longleftrightarrow> fdlist st' = fdlist st \<and> init_err (sess st') = init_err (sess st)"

lemma session_get_init: "fastrpc_session_get d s = (e, s') \<Longrightarrow> init_err s' = init_err s"
  by (auto simp: fastrpc_session_get_def upd_domain_def set_thread_context_def split: option.splits if_splits)

lemma session_put_init: "init_err (snd (fastrpc_session_put d s)) = init_err s"
  by (simp add: fastrpc_session_put_def upd_domain_def Let_def split: option.splits)

lemma with_session_same:
  assumes "with_session d fail body st = (r, st')"
    and "\<And>st q st1. body st = (q, st1) \<Longrightarrow> same_bufs st st1"
  shows "same_bufs st st'"
proof -
  obtain e s where g: "fastrpc_session_get d (sess st) = (e, s)" by fastforce
  obtain q st1 where b: "body (st\<lparr>sess := s\<rparr>) = (q, st1)" by fastforce
  have "same_bufs (st\<lparr>sess := s\<rparr>) st1" by (rule assms(2) [OF b])
  with assms(1) g b session_get_init [OF g] session_put_init [of d "sess st1"] show ?thesis
    by (auto simp: with_session_def same_bufs_def split: if_splits)
qed

lemma same_bufs_refl [simp]: "same_bufs st st" "same_bufs st (st'\<lparr>errno := e\<rparr>) = same_bufs st st'"
  "same_bufs st (clear_errno a b st') = same_bufs st st'" "same_bufs st (upd_smap d f st') = same_bufs st st'"
  "same_bufs st (upd_memlist d g st') = same_bufs st st'" "same_bufs (st\<lparr>errno := e\<rparr>) st' = same_bufs st st'"
  "same_bufs (upd_smap d f st) st' = same_bufs st st'" "same_bufs (upd_memlist d g st) st' = same_bufs st st'"
  by (auto simp: same_bufs_def clear_errno_def upd_smap_def upd_memlist_def)

lemma same_bufs_trans: "same_bufs a b \<Longrightarrow> same_bufs b c \<Longrightarrow> same_bufs a c"
  by (simp add: same_bufs_def)

lemma mmap_locked_same: "mmap_locked env d fd va off len fl at st = (q, st') \<Longrightarrow> same_bufs st st'"
  by (auto simp: mmap_locked_def Let_def split: if_splits prod.splits)

lemma mmap_helper_same: "fastrpc_mmap_helper env d fd va off len fl at st = (q, st') \<Longrightarrow> same_bufs st st'"
  by (auto simp: fastrpc_mmap_helper_def Let_def split: if_splits prod.splits dest!: with_session_same intro: mmap_locked_same)

lemma mmap_same:
  "fastrpc_mmap env d fd va off len fl st = (e, st') \<Longrightarrow> same_bufs st st'"
  "fastrpc_mmap_internal env d fd va off len fl st = (q, st') \<Longrightarrow> same_bufs st st'"
  by (auto simp: fastrpc_mmap_def fastrpc_mmap_internal_def Let_def split: if_splits prod.splits dest: mmap_helper_same)

lemma munmap_locked_same: "munmap_locked env P d st = (q, st') \<Longrightarrow> same_bufs st st'"
  by (auto simp: munmap_locked_def munmap_claim_def munmap_finish_def split: if_splits prod.splits option.splits sum.splits)

lemma munmap_same:
  "fastrpc_munmap env d fd va len st = (e, st') \<Longrightarrow> same_bufs st st'"
  "fastrpc_munmap_internal env d ra len st = (e, st') \<Longrightarrow> same_bufs st st'"
  by (auto simp: fastrpc_munmap_def fastrpc_munmap_internal_def Let_def split: if_splits prod.splits
      dest!: with_session_same intro: munmap_locked_same)

lemma mmap64_locked_same: "mmap64_locked env d fd fl va len st = (q, st') \<Longrightarrow> same_bufs st st'"
  by (auto simp: mmap64_locked_def Let_def split: if_splits prod.splits dest: mmap_same)

lemma remote_mmap64_internal_same: "remote_mmap64_internal env fd fl va len st = (q, st') \<Longrightarrow> same_bufs st st'"
  by (auto simp: remote_mmap64_internal_def Let_def split: if_splits prod.splits dest!: with_session_same intro: mmap64_locked_same)

text \<open>An allocation of the service: the address that the kernel hands out is fresh, its descriptors are not negative.\<close>

definition good_alloc :: "aenv \<Rightarrow> int \<Rightarrow> appst \<Rightarrow> bool" where
  "good_alloc env len s \<longleftrightarrow>
     fastrpc_init_once (mem s) = 0 \<and> 0 < len \<and> len \<le> INT_MAX \<and> fresh_address (r_mmap (a_rpc env)) (rpc s) (mem s) \<and>
     (\<forall>b n e fd. r_ioctl (a_rpc env) b n = (e, fd) \<and> e = 0 \<longrightarrow> fd \<ge> 0)"

lemma cut_len_small: "0 < len \<Longrightarrow> len \<le> INT_MAX \<Longrightarrow> cut_len (word_of_int len) \<noteq> 0 \<and> int32 (uint (word_of_int len :: u64)) = len"
proof -
  assume l: "0 < len" "len \<le> INT_MAX"
  then have u: "uint (word_of_int len :: u64) = len" by (simp add: unsigned_of_int take_bit_int_eq_self)
  with l have "int32 (uint (word_of_int len :: u64)) = len" by (simp add: int32_id)
  moreover have "(word_of_int len :: u64) \<noteq> 0" using u l by auto
  ultimately show ?thesis by (simp add: cut_len_def)
qed

lemma good_alloc_cases:
  assumes "good_alloc env len s"
    and a: "rpcmem_alloc_internal (a_rpc env) (a_env env) heapid fl (word_of_int len) (rpc s) (mem s) = Some (buf, r, st)"
  shows "buf = 0 \<and> r = rpc s \<and> st = mem s \<or>
    buf \<noteq> 0 \<and> fresh_address buf (rpc s) (mem s) \<and> (\<exists>fd \<ge> 0. (r, st) = alloc_state (a_env env) buf (word_of_int len) fd (rpc s) (mem s))"
  using rpcmem_alloc_cases [OF a] assms(1) cut_len_small [of len] by (auto simp: good_alloc_def)

lemma alloc_aborts_not:
  assumes "good_alloc env len s"
  shows "rpcmem_alloc_internal (a_rpc env) (a_env env) heapid fl (word_of_int len) (rpc s) (mem s) \<noteq> None"
proof -
  let ?k = "a_rpc env" and ?n = "word_of_int len :: u64"
  obtain e fd where q: "(if dmafd (rpc s) \<noteq> -1 then r_ioctl ?k True ?n else r_ioctl ?k False (?n + PAGE_SIZE)) = (e, fd)"
    by (metis surj_pair)
  have "fd \<noteq> -1" if "e = 0"
  proof -
    have "fd \<ge> 0" using q that assms unfolding good_alloc_def by metis
    then show ?thesis by simp
  qed
  then have "e = 0 \<Longrightarrow> remote_register_buf (a_env env) (r_mmap ?k) (int32 (uint ?n)) fd (mem s) \<noteq> None"
    by (simp add: remote_register_buf_def remote_register_buf_common_def)
  then show ?thesis using q by (auto simp: rpcmem_alloc_internal_def Let_def split: option.split)
qed

text \<open>Freeing a buffer of the service after mapping calls in between: everything but the mappings is as before the
  allocation.\<close>

lemma free_after_mapping:
  assumes a: "(r, st) = alloc_state env buf (word_of_int len) fd r0 st0" and f: "fresh_address buf r0 st0" "buf \<noteq> 0"
    and l: "0 < len" "len \<le> INT_MAX" "fastrpc_init_once st0 = 0" and s: "same_bufs st st'"
  shows "rpcmem_free_internal env' buf r st' = Some (r0\<lparr>klog := klog r0 @ [Munmap buf len, Close fd]\<rparr>, st'\<lparr>fdlist := fdlist st0\<rparr>)"
proof -
  let ?s0 = "st'\<lparr>fdlist := fdlist st0\<rparr>"
  note L = cut_len_small [OF l(1,2)]
  have f': "fresh_address buf r0 ?s0" "fastrpc_init_once ?s0 = 0"
    using f s l(3) a by (auto simp: fresh_address_def same_bufs_def fastrpc_init_once_def alloc_state_def)
  have st': "st' = snd (alloc_state env buf (word_of_int len) fd r0 ?s0)"
    using a s by (auto simp: alloc_state_def same_bufs_def)
  have "(r, st') = alloc_state env buf (word_of_int len) fd r0 ?s0"
    using a st' by (simp add: alloc_state_def)
  from rpcmem_alloc_state(2) [OF this f'(1) f'(2) f(2)] L show ?thesis by simp
qed

section \<open>Requests that fail\<close>

text \<open>What a failed request must leave as it was: the list of every domain, the buffers of the allocator, the
  registered buffers.\<close>

definition restored :: "appst \<Rightarrow> appst \<Rightarrow> bool" where
  "restored s s' \<longleftrightarrow> nodes s' = nodes s \<and> rpclst (rpc s') = rpclst (rpc s) \<and> fdlist (mem s') = fdlist (mem s)"

lemma restored_refl [simp]: "restored s s"
  by (simp add: restored_def)

lemma bail_restores:
  assumes "good_alloc env len s" "fresh_address buf (rpc s) (mem s)" "buf \<noteq> 0"
    and "(r, st) = alloc_state (a_env env) buf (word_of_int len) fd (rpc s) (mem s)"
    and "rpc s1 = r" "nodes s1 = nodes s" "same_bufs st (mem s1)"
  shows "\<exists>s'. map_bail env e vd buf s1 = Some ((e, None, vd), s') \<and> restored s s'"
  using free_after_mapping [OF assms(4,2,3), of "mem s1" "a_env env"] assms
  by (auto simp: map_bail_def good_alloc_def restored_def)

definition clean_failure :: "appst \<Rightarrow> (map_result \<times> appst) option \<Rightarrow> bool" where
  "clean_failure s x \<longleftrightarrow> (\<exists>e va vd s'. x = Some ((e, va, vd), s') \<and> (e \<noteq> 0 \<longrightarrow> va = None \<and> restored s s'))"

lemma clean_failure_at_once [simp]: "clean_failure s (Some ((e, None, v), s))" "clean_failure s (map_done d fl len b va vd s2)"
  by (auto simp: clean_failure_def map_done_def)

lemma remote_map_clean:
  assumes "good_alloc env len s" "fresh_address buf (rpc s) (mem s)" "buf \<noteq> 0"
    and "(r, st) = alloc_state (a_env env) buf (word_of_int len) fd (rpc s) (mem s)"
  shows "clean_failure s (remote_map env fd2 fl buf len False fl d (s\<lparr>rpc := r, mem := st\<rparr>))"
proof -
  obtain e out st1 where q: "remote_mmap64_internal (a_env env) fd2 fl buf (word_of_int len) st = ((e, out), st1)"
    by (metis surj_pair)
  have "clean_failure s (map_bail env e v buf (s\<lparr>rpc := r, mem := st1\<rparr>))" for v
    using bail_restores [OF assms, of "s\<lparr>rpc := r, mem := st1\<rparr>" e v] remote_mmap64_internal_same [OF q]
    by (auto simp: clean_failure_def)
  with q show ?thesis by (simp add: remote_map_def Let_def)
qed

lemma remote_map_unbacked_clean: "clean_failure s (remote_map env fd fl 0 len False fl2 d s)"
  using remote_mmap64_internal_same [of "a_env env" fd fl 0 "word_of_int len" "mem s"]
  by (auto simp: clean_failure_def remote_map_def map_done_def map_bail_def restored_def same_bufs_def Let_def split: prod.split)

text \<open>C35: A mapping request of the DSP for at most \<^verbatim>\<open>INT_MAX\<close> bytes never aborts, and when it fails, at whatever step,
  it has given back its memory: the lists of the mapped memory (\<open>nodes\<close>), of the allocator's buffers and of the
  registered buffers are those of before, and the caller's address is not set. It is assumed that the process is
  initialised and that the kernel hands out fresh addresses and non-negative descriptors. The mappings of
  \<^verbatim>\<open>src/fastrpc_mem.c\<close> are not spoken of: a request for the DSP's heap that the driver refuses leaves a node in
  their list (\<open>heap_mapping_recorded_on_failure\<close>).\<close>

theorem map_failure_frees:
  assumes g: "good_alloc env len s"
  shows "\<exists>e va vd s'. apps_mem_request_map64 env heapid lflags rflags vin len s = Some ((e, va, vd), s') \<and>
    (e \<noteq> 0 \<longrightarrow> va = None \<and> restored s s')"
proof -
  let ?d = "current_domain env s"
  obtain buf r st where a: "rpcmem_alloc_internal (a_rpc env) (a_env env) heapid lflags (word_of_int len) (rpc s) (mem s) = Some (buf, r, st)"
    using alloc_aborts_not [OF g] by fastforce
  let ?s1 = "s\<lparr>rpc := r, mem := st\<rparr>"
  have "clean_failure s (apps_mem_request_map64 env heapid lflags rflags vin len s)"
  proof (cases "buf = 0")
    case True
    with good_alloc_cases [OF g a] a remote_map_unbacked_clean [of s env] show ?thesis
      by (simp add: apps_mem_request_map64_def Let_def map_bail_def split: prod.split)
  next
    case False
    then obtain f where f: "fresh_address buf (rpc s) (mem s)"
      "(r, st) = alloc_state (a_env env) buf (word_of_int len) f (rpc s) (mem s)" using good_alloc_cases [OF g a] by auto
    have bail: "clean_failure s (map_bail env e vd buf (s\<lparr>rpc := r, mem := st1\<rparr>))" if "same_bufs st st1" for e vd st1
      using bail_restores [OF g f(1) False f(2), of "s\<lparr>rpc := r, mem := st1\<rparr>" e vd] that by (auto simp: clean_failure_def)
    have "clean_failure s (map_bail env e vd buf ?s1)" for e vd using bail [of st] by simp
    moreover have "clean_failure s (map_bail env e vd buf (s\<lparr>rpc := r, mem := st1\<rparr>))"
      if "fastrpc_mmap (a_env env) ?d fd buf 0 (word_of_int len) FASTRPC_MAP_FD_DELAYED st = (e, st1)" for fd e vd st1
      using mmap_same(1) [OF that] bail by blast
    ultimately show ?thesis
      using a False remote_map_unbacked_clean [of s env] remote_map_clean [OF g f(1) False f(2)]
      by (simp add: apps_mem_request_map64_def Let_def split: prod.split)
  qed
  then show ?thesis by (simp add: clean_failure_def)
qed

section \<open>Map and unmap\<close>

lemma munmap64_locked_same: "munmap64_locked env d va len st = (q, st') \<Longrightarrow> same_bufs st st'"
proof -
  assume m: "munmap64_locked env d va len st = (q, st')"
  have l: "same_bufs st st1" if "fastrpc_remote_map_lookup d va st = (x, st1)" for x st1
    using that by (auto simp: fastrpc_remote_map_lookup_def split: option.splits)
  from m show ?thesis
    by (auto simp: munmap64_locked_def Let_def split: if_splits prod.splits option.splits
        dest!: l munmap_same(2) elim: same_bufs_trans)
qed

lemma remote_munmap64_same: "remote_munmap64 env va len st = (e, st') \<Longrightarrow> same_bufs st st'"
  by (auto simp: remote_munmap64_def Let_def split: if_splits prod.splits dest!: with_session_same intro: munmap64_locked_same)

text \<open>What a request that succeeds leaves: one more node, and the memory it allocated, if it did.\<close>

definition mapped_state :: "aenv \<Rightarrow> int \<Rightarrow> u32 \<Rightarrow> u64 \<Rightarrow> u64 \<Rightarrow> appst \<Rightarrow> appst \<Rightarrow> bool" where
  "mapped_state env len rflags va vd s s1 \<longleftrightarrow>
     nodes s1 = nodes (upd_list (current_domain env s) (\<lambda>l. l @ [\<lparr>m_vapps = va, m_vadsp = vd, m_size = int32 len,
                                                      m_mapped = False, m_rflags = rflags\<rparr>]) s) \<and>
     (va = 0 \<and> rpc s1 = rpc s \<and> same_bufs (mem s) (mem s1) \<or>
      va \<noteq> 0 \<and> fresh_address va (rpc s) (mem s) \<and>
      (\<exists>st fd. (rpc s1, st) = alloc_state (a_env env) va (word_of_int len) fd (rpc s) (mem s) \<and> same_bufs st (mem s1)))"

lemma remote_map_success:
  assumes "remote_map env fd fl buf len False fl d s = Some ((0, Some va, Some vd), s1)"
  shows "va = buf \<and> rpc s1 = rpc s \<and> same_bufs (mem s) (mem s1) \<and>
    nodes s1 = nodes (upd_list d (\<lambda>l. l @ [\<lparr>m_vapps = buf, m_vadsp = vd, m_size = int32 len, m_mapped = False, m_rflags = fl\<rparr>]) s)"
proof -
  obtain e out st1 where q: "remote_mmap64_internal (a_env env) fd fl buf (word_of_int len) (mem s) = ((e, out), st1)"
    by (metis surj_pair)
  with assms remote_mmap64_internal_same [OF q] show ?thesis
    by (auto simp: remote_map_def map_done_def map_bail_def upd_list_def Let_def split: if_splits option.splits prod.splits)
qed

lemma map_success:
  assumes g: "good_alloc env len s"
    and m: "apps_mem_request_map64 env heapid lflags rflags vin len s = Some ((0, Some va, Some vd), s1)"
  shows "mapped_state env len rflags va vd s s1"
proof -
  let ?d = "current_domain env s"
  obtain buf r st where a: "rpcmem_alloc_internal (a_rpc env) (a_env env) heapid lflags (word_of_int len) (rpc s) (mem s) = Some (buf, r, st)"
    using alloc_aborts_not [OF g] by fastforce
  have plain: "mapped_state env len fl va vd s s1" if "remote_map env (-1) fl 0 len False fl ?d s = Some ((0, Some va, Some vd), s1)" for fl
    using remote_map_success [OF that] by (simp add: mapped_state_def)
  have upd: "nodes (upd_list d f (s\<lparr>rpc := x, mem := y\<rparr>)) = nodes (upd_list d f s)" for d f x y
    by (simp add: upd_list_def)
  have backed: "mapped_state env len fl va vd s s1"
    if "buf \<noteq> 0" "remote_map env fd fl buf len False fl ?d (s\<lparr>rpc := r, mem := st\<rparr>) = Some ((0, Some va, Some vd), s1)" for fd fl
    using remote_map_success [OF that(2)] good_alloc_cases [OF g a] that(1) upd by (auto simp: mapped_state_def)
  have hlos: "mapped_state env len fl va vd s s1"
    if "buf \<noteq> 0" "fastrpc_mmap (a_env env) ?d fd buf 0 (word_of_int len) FASTRPC_MAP_FD_DELAYED st = (0, st1)"
      "map_done ?d fl len False buf (word_of_int fd) (s\<lparr>rpc := r, mem := st1\<rparr>) = Some ((0, Some va, Some vd), s1)" for fd st1 fl
  proof -
    note T = that
    obtain f where "fresh_address buf (rpc s) (mem s)" "(r, st) = alloc_state (a_env env) buf (word_of_int len) f (rpc s) (mem s)"
      using good_alloc_cases [OF g a] T(1) by auto
    moreover have "va = buf" "vd = word_of_int fd" "s1 = upd_list ?d (\<lambda>l. l @ [\<lparr>m_vapps = va, m_vadsp = vd,
        m_size = int32 len, m_mapped = False, m_rflags = fl\<rparr>]) (s\<lparr>rpc := r, mem := st1\<rparr>)"
      using T(3) by (auto simp: map_done_def)
    moreover have "rpc (upd_list ?d g t) = rpc t" "mem (upd_list ?d g t) = mem t" for g t by (simp_all add: upd_list_def)
    ultimately show ?thesis
      using mmap_same(1) [OF T(2)] T(1) upd by (auto simp: mapped_state_def intro!: exI [of _ st] exI [of _ f])
  qed
  have bail: "map_bail env e v b t \<noteq> Some ((0, Some va, Some vd), s1)" for e v b t
    by (auto simp: map_bail_def split: option.splits if_splits)
  from m show ?thesis
    using a bail by (auto simp: apps_mem_request_map64_def Let_def split: if_splits option.splits prod.splits intro: plain backed hlos)
qed

text \<open>C22: A mapping that the DSP requested and released again leaves nothing behind. After a request that succeeded,
  when the address it returned is not that of another node of the domain, a release by that address that succeeds
  removes exactly the node that was added, and frees and deregisters exactly the memory that the request
  allocated.\<close>

theorem map_unmap_roundtrip:
  assumes g: "good_alloc env len s"
    and m: "apps_mem_request_map64 env heapid lflags rflags vin len s = Some ((0, Some va, Some vd), s1)"
    and n: "nodes s (current_domain env s) = Some me" "\<forall>m \<in> set (mem_list me). m_vadsp m \<noteq> vd"
    and d: "current_domain env' s1 = current_domain env s"
    and u: "apps_mem_request_unmap64 env' vd len2 s1 = Some (0, s2)"
  shows "restored s s2 \<and> (va \<noteq> 0 \<longrightarrow> (\<exists>fd. klog (rpc s2) = klog (rpc s1) @ [Munmap va len, Close fd]))"
proof -
  let ?d = "current_domain env s"
  let ?m = "\<lparr>m_vapps = va, m_vadsp = vd, m_size = int32 len, m_mapped = False, m_rflags = rflags\<rparr>"
  let ?P = "\<lambda>minfo. m_vadsp minfo = vd"
  note M = map_success [OF g m]
  have n1: "nodes s1 = (nodes s)(?d \<mapsto> me\<lparr>mem_list := mem_list me @ [?m]\<rparr>)"
    using M n(1) by (simp add: mapped_state_def upd_list_def)
  have f: "find ?P (mem_list me @ [?m]) = Some ?m" "del_first ?P (mem_list me @ [?m]) = mem_list me"
    using n(2) by (intro find_last del_first_last; simp)+
  define q where "q = (if rflags = FASTRPC_ALLOC_HLOS_FD
    then fastrpc_munmap (a_env env') ?d (int32 (uint vd)) 0 (word_of_int len2) (mem s1)
    else remote_munmap64 (a_env env') vd len2 (mem s1))"
  obtain e st2 where q: "q = (e, st2)" by (metis surj_pair)
  have sb: "same_bufs (mem s1) st2"
    using q munmap_same(1) remote_munmap64_same unfolding q_def by (auto split: if_splits)
  let ?s3 = "upd_list ?d (del_first ?P) (s1\<lparr>mem := st2\<rparr>)"
  have n3: "nodes ?s3 = nodes s" "rpc ?s3 = rpc s1" "mem ?s3 = st2"
    using n1 f(2) n(1) by (simp_all add: upd_list_def fun_eq_iff)
  from u have e: "e = 0" and u2: "(if va \<noteq> 0 then case rpcmem_free_internal (a_env env') va (rpc s1) st2 of
                              None \<Rightarrow> None | Some (r, st) \<Rightarrow> Some (0, ?s3\<lparr>rpc := r, mem := st\<rparr>)
                       else Some (0 :: int, ?s3)) = Some (0, s2)"
    using f(1) q n3 by (auto simp: apps_mem_request_unmap64_def d n1 q_def Let_def split: if_splits prod.splits)
  show ?thesis
  proof (cases "va = 0")
    case True
    with u2 n3 M sb show ?thesis by (auto simp: mapped_state_def restored_def same_bufs_def)
  next
    case False
    then obtain st fd where a: "fresh_address va (rpc s) (mem s)" "same_bufs st (mem s1)"
      "(rpc s1, st) = alloc_state (a_env env) va (word_of_int len) fd (rpc s) (mem s)"
      using M by (auto simp: mapped_state_def)
    have k: "klog (rpc s1) = klog (rpc s)" using a(3) by (simp add: alloc_state_def)
    have "rpcmem_free_internal (a_env env') va (rpc s1) st2 =
        Some ((rpc s)\<lparr>klog := klog (rpc s) @ [Munmap va len, Close fd]\<rparr>, st2\<lparr>fdlist := fdlist (mem s)\<rparr>)"
      using g by (intro free_after_mapping [OF a(3,1) False] same_bufs_trans [OF a(2) sb]) (simp_all add: good_alloc_def)
    with u2 False n3 k show ?thesis by (auto simp: restored_def)
  qed
qed

section \<open>Requests without a descriptor\<close>

lemma convert_error: "e \<noteq> 0 \<Longrightarrow> convert_kernel_to_user_error e en \<noteq> 0"
  by (simp add: convert_kernel_to_user_error_def)

lemma mmap64_no_descriptor:
  assumes "mmap64_locked env d (-1) fl va len st = ((e, out), st')" "\<not> is_heap_flag fl"
  shows "e \<noteq> 0"
  using assms by (auto simp: mmap64_locked_def fastrpc_mmap_internal_def Let_def split: if_splits prod.splits)

lemma remote_mmap64_no_descriptor:
  assumes "remote_mmap64_internal env (-1) fl va len st = ((e, out), st')" "\<not> is_heap_flag fl"
  shows "e \<noteq> 0"
proof -
  have w: "e1 \<noteq> 0" if "with_session d (\<lambda>e. (e, None)) (mmap64_locked env d (-1) fl va len) st = ((e1, out), st1)" for d e1 out st1
    using that mmap64_no_descriptor [OF _ assms(2)] by (auto simp: with_session_def split: if_splits prod.splits)
  let ?d = "get_current_domain (default_domain env) (sess st)"
  obtain e1 o1 st1 where x: "(if fastrpc_init_once st \<noteq> 0 then ((fastrpc_init_once st, None), st)
      else if \<not> IS_VALID_EFFECTIVE_DOMAIN_ID ?d then ((AEE_EBADDOMAIN, None), st)
      else with_session ?d (\<lambda>e. (e, None)) (mmap64_locked env ?d (-1) fl va len) st) = ((e1, o1), st1)"
    by (metis surj_pair)
  then have "e1 \<noteq> 0" using w by (auto split: if_splits)
  moreover from assms(1) have "e = convert_kernel_to_user_error e1 (errno st1)"
    unfolding remote_mmap64_internal_def Let_def x by auto
  ultimately show ?thesis using convert_error by simp
qed

text \<open>Two kinds of heap requests of the DSP can never succeed in this build. \<^verbatim>\<open>ADSP_MMAP_HEAP_ADDR\<close> and, unless the
  memory is allocated in user space, \<^verbatim>\<open>ADSP_MMAP_ADD_PAGES_LLC\<close> are passed on without a descriptor, but
  \<^verbatim>\<open>remote_mmap64_internal\<close> only accepts that for \<^verbatim>\<open>ADSP_MMAP_ADD_PAGES\<close> and \<^verbatim>\<open>ADSP_MMAP_REMOTE_HEAP_ADDR\<close>; all
  others go to the static mapping path, which refuses the descriptor \<open>-1\<close>.\<close>

theorem heap_requests_refused:
  assumes "rflags = ADSP_MMAP_HEAP_ADDR \<or> rflags = ADSP_MMAP_ADD_PAGES_LLC \<and>
      \<not> user_backed rflags (a_unsigned env (current_domain env s)) (a_ualloc env)"
  shows "\<exists>e vd s'. apps_mem_request_map64 env heapid lflags rflags vin len s = Some ((e, None, vd), s') \<and> e \<noteq> 0 \<and>
    nodes s' = nodes s \<and> rpc s' = rpc s"
proof -
  have R: "\<exists>e vd s'. remote_map env (-1) rflags 0 len False rflags d s = Some ((e, None, vd), s') \<and> e \<noteq> 0 \<and>
    nodes s' = nodes s \<and> rpc s' = rpc s" for d
  proof -
    obtain e out st1 where q: "remote_mmap64_internal (a_env env) (-1) rflags 0 (word_of_int len) (mem s) = ((e, out), st1)"
      by (metis surj_pair)
    have "e \<noteq> 0" by (rule remote_mmap64_no_descriptor [OF q]) (use assms in \<open>auto simp: is_heap_flag_def\<close>)
    with q show ?thesis by (simp add: remote_map_def map_bail_def Let_def)
  qed
  have u: "\<not> user_backed rflags (a_unsigned env (current_domain env s))
      (if a_unsigned env (current_domain env s) \<noteq> 0 then a_ualloc env else 0)"
    if "rflags = ADSP_MMAP_ADD_PAGES_LLC" using that assms by (auto simp: user_backed_def)
  from assms show ?thesis
  proof (elim disjE conjE)
    assume "rflags = ADSP_MMAP_HEAP_ADDR"
    with R show ?thesis
      by (auto simp: apps_mem_request_map64_def get_unsigned_pd_attribute_def Let_def)
  next
    assume "rflags = ADSP_MMAP_ADD_PAGES_LLC"
    with R u show ?thesis
      by (auto simp: apps_mem_request_map64_def get_unsigned_pd_attribute_def Let_def)
  qed
qed

section \<open>Examples\<close>

text \<open>Domain 3 with an empty list, the heap opened as descriptor 10; allocations get the descriptor \<open>fd\<close>.\<close>

definition demo_apps :: appst where
  "demo_apps = \<lparr>nodes = (\<lambda>_. None)(3 \<mapsto> \<lparr>mem_list = [], a_init = True\<rparr>),
                rpc = \<lparr>dmafd = 10, rpcfd = -1, rpclst = [], klog = []\<rparr>, mem = demo_st\<rparr>"

definition demo_aenv :: "int \<Rightarrow> aenv" where
  "demo_aenv fd = \<lparr>a_env = demo_env, a_rpc = \<lparr>r_calloc = True, r_ioctl = (\<lambda>_ _. (0, fd)), r_mmap = 0x70000000\<rparr>,
                   a_node = True, a_minfo = True, a_unsigned = (\<lambda>_. 0), a_dsppd = (\<lambda>_. 0), a_ualloc = 0, a_mmap = 0\<rparr>"

lemma demo_good: "fd \<ge> 0 \<Longrightarrow> good_alloc (demo_aenv fd) 0x2000 demo_apps"
  by (simp add: good_alloc_def demo_aenv_def demo_apps_def demo_st_def fastrpc_init_once_def fresh_address_def)

lemma demo_domain: "current_domain (demo_aenv fd) demo_apps = 3"
  by (simp add: current_domain_def demo_aenv_def demo_apps_def demo_st_def demo_env_def get_current_domain_def
      IS_VALID_EFFECTIVE_DOMAIN_ID_def)

theorem map_failure_frees_witness:
  "\<exists>vd s'. apps_mem_request_map64 (demo_aenv 0) 25 0 FASTRPC_ALLOC_HLOS_FD 0 0x2000 demo_apps = Some ((AEE_EBADFD, None, vd), s') \<and>
     restored demo_apps s'"
proof -
  obtain e va vd s' where m: "apps_mem_request_map64 (demo_aenv 0) 25 0 FASTRPC_ALLOC_HLOS_FD 0 0x2000 demo_apps = Some ((e, va, vd), s')"
    and r: "e \<noteq> 0 \<longrightarrow> va = None \<and> restored demo_apps s'"
    using map_failure_frees [OF demo_good [of 0], of 25 0 FASTRPC_ALLOC_HLOS_FD 0] by auto
  obtain buf rr st where a: "rpcmem_alloc_internal (a_rpc (demo_aenv 0)) (a_env (demo_aenv 0)) 25 0 (word_of_int 0x2000) (rpc demo_apps) (mem demo_apps)
      = Some (buf, rr, st)"
    using alloc_aborts_not [OF demo_good [of 0]] by fastforce
  have "buf = 0x70000000 \<and> rpcmem_to_fd_internal buf rr = 0"
    using a by (auto simp: rpcmem_alloc_internal_def demo_aenv_def demo_apps_def rpcmem_to_fd_internal_def Let_def split: option.splits)
  with m a have "e = AEE_EBADFD"
    by (auto simp: apps_mem_request_map64_def demo_domain get_unsigned_pd_attribute_def map_bail_def Let_def
        split: option.splits if_splits prod.splits)
      (auto simp: demo_apps_def demo_st_def demo_aenv_def IS_VALID_EFFECTIVE_DOMAIN_ID_def)
  with m r show ?thesis by simp
qed

theorem heap_requests_refused_witness:
  "\<exists>e vd s'. apps_mem_request_map64 (demo_aenv 11) 25 0 ADSP_MMAP_HEAP_ADDR 0 0x2000 demo_apps = Some ((e, None, vd), s') \<and> e \<noteq> 0"
  using heap_requests_refused [where rflags = ADSP_MMAP_HEAP_ADDR and env = "demo_aenv 11" and s = demo_apps] by fastforce

theorem map_unmap_roundtrip_witness:
  "\<exists>s1 s2. apps_mem_request_map64 (demo_aenv 11) 25 0 FASTRPC_ALLOC_HLOS_FD 0 0x2000 demo_apps = Some ((0, Some 0x70000000, Some 11), s1) \<and>
     apps_mem_request_unmap64 (demo_aenv 11) 11 0x2000 s1 = Some (0, s2) \<and> restored demo_apps s2"
proof -
  have "\<exists>s1. apps_mem_request_map64 (demo_aenv 11) 25 0 FASTRPC_ALLOC_HLOS_FD 0 0x2000 demo_apps = Some ((0, Some 0x70000000, Some 11), s1)
     \<and> (\<exists>s2. apps_mem_request_unmap64 (demo_aenv 11) 11 0x2000 s1 = Some (0, s2)) \<and> current_domain (demo_aenv 11) s1 = 3"
    by (simp add: apps_mem_request_map64_def apps_mem_request_unmap64_def demo_domain get_unsigned_pd_attribute_def Let_def
      rpcmem_alloc_internal_def remote_register_buf_def remote_register_buf_common_def register_buf_add_def register_buf_remove_def
      rpcmem_to_fd_internal_def rpcmem_free_internal_def map_done_def upd_list_def current_domain_def
      fastrpc_mmap_def fastrpc_mmap_helper_def mmap_locked_def with_session_def resolve_domain_def fastrpc_init_once_def
      fastrpc_session_get_def fastrpc_session_put_def fastrpc_session_dev_def upd_domain_def set_thread_context_def
      fastrpc_munmap_def munmap_locked_def munmap_claim_def munmap_finish_def ioctl_mmap_def ioctl_munmap_def upd_smap_def clear_errno_def
      demo_aenv_def demo_apps_def demo_st_def demo_env_def get_current_domain_def IS_VALID_EFFECTIVE_DOMAIN_ID_def int32_id)
  then obtain s1 s2 where m: "apps_mem_request_map64 (demo_aenv 11) 25 0 FASTRPC_ALLOC_HLOS_FD 0 0x2000 demo_apps = Some ((0, Some 0x70000000, Some 11), s1)"
    "apps_mem_request_unmap64 (demo_aenv 11) 11 0x2000 s1 = Some (0, s2)" "current_domain (demo_aenv 11) s1 = 3" by blast
  with map_unmap_roundtrip [OF demo_good m(1), of "\<lparr>mem_list = [], a_init = True\<rparr>" "demo_aenv 11" "0x2000" s2]
  show ?thesis by (simp add: demo_domain) (simp add: demo_apps_def)
qed

end
