(* ===== verification/QueueDomain.thy ===== *)
theory QueueDomain
  imports QueueProps AppsMem
begin

text \<open>
  The per-domain part of \<^verbatim>\<open>src/dspqueue/dspqueue_cpu.c\<close>: the table of a domain's queues, the shared state block and
  the two signalling threads, and how they are set up with the first queue of a domain and taken down with the
  last. Calls to the DSP (generated stubs), \<^verbatim>\<open>remote_session_control\<close>, \<^verbatim>\<open>fastrpc_get_cap\<close>, the allocator's answers and the
  results of the thread functions are arguments. \<open>None\<close> is a failed assertion or an abort.
\<close>

section \<open>State\<close>

datatype slot = UNUSED_QUEUE | INVALID_QUEUE | Queue nat

abbreviation (input) DSPQUEUE_MAX_PROCESS_QUEUES :: nat where "DSPQUEUE_MAX_PROCESS_QUEUES \<equiv> 64"
abbreviation (input) FASTRPC_MAP_FD :: u32 where "FASTRPC_MAP_FD \<equiv> 2"
abbreviation (input) SIGNAL_BIT_SIGNAL :: u32 where "SIGNAL_BIT_SIGNAL \<equiv> 1"
abbreviation (input) SIGNAL_BIT_CANCEL :: u32 where "SIGNAL_BIT_CANCEL \<equiv> 2"
abbreviation (input) QUEUE_STATE_SIZE :: u64 where "QUEUE_STATE_SIZE \<equiv> 1024"

text \<open>\<open>send_thread\<close> and \<open>recv_thread\<close> tell whether the threads run.\<close>

record domain_queues =
  num_queues :: u32
  max_queue :: nat
  slots :: "slot list"
  dq_state :: u64
  dq_state_fd :: int
  dq_handle :: u64
  send_thread :: bool
  recv_thread :: bool
  dsp_error :: int
  have_dspsignal :: bool

text \<open>The offsets of a queue's header.\<close>

record queue_layout =
  req_offset :: u32
  req_read_state :: u32
  req_write_state :: u32
  resp_offset :: u32
  resp_read_state :: u32
  resp_write_state :: u32
  layout_end :: u32

text \<open>A queue object: the part that packet operations use (\<open>core\<close>), the shared memory, the handle of the DSP's side,
  the header's version and flags, which callbacks the client gave, whether an error callback thread was started.\<close>

record qobj =
  core :: dspqueue
  user_queue :: u64
  user_queue_fd :: int
  user_queue_size :: u32
  dsp_id :: u64
  version :: u32
  hdr_flags :: u32
  lay :: queue_layout
  packet_callback :: bool
  error_callback_set :: bool
  error_thread :: bool

text \<open>The process: the domains' tables, the queue counter, whether the one-time initialisation ran, for which domains exit notifications are registered, the
  queue objects by address, the memory, signal and send-mask state, and the shared buffers.\<close>

record life =
  doms :: "int \<Rightarrow> domain_queues option"
  q_count :: u32
  queues_once :: bool
  notif_registered :: "int \<Rightarrow> bool"
  objs :: "nat \<Rightarrow> qobj option"
  next_obj :: nat
  lw :: world
  lrpc :: rpcst

text \<open>The answers of the environment to one call. Functions from numbers give the answers of the call's several uses of
  a service, in the order of the code.\<close>

record lenv =
  e_once :: int
  e_mem :: menv
  e_rpc :: "nat \<Rightarrow> renv"
  e_calloc :: "nat \<Rightarrow> bool"
  e_uri :: int
  e_open :: "int \<times> u64"
  e_notif :: int
  e_init_state :: int
  e_cap :: "nat \<Rightarrow> int \<times> u32"
  e_pinit :: "nat \<Rightarrow> int"
  e_thread :: "nat \<Rightarrow> int"
  e_cancel_wait :: int
  e_join :: "nat \<Rightarrow> int \<times> int"
  e_rpc_close :: int
  e_sig_alloc :: "bool \<times> bool"
  e_create :: "nat \<Rightarrow> int \<times> u64"
  e_imported :: "int \<times> bool"
  e_destroy :: int

definition upd_dq :: "int \<Rightarrow> (domain_queues \<Rightarrow> domain_queues) \<Rightarrow> life \<Rightarrow> life" where
  "upd_dq domain f s = s\<lparr>doms := (doms s)(domain := map_option f (doms s domain))\<rparr>"

definition upd_mask :: "int \<Rightarrow> (u32 \<Rightarrow> u32) \<Rightarrow> life \<Rightarrow> life" where
  "upd_mask domain f s = s\<lparr>lw := (lw s)\<lparr>w_send_mask := (w_send_mask (lw s))(domain := f (w_send_mask (lw s) domain))\<rparr>\<rparr>"

definition set_mem :: "memst \<Rightarrow> life \<Rightarrow> life" where
  "set_mem m s = s\<lparr>lw := (lw s)\<lparr>w_mem := m\<rparr>\<rparr>"

text \<open>The shared-memory calls on the process state.\<close>

definition life_alloc :: "lenv \<Rightarrow> nat \<Rightarrow> u64 \<Rightarrow> life \<Rightarrow> (u64 \<times> life) option" where
  "life_alloc env n sz s =
     (case rpcmem_alloc_internal (e_rpc env n) (e_mem env) 25 0x40000001 sz (lrpc s) (w_mem (lw s)) of
        None \<Rightarrow> None | Some (va, r, m) \<Rightarrow> Some (va, set_mem m s\<lparr>lrpc := r\<rparr>))"

definition life_free :: "lenv \<Rightarrow> u64 \<Rightarrow> life \<Rightarrow> life option" where
  "life_free env va s =
     (case rpcmem_free_internal (e_mem env) va (lrpc s) (w_mem (lw s)) of
        None \<Rightarrow> None | Some (r, m) \<Rightarrow> Some (set_mem m s\<lparr>lrpc := r\<rparr>))"

definition life_mmap :: "lenv \<Rightarrow> int \<Rightarrow> int \<Rightarrow> u64 \<Rightarrow> u64 \<Rightarrow> life \<Rightarrow> int \<times> life" where
  "life_mmap env domain fd va len s =
     (case fastrpc_mmap (e_mem env) domain fd va 0 len FASTRPC_MAP_FD (w_mem (lw s)) of (nErr, m) \<Rightarrow> (nErr, set_mem m s))"

definition life_munmap :: "lenv \<Rightarrow> int \<Rightarrow> int \<Rightarrow> u64 \<Rightarrow> u64 \<Rightarrow> life \<Rightarrow> int \<times> life" where
  "life_munmap env domain fd va len s =
     (case fastrpc_munmap (e_mem env) domain fd va len (w_mem (lw s)) of (nErr, m) \<Rightarrow> (nErr, set_mem m s))"

section \<open>Steps with a common clean-up\<close>

text \<open>A C function whose statements are \<^verbatim>\<open>VERIFY(...)\<close> with a jump to \<^verbatim>\<open>bail\<close>: steps on what the clean-up has to look at (\<open>d\<close>)
  and the state, run in order until one fails.\<close>

type_synonym 'd verify_step = "'d \<Rightarrow> life \<Rightarrow> (int \<times> 'd \<times> life) option"

fun run_steps :: "'d verify_step list \<Rightarrow> 'd verify_step" where
  "run_steps [] d s = Some (0, d, s)"
| "run_steps (f # fs) d s =
     (case f d s of
        None \<Rightarrow> None
      | Some (nErr, d, s) \<Rightarrow> if nErr \<noteq> 0 then Some (nErr, d, s) else run_steps fs d s)"

section \<open>The first queue of a domain\<close>

record dinit =
  di :: domain_queues
  state_mapped :: bool

text \<open>In case of a restart of the DSP its error is returned, otherwise every failure to reach it means that it does not
  support queues.\<close>

definition unsupported :: "int \<Rightarrow> int" where
  "unsupported nErr = (if nErr \<noteq> AEE_ECONNRESET then AEE_EUNSUPPORTED else nErr)"

definition open_dsp :: "lenv \<Rightarrow> int \<Rightarrow> dinit verify_step" where
  "open_dsp env domain d s =
     (let dom = domain mod 8
      in if \<not> e_calloc env 1 then Some (AEE_ENOMEMORY, d, s)
         else if dom \<noteq> 3 \<and> dom \<noteq> 0 \<and> dom \<noteq> 4 then Some (AEE_EUNSUPPORTED, d, s)
         else if \<not> e_calloc env 2 then Some (AEE_ENOMEMORY, d, s)
         else if \<not> e_calloc env 3 then Some (AEE_ENOMEMORY, d, s)
         else if e_uri env \<noteq> 0 then Some (unsupported (e_uri env), d, s)
         else case e_open env of (nErr, handle) \<Rightarrow>
                let d = d\<lparr>di := (di d)\<lparr>dq_handle := handle\<rparr>\<rparr>
                in if nErr \<noteq> 0 then Some (unsupported nErr, d, s) else Some (0, d, s))"

definition register_notif :: "lenv \<Rightarrow> int \<Rightarrow> dinit verify_step" where
  "register_notif env domain d s =
     (if notif_registered s domain then Some (0, d, s)
      else if e_notif env = AEE_EUNSUPPORTED then Some (0, d, s)
      else if e_notif env = 0 then Some (0, d, s\<lparr>notif_registered := (notif_registered s)(domain := True)\<rparr>)
      else Some (e_notif env, d, s))"

definition share_state :: "lenv \<Rightarrow> int \<Rightarrow> dinit verify_step" where
  "share_state env domain d s =
     (case life_alloc env 0 QUEUE_STATE_SIZE s of
        None \<Rightarrow> None
      | Some (va, s) \<Rightarrow>
          let fd = rpcmem_to_fd_internal va (lrpc s); d1 = d\<lparr>di := (di d)\<lparr>dq_state := va\<rparr>\<rparr>;
              d2 = d\<lparr>di := (di d)\<lparr>dq_state := va, dq_state_fd := fd\<rparr>\<rparr>
          in if va = 0 then Some (AEE_ENORPCMEMORY, d1, s)
             else if va AND 4095 \<noteq> 0 then Some (AEE_ERPC, d1, s)
             else if \<not> fd > 0 then Some (AEE_ERPC, d2, s)
             else case life_mmap env domain fd va QUEUE_STATE_SIZE s of (nErr, s) \<Rightarrow>
                    if nErr \<noteq> 0 then Some (nErr, d2, s)
                    else Some (e_init_state env, d2\<lparr>state_mapped := True\<rparr>, s))"

definition driver_support :: "lenv \<Rightarrow> bool" where
  "driver_support env \<longleftrightarrow>
     (case e_cap env 0 of (e, cap) \<Rightarrow> e = 0 \<and> cap \<noteq> 0) \<and> (case e_cap env 1 of (e, cap) \<Rightarrow> e = 0 \<and> cap \<noteq> 0)"

definition start_threads :: "lenv \<Rightarrow> int \<Rightarrow> dinit verify_step" where
  "start_threads env domain d s =
     (if driver_support env then Some (0, d\<lparr>di := (di d)\<lparr>have_dspsignal := True\<rparr>\<rparr>, s)
      else if e_pinit env 0 \<noteq> 0 then Some (e_pinit env 0, d, s)
      else if e_pinit env 1 \<noteq> 0 then Some (e_pinit env 1, d, s)
      else let s = upd_mask domain (\<lambda>_. 0) s
           in if e_thread env 0 \<noteq> 0 then Some (e_thread env 0, d, s)
              else let d = d\<lparr>di := (di d)\<lparr>send_thread := True\<rparr>\<rparr>
                   in if e_thread env 1 \<noteq> 0 then Some (e_thread env 1, d, s)
                      else Some (0, d\<lparr>di := (di d)\<lparr>recv_thread := True\<rparr>\<rparr>, s))"

text \<open>The clean-up. A running receive thread is not among its cases: nothing can fail after that thread is started.\<close>

definition init_bail :: "lenv \<Rightarrow> int \<Rightarrow> dinit \<Rightarrow> life \<Rightarrow> life option" where
  "init_bail env domain d s =
     (let s = (if send_thread (di d) then upd_mask domain (\<lambda>m. m OR SIGNAL_BIT_CANCEL) s else s);
          s = (if state_mapped d then snd (life_munmap env domain (dq_state_fd (di d)) (dq_state (di d)) QUEUE_STATE_SIZE s) else s)
      in if dq_state (di d) \<noteq> 0 then life_free env (dq_state (di d)) s else Some s)"

definition empty_dq :: domain_queues where
  "empty_dq = \<lparr>num_queues = 0, max_queue = 0, slots = replicate DSPQUEUE_MAX_PROCESS_QUEUES UNUSED_QUEUE, dq_state = 0,
     dq_state_fd = 0, dq_handle = 0, send_thread = False, recv_thread = False, dsp_error = 0, have_dspsignal = False\<rparr>"

definition init_domain_queues_locked :: "lenv \<Rightarrow> int \<Rightarrow> life \<Rightarrow> (int \<times> life) option" where
  "init_domain_queues_locked env domain s =
     (if \<not> IS_VALID_EFFECTIVE_DOMAIN_ID domain then None
      else if doms s domain \<noteq> None then Some (AEE_SUCCESS, s)
      else if \<not> e_calloc env 0 then Some (AEE_ENOMEMORY, s)
      else case run_steps [open_dsp env domain, register_notif env domain, share_state env domain, start_threads env domain]
                  \<lparr>di = empty_dq, state_mapped = False\<rparr> s of
             None \<Rightarrow> None
           | Some (nErr, d, s) \<Rightarrow>
               if nErr = 0 then Some (AEE_SUCCESS, s\<lparr>doms := (doms s)(domain \<mapsto> di d)\<rparr>)
               else map_option (\<lambda>s. (nErr, s)) (init_bail env domain d s))"

section \<open>The last queue of a domain\<close>

definition stop_threads :: "lenv \<Rightarrow> int \<Rightarrow> unit verify_step" where
  "stop_threads env domain d s =
     (case doms s domain of None \<Rightarrow> None | Some dq \<Rightarrow>
        if have_dspsignal dq then Some (0, d, s)
        else if dsp_error dq = 0 \<and> e_cancel_wait env \<noteq> 0 then Some (e_cancel_wait env, d, s)
        else case e_join env 1 of (nErr, ret) \<Rightarrow>
          if nErr \<noteq> 0 then Some (nErr, d, s)
          else let s = upd_dq domain (\<lambda>dq. dq\<lparr>recv_thread := False\<rparr>) s
          in if dsp_error dq = 0 \<and> ret \<noteq> 0 then Some (-1, d, s)
          else let s = upd_mask domain (\<lambda>m. m OR SIGNAL_BIT_CANCEL) s
          in case e_join env 0 of (nErr, ret) \<Rightarrow>
               if nErr \<noteq> 0 then Some (nErr, d, s)
               else let s = upd_dq domain (\<lambda>dq. dq\<lparr>send_thread := False\<rparr>) s
                    in if dsp_error dq = 0 \<and> ret \<noteq> 0 then Some (-1, d, s) else Some (0, d, s))"

definition unshare_state :: "lenv \<Rightarrow> int \<Rightarrow> unit verify_step" where
  "unshare_state env domain d s =
     (case doms s domain of None \<Rightarrow> None | Some dq \<Rightarrow>
        if dsp_error dq = 0 \<and> e_rpc_close env \<noteq> 0 then Some (e_rpc_close env, d, s)
        else case life_munmap env domain (dq_state_fd dq) (dq_state dq) QUEUE_STATE_SIZE s of (nErr, s) \<Rightarrow>
               if dsp_error dq = 0 \<and> nErr \<noteq> 0 then Some (nErr, d, s)
               else case life_free env (dq_state dq) s of
                      None \<Rightarrow> None | Some s \<Rightarrow> Some (0, d, s\<lparr>doms := (doms s)(domain := None)\<rparr>))"

definition destroy_domain_queues_locked :: "lenv \<Rightarrow> int \<Rightarrow> life \<Rightarrow> (int \<times> life) option" where
  "destroy_domain_queues_locked env domain s =
     (if \<not> IS_VALID_EFFECTIVE_DOMAIN_ID domain then None
      else case doms s domain of
        None \<Rightarrow> None
      | Some dq \<Rightarrow>
          if num_queues dq \<noteq> 0 then None
          else map_option (\<lambda>(nErr, _, s). (nErr, s)) (run_steps [stop_threads env domain, unshare_state env domain] () s))"

end
