(* ===== verification/QueueLife.thy ===== *)
theory QueueLife
  imports QueueDomain
begin

text \<open>
  Creating and closing queues, single and on several domains, and the threads and notifications that work on the table
  of a domain (\<^verbatim>\<open>src/dspqueue/dspqueue_cpu.c\<close>). \<open>None\<close> is a failed assertion or an abort.
\<close>

section \<open>Sizes and offsets\<close>

abbreviation (input) DSPQUEUE_MAX_QUEUE_SIZE :: u32 where "DSPQUEUE_MAX_QUEUE_SIZE \<equiv> 16777216"
abbreviation (input) DSPQUEUE_DEFAULT_REQ_SIZE :: u32 where "DSPQUEUE_DEFAULT_REQ_SIZE \<equiv> 65536"
abbreviation (input) DSPQUEUE_DEFAULT_RESP_SIZE :: u32 where "DSPQUEUE_DEFAULT_RESP_SIZE \<equiv> 16384"
abbreviation (input) SIZEOF_HEADER :: u32 where "SIZEOF_HEADER \<equiv> 48"
abbreviation (input) SIZEOF_STATE :: u32 where "SIZEOF_STATE \<equiv> 12"
abbreviation (input) ESRCH :: int where "ESRCH \<equiv> 3"
abbreviation (input) EDEADLK :: int where "EDEADLK \<equiv> 35"

definition CACHE_ALIGN_SIZE :: "u32 \<Rightarrow> u32" where
  "CACHE_ALIGN_SIZE x = (x + 255) AND NOT 255"

definition total_size :: "u32 \<Rightarrow> u32 \<Rightarrow> u32" where
  "total_size req_size resp_size = CACHE_ALIGN_SIZE SIZEOF_HEADER + 4 * CACHE_ALIGN_SIZE SIZEOF_STATE +
     CACHE_ALIGN_SIZE req_size + CACHE_ALIGN_SIZE resp_size"

definition layout_of :: "u32 \<Rightarrow> u32 \<Rightarrow> queue_layout" where
  "layout_of req_size resp_size =
     (let req = CACHE_ALIGN_SIZE SIZEOF_HEADER;
          req_rd = req + CACHE_ALIGN_SIZE req_size;
          req_wr = req_rd + CACHE_ALIGN_SIZE SIZEOF_STATE;
          resp = req_wr + CACHE_ALIGN_SIZE SIZEOF_STATE;
          resp_rd = resp + CACHE_ALIGN_SIZE resp_size;
          resp_wr = resp_rd + CACHE_ALIGN_SIZE SIZEOF_STATE
      in \<lparr>req_offset = req, req_read_state = req_rd, req_write_state = req_wr, resp_offset = resp,
          resp_read_state = resp_rd, resp_write_state = resp_wr, layout_end = resp_wr + CACHE_ALIGN_SIZE SIZEOF_STATE\<rparr>)"

section \<open>Creating a queue\<close>

text \<open>What the clean-up of \<^verbatim>\<open>dspqueue_create\<close> looks at: the queue object, whether its memory is mapped on the DSP, and the
  number of driver signals that were created.\<close>

record dcreate =
  cq :: "qobj option"
  queue_mapped :: bool
  n_signals :: nat

definition init_process_queues_once :: "lenv \<Rightarrow> life \<Rightarrow> life" where
  "init_process_queues_once env s =
     (if queues_once s then s
      else s\<lparr>queues_once := True, q_count := (if e_pinit env 7 = 0 then 1 else q_count s)\<rparr>)"

text \<open>The search for a free slot, which is marked as taken.\<close>

definition claim_slot :: "domain_queues \<Rightarrow> (nat \<times> domain_queues) option" where
  "claim_slot dq =
     (let i = first_idx (\<lambda>x. x = UNUSED_QUEUE) DSPQUEUE_MAX_PROCESS_QUEUES (slots dq)
      in if i \<ge> DSPQUEUE_MAX_PROCESS_QUEUES then None
         else Some (i, dq\<lparr>max_queue := (if max_queue dq < i then i else max_queue dq),
                          slots := (slots dq)[i := INVALID_QUEUE]\<rparr>))"

definition check_arguments :: "u32 \<Rightarrow> u32 \<Rightarrow> u32 \<Rightarrow> dcreate verify_step" where
  "check_arguments flags req_size resp_size d s =
     Some (if flags \<noteq> 0 \<or> \<not> req_size \<le> DSPQUEUE_MAX_QUEUE_SIZE \<or> \<not> resp_size \<le> DSPQUEUE_MAX_QUEUE_SIZE
           then AEE_EBADPARM else 0, d, s)"

definition zero_ring :: "u32 \<Rightarrow> ring" where
  "zero_ring len = \<lparr>qlen = len, qmem = replicate (unat len) 0, rpos = 0, wpos = 0\<rparr>"

definition zero_core :: dspqueue where
  "zero_core = \<lparr>q_id = 0, q_domain = 0,
     req = zero_ring 0, req_rd_count = 0, req_wr_count = 0, req_rd_wait = 0, req_wr_wait = 0,
     resp = zero_ring 0, resp_rd_count = 0, resp_wr_count = 0, resp_rd_wait = 0, resp_wr_wait = 0,
     hdr_queue_count = 0, queue_count = 0, seq_no = 0, read_packet_count = 0, write_packet_count = 0,
     req_packet_count = 0, req_space_count = 0, resp_packet_count = 0, resp_space_count = 0, packet_mask = 0,
     space_mask = 0, st_req_packet_count = 0, st_resp_space_count = 0, early_wakeup_wait = 0, early_wakeup_misses = 0,
     have_wait_counts = False, have_driver_signaling = False\<rparr>"

definition zero_qobj :: qobj where
  "zero_qobj = \<lparr>core = zero_core, user_queue = 0, user_queue_fd = 0, user_queue_size = 0, dsp_id = 0, version = 0,
     hdr_flags = 0, lay = \<lparr>req_offset = 0, req_read_state = 0, req_write_state = 0, resp_offset = 0,
     resp_read_state = 0, resp_write_state = 0, layout_end = 0\<rparr>, packet_callback = False, error_callback_set = False,
     error_thread = False\<rparr>"

definition new_object :: "lenv \<Rightarrow> int \<Rightarrow> nat \<Rightarrow> bool \<Rightarrow> bool \<Rightarrow> dcreate verify_step" where
  "new_object env domain i packet_cb error_cb d s =
     (if \<not> e_calloc env 4 then Some (AEE_ENOMEMORY, d, s)
      else if e_pinit env 2 \<noteq> 0 then Some (e_pinit env 2, d\<lparr>cq := Some zero_qobj\<rparr>, s)
      else Some (0, d\<lparr>cq := Some (zero_qobj\<lparr>core := zero_core\<lparr>q_id := word_of_nat i, q_domain := domain\<rparr>,
                                        packet_callback := packet_cb, error_callback_set := error_cb\<rparr>)\<rparr>, s))"

definition size_or :: "u32 \<Rightarrow> u32 \<Rightarrow> u32" where
  "size_or dflt len = (if len = 0 then dflt else len)"

text \<open>The shared memory of the queue, mapped on the DSP. The sizes are the defaults where none is given.\<close>

definition share_memory :: "lenv \<Rightarrow> int \<Rightarrow> u32 \<Rightarrow> u32 \<Rightarrow> dcreate verify_step" where
  "share_memory env domain req_size resp_size d s =
     (case cq d of None \<Rightarrow> None | Some q \<Rightarrow>
        let q = q\<lparr>user_queue_size := total_size req_size resp_size\<rparr>; len = ucast (user_queue_size q) :: u64
        in case life_alloc env 1 len s of
             None \<Rightarrow> None
           | Some (va, s) \<Rightarrow>
               let q = q\<lparr>user_queue := va\<rparr>; fd = rpcmem_to_fd_internal va (lrpc s)
               in if va = 0 then Some (AEE_ENOMEMORY, d\<lparr>cq := Some q\<rparr>, s)
                  else if va AND 4095 \<noteq> 0 then Some (AEE_ERPC, d\<lparr>cq := Some q\<rparr>, s)
                  else let q = q\<lparr>user_queue_fd := fd\<rparr>; d = d\<lparr>cq := Some q\<rparr>
                       in if \<not> fd > 0 then Some (AEE_ERPC, d, s)
                          else case life_mmap env domain fd va len s of (nErr, s) \<Rightarrow>
                                 if nErr \<noteq> 0 then Some (nErr, d, s) else Some (0, d\<lparr>queue_mapped := True\<rparr>, s))"

text \<open>The header, with the rings and the state structures cleared, and the check that the offsets add up.\<close>

definition write_header :: "u32 \<Rightarrow> u32 \<Rightarrow> u32 \<Rightarrow> dcreate verify_step" where
  "write_header count req_size resp_size d s =
     (case cq d of None \<Rightarrow> None | Some q \<Rightarrow>
        let q = q\<lparr>version := 1, lay := layout_of req_size resp_size,
                  core := (core q)\<lparr>hdr_queue_count := count, queue_count := count, req := zero_ring req_size,
                                   resp := zero_ring resp_size, st_req_packet_count := 0, st_resp_space_count := 0\<rparr>\<rparr>
        in if layout_end (lay q) \<noteq> user_queue_size q then None else Some (0, d\<lparr>cq := Some q\<rparr>, s))"

abbreviation (input) upd_core :: "(dspqueue \<Rightarrow> dspqueue) \<Rightarrow> qobj \<Rightarrow> qobj" where
  "upd_core f q \<equiv> q\<lparr>core := f (core q)\<rparr>"

definition queue_signals :: "u32 list" where
  "queue_signals = [0, 1, 2, 3]"

fun make_signals :: "lenv \<Rightarrow> int \<Rightarrow> u32 \<Rightarrow> u32 list \<Rightarrow> dcreate verify_step" where
  "make_signals env domain i [] d s = Some (0, d, s)"
| "make_signals env domain i (sn # sns) d s =
     (case dspsignal_create (fst (e_sig_alloc env)) (snd (e_sig_alloc env)) (w_default_domain (lw s)) (sess (w_mem (lw s)))
             domain (QUEUE_SIGNAL i sn) 0 (w_sig (lw s)) of
        None \<Rightarrow> None
      | Some (nErr, sg) \<Rightarrow>
          let s = s\<lparr>lw := (lw s)\<lparr>w_sig := sg\<rparr>\<rparr>
          in if nErr \<noteq> 0 then Some (nErr, d, s) else make_signals env domain i sns (d\<lparr>n_signals := Suc (n_signals d)\<rparr>) s)"

definition create_signals :: "lenv \<Rightarrow> int \<Rightarrow> nat \<Rightarrow> bool \<Rightarrow> dcreate verify_step" where
  "create_signals env domain i have d s =
     (if have
      then make_signals env domain (word_of_nat i) queue_signals
             (d\<lparr>cq := map_option (upd_core (\<lambda>c. c\<lparr>have_driver_signaling := True\<rparr>)) (cq d)\<rparr>) s
      else Some (0, d, s))"

text \<open>Destroying signals in turn: with \<open>VERIFY\<close> until the first error, or all of them whatever the results.\<close>

fun drop_signals :: "(u32 \<Rightarrow> int option) \<Rightarrow> u32 list \<Rightarrow> int option" where
  "drop_signals call [] = Some 0"
| "drop_signals call (sn # sns) =
     (case call sn of None \<Rightarrow> None | Some nErr \<Rightarrow> if nErr \<noteq> 0 then Some nErr else drop_signals call sns)"

definition destroy_call :: "life \<Rightarrow> int \<Rightarrow> u32 \<Rightarrow> u32 \<Rightarrow> int option" where
  "destroy_call s domain i sn =
     dspsignal_destroy (w_default_domain (lw s)) (sess (w_mem (lw s))) domain (QUEUE_SIGNAL i sn) (w_sig (lw s))"

definition cancel_call :: "life \<Rightarrow> int \<Rightarrow> u32 \<Rightarrow> u32 \<Rightarrow> int option" where
  "cancel_call s domain i sn =
     dspsignal_cancel_wait (w_default_domain (lw s)) (sess (w_mem (lw s))) domain (QUEUE_SIGNAL i sn) (w_sig (lw s))"

text \<open>Creating the queue on the DSP, first with an invalid version: a DSP that accepts it knows neither wait counts nor
  driver signals.\<close>

definition create_on_dsp :: "lenv \<Rightarrow> int \<Rightarrow> nat \<Rightarrow> dcreate verify_step" where
  "create_on_dsp env domain i d s =
     (case cq d of None \<Rightarrow> None | Some q \<Rightarrow>
        case e_create env 0 of (nErr, did) \<Rightarrow>
          let q = q\<lparr>version := 0xFFFFFFFF, dsp_id := did\<rparr>; drv = have_driver_signaling (core q)
          in if nErr = AEE_EUNSUPPORTED \<or> nErr = DSP_EUNSUPPORTED
             then case e_create env 1 of (nErr, did) \<Rightarrow>
                    let q = q\<lparr>version := 2, hdr_flags := (if drv then 1 OR 2 else 1), dsp_id := did\<rparr>
                    in if nErr \<noteq> 0 then Some (nErr, d\<lparr>cq := Some q\<rparr>, s)
                       else Some (0, d\<lparr>cq := Some (upd_core (\<lambda>c. c\<lparr>have_wait_counts := True\<rparr>) q)\<rparr>, s)
             else if nErr \<noteq> AEE_SUCCESS then Some (nErr, d\<lparr>cq := Some q\<rparr>, s)
             else let q' = upd_core (\<lambda>c. c\<lparr>have_driver_signaling := False\<rparr>) q
                  in if drv
                     then case drop_signals (destroy_call s domain (word_of_nat i)) (take (n_signals d) queue_signals) of
                            None \<Rightarrow> None
                          | Some nErr \<Rightarrow> if nErr \<noteq> 0 then Some (nErr, d\<lparr>cq := Some q\<rparr>, s)
                                         else Some (0, d\<lparr>cq := Some q', n_signals := 0\<rparr>, s)
                     else Some (0, d\<lparr>cq := Some q'\<rparr>, s))"

definition create_sync :: "lenv \<Rightarrow> dcreate verify_step" where
  "create_sync env d s =
     (case cq d of None \<Rightarrow> None | Some q \<Rightarrow>
        if e_pinit env 3 \<noteq> 0 then Some (e_pinit env 3, d, s)
        else if e_pinit env 4 \<noteq> 0 then Some (e_pinit env 4, d, s)
        else if have_driver_signaling (core q) then Some (0, d, s)
        else if e_pinit env 5 \<noteq> 0 then Some (e_pinit env 5, d, s)
        else Some (e_pinit env 6, d, s))"

definition start_callback_thread :: "lenv \<Rightarrow> dcreate verify_step" where
  "start_callback_thread env d s =
     (case cq d of None \<Rightarrow> None | Some q \<Rightarrow> Some (if packet_callback q then e_thread env 2 else 0, d, s))"

text \<open>At \<^verbatim>\<open>bail\<close>: what the queue object holds is given back; the results of these calls are ignored. A callback thread is not
  among the cases: nothing can fail after it is started.\<close>

definition release_object :: "lenv \<Rightarrow> int \<Rightarrow> nat \<Rightarrow> dcreate \<Rightarrow> life \<Rightarrow> life option" where
  "release_object env domain i d s =
     (case cq d of
        None \<Rightarrow> Some s
      | Some q \<Rightarrow>
          if have_driver_signaling (core q)
             \<and> (\<exists>sn \<in> set (take (n_signals d) queue_signals). destroy_call s domain (word_of_nat i) sn = None) then None
          else let s = (if queue_mapped d
                        then snd (life_munmap env domain (user_queue_fd q) (user_queue q) (ucast (user_queue_size q)) s) else s)
               in if user_queue q \<noteq> 0 then life_free env (user_queue q) s else Some s)"

definition put_back :: "lenv \<Rightarrow> int \<Rightarrow> nat \<Rightarrow> life \<Rightarrow> life option" where
  "put_back env domain i s =
     (let s = (if i < DSPQUEUE_MAX_PROCESS_QUEUES
               then upd_dq domain (\<lambda>dq. dq\<lparr>slots := (slots dq)[i := UNUSED_QUEUE]\<rparr>) s else s)
      in case doms s domain of
           None \<Rightarrow> None
         | Some dq \<Rightarrow>
             if \<not> num_queues dq > 0 then None
             else let s = upd_dq domain (\<lambda>dq. dq\<lparr>num_queues := num_queues dq - 1\<rparr>) s
                  in if num_queues dq - 1 = 0 then map_option snd (destroy_domain_queues_locked env domain s) else Some s)"

text \<open>The queue is entered in the table.\<close>

definition publish :: "int \<Rightarrow> nat \<Rightarrow> qobj \<Rightarrow> life \<Rightarrow> nat \<times> life" where
  "publish domain i q s =
     (let a = next_obj s
      in (a, upd_dq domain (\<lambda>dq. dq\<lparr>slots := (slots dq)[i := Queue a]\<rparr>)
               (s\<lparr>objs := (objs s)(a \<mapsto> q), next_obj := Suc a\<rparr>)))"

text \<open>From the claimed slot on.\<close>

definition create_in_slot ::
  "lenv \<Rightarrow> int \<Rightarrow> nat \<Rightarrow> u32 \<Rightarrow> bool \<Rightarrow> u32 \<Rightarrow> u32 \<Rightarrow> u32 \<Rightarrow> bool \<Rightarrow> bool \<Rightarrow> life \<Rightarrow> (int \<times> nat option \<times> life) option" where
  "create_in_slot env domain i count have flags req_size resp_size packet_cb error_cb s =
     (let rq = size_or DSPQUEUE_DEFAULT_REQ_SIZE req_size; rs = size_or DSPQUEUE_DEFAULT_RESP_SIZE resp_size
      in case run_steps [check_arguments flags req_size resp_size, new_object env domain i packet_cb error_cb,
                         share_memory env domain rq rs, write_header count rq rs, create_signals env domain i have,
                         create_on_dsp env domain i, create_sync env, start_callback_thread env]
                \<lparr>cq = None, queue_mapped = False, n_signals = 0\<rparr> s of
           None \<Rightarrow> None
         | Some (nErr, d, s) \<Rightarrow>
             if nErr = 0
             then case cq d of None \<Rightarrow> None
                  | Some q \<Rightarrow> (case publish domain i q s of (a, s) \<Rightarrow> Some (AEE_SUCCESS, Some a, s))
             else case release_object env domain i d s of None \<Rightarrow> None
                  | Some s \<Rightarrow> map_option (\<lambda>s. (nErr, None, s)) (put_back env domain i s))"

text \<open>\<open>queue\<close>: whether the output pointer is not null.\<close>

definition dspqueue_create ::
  "lenv \<Rightarrow> int \<Rightarrow> u32 \<Rightarrow> u32 \<Rightarrow> u32 \<Rightarrow> bool \<Rightarrow> bool \<Rightarrow> bool \<Rightarrow> life \<Rightarrow> (int \<times> nat option \<times> life) option" where
  "dspqueue_create env domain flags req_size resp_size packet_cb error_cb queue s =
     (let dom = (if domain = -1 then get_current_domain (w_default_domain (lw s)) (sess (w_mem (lw s))) else domain)
      in if \<not> queue then Some (AEE_EBADPARM, None, s)
         else if \<not> IS_VALID_EFFECTIVE_DOMAIN_ID dom then Some (if domain = -1 then AEE_ERPC else AEE_EBADPARM, None, s)
         else if e_once env \<noteq> 0 then Some (AEE_ERPC, None, s)
         else case init_domain_queues_locked env dom (init_process_queues_once env s) of
                None \<Rightarrow> None
              | Some (nErr, s) \<Rightarrow>
                  if nErr \<noteq> 0 then Some (nErr, None, s)
                  else case doms s dom of
                    None \<Rightarrow> Some (AEE_EBADPARM, None, s)
                  | Some dq \<Rightarrow>
                      if num_queues dq \<ge> 64 then Some (AEE_EBADPARM, None, s)
                      else let count = q_count s;
                               s = upd_dq dom (\<lambda>dq. dq\<lparr>num_queues := num_queues dq + 1\<rparr>) s\<lparr>q_count := q_count s + 1\<rparr>
                           in case claim_slot dq of
                                None \<Rightarrow> map_option (\<lambda>s. (AEE_ERPC, None, s)) (put_back env dom 64 s)
                              | Some (i, dq') \<Rightarrow>
                                  create_in_slot env dom i count (have_dspsignal dq) flags req_size resp_size packet_cb error_cb
                                    (upd_dq dom (\<lambda>dq. dq\<lparr>max_queue := max_queue dq', slots := slots dq'\<rparr>) s))"

section \<open>Closing a queue\<close>

text \<open>The steps of \<^verbatim>\<open>dspqueue_close\<close> on the queue at address \<open>a\<close>. The value passed on is \<^verbatim>\<open>nErr\<close>, which some steps leave
  different from zero without giving up.\<close>

definition upd_obj :: "nat \<Rightarrow> (qobj \<Rightarrow> qobj) \<Rightarrow> life \<Rightarrow> life" where
  "upd_obj a f s = s\<lparr>objs := (objs s)(a := map_option f (objs s a))\<rparr>"

text \<open>The queue and the table of its domain.\<close>

definition queue_at :: "nat \<Rightarrow> life \<Rightarrow> (qobj \<times> int \<times> domain_queues) option" where
  "queue_at a s =
     (case objs s a of None \<Rightarrow> None
      | Some q \<Rightarrow> (case doms s (q_domain (core q)) of None \<Rightarrow> None | Some dq \<Rightarrow> Some (q, q_domain (core q), dq)))"

definition check_imported :: "lenv \<Rightarrow> nat \<Rightarrow> int verify_step" where
  "check_imported env a nErr s =
     (case queue_at a s of None \<Rightarrow> None | Some (q, domain, dq) \<Rightarrow>
        let err = (if dsp_error dq = 0
                   then case e_imported env of (e, imported) \<Rightarrow> if e \<noteq> 0 then e else if imported then AEE_EBADPARM else 0
                   else 0)
        in if err \<noteq> 0 then Some (err, nErr, s)
           else if hdr_queue_count (core q) \<noteq> queue_count (core q) then Some (AEE_ERPC, nErr, s)
           else Some (0, nErr, upd_dq domain (\<lambda>dq. dq\<lparr>slots := (slots dq)[unat (q_id (core q)) := INVALID_QUEUE]\<rparr>) s))"

definition join_error_thread :: "lenv \<Rightarrow> nat \<Rightarrow> int verify_step" where
  "join_error_thread env a nErr s =
     (case queue_at a s of None \<Rightarrow> None | Some (q, domain, dq) \<Rightarrow>
        if \<not> error_thread q then Some (0, nErr, s)
        else let e = fst (e_join env 2); s = upd_obj a (\<lambda>q. q\<lparr>error_thread := False\<rparr>) s
             in if e = EDEADLK \<or> e = EINVAL then Some (AEE_ERPC, nErr, s) else Some (0, AEE_SUCCESS, s))"

text \<open>A loop of driver calls in which \<^verbatim>\<open>AEE_EBADSTATE\<close> is tolerated: the last result stays in \<^verbatim>\<open>nErr\<close>.\<close>

fun tolerant :: "(u32 \<Rightarrow> int option) \<Rightarrow> u32 list \<Rightarrow> int \<Rightarrow> (int \<times> int) option" where
  "tolerant call [] nErr = Some (0, nErr)"
| "tolerant call (sn # sns) nErr =
     (case call sn of None \<Rightarrow> None
      | Some e \<Rightarrow> if e \<noteq> 0 \<and> e \<noteq> AEE_EBADSTATE then Some (e, e) else tolerant call sns e)"

definition cancel_masks :: "dspqueue \<Rightarrow> dspqueue" where
  "cancel_masks c = c\<lparr>packet_mask := packet_mask c OR SIGNAL_BIT_CANCEL, space_mask := space_mask c OR SIGNAL_BIT_CANCEL\<rparr>"

definition cancel_waits :: "nat \<Rightarrow> int verify_step" where
  "cancel_waits a nErr s =
     (case queue_at a s of None \<Rightarrow> None | Some (q, domain, dq) \<Rightarrow>
        if \<not> have_driver_signaling (core q) then Some (0, nErr, upd_obj a (upd_core cancel_masks) s)
        else if dsp_error dq = AEE_ECONNRESET then Some (0, nErr, s)
        else case tolerant (cancel_call s domain (q_id (core q))) queue_signals nErr of
               None \<Rightarrow> None | Some (e, nErr) \<Rightarrow> Some (e, nErr, s))"

text \<open>The join of the callback thread; \<^verbatim>\<open>ESRCH\<close> is tolerated and stays in \<^verbatim>\<open>nErr\<close>.\<close>

definition join_callback :: "lenv \<Rightarrow> nat \<Rightarrow> int verify_step" where
  "join_callback env a nErr s =
     (case queue_at a s of None \<Rightarrow> None | Some (q, domain, dq) \<Rightarrow>
        if \<not> packet_callback q then Some (0, nErr, s)
        else case e_join env 3 of (e, ret) \<Rightarrow>
               if e \<noteq> 0 \<and> e \<noteq> ESRCH then Some (e, e, s)
               else if ret \<noteq> 0 then Some (if e = 0 then -1 else e, e, s)
               else Some (0, e, s))"

definition destroy_on_dsp :: "lenv \<Rightarrow> nat \<Rightarrow> int verify_step" where
  "destroy_on_dsp env a nErr s =
     (case queue_at a s of None \<Rightarrow> None | Some (q, domain, dq) \<Rightarrow>
        let unmap = life_munmap env domain (user_queue_fd q) (user_queue q) (ucast (user_queue_size q))
        in if dsp_error dq \<noteq> 0 then Some (0, nErr, snd (unmap s))
           else if e_destroy env \<noteq> 0 then Some (e_destroy env, nErr, s)
           else case unmap s of (e, s) \<Rightarrow> Some (e, e, s))"

definition free_memory :: "lenv \<Rightarrow> nat \<Rightarrow> int verify_step" where
  "free_memory env a nErr s =
     (case queue_at a s of None \<Rightarrow> None | Some (q, domain, dq) \<Rightarrow>
        map_option (\<lambda>s. (0, nErr, s)) (life_free env (user_queue q) s))"

definition destroy_signals :: "nat \<Rightarrow> int verify_step" where
  "destroy_signals a nErr s =
     (case queue_at a s of None \<Rightarrow> None | Some (q, domain, dq) \<Rightarrow>
        if \<not> have_driver_signaling (core q) \<or> dsp_error dq = AEE_ECONNRESET then Some (0, nErr, s)
        else case tolerant (destroy_call s domain (q_id (core q))) queue_signals nErr of
               None \<Rightarrow> None | Some (e, nErr) \<Rightarrow> Some (e, nErr, s))"

text \<open>The last index that is not free, 0 when there is none.\<close>

primrec last_taken :: "slot list \<Rightarrow> nat \<Rightarrow> nat" where
  "last_taken xs 0 = 0"
| "last_taken xs (Suc n) = (if xs ! n \<noteq> UNUSED_QUEUE then n else last_taken xs n)"

text \<open>The queue leaves the table; with the last queue of the domain its table is taken down (the result is ignored).\<close>

definition leave_table :: "lenv \<Rightarrow> nat \<Rightarrow> int verify_step" where
  "leave_table env a nErr s =
     (case queue_at a s of None \<Rightarrow> None | Some (q, domain, dq) \<Rightarrow>
        let xs = (slots dq)[unat (q_id (core q)) := UNUSED_QUEUE];
            s = upd_dq domain (\<lambda>dq. dq\<lparr>slots := xs, max_queue := last_taken xs DSPQUEUE_MAX_PROCESS_QUEUES,
                                     num_queues := num_queues dq - 1\<rparr>) s;
            free_q = (\<lambda>s. s\<lparr>objs := (objs s)(a := None)\<rparr>)
        in if num_queues dq - 1 = 0
           then case destroy_domain_queues_locked env domain s of
                  None \<Rightarrow> None
                | Some (_, s) \<Rightarrow>
                    Some (0, nErr, free_q (if have_driver_signaling (core q)
                                           then s\<lparr>lw := (lw s)\<lparr>w_sig := dspsignal_domain_deinit domain (w_sig (lw s))\<rparr>\<rparr> else s))
           else Some (0, nErr, free_q s))"

text \<open>A close that fails late may already have freed the shared memory of the queue. The header that a second close looks
  at (\<open>check_imported\<close>) is then freed memory in the code; the model keeps reading the count of the object.\<close>

definition dspqueue_close1 :: "lenv \<Rightarrow> nat \<Rightarrow> life \<Rightarrow> (int \<times> life) option" where
  "dspqueue_close1 env a s =
     (case objs s a of None \<Rightarrow> None | Some q \<Rightarrow>
        if \<not> IS_VALID_EFFECTIVE_DOMAIN_ID (q_domain (core q)) then Some (AEE_EINVALIDDOMAIN, s)
        else if doms s (q_domain (core q)) = None then Some (AEE_ERPC, s)
        else case run_steps [check_imported env a, join_error_thread env a, cancel_waits a, join_callback env a,
                             destroy_on_dsp env a, free_memory env a, destroy_signals a, leave_table env a] 0 s of
               None \<Rightarrow> None
             | Some (e, nErr, s) \<Rightarrow> Some (if e \<noteq> 0 then e else nErr, s))"

section \<open>Queues on several domains\<close>

record mdqueue =
  m_ctx :: u64
  m_domains :: "int list"
  m_queues :: "nat option list"
  m_dsp_ids :: "u64 list"

datatype queue_handle = SingleQ nat | MultiQ mdqueue

definition dspqueue_export :: "queue_handle \<Rightarrow> life \<Rightarrow> (int \<times> u64 option) option" where
  "dspqueue_export queue s =
     (case queue of
        MultiQ _ \<Rightarrow> Some (AEE_EUNSUPPORTED, None)
      | SingleQ a \<Rightarrow> (case objs s a of None \<Rightarrow> None | Some q \<Rightarrow> Some (AEE_SUCCESS, Some (dsp_id q))))"

text \<open>The loop of \<^verbatim>\<open>dspqueue_multidomain_close\<close>; \<open>envs\<close> gives the answers for each queue. The first error is returned.\<close>

fun close_all :: "(nat \<Rightarrow> lenv) \<Rightarrow> nat \<Rightarrow> nat option list \<Rightarrow> int \<Rightarrow> life \<Rightarrow> (int \<times> life) option" where
  "close_all envs ii [] nErr s = Some (nErr, s)"
| "close_all envs ii (None # qs) nErr s = close_all envs (Suc ii) qs nErr s"
| "close_all envs ii (Some a # qs) nErr s =
     (case dspqueue_close1 (envs ii) a s of None \<Rightarrow> None
      | Some (err, s) \<Rightarrow> close_all envs (Suc ii) qs (if err \<noteq> 0 \<and> nErr = 0 then err else nErr) s)"

definition dspqueue_multidomain_close :: "(nat \<Rightarrow> lenv) \<Rightarrow> mdqueue \<Rightarrow> life \<Rightarrow> (int \<times> life) option" where
  "dspqueue_multidomain_close envs mdq s = close_all envs 0 (m_queues mdq) 0 s"

definition dspqueue_close :: "(nat \<Rightarrow> lenv) \<Rightarrow> queue_handle option \<Rightarrow> life \<Rightarrow> (int \<times> life) option" where
  "dspqueue_close envs queue s =
     (case queue of
        None \<Rightarrow> Some (AEE_EBADPARM, s)
      | Some (SingleQ a) \<Rightarrow> dspqueue_close1 (envs 0) a s
      | Some (MultiQ mdq) \<Rightarrow> dspqueue_multidomain_close envs mdq s)"

text \<open>The request, and what \<^verbatim>\<open>fastrpc_context_get_domains\<close>, \<^verbatim>\<open>pthread_once\<close>, the allocations (queue, domain ids, handles,
  ids of the DSP) and \<^verbatim>\<open>pthread_mutex_init\<close> answer.\<close>

record create_req =
  cr_ctx :: u64
  cr_flags :: u64
  cr_priority :: u32
  cr_req_size :: u32
  cr_resp_size :: u32
  cr_packet_cb :: bool
  cr_error_cb :: bool
  cr_num_ids :: u32
  cr_ids :: bool

record mdenv =
  md_domains :: "int \<times> int list"
  md_once :: int
  md_calloc :: "nat \<Rightarrow> bool"
  md_mutex :: int
  md_env :: "nat \<Rightarrow> lenv"
  md_close_env :: "nat \<Rightarrow> lenv"

text \<open>The loop over the domains: the queues and ids it has filled in, and the first error.\<close>

fun create_all ::
  "(nat \<Rightarrow> lenv) \<Rightarrow> create_req \<Rightarrow> nat \<Rightarrow> int list \<Rightarrow> life \<Rightarrow> (int \<times> nat option list \<times> u64 list \<times> life) option" where
  "create_all envs r ii [] s = Some (0, [], [], s)"
| "create_all envs r ii (dm # ds) s =
     (case dspqueue_create (envs ii) dm (ucast (cr_flags r)) (cr_req_size r) (cr_resp_size r) (cr_packet_cb r) (cr_error_cb r) True s of
        None \<Rightarrow> None
      | Some (nErr, qo, s) \<Rightarrow>
          if nErr \<noteq> 0 then Some (nErr, [qo], [0], s)
          else case qo of None \<Rightarrow> None
          | Some a \<Rightarrow>
              (case dspqueue_export (SingleQ a) s of None \<Rightarrow> None
               | Some (nErr, did) \<Rightarrow>
                   if nErr \<noteq> 0 then Some (nErr, [qo], [0], s)
                   else case create_all envs r (Suc ii) ds s of None \<Rightarrow> None
                        | Some (nErr, qs, ids, s) \<Rightarrow>
                            Some (nErr, qo # qs, (case did of None \<Rightarrow> 0 | Some x \<Rightarrow> x) # ids, s)))"

text \<open>Returns the error, the queue and the ids written for the caller. When the list of domains or of handles cannot be
  allocated, the clean-up reads handles through a null pointer, if there is a domain at all.\<close>

definition dspqueue_multidomain_create ::
  "mdenv \<Rightarrow> create_req \<Rightarrow> life \<Rightarrow> (int \<times> (mdqueue \<times> u64 list) option \<times> life) option" where
  "dspqueue_multidomain_create env r s =
     (case md_domains env of (nErr, ds) \<Rightarrow>
        if nErr \<noteq> AEE_SUCCESS then Some (nErr, None, s)
        else if \<not> (cr_ids r \<and> cr_priority r = 0 \<and> cr_flags r = 0) then Some (AEE_EBADPARM, None, s)
        else if \<not> unat (cr_num_ids r) \<ge> length ds then Some (AEE_EBADPARM, None, s)
        else if md_once env \<noteq> 0 then Some (AEE_ENOTINITIALIZED, None, s)
        else let s = init_process_queues_once (md_env env 0) s
             in if \<not> md_calloc env 0 then Some (AEE_ENOMEMORY, None, s)
                else if md_mutex env \<noteq> 0 then Some (AEE_ENOTINITIALIZED, None, s)
                else if \<not> md_calloc env 1 \<or> \<not> md_calloc env 2
                then if ds = [] then Some (AEE_ENOMEMORY, None, s) else None
                else if \<not> md_calloc env 3 then Some (AEE_ENOMEMORY, None, s)
                else case create_all (md_env env) r 0 ds s of None \<Rightarrow> None
                     | Some (nErr, qs, ids, s) \<Rightarrow>
                         let mdq = \<lparr>m_ctx = cr_ctx r, m_domains = ds, m_queues = qs @ replicate (length ds - length qs) None,
                                    m_dsp_ids = ids @ replicate (length ds - length ids) 0\<rparr>
                         in if nErr = 0 then Some (0, Some (mdq, m_dsp_ids mdq), s)
                            else case dspqueue_multidomain_close (md_close_env env) mdq s of None \<Rightarrow> None
                                 | Some (_, s) \<Rightarrow> Some (nErr, None, s))"

text \<open>\<open>req_id\<close> 0 is \<^verbatim>\<open>DSPQUEUE_CREATE\<close>.\<close>

definition dspqueue_request ::
  "mdenv \<Rightarrow> (nat \<times> create_req) option \<Rightarrow> life \<Rightarrow> (int \<times> (mdqueue \<times> u64 list) option \<times> life) option" where
  "dspqueue_request env request s =
     (case request of
        None \<Rightarrow> Some (AEE_EBADPARM, None, s)
      | Some (req_id, r) \<Rightarrow>
          if req_id = 0 then dspqueue_multidomain_create env r s else Some (AEE_EUNSUPPORTED, None, s))"

section \<open>Errors of a domain\<close>

text \<open>What one queue sees of an error: its waits are cancelled, and the client's error callback is started in a thread of its
  own (\<open>alloc\<close>, \<open>thread\<close>: whether its arguments and the thread can be made).\<close>

definition report_error :: "bool \<Rightarrow> bool \<Rightarrow> qobj \<Rightarrow> qobj" where
  "report_error alloc thread q =
     (let q = (if have_driver_signaling (core q) then q else upd_core cancel_masks q)
      in if error_callback_set q \<and> alloc \<and> thread then q\<lparr>error_thread := True\<rparr> else q)"

text \<open>The loop over the slots; the results of the calls that cancel driver signals are ignored.\<close>

fun report_slots :: "(nat \<Rightarrow> bool) \<Rightarrow> (nat \<Rightarrow> bool) \<Rightarrow> nat list \<Rightarrow> slot list \<Rightarrow> life \<Rightarrow> life option" where
  "report_slots alloc thread [] xs s = Some s"
| "report_slots alloc thread (i # is) xs s =
     (case xs ! i of
        Queue a \<Rightarrow>
          (case objs s a of None \<Rightarrow> None | Some q \<Rightarrow>
             if have_driver_signaling (core q)
                \<and> (\<exists>sn \<in> set queue_signals. cancel_call s (q_domain (core q)) (q_id (core q)) sn = None) then None
             else report_slots alloc thread is xs (upd_obj a (report_error (alloc i) (thread i)) s))
      | _ \<Rightarrow> report_slots alloc thread is xs s)"

definition error_callback :: "(nat \<Rightarrow> bool) \<Rightarrow> (nat \<Rightarrow> bool) \<Rightarrow> int \<Rightarrow> int \<Rightarrow> life \<Rightarrow> life option" where
  "error_callback alloc thread domain error s =
     (case doms s domain of None \<Rightarrow> None | Some dq \<Rightarrow>
        if dsp_error dq \<noteq> 0 then Some s
        else let error = (if error = -2147482611 \<or> error = -1 then AEE_ECONNRESET else error);
                 s = upd_dq domain (\<lambda>dq. dq\<lparr>dsp_error := error\<rparr>) s
             in report_slots alloc thread [0..<Suc (max_queue dq)] (slots dq) s)"

datatype rpc_status = FASTRPC_USER_PD_UP | FASTRPC_USER_PD_EXIT | FASTRPC_USER_PD_FORCE_KILL | FASTRPC_USER_PD_EXCEPTION
  | FASTRPC_DSP_SSR

definition effective_domain :: "int \<Rightarrow> int \<Rightarrow> int" where
  "effective_domain domain session = (if session \<noteq> 0 \<and> domain < 8 then domain + 8 * session else domain)"

definition dspqueue_notif_callback ::
  "(nat \<Rightarrow> bool) \<Rightarrow> (nat \<Rightarrow> bool) \<Rightarrow> int \<Rightarrow> int \<Rightarrow> rpc_status \<Rightarrow> life \<Rightarrow> (int \<times> life) option" where
  "dspqueue_notif_callback alloc thread domain session status s =
     (if status = FASTRPC_USER_PD_UP then Some (0, s)
      else let dom = effective_domain domain session
           in if \<not> IS_VALID_EFFECTIVE_DOMAIN_ID dom then None
              else if doms s dom = None then Some (0, s)
              else map_option (\<lambda>s. (0, s))
                     (error_callback alloc thread dom (if status = FASTRPC_DSP_SSR then AEE_ECONNRESET else AEE_ENOSUCH) s))"

section \<open>The threads of a domain\<close>

text \<open>One turn of a thread: it goes on or exits with a value.\<close>

datatype turn = Go_on life | Exit_thread int life

text \<open>The thread that sends signals, from the point where the mask is not zero; \<open>res\<close> is the result of the call to the DSP.
  A mask with other bits only would lock the mutex twice: \<open>None\<close>.\<close>

definition send_signal_turn :: "(nat \<Rightarrow> bool) \<Rightarrow> (nat \<Rightarrow> bool) \<Rightarrow> int \<Rightarrow> int \<Rightarrow> life \<Rightarrow> turn option" where
  "send_signal_turn alloc thread res domain s =
     (let mask = w_send_mask (lw s) domain
      in if mask AND SIGNAL_BIT_CANCEL \<noteq> 0 then Some (Exit_thread 0 s)
         else if mask AND SIGNAL_BIT_SIGNAL \<noteq> 0
         then let s = upd_mask domain (\<lambda>m. m AND NOT SIGNAL_BIT_SIGNAL) s
              in if res = 0 then Some (Go_on s)
                 else map_option (Exit_thread res) (error_callback alloc thread domain res s)
         else None)"

text \<open>The counters of the shared state block, as the DSP has written them: \<open>resp_packet_count\<close> and \<open>req_space_count\<close>.\<close>

definition take_counts :: "u32 \<Rightarrow> u32 \<Rightarrow> dspqueue \<Rightarrow> dspqueue" where
  "take_counts packets space c =
     (let c = (if resp_packet_count c \<noteq> packets then c\<lparr>resp_packet_count := packets\<rparr> else c)
      in if req_space_count c \<noteq> space then c\<lparr>req_space_count := space\<rparr> else c)"

fun take_all_counts :: "(nat \<Rightarrow> u32) \<Rightarrow> (nat \<Rightarrow> u32) \<Rightarrow> nat list \<Rightarrow> slot list \<Rightarrow> life \<Rightarrow> life option" where
  "take_all_counts packets space [] xs s = Some s"
| "take_all_counts packets space (i # is) xs s =
     (case xs ! i of
        Queue a \<Rightarrow>
          (case objs s a of None \<Rightarrow> None | Some q \<Rightarrow>
             if have_driver_signaling (core q) then None
             else take_all_counts packets space is xs (upd_obj a (upd_core (take_counts (packets i) (space i))) s))
      | _ \<Rightarrow> take_all_counts packets space is xs s)"

text \<open>The thread that receives signals; \<open>res\<close>: the result of waiting and the signal.\<close>

definition receive_signal_turn ::
  "(nat \<Rightarrow> bool) \<Rightarrow> (nat \<Rightarrow> bool) \<Rightarrow> int \<times> int \<Rightarrow> (nat \<Rightarrow> u32) \<Rightarrow> (nat \<Rightarrow> u32) \<Rightarrow> int \<Rightarrow> life \<Rightarrow> turn option" where
  "receive_signal_turn alloc thread res packets space domain s =
     (case doms s domain of None \<Rightarrow> None | Some dq \<Rightarrow>
        case res of (nErr, signal) \<Rightarrow>
          if nErr \<noteq> 0
          then let nErr = (if nErr = -1 then AEE_ECONNRESET else nErr)
               in map_option (Exit_thread nErr) (error_callback alloc thread domain nErr s)
          else if signal = -1 then if num_queues dq \<noteq> 0 then None else Some (Exit_thread 0 s)
          else map_option Go_on (take_all_counts packets space [0..<Suc (max_queue dq)] (slots dq) s))"

text \<open>One turn of a queue's callback thread, up to the point where it waits again: \<open>seen\<close> is its packet count, \<open>q\<close> the queue at
  the first look at the ring, \<open>q'\<close> at the second look (the callback may have changed it), \<open>evs\<close> what happens while it waits.
  The result: how often the callback was called, the packet count, and how the turn ends.\<close>

datatype callback_end = Again dspqueue world "event list" | Exits int dspqueue world

definition add_reader_wait :: "u32 \<Rightarrow> dspqueue \<Rightarrow> dspqueue" where
  "add_reader_wait d c = (if have_wait_counts c then c\<lparr>resp_rd_wait := resp_rd_wait c + d\<rparr> else c)"

definition packet_callback_turn ::
  "u32 \<Rightarrow> dspqueue \<Rightarrow> dspqueue \<Rightarrow> world \<Rightarrow> event list \<Rightarrow> (nat \<times> u32 \<times> callback_end) outcome" where
  "packet_callback_turn seen q q' w evs =
     (let calls = (if seen \<noteq> resp_wr_count q then 1 else 0); seen = resp_wr_count q;
          q' = add_reader_wait 1 q';
          calls = calls + (if seen \<noteq> resp_wr_count q' then 1 else 0); seen = resp_wr_count q'
      in case wait_signal_locked None SIGNAL_RESP_PACKET None evs q' w of
           Fault \<Rightarrow> Fault | Blocked \<Rightarrow> Blocked
         | Done (nErr, q, w, evs) \<Rightarrow>
             Done (calls, seen,
               if nErr = AEE_EINTERRUPTED \<or> nErr = AEE_EBADSTATE then Exits 0 (add_reader_wait (-1) q) w
               else if nErr \<noteq> AEE_SUCCESS then Exits nErr q w
               else Again (add_reader_wait (-1) q) w evs))"

end
