(* ===== verification/LifeProps.thy ===== *)
theory LifeProps
  imports QueueLife
begin

text \<open>
  Properties of the queues' life cycle: the table of a domain's queues and the queue objects agree in every reachable
  state, what creating a queue establishes and what a failure leaves, the layout of the shared memory, errors and
  cancellation.
\<close>

section \<open>The queue table\<close>

definition taken :: "slot list \<Rightarrow> nat" where
  "taken xs = length (filter (\<lambda>x. x \<noteq> UNUSED_QUEUE) xs)"

definition slots_ok :: "domain_queues \<Rightarrow> bool" where
  "slots_ok dq \<longleftrightarrow> length (slots dq) = 64 \<and> max_queue dq < 64 \<and> unat (num_queues dq) = taken (slots dq) \<and>
     (\<forall>i < 64. slots dq ! i \<noteq> UNUSED_QUEUE \<longrightarrow> i \<le> max_queue dq)"

abbreviation (input) obj_domain :: "qobj \<Rightarrow> int" where "obj_domain q \<equiv> q_domain (core q)"
abbreviation (input) obj_slot :: "qobj \<Rightarrow> nat" where "obj_slot q \<equiv> unat (q_id (core q))"

text \<open>Object \<open>a\<close> belongs to slot \<open>i\<close> of a domain.\<close>

definition owner :: "life \<Rightarrow> nat \<Rightarrow> int \<Rightarrow> nat \<Rightarrow> bool" where
  "owner s a domain i \<longleftrightarrow> (\<exists>q. objs s a = Some q \<and> obj_domain q = domain \<and> obj_slot q = i)"

text \<open>A table is consistent and every taken slot has an object; an object has a taken slot in the table of its domain.\<close>

definition domain_ok :: "(nat \<Rightarrow> int \<Rightarrow> nat \<Rightarrow> bool) \<Rightarrow> int \<Rightarrow> domain_queues \<Rightarrow> bool" where
  "domain_ok own d dq \<longleftrightarrow> slots_ok dq \<and>
     (\<forall>i < 64. slots dq ! i \<noteq> UNUSED_QUEUE \<longrightarrow>
        (\<exists>a. own a d i \<and> (slots dq ! i = Queue a \<or> slots dq ! i = INVALID_QUEUE)))"

definition obj_ok :: "(int \<Rightarrow> domain_queues option) \<Rightarrow> nat \<Rightarrow> nat \<Rightarrow> qobj \<Rightarrow> bool" where
  "obj_ok ds next a q \<longleftrightarrow> a < next \<and> obj_slot q < 64 \<and>
     (\<exists>dq. ds (obj_domain q) = Some dq \<and> slots dq ! obj_slot q \<noteq> UNUSED_QUEUE \<and>
           (have_driver_signaling (core q) \<longrightarrow> have_dspsignal dq))"

definition life_inv :: "life \<Rightarrow> bool" where
  "life_inv s \<longleftrightarrow> (\<forall>d dq. doms s d = Some dq \<longrightarrow> domain_ok (owner s) d dq) \<and>
     (\<forall>a q. objs s a = Some q \<longrightarrow> obj_ok (doms s) (next_obj s) a q) \<and>
     (\<forall>a b d i. owner s a d i \<longrightarrow> owner s b d i \<longrightarrow> a = b)"

lemma life_invI:
  assumes "\<And>d dq. doms s d = Some dq \<Longrightarrow> domain_ok (owner s) d dq"
    and "\<And>a q. objs s a = Some q \<Longrightarrow> obj_ok (doms s) (next_obj s) a q"
    and "\<And>a b d i. owner s a d i \<Longrightarrow> owner s b d i \<Longrightarrow> a = b"
  shows "life_inv s"
  using assms unfolding life_inv_def by blast

lemma life_invD:
  assumes "life_inv s"
  shows "doms s d = Some dq \<Longrightarrow> domain_ok (owner s) d dq"
    and "objs s a = Some q \<Longrightarrow> obj_ok (doms s) (next_obj s) a q"
    and "owner s a d i \<Longrightarrow> owner s b d i \<Longrightarrow> a = b"
  using assms unfolding life_inv_def by blast+

text \<open>The invariant depends on this part of the state only.\<close>

definition table_of :: "domain_queues \<Rightarrow> u32 \<times> nat \<times> slot list \<times> bool" where
  "table_of dq = (num_queues dq, max_queue dq, slots dq, have_dspsignal dq)"

definition obj_key :: "qobj \<Rightarrow> int \<times> u32 \<times> bool" where
  "obj_key q = (obj_domain q, q_id (core q), have_driver_signaling (core q))"

definition tables :: "life \<Rightarrow> (int \<Rightarrow> (u32 \<times> nat \<times> slot list \<times> bool) option) \<times> (nat \<Rightarrow> (int \<times> u32 \<times> bool) option) \<times> nat" where
  "tables s = ((\<lambda>d. map_option table_of (doms s d)), (\<lambda>a. map_option obj_key (objs s a)), next_obj s)"

lemma tables_doms: "tables s' = tables s \<Longrightarrow> map_option table_of (doms s' d) = map_option table_of (doms s d)"
  unfolding tables_def prod.inject by meson

lemma tables_objs: "tables s' = tables s \<Longrightarrow> map_option obj_key (objs s' a) = map_option obj_key (objs s a)"
  unfolding tables_def prod.inject by meson

lemma owner_key: "owner s a d i \<longleftrightarrow> (\<exists>k h. map_option obj_key (objs s a) = Some (d, k, h) \<and> unat k = i)"
  by (auto simp: owner_def obj_key_def)

lemma owner_tables: "tables s' = tables s \<Longrightarrow> owner s' = owner s"
  using tables_objs [of s' s] by (intro ext) (simp add: owner_key)

lemma domain_ok_table: "table_of dq = table_of dq' \<Longrightarrow> domain_ok own d dq = domain_ok own d dq'"
  by (simp add: domain_ok_def table_of_def slots_ok_def)

lemma life_inv_tables_imp:
  assumes t: "tables s' = tables s" and inv: "life_inv s"
  shows "life_inv s'"
proof (rule life_invI)
  fix d dq assume "doms s' d = Some dq"
  with tables_doms [OF t, of d] obtain dq0 where d0: "doms s d = Some dq0" "table_of dq = table_of dq0" by (cases "doms s d") auto
  then show "domain_ok (owner s') d dq"
    using life_invD(1) [OF inv d0(1)] by (simp add: owner_tables [OF t] domain_ok_table [OF d0(2)])
next
  fix a q assume q: "objs s' a = Some q"
  with tables_objs [OF t, of a] obtain q0 where q0: "objs s a = Some q0" "obj_key q = obj_key q0" by (cases "objs s a") auto
  with life_invD(2) [OF inv] obtain dq0 where D: "a < next_obj s" "obj_slot q0 < 64" "doms s (obj_domain q0) = Some dq0"
      "slots dq0 ! obj_slot q0 \<noteq> UNUSED_QUEUE" "have_driver_signaling (core q0) \<longrightarrow> have_dspsignal dq0"
    unfolding obj_ok_def by blast
  from D(3) tables_doms [OF t, of "obj_domain q0"] obtain dq where "doms s' (obj_domain q0) = Some dq" "table_of dq = table_of dq0"
    by (cases "doms s' (obj_domain q0)") auto
  moreover have "next_obj s' = next_obj s" using t by (simp add: tables_def)
  ultimately show "obj_ok (doms s') (next_obj s') a q"
    using D q0(2) by (simp add: obj_ok_def obj_key_def table_of_def)
next
  fix a b d i assume "owner s' a d i" "owner s' b d i"
  then show "a = b" unfolding owner_tables [OF t] using life_invD(3) [OF inv] by blast
qed

section \<open>What the steps leave alone\<close>

named_theorems tables_simps "updates of the process state that leave its tables"

lemma tables_upd [tables_simps]:
  "tables (s\<lparr>lw := w\<rparr>) = tables s" "tables (s\<lparr>lrpc := r\<rparr>) = tables s" "tables (s\<lparr>q_count := c\<rparr>) = tables s"
  "tables (s\<lparr>queues_once := b\<rparr>) = tables s" "tables (s\<lparr>notif_registered := n\<rparr>) = tables s"
  by (simp_all add: tables_def)

lemma tables_mask [tables_simps]: "tables (upd_mask d f s) = tables s"
  by (simp add: upd_mask_def tables_simps)

lemma tables_set_mem [tables_simps]: "tables (set_mem m s) = tables s"
  by (simp add: set_mem_def tables_simps)

lemma tables_upd_dq [tables_simps]: "(\<And>dq. table_of (f dq) = table_of dq) \<Longrightarrow> tables (upd_dq d f s) = tables s"
  by (auto simp: tables_def upd_dq_def fun_eq_iff option.map_comp comp_def)

lemma tables_upd_obj [tables_simps]: "(\<And>q. obj_key (f q) = obj_key q) \<Longrightarrow> tables (upd_obj a f s) = tables s"
  by (auto simp: tables_def upd_obj_def fun_eq_iff option.map_comp comp_def)

text \<open>The parts of the state that the memory calls change.\<close>

definition rest :: "life \<Rightarrow> life" where
  "rest s = s\<lparr>lw := undefined, lrpc := undefined\<rparr>"

lemma rest_eq: "rest s' = rest s \<Longrightarrow> doms s' = doms s \<and> objs s' = objs s \<and> next_obj s' = next_obj s \<and> q_count s' = q_count s \<and> tables s' = tables s"
  by (cases s, cases s') (simp add: rest_def tables_def)

lemma mem_calls_rest:
  "life_alloc env n sz s = Some (va, s') \<Longrightarrow> rest s' = rest s"
  "life_free env va s = Some s' \<Longrightarrow> rest s' = rest s"
  "life_mmap env d fd va len s = (e, s') \<Longrightarrow> rest s' = rest s"
  "life_munmap env d fd va len s = (e, s') \<Longrightarrow> rest s' = rest s"
  by (auto simp: life_alloc_def life_free_def life_mmap_def life_munmap_def set_mem_def rest_def split: option.splits prod.splits)

lemma snd_munmap_rest: "rest (snd (life_munmap env d fd va len s)) = rest s"
  by (metis mem_calls_rest(4) prod.collapse)

lemma rest_upd [simp]: "rest (s\<lparr>lw := w\<rparr>) = rest s" "rest (s\<lparr>lrpc := r\<rparr>) = rest s" "rest (upd_mask d f s) = rest s"
  by (simp_all add: rest_def upd_mask_def)

text \<open>Rule for a sequence of steps.\<close>

lemma run_steps_inv:
  assumes "run_steps fs d s = Some (e, d', s')" and "P d s"
    and "\<And>f d s e d' s'. f \<in> set fs \<Longrightarrow> f d s = Some (e, d', s') \<Longrightarrow> P d s \<Longrightarrow> P d' s'"
  shows "P d' s'"
  using assms
proof (induction fs arbitrary: d s)
  case (Cons f fs)
  from Cons.prems(1) obtain e1 d1 s1 where f: "f d s = Some (e1, d1, s1)" by (auto split: option.splits)
  then have P: "P d1 s1" using Cons.prems(2,3) by (meson list.set_intros(1))
  show ?case
  proof (cases "e1 = 0")
    case True
    with Cons.prems(1) f have "run_steps fs d1 s1 = Some (e, d', s')" by simp
    then show ?thesis using P by (rule Cons.IH) (meson Cons.prems(3) list.set_intros(2))
  qed (use Cons.prems(1) f P in auto)
qed simp

declare run_steps.simps [simp del]

text \<open>The tables, the queue objects and the counter are those of another state.\<close>

definition frame :: "life \<Rightarrow> life \<Rightarrow> bool" where
  "frame s' s \<longleftrightarrow> doms s' = doms s \<and> objs s' = objs s \<and> next_obj s' = next_obj s \<and> q_count s' = q_count s"

lemma frame_refl [simp]: "frame s s"
  by (simp add: frame_def)

lemma frame_rest: "rest s' = rest s \<Longrightarrow> frame s' s0 \<longleftrightarrow> frame s s0"
  by (auto simp: frame_def dest: rest_eq)

lemma frame_simps [simp]:
  "frame (s\<lparr>lw := w\<rparr>) s0 \<longleftrightarrow> frame s s0" "frame (s\<lparr>lrpc := r\<rparr>) s0 \<longleftrightarrow> frame s s0"
  "frame (upd_mask d f s) s0 \<longleftrightarrow> frame s s0" "frame (s\<lparr>notif_registered := n\<rparr>) s0 \<longleftrightarrow> frame s s0"
  "frame (snd (life_munmap env d' fd va len s)) s0 \<longleftrightarrow> frame s s0"
  using snd_munmap_rest [of env d' fd va len s]
  by (auto simp: frame_def upd_mask_def dest: rest_eq)

lemma frame_mem:
  "life_alloc env n sz s = Some (va, s') \<Longrightarrow> frame s' s0 \<longleftrightarrow> frame s s0"
  "life_free env va s = Some s' \<Longrightarrow> frame s' s0 \<longleftrightarrow> frame s s0"
  "life_mmap env d fd va len s = (e, s') \<Longrightarrow> frame s' s0 \<longleftrightarrow> frame s s0"
  "life_munmap env d fd va len s = (e, s') \<Longrightarrow> frame s' s0 \<longleftrightarrow> frame s s0"
  by (blast dest: mem_calls_rest frame_rest)+

lemma frame_tables: "frame s' s \<Longrightarrow> tables s' = tables s"
  by (simp add: frame_def tables_def)

text \<open>A fresh table of a domain.\<close>

definition fresh_dq :: "domain_queues \<Rightarrow> bool" where
  "fresh_dq dq \<longleftrightarrow> num_queues dq = 0 \<and> max_queue dq = 0 \<and> slots dq = replicate 64 UNUSED_QUEUE \<and> dsp_error dq = 0"

lemma fresh_dq_simps [simp]:
  "fresh_dq (dq\<lparr>dq_handle := h\<rparr>) = fresh_dq dq" "fresh_dq (dq\<lparr>dq_state := v\<rparr>) = fresh_dq dq"
  "fresh_dq (dq\<lparr>dq_state_fd := f\<rparr>) = fresh_dq dq" "fresh_dq (dq\<lparr>send_thread := b\<rparr>) = fresh_dq dq"
  "fresh_dq (dq\<lparr>recv_thread := b\<rparr>) = fresh_dq dq" "fresh_dq (dq\<lparr>have_dspsignal := b\<rparr>) = fresh_dq dq"
  "fresh_dq empty_dq"
  by (simp_all add: fresh_dq_def empty_dq_def)

lemma init_steps:
  assumes "run_steps [open_dsp env domain, register_notif env domain, share_state env domain, start_threads env domain]
             \<lparr>di = empty_dq, state_mapped = False\<rparr> s = Some (e, d, s')"
  shows "frame s' s \<and> fresh_dq (di d)"
  by (rule run_steps_inv [OF assms, where P = "\<lambda>d s'. frame s' s \<and> fresh_dq (di d)"])
    (auto simp: open_dsp_def register_notif_def share_state_def start_threads_def Let_def frame_mem
      split: if_splits option.splits prod.splits)

lemma init_bail_frame: "init_bail env domain d s = Some s' \<Longrightarrow> frame s' s0 \<longleftrightarrow> frame s s0"
  by (auto simp: init_bail_def Let_def split: if_splits dest: frame_mem(2) [where ?s0.0 = s0])

text \<open>What initialising a domain leaves: an error and the tables as they were, or a table for the domain, which is fresh when
  there was none.\<close>

lemma init_cases:
  assumes "init_domain_queues_locked env domain s = Some (e, s')"
  shows "IS_VALID_EFFECTIVE_DOMAIN_ID domain"
    and "e \<noteq> 0 \<Longrightarrow> frame s' s"
    and "e = 0 \<Longrightarrow> doms s domain \<noteq> None \<Longrightarrow> s' = s"
    and "e = 0 \<Longrightarrow> doms s domain = None \<Longrightarrow> \<exists>dq s1. frame s1 s \<and> fresh_dq dq \<and> s' = s1\<lparr>doms := (doms s1)(domain \<mapsto> dq)\<rparr>"
proof -
  show "IS_VALID_EFFECTIVE_DOMAIN_ID domain" using assms by (simp add: init_domain_queues_locked_def split: if_splits)
  show "e \<noteq> 0 \<Longrightarrow> frame s' s"
    using assms by (auto simp: init_domain_queues_locked_def init_bail_frame dest: init_steps split: if_splits option.splits prod.splits)
  show "e = 0 \<Longrightarrow> doms s domain \<noteq> None \<Longrightarrow> s' = s"
    using assms by (auto simp: init_domain_queues_locked_def split: if_splits)
  show "e = 0 \<Longrightarrow> doms s domain = None \<Longrightarrow> \<exists>dq s1. frame s1 s \<and> fresh_dq dq \<and> s' = s1\<lparr>doms := (doms s1)(domain \<mapsto> dq)\<rparr>"
    using assms by (auto simp: init_domain_queues_locked_def dest!: init_steps split: if_splits option.splits prod.splits)
qed

lemma taken_unused [simp]: "taken (replicate n UNUSED_QUEUE) = 0"
  by (simp add: taken_def)

lemma life_inv_new_domain:
  assumes inv: "life_inv s" and n: "doms s domain = None" and f: "fresh_dq dq"
  shows "life_inv (s\<lparr>doms := (doms s)(domain \<mapsto> dq)\<rparr>)"
proof (rule life_invI)
  have o: "owner (s\<lparr>doms := (doms s)(domain \<mapsto> dq)\<rparr>) = owner s" by (simp add: owner_def fun_eq_iff)
  have ok: "domain_ok (owner s) domain dq" using f by (simp add: domain_ok_def slots_ok_def fresh_dq_def)
  fix d dq' assume "doms (s\<lparr>doms := (doms s)(domain \<mapsto> dq)\<rparr>) d = Some dq'"
  then show "domain_ok (owner (s\<lparr>doms := (doms s)(domain \<mapsto> dq)\<rparr>)) d dq'"
    unfolding o using ok life_invD(1) [OF inv] by (cases "d = domain") auto
next
  fix a q assume "objs (s\<lparr>doms := (doms s)(domain \<mapsto> dq)\<rparr>) a = Some q"
  then have "obj_ok (doms s) (next_obj s) a q" using life_invD(2) [OF inv] by simp
  with n show "obj_ok (doms (s\<lparr>doms := (doms s)(domain \<mapsto> dq)\<rparr>)) (next_obj (s\<lparr>doms := (doms s)(domain \<mapsto> dq)\<rparr>)) a q"
    by (auto simp: obj_ok_def)
next
  fix a b d i
  assume "owner (s\<lparr>doms := (doms s)(domain \<mapsto> dq)\<rparr>) a d i" "owner (s\<lparr>doms := (doms s)(domain \<mapsto> dq)\<rparr>) b d i"
  then have "owner s a d i" "owner s b d i" by (simp_all add: owner_def)
  then show "a = b" by (rule life_invD(3) [OF inv])
qed

lemma init_inv:
  assumes i: "init_domain_queues_locked env domain s = Some (e, s')" and inv: "life_inv s"
  shows "life_inv s'"
proof (cases "e = 0 \<and> doms s domain = None")
  case True
  from init_cases(4) [OF i] True obtain dq s1 where s1: "frame s1 s" "fresh_dq dq" "s' = s1\<lparr>doms := (doms s1)(domain \<mapsto> dq)\<rparr>"
    by auto
  have "life_inv s1" using life_inv_tables_imp [OF frame_tables [OF s1(1)] inv] .
  moreover have "doms s1 domain = None" using s1(1) True by (simp add: frame_def)
  ultimately show ?thesis unfolding s1(3) using s1(2) by (intro life_inv_new_domain)
next
  case False
  show ?thesis
  proof (cases "e = 0")
    case True
    with False init_cases(3) [OF i] inv show ?thesis by simp
  qed (use life_inv_tables_imp [OF frame_tables [OF init_cases(2) [OF i]] inv] in simp)
qed

section \<open>Taking a domain down\<close>

text \<open>Stopping the threads keeps every table; then the domain's table is freed or, after an error, stays.\<close>

definition only_domain :: "int \<Rightarrow> life \<Rightarrow> life \<Rightarrow> bool" where
  "only_domain domain s' s \<longleftrightarrow> objs s' = objs s \<and> next_obj s' = next_obj s \<and> q_count s' = q_count s \<and>
     (\<forall>d. d \<noteq> domain \<longrightarrow> doms s' d = doms s d) \<and>
     (doms s' domain = None \<or> map_option table_of (doms s' domain) = map_option table_of (doms s domain))"

lemma only_domain_rest: "rest s' = rest s \<Longrightarrow> only_domain domain s' s0 = only_domain domain s s0"
  using rest_eq [of s' s] by (simp add: only_domain_def)

lemma only_domain_simps [simp]:
  "only_domain domain s s"
  "only_domain domain (upd_mask d f s) s0 = only_domain domain s s0"
  "only_domain domain s s0 \<Longrightarrow> only_domain domain (s\<lparr>doms := (doms s)(domain := None)\<rparr>) s0"
  "(\<And>dq. table_of (g dq) = table_of dq) \<Longrightarrow> only_domain domain (upd_dq domain g s) s0 = only_domain domain s s0"
     apply (simp_all add: only_domain_def upd_mask_def upd_dq_def)
  by (cases "doms s domain") auto

lemma stop_threads_only:
  "stop_threads env domain d s = Some (e, d', s') \<Longrightarrow> only_domain domain s s0 \<Longrightarrow> only_domain domain s' s0"
  by (auto simp: stop_threads_def Let_def table_of_def split: option.splits if_splits prod.splits)

lemma unshare_state_only:
  "unshare_state env domain d s = Some (e, d', s') \<Longrightarrow> only_domain domain s s0 \<Longrightarrow> only_domain domain s' s0"
  by (auto simp: unshare_state_def split: option.splits if_splits prod.splits
      dest!: mem_calls_rest(4) mem_calls_rest(2) dest: only_domain_rest [where ?s0.0 = s0 and domain = domain])

lemma destroy_cases:
  assumes "destroy_domain_queues_locked env domain s = Some (e, s')"
  shows "\<exists>dq. doms s domain = Some dq \<and> num_queues dq = 0" and "only_domain domain s' s"
proof -
  from assms obtain d where r: "run_steps [stop_threads env domain, unshare_state env domain] () s = Some (e, d, s')"
    and dq: "\<exists>dq. doms s domain = Some dq \<and> num_queues dq = 0"
    by (auto simp: destroy_domain_queues_locked_def split: if_splits option.splits)
  show "\<exists>dq. doms s domain = Some dq \<and> num_queues dq = 0" by (rule dq)
  show "only_domain domain s' s"
    by (rule run_steps_inv [OF r, where P = "\<lambda>_ s'. only_domain domain s' s"])
      (auto dest: stop_threads_only unshare_state_only)
qed

lemma taken_0: "taken xs = 0 \<longleftrightarrow> (\<forall>i < length xs. xs ! i = UNUSED_QUEUE)"
  by (simp add: taken_def filter_empty_conv all_set_conv_all_nth)

lemma only_domain_inv:
  assumes dq: "doms s domain = Some dq" "num_queues dq = 0" and o: "only_domain domain s' s" and inv: "life_inv s"
  shows "life_inv s'"
proof -
  have own: "owner s' = owner s" using o by (simp add: only_domain_def owner_def fun_eq_iff)
  have "obj_domain q \<noteq> domain" if "objs s a = Some q" for a q
  proof
    assume "obj_domain q = domain"
    with life_invD(2) [OF inv that] dq(1) have "slots dq ! obj_slot q \<noteq> UNUSED_QUEUE" "obj_slot q < 64"
      by (auto simp: obj_ok_def)
    moreover have "slots_ok dq" using life_invD(1) [OF inv dq(1)] by (simp add: domain_ok_def)
    ultimately show False using dq(2) by (simp add: slots_ok_def taken_0 eq_commute [of 0])
  qed
  note other = this
  show ?thesis
  proof (rule life_invI)
    fix d' dq' assume d': "doms s' d' = Some dq'"
    show "domain_ok (owner s') d' dq'"
    proof (cases "d' = domain")
      case True
      with d' o dq(1) have t: "table_of dq' = table_of dq" by (simp add: only_domain_def)
      show ?thesis using life_invD(1) [OF inv dq(1)] unfolding own True domain_ok_table [OF t] .
    next
      case False
      with d' o have "doms s d' = Some dq'" by (simp add: only_domain_def)
      then show ?thesis using life_invD(1) [OF inv] by (simp add: own)
    qed
  next
    fix a q assume "objs s' a = Some q"
    then have q: "objs s a = Some q" using o by (simp add: only_domain_def)
    with other o have "doms s' (obj_domain q) = doms s (obj_domain q)" by (simp add: only_domain_def)
    with life_invD(2) [OF inv q] o show "obj_ok (doms s') (next_obj s') a q" by (simp add: obj_ok_def only_domain_def)
  next
    fix a b d i assume "owner s' a d i" "owner s' b d i"
    then show "a = b" unfolding own by (rule life_invD(3) [OF inv])
  qed
qed

lemma destroy_inv: "destroy_domain_queues_locked env domain s = Some (e, s') \<Longrightarrow> life_inv s \<Longrightarrow> life_inv s'"
  using destroy_cases [of env domain s e s'] only_domain_inv by blast

section \<open>Creating a queue\<close>

lemma run_steps_ok:
  assumes "run_steps fs d s = Some (0, d', s')" and "P d s"
    and "\<And>f d s d' s'. f \<in> set fs \<Longrightarrow> f d s = Some (0, d', s') \<Longrightarrow> P d s \<Longrightarrow> P d' s'"
  shows "P d' s'"
  using assms
proof (induction fs arbitrary: d s)
  case (Cons f fs)
  from Cons.prems(1) obtain d1 s1 where f: "f d s = Some (0, d1, s1)" and r: "run_steps fs d1 s1 = Some (0, d', s')"
    by (auto simp: run_steps.simps split: option.splits if_splits)
  have "P d1 s1" using f Cons.prems(2,3) by (meson list.set_intros(1))
  with r show ?case by (rule Cons.IH) (meson Cons.prems(3) list.set_intros(2))
qed (simp add: run_steps.simps)

lemma make_signals_keeps:
  "make_signals env domain i sns d s = Some (e, d', s') \<Longrightarrow> (frame s' s0 \<longleftrightarrow> frame s s0) \<and> cq d' = cq d \<and> queue_mapped d' = queue_mapped d"
  by (induction sns arbitrary: d s) (auto simp: Let_def split: option.splits if_splits prod.splits)

abbreviation (input) create_steps ::
  "lenv \<Rightarrow> int \<Rightarrow> nat \<Rightarrow> u32 \<Rightarrow> bool \<Rightarrow> u32 \<Rightarrow> u32 \<Rightarrow> u32 \<Rightarrow> bool \<Rightarrow> bool \<Rightarrow> dcreate verify_step list" where
  "create_steps env domain i count have flags req_size resp_size packet_cb error_cb \<equiv>
     [check_arguments flags req_size resp_size, new_object env domain i packet_cb error_cb,
      share_memory env domain (size_or DSPQUEUE_DEFAULT_REQ_SIZE req_size) (size_or DSPQUEUE_DEFAULT_RESP_SIZE resp_size),
      write_header count (size_or DSPQUEUE_DEFAULT_REQ_SIZE req_size) (size_or DSPQUEUE_DEFAULT_RESP_SIZE resp_size),
      create_signals env domain i have, create_on_dsp env domain i, create_sync env, start_callback_thread env]"

lemmas create_step_defs = check_arguments_def new_object_def share_memory_def write_header_def create_signals_def
  create_on_dsp_def create_sync_def start_callback_thread_def

lemma create_steps_frame:
  assumes "run_steps (create_steps env domain i count have flags rq rs pcb ecb) d s = Some (e, d', s')"
  shows "frame s' s"
  by (rule run_steps_inv [OF assms, where P = "\<lambda>_ s'. frame s' s"])
    (auto simp: create_step_defs Let_def frame_mem make_signals_keeps split: if_splits option.splits prod.splits)

definition made_for :: "int \<Rightarrow> nat \<Rightarrow> bool \<Rightarrow> qobj \<Rightarrow> bool" where
  "made_for domain i have q \<longleftrightarrow> obj_domain q = domain \<and> q_id (core q) = word_of_nat i \<and>
     (have_driver_signaling (core q) \<longrightarrow> have)"

lemma made_for_simps [simp]:
  "made_for d i h (q\<lparr>user_queue := v\<rparr>) = made_for d i h q" "made_for d i h (q\<lparr>user_queue_fd := f\<rparr>) = made_for d i h q"
  "made_for d i h (q\<lparr>user_queue_size := z\<rparr>) = made_for d i h q" "made_for d i h (q\<lparr>dsp_id := did\<rparr>) = made_for d i h q"
  "made_for d i h (q\<lparr>version := ver\<rparr>) = made_for d i h q" "made_for d i h (q\<lparr>hdr_flags := fl\<rparr>) = made_for d i h q"
  "made_for d i h (q\<lparr>lay := l\<rparr>) = made_for d i h q"
  "made_for d i h (zero_qobj\<lparr>core := zero_core\<lparr>q_id := word_of_nat i, q_domain := d\<rparr>, packet_callback := pcb, error_callback_set := ecb\<rparr>)"
  by (simp_all add: made_for_def zero_qobj_def zero_core_def)

lemma made_for_core:
  "q_id c = q_id (core q) \<Longrightarrow> q_domain c = q_domain (core q) \<Longrightarrow> (have_driver_signaling c \<longrightarrow> have_driver_signaling (core q) \<or> h)
     \<Longrightarrow> made_for d i h q \<Longrightarrow> made_for d i h (q\<lparr>core := c\<rparr>)"
  by (auto simp: made_for_def)

definition goes_with :: "int \<Rightarrow> nat \<Rightarrow> bool \<Rightarrow> dcreate \<Rightarrow> bool" where
  "goes_with domain i have d \<longleftrightarrow> (\<forall>q. cq d = Some q \<longrightarrow> made_for domain i have q)"

lemma goes_with_steps:
  "check_arguments flags rq rs d s = Some (0, d', s') \<Longrightarrow> goes_with domain i have d \<Longrightarrow> goes_with domain i have d'"
  "new_object env domain i pcb ecb d s = Some (0, d', s') \<Longrightarrow> goes_with domain i have d'"
  "share_memory env domain rq rs d s = Some (0, d', s') \<Longrightarrow> goes_with domain i have d \<Longrightarrow> goes_with domain i have d'"
  "write_header count rq rs d s = Some (0, d', s') \<Longrightarrow> goes_with domain i have d \<Longrightarrow> goes_with domain i have d'"
  "create_signals env domain i have d s = Some (0, d', s') \<Longrightarrow> goes_with domain i have d \<Longrightarrow> goes_with domain i have d'"
  "create_on_dsp env domain i d s = Some (0, d', s') \<Longrightarrow> goes_with domain i have d \<Longrightarrow> goes_with domain i have d'"
  "create_sync env d s = Some (0, d', s') \<Longrightarrow> goes_with domain i have d \<Longrightarrow> goes_with domain i have d'"
  "start_callback_thread env d s = Some (0, d', s') \<Longrightarrow> goes_with domain i have d \<Longrightarrow> goes_with domain i have d'"
  subgoal by (auto simp: check_arguments_def goes_with_def split: if_splits)
  subgoal by (auto simp: new_object_def goes_with_def split: if_splits)
  subgoal by (auto simp: share_memory_def goes_with_def Let_def split: if_splits option.splits prod.splits)
  subgoal by (auto simp: write_header_def goes_with_def Let_def intro!: made_for_core split: if_splits option.splits)
  subgoal by (cases "cq d") (auto simp: create_signals_def goes_with_def dest!: make_signals_keeps intro!: made_for_core split: if_splits)
  subgoal by (auto simp: create_on_dsp_def goes_with_def Let_def intro!: made_for_core split: if_splits option.splits prod.splits)
  subgoal by (auto simp: create_sync_def split: if_splits option.splits)
  subgoal by (auto simp: start_callback_thread_def split: if_splits option.splits)
  done

lemma create_steps_object:
  assumes "run_steps (create_steps env domain i count have flags rq rs pcb ecb) \<lparr>cq = None, queue_mapped = m, n_signals = n\<rparr> s
    = Some (0, d', s')" "cq d' = Some q"
  shows "made_for domain i have q"
proof -
  have "goes_with domain i have d'"
    by (rule run_steps_ok [OF assms(1), where P = "\<lambda>d _. goes_with domain i have d"])
      (auto simp: goes_with_def [of _ _ _ "\<lparr>cq = None, queue_mapped = m, n_signals = n\<rparr>"] dest: goes_with_steps)
  with assms(2) show ?thesis by (simp add: goes_with_def)
qed

text \<open>The packet part of a queue object, apart from the two features that the DSP negotiates.\<close>

definition plain :: "qobj \<Rightarrow> dspqueue" where
  "plain q = (core q)\<lparr>have_wait_counts := False, have_driver_signaling := False\<rparr>"

definition fresh_core :: "int \<Rightarrow> nat \<Rightarrow> u32 \<Rightarrow> u32 \<Rightarrow> u32 \<Rightarrow> dspqueue" where
  "fresh_core domain i count rq rs = zero_core\<lparr>q_id := word_of_nat i, q_domain := domain, hdr_queue_count := count,
     queue_count := count, req := zero_ring rq, resp := zero_ring rs\<rparr>"

definition plain_is :: "dspqueue \<Rightarrow> dcreate \<Rightarrow> bool" where
  "plain_is c d \<longleftrightarrow> (\<forall>q. cq d = Some q \<longrightarrow> plain q = c)"

lemma plain_simps [simp]:
  "plain (q\<lparr>user_queue := v\<rparr>) = plain q" "plain (q\<lparr>user_queue_fd := f\<rparr>) = plain q" "plain (q\<lparr>user_queue_size := z\<rparr>) = plain q"
  "plain (q\<lparr>dsp_id := did\<rparr>) = plain q" "plain (q\<lparr>version := ver\<rparr>) = plain q" "plain (q\<lparr>hdr_flags := fl\<rparr>) = plain q"
  "plain (q\<lparr>lay := l\<rparr>) = plain q"
  "plain (q\<lparr>core := (core q)\<lparr>have_wait_counts := b\<rparr>\<rparr>) = plain q"
  "plain (q\<lparr>core := (core q)\<lparr>have_driver_signaling := b\<rparr>\<rparr>) = plain q"
  by (simp_all add: plain_def)

lemma header_core:
  "c\<lparr>have_wait_counts := False, have_driver_signaling := False\<rparr> = zero_core\<lparr>q_id := word_of_nat i, q_domain := domain\<rparr> \<Longrightarrow>
   c\<lparr>hdr_queue_count := count, queue_count := count, req := zero_ring rq, resp := zero_ring rs, st_req_packet_count := 0,
     st_resp_space_count := 0, have_wait_counts := False, have_driver_signaling := False\<rparr> = fresh_core domain i count rq rs"
  by (cases c) (simp add: zero_core_def fresh_core_def)

lemma plain_is_steps:
  "new_object env domain i pcb ecb d s = Some (0, d', s') \<Longrightarrow> plain_is (zero_core\<lparr>q_id := word_of_nat i, q_domain := domain\<rparr>) d'"
  "share_memory env domain rq rs d s = Some (0, d', s') \<Longrightarrow> plain_is c d \<Longrightarrow> plain_is c d'"
  "write_header count rq rs d s = Some (0, d', s') \<Longrightarrow> plain_is (zero_core\<lparr>q_id := word_of_nat i, q_domain := domain\<rparr>) d \<Longrightarrow>
     plain_is (fresh_core domain i count rq rs) d'"
  "create_signals env domain i have d s = Some (0, d', s') \<Longrightarrow> plain_is c d \<Longrightarrow> plain_is c d'"
  "create_on_dsp env domain i d s = Some (0, d', s') \<Longrightarrow> plain_is c d \<Longrightarrow> plain_is c d'"
  "create_sync env d s = Some (0, d', s') \<Longrightarrow> plain_is c d \<Longrightarrow> plain_is c d'"
  "start_callback_thread env d s = Some (0, d', s') \<Longrightarrow> plain_is c d \<Longrightarrow> plain_is c d'"
  subgoal by (auto simp: new_object_def plain_is_def plain_def zero_qobj_def zero_core_def split: if_splits)
  subgoal by (auto simp: share_memory_def plain_is_def Let_def split: if_splits option.splits prod.splits)
  subgoal by (auto simp: write_header_def plain_is_def plain_def Let_def header_core split: if_splits option.splits)
  subgoal by (cases "cq d") (auto simp: create_signals_def plain_is_def dest!: make_signals_keeps split: if_splits)
  subgoal by (auto simp: create_on_dsp_def plain_is_def plain_def Let_def split: if_splits option.splits prod.splits)
  subgoal by (auto simp: create_sync_def split: if_splits option.splits)
  subgoal by (auto simp: start_callback_thread_def split: if_splits option.splits)
  done

lemma run_steps_Cons_ok:
  "run_steps (f # fs) d s = Some (0, d', s') \<Longrightarrow> \<exists>d1 s1. f d s = Some (0, d1, s1) \<and> run_steps fs d1 s1 = Some (0, d', s')"
  by (auto simp: run_steps.simps split: option.splits if_splits)

lemma create_steps_core:
  assumes "run_steps (create_steps env domain i count have flags rq rs pcb ecb) d s = Some (0, d', s')" "cq d' = Some q"
  shows "plain q = fresh_core domain i count (size_or 65536 rq) (size_or 16384 rs)" "flags = 0" "rq \<le> 16777216" "rs \<le> 16777216"
proof -
  let ?X0 = "zero_core\<lparr>q_id := word_of_nat i, q_domain := domain\<rparr>"
    and ?X = "fresh_core domain i count (size_or 65536 rq) (size_or 16384 rs)"
  from run_steps_Cons_ok [OF assms(1)] obtain d1 s1 where a: "check_arguments flags rq rs d s = Some (0, d1, s1)" and r1:
    "run_steps (tl (create_steps env domain i count have flags rq rs pcb ecb)) d1 s1 = Some (0, d', s')" by auto
  from a show "flags = 0" "rq \<le> 16777216" "rs \<le> 16777216" by (auto simp: check_arguments_def split: if_splits)
  from run_steps_Cons_ok [OF r1 [simplified]] obtain d2 s2 where b: "new_object env domain i pcb ecb d1 s1 = Some (0, d2, s2)" and r2:
    "run_steps (tl (tl (create_steps env domain i count have flags rq rs pcb ecb))) d2 s2 = Some (0, d', s')" by auto
  from run_steps_Cons_ok [OF r2 [simplified]] obtain d3 s3 where c: "share_memory env domain (size_or 65536 rq) (size_or 16384 rs) d2 s2 = Some (0, d3, s3)"
    and r3: "run_steps (tl (tl (tl (create_steps env domain i count have flags rq rs pcb ecb)))) d3 s3 = Some (0, d', s')" by auto
  from run_steps_Cons_ok [OF r3 [simplified]] obtain d4 s4 where h: "write_header count (size_or 65536 rq) (size_or 16384 rs) d3 s3 = Some (0, d4, s4)"
    and r4: "run_steps [create_signals env domain i have, create_on_dsp env domain i, create_sync env, start_callback_thread env] d4 s4 = Some (0, d', s')" by auto
  have "plain_is ?X d4" using plain_is_steps(1) [OF b] plain_is_steps(2) [OF c] plain_is_steps(3) [OF h] by blast
  then have "plain_is ?X d'"
    by (rule run_steps_ok [OF r4, where P = "\<lambda>d _. plain_is ?X d"]) (auto dest: plain_is_steps(4-7))
  with assms(2) show "plain q = ?X" by (simp add: plain_is_def)
qed

lemma release_object_frame: "release_object env domain i d s = Some s' \<Longrightarrow> frame s' s0 \<longleftrightarrow> frame s s0"
  by (auto simp: release_object_def Let_def split: option.splits if_splits dest: frame_mem(2) [where ?s0.0 = s0])

text \<open>The search finds the first free slot, and there is one.\<close>

lemma taken_upd:
  "i < length xs \<Longrightarrow> taken (xs[i := y]) + (if xs ! i \<noteq> UNUSED_QUEUE then 1 else 0) = taken xs + (if y \<noteq> UNUSED_QUEUE then 1 else 0)"
proof (induction xs arbitrary: i)
  case (Cons x xs)
  show ?case
  proof (cases i)
    case (Suc k)
    with Cons.IH [of k] Cons.prems show ?thesis by (simp add: taken_def split: if_splits)
  qed (simp add: taken_def)
qed simp

lemma taken_less: "taken xs < length xs \<Longrightarrow> UNUSED_QUEUE \<in> set xs"
  unfolding taken_def by (metis (mono_tags, lifting) filter_True less_irrefl)

lemma taken_le: "taken xs \<le> length xs"
  by (simp add: taken_def)

lemma claim_slot_free:
  assumes ok: "slots_ok dq" and n: "num_queues dq < 64"
  obtains i dq' where "claim_slot dq = Some (i, dq')" "i < 64" "slots dq ! i = UNUSED_QUEUE" "\<forall>j < i. slots dq ! j \<noteq> UNUSED_QUEUE"
    "max_queue dq' = max (max_queue dq) i" "slots dq' = (slots dq)[i := INVALID_QUEUE]"
proof -
  let ?i = "first_idx (\<lambda>x. x = UNUSED_QUEUE) 64 (slots dq)"
  have l: "length (slots dq) = 64" using ok by (simp add: slots_ok_def)
  have "unat (num_queues dq) < 64" using n by (simp add: word_less_nat_alt)
  then have "UNUSED_QUEUE \<in> set (slots dq)" using ok by (intro taken_less) (simp add: slots_ok_def)
  then obtain j where j: "j < 64" "slots dq ! j = UNUSED_QUEUE" by (metis in_set_conv_nth l)
  have lt: "?i < 64"
  proof (rule ccontr)
    assume "\<not> ?i < 64"
    from first_idx_none [OF this j(1)] j(2) show False by simp
  qed
  have "slots dq ! ?i = UNUSED_QUEUE" using first_idx_less [OF lt] l by simp
  moreover have "\<forall>k < ?i. slots dq ! k \<noteq> UNUSED_QUEUE" using first_idx_before by blast
  moreover have "claim_slot dq = Some (?i, dq\<lparr>max_queue := (if max_queue dq < ?i then ?i else max_queue dq),
      slots := (slots dq)[?i := INVALID_QUEUE]\<rparr>)"
    using lt by (simp add: claim_slot_def Let_def)
  ultimately show ?thesis using lt by (intro that [of ?i]) (auto simp: max_def)
qed

lemma publish_simps:
  "publish domain i q s = (a, s') \<Longrightarrow> a = next_obj s \<and> objs s' = (objs s)(a \<mapsto> q) \<and> next_obj s' = Suc a \<and> q_count s' = q_count s \<and>
     doms s' = (doms s)(domain := map_option (\<lambda>dq. dq\<lparr>slots := (slots dq)[i := Queue a]\<rparr>) (doms s domain))"
  by (auto simp: publish_def upd_dq_def Let_def)

lemma create_in_slot_cases:
  assumes "create_in_slot env domain i count have flags rq rs pcb ecb s = Some (e, qo, s')"
  obtains (made) q s2 where "e = 0" "frame s2 s" "made_for domain i have q" "publish domain i q s2 = (next_obj s, s')" "qo = Some (next_obj s)"
      "plain q = fresh_core domain i count (size_or 65536 rq) (size_or 16384 rs)" "flags = 0" "rq \<le> 16777216" "rs \<le> 16777216"
  | (undone) s2 where "e \<noteq> 0" "qo = None" "frame s2 s" "put_back env domain i s2 = Some s'"
proof -
  from assms obtain e1 d s1 where r: "run_steps (create_steps env domain i count have flags rq rs pcb ecb)
      \<lparr>cq = None, queue_mapped = False, n_signals = 0\<rparr> s = Some (e1, d, s1)"
    by (auto simp: create_in_slot_def Let_def split: option.splits)
  have f: "frame s1 s" by (rule create_steps_frame [OF r])
  show ?thesis
  proof (cases "e1 = 0")
    case True
    with assms r obtain q where q: "cq d = Some q" and p: "(case publish domain i q s1 of (a, s) \<Rightarrow> Some (AEE_SUCCESS, Some a, s)) = Some (e, qo, s')"
      by (auto simp: create_in_slot_def Let_def split: option.splits)
    obtain a s2 where pub: "publish domain i q s1 = (a, s2)" by (metis surj_pair)
    with publish_simps [OF pub] f have a: "a = next_obj s" by (simp add: frame_def)
    have "made_for domain i have q" using create_steps_object [OF r [unfolded True] q] .
    then show ?thesis using p pub f a create_steps_core [OF r [unfolded True] q] by (intro made [of s1 q]) auto
  next
    case False
    with assms r obtain s2 where "release_object env domain i d s1 = Some s2" "map_option (\<lambda>s. (e1, None, s)) (put_back env domain i s2) = Some (e, qo, s')"
      by (auto simp: create_in_slot_def Let_def split: option.splits)
    then show ?thesis using False f by (intro undone [of s2]) (auto simp: release_object_frame)
  qed
qed

lemma put_back_cases:
  assumes "put_back env domain i s = Some s'" "doms s domain = Some dq" "i < 64"
  obtains (last) e where "num_queues dq = 1" "destroy_domain_queues_locked env domain
      (s\<lparr>doms := (doms s)(domain \<mapsto> dq\<lparr>slots := (slots dq)[i := UNUSED_QUEUE], num_queues := num_queues dq - 1\<rparr>)\<rparr>) = Some (e, s')"
  | (others) "num_queues dq > 1" "s' = s\<lparr>doms := (doms s)(domain \<mapsto> dq\<lparr>slots := (slots dq)[i := UNUSED_QUEUE], num_queues := num_queues dq - 1\<rparr>)\<rparr>"
proof -
  let ?s = "s\<lparr>doms := (doms s)(domain \<mapsto> dq\<lparr>slots := (slots dq)[i := UNUSED_QUEUE], num_queues := num_queues dq - 1\<rparr>)\<rparr>"
  have n: "num_queues dq > 0" using assms by (auto simp: put_back_def upd_dq_def split: if_splits)
  have u: "upd_dq domain (\<lambda>dq. dq\<lparr>num_queues := num_queues dq - 1\<rparr>)
      (upd_dq domain (\<lambda>dq. dq\<lparr>slots := (slots dq)[i := UNUSED_QUEUE]\<rparr>) s) = ?s"
    using assms(2) by (simp add: upd_dq_def)
  show ?thesis
  proof (cases "num_queues dq = 1")
    case True
    with assms u show ?thesis by (auto simp: put_back_def upd_dq_def Let_def intro: last)
  next
    case False
    with n have "num_queues dq > 1"
      by (metis order_le_imp_less_or_eq unsigned_eq_0_iff word_gt_0 word_le_nat_alt unat_1 Suc_leI One_nat_def neq0_conv)
    moreover have "num_queues dq - 1 \<noteq> 0" using False by simp
    ultimately show ?thesis using assms u n by (intro others) (auto simp: put_back_def upd_dq_def Let_def split: if_splits)
  qed
qed

definition resolved :: "int \<Rightarrow> life \<Rightarrow> int" where
  "resolved domain s = (if domain = -1 then get_current_domain (w_default_domain (lw s)) (sess (w_mem (lw s))) else domain)"

text \<open>Everything but the counter and the shared world.\<close>

definition same_queues :: "life \<Rightarrow> life \<Rightarrow> bool" where
  "same_queues s' s \<longleftrightarrow> doms s' = doms s \<and> objs s' = objs s \<and> next_obj s' = next_obj s"

lemma same_queues_tables: "same_queues s' s \<Longrightarrow> tables s' = tables s"
  by (simp add: same_queues_def tables_def)

lemma once_same: "same_queues (init_process_queues_once env s) s"
  by (simp add: init_process_queues_once_def same_queues_def)

lemmas once_tables = once_same [THEN same_queues_tables]

text \<open>A table with one more queue: a slot that was free is taken.\<close>

definition claimed :: "nat \<Rightarrow> domain_queues \<Rightarrow> domain_queues" where
  "claimed i dq = dq\<lparr>num_queues := num_queues dq + 1, max_queue := max (max_queue dq) i, slots := (slots dq)[i := INVALID_QUEUE]\<rparr>"

lemma create_cases:
  assumes c: "dspqueue_create env domain flags rq rs pcb ecb out s = Some (e, qo, s')" and inv: "life_inv s"
  obtains (refused) "e \<noteq> 0" "qo = None" "same_queues s' s"
  | (made) s1 dq i q s2 where "init_domain_queues_locked env (resolved domain s) (init_process_queues_once env s) = Some (0, s1)"
      "doms s1 (resolved domain s) = Some dq" "num_queues dq < 64" "i < 64" "slots dq ! i = UNUSED_QUEUE"
      "\<forall>j < i. slots dq ! j \<noteq> UNUSED_QUEUE" "e = 0" "qo = Some (next_obj s1)" "made_for (resolved domain s) i (have_dspsignal dq) q"
      "objs s2 = objs s1" "next_obj s2 = next_obj s1" "q_count s2 = q_count s1 + 1" "doms s2 = (doms s1)(resolved domain s \<mapsto> claimed i dq)"
      "publish (resolved domain s) i q s2 = (next_obj s1, s')"
      "plain q = fresh_core (resolved domain s) i (q_count s1) (size_or 65536 rq) (size_or 16384 rs)"
      "flags = 0" "rq \<le> 16777216" "rs \<le> 16777216"
  | (undone) s1 dq i s2 where "init_domain_queues_locked env (resolved domain s) (init_process_queues_once env s) = Some (0, s1)"
      "doms s1 (resolved domain s) = Some dq" "num_queues dq < 64" "i < 64" "slots dq ! i = UNUSED_QUEUE" "e \<noteq> 0" "qo = None"
      "objs s2 = objs s1" "next_obj s2 = next_obj s1" "doms s2 = (doms s1)(resolved domain s \<mapsto> claimed i dq)"
      "put_back env (resolved domain s) i s2 = Some s'"
proof -
  let ?d = "resolved domain s" and ?s = "init_process_queues_once env s"
  have inv0: "life_inv ?s" using once_tables inv by (rule life_inv_tables_imp)
  have shape: "dspqueue_create env domain flags rq rs pcb ecb out s = (if \<not> out then Some (AEE_EBADPARM, None, s)
         else if \<not> IS_VALID_EFFECTIVE_DOMAIN_ID ?d then Some (if domain = -1 then AEE_ERPC else AEE_EBADPARM, None, s)
         else if e_once env \<noteq> 0 then Some (AEE_ERPC, None, s)
         else case init_domain_queues_locked env ?d ?s of
                None \<Rightarrow> None
              | Some (nErr, s) \<Rightarrow>
                  if nErr \<noteq> 0 then Some (nErr, None, s)
                  else case doms s ?d of
                    None \<Rightarrow> Some (AEE_EBADPARM, None, s)
                  | Some dq \<Rightarrow>
                      if num_queues dq \<ge> 64 then Some (AEE_EBADPARM, None, s)
                      else case claim_slot dq of
                                None \<Rightarrow> map_option (\<lambda>s. (AEE_ERPC, None, s))
                                  (put_back env ?d 64 (upd_dq ?d (\<lambda>dq. dq\<lparr>num_queues := num_queues dq + 1\<rparr>) s\<lparr>q_count := q_count s + 1\<rparr>))
                              | Some (i, dq') \<Rightarrow>
                                  create_in_slot env ?d i (q_count s) (have_dspsignal dq) flags rq rs pcb ecb
                                    (upd_dq ?d (\<lambda>dq. dq\<lparr>max_queue := max_queue dq', slots := slots dq'\<rparr>)
                                      (upd_dq ?d (\<lambda>dq. dq\<lparr>num_queues := num_queues dq + 1\<rparr>) s\<lparr>q_count := q_count s + 1\<rparr>)))"
    unfolding dspqueue_create_def Let_def resolved_def ..
  show ?thesis
  proof (cases "out \<and> IS_VALID_EFFECTIVE_DOMAIN_ID ?d \<and> e_once env = 0")
    case False
    with c shape show ?thesis by (intro refused) (auto simp: same_queues_def split: if_splits)
  next
    case ok: True
    with c shape obtain e1 s1 where i: "init_domain_queues_locked env ?d ?s = Some (e1, s1)"
      by (auto split: option.splits)
    have full: "same_queues s1 s" if "e1 \<noteq> 0 \<or> doms ?s ?d \<noteq> None"
    proof (cases "e1 = 0")
      case True
      with init_cases(3) [OF i] that show ?thesis by (simp add: once_same)
    qed (use init_cases(2) [OF i] once_same [of env s] in \<open>simp add: frame_def same_queues_def\<close>)
    have inv1: "life_inv s1" by (rule init_inv [OF i inv0])
    show ?thesis
    proof (cases "e1 = 0")
      case False
      with c shape ok i full show ?thesis by (intro refused) auto
    next
      case e1: True
      obtain dq where dq: "doms s1 ?d = Some dq" "doms ?s ?d \<noteq> None \<or> num_queues dq = 0"
      proof (cases "doms ?s ?d")
        case None
        from init_cases(4) [OF i e1 None] that show ?thesis by (auto simp: fresh_dq_def)
      next
        case (Some dq)
        with init_cases(3) [OF i e1] that show ?thesis by auto
      qed
      show ?thesis
      proof (cases "num_queues dq < 64")
        case False
        with dq have "doms ?s ?d \<noteq> None" by auto
        with full have "same_queues s1 s" by simp
        moreover have "num_queues dq \<ge> 64" using False by simp
        ultimately show ?thesis using c shape ok i e1 dq(1) by (intro refused) auto
      next
        case n: True
        have "slots_ok dq" using life_invD(1) [OF inv1 dq(1)] by (simp add: domain_ok_def)
        from claim_slot_free [OF this n] obtain k dq' where k: "claim_slot dq = Some (k, dq')" "k < 64" "slots dq ! k = UNUSED_QUEUE"
          "\<forall>j < k. slots dq ! j \<noteq> UNUSED_QUEUE" "max_queue dq' = max (max_queue dq) k" "slots dq' = (slots dq)[k := INVALID_QUEUE]" .
        let ?s2 = "upd_dq ?d (\<lambda>dq. dq\<lparr>max_queue := max_queue dq', slots := slots dq'\<rparr>)
                     (upd_dq ?d (\<lambda>dq. dq\<lparr>num_queues := num_queues dq + 1\<rparr>) s1\<lparr>q_count := q_count s1 + 1\<rparr>)"
        have s2: "objs ?s2 = objs s1" "next_obj ?s2 = next_obj s1" "q_count ?s2 = q_count s1 + 1" "doms ?s2 = (doms s1)(?d \<mapsto> claimed k dq)"
          using dq(1) k by (simp_all add: upd_dq_def claimed_def)
        from n have "\<not> 64 \<le> num_queues dq" by simp
        with c shape ok i e1 dq(1) k(1)
        have cr: "create_in_slot env ?d k (q_count s1) (have_dspsignal dq) flags rq rs pcb ecb ?s2 = Some (e, qo, s')"
          by simp
        then show ?thesis
        proof (cases rule: create_in_slot_cases)
          case m: (made q s3)
          show ?thesis
            using m s2 by (intro made [OF i [unfolded e1] dq(1) n k(2,3,4)]) (auto simp: frame_def)
        next
          case u: (undone s3)
          show ?thesis
            using u(1-3) s2 by (intro undone [OF i [unfolded e1] dq(1) n k(2,3) u(1,2) _ _ _ u(4)]) (auto simp: frame_def)
        qed
      qed
    qed
  qed
qed

text \<open>Replacing a table by one that is consistent and has no slot less in use.\<close>

lemma life_inv_upd_table:
  assumes inv: "life_inv s" and d: "doms s d = Some dq" and ok: "domain_ok (owner s) d dq'"
    and keep: "\<And>i. i < 64 \<Longrightarrow> slots dq ! i \<noteq> UNUSED_QUEUE \<Longrightarrow> slots dq' ! i \<noteq> UNUSED_QUEUE" "have_dspsignal dq' = have_dspsignal dq"
    and s': "doms s' = (doms s)(d \<mapsto> dq')" "objs s' = objs s" "next_obj s' = next_obj s"
  shows "life_inv s'"
proof (rule life_invI)
  have o: "owner s' = owner s" by (simp add: owner_def s' fun_eq_iff)
  fix d' dq1 assume "doms s' d' = Some dq1"
  then show "domain_ok (owner s') d' dq1" using ok life_invD(1) [OF inv] by (cases "d' = d") (auto simp: o s')
next
  fix a q assume "objs s' a = Some q"
  then have "obj_ok (doms s) (next_obj s) a q" using life_invD(2) [OF inv] by (simp add: s')
  then show "obj_ok (doms s') (next_obj s') a q" using d keep by (auto simp: obj_ok_def s')
next
  fix a b d i assume "owner s' a d i" "owner s' b d i"
  then show "a = b" using life_invD(3) [OF inv, of a d i b] by (simp add: owner_def s')
qed

lemma domain_okD: "domain_ok own d dq \<Longrightarrow> slots_ok dq" "slots_ok dq \<Longrightarrow> length (slots dq) = 64"
  by (simp_all add: domain_ok_def slots_ok_def)

text \<open>Putting back a slot that had been claimed, the other direction of \<open>claimed\<close>.\<close>

lemma unclaimed:
  assumes "slots dq ! i = UNUSED_QUEUE"
  shows "(claimed i dq)\<lparr>slots := (slots (claimed i dq))[i := UNUSED_QUEUE], num_queues := num_queues (claimed i dq) - 1\<rparr>
     = dq\<lparr>max_queue := max (max_queue dq) i\<rparr>"
  using assms list_update_id [of "slots dq" i] by (simp add: claimed_def)

lemma enter_inv:
  assumes inv: "life_inv s" and d: "doms s d = Some dq" "num_queues dq < 64" "i < 64" "slots dq ! i = UNUSED_QUEUE"
    and q: "made_for d i (have_dspsignal dq) q"
    and s': "doms s' = (doms s)(d \<mapsto> (claimed i dq)\<lparr>slots := (slots dq)[i := Queue (next_obj s)]\<rparr>)"
      "objs s' = (objs s)(next_obj s \<mapsto> q)" "next_obj s' = Suc (next_obj s)"
  shows "life_inv s'"
proof -
  let ?a = "next_obj s"
  have ok: "domain_ok (owner s) d dq" by (rule life_invD(1) [OF inv d(1)])
  note so = domain_okD(1) [OF ok] note l = domain_okD(2) [OF so]
  have fresh: "objs s b = Some x \<Longrightarrow> b < ?a" for b x using life_invD(2) [OF inv, of b x] by (simp add: obj_ok_def)
  have qi: "obj_slot q = i" "obj_domain q = d" using q d(3) by (simp_all add: made_for_def unat_of_nat_small)
  have o: "owner s' b d' j \<longleftrightarrow> owner s b d' j \<or> (b = ?a \<and> d' = d \<and> j = i)" for b d' j
    using fresh qi by (auto simp: owner_def s')
  have none: "\<not> owner s b d i" for b
  proof
    assume "owner s b d i"
    then obtain x where "objs s b = Some x" "obj_domain x = d" "obj_slot x = i" by (auto simp: owner_def)
    with life_invD(2) [OF inv, of b x] d show False by (auto simp: obj_ok_def)
  qed
  have own_old: "owner s b d' j \<Longrightarrow> b < ?a" for b d' j using fresh by (auto simp: owner_def)
  show ?thesis
  proof (rule life_invI)
    fix d' dq' assume d': "doms s' d' = Some dq'"
    show "domain_ok (owner s') d' dq'"
    proof (cases "d' = d")
      case False
      with d' have "domain_ok (owner s) d' dq'" using life_invD(1) [OF inv] by (simp add: s')
      then show ?thesis unfolding domain_ok_def o by blast
    next
      case True
      with d' have dq': "slots dq' = (slots dq)[i := Queue ?a]" "max_queue dq' = max (max_queue dq) i" "num_queues dq' = num_queues dq + 1"
        by (auto simp: s' claimed_def)
      have "unat (num_queues dq + 1) = Suc (unat (num_queues dq))"
        using d(2) unat_plus [of "num_queues dq" 1] by (simp add: word_less_nat_alt)
      then have "slots_ok dq'"
        using so d(3,4) l taken_upd [of i "slots dq" "Queue ?a"]
        by (auto simp: slots_ok_def dq' nth_list_update less_max_iff_disj le_max_iff_disj)
      moreover have "\<exists>b. owner s' b d j \<and> (slots dq' ! j = Queue b \<or> slots dq' ! j = INVALID_QUEUE)"
        if "j < 64" "slots dq' ! j \<noteq> UNUSED_QUEUE" for j
      proof (cases "j = i")
        case False
        with that ok show ?thesis by (auto simp: domain_ok_def dq' o)
      qed (use l d(3) in \<open>auto simp: dq' o\<close>)
      ultimately show ?thesis by (simp add: domain_ok_def True)
    qed
  next
    fix b x assume b: "objs s' b = Some x"
    show "obj_ok (doms s') (next_obj s') b x"
    proof (cases "b = ?a")
      case True
      with b have "x = q" by (simp add: s')
      moreover have "unat (word_of_nat i :: u32) = i" using d(3) by (simp add: unat_of_nat_small)
      ultimately show ?thesis using True q l d(3) by (auto simp: obj_ok_def s' claimed_def made_for_def)
    next
      case False
      with b have "obj_ok (doms s) ?a b x" using life_invD(2) [OF inv] by (simp add: s')
      then show ?thesis using d(1,3) l by (auto simp: obj_ok_def s' claimed_def nth_list_update)
    qed
  next
    fix b c d' j assume "owner s' b d' j" "owner s' c d' j"
    then show "b = c" unfolding o using none life_invD(3) [OF inv] by blast
  qed
qed

lemma create_inv:
  assumes c: "dspqueue_create env domain flags rq rs pcb ecb out s = Some (e, qo, s')" and inv: "life_inv s"
  shows "life_inv s'"
  using c inv
proof (cases rule: create_cases)
  case refused
  show ?thesis by (rule life_inv_tables_imp [OF same_queues_tables [OF refused(3)] inv])
next
  case (made s1 dq i q s2)
  have inv1: "life_inv s1" by (rule init_inv [OF made(1) life_inv_tables_imp [OF once_tables inv]])
  note p = publish_simps [OF made(14)]
  show ?thesis
  proof (rule enter_inv [OF inv1 made(2,3,4,5,9)])
    show "doms s' = (doms s1)(resolved domain s \<mapsto> (claimed i dq)\<lparr>slots := (slots dq)[i := Queue (next_obj s1)]\<rparr>)"
      using p made(13) by (simp add: claimed_def)
    show "objs s' = (objs s1)(next_obj s1 \<mapsto> q)" using p made(10) by simp
    show "next_obj s' = Suc (next_obj s1)" using p by simp
  qed
next
  case (undone s1 dq i s2)
  have inv1: "life_inv s1" by (rule init_inv [OF undone(1) life_inv_tables_imp [OF once_tables inv]])
  let ?d = "resolved domain s" and ?dq = "dq\<lparr>max_queue := max (max_queue dq) i\<rparr>"
  have u: "(claimed i dq)\<lparr>slots := (slots (claimed i dq))[i := UNUSED_QUEUE], num_queues := num_queues (claimed i dq) - 1\<rparr> = ?dq"
    using undone(5) by (rule unclaimed)
  have ok: "domain_ok (owner s1) ?d dq" by (rule life_invD(1) [OF inv1 undone(2)])
  have inv3: "life_inv (s2\<lparr>doms := (doms s2)(?d \<mapsto> ?dq)\<rparr>)"
    using ok undone
    by (intro life_inv_upd_table [OF inv1 undone(2), of ?dq])
      (auto simp: domain_ok_def slots_ok_def less_max_iff_disj le_max_iff_disj)
  have "doms s2 ?d = Some (claimed i dq)" using undone(10) by simp
  then show ?thesis
  proof (rule put_back_cases [OF undone(11) _ undone(4)], unfold u)
    fix e1 assume "destroy_domain_queues_locked env ?d (s2\<lparr>doms := (doms s2)(?d \<mapsto> ?dq)\<rparr>) = Some (e1, s')"
    then show ?thesis using inv3 by (rule destroy_inv)
  next
    assume "s' = s2\<lparr>doms := (doms s2)(?d \<mapsto> ?dq)\<rparr>"
    then show ?thesis using inv3 by simp
  qed
qed

section \<open>Closing a queue\<close>

lemma queue_atD:
  assumes "queue_at a s = Some (q, d, dq)"
  shows "objs s a = Some q" "d = obj_domain q" "doms s d = Some dq"
  using assms by (auto simp: queue_at_def split: option.splits)

lemma last_taken_less: "0 < n \<Longrightarrow> last_taken xs n < n"
  by (induction n) (auto split: if_splits simp: less_Suc_eq)

lemma last_taken_above: "i < n \<Longrightarrow> xs ! i \<noteq> UNUSED_QUEUE \<Longrightarrow> i \<le> last_taken xs n"
  by (induction n) (auto simp: less_Suc_eq)

lemma obj_in_table:
  assumes inv: "life_inv s" and q: "queue_at a s = Some (q, d, dq)"
  shows "slots_ok dq" "length (slots dq) = 64" "obj_slot q < 64" "slots dq ! obj_slot q \<noteq> UNUSED_QUEUE" "owner s a d (obj_slot q)"
  using life_invD(1) [OF inv queue_atD(3) [OF q]] life_invD(2) [OF inv queue_atD(1) [OF q]] queue_atD [OF q]
  by (auto simp: domain_ok_def slots_ok_def obj_ok_def owner_def)

lemma check_imported_inv:
  assumes c: "check_imported env a n s = Some (e, n', s')" and inv: "life_inv s"
  shows "life_inv s'"
proof -
  from c obtain q d dq where q: "queue_at a s = Some (q, d, dq)" by (auto simp: check_imported_def split: option.splits)
  note T = obj_in_table [OF inv q] and D = queue_atD [OF q]
  let ?dq = "dq\<lparr>slots := (slots dq)[obj_slot q := INVALID_QUEUE]\<rparr>"
  have "s' = s \<or> s' = upd_dq d (\<lambda>dq. dq\<lparr>slots := (slots dq)[obj_slot q := INVALID_QUEUE]\<rparr>) s"
    using c q by (auto simp: check_imported_def Let_def split: if_splits)
  moreover have "upd_dq d (\<lambda>dq. dq\<lparr>slots := (slots dq)[obj_slot q := INVALID_QUEUE]\<rparr>) s = s\<lparr>doms := (doms s)(d \<mapsto> ?dq)\<rparr>"
    using D by (simp add: upd_dq_def)
  moreover have "life_inv (s\<lparr>doms := (doms s)(d \<mapsto> ?dq)\<rparr>)"
  proof (rule life_inv_upd_table [OF inv D(3), of ?dq])
    have "slots_ok ?dq"
      using T(1-4) taken_upd [of "obj_slot q" "slots dq" INVALID_QUEUE] by (auto simp: slots_ok_def nth_list_update)
    then show "domain_ok (owner s) d ?dq"
      using T life_invD(1) [OF inv D(3)] by (auto simp: domain_ok_def nth_list_update)
  qed (use T in \<open>auto simp: nth_list_update\<close>)
  ultimately show ?thesis using inv by auto
qed

lemma leave_inv:
  assumes inv: "life_inv s" and q: "queue_at a s = Some (q, d, dq)"
  shows "life_inv (s\<lparr>doms := (doms s)(d \<mapsto>
    dq\<lparr>slots := (slots dq)[obj_slot q := UNUSED_QUEUE],
       max_queue := last_taken ((slots dq)[obj_slot q := UNUSED_QUEUE]) 64, num_queues := num_queues dq - 1\<rparr>), objs := (objs s)(a := None)\<rparr>)"
    (is "life_inv ?s")
proof (rule life_invI)
  note T = obj_in_table [OF inv q] and D = queue_atD [OF q]
  have own: "owner ?s b d' i \<longleftrightarrow> owner s b d' i \<and> b \<noteq> a" for b d' i by (auto simp: owner_def)
  have only: "owner s b d (obj_slot q) \<Longrightarrow> b = a" for b using life_invD(3) [OF inv _ T(5)] by blast
  have a_only: "owner s a d' i \<Longrightarrow> d' = d \<and> i = obj_slot q" for d' i using D by (auto simp: owner_def)
  have n: "num_queues dq \<noteq> 0"
    using T by (auto simp: slots_ok_def taken_0 eq_commute [of 0])
  fix d' dq' assume d': "doms ?s d' = Some dq'"
  show "domain_ok (owner ?s) d' dq'"
  proof (cases "d' = d")
    case False
    with d' have "domain_ok (owner s) d' dq'" using life_invD(1) [OF inv] by simp
    then show ?thesis using False a_only unfolding domain_ok_def own by blast
  next
    case True
    let ?xs = "(slots dq)[obj_slot q := UNUSED_QUEUE]"
    from True d' have dq': "slots dq' = ?xs" "max_queue dq' = last_taken ?xs 64" "num_queues dq' = num_queues dq - 1" by auto
    have "unat (num_queues dq - 1) + 1 = unat (num_queues dq)"
      using n unat_gt_0 [of "num_queues dq"] by (simp add: unat_minus_one)
    then have "slots_ok dq'"
      using T taken_upd [of "obj_slot q" "slots dq" UNUSED_QUEUE] last_taken_less [of 64 ?xs] last_taken_above [of _ 64 ?xs]
      by (auto simp: slots_ok_def dq')
    moreover have "\<exists>b. owner ?s b d' i \<and> (slots dq' ! i = Queue b \<or> slots dq' ! i = INVALID_QUEUE)"
      if "i < 64" "slots dq' ! i \<noteq> UNUSED_QUEUE" for i
    proof -
      have i: "i \<noteq> obj_slot q" using that T(2,3) by (auto simp: dq')
      with that obtain b where "owner s b d i" "slots dq ! i = Queue b \<or> slots dq ! i = INVALID_QUEUE"
        using life_invD(1) [OF inv D(3)] by (auto simp: domain_ok_def dq')
      moreover from this(1) i a_only have "b \<noteq> a" by blast
      ultimately show ?thesis using i True by (auto simp: own dq')
    qed
    ultimately show ?thesis by (simp add: domain_ok_def)
  qed
next
  note T = obj_in_table [OF inv q] and D = queue_atD [OF q]
  fix b x assume "objs ?s b = Some x"
  then have b: "b \<noteq> a" "objs s b = Some x" by (auto split: if_splits)
  have "\<not> (obj_domain x = d \<and> obj_slot x = obj_slot q)"
    using life_invD(3) [OF inv T(5), of b] b by (auto simp: owner_def)
  with life_invD(2) [OF inv b(2)] D(3) T(2) show "obj_ok (doms ?s) (next_obj ?s) b x"
    by (auto simp: obj_ok_def nth_list_update)
next
  fix b c d' i assume "owner ?s b d' i" "owner ?s c d' i"
  then have "owner s b d' i" "owner s c d' i" by (auto simp: owner_def split: if_splits)
  then show "b = c" by (rule life_invD(3) [OF inv])
qed

lemma close_steps_tables:
  "join_error_thread env a n s = Some (e, n', s') \<Longrightarrow> tables s' = tables s"
  "cancel_waits a n s = Some (e, n', s') \<Longrightarrow> tables s' = tables s"
  "join_callback env a n s = Some (e, n', s') \<Longrightarrow> tables s' = tables s"
  "destroy_on_dsp env a n s = Some (e, n', s') \<Longrightarrow> tables s' = tables s"
  "free_memory env a n s = Some (e, n', s') \<Longrightarrow> tables s' = tables s"
  "destroy_signals a n s = Some (e, n', s') \<Longrightarrow> tables s' = tables s"
  subgoal by (auto simp: join_error_thread_def Let_def tables_simps obj_key_def split: option.splits if_splits)
  subgoal by (auto simp: cancel_waits_def tables_simps obj_key_def cancel_masks_def split: option.splits if_splits)
  subgoal by (auto simp: join_callback_def split: option.splits if_splits prod.splits)
  subgoal by (auto simp: destroy_on_dsp_def Let_def split: option.splits if_splits prod.splits
        dest!: mem_calls_rest(4) rest_eq intro: rest_eq [OF snd_munmap_rest, THEN conjunct2, THEN conjunct2, THEN conjunct2, THEN conjunct2])
  subgoal by (auto simp: free_memory_def split: option.splits dest!: mem_calls_rest(2) rest_eq)
  subgoal by (auto simp: destroy_signals_def split: option.splits if_splits)
  done

lemma leave_table_inv:
  assumes l: "leave_table env a n s = Some (e, n', s')" and inv: "life_inv s"
  shows "life_inv s'"
proof -
  from l obtain q d dq where q: "queue_at a s = Some (q, d, dq)" by (auto simp: leave_table_def split: option.splits)
  note D = queue_atD [OF q]
  let ?dq = "dq\<lparr>slots := (slots dq)[obj_slot q := UNUSED_QUEUE],
       max_queue := last_taken ((slots dq)[obj_slot q := UNUSED_QUEUE]) 64, num_queues := num_queues dq - 1\<rparr>"
  let ?s1 = "s\<lparr>doms := (doms s)(d \<mapsto> ?dq)\<rparr>" and ?s2 = "s\<lparr>doms := (doms s)(d \<mapsto> ?dq), objs := (objs s)(a := None)\<rparr>"
  have u: "upd_dq d (\<lambda>dq. dq\<lparr>slots := (slots dq0)[obj_slot q := UNUSED_QUEUE],
      max_queue := last_taken ((slots dq0)[obj_slot q := UNUSED_QUEUE]) 64, num_queues := num_queues dq - 1\<rparr>) s = ?s1" if "dq0 = dq" for dq0
    using D that by (simp add: upd_dq_def)
  have inv2: "life_inv ?s2" by (rule leave_inv [OF inv q])
  show ?thesis
  proof (cases "num_queues dq - 1 = 0")
    case False
    with l q u [OF refl] have "s' = ?s2" by (auto simp: leave_table_def Let_def)
    then show ?thesis using inv2 by simp
  next
    case True
    with l q u [OF refl] obtain e1 s3 where d: "destroy_domain_queues_locked env d ?s1 = Some (e1, s3)"
      and s': "objs s' = (objs s3)(a := None)" "doms s' = doms s3" "next_obj s' = next_obj s3" "q_count s' = q_count s3"
      by (auto simp: leave_table_def Let_def split: option.splits)
    from s' destroy_cases(2) [OF d] have "only_domain d s' ?s2" by (auto simp: only_domain_def)
    moreover have "num_queues ?dq = 0" using True by simp
    ultimately show ?thesis by (intro only_domain_inv [of ?s2 d ?dq, OF _ _ _ inv2]) simp
  qed
qed

lemma close1_inv:
  assumes c: "dspqueue_close1 env a s = Some (e, s')" and inv: "life_inv s"
  shows "life_inv s'"
proof (cases "s' = s")
  case False
  with c obtain e1 n where r: "run_steps [check_imported env a, join_error_thread env a, cancel_waits a, join_callback env a,
      destroy_on_dsp env a, free_memory env a, destroy_signals a, leave_table env a] 0 s = Some (e1, n, s')"
    by (auto simp: dspqueue_close1_def split: option.splits if_splits)
  show ?thesis
    by (rule run_steps_inv [OF r, where P = "\<lambda>_. life_inv", OF inv])
      (auto dest: check_imported_inv leave_table_inv close_steps_tables [THEN life_inv_tables_imp])
qed (use inv in simp)

section \<open>Reachable states\<close>

lemma report_slots_tables: "report_slots alloc thread is xs s = Some s' \<Longrightarrow> tables s' = tables s"
proof (induction "is" arbitrary: s)
  case (Cons i "is")
  have k: "obj_key (report_error (alloc i) (thread i) q) = obj_key q" for q
    by (simp add: report_error_def obj_key_def cancel_masks_def Let_def)
  from Cons show ?case
    by (auto split: slot.splits option.splits if_splits simp: tables_simps k)
qed simp

lemma error_callback_tables: "error_callback alloc thread d e s = Some s' \<Longrightarrow> tables s' = tables s"
  by (auto simp: error_callback_def tables_simps table_of_def Let_def split: option.splits if_splits dest!: report_slots_tables)

lemma notif_tables: "dspqueue_notif_callback alloc thread d ses st s = Some (e, s') \<Longrightarrow> tables s' = tables s"
  by (auto simp: dspqueue_notif_callback_def Let_def split: if_splits dest: error_callback_tables)

lemma take_all_counts_tables: "take_all_counts packets space is xs s = Some s' \<Longrightarrow> tables s' = tables s"
proof (induction "is" arbitrary: s)
  case (Cons i "is")
  have k: "obj_key (q\<lparr>core := take_counts (packets i) (space i) (core q)\<rparr>) = obj_key q" for q
    by (simp add: take_counts_def obj_key_def Let_def)
  from Cons show ?case
    by (auto split: slot.splits option.splits if_splits simp: tables_simps k)
qed simp

definition after_turn :: "turn \<Rightarrow> life" where
  "after_turn t = (case t of Go_on s \<Rightarrow> s | Exit_thread _ s \<Rightarrow> s)"

lemma send_turn_tables: "send_signal_turn alloc thread res d s = Some t \<Longrightarrow> tables (after_turn t) = tables s"
  by (auto simp: send_signal_turn_def after_turn_def tables_simps Let_def split: if_splits dest!: error_callback_tables)

lemma receive_turn_tables: "receive_signal_turn alloc thread res packets space d s = Some t \<Longrightarrow> tables (after_turn t) = tables s"
  by (auto simp: receive_signal_turn_def after_turn_def split: option.splits prod.splits if_splits
      dest!: error_callback_tables take_all_counts_tables)

text \<open>What can happen to the queues of a process. The last step stands for every packet operation, and for what the DSP
  and the rest of the process do: they change the contents of a queue and the shared world, not the queue's identity.\<close>

inductive life_step :: "life \<Rightarrow> life \<Rightarrow> bool" where
  create: "dspqueue_create env domain flags rq rs pcb ecb out s = Some (e, qo, s') \<Longrightarrow> life_step s s'"
| close: "dspqueue_close1 env a s = Some (e, s') \<Longrightarrow> life_step s s'"
| notif: "dspqueue_notif_callback alloc thread domain ses st s = Some (e, s') \<Longrightarrow> life_step s s'"
| sender: "send_signal_turn alloc thread res domain s = Some t \<Longrightarrow> life_step s (after_turn t)"
| receiver: "receive_signal_turn alloc thread res2 packets space domain s = Some t \<Longrightarrow> life_step s (after_turn t)"
| packets: "objs s a = Some q \<Longrightarrow> obj_key (q\<lparr>core := c\<rparr>) = obj_key q \<Longrightarrow>
    life_step s (s\<lparr>objs := (objs s)(a \<mapsto> q\<lparr>core := c\<rparr>), lw := w\<rparr>)"

inductive life_reachable :: "life \<Rightarrow> life \<Rightarrow> bool" for s0 where
  start: "life_reachable s0 s0"
| more: "life_reachable s0 s \<Longrightarrow> life_step s s' \<Longrightarrow> life_reachable s0 s'"

lemma life_step_inv: "life_step s s' \<Longrightarrow> life_inv s \<Longrightarrow> life_inv s'"
proof (induction rule: life_step.induct)
  case (packets s a q c w)
  have "tables (s\<lparr>objs := (objs s)(a \<mapsto> q\<lparr>core := c\<rparr>), lw := w\<rparr>) = tables s"
    using packets(1,2) by (auto simp: tables_def fun_eq_iff)
  then show ?case using packets(3) by (rule life_inv_tables_imp)
qed (auto dest: create_inv close1_inv notif_tables send_turn_tables receive_turn_tables intro: life_inv_tables_imp)

definition no_queues :: "life \<Rightarrow> bool" where
  "no_queues s \<longleftrightarrow> (\<forall>d. doms s d = None) \<and> (\<forall>a. objs s a = None)"

lemma reachable_inv: "life_reachable s0 s \<Longrightarrow> no_queues s0 \<Longrightarrow> life_inv s"
proof (induction rule: life_reachable.induct)
  case start
  then show ?case by (simp add: no_queues_def life_inv_def owner_def)
next
  case (more s s')
  then show ?case by (blast intro: life_step_inv)
qed

text \<open>C4: From a process without queues, whatever is created, closed (also with errors), signalled or reported: the number of
  queues of a domain is the number of taken slots of its table, \<^verbatim>\<open>max_queue\<close> covers them all, every taken slot belongs to
  exactly one queue object of that domain and that number, and every queue object has a taken slot. The search for a free
  slot after the test of the limit therefore always succeeds, with the lowest free slot: the "Queue list corrupt" branch
  of \<^verbatim>\<open>dspqueue_create\<close> cannot be reached.\<close>

theorem queue_table_consistent:
  assumes "life_reachable s0 s" "no_queues s0"
  shows "(\<forall>d dq. doms s d = Some dq \<longrightarrow> unat (num_queues dq) = taken (slots dq) \<and> length (slots dq) = 64 \<and>
      (\<forall>i < 64. slots dq ! i \<noteq> UNUSED_QUEUE \<longrightarrow> i \<le> max_queue dq \<and>
         (\<exists>!a. owner s a d i) \<and> (\<forall>a. slots dq ! i = Queue a \<longrightarrow> owner s a d i)) \<and>
      (num_queues dq < 64 \<longrightarrow> (\<exists>i dq'. claim_slot dq = Some (i, dq') \<and> slots dq ! i = UNUSED_QUEUE \<and>
         (\<forall>j < i. slots dq ! j \<noteq> UNUSED_QUEUE)))) \<and>
    (\<forall>a q. objs s a = Some q \<longrightarrow> (\<exists>dq. doms s (q_domain (core q)) = Some dq \<and>
        slots dq ! unat (q_id (core q)) \<noteq> UNUSED_QUEUE \<and> (have_driver_signaling (core q) \<longrightarrow> have_dspsignal dq)))"
proof (intro conjI allI impI)
  have inv: "life_inv s" using assms by (rule reachable_inv)
  fix d dq assume d: "doms s d = Some dq"
  have ok: "domain_ok (owner s) d dq" by (rule life_invD(1) [OF inv d])
  note so = domain_okD(1) [OF ok]
  then show "unat (num_queues dq) = taken (slots dq)" "length (slots dq) = 64" by (simp_all add: slots_ok_def)
  {
    fix i :: nat assume i: "i < 64" "slots dq ! i \<noteq> UNUSED_QUEUE"
    with so show "i \<le> max_queue dq" by (simp add: slots_ok_def)
    from ok i obtain a where a: "owner s a d i" "slots dq ! i = Queue a \<or> slots dq ! i = INVALID_QUEUE" by (auto simp: domain_ok_def)
    then show "\<exists>!a. owner s a d i" using life_invD(3) [OF inv] by blast
    show "slots dq ! i = Queue b \<Longrightarrow> owner s b d i" for b using a by auto
  }
  show "num_queues dq < 64 \<Longrightarrow> \<exists>i dq'. claim_slot dq = Some (i, dq') \<and> slots dq ! i = UNUSED_QUEUE \<and> (\<forall>j < i. slots dq ! j \<noteq> UNUSED_QUEUE)"
    by (metis claim_slot_free [OF so])
next
  fix a q assume "objs s a = Some q"
  then show "\<exists>dq. doms s (q_domain (core q)) = Some dq \<and>
        slots dq ! unat (q_id (core q)) \<noteq> UNUSED_QUEUE \<and> (have_driver_signaling (core q) \<longrightarrow> have_dspsignal dq)"
    using life_invD(2) [OF reachable_inv [OF assms]] by (auto simp: obj_ok_def)
qed

text \<open>An environment in which everything succeeds, with a DSP that keeps wait counts, and a process without queues.\<close>

definition demo_lenv :: lenv where
  "demo_lenv = \<lparr>e_once = 0, e_mem = demo_env,
     e_rpc = (\<lambda>n. \<lparr>r_calloc = True, r_ioctl = (\<lambda>h z. (0, 20 + int n)), r_mmap = 0x10000 * word_of_nat (n + 1)\<rparr>),
     e_calloc = (\<lambda>_. True), e_uri = 0, e_open = (0, 99), e_notif = 0, e_init_state = 0, e_cap = (\<lambda>_. (0, 0)),
     e_pinit = (\<lambda>_. 0), e_thread = (\<lambda>_. 0), e_cancel_wait = 0, e_join = (\<lambda>_. (0, 0)), e_rpc_close = 0,
     e_sig_alloc = (True, True), e_create = (\<lambda>n. if n = 0 then (AEE_EUNSUPPORTED, 0) else (0, 77)),
     e_imported = (0, False), e_destroy = 0\<rparr>"

definition demo_life :: life where
  "demo_life = \<lparr>doms = (\<lambda>_. None), q_count = 0, queues_once = False, notif_registered = (\<lambda>_. False), objs = (\<lambda>_. None),
     next_obj = 0, lw = demo_w\<lparr>w_mem := demo_st\<rparr>, lrpc = \<lparr>dmafd = 4, rpcfd = -1, rpclst = [], klog = []\<rparr>\<rparr>"

lemma demo_create_ok:
  "case dspqueue_create demo_lenv 3 0 64 64 False True True demo_life of
     Some (e, qo, s) \<Rightarrow> e = 0 \<and> qo = Some 0 \<and> map_option (take 2 \<circ> slots) (doms s 3) = Some [Queue 0, UNUSED_QUEUE] \<and>
       q_count s = 2 \<and> map s_fd (smaplst (w_mem (lw s)) 3) = [20, 21]
   | None \<Rightarrow> False"
  by code_simp

lemma demo_create:
  obtains s dq where "dspqueue_create demo_lenv 3 0 64 64 False True True demo_life = Some (0, Some 0, s)" "doms s 3 = Some dq"
    "take 2 (slots dq) = [Queue 0, UNUSED_QUEUE]" "life_reachable demo_life s" "no_queues demo_life"
proof -
  from demo_create_ok obtain s where s: "dspqueue_create demo_lenv 3 0 64 64 False True True demo_life = Some (0, Some 0, s)"
    "map_option (take 2 \<circ> slots) (doms s 3) = Some [Queue 0, UNUSED_QUEUE]"
    by (cases "dspqueue_create demo_lenv 3 0 64 64 False True True demo_life") auto
  then show ?thesis
    by (intro that [of s "the (doms s 3)"]) (auto simp: no_queues_def demo_life_def intro: life_reachable.intros life_step.intros)
qed

theorem queue_table_consistent_witness:
  "\<exists>s dq. dspqueue_create demo_lenv 3 0 64 64 False True True demo_life = Some (0, Some 0, s) \<and> doms s 3 = Some dq \<and>
     unat (num_queues dq) = taken (slots dq) \<and> take 2 (slots dq) = [Queue 0, UNUSED_QUEUE]"
proof (rule demo_create)
  fix s dq
  assume s: "dspqueue_create demo_lenv 3 0 64 64 False True True demo_life = Some (0, Some 0, s)" "doms s 3 = Some dq"
    "take 2 (slots dq) = [Queue 0, UNUSED_QUEUE]" "life_reachable demo_life s" "no_queues demo_life"
  from queue_table_consistent [OF s(4,5)] s(2) have "unat (num_queues dq) = taken (slots dq)" by blast
  with s show ?thesis by blast
qed

section \<open>What creating a queue establishes\<close>

lemma init_other:
  assumes i: "init_domain_queues_locked env domain s = Some (0, s1)"
  shows "objs s1 = objs s" "next_obj s1 = next_obj s" "d \<noteq> domain \<Longrightarrow> doms s1 d = doms s d"
    "doms s domain = Some dq \<Longrightarrow> doms s1 domain = Some dq"
    "doms s domain = None \<Longrightarrow> \<exists>dq. doms s1 domain = Some dq \<and> fresh_dq dq"
  using init_cases(3,4) [OF i] by (cases "doms s domain"; auto simp: frame_def)+

lemma taken_pos: "i < length xs \<Longrightarrow> xs ! i \<noteq> UNUSED_QUEUE \<Longrightarrow> 0 < taken xs"
  using taken_0 [of xs] by auto

end
