(* ===== verification/LifeSpec.thy ===== *)
theory LifeSpec
  imports LifeProps
begin

text \<open>
  What the operations of the queues' life cycle do: creating a queue and its shared memory, errors and cancelled waits,
  closing, and queues on several domains. The proofs rest on the invariant of \<open>LifeProps\<close>.
\<close>

section \<open>Creating a queue\<close>

text \<open>C18: What \<^verbatim>\<open>dspqueue_create\<close> returns and leaves, in every reachable state and whatever the environment answers. On success
  there is a new queue object with the lowest free number of its domain, entered in the domain's table, whose count of
  queues is one more; the arguments were within the limits, and the object starts with empty rings of the requested sizes
  (the defaults for 0), all counters zero, and a queue count that is the value of the process-wide counter. On an error no
  object is made, and a domain that had queues keeps exactly these: the same count and the same slots. The tables of all
  other domains are untouched in both cases.\<close>

theorem create_spec:
  assumes "dspqueue_create env domain flags req_size resp_size pcb ecb out s = Some (e, qo, s')"
    and "life_reachable s0 s" "no_queues s0" and d: "d = resolved domain s"
  shows "(\<forall>d'. d' \<noteq> d \<longrightarrow> doms s' d' = doms s d') \<and>
    (e = 0 \<longrightarrow> (\<exists>a q dq i. qo = Some a \<and> objs s a = None \<and> objs s' = (objs s)(a \<mapsto> q) \<and> doms s' d = Some dq \<and>
        i < 64 \<and> slots dq ! i = Queue a \<and> num_queues dq = (case doms s d of None \<Rightarrow> 1 | Some dq0 \<Rightarrow> num_queues dq0 + 1) \<and>
        (\<forall>dq0. doms s d = Some dq0 \<longrightarrow> slots dq0 ! i = UNUSED_QUEUE \<and> (\<forall>j < i. slots dq0 ! j \<noteq> UNUSED_QUEUE)) \<and>
        flags = 0 \<and> req_size \<le> 16777216 \<and> resp_size \<le> 16777216 \<and>
        (\<exists>n. plain q = fresh_core d i n (size_or 65536 req_size) (size_or 16384 resp_size)))) \<and>
    (e \<noteq> 0 \<longrightarrow> qo = None \<and> objs s' = objs s \<and> (\<forall>dq0. doms s d = Some dq0 \<longrightarrow> num_queues dq0 > 0 \<longrightarrow>
        (\<exists>dq. doms s' d = Some dq \<and> num_queues dq = num_queues dq0 \<and> slots dq = slots dq0)))"
proof -
  have inv: "life_inv s" by (rule reachable_inv [OF assms(2,3)])
  let ?A = "\<forall>d'. d' \<noteq> d \<longrightarrow> doms s' d' = doms s d'"
    and ?B = "e = 0 \<longrightarrow> (\<exists>a q dq i. qo = Some a \<and> objs s a = None \<and> objs s' = (objs s)(a \<mapsto> q) \<and> doms s' d = Some dq \<and>
        i < 64 \<and> slots dq ! i = Queue a \<and> num_queues dq = (case doms s d of None \<Rightarrow> 1 | Some dq0 \<Rightarrow> num_queues dq0 + 1) \<and>
        (\<forall>dq0. doms s d = Some dq0 \<longrightarrow> slots dq0 ! i = UNUSED_QUEUE \<and> (\<forall>j < i. slots dq0 ! j \<noteq> UNUSED_QUEUE)) \<and>
        flags = 0 \<and> req_size \<le> 16777216 \<and> resp_size \<le> 16777216 \<and>
        (\<exists>n. plain q = fresh_core d i n (size_or 65536 req_size) (size_or 16384 resp_size)))"
    and ?C = "e \<noteq> 0 \<longrightarrow> qo = None \<and> objs s' = objs s \<and> (\<forall>dq0. doms s d = Some dq0 \<longrightarrow> num_queues dq0 > 0 \<longrightarrow>
        (\<exists>dq. doms s' d = Some dq \<and> num_queues dq = num_queues dq0 \<and> slots dq = slots dq0))"
  have once: "doms (init_process_queues_once env s) = doms s" "objs (init_process_queues_once env s) = objs s"
    "next_obj (init_process_queues_once env s) = next_obj s"
    using once_same [of env s] by (simp_all add: same_queues_def)
  from assms(1) inv show "?A \<and> ?B \<and> ?C"
  proof (cases rule: create_cases)
    case refused
    then show ?thesis by (auto simp: same_queues_def)
  next
    case (made s1 dq i q s2)
    note I = init_other [OF made(1), unfolded once]
    note p = publish_simps [OF made(14)]
    have "objs s1 (next_obj s1) = None"
      using life_invD(2) [OF inv, of "next_obj s"] I(1,2) by (cases "objs s (next_obj s)") (auto simp: obj_ok_def)
    note n = this
    have l: "length (slots dq) = 64"
      by (rule domain_okD(2) [OF domain_okD(1) [OF life_invD(1) [OF init_inv [OF made(1) life_inv_tables_imp [OF once_tables inv]] made(2)]]])
    have dq0: "num_queues dq = (case doms s d of None \<Rightarrow> 0 | Some dq0 \<Rightarrow> num_queues dq0)" "\<And>dq0. doms s d = Some dq0 \<Longrightarrow> dq0 = dq"
      using I(4,5) made(2) by (cases "doms s d"; auto simp: d fresh_dq_def)+
    let ?dq = "(claimed i dq)\<lparr>slots := (slots dq)[i := Queue (next_obj s1)]\<rparr>"
    have D: "doms s' = (doms s1)(d \<mapsto> ?dq)" using p made(13) by (simp add: d claimed_def)
    have "?A" using D I(3) by (simp add: d)
    moreover have "?B"
      by (intro impI exI [of _ "next_obj s1"] exI [of _ q] exI [of _ ?dq] exI [of _ i] conjI allI)
        (use made(4-10) made(15-18) p D I(1) n l dq0 in \<open>auto simp: claimed_def d [symmetric] split: option.splits\<close>)
    ultimately show ?thesis using made(7) by blast
  next
    case (undone s1 dq i s2)
    note I = init_other [OF undone(1), unfolded once]
    let ?dq = "dq\<lparr>max_queue := max (max_queue dq) i\<rparr>" and ?s3 = "s2\<lparr>doms := (doms s2)(resolved domain s \<mapsto> dq\<lparr>max_queue := max (max_queue dq) i\<rparr>)\<rparr>"
    have "doms s2 (resolved domain s) = Some (claimed i dq)" using undone(10) by simp
    note D = this
    have P: "only_domain (resolved domain s) s' ?s3 \<and> (num_queues dq > 0 \<longrightarrow> s' = ?s3)"
    proof (rule put_back_cases [OF undone(11) D undone(4), unfolded unclaimed [OF undone(5)]])
      fix e1 assume "num_queues (claimed i dq) = 1" "destroy_domain_queues_locked env (resolved domain s) ?s3 = Some (e1, s')"
      then show ?thesis by (auto simp: claimed_def dest: destroy_cases(2))
    qed simp
    then show ?thesis
      using undone(2-10) I by (auto simp: d only_domain_def)
  qed
qed


theorem create_spec_witness:
  "\<exists>s q. dspqueue_create demo_lenv 3 0 64 64 False True True demo_life = Some (0, Some 0, s) \<and> objs s 0 = Some q \<and>
     qlen (req (core q)) = 64 \<and> (\<forall>d. d \<noteq> 3 \<longrightarrow> doms s d = None)"
proof (rule demo_create)
  fix s dq
  assume s: "dspqueue_create demo_lenv 3 0 64 64 False True True demo_life = Some (0, Some 0, s)" "no_queues demo_life"
  have r: "resolved 3 demo_life = 3" by (simp add: resolved_def)
  note S = create_spec [OF s(1) life_reachable.start s(2), of 3]
  from S r have o: "\<forall>d. d \<noteq> 3 \<longrightarrow> doms s d = doms demo_life d" by simp
  from S r obtain q i n where q: "objs s = (objs demo_life)(0 \<mapsto> q)" "plain q = fresh_core 3 i n (size_or 65536 64) (size_or 16384 64)" by auto
  have "req (core q) = req (plain q)" by (simp add: plain_def)
  with q o s show ?thesis by (intro exI [of _ s] exI [of _ q]) (auto simp: fresh_core_def zero_ring_def size_or_def demo_life_def)
qed

section \<open>The shared memory of a queue\<close>

lemma cache_align:
  assumes "x \<le> 16777216"
  shows "unat (CACHE_ALIGN_SIZE x) = (unat x + 255) div 256 * 256"
proof -
  have "unat x + 255 < 2 ^ 32" using assms by (simp add: word_le_nat_alt)
  then have "unat (x + 255) = unat x + 255" using unat_plus [of x 255] by simp
  then show ?thesis
    using unat_and_not_mask [of "x + 255" 8] by (simp add: CACHE_ALIGN_SIZE_def mask_eq_exp_minus_1)
qed

lemma cache_align_bounds:
  assumes "x \<le> 16777216"
  shows "unat x \<le> unat (CACHE_ALIGN_SIZE x)" "unat (CACHE_ALIGN_SIZE x) < unat x + 256" "256 dvd unat (CACHE_ALIGN_SIZE x)"
    "unat x \<le> 16777216"
  using assms unfolding cache_align [OF assms] by (auto simp: word_le_nat_alt)

text \<open>The layout of a queue's shared memory for all sizes the code accepts: the header, the two rings and the four state
  structures lie one after the other inside the block, none reaches into the next, each begins on a cache line of its own,
  no sum wraps around, and the offsets add up to the allocated size, so the assertion of \<^verbatim>\<open>dspqueue_create\<close> holds.\<close>

theorem queue_layout_ok:
  assumes "req_size \<le> 16777216" "resp_size \<le> 16777216" and l: "l = layout_of req_size resp_size"
  shows "layout_end l = total_size req_size resp_size \<and>
    SIZEOF_HEADER \<le> req_offset l \<and> unat (req_offset l) + unat req_size \<le> unat (req_read_state l) \<and>
    unat (req_read_state l) + 12 \<le> unat (req_write_state l) \<and> unat (req_write_state l) + 12 \<le> unat (resp_offset l) \<and>
    unat (resp_offset l) + unat resp_size \<le> unat (resp_read_state l) \<and>
    unat (resp_read_state l) + 12 \<le> unat (resp_write_state l) \<and>
    unat (resp_write_state l) + 12 \<le> unat (total_size req_size resp_size) \<and>
    (\<forall>x \<in> {req_offset l, req_read_state l, req_write_state l, resp_offset l, resp_read_state l, resp_write_state l}. 256 dvd unat x)"
proof -
  note A = cache_align_bounds [OF assms(1)] and B = cache_align_bounds [OF assms(2)]
  let ?a = "CACHE_ALIGN_SIZE req_size" and ?b = "CACHE_ALIGN_SIZE resp_size"
  have c: "CACHE_ALIGN_SIZE 48 = 256" "CACHE_ALIGN_SIZE 12 = 256" by (simp_all add: CACHE_ALIGN_SIZE_def)
  have u: "unat (256 + ?a) = 256 + unat ?a" "unat (256 + ?a + 256) = 512 + unat ?a" "unat (256 + ?a + 256 + 256) = 768 + unat ?a"
    using A unat_plus [of 256 ?a] unat_plus [of "256 + ?a" 256] unat_plus [of "256 + ?a + 256" 256] by simp_all
  have v: "unat (256 + ?a + 256 + 256 + ?b) = 768 + unat ?a + unat ?b"
    "unat (256 + ?a + 256 + 256 + ?b + 256) = 1024 + unat ?a + unat ?b"
    "unat (256 + ?a + 256 + 256 + ?b + 256 + 256) = 1280 + unat ?a + unat ?b"
    using A B u unat_plus [of "256 + ?a + 256 + 256" ?b] unat_plus [of "256 + ?a + 256 + 256 + ?b" 256]
      unat_plus [of "256 + ?a + 256 + 256 + ?b + 256" 256] by simp_all
  have t: "total_size req_size resp_size = 256 + ?a + 256 + 256 + ?b + 256 + 256" by (simp add: total_size_def c)
  have L: "req_offset l = 256" "req_read_state l = 256 + ?a" "req_write_state l = 256 + ?a + 256" "resp_offset l = 256 + ?a + 256 + 256"
    "resp_read_state l = 256 + ?a + 256 + 256 + ?b" "resp_write_state l = 256 + ?a + 256 + 256 + ?b + 256"
    "layout_end l = 256 + ?a + 256 + 256 + ?b + 256 + 256"
    by (simp_all only: l layout_of_def Let_def c queue_layout.simps)
  have d: "256 dvd unat ?a" "256 dvd unat ?b" by (fact A(3), fact B(3))
  show ?thesis unfolding L t ball_simps u v using A B d by (simp add: dvd_add_right_iff)
qed

theorem queue_layout_ok_witness:
  "layout_end (layout_of 100 200) = total_size 100 200 \<and> unat (req_offset (layout_of 100 200)) + 100 \<le> unat (req_read_state (layout_of 100 200))"
  using queue_layout_ok [of 100 200] by simp

lemma create_made:
  assumes "dspqueue_create env domain flags rq rs pcb ecb out s = Some (0, qo, s')" "life_inv s"
  shows "\<exists>a q i n. qo = Some a \<and> objs s' a = Some q \<and> plain q = fresh_core (resolved domain s) i n (size_or 65536 rq) (size_or 16384 rs) \<and>
    rq \<le> 16777216 \<and> rs \<le> 16777216"
  using assms
proof (cases rule: create_cases)
  case (made s1 dq i q s2)
  have "objs s' (next_obj s1) = Some q" using publish_simps [OF made(14)] by simp
  with made(8) made(15-18) show ?thesis by blast
qed simp_all

lemma zero_ring_holds: "8 dvd unat n \<Longrightarrow> n \<noteq> 0 \<Longrightarrow> n \<le> 16777216 \<Longrightarrow> ring_holds (zero_ring n) []"
  by (auto simp: ring_holds_def ring_ok_def geometry_def zero_ring_def word_le_nat_alt unat_gt_0 intro!: exI [of _ "[]"] holds.straight)

lemma zero_ring_odd: "\<not> 8 dvd unat n \<Longrightarrow> 16 \<le> n \<Longrightarrow> get_queue_state_write (zero_ring n) = None"
proof -
  assume n: "\<not> 8 dvd unat n" "16 \<le> n"
  then have "unat (n - 8) = unat n - 8" by (intro unat_minus [of 8 n, simplified]) (simp add: word_le_nat_alt)
  moreover have "\<not> 8 dvd unat n - 8" using n by (simp add: word_le_nat_alt dvd_minus_self)
  ultimately have "(n - 8) AND 7 \<noteq> 0" by (simp add: and_7_iff)
  then show ?thesis by (simp add: get_queue_state_write_def zero_ring_def Let_def)
qed

text \<open>A queue that \<^verbatim>\<open>dspqueue_create\<close> returns has well-formed empty rings, on which the specifications of writing and reading
  rest, provided the requested sizes are multiples of eight (0 stands for the defaults). The code does not check that:
  with any other size of at least 16 bytes the creation succeeds as well, and the first write, even of a packet
  without message and buffers, ends in a failed assertion.\<close>

theorem created_queue_rings:
  assumes c: "dspqueue_create env domain flags req_size resp_size pcb ecb out s = Some (0, Some a, s')"
    and "life_reachable s0 s" "no_queues s0"
  shows "\<exists>q. objs s' a = Some q \<and> (8 dvd unat req_size \<longrightarrow> ring_holds (req (core q)) []) \<and>
    (8 dvd unat resp_size \<longrightarrow> ring_holds (resp (core q)) []) \<and>
    (\<not> 8 dvd unat req_size \<and> 16 \<le> req_size \<longrightarrow> (\<forall>fl w. write_noblock1 fl 0 None 0 None (core q) w = Fault))"
proof -
  from create_made [OF c reachable_inv [OF assms(2,3)]] obtain q i n where q: "objs s' a = Some q"
    "plain q = fresh_core (resolved domain s) i n (size_or 65536 req_size) (size_or 16384 resp_size)"
    "req_size \<le> 16777216" "resp_size \<le> 16777216" by auto
  have p: "req (core q) = req (plain q)" "resp (core q) = resp (plain q)" "hdr_queue_count (core q) = hdr_queue_count (plain q)"
    "queue_count (core q) = queue_count (plain q)"
    by (simp_all add: plain_def)
  have r: "req (core q) = zero_ring (size_or 65536 req_size)" "resp (core q) = zero_ring (size_or 16384 resp_size)"
    "hdr_queue_count (core q) = n" "queue_count (core q) = n"
    unfolding p q(2) by (simp_all add: fresh_core_def)
  have "write_noblock1 fl 0 None 0 None (core q) w = Fault" if n: "\<not> 8 dvd unat req_size" "16 \<le> req_size" for fl w
  proof -
    have nz: "req_size \<noteq> 0" using n(1) by auto
    have "\<not> 8 > req_size - 8"
      using n(2) unat_minus [of 8 req_size] by (simp add: word_less_nat_alt word_le_nat_alt)
    moreover have "space_for (zero_ring req_size) 8 = None" using zero_ring_odd [OF n] by (simp add: space_for_def)
    moreover have "qlen (zero_ring req_size) = req_size" by (simp add: zero_ring_def)
    ultimately show ?thesis using nz
      by (simp add: write_noblock1_def r size_or_def packet_len_def Let_def not_less)
  qed
  moreover have "ring_holds (zero_ring (size_or 65536 req_size)) []" if "8 dvd unat req_size"
    using that q(3) by (intro zero_ring_holds) (auto simp: size_or_def)
  moreover have "ring_holds (zero_ring (size_or 16384 resp_size)) []" if "8 dvd unat resp_size"
    using that q(4) by (intro zero_ring_holds) (auto simp: size_or_def)
  ultimately show ?thesis using q(1) r by auto
qed

theorem created_queue_rings_witness:
  "\<exists>s q. dspqueue_create demo_lenv 3 0 64 64 False True True demo_life = Some (0, Some 0, s) \<and> objs s 0 = Some q \<and>
     ring_holds (req (core q)) [] \<and> ring_holds (resp (core q)) []"
proof (rule demo_create)
  fix s
  assume s: "dspqueue_create demo_lenv 3 0 64 64 False True True demo_life = Some (0, Some 0, s)" "no_queues demo_life"
  from created_queue_rings [OF s(1) life_reachable.start s(2)] s(1) show ?thesis by auto
qed

section \<open>Errors and cancellation\<close>

lemma cancel_bit: "(m OR 2) AND 2 \<noteq> (0 :: u32)"
proof -
  have "bit ((m OR 2) AND 2) 1" by (simp add: bit_simps)
  then show ?thesis by auto
qed

lemma report_slots_effect:
  assumes "report_slots alloc thread is xs s = Some s'" "distinct is"
    and "\<And>i j a. i \<in> set is \<Longrightarrow> j \<in> set is \<Longrightarrow> xs ! i = Queue a \<Longrightarrow> xs ! j = Queue a \<Longrightarrow> i = j"
  shows "doms s' = doms s \<and> (\<forall>i \<in> set is. \<forall>a. xs ! i = Queue a \<longrightarrow> objs s' a = map_option (report_error (alloc i) (thread i)) (objs s a)) \<and>
    (\<forall>a. (\<forall>i \<in> set is. xs ! i \<noteq> Queue a) \<longrightarrow> objs s' a = objs s a)"
  using assms
proof (induction "is" arbitrary: s)
  case (Cons i "is")
  show ?case
  proof (cases "\<exists>a. xs ! i = Queue a")
    case False
    with Cons.prems(1) have "report_slots alloc thread is xs s = Some s'" by (cases "xs ! i") auto
    with Cons.IH [OF this] Cons.prems(2,3) False show ?thesis by auto
  next
    case True
    then obtain a where a: "xs ! i = Queue a" by blast
    let ?s1 = "upd_obj a (report_error (alloc i) (thread i)) s"
    from Cons.prems(1) a have r: "report_slots alloc thread is xs ?s1 = Some s'" by (auto split: option.splits if_splits)
    from Cons.IH [OF r] Cons.prems(2,3) have IH: "doms s' = doms ?s1"
      "\<forall>j \<in> set is. \<forall>b. xs ! j = Queue b \<longrightarrow> objs s' b = map_option (report_error (alloc j) (thread j)) (objs ?s1 b)"
      "\<forall>b. (\<forall>j \<in> set is. xs ! j \<noteq> Queue b) \<longrightarrow> objs s' b = objs ?s1 b" by auto
    have other: "j \<in> set is \<Longrightarrow> xs ! j \<noteq> Queue a" for j using Cons.prems(3) [of i j a] Cons.prems(2) a by auto
    show ?thesis
    proof (intro conjI ballI allI impI)
      show "doms s' = doms s" using IH(1) by (simp add: upd_obj_def)
    next
      fix j b assume j: "j \<in> set (i # is)" "xs ! j = Queue b"
      show "objs s' b = map_option (report_error (alloc j) (thread j)) (objs s b)"
      proof (cases "j = i")
        case True
        with j a have "b = a" by simp
        with IH(3) other True show ?thesis by (simp add: upd_obj_def)
      next
        case False
        with j have "j \<in> set is" by simp
        moreover from this j(2) other have "b \<noteq> a" by auto
        ultimately show ?thesis using IH(2) j(2) by (simp add: upd_obj_def)
      qed
    next
      fix b assume b: "\<forall>j \<in> set (i # is). xs ! j \<noteq> Queue b"
      with a have "b \<noteq> a" by auto
      with b IH(3) show "objs s' b = objs s b" by (simp add: upd_obj_def)
    qed
  qed
qed simp

text \<open>An error of a domain (a failed call of one of its threads, or a notification of the DSP's restart or the remote
  process's end) is reported once: it is recorded in the domain's table, a lost connection always as
  \<^verbatim>\<open>AEE_ECONNRESET\<close>, and every queue in the table that uses the library's own signalling has its packet and space waits
  cancelled; queues of other domains and queues that are being closed are not touched. Every later report for the same
  domain changes nothing.\<close>

theorem error_callback_spec:
  assumes c: "error_callback alloc thread d err s = Some s'" and "life_reachable s0 s" "no_queues s0"
    and dq: "doms s d = Some dq" and e: "err \<noteq> 0"
  shows "(if dsp_error dq \<noteq> 0 then s' = s
     else (\<exists>dq'. doms s' = (doms s)(d \<mapsto> dq') \<and> dsp_error dq' = (if err = -1 \<or> err = -2147482611 then AEE_ECONNRESET else err) \<and>
             slots dq' = slots dq) \<and>
          (\<forall>a q. objs s a = Some q \<longrightarrow> (\<exists>q'. objs s' a = Some q' \<and>
             (if q_domain (core q) = d \<and> slots dq ! unat (q_id (core q)) = Queue a
              then \<not> have_driver_signaling (core q) \<longrightarrow> packet_mask (core q') AND 2 \<noteq> 0 \<and> space_mask (core q') AND 2 \<noteq> 0
              else q' = q)))) \<and>
    (\<forall>al th er. error_callback al th d er s' = Some s')"
proof (cases "dsp_error dq = 0")
  case False
  with c dq show ?thesis by (simp add: error_callback_def)
next
  case True
  have inv: "life_inv s" by (rule reachable_inv [OF assms(2,3)])
  have ok: "domain_ok (owner s) d dq" by (rule life_invD(1) [OF inv dq])
  note so = domain_okD(1) [OF ok]
  let ?err = "if err = -1 \<or> err = -2147482611 then AEE_ECONNRESET else err"
  let ?s1 = "upd_dq d (\<lambda>dq. dq\<lparr>dsp_error := ?err\<rparr>) s" and ?is = "[0..<Suc (max_queue dq)]"
  have r: "report_slots alloc thread ?is (slots dq) ?s1 = Some s'"
    using c dq True by (simp add: error_callback_def Let_def disj_commute del: upt_Suc)
  have own: "owner s a d i" if "slots dq ! i = Queue a" "i < 64" for a i
    using ok that by (force simp: domain_ok_def)
  have le: "i \<in> set ?is \<Longrightarrow> i < 64" for i using so by (auto simp: slots_ok_def)
  have uniq: "i = j" if "i \<in> set ?is" "j \<in> set ?is" "slots dq ! i = Queue a" "slots dq ! j = Queue a" for i j a
    using own [OF that(3) le [OF that(1)]] own [OF that(4) le [OF that(2)]] by (auto simp: owner_def)
  from report_slots_effect [OF r distinct_upt uniq] have E: "doms s' = doms ?s1"
    "\<forall>i \<in> set ?is. \<forall>a. slots dq ! i = Queue a \<longrightarrow> objs s' a = map_option (report_error (alloc i) (thread i)) (objs s a)"
    "\<forall>a. (\<forall>i \<in> set ?is. slots dq ! i \<noteq> Queue a) \<longrightarrow> objs s' a = objs s a"
    by (simp_all add: upd_dq_def)
  have D: "doms s' = (doms s)(d \<mapsto> dq\<lparr>dsp_error := ?err\<rparr>)" using E(1) dq by (simp add: upd_dq_def)
  have Q: "\<exists>q'. objs s' a = Some q' \<and> (if q_domain (core q) = d \<and> slots dq ! unat (q_id (core q)) = Queue a
              then \<not> have_driver_signaling (core q) \<longrightarrow> packet_mask (core q') AND 2 \<noteq> 0 \<and> space_mask (core q') AND 2 \<noteq> 0 else q' = q)"
    if a: "objs s a = Some q" for a q
  proof (cases "q_domain (core q) = d \<and> slots dq ! unat (q_id (core q)) = Queue a")
    case True
    let ?i = "unat (q_id (core q))"
    have "?i < 64" using life_invD(2) [OF inv a] by (simp add: obj_ok_def)
    with True so have "?i \<le> max_queue dq" by (auto simp: slots_ok_def)
    then have "?i \<in> set ?is" by auto
    with E(2) True a have "objs s' a = Some (report_error (alloc ?i) (thread ?i) q)" by (simp del: upt_Suc set_upt)
    then show ?thesis using True cancel_bit by (auto simp: report_error_def cancel_masks_def Let_def)
  next
    case False
    have "slots dq ! i \<noteq> Queue a" if "i \<in> set ?is" for i
      using own [OF _ le [OF that], of a] False a by (auto simp: owner_def)
    with E(3) a have "objs s' a = Some q" by auto
    then show ?thesis using False by auto
  qed
  have "?err \<noteq> 0" using e by simp
  then have "\<forall>al th er. error_callback al th d er s' = Some s'"
    by (simp add: error_callback_def D)
  with D Q True show ?thesis by auto
qed

theorem error_callback_spec_witness:
  "\<exists>s s' dq q. dspqueue_create demo_lenv 3 0 64 64 False True True demo_life = Some (0, Some 0, s) \<and>
     error_callback (\<lambda>_. True) (\<lambda>_. True) 3 (-1) s = Some s' \<and> doms s' 3 = Some dq \<and> dsp_error dq = AEE_ECONNRESET \<and>
     error_callback (\<lambda>_. True) (\<lambda>_. True) 3 AEE_ENOSUCH s' = Some s'"
proof (rule demo_create)
  fix s dq
  assume s: "dspqueue_create demo_lenv 3 0 64 64 False True True demo_life = Some (0, Some 0, s)" "doms s 3 = Some dq"
    "life_reachable demo_life s" "no_queues demo_life"
  have "case dspqueue_create demo_lenv 3 0 64 64 False True True demo_life of None \<Rightarrow> False
      | Some (e, qo, s) \<Rightarrow> map_option dsp_error (doms s 3) = Some 0 \<and>
          \<not> Option.is_none (error_callback (\<lambda>_. True) (\<lambda>_. True) 3 (-1) s)"
    by code_simp
  with s obtain s' where c: "error_callback (\<lambda>_. True) (\<lambda>_. True) 3 (-1) s = Some s'" and z: "dsp_error dq = 0"
    by (auto simp: Option.is_none_def)
  from error_callback_spec [OF c s(3,4,2)] z s(1) c show ?thesis by (auto intro!: exI [of _ s] exI [of _ s'])
qed

text \<open>A cancelled wait. Closing a queue and an error of its domain set the cancel bit and wake all waiters. A timed wait
  looks at the bit before it waits, so it always returns \<^verbatim>\<open>AEE_EINTERRUPTED\<close>. A wait without a timeout looks at it only after
  it has been woken: a reader or writer (or the callback thread, which \<^verbatim>\<open>dspqueue_close\<close> joins) that begins to wait just after
  the bit was set is not woken again by it, and blocks until something else happens on the queue.\<close>

theorem untimed_wait_misses_cancel:
  assumes "\<not> have_driver_signaling q" "sn = SIGNAL_REQ_SPACE \<or> sn = SIGNAL_RESP_PACKET"
  shows "wait_signal_locked now sn (Some t) evs (cancel_masks q) w = Done (AEE_EINTERRUPTED, cancel_masks q, w, evs) \<and>
    wait_signal_locked now sn None [] (cancel_masks q) w = Blocked"
proof -
  have m: "sig_mask sn (cancel_masks q) AND 2 \<noteq> 0" using cancel_bit by (simp add: sig_mask_def cancel_masks_def)
  have d: "\<not> have_driver_signaling (cancel_masks q)" using assms(1) by (simp add: cancel_masks_def)
  have s: "\<not> (sn \<noteq> SIGNAL_REQ_SPACE \<and> sn \<noteq> SIGNAL_RESP_PACKET)" using assms(2) by auto
  show ?thesis
    using d s m
    by (simp add: wait_signal_locked_def Let_def wait_timed.simps [of _ _ evs] wait_untimed.simps [of _ _ "[]"])
qed

theorem untimed_wait_misses_cancel_witness: "wait_signal_locked None SIGNAL_RESP_PACKET None [] (cancel_masks demo_q) demo_w = Blocked"
  using untimed_wait_misses_cancel [of demo_q SIGNAL_RESP_PACKET None undefined "[]" demo_w] by (simp add: demo_q_def)

text \<open>When the last queue of a domain is closed and the DSP refuses to close its side, the threads have already been
  joined but the domain's table stays. The next queue of the domain finds that table and is created without any thread:
  its signals set a bit in a mask that nobody reads, next to a cancel bit that is never cleared.\<close>

theorem failed_takedown_leaves_dead_domain:
  assumes "IS_VALID_EFFECTIVE_DOMAIN_ID d" "doms s d = Some dq" "num_queues dq = 0" "\<not> have_dspsignal dq" "dsp_error dq = 0"
    and "e_cancel_wait env = 0" "e_join env 1 = (0, 0)" "e_join env 0 = (0, 0)" "e_rpc_close env \<noteq> 0"
  shows "\<exists>s' dq'. destroy_domain_queues_locked env d s = Some (e_rpc_close env, s') \<and> doms s' d = Some dq' \<and>
    \<not> send_thread dq' \<and> \<not> recv_thread dq' \<and> w_send_mask (lw s') d AND 2 \<noteq> 0 \<and>
    (\<forall>env'. init_domain_queues_locked env' d s' = Some (0, s'))"
proof -
  let ?s = "upd_dq d (\<lambda>dq. dq\<lparr>send_thread := False\<rparr>) (upd_mask d (\<lambda>m. m OR 2) (upd_dq d (\<lambda>dq. dq\<lparr>recv_thread := False\<rparr>) s))"
  have D: "doms ?s d = Some (dq\<lparr>recv_thread := False, send_thread := False\<rparr>)" using assms(2) by (simp add: upd_dq_def upd_mask_def)
  have st: "stop_threads env d () s = Some (0, (), ?s)" using assms by (simp add: stop_threads_def Let_def)
  have un: "unshare_state env d () ?s = Some (e_rpc_close env, (), ?s)" using D assms by (simp add: unshare_state_def)
  have "destroy_domain_queues_locked env d s = Some (e_rpc_close env, ?s)"
    using assms(1-3,9) st un by (simp add: destroy_domain_queues_locked_def run_steps.simps)
  moreover have "w_send_mask (lw ?s) d AND 2 \<noteq> 0" using cancel_bit by (simp add: upd_dq_def upd_mask_def)
  moreover have "init_domain_queues_locked env' d ?s = Some (0, ?s)" for env'
    using D assms(1) by (simp add: init_domain_queues_locked_def)
  ultimately show ?thesis using D by (intro exI [of _ ?s]) auto
qed

text \<open>A table whose last queue has gone, and a DSP that does not close its side.\<close>

definition demo_idle :: life where
  "demo_idle = demo_life\<lparr>doms := (doms demo_life)(3 \<mapsto> empty_dq\<lparr>send_thread := True, recv_thread := True\<rparr>)\<rparr>"

theorem failed_takedown_leaves_dead_domain_witness:
  "\<exists>s'. destroy_domain_queues_locked (demo_lenv\<lparr>e_rpc_close := AEE_ERPC\<rparr>) 3 demo_idle = Some (AEE_ERPC, s') \<and>
     init_domain_queues_locked demo_lenv 3 s' = Some (0, s')"
  using failed_takedown_leaves_dead_domain [of 3 demo_idle "empty_dq\<lparr>send_thread := True, recv_thread := True\<rparr>" "demo_lenv\<lparr>e_rpc_close := AEE_ERPC\<rparr>"]
  by (auto simp: IS_VALID_EFFECTIVE_DOMAIN_ID_def demo_idle_def empty_dq_def demo_lenv_def)

section \<open>What closing a queue does\<close>

lemma run_steps_append:
  "run_steps (fs @ gs) d s =
     (case run_steps fs d s of None \<Rightarrow> None | Some (e, d, s) \<Rightarrow> if e \<noteq> 0 then Some (e, d, s) else run_steps gs d s)"
  by (induction fs arbitrary: d s) (auto simp: run_steps.simps split: option.splits)

text \<open>The state while queue \<open>a\<close> is being closed: everything but that queue and its slot is as before.\<close>

definition closing :: "nat \<Rightarrow> qobj \<Rightarrow> domain_queues \<Rightarrow> life \<Rightarrow> life \<Rightarrow> bool" where
  "closing a q dq s s' \<longleftrightarrow> (\<forall>b. b \<noteq> a \<longrightarrow> objs s' b = objs s b) \<and> (\<forall>d. d \<noteq> obj_domain q \<longrightarrow> doms s' d = doms s d) \<and>
     (\<exists>q'. objs s' a = Some q' \<and> obj_domain q' = obj_domain q \<and> q_id (core q') = q_id (core q)) \<and>
     (\<exists>dq'. doms s' (obj_domain q) = Some dq' \<and> num_queues dq' = num_queues dq \<and>
        (slots dq' = slots dq \<or> slots dq' = (slots dq)[obj_slot q := INVALID_QUEUE]))"

lemma closing_rest: "rest s2 = rest s1 \<Longrightarrow> closing a q dq s s2 = closing a q dq s s1"
  using rest_eq [of s2 s1] by (simp add: closing_def)

lemma closing_upd_obj:
  assumes "\<And>q. obj_domain (f q) = obj_domain q \<and> q_id (core (f q)) = q_id (core q)"
  shows "closing a q dq s (upd_obj a f s1) = closing a q dq s s1"
  using assms by (auto simp: closing_def upd_obj_def)

lemma closing_steps:
  "check_imported env a n s1 = Some (e, n', s2) \<Longrightarrow> closing a q dq s s1 \<Longrightarrow> closing a q dq s s2"
  "join_error_thread env a n s1 = Some (e, n', s2) \<Longrightarrow> closing a q dq s s1 \<Longrightarrow> closing a q dq s s2"
  "cancel_waits a n s1 = Some (e, n', s2) \<Longrightarrow> closing a q dq s s1 \<Longrightarrow> closing a q dq s s2"
  "join_callback env a n s1 = Some (e, n', s2) \<Longrightarrow> closing a q dq s s1 \<Longrightarrow> closing a q dq s s2"
  "destroy_on_dsp env a n s1 = Some (e, n', s2) \<Longrightarrow> closing a q dq s s1 \<Longrightarrow> closing a q dq s s2"
  "free_memory env a n s1 = Some (e, n', s2) \<Longrightarrow> closing a q dq s s1 \<Longrightarrow> closing a q dq s s2"
  "destroy_signals a n s1 = Some (e, n', s2) \<Longrightarrow> closing a q dq s s1 \<Longrightarrow> closing a q dq s s2"
  subgoal by (auto simp: check_imported_def closing_def upd_dq_def Let_def queue_at_def split: option.splits if_splits)
  subgoal by (auto simp: join_error_thread_def Let_def closing_upd_obj split: option.splits if_splits)
  subgoal by (auto simp: cancel_waits_def closing_upd_obj cancel_masks_def split: option.splits if_splits)
  subgoal by (auto simp: join_callback_def split: option.splits if_splits prod.splits)
  subgoal by (auto simp: destroy_on_dsp_def Let_def closing_rest [OF snd_munmap_rest] split: option.splits if_splits prod.splits
        dest!: mem_calls_rest(4) dest: closing_rest [where a = a and q = q and dq = dq and s = s])
  subgoal by (auto simp: free_memory_def split: option.splits dest!: mem_calls_rest(2) dest: closing_rest [where a = a and q = q and dq = dq and s = s])
  subgoal by (auto simp: destroy_signals_def split: option.splits if_splits)
  done

lemma leave_table_cases:
  assumes l: "leave_table env a n s1 = Some (e, n', s')" and c: "closing a q dq s s1"
  shows "e = 0 \<and> objs s' a = None \<and> (\<forall>b. b \<noteq> a \<longrightarrow> objs s' b = objs s b) \<and> (\<forall>d. d \<noteq> obj_domain q \<longrightarrow> doms s' d = doms s d) \<and>
    (num_queues dq \<noteq> 1 \<longrightarrow> (\<exists>dq'. doms s' (obj_domain q) = Some dq' \<and> num_queues dq' = num_queues dq - 1 \<and>
       slots dq' = (slots dq)[obj_slot q := UNUSED_QUEUE]))"
proof -
  from c obtain q1 dq1 where q1: "objs s1 a = Some q1" "obj_domain q1 = obj_domain q" "q_id (core q1) = q_id (core q)"
    and d1: "doms s1 (obj_domain q) = Some dq1" "num_queues dq1 = num_queues dq"
      "slots dq1 = slots dq \<or> slots dq1 = (slots dq)[obj_slot q := INVALID_QUEUE]"
    by (auto simp: closing_def)
  have qa: "queue_at a s1 = Some (q1, obj_domain q, dq1)" using q1 d1 by (simp add: queue_at_def)
  have sl: "(slots dq1)[obj_slot q := UNUSED_QUEUE] = (slots dq)[obj_slot q := UNUSED_QUEUE]" using d1(3) by auto
  let ?xs = "(slots dq)[obj_slot q := UNUSED_QUEUE]"
  let ?s2 = "upd_dq (obj_domain q) (\<lambda>dq. dq\<lparr>slots := ?xs, max_queue := last_taken ?xs 64, num_queues := num_queues dq - 1\<rparr>) s1"
  show ?thesis
  proof (cases "num_queues dq = 1")
    case False
    then have "s' = ?s2\<lparr>objs := (objs ?s2)(a := None)\<rparr>" "e = 0"
      using l qa sl d1(2) q1(3) by (auto simp: leave_table_def Let_def)
    then show ?thesis using c d1 by (auto simp: closing_def upd_dq_def)
  next
    case True
    with l qa sl d1(2) q1(3) obtain e1 s3 where d: "destroy_domain_queues_locked env (obj_domain q) ?s2 = Some (e1, s3)"
      and s': "e = 0" "objs s' = (objs s3)(a := None)" "doms s' = doms s3"
      by (auto simp: leave_table_def Let_def split: option.splits)
    from destroy_cases(2) [OF d] have "objs s3 = objs s1" "\<forall>d. d \<noteq> obj_domain q \<longrightarrow> doms s3 d = doms s1 d"
      by (auto simp: only_domain_def upd_dq_def)
    then show ?thesis using s' c True by (auto simp: closing_def)
  qed
qed

lemma close1_cases:
  assumes c: "dspqueue_close1 env a s = Some (e, s')" and q: "objs s a = Some q" "doms s (obj_domain q) = Some dq"
  shows "objs s' a \<noteq> None \<and> e \<noteq> 0 \<and> closing a q dq s s' \<or>
    objs s' a = None \<and> (\<forall>b. b \<noteq> a \<longrightarrow> objs s' b = objs s b) \<and> (\<forall>d. d \<noteq> obj_domain q \<longrightarrow> doms s' d = doms s d) \<and>
    (num_queues dq \<noteq> 1 \<longrightarrow> (\<exists>dq'. doms s' (obj_domain q) = Some dq' \<and> num_queues dq' = num_queues dq - 1 \<and>
       slots dq' = (slots dq)[obj_slot q := UNUSED_QUEUE]))"
proof -
  have start: "closing a q dq s s" using q by (simp add: closing_def)
  let ?fs = "[check_imported env a, join_error_thread env a, cancel_waits a, join_callback env a, destroy_on_dsp env a,
      free_memory env a, destroy_signals a]"
  show ?thesis
  proof (cases "IS_VALID_EFFECTIVE_DOMAIN_ID (obj_domain q)")
    case False
    with c q have "e \<noteq> 0" "s' = s" by (auto simp: dspqueue_close1_def)
    with q start show ?thesis by auto
  next
    case True
    with c q obtain e1 n1 where r: "run_steps (?fs @ [leave_table env a]) 0 s = Some (e1, n1, s')" and e: "e = (if e1 \<noteq> 0 then e1 else n1)"
      by (auto simp: dspqueue_close1_def split: option.splits)
    then obtain e2 n2 s2 where r2: "run_steps ?fs 0 s = Some (e2, n2, s2)"
      unfolding run_steps_append by (auto split: option.splits)
    have cl: "closing a q dq s s2"
      by (rule run_steps_inv [OF r2, where P = "\<lambda>_. closing a q dq s", OF start]) (auto dest: closing_steps)
    show ?thesis
    proof (cases "e2 = 0")
      case False
      with r r2 e have "s' = s2" "e = e2" unfolding run_steps_append by auto
      with cl False show ?thesis by (auto simp: closing_def)
    next
      case True
      with r r2 have "run_steps [leave_table env a] n2 s2 = Some (e1, n1, s')" unfolding run_steps_append by simp
      then have "leave_table env a n2 s2 = Some (e1, n1, s')" by (auto simp: run_steps.simps split: option.splits if_splits)
      from leave_table_cases [OF this cl] show ?thesis by blast
    qed
  qed
qed

text \<open>C19: Closing a queue, whatever the environment answers. No other queue and no other domain is touched. If
  \<^verbatim>\<open>dspqueue_close\<close> returns success the object is gone. Whenever the object is gone (which an error does not exclude)
  and it was not the last queue of its domain, its slot is free and the count is one less. As long as the object is there,
  which is only after an error, it still counts as a queue of its domain, and its slot is either as before or
  \<^verbatim>\<open>INVALID_QUEUE\<close>, so no new queue gets its number.\<close>

theorem close_spec:
  assumes "dspqueue_close1 env a s = Some (e, s')" "objs s a = Some q" "doms s (q_domain (core q)) = Some dq"
  shows "(\<forall>b. b \<noteq> a \<longrightarrow> objs s' b = objs s b) \<and> (\<forall>d. d \<noteq> q_domain (core q) \<longrightarrow> doms s' d = doms s d) \<and>
    (e = 0 \<longrightarrow> objs s' a = None) \<and>
    (objs s' a = None \<longrightarrow> num_queues dq \<noteq> 1 \<longrightarrow> (\<exists>dq'. doms s' (q_domain (core q)) = Some dq' \<and>
       num_queues dq' = num_queues dq - 1 \<and> slots dq' = (slots dq)[unat (q_id (core q)) := UNUSED_QUEUE])) \<and>
    (objs s' a \<noteq> None \<longrightarrow> (\<exists>dq'. doms s' (q_domain (core q)) = Some dq' \<and> num_queues dq' = num_queues dq \<and>
       (slots dq' = slots dq \<or> slots dq' = (slots dq)[unat (q_id (core q)) := INVALID_QUEUE])))"
  using close1_cases [OF assms] by (auto simp: closing_def)

theorem close_spec_witness:
  "\<exists>s q dq s'. dspqueue_create demo_lenv 3 0 64 64 False True True demo_life = Some (0, Some 0, s) \<and>
     dspqueue_close1 demo_lenv 0 s = Some (0, s') \<and> objs s' 0 = None"
proof (rule demo_create)
  fix s dq
  assume s: "dspqueue_create demo_lenv 3 0 64 64 False True True demo_life = Some (0, Some 0, s)" "doms s 3 = Some dq"
  have "case dspqueue_create demo_lenv 3 0 64 64 False True True demo_life of None \<Rightarrow> False
      | Some (e, qo, s) \<Rightarrow> map_option (\<lambda>q. q_domain (core q)) (objs s 0) = Some 3 \<and>
          map_option fst (dspqueue_close1 demo_lenv 0 s) = Some 0"
    by code_simp
  with s(1) obtain s' q where c: "dspqueue_close1 demo_lenv 0 s = Some (0, s')" "objs s 0 = Some q" "q_domain (core q) = 3" by auto
  from close_spec [OF c(1,2), of dq] c(3) s(2) have "objs s' 0 = None" by simp
  with c(1) s(1) show ?thesis by blast
qed

section \<open>Queues on several domains\<close>

lemma create_objs:
  assumes "dspqueue_create env domain flags rq rs pcb ecb out s = Some (e, qo, s')" and inv: "life_inv s"
  shows "if e = 0 then \<exists>a q. qo = Some a \<and> objs s a = None \<and> objs s' = (objs s)(a \<mapsto> q) else qo = None \<and> objs s' = objs s"
  using assms
proof (cases rule: create_cases)
  case refused
  then show ?thesis by (simp add: same_queues_def)
next
  case (made s1 dq i q s2)
  have "objs s1 = objs s" "next_obj s1 = next_obj s"
    using init_other(1,2) [OF made(1)] once_same [of env s] by (simp_all add: same_queues_def)
  moreover have "objs s (next_obj s) = None"
    using life_invD(2) [OF inv, of "next_obj s"] by (cases "objs s (next_obj s)") (auto simp: obj_ok_def)
  ultimately show ?thesis using publish_simps [OF made(14)] made(7,8,10) by auto
next
  case (undone s1 dq i s2)
  have "objs s1 = objs s" using init_other(1) [OF undone(1)] once_same [of env s] by (simp add: same_queues_def)
  moreover have "doms s2 (resolved domain s) = Some (claimed i dq)" using undone(10) by simp
  then have "objs s' = objs s2"
    by (rule put_back_cases [OF undone(11) _ undone(4)]) (auto simp: only_domain_def dest!: destroy_cases(2))
  ultimately show ?thesis using undone by simp
qed

text \<open>The queues that the loop over the domains has filled in are new, all different, and exist.\<close>

lemma create_all_objs:
  assumes "create_all envs r ii ds s = Some (e, qs, ids, s')" "life_inv s"
  shows "life_inv s' \<and> length ids = length qs \<and> length qs \<le> length ds \<and>
    (\<forall>b. Some b \<notin> set qs \<longrightarrow> objs s' b = objs s b) \<and> (\<forall>b. Some b \<in> set qs \<longrightarrow> objs s b = None \<and> objs s' b \<noteq> None) \<and>
    distinct (map the (filter (\<lambda>x. x \<noteq> None) qs)) \<and>
    (e = 0 \<longrightarrow> length qs = length ds \<and>
      (\<forall>j < length qs. \<exists>a q. qs ! j = Some a \<and> objs s' a = Some q \<and> ids ! j = dsp_id q))"
  using assms
proof (induction ds arbitrary: ii s e qs ids)
  case (Cons dm ds)
  from Cons.prems(1) obtain e1 qo s1 where c: "dspqueue_create (envs ii) dm (ucast (cr_flags r)) (cr_req_size r) (cr_resp_size r)
      (cr_packet_cb r) (cr_error_cb r) True s = Some (e1, qo, s1)" by (auto split: option.splits)
  have inv1: "life_inv s1" by (rule create_inv [OF c Cons.prems(2)])
  note O = create_objs [OF c Cons.prems(2)]
  show ?case
  proof (cases "e1 = 0")
    case False
    with Cons.prems(1) c O inv1 show ?thesis by auto
  next
    case True
    with O obtain a q where a: "qo = Some a" "objs s a = None" "objs s1 = (objs s)(a \<mapsto> q)" by auto
    with Cons.prems(1) c True obtain qs1 ids1 where r: "create_all envs r (Suc ii) ds s1 = Some (e, qs1, ids1, s')"
      and q: "qs = Some a # qs1" "ids = dsp_id q # ids1"
      by (auto simp: dspqueue_export_def split: option.splits)
    note IH = Cons.IH [OF r inv1]
    have na: "Some a \<notin> set qs1" using IH a(3) by auto
    then have qa: "objs s' a = Some q" using IH a(3) by simp
    have d: "distinct (map the (filter (\<lambda>x. x \<noteq> None) qs))"
      using IH na by (auto simp: q image_iff)
    have n: "\<exists>a q. qs ! j = Some a \<and> objs s' a = Some q \<and> ids ! j = dsp_id q" if "e = 0" "j < length qs" for j
      using that IH qa by (cases j) (auto simp: q)
    show ?thesis
      using IH a q na qa d n by (auto split: if_splits)
  qed
qed auto

lemma close_all_objs:
  assumes "close_all envs ii qs n s = Some (e, s')" "life_inv s" "\<forall>b. Some b \<in> set qs \<longrightarrow> objs s b \<noteq> None"
    "distinct (map the (filter (\<lambda>x. x \<noteq> None) qs))"
  shows "life_inv s' \<and> (\<forall>b. Some b \<notin> set qs \<longrightarrow> objs s' b = objs s b) \<and> (n \<noteq> 0 \<longrightarrow> e = n) \<and>
    (e = 0 \<longrightarrow> (\<forall>b. Some b \<in> set qs \<longrightarrow> objs s' b = None))"
  using assms
proof (induction qs arbitrary: ii n s)
  case (Cons x qs)
  show ?case
  proof (cases x)
    case None
    with Cons.prems Cons.IH [of "Suc ii" n s] show ?thesis by auto
  next
    case (Some a)
    with Cons.prems(1) obtain e1 s1 where c: "dspqueue_close1 (envs ii) a s = Some (e1, s1)"
      and r: "close_all envs (Suc ii) qs (if e1 \<noteq> 0 \<and> n = 0 then e1 else n) s1 = Some (e, s')"
      by (auto split: option.splits)
    from Cons.prems(3) Some obtain q where q: "objs s a = Some q" by auto
    from life_invD(2) [OF Cons.prems(2) q] obtain dq where dq: "doms s (obj_domain q) = Some dq" by (auto simp: obj_ok_def)
    note C = close1_cases [OF c q dq]
    have na: "Some a \<notin> set qs" using Cons.prems(4) Some by (auto simp: image_iff)
    have o: "\<forall>b. b \<noteq> a \<longrightarrow> objs s1 b = objs s b" "e1 = 0 \<longrightarrow> objs s1 a = None" using C by (auto simp: closing_def)
    have inv1: "life_inv s1" by (rule close1_inv [OF c Cons.prems(2)])
    have "\<forall>b. Some b \<in> set qs \<longrightarrow> objs s1 b \<noteq> None" using Cons.prems(3) o(1) na by (metis list.set_intros(2))
    moreover have "distinct (map the (filter (\<lambda>x. x \<noteq> None) qs))" using Cons.prems(4) by (auto split: if_splits)
    ultimately show ?thesis using Cons.IH [OF r inv1] o na Some by (auto split: if_splits)
  qed
qed simp

text \<open>A queue on several domains is created on all of them or on none. On success there is one new queue object per domain,
  in order, and the ids written for the caller are those of these objects. On an error nothing is returned; if the loop
  over the domains had begun, what it had created has been closed, and if all these closings succeeded the process has
  exactly the queues it had before. When the list of domains or of handles cannot be allocated (and there is a domain) the
  clean-up dereferences a null pointer: the outcome \<open>None\<close>.\<close>

theorem multidomain_create_all_or_nothing:
  assumes "life_reachable s0 s" "no_queues s0"
  shows "case dspqueue_multidomain_create env r s of
      Some (e, out, s') \<Rightarrow>
        if e = 0
        then \<exists>mdq ids. out = Some (mdq, ids) \<and> m_domains mdq = snd (md_domains env) \<and> length (m_queues mdq) = length (m_domains mdq) \<and>
          length ids = length (m_domains mdq) \<and>
          (\<forall>j < length ids. \<exists>a q. m_queues mdq ! j = Some a \<and> objs s a = None \<and> objs s' a = Some q \<and> ids ! j = dsp_id q)
        else out = None \<and> (objs s' = objs s \<or>
          (\<exists>s1 mdq e1. dspqueue_multidomain_close (md_close_env env) mdq s1 = Some (e1, s') \<and> (e1 = 0 \<longrightarrow> objs s' = objs s)))
    | None \<Rightarrow> True"
proof -
  have inv: "life_inv s" by (rule reachable_inv [OF assms])
  obtain e0 ds where md: "md_domains env = (e0, ds)" by (cases "md_domains env")
  let ?s = "init_process_queues_once (md_env env 0) s"
  have once: "life_inv ?s" "objs ?s = objs s"
    using life_inv_tables_imp [OF once_tables inv] once_same [of "md_env env 0" s] by (simp_all add: same_queues_def)
  show ?thesis
  proof (cases "dspqueue_multidomain_create env r s")
    case (Some x)
    obtain e out s' where x: "x = (e, out, s')" by (metis surj_pair)
    show ?thesis
    proof (cases "objs s' = objs s \<and> out = None \<and> e \<noteq> 0")
      case True
      with Some x show ?thesis by simp
    next
      case False
      with Some x md once(2) obtain e1 qs ids s1 where c: "create_all (md_env env) r 0 ds ?s = Some (e1, qs, ids, s1)"
        and u: "(let mdq = \<lparr>m_ctx = cr_ctx r, m_domains = ds, m_queues = qs @ replicate (length ds - length qs) None,
                       m_dsp_ids = ids @ replicate (length ds - length ids) 0\<rparr>
             in if e1 = 0 then Some (0, Some (mdq, m_dsp_ids mdq), s1)
                else case dspqueue_multidomain_close (md_close_env env) mdq s1 of None \<Rightarrow> None
                     | Some (_, s) \<Rightarrow> Some (e1, None, s)) = Some (e, out, s')"
        unfolding dspqueue_multidomain_create_def by (auto simp: Let_def split: if_splits option.splits)
      note A = create_all_objs [OF c once(1), unfolded once(2)]
      show ?thesis
      proof (cases "e1 = 0")
        case True
        with u A md have "e = 0" "s' = s1" "out = Some (\<lparr>m_ctx = cr_ctx r, m_domains = ds, m_queues = qs, m_dsp_ids = ids\<rparr>, ids)"
          by (auto simp: Let_def)
        moreover have "\<exists>a q. qs ! j = Some a \<and> objs s a = None \<and> objs s1 a = Some q \<and> ids ! j = dsp_id q" if "j < length ids" for j
        proof -
          from A True that obtain a q where j: "qs ! j = Some a" "objs s1 a = Some q" "ids ! j = dsp_id q" by auto
          moreover from this(1) that A have "Some a \<in> set qs" by (metis nth_mem)
          ultimately show ?thesis using A by auto
        qed
        ultimately show ?thesis using Some x A True md by auto
      next
        case False
        let ?mdq = "\<lparr>m_ctx = cr_ctx r, m_domains = ds, m_queues = qs @ replicate (length ds - length qs) None,
                       m_dsp_ids = ids @ replicate (length ds - length ids) 0\<rparr>"
        from u False obtain e2 where m: "dspqueue_multidomain_close (md_close_env env) ?mdq s1 = Some (e2, s')" "e = e1" "out = None"
          by (auto simp: Let_def split: option.splits)
        from m(1) have "close_all (md_close_env env) 0 (qs @ replicate (length ds - length qs) None) 0 s1 = Some (e2, s')"
          by (simp add: dspqueue_multidomain_close_def)
        from close_all_objs [OF this] A have "e2 = 0 \<longrightarrow> objs s' = objs s"
          by (auto simp: fun_eq_iff) (metis)+
        with Some x m False show ?thesis by auto
      qed
    qed
  qed simp
qed

text \<open>A request for one domain, in an environment in which everything succeeds.\<close>

definition demo_mdenv :: mdenv where
  "demo_mdenv = \<lparr>md_domains = (0, [3]), md_once = 0, md_calloc = (\<lambda>_. True), md_mutex = 0, md_env = (\<lambda>_. demo_lenv),
     md_close_env = (\<lambda>_. demo_lenv)\<rparr>"

definition demo_req :: create_req where
  "demo_req = \<lparr>cr_ctx = 1, cr_flags = 0, cr_priority = 0, cr_req_size = 64, cr_resp_size = 64, cr_packet_cb = False,
     cr_error_cb = False, cr_num_ids = 1, cr_ids = True\<rparr>"

theorem multidomain_create_all_or_nothing_witness:
  "\<exists>mdq a q s'. dspqueue_multidomain_create demo_mdenv demo_req demo_life = Some (0, Some (mdq, [77]), s') \<and>
     m_queues mdq = [Some a] \<and> objs s' a = Some q \<and> dsp_id q = 77"
proof -
  have "case dspqueue_multidomain_create demo_mdenv demo_req demo_life of
      Some (e, out, s') \<Rightarrow> e = 0 \<and> map_option snd out = Some [77] | None \<Rightarrow> False"
    by code_simp
  then obtain mdq s' where c: "dspqueue_multidomain_create demo_mdenv demo_req demo_life = Some (0, Some (mdq, [77]), s')"
    by (auto split: option.splits)
  have "no_queues demo_life" by (simp add: no_queues_def demo_life_def)
  note T = multidomain_create_all_or_nothing [OF life_reachable.start this, of demo_mdenv demo_req, unfolded c option.case prod.case]
  from T have "m_domains mdq = [3] \<and> length (m_queues mdq) = length (m_domains mdq) \<and>
    (\<exists>a q. m_queues mdq ! 0 = Some a \<and> objs s' a = Some q \<and> 77 = dsp_id q)"
    by (simp only: refl if_True option.inject prod.inject) (force simp: demo_mdenv_def)
  then have "\<exists>a q. m_queues mdq = [Some a] \<and> objs s' a = Some q \<and> dsp_id q = 77"
    by (cases "m_queues mdq") auto
  with c show ?thesis by blast
qed

end
