(* ===== verification/Sbuf.thy ===== *)
theory Sbuf
  imports Bufbound
begin

text \<open>
  The serialisation buffer of \<^verbatim>\<open>inc/sbuf.h\<close> and the recursive descent parser that
  \<^verbatim>\<open>inc/sbuf_parser.h\<close> builds on it. The four pointers are 64-bit words; an \<^verbatim>\<open>int\<close> added to one
  is sign extended, and a difference of pointers that the source returns as an \<^verbatim>\<open>int\<close> is cut to
  32 bits. The memory is the function from addresses to characters of the bounded buffer. A parser
  is a function from a buffer to its truth value and the buffer it leaves. The loops over an
  unknown parser may run forever, which is the value \<open>None\<close>. The locale \<open>char_consumer\<close> is the
  contract of a parser that takes one character; under it the loops return, and take the longest
  run of such characters.
\<close>

record sbuf =
  sb_buf :: uptr
  sb_bufEnd :: uptr
  sb_bufStart :: uptr
  sb_bufCur :: uptr

section \<open>The buffer\<close>

definition sbuf_init :: "int \<Rightarrow> uptr \<Rightarrow> int \<Rightarrow> sbuf" where
  "sbuf_init offset data dataLen =
     \<lparr>sb_buf = data, sb_bufEnd = data + of_int dataLen,
      sb_bufStart = data - of_int offset, sb_bufCur = data - of_int offset\<rparr>"

definition sbuf_advance :: "sbuf \<Rightarrow> int \<Rightarrow> sbuf" where
  "sbuf_advance b len = b\<lparr>sb_bufCur := sb_bufCur b + of_int len\<rparr>"

definition sbuf_needed :: "sbuf \<Rightarrow> int" where
  "sbuf_needed b = int32 (uint (sb_bufCur b - sb_bufStart b))"

text \<open>\<^verbatim>\<open>__builtin_sub_overflow\<close> leaves the exact difference, cut to the \<^verbatim>\<open>int\<close> it is stored in.\<close>

definition sbuf_left :: "sbuf \<Rightarrow> int" where
  "sbuf_left b = int32 (uint (sb_bufEnd b) - uint (sb_bufCur b))"

definition sbuf_head :: "sbuf \<Rightarrow> uptr" where
  "sbuf_head b = sb_bufCur b"

definition sbuf_valid :: "sbuf \<Rightarrow> bool" where
  "sbuf_valid b \<longleftrightarrow> sb_buf b \<le> sb_bufCur b \<and> sb_bufCur b < sb_bufEnd b"

text \<open>The operands of \<^verbatim>\<open>_SBUF_ALIGN\<close> are an \<^verbatim>\<open>int\<close> and a \<^verbatim>\<open>uint32_t\<close>, so the arithmetic is on
  \<^verbatim>\<open>uint32_t\<close>; the difference is converted to the \<^verbatim>\<open>int\<close> parameter of \<^verbatim>\<open>sbuf_advance\<close>.\<close>

definition SBUF_ALIGN :: "u32 \<Rightarrow> u32 \<Rightarrow> u32" where
  "SBUF_ALIGN x y = (x + (y - 1)) AND NOT (y - 1)"

definition sbuf_align :: "sbuf \<Rightarrow> u32 \<Rightarrow> sbuf" where
  "sbuf_align b al =
     sbuf_advance b (sint (SBUF_ALIGN (of_int (sbuf_needed b)) al - of_int (sbuf_needed b)))"

definition memmove_chars :: "uptr \<Rightarrow> uptr \<Rightarrow> nat \<Rightarrow> cmem \<Rightarrow> cmem" where
  "memmove_chars dst src n m = write_down n dst (\<lambda>i. m (src + of_nat i)) m"

text \<open>The part of \<^verbatim>\<open>sbuf_write\<close> that copies what fits into the valid memory.\<close>

definition sbuf_store :: "sbuf \<Rightarrow> uptr \<Rightarrow> int \<Rightarrow> cmem \<Rightarrow> cmem" where
  "sbuf_store b src srcLen m =
     (let writeLen = min srcLen (sbuf_left b)
      in if writeLen > 0
         then memmove_chars (sb_bufCur b) src (unat (min (sb_bufEnd b - sb_bufCur b) (of_int writeLen))) m
         else m)"

definition sbuf_write :: "sbuf \<Rightarrow> uptr \<Rightarrow> int \<Rightarrow> cmem \<Rightarrow> sbuf \<times> cmem" where
  "sbuf_write b src srcLen m =
     (if sb_bufCur b + of_int srcLen > sb_buf b
      then (let (b, src, srcLen) =
                  (if sb_bufCur b < sb_buf b
                   then (let len = int32 (uint (sb_buf b - sb_bufCur b))
                         in (sbuf_advance b len, src + of_int len, int32 (srcLen - len)))
                   else (b, src, srcLen))
            in (sbuf_advance b srcLen, sbuf_store b src srcLen m))
      else (sbuf_advance b srcLen, m))"

definition sbuf_read :: "sbuf \<Rightarrow> uptr \<Rightarrow> int \<Rightarrow> cmem \<Rightarrow> sbuf \<times> cmem" where
  "sbuf_read b dst dstLen m =
     (if sb_bufCur b + of_int dstLen > sb_buf b
      then (let (b, dst, dstLen) =
                  (if sb_bufCur b < sb_buf b
                   then (let len = int32 (uint (sb_buf b - sb_bufCur b))
                         in (sbuf_advance b len, dst + of_int len, int32 (dstLen - len)))
                   else (b, dst, dstLen));
                readLen = min dstLen (sbuf_left b);
                m = (if readLen > 0 then memmove_chars dst (sb_bufCur b) (nat readLen) m else m)
            in (sbuf_advance b dstLen, m))
      else (sbuf_advance b dstLen, m))"

section \<open>The parser\<close>

type_synonym parser = "sbuf \<Rightarrow> bool \<times> sbuf"

definition sbuf_parser_init :: "uptr \<Rightarrow> int \<Rightarrow> sbuf" where
  "sbuf_parser_init data dataLen = sbuf_init 0 data dataLen"

definition sbuf_cur :: "sbuf \<Rightarrow> uptr" where
  "sbuf_cur b = sbuf_head b"

definition sbuf_peek :: "cmem \<Rightarrow> sbuf \<Rightarrow> char option" where
  "sbuf_peek m b = (if \<not> sbuf_valid b then None else Some (m (sbuf_cur b)))"

definition sbuf_end :: "sbuf \<Rightarrow> bool" where
  "sbuf_end b \<longleftrightarrow> sbuf_left b = 0"

definition sbuf_chars :: "cmem \<Rightarrow> string \<Rightarrow> parser" where
  "sbuf_chars m cs b =
     (case sbuf_peek m b of
        None \<Rightarrow> (False, b)
      | Some c \<Rightarrow> if list_ex (\<lambda>x. c = x) cs then (True, sbuf_advance b 1) else (False, b))"

definition sbuf_notchars :: "cmem \<Rightarrow> string \<Rightarrow> parser" where
  "sbuf_notchars m cs b =
     (case sbuf_peek m b of
        None \<Rightarrow> (False, b)
      | Some c \<Rightarrow> if list_ex (\<lambda>x. c = x) cs then (False, b) else (True, sbuf_advance b 1))"

text \<open>The C string of one character, which is empty for the character that ends a string.\<close>

definition char_string :: "char \<Rightarrow> string" where
  "char_string t = (if t = CHR 0x00 then [] else [t])"

lemma set_char_string [simp]: "CHR 0x00 \<noteq> t \<Longrightarrow> set (char_string t) = {t}"
  by (simp add: char_string_def)

definition sbuf_char :: "cmem \<Rightarrow> char \<Rightarrow> parser" where
  "sbuf_char m t = sbuf_chars m (char_string t)"

definition sbuf_notchar :: "cmem \<Rightarrow> char \<Rightarrow> parser" where
  "sbuf_notchar m t = sbuf_notchars m (char_string t)"

definition sbuf_any :: "cmem \<Rightarrow> parser" where
  "sbuf_any m = sbuf_notchars m []"

text \<open>The pairs of a range. A last character without a partner ends the loop. The comparison is
  that of the unsigned \<^verbatim>\<open>char\<close> of the ARM targets.\<close>

fun in_range_pairs :: "char \<Rightarrow> string \<Rightarrow> bool" where
  "in_range_pairs c (lo # hi # cs) \<longleftrightarrow>
     (of_char lo \<le> (of_char c :: nat) \<and> (of_char c :: nat) \<le> of_char hi) \<or> in_range_pairs c cs"
| "in_range_pairs c _ \<longleftrightarrow> False"

definition sbuf_range :: "cmem \<Rightarrow> string \<Rightarrow> parser" where
  "sbuf_range m cs b =
     (case sbuf_peek m b of
        None \<Rightarrow> (False, b)
      | Some c \<Rightarrow> if in_range_pairs c cs then (True, sbuf_advance b 1) else (False, b))"

text \<open>A string that fails to match leaves the characters that did match consumed.\<close>

fun sbuf_string :: "cmem \<Rightarrow> string \<Rightarrow> parser" where
  "sbuf_string m [] b = (True, b)"
| "sbuf_string m (c # cs) b =
     (case sbuf_char m c b of (ok, b') \<Rightarrow> if \<not> ok then (False, b') else sbuf_string m cs b')"

partial_function (option) many_loop :: "parser \<Rightarrow> sbuf \<Rightarrow> sbuf option" where
  "many_loop consume b =
     (case consume b of (ok, b') \<Rightarrow> if ok then many_loop consume b' else Some b')"

definition sbuf_many :: "parser \<Rightarrow> sbuf \<Rightarrow> (bool \<times> sbuf) option" where
  "sbuf_many consume b =
     (if \<not> sbuf_valid b then Some (False, b)
      else (case many_loop consume b of None \<Rightarrow> None | Some b' \<Rightarrow> Some (True, b')))"

definition sbuf_many1 :: "parser \<Rightarrow> sbuf \<Rightarrow> (bool \<times> sbuf) option" where
  "sbuf_many1 consume b =
     (case consume b of (ok, b') \<Rightarrow>
        if \<not> ok then Some (False, b')
        else (case sbuf_many consume b' of None \<Rightarrow> None | Some (_, b'') \<Rightarrow> Some (True, b'')))"

partial_function (option) sbuf_until :: "parser \<Rightarrow> parser \<Rightarrow> sbuf \<Rightarrow> (bool \<times> sbuf) option" where
  "sbuf_until consume stop b =
     (case stop b of (stopped, b') \<Rightarrow>
        if stopped then Some (True, b')
        else (case consume b' of (ok, b'') \<Rightarrow>
                if \<not> ok then Some (False, b'') else sbuf_until consume stop b''))"

definition sbuf_try :: "parser \<Rightarrow> sbuf \<Rightarrow> bool \<times> sbuf" where
  "sbuf_try p b =
     (case p (sbuf_parser_init (sbuf_cur b) (sbuf_left b)) of
        (ok, tryp) \<Rightarrow> if ok then (True, sbuf_advance b (int32 (pdiff (sbuf_cur tryp) (sbuf_cur b))))
                      else (False, b))"

section \<open>A buffer over a text\<close>

text \<open>\<open>reads_text m base s b i\<close>: the memory holds the text \<open>s\<close> at \<open>base\<close>, the buffer spans it and
  stands at its \<open>i\<close>-th character.\<close>

definition reads_text :: "cmem \<Rightarrow> uptr \<Rightarrow> string \<Rightarrow> sbuf \<Rightarrow> nat \<Rightarrow> bool" where
  "reads_text m base s b i \<longleftrightarrow>
     sb_buf b = base \<and> sb_bufEnd b = base + of_nat (length s) \<and> sb_bufCur b = base + of_nat i \<and>
     i \<le> length s \<and> int (length s) \<le> INT_MAX \<and> uint base + int (length s) < 2 ^ 64 \<and>
     (\<forall>k < length s. m (base + of_nat k) = s ! k)"

lemma uint_text_offset:
  fixes base :: uptr
  assumes "uint base + int n < 2 ^ 64" and "i \<le> n"
  shows "uint (base + of_nat i) = uint base + int i"
proof -
  have "int i < 2 ^ 64" using assms uint_ge_0 [of base] by linarith
  then have "uint (of_nat i :: uptr) = int i"
    by (simp add: unsigned_of_nat take_bit_nat_eq_self)
  then show ?thesis using assms by (simp add: uint_word_ariths)
qed

lemma drop_nonempty: "drop i s \<noteq> [] \<Longrightarrow> i < length s"
  by simp

lemma reads_text_init:
  assumes "int (length s) \<le> INT_MAX" and "uint base + int (length s) < 2 ^ 64"
    and "\<And>k. k < length s \<Longrightarrow> m (base + of_nat k) = s ! k"
  shows "reads_text m base s (sbuf_parser_init base (int (length s))) 0"
  using assms by (simp add: reads_text_def sbuf_parser_init_def sbuf_init_def)

lemma reads_text_cur: "reads_text m base s b i \<Longrightarrow> sbuf_cur b = base + of_nat i"
  by (simp add: reads_text_def sbuf_cur_def sbuf_head_def)

lemma reads_text_valid: "reads_text m base s b i \<Longrightarrow> sbuf_valid b \<longleftrightarrow> i < length s"
  unfolding reads_text_def sbuf_valid_def word_le_def word_less_def
  using uint_text_offset [of base "length s" i] uint_text_offset [of base "length s" "length s"]
  by auto

lemma reads_text_left: "reads_text m base s b i \<Longrightarrow> sbuf_left b = int (length s) - int i"
  unfolding reads_text_def sbuf_left_def
  using uint_text_offset [of base "length s" i] uint_text_offset [of base "length s" "length s"]
  by (auto simp: int32_id)

lemma reads_text_end: "reads_text m base s b i \<Longrightarrow> sbuf_end b \<longleftrightarrow> i = length s"
  using reads_text_left [of m base s b i] by (auto simp: sbuf_end_def)

lemma reads_text_advance:
  "reads_text m base s b i \<Longrightarrow> i + n \<le> length s \<Longrightarrow> reads_text m base s (sbuf_advance b (int n)) (i + n)"
  by (auto simp: reads_text_def sbuf_advance_def)

lemmas reads_text_step = reads_text_advance [where n = 1, simplified]

lemma reads_text_peek:
  "reads_text m base s b i \<Longrightarrow> sbuf_peek m b = (if i < length s then Some (s ! i) else None)"
  by (simp add: sbuf_peek_def reads_text_valid reads_text_cur) (simp add: reads_text_def)

lemma reads_text_chars:
  "reads_text m base s b i \<Longrightarrow>
   sbuf_chars m cs b = (if i < length s \<and> s ! i \<in> set cs then (True, sbuf_advance b 1) else (False, b))"
  by (auto simp: sbuf_chars_def reads_text_peek list_ex_iff)

lemma reads_text_notchars:
  "reads_text m base s b i \<Longrightarrow>
   sbuf_notchars m cs b = (if i < length s \<and> s ! i \<notin> set cs then (True, sbuf_advance b 1) else (False, b))"
  by (auto simp: sbuf_notchars_def reads_text_peek list_ex_iff)

lemma reads_text_char:
  "reads_text m base s b i \<Longrightarrow> CHR 0x00 \<noteq> t \<Longrightarrow>
   sbuf_char m t b = (if i < length s \<and> s ! i = t then (True, sbuf_advance b 1) else (False, b))"
  by (simp add: sbuf_char_def reads_text_chars)

lemma sbuf_string_match:
  assumes "reads_text m base s b i" and "take (length t) (drop i s) = t" and "CHR 0x00 \<notin> set t"
  shows "\<exists>b'. sbuf_string m t b = (True, b') \<and> reads_text m base s b' (i + length t)"
  using assms
proof (induction t arbitrary: b i)
  case Nil
  then show ?case by simp
next
  case (Cons c t)
  then have i: "i < length s" by (intro drop_nonempty) auto
  with Cons.prems(2) have c: "s ! i = c" and t: "take (length t) (drop (Suc i) s) = t"
    by (auto simp: Cons_nth_drop_Suc [symmetric])
  have "reads_text m base s (sbuf_advance b 1) (Suc i)"
    using reads_text_step [OF Cons.prems(1)] i by simp
  from Cons.IH [OF this t] show ?case
    using i c Cons.prems(3) by (simp add: reads_text_char [OF Cons.prems(1)])
qed

lemma sbuf_string_mismatch:
  assumes "reads_text m base s b i" and "take (length t) (drop i s) \<noteq> t" and "CHR 0x00 \<notin> set t"
  shows "\<exists>b' j. sbuf_string m t b = (False, b') \<and> i \<le> j \<and> j < i + length t \<and> reads_text m base s b' j"
  using assms
proof (induction t arbitrary: b i)
  case Nil
  then show ?case by simp
next
  case (Cons c t)
  show ?case
  proof (cases "i < length s \<and> s ! i = c")
    case False
    then show ?thesis
      using Cons.prems(1,3) by (auto simp: reads_text_char intro!: exI [of _ i])
  next
    case True
    then have t: "take (length t) (drop (Suc i) s) \<noteq> t"
      using Cons.prems(2) by (auto simp: Cons_nth_drop_Suc [symmetric])
    have "reads_text m base s (sbuf_advance b 1) (Suc i)"
      using reads_text_step [OF Cons.prems(1)] True by simp
    from Cons.IH [OF this t] Cons.prems(3) obtain b' j
      where j: "sbuf_string m t (sbuf_advance b 1) = (False, b')" "Suc i \<le> j" "j < Suc i + length t" "reads_text m base s b' j"
      by auto
    with True Cons.prems(3) show ?thesis
      by (intro exI [of _ b'] exI [of _ j]) (simp add: reads_text_char [OF Cons.prems(1)])
  qed
qed

section \<open>Consumers of one character\<close>

locale char_consumer =
  fixes m :: cmem and consume :: parser and P :: "char \<Rightarrow> bool"
  assumes consume_char: "reads_text m base s b i \<Longrightarrow>
    consume b = (if i < length s \<and> P (s ! i) then (True, sbuf_advance b 1) else (False, b))"
begin

text \<open>The loop returns and has taken the longest run of characters in \<open>P\<close>.\<close>

lemma many_loop_takes:
  assumes "reads_text m base s b i"
  shows "\<exists>b'. many_loop consume b = Some b' \<and>
     reads_text m base s b' (i + length (takeWhile P (drop i s)))"
  using assms
proof (induction "length s - i" arbitrary: b i)
  case 0
  then show ?case
    using consume_char [OF 0(2)] by (subst many_loop.simps) simp
next
  case (Suc n)
  then have i: "i < length s" by simp
  show ?case
  proof (cases "P (s ! i)")
    case False
    then show ?thesis
      using Suc.prems consume_char [OF Suc.prems] i
      by (subst many_loop.simps) (simp add: Cons_nth_drop_Suc [symmetric])
  next
    case True
    have step: "reads_text m base s (sbuf_advance b 1) (Suc i)"
      using reads_text_step [OF Suc.prems] i by simp
    have "n = length s - Suc i" using Suc.hyps(2) by simp
    from Suc.hyps(1) [OF this step] show ?thesis
      using True consume_char [OF Suc.prems] i
      by (subst many_loop.simps) (simp add: Cons_nth_drop_Suc [symmetric])
  qed
qed

lemma many1_takes:
  assumes r: "reads_text m base s b i" and run: "takeWhile P (drop i s) \<noteq> []"
  shows "\<exists>b'. sbuf_many1 consume b = Some (True, b') \<and>
     reads_text m base s b' (i + length (takeWhile P (drop i s)))"
proof -
  have i: "i < length s" using run by (intro drop_nonempty) auto
  then have P: "P (s ! i)" using run by (auto simp: Cons_nth_drop_Suc [symmetric] split: if_splits)
  have step: "reads_text m base s (sbuf_advance b 1) (Suc i)"
    using reads_text_step [OF r] i by simp
  obtain b' where l: "many_loop consume (sbuf_advance b 1) = Some b'"
    and b': "reads_text m base s b' (Suc i + length (takeWhile P (drop (Suc i) s)))"
    using many_loop_takes [OF step] by blast
  have len: "Suc i + length (takeWhile P (drop (Suc i) s)) = i + length (takeWhile P (drop i s))"
    using i P by (simp add: Cons_nth_drop_Suc [symmetric])
  show ?thesis
  proof (cases "Suc i < length s")
    case True
    then show ?thesis
      using l b' [unfolded len] i P by (simp add: sbuf_many1_def consume_char [OF r] sbuf_many_def
          reads_text_valid [OF step])
  next
    case False
    then have "i + length (takeWhile P (drop i s)) = Suc i" using len by simp
    then show ?thesis
      using False step i P by (simp add: sbuf_many1_def consume_char [OF r] sbuf_many_def
          reads_text_valid [OF step])
  qed
qed

lemma many1_fails:
  assumes "reads_text m base s b i" and "takeWhile P (drop i s) = []"
  shows "sbuf_many1 consume b = Some (False, b)"
proof -
  have "\<not> (i < length s \<and> P (s ! i))"
    using assms(2) by (auto simp: Cons_nth_drop_Suc [symmetric] split: if_splits)
  then show ?thesis
    by (auto simp: sbuf_many1_def consume_char [OF assms(1)])
qed

end

text \<open>Two contracts together: characters are consumed up to the first that stops.\<close>

locale char_until = char_consumer m consume P + stopper: char_consumer m stop Q
  for m :: cmem and consume :: parser and P :: "char \<Rightarrow> bool" and stop :: parser and Q :: "char \<Rightarrow> bool"
begin

lemma until_returns:
  assumes "reads_text m base s b i"
  shows "\<exists>ok b' j. sbuf_until consume stop b = Some (ok, b') \<and> reads_text m base s b' j \<and>
     (ok \<longrightarrow> i < j \<and> Q (s ! (j - 1)) \<and> (\<forall>k. i \<le> k \<and> k < j - 1 \<longrightarrow> P (s ! k) \<and> \<not> Q (s ! k))) \<and>
     (\<not> ok \<longrightarrow> i \<le> j \<and> (j < length s \<longrightarrow> \<not> P (s ! j)) \<and> (\<forall>k. i \<le> k \<and> k \<le> j \<and> k < length s \<longrightarrow> \<not> Q (s ! k)))"
  using assms
proof (induction "length s - i" arbitrary: b i)
  case 0
  then have i: "i = length s" by (simp add: reads_text_def)
  then have "sbuf_until consume stop b = Some (False, b)"
    using stopper.consume_char [OF 0(2)] consume_char [OF 0(2)]
    by (subst sbuf_until.simps) simp
  then show ?case
    using 0(2) i by (intro exI [of _ False] exI [of _ b] exI [of _ i]) auto
next
  case (Suc n)
  then have i: "i < length s" by simp
  have step: "reads_text m base s (sbuf_advance b 1) (Suc i)"
    using reads_text_step [OF Suc.prems] i by simp
  consider "Q (s ! i)" | "\<not> Q (s ! i)" "\<not> P (s ! i)" | "\<not> Q (s ! i)" "P (s ! i)" by blast
  then show ?case
  proof cases
    case 1
    then have "sbuf_until consume stop b = Some (True, sbuf_advance b 1)"
      using i stopper.consume_char [OF Suc.prems] by (subst sbuf_until.simps) simp
    then show ?thesis
      using 1 i step by (intro exI [of _ True] exI [of _ "sbuf_advance b 1"] exI [of _ "Suc i"]) auto
  next
    case 2
    then have "sbuf_until consume stop b = Some (False, b)"
      using i stopper.consume_char [OF Suc.prems] consume_char [OF Suc.prems]
      by (subst sbuf_until.simps) simp
    then show ?thesis
      using 2 Suc.prems by (intro exI [of _ False] exI [of _ b] exI [of _ i]) (auto dest: le_antisym)
  next
    case 3
    have "n = length s - Suc i" using Suc.hyps(2) by simp
    from Suc.hyps(1) [OF this step] obtain ok b' j where
      u: "sbuf_until consume stop (sbuf_advance b 1) = Some (ok, b')" "reads_text m base s b' j"
      and t: "ok \<longrightarrow> Suc i < j \<and> Q (s ! (j - 1)) \<and> (\<forall>k. Suc i \<le> k \<and> k < j - 1 \<longrightarrow> P (s ! k) \<and> \<not> Q (s ! k))"
      and f: "\<not> ok \<longrightarrow> Suc i \<le> j \<and> (j < length s \<longrightarrow> \<not> P (s ! j)) \<and>
        (\<forall>k. Suc i \<le> k \<and> k \<le> j \<and> k < length s \<longrightarrow> \<not> Q (s ! k))"
      by blast
    have "sbuf_until consume stop b = Some (ok, b')"
      using 3 i u(1) stopper.consume_char [OF Suc.prems] consume_char [OF Suc.prems]
      by (subst sbuf_until.simps) simp
    moreover have "ok \<longrightarrow> i < j \<and> Q (s ! (j - 1)) \<and> (\<forall>k. i \<le> k \<and> k < j - 1 \<longrightarrow> P (s ! k) \<and> \<not> Q (s ! k))"
      using t 3 by (metis Suc_leI Suc_lessD le_neq_implies_less)
    moreover have "\<not> ok \<longrightarrow> i \<le> j \<and> (j < length s \<longrightarrow> \<not> P (s ! j)) \<and>
        (\<forall>k. i \<le> k \<and> k \<le> j \<and> k < length s \<longrightarrow> \<not> Q (s ! k))"
      using f 3 by (metis Suc_leD Suc_leI le_neq_implies_less)
    ultimately show ?thesis using u(2) by blast
  qed
qed

end

interpretation sb_notchars: char_consumer m "sbuf_notchars m cs" "\<lambda>c. c \<notin> set cs" for m cs
  by unfold_locales (simp add: reads_text_notchars)

interpretation sb_chars: char_consumer m "sbuf_chars m cs" "\<lambda>c. c \<in> set cs" for m cs
  by unfold_locales (simp add: reads_text_chars)

interpretation sb_until: char_until m "sbuf_notchars m cs" "\<lambda>c. c \<notin> set cs"
    "sbuf_chars m ds" "\<lambda>c. c \<in> set ds" for m cs ds
  by unfold_locales

section \<open>Writing\<close>

text \<open>What a caller does between two calls of \<^verbatim>\<open>sbuf_init\<close>: a sequence of alignments and writes.\<close>

datatype sbuf_op = Align u32 | Write uptr int

fun run_op :: "sbuf_op \<Rightarrow> sbuf \<times> cmem \<Rightarrow> sbuf \<times> cmem" where
  "run_op (Align al) (b, m) = (sbuf_align b al, m)"
| "run_op (Write src n) (b, m) = sbuf_write b src n m"

definition run_ops :: "sbuf_op list \<Rightarrow> sbuf \<times> cmem \<Rightarrow> sbuf \<times> cmem" where
  "run_ops ops st = fold run_op ops st"

text \<open>A buffer whose positions are ordinary numbers: its valid memory is \<open>n\<close> bytes from \<open>base\<close>,
  \<open>off\<close> bytes after the start, and \<open>c\<close> bytes are needed so far.\<close>

definition sbuf_at :: "uptr \<Rightarrow> nat \<Rightarrow> nat \<Rightarrow> sbuf \<Rightarrow> nat \<Rightarrow> bool" where
  "sbuf_at base n off b c \<longleftrightarrow>
     sb_buf b = base \<and> sb_bufEnd b = base + of_nat n \<and> sb_bufStart b = base - of_nat off \<and>
     sb_bufCur b = base - of_nat off + of_nat c"

definition align_up :: "nat \<Rightarrow> nat \<Rightarrow> nat" where
  "align_up c k = (c + 2 ^ k - 1) div 2 ^ k * 2 ^ k"

lemma sbuf_init_at: "sbuf_at base n off (sbuf_init (int off) base (int n)) 0"
  by (simp add: sbuf_at_def sbuf_init_def)

lemma sbuf_advance_at: "sbuf_at base n off b c \<Longrightarrow> sbuf_at base n off (sbuf_advance b (int k)) (c + k)"
  by (simp add: sbuf_at_def sbuf_advance_def)

lemma sbuf_needed_at:
  assumes "sbuf_at base n off b c" and "int c \<le> INT_MAX"
  shows "sbuf_needed b = int c"
proof -
  have "uint (of_nat c :: uptr) = int c"
    using assms(2) by (simp add: unsigned_of_nat take_bit_nat_eq_self)
  then show ?thesis using assms by (simp add: sbuf_at_def sbuf_needed_def int32_id)
qed

lemma SBUF_ALIGN_up:
  assumes "c + 2 ^ k - 1 < 2 ^ 32" and "k < 32"
  shows "unat (SBUF_ALIGN (of_nat c) (2 ^ k)) = align_up c k"
proof -
  have m: "(2 ^ k - 1 :: u32) = mask k" by (simp add: mask_eq_exp_minus_1)
  have "(of_nat (c + 2 ^ k - 1) :: u32) = of_nat (c + 2 ^ k) - 1"
    by (subst of_nat_diff) (simp_all add: trans_le_add2)
  then have "(of_nat c :: u32) + mask k = of_nat (c + 2 ^ k - 1)"
    by (simp add: m [symmetric])
  moreover have "unat (of_nat (c + 2 ^ k - 1) :: u32) = c + 2 ^ k - 1"
    using assms(1) by (simp add: unsigned_of_nat take_bit_nat_eq_self)
  ultimately show ?thesis
    by (simp add: SBUF_ALIGN_def m unat_and_not_mask align_up_def)
qed

lemma align_up_bounds: "c \<le> align_up c k" "align_up c k < c + 2 ^ k"
proof -
  have "c + 2 ^ k - 1 < (c + 2 ^ k - 1) div 2 ^ k * 2 ^ k + 2 ^ k"
    by (metis add.commute div_mod_decomp mod_less_divisor nat_add_left_cancel_less zero_less_numeral zero_less_power)
  then show "c \<le> align_up c k" by (simp add: align_up_def)
  have "0 < (2::nat) ^ k" by simp
  then show "align_up c k < c + 2 ^ k"
    using div_times_less_eq_dividend [of "c + 2 ^ k - 1" "2 ^ k"] unfolding align_up_def by linarith
qed

lemma sbuf_align_at:
  assumes "sbuf_at base n off b c" and "c + 2 ^ k - 1 \<le> 2147483647" and "k < 31"
  shows "sbuf_at base n off (sbuf_align b (2 ^ k)) (align_up c k)"
proof -
  have c: "sbuf_needed b = int c"
    using assms(2) one_le_power [of "2::nat" k, OF one_le_numeral]
    by (intro sbuf_needed_at [OF assms(1)]) linarith
  have d: "SBUF_ALIGN (of_nat c) (2 ^ k) - of_nat c = (of_nat (align_up c k - c) :: u32)"
  proof -
    have "unat (SBUF_ALIGN (of_nat c) (2 ^ k)) = align_up c k"
      using assms by (intro SBUF_ALIGN_up) simp_all
    then have "SBUF_ALIGN (of_nat c) (2 ^ k) = of_nat (align_up c k)"
      by (metis of_nat_unat ucast_id)
    then show ?thesis using align_up_bounds(1) [of c k] by (simp add: of_nat_diff)
  qed
  have "align_up c k - c < 2 ^ 31"
    using align_up_bounds [of c k] assms(3) power_strict_increasing [of k 31 "2::nat"] by linarith
  then have "sint (of_nat (align_up c k - c) :: u32) = int (align_up c k - c)"
    by (simp add: signed_of_nat signed_take_bit_int_eq_self)
  then show ?thesis
    using sbuf_advance_at [OF assms(1), of "align_up c k - c"] align_up_bounds(1) [of c k]
    by (simp add: sbuf_align_def c d)
qed

lemma write_down_range:
  assumes "n \<le> 2 ^ 63"
  shows "\<And>i. i < n \<Longrightarrow> write_down n d f m (d + of_nat i) = f i"
    and "(\<And>i. i < n \<Longrightarrow> a \<noteq> d + of_nat i) \<Longrightarrow> write_down n d f m a = m a"
  using assms write_down_at write_down_other by auto

text \<open>The part of a write of \<open>len\<close> bytes at position \<open>c\<close> that falls into the valid memory is
  stored, and nothing else changes.\<close>

definition write_effect :: "uptr \<Rightarrow> nat \<Rightarrow> nat \<Rightarrow> nat \<Rightarrow> nat \<Rightarrow> uptr \<Rightarrow> cmem \<Rightarrow> cmem \<Rightarrow> bool" where
  "write_effect base n off c len src m m' \<longleftrightarrow>
     (\<forall>k < n. c \<le> off + k \<and> off + k < c + len \<longrightarrow> m' (base + of_nat k) = m (src + of_nat (off + k - c))) \<and>
     (\<forall>a. (\<forall>k < n. c \<le> off + k \<and> off + k < c + len \<longrightarrow> a \<noteq> base + of_nat k) \<longrightarrow> m' a = m a)"

definition sbuf_room :: "uptr \<Rightarrow> nat \<Rightarrow> nat \<Rightarrow> nat \<Rightarrow> bool" where
  "sbuf_room base n off c \<longleftrightarrow>
     int off \<le> uint base \<and> int n \<le> INT_MAX \<and> int off \<le> INT_MAX \<and> int c \<le> INT_MAX \<and>
     uint base + int n < 2 ^ 64 \<and> uint base - int off + int c < 2 ^ 64"

lemma uint_sbuf_pos:
  fixes base :: uptr
  assumes "int off \<le> uint base" and "uint base - int off + int c < 2 ^ 64"
  shows "uint (base - of_nat off + of_nat c) = uint base - int off + int c"
proof -
  have "base - of_nat off + of_nat c = word_of_int (uint base - int off + int c)"
    by simp
  then show ?thesis
    using assms by (simp add: unsigned_of_int take_bit_int_eq_self del: wi_hom_sub wi_hom_add of_int_add of_int_diff)
qed

lemma sbuf_write_inside:
  assumes at: "sbuf_at base n off b c" and room: "sbuf_room base n off (c + len)" and oc: "off \<le> c"
  shows "write_effect base n off c len src m (sbuf_store b src (int len) m)"
proof -
  let ?w = "min (int len) (sbuf_left b)"
  have cur: "uint (sb_bufCur b) = uint base + (int c - int off)"
    using uint_sbuf_pos [of off base c] at room by (simp add: sbuf_at_def sbuf_room_def)
  have en: "uint (sb_bufEnd b) = uint base + int n"
    using uint_text_offset [of base n n] at room by (simp add: sbuf_at_def sbuf_room_def)
  have left: "sbuf_left b = int n - (int c - int off)"
    using cur en room oc by (simp add: sbuf_left_def sbuf_room_def int32_id)
  have curw: "sb_bufCur b = base + of_nat (c - off)"
    using at oc by (simp add: sbuf_at_def of_nat_diff)
  show ?thesis
  proof (cases "?w > 0")
    case False
    then have "len = 0 \<or> n + off \<le> c" using left by auto
    then show ?thesis
      using False by (auto simp: write_effect_def sbuf_store_def)
  next
    case True
    define w where "w = nat ?w"
    have w: "?w = int w" "w \<le> len" "off + n \<ge> c + w" and w': "w = len \<or> c + w = n + off"
      using True left oc by (auto simp: w_def)
    have "sb_bufEnd b - sb_bufCur b = of_nat (n - (c - off))"
      using at curw w(3) oc by (simp add: sbuf_at_def of_nat_diff)
    moreover have "n - (c - off) < 2 ^ 64" "w < 2 ^ 64"
      using room w(2) by (auto simp: sbuf_room_def)
    then have "unat (of_nat (n - (c - off)) :: uptr) = n - (c - off)" "unat (of_nat w :: uptr) = w"
      by (simp_all add: unsigned_of_nat take_bit_nat_eq_self)
    ultimately have u: "unat (min (sb_bufEnd b - sb_bufCur b) (of_int ?w)) = w"
      using w oc by (auto simp: min_def word_le_nat_alt)
    let ?m = "memmove_chars (sb_bufCur b) src w m"
    have w64: "w \<le> 2 ^ 63" using room w(2) by (simp add: sbuf_room_def)
    have "?m (base + of_nat k) = m (src + of_nat (off + k - c))"
      if "k < n" "c \<le> off + k" "off + k < c + len" for k
    proof -
      have k: "base + of_nat k = sb_bufCur b + of_nat (off + k - c)"
        using curw that oc by (simp add: of_nat_diff)
      have "off + k - c < w" using that w' by auto
      then show ?thesis
        unfolding k memmove_chars_def using write_down_range(1) [OF w64] by blast
    qed
    moreover have "?m a = m a"
      if "\<forall>k < n. c \<le> off + k \<and> off + k < c + len \<longrightarrow> a \<noteq> base + of_nat k" for a
    proof -
      have "a \<noteq> sb_bufCur b + of_nat i" if "i < w" for i
      proof -
        have "c - off + i < n" "c \<le> off + (c - off + i)" "off + (c - off + i) < c + len"
          using that w oc by linarith+
        with \<open>\<forall>k < n. _ k\<close> have "a \<noteq> base + of_nat (c - off + i)" by blast
        then show ?thesis unfolding curw of_nat_add add.assoc .
      qed
      then show ?thesis unfolding memmove_chars_def by (rule write_down_range(2) [OF w64])
    qed
    ultimately show ?thesis
      using True u by (simp add: write_effect_def sbuf_store_def Let_def)
  qed
qed

lemma sbuf_write_at:
  assumes at: "sbuf_at base n off b c" and room: "sbuf_room base n off (c + len)"
  shows "\<exists>b' m'. sbuf_write b src (int len) m = (b', m') \<and> sbuf_at base n off b' (c + len) \<and>
     write_effect base n off c len src m m'"
proof -
  have cur: "uint (sb_bufCur b) = uint base - int off + int c"
    using uint_sbuf_pos [of off base c] at room by (simp add: sbuf_at_def sbuf_room_def)
  have e: "sb_bufCur b + of_int (int len) = base - of_nat off + of_nat (c + len)"
    using at by (simp add: sbuf_at_def)
  have fin: "uint (sb_bufCur b + of_int (int len)) = uint base - int off + int (c + len)"
    unfolding e using room by (intro uint_sbuf_pos) (simp_all add: sbuf_room_def)
  have small: "uint (of_nat k :: uptr) = int k" if "k \<le> 2147483647" for k
    using that by (simp add: unsigned_of_nat take_bit_nat_eq_self)
  have buf: "sb_buf b = base" using at by (simp add: sbuf_at_def)
  have over: "sb_bufCur b + of_int (int len) > sb_buf b \<longleftrightarrow> off < c + len"
    unfolding word_less_def fin buf by linarith
  have below: "sb_bufCur b < sb_buf b \<longleftrightarrow> c < off"
    unfolding word_less_def cur buf by linarith
  consider "c + len \<le> off" | "off < c + len" "off \<le> c" | "off < c + len" "c < off" by linarith
  then show ?thesis
  proof cases
    case 1
    then show ?thesis
      using over sbuf_advance_at [OF at, of len] by (auto simp: sbuf_write_def write_effect_def)
  next
    case 2
    then show ?thesis
      using over below sbuf_advance_at [OF at, of len] sbuf_write_inside [OF at room, of src m]
      by (simp add: sbuf_write_def)
  next
    case 3
    then obtain d where d: "off = c + d" "0 < d" "d < len" by (metis add_less_cancel_left less_imp_add_positive)
    have gap: "sb_buf b - sb_bufCur b = of_nat d"
      using at d(1) by (simp add: sbuf_at_def)
    have "d \<le> 2147483647" using room d by (simp add: sbuf_room_def)
    then have l: "int32 (uint (sb_buf b - sb_bufCur b)) = int d"
      unfolding gap small [OF \<open>d \<le> 2147483647\<close>] by (intro int32_id) linarith+
    have l': "int32 (int len - int d) = int (len - d)"
      using room d by (subst int32_id) (auto simp: sbuf_room_def)
    have b1: "sbuf_at base n off (sbuf_advance b (int d)) (c + d)"
      by (rule sbuf_advance_at [OF at])
    have cl: "c + d + (len - d) = c + len" using d by simp
    have b2: "sbuf_at base n off (sbuf_advance (sbuf_advance b (int d)) (int (len - d))) (c + len)"
      using sbuf_advance_at [OF b1, of "len - d"] unfolding cl .
    have w: "write_effect base n off (c + d) (len - d) (src + of_nat d) m
        (sbuf_store (sbuf_advance b (int d)) (src + of_nat d) (int (len - d)) m)"
      using d(1) room unfolding cl [symmetric] by (intro sbuf_write_inside [OF b1]) simp_all
    have "write_effect base n off c len src m
        (sbuf_store (sbuf_advance b (int d)) (src + of_nat d) (int (len - d)) m)"
    proof -
      have "src + of_nat d + of_nat (off + k - (c + d)) = src + of_nat (off + k - c)"
        "c \<le> off + k" "c + d \<le> off + k" for k
        using d(1) by simp_all
      with w show ?thesis unfolding write_effect_def cl by (simp add: add_diff_eq)
    qed
    moreover have "sbuf_write b src (int len) m = (sbuf_advance (sbuf_advance b (int d)) (int (len - d)),
        sbuf_store (sbuf_advance b (int d)) (src + of_nat d) (int (len - d)) m)"
      using 3 over below by (simp add: sbuf_write_def l l' del: of_nat_diff)
    ultimately show ?thesis using b2 by blast
  qed
qed

section \<open>The two passes\<close>

text \<open>Where a sequence of operations that starts at position \<open>c\<close> puts each of its writes, and where
  it ends. Alignments are powers of two.\<close>

fun op_end :: "sbuf_op \<Rightarrow> nat \<Rightarrow> nat" where
  "op_end (Align al) c = (c + unat al - 1) div unat al * unat al"
| "op_end (Write src len) c = c + nat len"

fun ops_end :: "sbuf_op list \<Rightarrow> nat \<Rightarrow> nat" where
  "ops_end [] c = c"
| "ops_end (x # xs) c = ops_end xs (op_end x c)"

fun placed :: "sbuf_op list \<Rightarrow> nat \<Rightarrow> (nat \<times> uptr \<times> nat) list" where
  "placed [] c = []"
| "placed (Align al # xs) c = placed xs (op_end (Align al) c)"
| "placed (Write src len # xs) c = (c, src, nat len) # placed xs (c + nat len)"

fun op_ok :: "sbuf_op \<Rightarrow> nat \<Rightarrow> bool" where
  "op_ok (Align al) c \<longleftrightarrow> (\<exists>k < 31. al = 2 ^ k \<and> c + 2 ^ k - 1 \<le> 2147483647)"
| "op_ok (Write src len) c \<longleftrightarrow> 0 \<le> len \<and> int c + len \<le> INT_MAX"

fun ops_ok :: "sbuf_op list \<Rightarrow> nat \<Rightarrow> bool" where
  "ops_ok [] c \<longleftrightarrow> True"
| "ops_ok (x # xs) c \<longleftrightarrow> op_ok x c \<and> ops_ok xs (op_end x c)"

definition untouched :: "uptr \<Rightarrow> nat \<Rightarrow> uptr \<Rightarrow> nat \<Rightarrow> bool" where
  "untouched base n src len \<longleftrightarrow> (\<forall>i < len. \<forall>k < n. src + of_nat i \<noteq> base + of_nat k)"

lemma untouchedI:
  assumes "uint src + int len \<le> uint base" and "uint base + int n < 2 ^ 64"
  shows "untouched base n src len"
  unfolding untouched_def
proof (intro allI impI notI)
  fix i k
  assume "i < len" "k < n" and eq: "src + of_nat i = base + of_nat k"
  moreover have "uint src + int len < 2 ^ 64" using assms by linarith
  ultimately have "uint src + int i = uint base + int k"
    using uint_text_offset [of src len i] uint_text_offset [of base n k] assms(2) by simp
  then show False using assms(1) \<open>i < len\<close> by linarith
qed

lemma unat_pow2_u32: "k < 31 \<Longrightarrow> unat (2 ^ k :: u32) = 2 ^ k"
proof -
  assume "k < 31"
  then show ?thesis
    using unsigned_of_nat [of "2 ^ k", where 'b = 32, where 'a = nat] by (simp add: take_bit_nat_eq_self)
qed

lemma op_end_ge: "op_ok x c \<Longrightarrow> c \<le> op_end x c"
  using align_up_bounds(1) by (cases x) (auto simp: unat_pow2_u32 align_up_def)

lemma ops_end_ge: "ops_ok xs c \<Longrightarrow> c \<le> ops_end xs c"
proof (induction xs arbitrary: c)
  case (Cons x xs)
  then show ?case using op_end_ge [of x c] by (auto intro: le_trans)
qed simp

lemma run_op_at:
  assumes at: "sbuf_at base n 0 b c" and ok: "op_ok x c" and room: "sbuf_room base n 0 (op_end x c)"
  shows "\<exists>b' m'. run_op x (b, m) = (b', m') \<and> sbuf_at base n 0 b' (op_end x c) \<and>
    (case x of Align al \<Rightarrow> m' = m | Write src len \<Rightarrow> write_effect base n 0 c (nat len) src m m')"
proof (cases x)
  case (Align al)
  then obtain k where "k < 31" "al = 2 ^ k" "c + 2 ^ k - 1 \<le> 2147483647" using ok by auto
  then show ?thesis
    using sbuf_align_at [OF at, of k] Align by (simp add: unat_pow2_u32 align_up_def)
next
  case (Write src len)
  then show ?thesis
    using sbuf_write_at [OF at, of "nat len" src m] ok room by simp
qed

definition covers :: "uptr \<Rightarrow> nat \<Rightarrow> (nat \<times> uptr \<times> nat) list \<Rightarrow> uptr \<Rightarrow> bool" where
  "covers base n ws a \<longleftrightarrow> (\<exists>(c, src, len) \<in> set ws. \<exists>i < len. c + i < n \<and> a = base + of_nat (c + i))"

definition pass_effect :: "uptr \<Rightarrow> nat \<Rightarrow> (nat \<times> uptr \<times> nat) list \<Rightarrow> cmem \<Rightarrow> cmem \<Rightarrow> bool" where
  "pass_effect base n ws m m' \<longleftrightarrow>
     (\<forall>(c, src, len) \<in> set ws. \<forall>i < len. c + i < n \<longrightarrow> m' (base + of_nat (c + i)) = m (src + of_nat i)) \<and>
     (\<forall>a. \<not> covers base n ws a \<longrightarrow> m' a = m a)"

lemma placed_ge: "ops_ok xs c \<Longrightarrow> (c', src, len) \<in> set (placed xs c) \<Longrightarrow> c \<le> c'"
proof (induction xs c rule: placed.induct)
  case (2 al xs c)
  then show ?case using op_end_ge [of "Align al" c] by (auto intro: le_trans)
qed auto

lemma placed_le: "ops_ok xs c \<Longrightarrow> (c', src, len) \<in> set (placed xs c) \<Longrightarrow> c' + len \<le> ops_end xs c"
proof (induction xs c rule: placed.induct)
  case (3 src len xs c)
  then show ?case using ops_end_ge [of xs "c + nat len"] by auto
qed auto

lemma same_offset_iff:
  fixes base :: uptr
  assumes "i < n" "j < n" "int n \<le> INT_MAX"
  shows "base + of_nat i = base + of_nat j \<longleftrightarrow> i = j"
  using assms by (auto simp: word_of_nat_eq_iff take_bit_nat_eq_self)

lemma run_ops_at:
  assumes "sbuf_at base n 0 b c" and "ops_ok xs c" and "sbuf_room base n 0 (ops_end xs c)"
    and "\<forall>(c', src, len) \<in> set (placed xs c). untouched base n src len"
  shows "\<exists>b' m'. run_ops xs (b, m) = (b', m') \<and> sbuf_at base n 0 b' (ops_end xs c) \<and>
    pass_effect base n (placed xs c) m m'"
  using assms
proof (induction xs arbitrary: b c m)
  case Nil
  then show ?case by (simp add: run_ops_def pass_effect_def)
next
  case (Cons x xs)
  have ok: "op_ok x c" "ops_ok xs (op_end x c)" using Cons.prems(2) by auto
  have n: "int n \<le> INT_MAX" using Cons.prems(3) by (simp add: sbuf_room_def)
  have room: "sbuf_room base n 0 (op_end x c)"
    using Cons.prems(3) ops_end_ge [OF ok(2)] by (auto simp: sbuf_room_def)
  obtain b1 m1 where r1: "run_op x (b, m) = (b1, m1)" and at1: "sbuf_at base n 0 b1 (op_end x c)"
    and e1: "case x of Align al \<Rightarrow> m1 = m | Write src len \<Rightarrow> write_effect base n 0 c (nat len) src m m1"
    using run_op_at [OF Cons.prems(1) ok(1) room, of m] by blast
  have sub: "\<forall>(c', src, len) \<in> set (placed xs (op_end x c)). untouched base n src len"
    using Cons.prems(4) by (cases x) auto
  obtain b' m' where r2: "run_ops xs (b1, m1) = (b', m')" and at2: "sbuf_at base n 0 b' (ops_end xs (op_end x c))"
    and e2: "pass_effect base n (placed xs (op_end x c)) m1 m'"
    using Cons.IH [OF at1 ok(2) _ sub, of m1] Cons.prems(3) by auto
  have run: "run_ops (x # xs) (b, m) = (b', m')" using r1 r2 by (simp add: run_ops_def)
  have "pass_effect base n (placed (x # xs) c) m m'"
  proof (cases x)
    case (Align al)
    then show ?thesis using e1 e2 by simp
  next
    case (Write src0 len0)
    then have w: "write_effect base n 0 c (nat len0) src0 m m1" using e1 by simp
    have keep: "m1 (src + of_nat i) = m (src + of_nat i)"
      if "(c', src, len) \<in> set (placed xs (op_end x c))" "i < len" for c' src len i
    proof -
      have "untouched base n src len" using sub that(1) by blast
      then have "\<forall>k < n. src + of_nat i \<noteq> base + of_nat k" using that(2) by (simp add: untouched_def)
      then show ?thesis using w by (simp add: write_effect_def)
    qed
    have after: "c + nat len0 \<le> c'" if "(c', src, len) \<in> set (placed xs (op_end x c))" for c' src len
      using placed_ge [OF ok(2) that] Write by simp
    have early: "m' (base + of_nat k) = m1 (base + of_nat k)" if "k < n" "k < c + nat len0" for k
    proof -
      have "base + of_nat k \<noteq> base + of_nat (c' + i)"
        if "(c', src, len) \<in> set (placed xs (op_end x c))" "c' + i < n" for c' src len i
        using same_offset_iff [OF \<open>k < n\<close> that(2) n] after [OF that(1)] \<open>k < c + nat len0\<close> by auto
      then have "\<not> covers base n (placed xs (op_end x c)) (base + of_nat k)"
        unfolding covers_def by blast
      then show ?thesis using e2 by (simp add: pass_effect_def)
    qed
    show ?thesis
      unfolding pass_effect_def Write placed.simps
    proof (intro conjI ballI allI impI)
      fix t assume "t \<in> set ((c, src0, nat len0) # placed xs (c + nat len0))"
      then show "case t of (c, src, len) \<Rightarrow> \<forall>i < len. c + i < n \<longrightarrow> m' (base + of_nat (c + i)) = m (src + of_nat i)"
      proof (cases "t = (c, src0, nat len0)")
        case True
        have "m' (base + of_nat (c + i)) = m (src0 + of_nat i)" if "i < nat len0" "c + i < n" for i
          using early [of "c + i"] w [unfolded write_effect_def, THEN conjunct1, rule_format, of "c + i"] that
          by simp
        with True show ?thesis by simp
      next
        case False
        then show ?thesis
          using \<open>t \<in> _\<close> e2 keep Write unfolding pass_effect_def by fastforce
      qed
    next
      fix a
      assume "\<not> covers base n ((c, src0, nat len0) # placed xs (c + nat len0)) a"
      then have a: "\<not> covers base n (placed xs (c + nat len0)) a"
        and a': "\<forall>i < nat len0. c + i < n \<longrightarrow> a \<noteq> base + of_nat (c + i)"
        by (auto simp: covers_def)
      have "m' a = m1 a" using e2 Write a by (simp add: pass_effect_def)
      moreover have "\<forall>k < n. c \<le> k \<and> k < c + nat len0 \<longrightarrow> a \<noteq> base + of_nat k"
        using a' by (metis add_less_cancel_left le_add_diff_inverse)
      then have "m1 a = m a" using w by (simp add: write_effect_def)
      ultimately show "m' a = m a" by simp
    qed
  qed
  then show ?case using run at2 by auto
qed

lemma sbuf_read_inside:
  assumes at: "sbuf_at base n 0 b c" and room: "sbuf_room base n 0 (c + len)"
    and fits: "c + len \<le> n" and len: "0 < len"
  shows "\<exists>b' m'. sbuf_read b dst (int len) m = (b', m') \<and> sbuf_at base n 0 b' (c + len) \<and>
     (\<forall>i < len. m' (dst + of_nat i) = m (base + of_nat (c + i))) \<and>
     (\<forall>a. (\<forall>i < len. a \<noteq> dst + of_nat i) \<longrightarrow> m' a = m a)"
proof -
  have cur: "sb_bufCur b = base + of_nat c" and buf: "sb_buf b = base"
    using at by (simp_all add: sbuf_at_def)
  have u: "uint (base + of_nat i) = uint base + int i" if "i \<le> n" for i
    using room that by (intro uint_text_offset [of base n]) (simp_all add: sbuf_room_def)
  have left: "sbuf_left b = int n - int c"
    using at room fits u by (simp add: sbuf_at_def sbuf_left_def sbuf_room_def int32_id)
  have pos: "sb_bufCur b + of_int (int len) = base + of_nat (c + len)" using cur by simp
  have "sb_bufCur b + of_int (int len) > sb_buf b" "\<not> sb_bufCur b < sb_buf b"
    unfolding pos unfolding cur buf word_less_def using u [of "c + len"] u [of c] fits len by linarith+
  moreover have "min (int len) (sbuf_left b) = int len" "0 < sbuf_left b" using left fits len by simp_all
  moreover have l63: "len \<le> 2 ^ 63" using room by (auto simp: sbuf_room_def)
  ultimately show ?thesis
    using sbuf_advance_at [OF at, of len] len write_down_range [OF l63]
    by (simp add: sbuf_read_def memmove_chars_def cur add.assoc)
qed

section \<open>Properties\<close>

text \<open>C39: \<^bold>\<open>the sizing pass and the filling pass agree\<close>. A sequence of alignments and writes run on
  the empty buffer \<^verbatim>\<open>sbuf_init(&sbuf, 0, 0, 0)\<close> touches no memory and needs as many bytes as the
  same sequence takes in a buffer of that size: run there, it ends exactly at the end of the
  buffer, every write has put its bytes at its position, and no other memory has changed.\<close>

theorem sbuf_two_passes:
  assumes "ops_ok ops 0" and "ops_end ops 0 \<le> 2147483647"
    and "run_ops ops (sbuf_init 0 0 0, m0) = (b1, m1)"
    and "uint base + sbuf_needed b1 < 2 ^ 64"
    and "\<forall>(c, src, len) \<in> set (placed ops 0). untouched base (nat (sbuf_needed b1)) src len"
    and "run_ops ops (sbuf_init 0 base (sbuf_needed b1), m) = (b2, m2)"
  shows "m1 = m0 \<and> sbuf_needed b2 = sbuf_needed b1 \<and> sbuf_left b2 = 0 \<and>
    (\<forall>(c, src, len) \<in> set (placed ops 0). \<forall>i < len.
       c + i < nat (sbuf_needed b1) \<and> m2 (base + of_nat (c + i)) = m (src + of_nat i)) \<and>
    (\<forall>a. (\<forall>k < nat (sbuf_needed b1). a \<noteq> base + of_nat k) \<longrightarrow> m2 a = m a)"
proof -
  let ?n = "ops_end ops 0"
  have "sbuf_room 0 0 0 ?n" using assms(2) by (simp add: sbuf_room_def)
  then obtain at1: "sbuf_at 0 0 0 b1 ?n" and p1: "pass_effect 0 0 (placed ops 0) m0 m1"
    using run_ops_at [OF sbuf_init_at [of 0 0 0] assms(1), of m0] assms(3) by (auto simp: untouched_def)
  have n: "sbuf_needed b1 = int ?n" using assms(2) by (intro sbuf_needed_at [OF at1]) simp
  have m1: "m1 = m0" using p1 by (auto simp: pass_effect_def covers_def)
  have room: "sbuf_room base ?n 0 ?n" using assms(2,4) n by (simp add: sbuf_room_def)
  obtain at2: "sbuf_at base ?n 0 b2 ?n" and p2: "pass_effect base ?n (placed ops 0) m m2"
    using run_ops_at [OF sbuf_init_at [of base ?n 0] assms(1), of m] assms(5,6) room n by auto
  have needed2: "sbuf_needed b2 = int ?n" using assms(2) by (intro sbuf_needed_at [OF at2]) simp
  have left2: "sbuf_left b2 = 0" using at2 by (simp add: sbuf_at_def sbuf_left_def int32_id)
  have written: "c + i < ?n \<and> m2 (base + of_nat (c + i)) = m (src + of_nat i)"
    if "(c, src, len) \<in> set (placed ops 0)" "i < len" for c src len i
  proof -
    have "c + i < ?n" using placed_le [OF assms(1) that(1)] that(2) by simp
    then show ?thesis using p2 that unfolding pass_effect_def by blast
  qed
  have "m2 a = m a" if "\<forall>k < ?n. a \<noteq> base + of_nat k" for a
  proof -
    have "\<not> covers base ?n (placed ops 0) a" using that by (auto simp: covers_def)
    then show ?thesis using p2 by (simp add: pass_effect_def)
  qed
  with written m1 needed2 left2 n show ?thesis by auto
qed

theorem sbuf_two_passes_witness:
  "let ops = [Write 100 3, Align 8, Write 200 2];
       m = (\<lambda>a. if a = 102 then CHR ''x'' else if a = 201 then CHR ''y'' else CHR ''.'')
   in sbuf_needed (fst (run_ops ops (sbuf_init 0 0 0, m))) = 10 \<and>
      snd (run_ops ops (sbuf_init 0 4096 10, m)) (4096 + of_nat (8 + 1)) = CHR ''y''"
proof -
  let ?ops = "[Write 100 3, Align 8, Write 200 2]"
  let ?m = "\<lambda>a :: uptr. if a = 102 then CHR ''x'' else if a = 201 then CHR ''y'' else CHR ''.''"
  obtain b1 m1 where 1: "run_ops ?ops (sbuf_init 0 0 0, ?m) = (b1, m1)" by (cases "run_ops ?ops (sbuf_init 0 0 0, ?m)")
  have n: "sbuf_needed b1 = 10"
  proof -
    have "fst (run_ops ?ops (sbuf_init 0 0 0, ?m)) = b1" using 1 by simp
    moreover have "sbuf_needed (fst (run_ops ?ops (sbuf_init 0 0 0, ?m))) = 10"
      by code_simp
    ultimately show ?thesis by simp
  qed
  obtain b2 m2 where 2: "run_ops ?ops (sbuf_init 0 4096 10, ?m) = (b2, m2)"
    by (cases "run_ops ?ops (sbuf_init 0 4096 10, ?m)")
  have ok: "ops_ok ?ops 0" by (auto intro!: exI [of _ 3])
  have end1: "ops_end ?ops 0 \<le> 2147483647" by simp
  have un: "\<forall>(c, src, len) \<in> set (placed ?ops 0). untouched 4096 10 src len"
    by (auto intro!: untouchedI)
  have "\<forall>i < 2. m2 (4096 + of_nat (8 + i)) = ?m (200 + of_nat i)"
    using sbuf_two_passes [OF ok end1 1, of 4096 ?m b2 m2] n 2 un by auto
  then have "m2 (4096 + of_nat (8 + 1)) = ?m (200 + of_nat 1)" by (elim allE [of _ 1]) simp
  then show ?thesis using n 1 2 by simp
qed

text \<open>\<^bold>\<open>The greedy repetition terminates and takes the longest run\<close>. On a buffer over a text,
  \<^verbatim>\<open>sbuf_many1\<close> with a one-character parser returns; it succeeds exactly if the next character is
  accepted, and has then taken the longest run of accepted characters; otherwise it has taken
  nothing.\<close>

theorem sbuf_many1_takeWhile:
  assumes "reads_text m base s b i"
  shows "\<exists>b'. sbuf_many1 (sbuf_notchars m cs) b = Some (takeWhile (\<lambda>c. c \<notin> set cs) (drop i s) \<noteq> [], b') \<and>
    reads_text m base s b' (i + length (takeWhile (\<lambda>c. c \<notin> set cs) (drop i s)))"
proof (cases "takeWhile (\<lambda>c. c \<notin> set cs) (drop i s) = []")
  case True
  then show ?thesis using sb_notchars.many1_fails [OF assms] assms by simp
next
  case False
  then show ?thesis using sb_notchars.many1_takes [OF assms] by simp
qed

theorem sbuf_many1_takeWhile_witness:
  "\<exists>b'. sbuf_many1 (sbuf_notchars (\<lambda>a. if a = 66 then CHR ''&'' else CHR ''v'') ''&='')
      (sbuf_parser_init 64 3) = Some (True, b') \<and> sbuf_cur b' = 66"
proof -
  let ?m = "\<lambda>a :: uptr. if a = 66 then CHR ''&'' else CHR ''v''"
  have "reads_text ?m 64 ''vv&'' (sbuf_parser_init 64 (int (length ''vv&''))) 0"
    by (rule reads_text_init) (auto simp: less_Suc_eq nth_Cons')
  from sbuf_many1_takeWhile [OF this, of "''&=''"] show ?thesis
    by (auto dest: reads_text_cur)
qed

text \<open>\<^bold>\<open>Parsing up to a delimiter\<close>. \<^verbatim>\<open>sbuf_until\<close> with one-character parsers returns. If it succeeds it
  stands behind the first character that stops it, and every character before that one was
  accepted; if it fails, it stands before a character that is not accepted, or at the end, and no
  character up to there stops it.\<close>

theorem sbuf_until_first:
  assumes "reads_text m base s b i"
  shows "\<exists>ok b' j. sbuf_until (sbuf_notchars m cs) (sbuf_chars m ds) b = Some (ok, b') \<and> reads_text m base s b' j \<and>
    (ok \<longrightarrow> i < j \<and> s ! (j - 1) \<in> set ds \<and> (\<forall>k. i \<le> k \<and> k < j - 1 \<longrightarrow> s ! k \<notin> set cs \<and> s ! k \<notin> set ds)) \<and>
    (\<not> ok \<longrightarrow> i \<le> j \<and> (j < length s \<longrightarrow> s ! j \<in> set cs) \<and>
       (\<forall>k. i \<le> k \<and> k \<le> j \<and> k < length s \<longrightarrow> s ! k \<notin> set ds))"
  using sb_until.until_returns [OF assms, of cs ds] by simp

theorem sbuf_until_first_witness:
  "\<exists>ok b' j. sbuf_until (sbuf_notchars (\<lambda>a. if a = 66 then CHR ''?'' else CHR ''v'') [])
      (sbuf_chars (\<lambda>a. if a = 66 then CHR ''?'' else CHR ''v'') ''?'') (sbuf_parser_init 64 3) = Some (ok, b') \<and>
      (ok \<longrightarrow> 0 < (j::nat))"
proof -
  let ?m = "\<lambda>a :: uptr. if a = 66 then CHR ''?'' else CHR ''v''"
  have "reads_text ?m 64 ''vv?'' (sbuf_parser_init 64 (int (length ''vv?''))) 0"
    by (rule reads_text_init) (auto simp: less_Suc_eq nth_Cons')
  from sbuf_until_first [OF this, of "[]" "''?''"] show ?thesis by auto
qed

end
