(* ===== verification/ModUri.thy ===== *)
theory ModUri
  imports Sbuf
begin

text \<open>
  The module URIs of \<^verbatim>\<open>src/mod_table.c\<close>: \<^verbatim>\<open>parse_uri\<close> takes a URI of the form
  \<^verbatim>\<open>file:///librhtest_skel.so?rhtest_skel_handle_invoke&_modver=1.0\<close> apart. The model runs the
  parsers of \<^verbatim>\<open>sbuf_parser.h\<close> on the memory that holds the URI and leaves pointers and lengths, as
  the source does. The reference \<open>uri_parts\<close> works on the text itself; the two are proved equal.
\<close>

section \<open>Operations\<close>

record parsed_uri =
  pu_file :: uptr
  pu_sym :: uptr
  pu_ver :: uptr
  pu_filelen :: int
  pu_symlen :: int
  pu_verlen :: int

definition no_parsed_uri :: parsed_uri where
  "no_parsed_uri = \<lparr>pu_file = 0, pu_sym = 0, pu_ver = 0, pu_filelen = 0, pu_symlen = 0, pu_verlen = 0\<rparr>"

definition notqmark :: "cmem \<Rightarrow> parser" where
  "notqmark m = sbuf_notchar m (CHR ''?'')"

definition notandoreq :: "cmem \<Rightarrow> parser" where
  "notandoreq m = sbuf_notchars m ''&=''"

definition notand :: "cmem \<Rightarrow> parser" where
  "notand m = sbuf_notchar m (CHR ''&'')"

text \<open>\<^verbatim>\<open>!strncmp(p, str, n)\<close> for a string \<open>str\<close> given by its characters, none of them zero.\<close>

fun strncmp_same :: "cmem \<Rightarrow> uptr \<Rightarrow> string \<Rightarrow> nat \<Rightarrow> bool" where
  "strncmp_same m p str 0 \<longleftrightarrow> True"
| "strncmp_same m p [] (Suc n) \<longleftrightarrow> m p = CHR 0x00"
| "strncmp_same m p (c # cs) (Suc n) \<longleftrightarrow> m p = c \<and> strncmp_same m (p + 1) cs n"

text \<open>The value of a query, if it has one: the value pointer and length, or the error of
  \<^verbatim>\<open>VERIFY(sbuf_many1(&buf, notand))\<close>.\<close>

definition query_value :: "cmem \<Rightarrow> sbuf \<Rightarrow> (bool \<times> uptr \<times> int \<times> sbuf) option" where
  "query_value m b =
     (case sbuf_char m (CHR ''='') b of (eq, b) \<Rightarrow>
        if \<not> eq then Some (True, 0, 0, b)
        else (let value = sbuf_cur b
              in case sbuf_many1 (notand m) b of
                   None \<Rightarrow> None
                 | Some (ok, b) \<Rightarrow>
                     Some (ok, value, if ok then int32 (pdiff (sbuf_cur b) value) else 0, b)))"

partial_function (option) query_loop :: "cmem \<Rightarrow> sbuf \<Rightarrow> parsed_uri \<Rightarrow> (int \<times> parsed_uri) option" where
  "query_loop m b out =
     (if sbuf_end b then Some (AEE_SUCCESS, out)
      else (let name = sbuf_cur b
            in case sbuf_many1 (notandoreq m) b of
                 None \<Rightarrow> None
               | Some (ok, b) \<Rightarrow>
                   if \<not> ok then Some (-1, out)
                   else (let nameLen = int32 (pdiff (sbuf_cur b) name)
                         in case query_value m b of
                              None \<Rightarrow> None
                            | Some (ok, value, valueLen, b) \<Rightarrow>
                                if \<not> ok then Some (-1, out)
                                else query_loop m (snd (sbuf_char m (CHR ''&'') b))
                                       (if strncmp_same m name ''_modver'' (nat nameLen)
                                        then out\<lparr>pu_ver := value, pu_verlen := valueLen\<rparr> else out))))"

text \<open>The part of \<^verbatim>\<open>parse_uri\<close> behind the question mark.\<close>

definition parse_uri_sym :: "cmem \<Rightarrow> sbuf \<Rightarrow> parsed_uri \<Rightarrow> (int \<times> parsed_uri) option" where
  "parse_uri_sym m b out =
     (let out = out\<lparr>pu_sym := sbuf_cur b\<rparr>
      in case sbuf_many1 (notand m) b of
           None \<Rightarrow> None
         | Some (ok, b) \<Rightarrow>
             if \<not> ok then Some (-1, out)
             else (let out = out\<lparr>pu_symlen := int32 (pdiff (sbuf_cur b) (pu_sym out))\<rparr>
                   in if sbuf_end b then Some (AEE_SUCCESS, out)
                      else (case sbuf_char m (CHR ''&'') b of (amp, b) \<Rightarrow>
                              if amp then query_loop m b out else Some (AEE_SUCCESS, out))))"

definition parse_uri :: "cmem \<Rightarrow> uptr \<Rightarrow> int \<Rightarrow> (int \<times> parsed_uri) option" where
  "parse_uri m uri urilen =
     (let out = no_parsed_uri;
          (ok, b) = sbuf_string m ''file://'' (sbuf_parser_init uri urilen)
      in if \<not> ok then Some (AEE_EBADPARM, out)
         else (let b = snd (sbuf_string m ''/'' b);
                   out = out\<lparr>pu_file := sbuf_cur b\<rparr>
               in case sbuf_many1 (notqmark m) b of
                    None \<Rightarrow> None
                  | Some (ok, b) \<Rightarrow>
                      if \<not> ok then Some (-1, out)
                      else (let out = out\<lparr>pu_filelen := int32 (pdiff (sbuf_cur b) (pu_file out))\<rparr>;
                                (ok, b) = sbuf_char m (CHR ''?'') b
                            in if \<not> ok then Some (-1, out) else parse_uri_sym m b out)))"

section \<open>Reference\<close>

text \<open>The parts as texts; a part that is absent is empty.\<close>

record uri_texts =
  ut_file :: string
  ut_sym :: string
  ut_ver :: string

definition text_at :: "cmem \<Rightarrow> uptr \<Rightarrow> int \<Rightarrow> string" where
  "text_at m p n = map (\<lambda>i. m (p + of_nat i)) [0..<nat n]"

definition texts_of :: "cmem \<Rightarrow> parsed_uri \<Rightarrow> uri_texts" where
  "texts_of m v =
     \<lparr>ut_file = text_at m (pu_file v) (pu_filelen v),
      ut_sym = text_at m (pu_sym v) (pu_symlen v),
      ut_ver = text_at m (pu_ver v) (pu_verlen v)\<rparr>"

text \<open>A query name counts as \<^verbatim>\<open>_modver\<close> if it is a prefix of it, since \<^verbatim>\<open>strncmp\<close> is given the
  length of the name.\<close>

function uri_queries :: "string \<Rightarrow> string \<Rightarrow> int \<times> string" where
  "uri_queries q ver =
     (if q = [] then (0, ver)
      else (let name = takeWhile (\<lambda>c. c \<notin> set ''&='') q;
                r = dropWhile (\<lambda>c. c \<notin> set ''&='') q;
                isver = (take (length name) ''_modver'' = name)
            in if name = [] then (-1, ver)
               else if r \<noteq> [] \<and> hd r = CHR ''=''
               then (let value = takeWhile (\<lambda>c. c \<noteq> CHR ''&'') (tl r)
                     in if value = [] then (-1, ver)
                        else uri_queries (tl (dropWhile (\<lambda>c. c \<noteq> CHR ''&'') (tl r))) (if isver then value else ver))
               else uri_queries (tl r) (if isver then [] else ver)))"
  by pat_completeness auto

lemma length_tl_dropWhile: "xs \<noteq> [] \<Longrightarrow> length (tl (dropWhile P xs)) < length xs"
  by (metis length_dropWhile_le length_greater_0_conv length_tl diff_less dropWhile.simps(1) le_less_trans
      less_imp_diff_less order_le_less tl_Nil list.size(3) zero_less_one)

termination uri_queries
proof (relation "measure (\<lambda>(q, ver). length q)")
  show "wf (measure (\<lambda>(q, ver). length q))" by simp
next
  fix q ver name r isver val
  assume q: "q \<noteq> []" "r = dropWhile (\<lambda>c. c \<notin> set ''&='') q"
  have "length (tl (dropWhile (\<lambda>c. c \<noteq> CHR ''&'') (tl r))) \<le> length (tl r)"
    using length_dropWhile_le [of "\<lambda>c. c \<noteq> CHR ''&''" "tl r"] by simp
  also have "\<dots> < length q" using length_tl_dropWhile q by simp
  finally show "((tl (dropWhile (\<lambda>c. c \<noteq> CHR ''&'') (tl r)), if isver then val else ver), q, ver)
    \<in> measure (\<lambda>(q, ver). length q)" by simp
next
  fix q ver name r isver
  assume "q \<noteq> []" "r = dropWhile (\<lambda>c. c \<notin> set ''&='') q"
  then show "((tl r, if isver then [] else ver), q, ver) \<in> measure (\<lambda>(q, ver). length q)"
    using length_tl_dropWhile by simp
qed

declare uri_queries.simps [simp del]

definition strip_slash :: "string \<Rightarrow> string" where
  "strip_slash s = (if s \<noteq> [] \<and> hd s = CHR ''/'' then tl s else s)"

definition uri_parts :: "string \<Rightarrow> int \<times> uri_texts" where
  "uri_parts uri =
     (if take 7 uri \<noteq> ''file://'' then (AEE_EBADPARM, \<lparr>ut_file = [], ut_sym = [], ut_ver = []\<rparr>)
      else (let r = strip_slash (drop 7 uri);
                file = takeWhile (\<lambda>c. c \<noteq> CHR ''?'') r;
                q = dropWhile (\<lambda>c. c \<noteq> CHR ''?'') r
            in if file = [] \<or> q = [] then (-1, \<lparr>ut_file = file, ut_sym = [], ut_ver = []\<rparr>)
               else (let sym = takeWhile (\<lambda>c. c \<noteq> CHR ''&'') (tl q);
                         (e, ver) = (if sym = [] then (-1, [])
                                     else uri_queries (tl (dropWhile (\<lambda>c. c \<noteq> CHR ''&'') (tl q))) [])
                     in (e, \<lparr>ut_file = file, ut_sym = sym, ut_ver = ver\<rparr>))))"

section \<open>The parsers on a text\<close>

interpretation mu_notqmark: char_consumer m "notqmark m" "\<lambda>c. c \<noteq> CHR ''?''" for m
  by unfold_locales (simp add: notqmark_def sbuf_notchar_def reads_text_notchars)

interpretation mu_notandoreq: char_consumer m "notandoreq m" "\<lambda>c. c \<notin> set ''&=''" for m
  by unfold_locales (simp add: notandoreq_def reads_text_notchars)

interpretation mu_notand: char_consumer m "notand m" "\<lambda>c. c \<noteq> CHR ''&''" for m
  by unfold_locales (simp add: notand_def sbuf_notchar_def reads_text_notchars)

lemma reads_text_len:
  assumes "reads_text m base s b i" and "reads_text m base s b' j" and "i \<le> j"
  shows "int32 (pdiff (sbuf_cur b') (sbuf_cur b)) = int j - int i"
proof -
  have "sbuf_cur b' - sbuf_cur b = of_nat (j - i)"
    using assms by (simp add: reads_text_cur of_nat_diff)
  moreover have le: "int (j - i) \<le> INT_MAX" using assms(2) by (auto simp: reads_text_def)
  then have "sint (of_nat (j - i) :: uptr) = int (j - i)"
    by (simp add: signed_of_nat signed_take_bit_int_eq_self del: of_nat_diff)
  ultimately show ?thesis using le assms(3) by (simp add: pdiff_def int32_id)
qed

lemma reads_text_at:
  assumes "reads_text m base s b i" and "j + n \<le> length s"
  shows "text_at m (base + of_nat j) (int n) = take n (drop j s)"
  using assms by (intro nth_equalityI) (auto simp: text_at_def reads_text_def add.assoc
      simp flip: of_nat_add)

lemma strncmp_text:
  assumes "reads_text m base s b i" and "j + n \<le> length s" and "CHR 0x00 \<notin> set s"
  shows "strncmp_same m (base + of_nat j) str n \<longleftrightarrow> take n str = take n (drop j s)"
  using assms(2)
proof (induction n arbitrary: j str)
  case 0
  then show ?case by simp
next
  case (Suc n)
  have mj: "m (base + of_nat j) = s ! j" using assms(1) Suc.prems by (simp add: reads_text_def)
  have d: "drop j s = s ! j # drop (Suc j) s" using Suc.prems by (simp add: Cons_nth_drop_Suc)
  have "s ! j \<in> set s" using Suc.prems by simp
  then have nz: "s ! j \<noteq> CHR 0x00" using assms(3) by auto
  have nxt: "base + of_nat j + 1 = base + of_nat (Suc j)" by simp
  show ?case
  proof (cases str)
    case Nil
    then show ?thesis using mj nz d by simp
  next
    case (Cons c cs)
    then show ?thesis using mj d Suc.IH [of "Suc j" cs] Suc.prems unfolding Cons strncmp_same.simps nxt by auto
  qed
qed

lemma amp_step:
  assumes "reads_text m base s b k" and "k < length s \<longrightarrow> s ! k = CHR ''&''"
  shows "\<exists>k'. reads_text m base s (snd (sbuf_char m (CHR ''&'') b)) k' \<and> drop k' s = tl (drop k s) \<and> k \<le> k'"
proof (cases "k < length s")
  case True
  then show ?thesis
    using assms reads_text_step [OF assms(1)]
    by (auto simp: reads_text_char drop_Suc tl_drop intro!: exI [of _ "Suc k"])
next
  case False
  then show ?thesis
    using assms by (auto simp: reads_text_char intro!: exI [of _ k])
qed

lemma run_stops:
  assumes "j = i + length (takeWhile P (drop i s))" and "j < length s"
  shows "\<not> P (s ! j)"
  using assms nth_length_takeWhile [of P "drop i s"] by simp

lemma query_value_text:
  assumes r: "reads_text m base s b j"
    and stop: "j < length s \<longrightarrow> s ! j \<in> set ''&=''"
  shows "if j < length s \<and> s ! j = CHR ''=''
    then (let val = takeWhile (\<lambda>c. c \<noteq> CHR ''&'') (drop (Suc j) s)
          in \<exists>b'. query_value m b = Some (val \<noteq> [], base + of_nat (Suc j), int (length val), b') \<and>
               (val \<noteq> [] \<longrightarrow> reads_text m base s b' (Suc j + length val)))
    else query_value m b = Some (True, 0, 0, b)"
proof (cases "j < length s \<and> s ! j = CHR ''=''")
  case False
  then show ?thesis by (auto simp: query_value_def reads_text_char [OF r])
next
  case True
  let ?val = "takeWhile (\<lambda>c. c \<noteq> CHR ''&'') (drop (Suc j) s)"
  have b1: "reads_text m base s (sbuf_advance b 1) (Suc j)"
    using reads_text_step [OF r] True by simp
  have ch: "sbuf_char m (CHR ''='') b = (True, sbuf_advance b 1)"
    using True by (simp add: reads_text_char [OF r])
  show ?thesis
  proof (cases "?val = []")
    case True
    then show ?thesis
      using mu_notand.many1_fails [OF b1] \<open>j < length s \<and> _\<close> ch
      by (simp add: query_value_def reads_text_cur [OF b1])
  next
    case False
    from mu_notand.many1_takes [OF b1 this] obtain b' where
      b': "sbuf_many1 (notand m) (sbuf_advance b 1) = Some (True, b')" "reads_text m base s b' (Suc j + length ?val)"
      by blast
    then show ?thesis
      using reads_text_len [OF b1 b'(2)] False \<open>j < length s \<and> _\<close> ch
      by (simp add: query_value_def Let_def reads_text_cur [OF b1])
  qed
qed

text \<open>One turn of the loop, from the \<open>i\<close>-th character: either it ends with an error, or it goes on
  behind the query as the reference does.\<close>

definition query_turn :: "cmem \<Rightarrow> uptr \<Rightarrow> string \<Rightarrow> sbuf \<Rightarrow> nat \<Rightarrow> bool" where
  "query_turn m base s b i \<longleftrightarrow>
     (\<forall>out ver. query_loop m b out = Some (-1, out) \<and> uri_queries (drop i s) ver = (-1, ver)) \<or>
     (\<exists>b' k p n isver. reads_text m base s b' k \<and> i < k \<and>
        (\<forall>out. query_loop m b out =
           query_loop m b' (if isver then out\<lparr>pu_ver := p, pu_verlen := n\<rparr> else out)) \<and>
        (\<forall>ver. uri_queries (drop i s) ver = uri_queries (drop k s) (if isver then text_at m p n else ver)))"

lemma query_turn_next:
  assumes r: "reads_text m base s b i" and nz: "CHR 0x00 \<notin> set s" and i: "i < length s"
    and name: "name = takeWhile (\<lambda>c. c \<notin> set ''&='') (drop i s)"
    and b1: "sbuf_many1 (notandoreq m) b = Some (True, b1)" "reads_text m base s b1 (i + length name)"
    and q: "query_value m b1 = Some (True, p, n, b2)" and b2: "reads_text m base s b2 k" and k: "i < k"
    and amp: "k < length s \<longrightarrow> s ! k = CHR ''&''"
    and u: "\<And>ver. uri_queries (drop i s) ver = uri_queries (tl (drop k s))
              (if take (length name) ''_modver'' = name then text_at m p n else ver)"
  shows "query_turn m base s b i"
proof -
  have len: "nat (int32 (pdiff (sbuf_cur b1) (sbuf_cur b))) = length name"
    using reads_text_len [OF r b1(2)] by simp
  have "i + length name \<le> length s" using b1(2) by (simp add: reads_text_def)
  then have isver: "strncmp_same m (sbuf_cur b) ''_modver'' (length name) \<longleftrightarrow> take (length name) ''_modver'' = name"
    using strncmp_text [OF r _ nz] unfolding reads_text_cur [OF r]
    by (simp add: name takeWhile_eq_take [symmetric])
  obtain k' where k': "reads_text m base s (snd (sbuf_char m (CHR ''&'') b2)) k'"
      "drop k' s = tl (drop k s)" "k \<le> k'"
    using amp_step [OF b2 amp] by blast
  have "query_loop m b out = query_loop m (snd (sbuf_char m (CHR ''&'') b2))
      (if take (length name) ''_modver'' = name then out\<lparr>pu_ver := p, pu_verlen := n\<rparr> else out)" for out
    using b1 q i reads_text_end [OF r] by (subst query_loop.simps) (simp add: Let_def len isver)
  moreover have "uri_queries (drop i s) ver =
      uri_queries (drop k' s) (if take (length name) ''_modver'' = name then text_at m p n else ver)" for ver
    using u k'(2) by simp
  ultimately show ?thesis
    using k'(1) order_less_le_trans [OF k k'(3)] unfolding query_turn_def by blast
qed

lemma query_turn_text:
  assumes r: "reads_text m base s b i" and nz: "CHR 0x00 \<notin> set s" and i: "i < length s"
  shows "query_turn m base s b i"
proof (cases "takeWhile (\<lambda>c. c \<notin> set ''&='') (drop i s) = []")
  case True
  then have "query_loop m b out = Some (-1, out)" "uri_queries (drop i s) ver = (-1, ver)" for out ver
    using mu_notandoreq.many1_fails [OF r] i reads_text_end [OF r]
    by (subst query_loop.simps, simp, subst uri_queries.simps, simp)
  then show ?thesis by (simp add: query_turn_def)
next
  case False
  define name where "name = takeWhile (\<lambda>c. c \<notin> set ''&='') (drop i s)"
  define j where "j = i + length name"
  have ne: "name \<noteq> []" "drop i s \<noteq> []" using False i by (auto simp: name_def)
  obtain b1 where b1: "sbuf_many1 (notandoreq m) b = Some (True, b1)" "reads_text m base s b1 j"
    using mu_notandoreq.many1_takes [OF r False] unfolding name_def j_def by blast
  have stop: "j < length s \<longrightarrow> s ! j \<in> set ''&=''"
    using run_stops [OF refl] unfolding name_def j_def by blast
  have dr: "dropWhile (\<lambda>c. c \<notin> set ''&='') (drop i s) = drop j s"
    by (simp add: dropWhile_eq_drop name_def j_def add.commute)
  have hd_r: "drop j s \<noteq> [] \<and> hd (drop j s) = CHR ''='' \<longleftrightarrow> j < length s \<and> s ! j = CHR ''=''"
    by (auto simp: hd_drop_conv_nth)
  have tl_r: "tl (drop j s) = drop (Suc j) s" by (simp add: drop_Suc tl_drop)
  note ref = uri_queries.simps [of "drop i s", folded name_def, unfolded Let_def dr hd_r tl_r]
  note nxt = query_turn_next [OF r nz i name_def b1(1) b1(2) [unfolded j_def]]
  show ?thesis
  proof (cases "j < length s \<and> s ! j = CHR ''=''")
    case eq: True
    define val where "val = takeWhile (\<lambda>c. c \<noteq> CHR ''&'') (drop (Suc j) s)"
    obtain b2 where b2: "query_value m b1 = Some (val \<noteq> [], base + of_nat (Suc j), int (length val), b2)"
        "val \<noteq> [] \<longrightarrow> reads_text m base s b2 (Suc j + length val)"
      using query_value_text [OF b1(2) stop] eq by (auto simp: Let_def val_def)
    show ?thesis
    proof (cases "val = []")
      case True
      have "query_loop m b out = Some (-1, out)" "uri_queries (drop i s) ver = (-1, ver)" for out ver
        using ne eq True b1(1) b2(1) i reads_text_end [OF r]
        by (subst query_loop.simps, simp add: Let_def, subst ref, simp add: val_def)
      then show ?thesis by (simp add: query_turn_def)
    next
      case False
      then have k: "reads_text m base s b2 (Suc j + length val)" using b2(2) by blast
      have vt: "text_at m (base + of_nat (Suc j)) (int (length val)) = val"
        using reads_text_at [OF k, of "Suc j" "length val"] k
        by (simp add: reads_text_def val_def takeWhile_eq_take [symmetric])
      have "dropWhile (\<lambda>c. c \<noteq> CHR ''&'') (drop (Suc j) s) = drop (Suc j + length val) s"
        by (simp add: dropWhile_eq_drop val_def add.commute)
      then have u: "uri_queries (drop i s) ver = uri_queries (tl (drop (Suc j + length val) s))
          (if take (length name) ''_modver'' = name
           then text_at m (base + of_nat (Suc j)) (int (length val)) else ver)" for ver
        using ne eq False by (subst ref, subst vt) (simp add: val_def [symmetric])
      show ?thesis
      proof (rule nxt [OF _ k _ _ u])
        show "query_value m b1 = Some (True, base + of_nat (Suc j), int (length val), b2)"
          using b2(1) False by simp
        show "Suc j + length val < length s \<longrightarrow> s ! (Suc j + length val) = CHR ''&''"
          using run_stops [OF refl, of "Suc j" "\<lambda>c. c \<noteq> CHR ''&''" s] unfolding val_def by blast
      qed (simp add: j_def)
    qed
  next
    case noeq: False
    have "query_value m b1 = Some (True, 0, 0, b1)" using query_value_text [OF b1(2) stop] noeq by auto
    moreover have "uri_queries (drop i s) ver = uri_queries (tl (drop j s))
            (if take (length name) ''_modver'' = name then [] else ver)" for ver
      using ne noeq by (subst ref) (auto simp: tl_r)
    moreover have "j < length s \<longrightarrow> s ! j = CHR ''&''" using stop noeq by auto
    ultimately show ?thesis
      using b1(2) ne by (intro nxt [of 0 0 b1 j]) (simp_all add: text_at_def j_def)
  qed
qed

lemma query_loop_text:
  assumes "reads_text m base s b i" and nz: "CHR 0x00 \<notin> set s"
  shows "\<exists>e v. query_loop m b out = Some (e, v) \<and>
    v = out\<lparr>pu_ver := pu_ver v, pu_verlen := pu_verlen v\<rparr> \<and>
    uri_queries (drop i s) (text_at m (pu_ver out) (pu_verlen out)) = (e, text_at m (pu_ver v) (pu_verlen v))"
  using assms(1)
proof (induction "length s - i" arbitrary: b i out rule: less_induct)
  case less
  note r = less.prems
  have il: "i \<le> length s" using r by (simp add: reads_text_def)
  show ?case
  proof (cases "i = length s")
    case True
    then show ?thesis
      using reads_text_end [OF r] by (subst query_loop.simps, subst uri_queries.simps) simp
  next
    case False
    with il have i: "i < length s" by simp
    show ?thesis
      using query_turn_text [OF r nz i] unfolding query_turn_def
    proof (elim disjE exE conjE)
      fix b' k p n isver
      assume k: "reads_text m base s b' k" "i < k"
        and q: "\<forall>out. query_loop m b out = query_loop m b' (if isver then out\<lparr>pu_ver := p, pu_verlen := n\<rparr> else out)"
        and u: "\<forall>ver. uri_queries (drop i s) ver = uri_queries (drop k s) (if isver then text_at m p n else ver)"
      have "length s - k < length s - i" using k(2) i by linarith
      from less.hyps [OF this k(1), of "if isver then out\<lparr>pu_ver := p, pu_verlen := n\<rparr> else out"]
      show ?thesis using q u by (cases isver) auto
    qed auto
  qed
qed

lemma strip_slash_text:
  assumes "reads_text m base s b i"
  shows "\<exists>j. reads_text m base s (snd (sbuf_string m ''/'' b)) j \<and> drop j s = strip_slash (drop i s)"
proof (cases "i < length s \<and> s ! i = CHR ''/''")
  case True
  then have "strip_slash (drop i s) = drop (Suc i) s"
    by (simp add: strip_slash_def hd_drop_conv_nth drop_Suc tl_drop)
  then show ?thesis
    using reads_text_step [OF assms] True by (auto simp: reads_text_char [OF assms] intro!: exI [of _ "Suc i"])
next
  case False
  then have "strip_slash (drop i s) = drop i s"
    by (auto simp: strip_slash_def hd_drop_conv_nth)
  then show ?thesis using False assms by (auto simp: reads_text_char [OF assms] intro!: exI [of _ i])
qed

text \<open>What \<^verbatim>\<open>parse_uri\<close> does from the symbol on, and from the file on.\<close>

lemma parse_query_text:
  assumes r: "reads_text m base s b j" and nz: "CHR 0x00 \<notin> set s"
    and amp: "j < length s \<longrightarrow> s ! j = CHR ''&''"
  shows "\<exists>e v. (if sbuf_end b then Some (AEE_SUCCESS, out)
       else (case sbuf_char m (CHR ''&'') b of (amp, b) \<Rightarrow>
               if amp then query_loop m b out else Some (AEE_SUCCESS, out))) = Some (e, v) \<and>
     v = out\<lparr>pu_ver := pu_ver v, pu_verlen := pu_verlen v\<rparr> \<and>
     uri_queries (drop (Suc j) s) (text_at m (pu_ver out) (pu_verlen out)) =
       (e, text_at m (pu_ver v) (pu_verlen v))"
proof (cases "j = length s")
  case True
  then show ?thesis using reads_text_end [OF r] by (subst uri_queries.simps) simp
next
  case False
  then have "j < length s" using r by (simp add: reads_text_def)
  then show ?thesis
    using query_loop_text [OF reads_text_step [OF r] nz, of out] amp reads_text_end [OF r]
    by (auto simp: reads_text_char [OF r])
qed

lemma parse_uri_sym_text:
  assumes r: "reads_text m base s b i" and nz: "CHR 0x00 \<notin> set s"
    and sy: "sy = takeWhile (\<lambda>c. c \<noteq> CHR ''&'') (drop i s)"
    and out: "pu_symlen out = 0" "pu_verlen out = 0"
  shows "\<exists>e v. parse_uri_sym m b out = Some (e, v) \<and>
    pu_file v = pu_file out \<and> pu_filelen v = pu_filelen out \<and> text_at m (pu_sym v) (pu_symlen v) = sy \<and>
    (e, text_at m (pu_ver v) (pu_verlen v)) =
      (if sy = [] then (-1, []) else uri_queries (tl (dropWhile (\<lambda>c. c \<noteq> CHR ''&'') (drop i s))) [])"
proof (cases "sy = []")
  case True
  then show ?thesis
    using mu_notand.many1_fails [OF r] out sy by (simp add: parse_uri_sym_def Let_def text_at_def)
next
  case False
  define j where "j = i + length sy"
  obtain b' where b': "sbuf_many1 (notand m) b = Some (True, b')" "reads_text m base s b' j"
    using mu_notand.many1_takes [OF r] sy False unfolding j_def by blast
  have jl: "i + length sy \<le> length s" using b'(2) by (simp add: reads_text_def j_def)
  have dr: "tl (dropWhile (\<lambda>c. c \<noteq> CHR ''&'') (drop i s)) = drop (Suc j) s"
    by (simp add: dropWhile_eq_drop sy [symmetric] j_def drop_Suc tl_drop add.commute)
  have amp: "j < length s \<longrightarrow> s ! j = CHR ''&''"
    using run_stops [OF refl, of i "\<lambda>c. c \<noteq> CHR ''&''" s] unfolding sy j_def by blast
  have st: "text_at m (sbuf_cur b) (int (length sy)) = sy"
    using reads_text_at [OF r jl] by (simp add: reads_text_cur [OF r] sy takeWhile_eq_take [symmetric])
  have len: "int32 (pdiff (sbuf_cur b') (sbuf_cur b)) = int (length sy)"
    using reads_text_len [OF r b'(2)] by (simp add: j_def)
  obtain e v where "parse_uri_sym m b out = Some (e, v)"
    and v: "v = out\<lparr>pu_sym := sbuf_cur b, pu_symlen := int (length sy), pu_ver := pu_ver v, pu_verlen := pu_verlen v\<rparr>"
    and "uri_queries (drop (Suc j) s) [] = (e, text_at m (pu_ver v) (pu_verlen v))"
    using parse_query_text [OF b'(2) nz amp, of "out\<lparr>pu_sym := sbuf_cur b, pu_symlen := int (length sy)\<rparr>"] out
    by (auto simp: parse_uri_sym_def b'(1) len text_at_def [of _ _ 0])
  moreover have "pu_sym v = sbuf_cur b" "pu_symlen v = int (length sy)" "pu_file v = pu_file out"
      "pu_filelen v = pu_filelen out"
    by (subst v, simp)+
  ultimately show ?thesis using False st dr by simp
qed

lemma parse_file_text:
  assumes r: "reads_text m base s b i" and nz: "CHR 0x00 \<notin> set s"
    and fl: "fl = takeWhile (\<lambda>c. c \<noteq> CHR ''?'') (drop i s)" "fl \<noteq> []"
  shows "\<exists>b'. sbuf_many1 (notqmark m) b = Some (True, b') \<and> int32 (pdiff (sbuf_cur b') (sbuf_cur b)) = int (length fl) \<and>
    text_at m (sbuf_cur b) (int (length fl)) = fl \<and>
    (if dropWhile (\<lambda>c. c \<noteq> CHR ''?'') (drop i s) = [] then \<not> fst (sbuf_char m (CHR ''?'') b')
     else \<exists>b''. sbuf_char m (CHR ''?'') b' = (True, b'') \<and> (\<exists>j. reads_text m base s b'' j \<and>
           drop j s = tl (dropWhile (\<lambda>c. c \<noteq> CHR ''?'') (drop i s))))"
proof -
  define j where "j = i + length fl"
  obtain b' where b': "sbuf_many1 (notqmark m) b = Some (True, b')" "reads_text m base s b' j"
    using mu_notqmark.many1_takes [OF r] fl unfolding j_def by blast
  have jl: "j \<le> length s" using b'(2) by (simp add: reads_text_def)
  have dr: "dropWhile (\<lambda>c. c \<noteq> CHR ''?'') (drop i s) = drop j s"
    by (simp add: dropWhile_eq_drop fl(1) [symmetric] j_def add.commute)
  have q: "j < length s \<longrightarrow> s ! j = CHR ''?''"
    using run_stops [OF refl, of i "\<lambda>c. c \<noteq> CHR ''?''" s] unfolding fl(1) j_def by blast
  have "text_at m (sbuf_cur b) (int (length fl)) = fl"
    using reads_text_at [OF r, of i "length fl"] jl
    by (simp add: reads_text_cur [OF r] j_def fl(1) takeWhile_eq_take [symmetric])
  moreover have "int32 (pdiff (sbuf_cur b') (sbuf_cur b)) = int (length fl)"
    using reads_text_len [OF r b'(2)] by (simp add: j_def)
  moreover have "if drop j s = [] then \<not> fst (sbuf_char m (CHR ''?'') b')
     else \<exists>b''. sbuf_char m (CHR ''?'') b' = (True, b'') \<and> (\<exists>k. reads_text m base s b'' k \<and> drop k s = tl (drop j s))"
    using q reads_text_step [OF b'(2)] by (auto simp: reads_text_char [OF b'(2)] drop_Suc tl_drop intro!: exI [of _ "Suc j"])
  ultimately show ?thesis using b'(1) unfolding dr by blast
qed

lemma parse_uri_reference:
  assumes r: "reads_text m base s (sbuf_parser_init base (int (length s))) 0" and nz: "CHR 0x00 \<notin> set s"
  shows "\<exists>v. parse_uri m base (int (length s)) = Some (fst (uri_parts s), v) \<and> texts_of m v = snd (uri_parts s)"
proof (cases "take 7 s = ''file://''")
  case False
  have seven: "length ''file://'' = 7" by simp
  obtain b0 where "sbuf_string m ''file://'' (sbuf_parser_init base (int (length s))) = (False, b0)"
    using sbuf_string_mismatch [OF r, of "''file://''"] False unfolding seven by auto
  with False show ?thesis
    by (simp add: parse_uri_def uri_parts_def Let_def texts_of_def no_parsed_uri_def text_at_def del: sbuf_string.simps)
next
  case True
  have seven: "length ''file://'' = 7" by simp
  obtain b0 where b0: "sbuf_string m ''file://'' (sbuf_parser_init base (int (length s))) = (True, b0)"
      "reads_text m base s b0 7"
    using sbuf_string_match [OF r, of "''file://''"] True unfolding seven by auto
  define b1 where "b1 = snd (sbuf_string m ''/'' b0)"
  obtain i where r1: "reads_text m base s b1 i" and di: "drop i s = strip_slash (drop 7 s)"
    using strip_slash_text [OF b0(2)] unfolding b1_def by blast
  define fl where "fl = takeWhile (\<lambda>c. c \<noteq> CHR ''?'') (drop i s)"
  define q where "q = dropWhile (\<lambda>c. c \<noteq> CHR ''?'') (drop i s)"
  note ref = uri_parts_def [of s, folded di, unfolded Let_def, folded fl_def q_def]
  note run = parse_uri_def [of m base "int (length s)", unfolded b0(1) prod.case Let_def, folded b1_def]
  show ?thesis
  proof (cases "fl = []")
    case True
    then show ?thesis
      using mu_notqmark.many1_fails [OF r1] \<open>take 7 s = _\<close> unfolding ref run fl_def
      by (simp add: texts_of_def no_parsed_uri_def text_at_def)
  next
    case False
    obtain b2 where b2: "sbuf_many1 (notqmark m) b1 = Some (True, b2)"
        "int32 (pdiff (sbuf_cur b2) (sbuf_cur b1)) = int (length fl)" "text_at m (sbuf_cur b1) (int (length fl)) = fl"
      and b2': "if q = [] then \<not> fst (sbuf_char m (CHR ''?'') b2)
        else \<exists>b3. sbuf_char m (CHR ''?'') b2 = (True, b3) \<and> (\<exists>j. reads_text m base s b3 j \<and> drop j s = tl q)"
      using parse_file_text [OF r1 nz fl_def False] unfolding q_def by blast
    show ?thesis
    proof (cases "q = []")
      case True
      then show ?thesis
        using b2 b2' \<open>take 7 s = _\<close> False unfolding ref run
        by (simp add: texts_of_def no_parsed_uri_def text_at_def [of _ 0] case_prod_beta)
    next
      case qn: False
      obtain b3 j where b3: "sbuf_char m (CHR ''?'') b2 = (True, b3)" "reads_text m base s b3 j" "drop j s = tl q"
        using b2' qn by auto
      then show ?thesis
        using parse_uri_sym_text [OF b3(2) nz refl, of "no_parsed_uri\<lparr>pu_file := sbuf_cur b1, pu_filelen := int (length fl)\<rparr>"]
          b2 \<open>take 7 s = _\<close> False qn unfolding ref run
        by (auto simp: no_parsed_uri_def texts_of_def split: prod.splits)
    qed
  qed
qed

section \<open>Properties\<close>

text \<open>A memory that holds a text at an address, and nothing else.\<close>

definition text_mem :: "uptr \<Rightarrow> string \<Rightarrow> cmem" where
  "text_mem base s a = (if unat (a - base) < length s then s ! unat (a - base) else CHR 0x00)"

lemma reads_text_mem:
  assumes "int (length s) \<le> INT_MAX" and "uint base + int (length s) < 2 ^ 64"
  shows "reads_text (text_mem base s) base s (sbuf_parser_init base (int (length s))) 0"
proof (rule reads_text_init [OF assms])
  fix k assume "k < length s"
  then have "unat (of_nat k :: uptr) = k"
    using assms(1) by (simp add: unsigned_of_nat take_bit_nat_eq_self)
  then show "text_mem base s (base + of_nat k) = s ! k" using \<open>k < length s\<close> by (simp add: text_mem_def)
qed

lemma takeWhile_absent: "c \<notin> set v \<Longrightarrow> takeWhile (\<lambda>x. x \<noteq> c) v = v" "c \<notin> set v \<Longrightarrow> dropWhile (\<lambda>x. x \<noteq> c) v = []"
  by (induction v) auto

lemma uri_queries_prefix:
  assumes "name \<noteq> []" "take (length name) ''_modver'' = name" "v \<noteq> []" "CHR ''&'' \<notin> set v"
  shows "uri_queries (name @ CHR ''='' # v) w = (0, v)"
proof -
  have "set name \<subseteq> set ''_modver''" using assms(2) set_take_subset by metis
  then have "CHR ''&'' \<notin> set name" "CHR ''='' \<notin> set name" by auto
  then have t: "takeWhile (\<lambda>c. c \<noteq> CHR ''&'' \<and> c \<noteq> CHR ''='') (name @ CHR ''='' # v) = name"
    "dropWhile (\<lambda>c. c \<noteq> CHR ''&'' \<and> c \<noteq> CHR ''='') (name @ CHR ''='' # v) = CHR ''='' # v"
    by (induction name) auto
  show ?thesis
    using assms(1-3) by (subst uri_queries.simps)
      (simp add: Let_def t takeWhile_absent [OF assms(4)] uri_queries.simps [of "[]"])
qed

lemma takeWhile_neq: "c \<notin> set xs \<Longrightarrow> takeWhile (\<lambda>x. x \<noteq> c) (xs @ c # ys) = xs"
  "c \<notin> set xs \<Longrightarrow> dropWhile (\<lambda>x. x \<noteq> c) (xs @ c # ys) = c # ys"
  by (induction xs) auto

text \<open>C37: \<^bold>\<open>the parser agrees with its reference\<close>. For a URI of any content that lies in memory,
  \<^verbatim>\<open>parse_uri\<close> returns, with the error code of the reference and with pointers and lengths that
  denote the file, the symbol and the version of the reference. The result depends on the text only,
  not on where it lies.\<close>

theorem parse_uri_equiv:
  assumes "int (length uri) \<le> INT_MAX" and "uint base + int (length uri) < 2 ^ 64" and "CHR 0x00 \<notin> set uri"
    and "\<And>k. k < length uri \<Longrightarrow> m (base + of_nat k) = uri ! k"
  shows "\<exists>v. parse_uri m base (int (length uri)) = Some (fst (uri_parts uri), v) \<and> texts_of m v = snd (uri_parts uri)"
  by (rule parse_uri_reference [OF reads_text_init [OF assms(1,2)] assms(3)]) (rule assms(4))

theorem parse_uri_equiv_witness:
  "\<exists>v. parse_uri (text_mem 4096 ''file://a?b'') 4096 10 = Some (0, v) \<and>
     texts_of (text_mem 4096 ''file://a?b'') v = \<lparr>ut_file = ''a'', ut_sym = ''b'', ut_ver = []\<rparr>"
proof -
  have "uri_parts ''file://a?b'' = (0, \<lparr>ut_file = ''a'', ut_sym = ''b'', ut_ver = []\<rparr>)" by code_simp
  then show ?thesis
    using parse_uri_equiv [of "''file://a?b''" 4096 "text_mem 4096 ''file://a?b''"]
    by (simp add: text_mem_def unsigned_of_nat take_bit_nat_eq_self)
qed

text \<open>\<^bold>\<open>A module URI gives its parts back\<close>. The URI that a caller builds from a file, a symbol and a
  version parses without error to exactly these.\<close>

theorem parse_uri_roundtrip:
  assumes "f \<noteq> []" "CHR ''?'' \<notin> set f" "y \<noteq> []" "CHR ''&'' \<notin> set y" "v \<noteq> []" "CHR ''&'' \<notin> set v"
    and "uri = ''file:///'' @ f @ ''?'' @ y @ ''&_modver='' @ v"
    and "int (length uri) \<le> INT_MAX" "uint base + int (length uri) < 2 ^ 64" "CHR 0x00 \<notin> set uri"
  shows "\<exists>p. parse_uri (text_mem base uri) base (int (length uri)) = Some (AEE_SUCCESS, p) \<and>
    texts_of (text_mem base uri) p = \<lparr>ut_file = f, ut_sym = y, ut_ver = v\<rparr>"
proof -
  have "strip_slash (drop 7 uri) = f @ CHR ''?'' # y @ CHR ''&'' # ''_modver='' @ v"
    using assms(7) by (simp add: strip_slash_def)
  moreover have "uri_queries (''_modver='' @ v) [] = (0, v)"
    using uri_queries_prefix [of "''_modver''" v] assms(5,6) by simp
  ultimately have "uri_parts uri = (AEE_SUCCESS, \<lparr>ut_file = f, ut_sym = y, ut_ver = v\<rparr>)"
    using assms(1-4) takeWhile_neq [OF assms(2)] takeWhile_neq [OF assms(4)]
    by (simp add: uri_parts_def Let_def assms(7))
  then show ?thesis
    using parse_uri_reference [OF reads_text_mem [OF assms(8,9)] assms(10)] by simp
qed

theorem parse_uri_roundtrip_witness:
  "\<exists>p. parse_uri (text_mem 64 ''file:///l?s&_modver=1.0'') 64 23 = Some (0, p) \<and>
    texts_of (text_mem 64 ''file:///l?s&_modver=1.0'') p = \<lparr>ut_file = ''l'', ut_sym = ''s'', ut_ver = ''1.0''\<rparr>"
  using parse_uri_roundtrip [of "''l''" "''s''" "''1.0''" "''file:///l?s&_modver=1.0''" 64] by simp

text \<open>\<^bold>\<open>A prefix of the version key is taken for it\<close>. The key is compared over the length of the name in
  the URI, so a query named by any prefix of \<^verbatim>\<open>_modver\<close> sets the version.\<close>

theorem parse_uri_prefix_is_version:
  assumes "name \<noteq> []" "take (length name) ''_modver'' = name" "v \<noteq> []" "CHR ''&'' \<notin> set v" "CHR 0x00 \<notin> set v"
    and "uri = ''file:///l?s&'' @ name @ ''='' @ v" and "int (length uri) \<le> INT_MAX"
  shows "\<exists>p. parse_uri (text_mem 0 uri) 0 (int (length uri)) = Some (AEE_SUCCESS, p) \<and>
    texts_of (text_mem 0 uri) p = \<lparr>ut_file = ''l'', ut_sym = ''s'', ut_ver = v\<rparr>"
proof -
  have "set name \<subseteq> set ''_modver''" using assms(2) set_take_subset by metis
  then have n: "CHR 0x00 \<notin> set name" by auto
  have "uri_queries (name @ CHR ''='' # v) [] = (0, v)" by (rule uri_queries_prefix [OF assms(1-4)])
  then have "uri_parts uri = (0, \<lparr>ut_file = ''l'', ut_sym = ''s'', ut_ver = v\<rparr>)"
    using assms(6) by (simp add: uri_parts_def strip_slash_def Let_def)
  moreover have "CHR 0x00 \<notin> set uri" using assms(5,6) n by simp
  ultimately show ?thesis
    using parse_uri_reference [OF reads_text_mem [OF assms(7), of 0]] assms(7) by simp
qed

theorem parse_uri_prefix_is_version_witness:
  "\<exists>p. parse_uri (text_mem 0 ''file:///l?s&_m=7'') 0 16 = Some (0, p) \<and>
    texts_of (text_mem 0 ''file:///l?s&_m=7'') p = \<lparr>ut_file = ''l'', ut_sym = ''s'', ut_ver = ''7''\<rparr>"
  using parse_uri_prefix_is_version [of "''_m''" "''7''" "''file:///l?s&_m=7''"] by simp

end
