(* ===== verification/Pls.thy ===== *)
theory Pls
  imports Prelude
begin

text \<open>
  Process-local storage (\<^verbatim>\<open>inc/pls.h\<close>, \<^verbatim>\<open>src/gpls.c\<close>) and the reference counts of the platform
  libraries (\<^verbatim>\<open>src/platform_libs.c\<close>, \<^verbatim>\<open>src/pl_list.c\<close>). A storage table is the list of its items, the
  newest first, and the number of threads that use it. The item's data is of any type; a
  constructor is the pair of its result and the data it leaves, \<open>mem\<close> says whether \<^verbatim>\<open>calloc\<close>
  succeeds. The exchange loops are written as if they succeed at once, which is the sequential
  case. A platform library is its counter and the result of its initialiser; the initialisers,
  which are other components, are parameters that may change the whole table of libraries, since
  an initialiser may initialise further libraries.
\<close>

section \<open>Process-local storage\<close>

record 'd pls_item =
  pls_type :: uptr
  pls_key :: uptr
  pls_dtor :: bool
  pls_data :: 'd

record 'd pls_table =
  pls_lst :: "'d pls_item list"
  pls_uRefs :: u32
  pls_primThread :: u32

definition atomic_CompareOrAdd :: "u32 \<Rightarrow> u32 \<Rightarrow> u32 \<Rightarrow> u32" where
  "atomic_CompareOrAdd dest uCompare nAdd = (if dest \<noteq> uCompare then dest + nAdd else dest)"

definition pls_thread_init :: "uptr \<Rightarrow> 'd pls_table \<Rightarrow> int \<times> 'd pls_table" where
  "pls_thread_init tid me =
     (if tid = ucast (pls_primThread me) then (0, me)
      else if pls_uRefs me = 0 then (-1, me)
      else (0, me\<lparr>pls_uRefs := pls_uRefs me + 1\<rparr>))"

definition pls_ctor :: "uptr \<Rightarrow> 'd pls_table \<Rightarrow> 'd pls_table" where
  "pls_ctor primThread me = me\<lparr>pls_uRefs := 1, pls_primThread := ucast primThread\<rparr>"

text \<open>The last thread empties the list. The data of the items that have a destructor is returned in
  the order in which the destructors run.\<close>

definition pls_thread_deinit :: "'d pls_table \<Rightarrow> 'd list \<times> 'd pls_table" where
  "pls_thread_deinit me =
     (if pls_uRefs me \<noteq> 0
      then (if pls_uRefs me = 1
            then (map pls_data (filter pls_dtor (pls_lst me)), me\<lparr>pls_uRefs := 0, pls_lst := []\<rparr>)
            else ([], me\<lparr>pls_uRefs := pls_uRefs me - 1\<rparr>))
      else ([], me))"

definition pls_lookup :: "uptr \<Rightarrow> uptr \<Rightarrow> 'd pls_table \<Rightarrow> int \<times> 'd option" where
  "pls_lookup ty k me =
     (if pls_uRefs me \<noteq> 0
      then (case find (\<lambda>it. pls_type it = ty \<and> pls_key it = k) (pls_lst me) of
              Some it \<Rightarrow> (0, Some (pls_data it))
            | None \<Rightarrow> (-1, None))
      else (-1, None))"

definition pls_add :: "uptr \<Rightarrow> uptr \<Rightarrow> bool \<Rightarrow> bool \<Rightarrow> int \<times> 'd \<Rightarrow> 'd pls_table \<Rightarrow> int \<times> 'd option \<times> 'd pls_table" where
  "pls_add ty k dtor mem ctor me =
     (if pls_uRefs me = 0 \<or> \<not> mem \<or> fst ctor \<noteq> 0 then (-1, None, me)
      else (0, Some (snd ctor),
            me\<lparr>pls_lst := \<lparr>pls_type = ty, pls_key = k, pls_dtor = dtor, pls_data = snd ctor\<rparr> # pls_lst me\<rparr>))"

definition pls_add_lookup_singleton ::
    "uptr \<Rightarrow> uptr \<Rightarrow> bool \<Rightarrow> bool \<Rightarrow> int \<times> 'd \<Rightarrow> 'd pls_table \<Rightarrow> int \<times> 'd option \<times> 'd pls_table" where
  "pls_add_lookup_singleton ty k dtor mem ctor me =
     (case pls_lookup ty k me of
        (e, ppo) \<Rightarrow> if e = 0 then (0, ppo, me) else pls_add ty k dtor mem ctor me)"

definition gpls_init :: "'d pls_table \<Rightarrow> int \<times> 'd pls_table" where
  "gpls_init gpls = (0, pls_ctor 1 gpls)"

definition gpls_deinit :: "'d pls_table \<Rightarrow> 'd list \<times> 'd pls_table" where
  "gpls_deinit gpls = pls_thread_deinit gpls"

text \<open>A client changes its data in place, through the pointer that it looked up.\<close>

fun update_first :: "('a \<Rightarrow> bool) \<Rightarrow> ('a \<Rightarrow> 'a) \<Rightarrow> 'a list \<Rightarrow> 'a list" where
  "update_first P f [] = []"
| "update_first P f (x # xs) = (if P x then f x # xs else x # update_first P f xs)"

definition pls_update :: "uptr \<Rightarrow> uptr \<Rightarrow> 'd \<Rightarrow> 'd pls_table \<Rightarrow> 'd pls_table" where
  "pls_update ty k d me =
     me\<lparr>pls_lst := update_first (\<lambda>it. pls_type it = ty \<and> pls_key it = k) (\<lambda>it. it\<lparr>pls_data := d\<rparr>) (pls_lst me)\<rparr>"

section \<open>Platform libraries\<close>

datatype libid = gpls | listener_android | mod_table | apps_std | rpcmem | fastrpc_apps_user

record platform_lib =
  pl_uRefs :: u32
  pl_nErr :: int

datatype lib_event = Init libid int | Deinit libid

record lib_state =
  libs :: "libid \<Rightarrow> platform_lib"
  lib_log :: "lib_event list"

text \<open>What \<^verbatim>\<open>PL_DEFINE\<close> starts with.\<close>

definition libs_start :: lib_state where
  "libs_start = \<lparr>libs = (\<lambda>_. \<lparr>pl_uRefs = 0, pl_nErr = -1\<rparr>), lib_log = []\<rparr>"

definition set_lib :: "libid \<Rightarrow> (platform_lib \<Rightarrow> platform_lib) \<Rightarrow> lib_state \<Rightarrow> lib_state" where
  "set_lib l f s = s\<lparr>libs := (libs s)(l := f (libs s l))\<rparr>"

type_synonym lib_init = "libid \<Rightarrow> lib_state \<Rightarrow> int \<times> lib_state"
type_synonym lib_deinit = "libid \<Rightarrow> lib_state \<Rightarrow> lib_state"

definition pl_lib_init :: "lib_init \<Rightarrow> libid \<Rightarrow> lib_state \<Rightarrow> int \<times> lib_state" where
  "pl_lib_init ini l s =
     (let old = pl_uRefs (libs s l);
          s = set_lib l (\<lambda>p. p\<lparr>pl_uRefs := pl_uRefs p + 1\<rparr>) s;
          s = (if old = 0
               then (case ini l s of (nErr, s) \<Rightarrow>
                       set_lib l (\<lambda>p. p\<lparr>pl_nErr := nErr\<rparr>) (s\<lparr>lib_log := lib_log s @ [Init l nErr]\<rparr>))
               else s)
      in (pl_nErr (libs s l), s))"

definition pl_lib_deinit :: "lib_deinit \<Rightarrow> libid \<Rightarrow> lib_state \<Rightarrow> lib_state" where
  "pl_lib_deinit dei l s =
     (let old = pl_uRefs (libs s l);
          s = set_lib l (\<lambda>p. p\<lparr>pl_uRefs := pl_uRefs p - 1\<rparr>) s
      in if old = 1 \<and> pl_nErr (libs s l) = 0 then dei l (s\<lparr>lib_log := lib_log s @ [Deinit l]\<rparr>) else s)"

fun pl_init_lst :: "lib_init \<Rightarrow> libid list \<Rightarrow> lib_state \<Rightarrow> int \<times> lib_state" where
  "pl_init_lst ini [] s = (AEE_SUCCESS, s)"
| "pl_init_lst ini (l # ls) s =
     (case pl_lib_init ini l s of (nErr, s) \<Rightarrow> if nErr \<noteq> 0 then (nErr, s) else pl_init_lst ini ls s)"

definition pl_deinit_lst :: "lib_deinit \<Rightarrow> libid list \<Rightarrow> lib_state \<Rightarrow> lib_state" where
  "pl_deinit_lst dei ls s = fold (pl_lib_deinit dei) (rev ls) s"

definition pl_list :: "libid list" where
  "pl_list = [gpls, listener_android]"

definition pl_init :: "lib_init \<Rightarrow> lib_state \<Rightarrow> int \<times> lib_state" where
  "pl_init ini s = pl_init_lst ini pl_list s"

definition pl_deinit :: "lib_deinit \<Rightarrow> lib_state \<Rightarrow> lib_state" where
  "pl_deinit dei s = pl_deinit_lst dei pl_list s"

section \<open>The contract of the storage\<close>

locale local_store =
  fixes lookup :: "'s \<Rightarrow> 'd option" and ensure :: "'s \<Rightarrow> int \<times> 'd option \<times> 's" and put :: "'d \<Rightarrow> 's \<Rightarrow> 's"
  assumes ensure_ok: "ensure s = (0, r, s') \<Longrightarrow> r \<noteq> None \<and> lookup s' = r"
    and ensure_same: "lookup s \<noteq> None \<Longrightarrow> ensure s = (0, lookup s, s)"
    and ensure_fail: "ensure s = (e, r, s') \<Longrightarrow> e \<noteq> 0 \<Longrightarrow> s' = s"
    and put_lookup: "lookup s \<noteq> None \<Longrightarrow> lookup (put d s) = Some d"
begin

lemma ensure_twice: "ensure s = (0, r, s') \<Longrightarrow> ensure s' = (0, r, s')"
  using ensure_ok ensure_same by metis

lemma put_after_ensure: "ensure s = (0, r, s') \<Longrightarrow> ensure (put d s') = (0, Some d, put d s')"
  using ensure_ok ensure_same put_lookup by (metis option.distinct(1))

end

lemma find_update_first:
  assumes "\<And>x. P x \<Longrightarrow> P (f x)"
  shows "find P (update_first P f xs) = map_option f (find P xs)"
  using assms by (induction xs) auto

interpretation pls_store: local_store
  "\<lambda>me. snd (pls_lookup ty k me)" "pls_add_lookup_singleton ty k dtor mem ctor" "pls_update ty k"
  for ty k :: uptr and dtor mem :: bool and ctor :: "int \<times> 'd"
proof unfold_locales
  fix s s' :: "'d pls_table" and r e d
  show "pls_add_lookup_singleton ty k dtor mem ctor s = (0, r, s') \<Longrightarrow> r \<noteq> None \<and> snd (pls_lookup ty k s') = r"
    by (auto simp: pls_add_lookup_singleton_def pls_lookup_def pls_add_def split: if_splits option.splits)
  show "snd (pls_lookup ty k s) \<noteq> None \<Longrightarrow>
      pls_add_lookup_singleton ty k dtor mem ctor s = (0, snd (pls_lookup ty k s), s)"
    by (auto simp: pls_add_lookup_singleton_def pls_lookup_def split: if_splits option.splits)
  show "pls_add_lookup_singleton ty k dtor mem ctor s = (e, r, s') \<Longrightarrow> e \<noteq> 0 \<Longrightarrow> s' = s"
    by (auto simp: pls_add_lookup_singleton_def pls_add_def split: if_splits prod.splits)
  show "snd (pls_lookup ty k s) \<noteq> None \<Longrightarrow> snd (pls_lookup ty k (pls_update ty k d s)) = Some d"
    by (auto simp: pls_lookup_def pls_update_def find_update_first split: if_splits option.splits)
qed

section \<open>Loading and unloading the library\<close>

text \<open>The calls to the platform libraries that \<^verbatim>\<open>fastrpc_apps_user_init\<close> and \<^verbatim>\<open>fastrpc_apps_user_deinit\<close>
  make, with those of \<^verbatim>\<open>listener_android_init\<close> and \<^verbatim>\<open>listener_android_deinit\<close>, which they call
  directly. The other libraries call none.\<close>

definition listener_libs_init :: "lib_init \<Rightarrow> lib_state \<Rightarrow> int \<times> lib_state" where
  "listener_libs_init ini s = pl_init_lst ini [mod_table, apps_std] s"

definition listener_libs_deinit :: "lib_deinit \<Rightarrow> lib_state \<Rightarrow> lib_state" where
  "listener_libs_deinit dei s = pl_lib_deinit dei apps_std (pl_lib_deinit dei mod_table s)"

definition apps_user_libs_init :: "lib_init \<Rightarrow> lib_state \<Rightarrow> int \<times> lib_state" where
  "apps_user_libs_init ini s =
     (case pl_init_lst ini [gpls, rpcmem, apps_std] s of (nErr, s) \<Rightarrow>
        if nErr \<noteq> 0 then (nErr, s) else (0, snd (listener_libs_init ini s)))"

definition apps_user_libs_deinit :: "lib_deinit \<Rightarrow> lib_state \<Rightarrow> lib_state" where
  "apps_user_libs_deinit dei s =
     pl_lib_deinit dei gpls (pl_lib_deinit dei rpcmem (pl_lib_deinit dei apps_std (listener_libs_deinit dei s)))"

definition leaf_init :: lib_init where
  "leaf_init l s = (0, s)"

definition leaf_deinit :: lib_deinit where
  "leaf_deinit l s = s"

definition library_init :: lib_init where
  "library_init l s = (if l = fastrpc_apps_user then apps_user_libs_init leaf_init s else leaf_init l s)"

definition library_deinit :: lib_deinit where
  "library_deinit l s = (if l = fastrpc_apps_user then apps_user_libs_deinit leaf_deinit s else leaf_deinit l s)"

definition frpc_init :: "lib_state \<Rightarrow> int \<times> lib_state" where
  "frpc_init s = pl_lib_init library_init fastrpc_apps_user s"

definition close_dev :: "lib_state \<Rightarrow> lib_state" where
  "close_dev s = pl_lib_deinit library_deinit fastrpc_apps_user (pl_deinit library_deinit s)"

section \<open>Properties\<close>

text \<open>The events of one library.\<close>

fun event_lib :: "lib_event \<Rightarrow> libid" where
  "event_lib (Init l r) = l"
| "event_lib (Deinit l) = l"

definition events_of :: "libid \<Rightarrow> lib_state \<Rightarrow> lib_event list" where
  "events_of l s = filter (\<lambda>ev. event_lib ev = l) (lib_log s)"

text \<open>The initialiser and the clean-up of a library do not initialise or clean up that library.\<close>

definition minds_others :: "lib_init \<Rightarrow> lib_deinit \<Rightarrow> libid \<Rightarrow> bool" where
  "minds_others ini dei l \<longleftrightarrow>
     (\<forall>s. fst (ini l s) = 0 \<and> libs (snd (ini l s)) l = libs s l \<and> events_of l (snd (ini l s)) = events_of l s) \<and>
     (\<forall>s. libs (dei l s) l = libs s l \<and> events_of l (dei l s) = events_of l s)"

lemma set_lib_simps [simp]: "libs (set_lib l f s) l = f (libs s l)" "lib_log (set_lib l f s) = lib_log s"
  "events_of l (set_lib l' f s) = events_of l s"
  by (simp_all add: set_lib_def events_of_def)

lemma lib_inits:
  assumes "minds_others ini dei l" and "pl_uRefs (libs s l) = 0" and "0 < n" and "n < 2 ^ 32"
  shows "let s' = ((\<lambda>s. snd (pl_lib_init ini l s)) ^^ n) s
    in pl_uRefs (libs s' l) = of_nat n \<and> pl_nErr (libs s' l) = 0 \<and> events_of l s' = events_of l s @ [Init l 0]"
  using assms(3,4)
proof (induction n)
  case 0
  then show ?case by simp
next
  case (Suc n)
  let ?s = "((\<lambda>s. snd (pl_lib_init ini l s)) ^^ n) s"
  show ?case
  proof (cases "n = 0")
    case True
    then show ?thesis
      using assms(1,2) by (simp add: minds_others_def pl_lib_init_def Let_def case_prod_beta) (simp add: events_of_def)
  next
    case False
    then have ih: "pl_uRefs (libs ?s l) = of_nat n" "pl_nErr (libs ?s l) = 0" "events_of l ?s = events_of l s @ [Init l 0]"
      using Suc by (auto simp: Let_def)
    have "unat (of_nat n :: u32) = n" using Suc.prems by (simp add: unsigned_of_nat take_bit_nat_eq_self)
    then have "(of_nat n :: u32) \<noteq> 0" using False by (metis unat_0)
    then show ?thesis using ih by (simp add: pl_lib_init_def Let_def)
  qed
qed

lemma lib_deinits:
  assumes "minds_others ini dei l" and "pl_uRefs (libs s l) = of_nat n" and "pl_nErr (libs s l) = 0" and "n < 2 ^ 32"
  shows "let s' = (pl_lib_deinit dei l ^^ n) s
    in pl_uRefs (libs s' l) = 0 \<and> events_of l s' = events_of l s @ (if 0 < n then [Deinit l] else [])"
  using assms(2-4)
proof (induction n arbitrary: s)
  case 0
  then show ?case by simp
next
  case (Suc n)
  have u: "unat (of_nat k :: u32) = k" if "k < 2 ^ 32" for k using that by (simp add: unsigned_of_nat take_bit_nat_eq_self)
  have eq: "(of_nat (Suc n) :: u32) = 1 \<longleftrightarrow> n = 0"
    using u [of "Suc n"] Suc.prems(3) by (metis Suc_eq_plus1 add_cancel_right_left of_nat_1 One_nat_def nat.inject unat_1)
  let ?s = "pl_lib_deinit dei l s"
  have "pl_uRefs (libs ?s l) = of_nat n" "pl_nErr (libs ?s l) = 0"
    "events_of l ?s = events_of l s @ (if n = 0 then [Deinit l] else [])"
    using Suc.prems assms(1) eq by (auto simp: pl_lib_deinit_def Let_def minds_others_def events_of_def set_lib_def)
  then show ?case using Suc.IH [of ?s] Suc.prems(3) by (auto simp: Let_def funpow_Suc_right simp del: funpow.simps)
qed

text \<open>\<^bold>\<open>A platform library is initialised once and cleaned up once\<close>. However often a library is requested and
  released, its initialiser runs at the first request only and its clean-up at the last release
  only, and the counter is back at zero.\<close>

theorem platform_library_balanced:
  assumes "minds_others ini dei l" and "pl_uRefs (libs s l) = 0" and "0 < n" and "n < 2 ^ 32"
  shows "let s' = (pl_lib_deinit dei l ^^ n) (((\<lambda>s. snd (pl_lib_init ini l s)) ^^ n) s)
    in pl_uRefs (libs s' l) = 0 \<and> events_of l s' = events_of l s @ [Init l 0, Deinit l]"
  using lib_inits [OF assms] lib_deinits [OF assms(1), of "((\<lambda>s. snd (pl_lib_init ini l s)) ^^ n) s" n] assms(3,4)
  by (simp add: Let_def)

theorem platform_library_balanced_witness:
  "let s' = (pl_lib_deinit leaf_deinit rpcmem ^^ 3) (((\<lambda>s. snd (pl_lib_init leaf_init rpcmem s)) ^^ 3) libs_start)
   in pl_uRefs (libs s' rpcmem) = 0 \<and> events_of rpcmem s' = [Init rpcmem 0, Deinit rpcmem]"
proof -
  have "minds_others leaf_init leaf_deinit rpcmem" by (simp add: minds_others_def leaf_init_def leaf_deinit_def)
  then show ?thesis
    using platform_library_balanced [of leaf_init leaf_deinit rpcmem libs_start 3] by (simp add: libs_start_def events_of_def Let_def)
qed

lemma leaf_init_steps:
  "pl_lib_init leaf_init l \<lparr>libs = f, lib_log = t\<rparr> =
     (if pl_uRefs (f l) = 0 then (0, \<lparr>libs = f(l := (f l)\<lparr>pl_uRefs := 1, pl_nErr := 0\<rparr>), lib_log = t @ [Init l 0]\<rparr>)
      else (pl_nErr (f l), \<lparr>libs = f(l := (f l)\<lparr>pl_uRefs := pl_uRefs (f l) + 1\<rparr>), lib_log = t\<rparr>))"
  by (simp add: pl_lib_init_def leaf_init_def set_lib_def Let_def)

lemma leaf_deinit_steps:
  "pl_lib_deinit leaf_deinit l \<lparr>libs = f, lib_log = t\<rparr> =
     \<lparr>libs = f(l := (f l)\<lparr>pl_uRefs := pl_uRefs (f l) - 1\<rparr>),
      lib_log = (if pl_uRefs (f l) = 1 \<and> pl_nErr (f l) = 0 then t @ [Deinit l] else t)\<rparr>"
  "l \<noteq> fastrpc_apps_user \<Longrightarrow> pl_lib_deinit library_deinit l \<lparr>libs = f, lib_log = t\<rparr> = pl_lib_deinit leaf_deinit l \<lparr>libs = f, lib_log = t\<rparr>"
  by (simp_all add: pl_lib_deinit_def leaf_deinit_def library_deinit_def set_lib_def Let_def)

definition loaded_libs :: "libid \<Rightarrow> platform_lib" where
  "loaded_libs l = (case l of
      gpls \<Rightarrow> \<lparr>pl_uRefs = 1, pl_nErr = 0\<rparr> | listener_android \<Rightarrow> \<lparr>pl_uRefs = 0, pl_nErr = -1\<rparr>
    | mod_table \<Rightarrow> \<lparr>pl_uRefs = 1, pl_nErr = 0\<rparr> | apps_std \<Rightarrow> \<lparr>pl_uRefs = 2, pl_nErr = 0\<rparr>
    | rpcmem \<Rightarrow> \<lparr>pl_uRefs = 1, pl_nErr = 0\<rparr> | fastrpc_apps_user \<Rightarrow> \<lparr>pl_uRefs = 1, pl_nErr = 0\<rparr>)"

definition loaded_log :: "lib_event list" where
  "loaded_log = [Init gpls 0, Init rpcmem 0, Init apps_std 0, Init mod_table 0, Init fastrpc_apps_user 0]"

lemma frpc_init_loads: "frpc_init libs_start = (0, \<lparr>libs = loaded_libs, lib_log = loaded_log\<rparr>)"
proof -
  let ?z = "\<lparr>pl_uRefs = 0, pl_nErr = -1\<rparr>"
  have "apps_user_libs_init leaf_init \<lparr>libs = (\<lambda>_. ?z)(fastrpc_apps_user := \<lparr>pl_uRefs = 1, pl_nErr = -1\<rparr>), lib_log = []\<rparr> =
    (0, \<lparr>libs = loaded_libs(fastrpc_apps_user := \<lparr>pl_uRefs = 1, pl_nErr = -1\<rparr>), lib_log = butlast loaded_log\<rparr>)"
    by (simp add: apps_user_libs_init_def listener_libs_init_def leaf_init_steps loaded_log_def fun_eq_iff)
      (simp add: loaded_libs_def split: libid.split)
  then show ?thesis
    by (simp add: frpc_init_def pl_lib_init_def library_init_def libs_start_def set_lib_def Let_def loaded_log_def fun_eq_iff)
      (simp add: loaded_libs_def)
qed

text \<open>\<^bold>\<open>Unloading releases more than was requested\<close>. The destructor of the library releases the list of
  platform libraries that \<^verbatim>\<open>pl_init\<close> would have requested, which nothing calls: the process-local
  storage is cleaned up before the library that still uses it, its counter and that of the listener
  wrap below zero, and the clean-up of the listener never runs by its counter.\<close>

theorem unload_wraps_counters:
  "let s1 = snd (frpc_init libs_start); s2 = close_dev s1
   in pl_uRefs (libs s1 gpls) = 1 \<and> pl_uRefs (libs s1 listener_android) = 0 \<and>
      pl_uRefs (libs s2 gpls) = 0xFFFFFFFF \<and> pl_uRefs (libs s2 listener_android) = 0xFFFFFFFF \<and>
      filter (\<lambda>ev. ev = Deinit gpls \<or> ev = Deinit mod_table \<or> ev = Deinit fastrpc_apps_user \<or> ev = Deinit listener_android)
        (lib_log s2) = [Deinit gpls, Deinit fastrpc_apps_user, Deinit mod_table]"
proof -
  have gone: "pl_deinit library_deinit \<lparr>libs = loaded_libs, lib_log = loaded_log\<rparr> =
    \<lparr>libs = loaded_libs(listener_android := \<lparr>pl_uRefs = -1, pl_nErr = -1\<rparr>, gpls := \<lparr>pl_uRefs = 0, pl_nErr = 0\<rparr>),
     lib_log = loaded_log @ [Deinit gpls]\<rparr>"
    by (simp add: pl_deinit_def pl_deinit_lst_def pl_list_def leaf_deinit_steps) (simp add: loaded_libs_def)
  have "close_dev \<lparr>libs = loaded_libs, lib_log = loaded_log\<rparr> =
    apps_user_libs_deinit leaf_deinit
      \<lparr>libs = loaded_libs(listener_android := \<lparr>pl_uRefs = -1, pl_nErr = -1\<rparr>, gpls := \<lparr>pl_uRefs = 0, pl_nErr = 0\<rparr>,
          fastrpc_apps_user := \<lparr>pl_uRefs = 0, pl_nErr = 0\<rparr>),
       lib_log = loaded_log @ [Deinit gpls, Deinit fastrpc_apps_user]\<rparr>"
    unfolding close_dev_def gone by (simp add: pl_lib_deinit_def library_deinit_def set_lib_def Let_def) (simp add: loaded_libs_def)
  then show ?thesis
    unfolding frpc_init_loads snd_conv Let_def
    by (simp add: apps_user_libs_deinit_def listener_libs_deinit_def leaf_deinit_steps) (simp add: loaded_libs_def loaded_log_def)
qed

end
