(* ===== verification/ModTable.thy ===== *)
theory ModTable
  imports ModUri Pls
begin

text \<open>
  The table of reverse modules, \<^verbatim>\<open>src/mod_table.c\<close>: the modules of this process that the DSP may
  call. A module is opened by its URI, from the static overrides, from a dynamic library or from
  the static modules, in that order; its handle is the address of one of the \<open>20\<close> slots of
  \<^verbatim>\<open>rev_handle_table\<close>. The hash tables are lists, the newest entry first; the table \<^verbatim>\<open>openMods\<close>
  lists the slots that it links. \<^verbatim>\<open>HASH_FIND_INT\<close> compares four bytes, the low half of a 64-bit
  key. The dynamic linker and the functions of the modules are parameters (\<open>mod_env\<close>) whose
  answers may depend on everything called before, the log \<open>ms_log\<close>. Structure sizes are those of
  a 64-bit target. Locks are not part of the state: each definition that holds the table's lock
  for its whole run is atomic, and the operations that release it in between are split there.
\<close>

abbreviation (input) AEE_EUNKNOWN :: int where "AEE_EUNKNOWN \<equiv> -1"
abbreviation (input) AEE_ENOSUCHMOD :: int where "AEE_ENOSUCHMOD \<equiv> 62"
abbreviation (input) AEE_ENOSUCHSYMBOL :: int where "AEE_ENOSUCHSYMBOL \<equiv> 66"

section \<open>State\<close>

abbreviation (input) MAX_REV_HANDLES :: nat where "MAX_REV_HANDLES \<equiv> 20"
abbreviation (input) REV_HANDLE_SIZE :: nat where "REV_HANDLE_SIZE \<equiv> 256"
abbreviation (input) sizeof_open_mod :: nat where "sizeof_open_mod \<equiv> 144"

record static_mod =
  sm_invoke :: uptr
  sm_handle_invoke :: uptr
  sm_uri :: string

record const_mod =
  cm_invoke :: uptr
  cm_handle_invoke :: uptr
  cm_key :: u32
  cm_h64 :: u64
  cm_uri :: string

record open_mod =
  om_dlhandle :: uptr
  om_invoke :: uptr
  om_handle_invoke :: uptr
  om_key :: u64
  om_h64 :: u64
  om_refs :: int
  om_uri :: string

record static_mod_table =
  staticModOverrides :: "static_mod list"
  staticMods :: "static_mod list"
  constMods :: "const_mod list"
  smt_bInit :: bool

text \<open>Calls that leave the component, with their results.\<close>

datatype mod_event =
    Dlopen string uptr
  | Dlsym uptr string uptr
  | Dlclose uptr int
  | ModOpen uptr string int u64
  | ModClose uptr u64
  | ModInvoke uptr u32 uptr int
  | ModHandleInvoke uptr u64 u32 uptr int

type_synonym mod_log = "mod_event list"

text \<open>\<open>dlopen_r\<close> returns the handle and whether \<^verbatim>\<open>errno\<close> is \<^verbatim>\<open>ENOENT\<close> afterwards.\<close>

record mod_env =
  rev_base :: uptr
  alloc_r :: "mod_log \<Rightarrow> bool"
  dlopen_r :: "mod_log \<Rightarrow> string \<Rightarrow> uptr \<times> bool"
  dlsym_r :: "mod_log \<Rightarrow> uptr \<Rightarrow> string \<Rightarrow> uptr"
  dlclose_r :: "mod_log \<Rightarrow> uptr \<Rightarrow> int"
  dlerror_r :: "mod_log \<Rightarrow> string option"
  mod_open_r :: "mod_log \<Rightarrow> uptr \<Rightarrow> string \<Rightarrow> int \<times> u64"
  invoke_r :: "mod_log \<Rightarrow> uptr \<Rightarrow> u32 \<Rightarrow> uptr \<Rightarrow> int"
  handle_invoke_r :: "mod_log \<Rightarrow> uptr \<Rightarrow> u64 \<Rightarrow> u32 \<Rightarrow> uptr \<Rightarrow> int"

text \<open>\<open>openMods\<close> is the table that the pointer \<^verbatim>\<open>me\<close> of an operation denotes; between two calls it
  lies in the process-local storage \<open>ms_gpls\<close>.\<close>

record mod_state =
  smt :: static_mod_table
  rev_handle_table :: "open_mod list"
  openMods :: "nat list"
  ms_gpls :: "nat list pls_table"
  ms_log :: mod_log

definition no_open_mod :: open_mod where
  "no_open_mod = \<lparr>om_dlhandle = 0, om_invoke = 0, om_handle_invoke = 0, om_key = 0, om_h64 = 0, om_refs = 0, om_uri = []\<rparr>"

definition set_slot :: "nat \<Rightarrow> (open_mod \<Rightarrow> open_mod) \<Rightarrow> mod_state \<Rightarrow> mod_state" where
  "set_slot i f s = s\<lparr>rev_handle_table := (rev_handle_table s)[i := f (rev_handle_table s ! i)]\<rparr>"

abbreviation slot :: "mod_state \<Rightarrow> nat \<Rightarrow> open_mod" where
  "slot s i \<equiv> rev_handle_table s ! i"

definition add_log :: "mod_event \<Rightarrow> mod_state \<Rightarrow> mod_state" where
  "add_log ev s = s\<lparr>ms_log := ms_log s @ [ev]\<rparr>"

text \<open>\<^verbatim>\<open>(uint32_t)(uintptr_t)dm\<close>, stored in the 64-bit key.\<close>

definition slot_key :: "mod_env \<Rightarrow> nat \<Rightarrow> u64" where
  "slot_key e i = ucast (ucast (rev_base e + of_nat (REV_HANDLE_SIZE * i)) :: u32)"

definition low32 :: "u64 \<Rightarrow> u32" where
  "low32 k = ucast k"

definition find_open :: "u32 \<Rightarrow> mod_state \<Rightarrow> nat option" where
  "find_open h s = find (\<lambda>i. low32 (om_key (slot s i)) = h) (openMods s)"

definition find_const :: "u32 \<Rightarrow> mod_state \<Rightarrow> const_mod option" where
  "find_const h s = find (\<lambda>m. cm_key m = h) (constMods (smt s))"

definition find_static :: "string \<Rightarrow> static_mod list \<Rightarrow> static_mod option" where
  "find_static uri ms = find (\<lambda>m. sm_uri m = uri) ms"

section \<open>The static tables\<close>

definition static_mod_table_ctor :: "mod_state \<Rightarrow> int \<times> mod_state" where
  "static_mod_table_ctor s =
     (0, if \<not> smt_bInit (smt s)
         then s\<lparr>smt := (smt s)\<lparr>staticMods := [], staticModOverrides := [], smt_bInit := True\<rparr>\<rparr>
         else s)"

text \<open>The entries of all three tables are freed; deleting the last entry of a hash table clears its head.\<close>

definition static_mod_table_dtor_imp :: "mod_state \<Rightarrow> mod_state" where
  "static_mod_table_dtor_imp s =
     (if smt_bInit (smt s)
      then s\<lparr>smt := \<lparr>staticModOverrides = [], staticMods = [], constMods = [], smt_bInit = False\<rparr>\<rparr>
      else s)"

definition static_mod_add :: "mod_env \<Rightarrow> bool \<Rightarrow> string \<Rightarrow> uptr \<Rightarrow> uptr \<Rightarrow> mod_state \<Rightarrow> int \<times> mod_state" where
  "static_mod_add e overrides uri invoke handle_invoke s =
     (if \<not> alloc_r e (ms_log s) then (AEE_ENOMEMORY, s)
      else (let sm = \<lparr>sm_invoke = invoke, sm_handle_invoke = handle_invoke, sm_uri = uri\<rparr>
            in (AEE_SUCCESS,
                s\<lparr>smt := (if overrides
                           then (smt s)\<lparr>staticModOverrides := sm # staticModOverrides (smt s)\<rparr>
                           else (smt s)\<lparr>staticMods := sm # staticMods (smt s)\<rparr>)\<rparr>)))"

definition static_mod_table_register_const_handle ::
    "mod_env \<Rightarrow> u32 \<Rightarrow> u64 \<Rightarrow> string \<Rightarrow> uptr \<Rightarrow> uptr \<Rightarrow> mod_state \<Rightarrow> int \<times> mod_state" where
  "static_mod_table_register_const_handle e local remote uri invoke handle_invoke s =
     (if \<not> alloc_r e (ms_log s) then (AEE_ENOMEMORY, s)
      else (case find_const local s of
              Some _ \<Rightarrow> (-1, s)
            | None \<Rightarrow>
                (AEE_SUCCESS,
                 s\<lparr>smt := (smt s)\<lparr>constMods :=
                    \<lparr>cm_invoke = invoke, cm_handle_invoke = handle_invoke, cm_key = local, cm_h64 = remote, cm_uri = uri\<rparr>
                      # constMods (smt s)\<rparr>\<rparr>)))"

section \<open>Handles of a module\<close>

text \<open>\<^verbatim>\<open>open_mod_handle_open\<close> and \<^verbatim>\<open>open_mod_handle_close\<close> call method 0 and method 1 of the module's
  invoke function; \<^verbatim>\<open>dm->h64\<close> is set if the open succeeds.\<close>

definition open_mod_handle_open :: "mod_env \<Rightarrow> nat \<Rightarrow> string \<Rightarrow> mod_state \<Rightarrow> int \<times> mod_state" where
  "open_mod_handle_open e i name s =
     (let f = om_handle_invoke (slot s i);
          (nErr, h) = mod_open_r e (ms_log s) f name;
          s = add_log (ModOpen f name nErr h) s
      in (nErr, if nErr = 0 then set_slot i (\<lambda>m. m\<lparr>om_h64 := h\<rparr>) s else s))"

definition open_mod_handle_close :: "nat \<Rightarrow> u64 \<Rightarrow> mod_state \<Rightarrow> mod_state" where
  "open_mod_handle_close i h s = add_log (ModClose (om_handle_invoke (slot s i)) h) s"

definition do_dlclose :: "mod_env \<Rightarrow> uptr \<Rightarrow> mod_state \<Rightarrow> int \<times> mod_state" where
  "do_dlclose e h s = (let r = dlclose_r e (ms_log s) h in (r, add_log (Dlclose h r) s))"

definition do_dlopen :: "mod_env \<Rightarrow> nat \<Rightarrow> string \<Rightarrow> mod_state \<Rightarrow> bool \<times> mod_state" where
  "do_dlopen e i name s =
     (let (h, enoent) = dlopen_r e (ms_log s) name
      in (enoent, set_slot i (\<lambda>m. m\<lparr>om_dlhandle := h\<rparr>) (add_log (Dlopen name h) s)))"

text \<open>The closing calls that every path which gives a slot up makes.\<close>

definition close_module_handle :: "nat \<Rightarrow> mod_state \<Rightarrow> mod_state" where
  "close_module_handle i s =
     (if om_h64 (slot s i) \<noteq> 0 then open_mod_handle_close i (om_h64 (slot s i)) s else s)"

definition close_module_library :: "mod_env \<Rightarrow> nat \<Rightarrow> mod_state \<Rightarrow> int \<times> mod_state" where
  "close_module_library e i s =
     (if om_dlhandle (slot s i) \<noteq> 0 then do_dlclose e (om_dlhandle (slot s i)) s else (0, s))"

definition free_slot :: "nat \<Rightarrow> mod_state \<Rightarrow> mod_state" where
  "free_slot i s = set_slot i (\<lambda>m. m\<lparr>om_key := 0\<rparr>) s"

section \<open>Slots\<close>

definition next_available_rev_handle :: "mod_state \<Rightarrow> nat option" where
  "next_available_rev_handle s = find (\<lambda>i. om_key (slot s i) = 0) [0..<MAX_REV_HANDLES]"

text \<open>Comparing up to the greater of the two lengths compares the whole strings.\<close>

definition is_reverse_handle_opened :: "string \<Rightarrow> mod_state \<Rightarrow> u32 option \<times> mod_state" where
  "is_reverse_handle_opened uri s =
     (case find (\<lambda>i. om_key (slot s i) \<noteq> 0 \<and> om_uri (slot s i) = uri) [0..<MAX_REV_HANDLES] of
        None \<Rightarrow> (None, s)
      | Some i \<Rightarrow> (Some (low32 (om_key (slot s i))), set_slot i (\<lambda>m. m\<lparr>om_refs := om_refs m + 1\<rparr>) s))"

text \<open>The parts of a URI, through the parser on a memory that holds it. Where it lies does not
  matter to the texts of the parts.\<close>

definition uri_vals :: "string \<Rightarrow> int \<times> uri_texts" where
  "uri_vals uri =
     (let m = text_mem 4096 uri
      in case parse_uri m 4096 (int (length uri)) of
           Some (nErr, v) \<Rightarrow> (nErr, texts_of m v)
         | None \<Rightarrow> (-1, texts_of m no_parsed_uri))"

section \<open>Opening a dynamic module\<close>

definition tmp_len :: "string \<Rightarrow> nat" where
  "tmp_len uri = 2 * length uri + 52 + 1"

definition snprintf_ok :: "nat \<Rightarrow> string \<Rightarrow> bool" where
  "snprintf_ok n txt \<longleftrightarrow> 0 < length txt \<and> length txt \<le> n"

text \<open>The loop that cuts the name at its last full stop, and the appended suffix.\<close>

definition cut_at_last_dot :: "string \<Rightarrow> string" where
  "cut_at_last_dot t =
     (if CHR ''.'' \<in> set t then rev (tl (dropWhile (\<lambda>c. c \<noteq> CHR ''.'') (rev t))) else t)"

definition system_name :: "nat \<Rightarrow> string \<Rightarrow> string" where
  "system_name n t = take (n - 1) (cut_at_last_dot t @ ''_system.so'')"

definition library_name :: "string \<Rightarrow> uri_texts \<Rightarrow> string" where
  "library_name uri vals = (if ut_file vals \<noteq> [] then ut_file vals else ''lib'' @ uri @ ''_skel.so'')"

definition symbol_name :: "string \<Rightarrow> uri_texts \<Rightarrow> string" where
  "symbol_name uri vals = (if ut_sym vals \<noteq> [] then ut_sym vals else uri @ ''_skel_invoke'')"

text \<open>The result of a phase: \<^verbatim>\<open>nErr\<close>, \<^verbatim>\<open>dlErr\<close> and the state; a non-zero \<^verbatim>\<open>nErr\<close> goes to \<^verbatim>\<open>bail\<close>.\<close>

definition dynamic_library :: "mod_env \<Rightarrow> nat \<Rightarrow> string \<Rightarrow> uri_texts \<Rightarrow> mod_state \<Rightarrow> int \<times> int \<times> mod_state" where
  "dynamic_library e i uri vals s =
     (let tmplen = tmp_len uri; tmp = library_name uri vals
      in if \<not> snprintf_ok tmplen tmp then (AEE_EBADPARM, 0, s)
         else (let (enoent, s) = do_dlopen e i tmp s
               in if om_dlhandle (slot s i) = 0 \<and> enoent
                  then (if length tmp > tmplen then (AEE_EBADPARM, AEE_EINVHANDLE, s)
                        else (let tmp = system_name tmplen tmp
                              in if \<not> snprintf_ok tmplen tmp then (AEE_EBADPARM, AEE_EINVHANDLE, s)
                                 else (let (_, s) = do_dlopen e i tmp s;
                                           dlErr = (if om_dlhandle (slot s i) = 0 then AEE_EINVHANDLE else 0)
                                       in (dlErr, dlErr, s))))
                  else (let dlErr = (if om_dlhandle (slot s i) = 0 then AEE_EINVHANDLE else 0)
                        in (dlErr, dlErr, s))))"

definition dynamic_symbol :: "mod_env \<Rightarrow> nat \<Rightarrow> string \<Rightarrow> uri_texts \<Rightarrow> mod_state \<Rightarrow> int \<times> int \<times> mod_state" where
  "dynamic_symbol e i uri vals s =
     (let tmp = symbol_name uri vals
      in if \<not> snprintf_ok (tmp_len uri) tmp then (AEE_EBADPARM, 0, s)
         else (let f = dlsym_r e (ms_log s) (om_dlhandle (slot s i)) tmp;
                   s = add_log (Dlsym (om_dlhandle (slot s i)) tmp f) s;
                   s = (if ut_ver vals \<noteq> [] \<and> take (length (ut_ver vals)) ''1.0'' = ut_ver vals
                        then set_slot i (\<lambda>m. m\<lparr>om_handle_invoke := f\<rparr>) s
                        else set_slot i (\<lambda>m. m\<lparr>om_invoke := f\<rparr>) s)
               in if om_invoke (slot s i) \<noteq> 0 \<or> om_handle_invoke (slot s i) \<noteq> 0 then (0, 0, s)
                  else (AEE_ENOSUCHSYMBOL, AEE_ENOSUCHSYMBOL, s)))"

text \<open>\<^verbatim>\<open>dm->key\<close> is advanced until no open module has it: at most one step per open module.\<close>

definition unused_key :: "nat \<Rightarrow> mod_state \<Rightarrow> u64" where
  "unused_key i s =
     (let k = om_key (slot s i)
      in case find (\<lambda>n. find_open (low32 (k + of_nat n)) s = None) [0..<Suc (length (openMods s))] of
           Some n \<Rightarrow> k + of_nat n
         | None \<Rightarrow> k)"

definition take_slot :: "mod_env \<Rightarrow> nat \<Rightarrow> string \<Rightarrow> mod_state \<Rightarrow> int \<times> mod_state" where
  "take_slot e i uri s =
     (let s = set_slot i (\<lambda>m. m\<lparr>om_key := slot_key e i, om_refs := 1\<rparr>) s
      in if om_handle_invoke (slot s i) \<noteq> 0 then open_mod_handle_open e i uri s else (0, s))"

definition dynamic_register :: "mod_env \<Rightarrow> nat \<Rightarrow> string \<Rightarrow> mod_state \<Rightarrow> int \<times> mod_state" where
  "dynamic_register e i uri s =
     (let (nErr, s) = take_slot e i uri s
      in if nErr \<noteq> 0 then (nErr, s)
         else (let k = unused_key i s;
                   s = set_slot i (\<lambda>m. m\<lparr>om_key := k\<rparr>) s
               in case find_const (low32 k) s of
                    Some _ \<Rightarrow> (-1, s)
                  | None \<Rightarrow> (0, s\<lparr>openMods := i # openMods s\<rparr>)))"

text \<open>The label \<^verbatim>\<open>bail\<close> with an error: the linker's message, the calls that undo, and the slot freed.\<close>

definition dynamic_bail :: "mod_env \<Rightarrow> nat \<Rightarrow> int \<Rightarrow> int \<Rightarrow> mod_state \<Rightarrow> int \<times> u32 option \<times> int \<times> string option \<times> mod_state" where
  "dynamic_bail e i nErr dlErr s =
     (let str = (if dlErr \<noteq> 0 then dlerror_r e (ms_log s) else None);
          nErr = (if dlErr \<noteq> 0 then 0 else nErr);
          s = close_module_handle i s;
          s = snd (close_module_library e i s)
      in (nErr, None, dlErr, str, free_slot i s))"

text \<open>Returns \<^verbatim>\<open>nErr\<close>, the handle if one is stored, \<^verbatim>\<open>dlErr\<close>, the message and the state.\<close>

definition open_mod_table_open_dynamic ::
    "mod_env \<Rightarrow> string \<Rightarrow> mod_state \<Rightarrow> int \<times> u32 option \<times> int \<times> string option \<times> mod_state" where
  "open_mod_table_open_dynamic e uri s =
     (if \<not> alloc_r e (ms_log s) then (AEE_ENOMEMORY, None, 0, None, s)
      else if REV_HANDLE_SIZE < sizeof_open_mod + length uri + 1 then (AEE_ENOMEMORY, None, 0, None, s)
      else (case is_reverse_handle_opened uri s of
              (Some h, s) \<Rightarrow> (AEE_SUCCESS, Some h, 0, None, s)
            | (None, s) \<Rightarrow>
                (case next_available_rev_handle s of
                   None \<Rightarrow> (AEE_EINVHANDLE, None, 0, None, s)
                 | Some i \<Rightarrow>
                     (let s = set_slot i (\<lambda>_. no_open_mod\<lparr>om_uri := uri\<rparr>) s;
                          vals = snd (uri_vals uri);
                          (nErr, dlErr, s) = dynamic_library e i uri vals s
                      in if nErr \<noteq> 0 then dynamic_bail e i nErr dlErr s
                         else (let (nErr, dlErr, s) = dynamic_symbol e i uri vals s
                               in if nErr \<noteq> 0 then dynamic_bail e i nErr dlErr s
                                  else (let (nErr, s) = dynamic_register e i uri s
                                        in if nErr \<noteq> 0 then dynamic_bail e i nErr 0 s
                                           else (AEE_SUCCESS, Some (low32 (om_key (slot s i))), 0, None, s)))))))"

section \<open>Opening a static module\<close>

text \<open>The URI as the source prints it back from its parts, cut to the buffer.\<close>

definition canonical_uri :: "uri_texts \<Rightarrow> string" where
  "canonical_uri vals =
     (if ut_ver vals \<noteq> []
      then ''file:///'' @ ut_file vals @ ''?'' @ ut_sym vals @ ''&_modver='' @ ut_ver vals
      else ''file://'' @ ut_file vals @ ''?'' @ ut_sym vals)"

text \<open>Finds the entry of the static table, by the URI or by its canonical form.\<close>

definition find_static_mod :: "nat \<Rightarrow> string \<Rightarrow> static_mod list \<Rightarrow> mod_state \<Rightarrow> int \<times> static_mod option \<times> mod_state" where
  "find_static_mod i uri tbl s =
     (case find_static uri tbl of
        Some sm \<Rightarrow> (0, Some sm, s)
      | None \<Rightarrow>
          (let (nErr, vals) = uri_vals uri
           in if nErr \<noteq> 0 then (nErr, None, s)
              else (let c = canonical_uri vals;
                        s = set_slot i (\<lambda>m. m\<lparr>om_uri := take (tmp_len uri - 1) c\<rparr>) s
                    in if \<not> snprintf_ok (tmp_len uri) c then (AEE_EBADPARM, None, s)
                       else (0, find_static (om_uri (slot s i)) tbl, s))))"

definition open_mod_table_open_from_static ::
    "mod_env \<Rightarrow> static_mod list \<Rightarrow> string \<Rightarrow> mod_state \<Rightarrow> int \<times> u32 option \<times> mod_state" where
  "open_mod_table_open_from_static e tbl uri s =
     (if REV_HANDLE_SIZE < sizeof_open_mod + tmp_len uri then (AEE_ENOMEMORY, None, s)
      else (case is_reverse_handle_opened uri s of
              (Some h, s) \<Rightarrow> (AEE_SUCCESS, Some h, s)
            | (None, s) \<Rightarrow>
                (case next_available_rev_handle s of
                   None \<Rightarrow> (AEE_EINVHANDLE, None, s)
                 | Some i \<Rightarrow>
                     (let s = set_slot i (\<lambda>_. no_open_mod\<lparr>om_uri := uri\<rparr>) s;
                          (nErr, sm, s) = find_static_mod i uri tbl s;
                          (nErr, s) =
                            (if nErr \<noteq> 0 then (nErr, s)
                             else (case sm of
                                     None \<Rightarrow> (AEE_ENOSUCHMOD, s)
                                   | Some sm \<Rightarrow>
                                       take_slot e i uri
                                         (set_slot i (\<lambda>m. m\<lparr>om_handle_invoke := sm_handle_invoke sm,
                                                            om_invoke := sm_invoke sm\<rparr>) s)))
                      in if nErr \<noteq> 0 then (nErr, None, free_slot i (close_module_handle i s))
                         else (AEE_SUCCESS, Some (low32 (om_key (slot s i))), s\<lparr>openMods := i # openMods s\<rparr>)))))"

definition open_mod_table_open_static_override :: "mod_env \<Rightarrow> string \<Rightarrow> mod_state \<Rightarrow> int \<times> u32 option \<times> mod_state" where
  "open_mod_table_open_static_override e uri s = open_mod_table_open_from_static e (staticModOverrides (smt s)) uri s"

definition open_mod_table_open_static :: "mod_env \<Rightarrow> string \<Rightarrow> mod_state \<Rightarrow> int \<times> u32 option \<times> mod_state" where
  "open_mod_table_open_static e uri s = open_mod_table_open_from_static e (staticMods (smt s)) uri s"

text \<open>Returns \<^verbatim>\<open>nErr\<close>, the handle if one is stored, \<^verbatim>\<open>*pdlErr\<close>, the message and the state.\<close>

definition open_mod_table_open :: "mod_env \<Rightarrow> string \<Rightarrow> mod_state \<Rightarrow> int \<times> u32 option \<times> int \<times> string option \<times> mod_state" where
  "open_mod_table_open e uri s =
     (case open_mod_table_open_static_override e uri s of
        (e0, h, s) \<Rightarrow>
          if e0 = 0 then (AEE_SUCCESS, h, 0, None, s)
          else (case open_mod_table_open_dynamic e uri s of
                  (nErr, h, dlErr, str, s) \<Rightarrow>
                    if nErr \<noteq> 0 then (nErr, h, 0, str, s)
                    else if dlErr = 0 then (AEE_SUCCESS, h, 0, str, s)
                    else (case open_mod_table_open_static e uri s of
                            (e1, h, s) \<Rightarrow> (AEE_SUCCESS, h, if e1 \<noteq> 0 then dlErr else 0, str, s))))"

section \<open>Closing and invoking\<close>

definition unlink_open :: "nat \<Rightarrow> mod_state \<Rightarrow> mod_state" where
  "unlink_open i s = s\<lparr>openMods := remove1 i (openMods s)\<rparr>"

text \<open>\<^verbatim>\<open>open_mod_close\<close> gives up the reference of an invocation. Under the lock it drops the count and
  unlinks the module at zero; the calls that close it follow outside the lock, and only then is the
  slot free.\<close>

definition open_mod_close_locked :: "nat \<Rightarrow> mod_state \<Rightarrow> bool \<times> mod_state" where
  "open_mod_close_locked i s =
     (let s = set_slot i (\<lambda>m. m\<lparr>om_refs := om_refs m - 1\<rparr>) s
      in if om_refs (slot s i) = 0 then (True, unlink_open i s) else (False, s))"

definition open_mod_close_rest :: "mod_env \<Rightarrow> nat \<Rightarrow> mod_state \<Rightarrow> mod_state" where
  "open_mod_close_rest e i s = free_slot i (snd (close_module_library e i (close_module_handle i s)))"

definition open_mod_close :: "mod_env \<Rightarrow> nat \<Rightarrow> mod_state \<Rightarrow> mod_state" where
  "open_mod_close e i s =
     (case open_mod_close_locked i s of (fin, s) \<Rightarrow> if fin then open_mod_close_rest e i s else s)"

text \<open>\<^verbatim>\<open>open_mod_table_close\<close> frees the slot under the lock and closes the module afterwards, through
  the slot.\<close>

definition open_mod_table_close_locked :: "u64 \<Rightarrow> mod_state \<Rightarrow> int \<times> nat option \<times> mod_state" where
  "open_mod_table_close_locked h s =
     (case find_open (low32 h) s of
        None \<Rightarrow> (AEE_ENOSUCHMOD, None, s)
      | Some i \<Rightarrow>
          (let s = set_slot i (\<lambda>m. m\<lparr>om_refs := om_refs m - 1\<rparr>) s
           in if om_refs (slot s i) = 0 then (0, Some i, free_slot i (unlink_open i s)) else (0, None, s)))"

definition open_mod_table_close_rest :: "mod_env \<Rightarrow> nat \<Rightarrow> mod_state \<Rightarrow> int \<times> mod_state" where
  "open_mod_table_close_rest e i s = close_module_library e i (close_module_handle i s)"

text \<open>Returns \<^verbatim>\<open>nErr\<close>, \<^verbatim>\<open>*pdlErr\<close>, the message and the state.\<close>

definition open_mod_table_close :: "mod_env \<Rightarrow> u64 \<Rightarrow> mod_state \<Rightarrow> int \<times> int \<times> string option \<times> mod_state" where
  "open_mod_table_close e h s =
     (case open_mod_table_close_locked h s of
        (nErr, None, s) \<Rightarrow> (nErr, 0, None, s)
      | (nErr, Some i, s) \<Rightarrow>
          (case open_mod_table_close_rest e i s of
             (dlErr, s) \<Rightarrow> if dlErr \<noteq> 0 then (dlErr, dlErr, dlerror_r e (ms_log s), s) else (nErr, 0, None, s)))"

definition open_mod_table_get_open :: "u32 \<Rightarrow> mod_state \<Rightarrow> nat option \<times> mod_state" where
  "open_mod_table_get_open h s =
     (case find_open h s of
        None \<Rightarrow> (None, s)
      | Some i \<Rightarrow> (Some i, set_slot i (\<lambda>m. m\<lparr>om_refs := om_refs m + 1\<rparr>) s))"

definition open_mod_table_get_const :: "u32 \<Rightarrow> mod_state \<Rightarrow> const_mod option" where
  "open_mod_table_get_const h s = find_const h s"

definition call_module :: "mod_env \<Rightarrow> uptr \<Rightarrow> uptr \<Rightarrow> u64 \<Rightarrow> u32 \<Rightarrow> uptr \<Rightarrow> mod_state \<Rightarrow> int \<times> mod_state" where
  "call_module e invoke handle_invoke h sc pra s =
     (if invoke \<noteq> 0
      then (let r = invoke_r e (ms_log s) invoke sc pra in (r, add_log (ModInvoke invoke sc pra r) s))
      else (let r = handle_invoke_r e (ms_log s) handle_invoke h sc pra
            in (r, add_log (ModHandleInvoke handle_invoke h sc pra r) s)))"

definition open_mod_table_handle_invoke :: "mod_env \<Rightarrow> u32 \<Rightarrow> u32 \<Rightarrow> uptr \<Rightarrow> mod_state \<Rightarrow> int \<times> mod_state" where
  "open_mod_table_handle_invoke e handle sc pra s =
     (case open_mod_table_get_const handle s of
        Some cm \<Rightarrow> call_module e (cm_invoke cm) (cm_handle_invoke cm) (cm_h64 cm) sc pra s
      | None \<Rightarrow>
          (case open_mod_table_get_open handle s of
             (None, s) \<Rightarrow> (AEE_ENOSUCHMOD, s)
           | (Some i, s) \<Rightarrow>
               (let m = slot s i;
                    (nErr, s) = call_module e (om_invoke m) (om_handle_invoke m) (om_h64 m) sc pra s
                in (nErr, open_mod_close e i s))))"

text \<open>The destructor of the open table closes every module that is linked, in the order of opening.\<close>

definition open_mod_table_dtor_imp :: "mod_env \<Rightarrow> mod_state \<Rightarrow> mod_state" where
  "open_mod_table_dtor_imp e s = (fold (open_mod_close_rest e) (rev (openMods s)) s)\<lparr>openMods := []\<rparr>"

section \<open>Entry points\<close>

definition mod_table_type :: uptr where
  "mod_table_type = 0x6d0d"

definition load_table :: "nat list pls_table \<Rightarrow> nat list \<Rightarrow> mod_state \<Rightarrow> mod_state" where
  "load_table g t s = s\<lparr>ms_gpls := g, openMods := t\<rparr>"

definition store_table :: "mod_state \<Rightarrow> mod_state" where
  "store_table s = s\<lparr>ms_gpls := pls_update mod_table_type 0 (openMods s) (ms_gpls s)\<rparr>"

definition mod_table_add_lookup :: "mod_env \<Rightarrow> mod_state \<Rightarrow> int \<times> mod_state" where
  "mod_table_add_lookup e s =
     (case pls_add_lookup_singleton mod_table_type 0 True (alloc_r e (ms_log s)) (0, []) (ms_gpls s) of
        (nErr, Some t, g) \<Rightarrow> (nErr, load_table g t s)
      | (nErr, None, g) \<Rightarrow> (nErr, s))"

definition mod_table_register_static_override :: "mod_env \<Rightarrow> string \<Rightarrow> uptr \<Rightarrow> mod_state \<Rightarrow> int \<times> mod_state" where
  "mod_table_register_static_override e name pfn s = static_mod_add e True name pfn 0 (snd (static_mod_table_ctor s))"

definition mod_table_register_static_override1 :: "mod_env \<Rightarrow> string \<Rightarrow> uptr \<Rightarrow> mod_state \<Rightarrow> int \<times> mod_state" where
  "mod_table_register_static_override1 e name pfn s = static_mod_add e True name 0 pfn (snd (static_mod_table_ctor s))"

definition mod_table_register_static :: "mod_env \<Rightarrow> string \<Rightarrow> uptr \<Rightarrow> mod_state \<Rightarrow> int \<times> mod_state" where
  "mod_table_register_static e name pfn s = static_mod_add e False name pfn 0 (snd (static_mod_table_ctor s))"

definition mod_table_register_static1 :: "mod_env \<Rightarrow> string \<Rightarrow> uptr \<Rightarrow> mod_state \<Rightarrow> int \<times> mod_state" where
  "mod_table_register_static1 e name pfn s = static_mod_add e False name 0 pfn (snd (static_mod_table_ctor s))"

definition mod_table_register_const_handle :: "mod_env \<Rightarrow> u32 \<Rightarrow> string \<Rightarrow> uptr \<Rightarrow> mod_state \<Rightarrow> int \<times> mod_state" where
  "mod_table_register_const_handle e remote uri pfn s =
     static_mod_table_register_const_handle e remote 0 uri pfn 0 (snd (static_mod_table_ctor s))"

definition mod_table_register_const_handle1 :: "mod_env \<Rightarrow> u32 \<Rightarrow> u64 \<Rightarrow> string \<Rightarrow> uptr \<Rightarrow> mod_state \<Rightarrow> int \<times> mod_state" where
  "mod_table_register_const_handle1 e remote local uri pfn s =
     static_mod_table_register_const_handle e remote local uri 0 pfn (snd (static_mod_table_ctor s))"

definition mod_table_open :: "mod_env \<Rightarrow> string option \<Rightarrow> mod_state \<Rightarrow> int \<times> u32 option \<times> int \<times> string option \<times> mod_state" where
  "mod_table_open e uri s =
     (case uri of
        None \<Rightarrow> (AEE_EBADPARM, None, 0, None, s)
      | Some uri \<Rightarrow>
          (case mod_table_add_lookup e s of
             (nErr, s) \<Rightarrow>
               if nErr \<noteq> 0 then (nErr, None, 0, None, s)
               else (case open_mod_table_open e uri s of
                       (nErr, h, dlErr, str, s) \<Rightarrow> (nErr, h, dlErr, str, store_table s))))"

definition mod_table_invoke :: "mod_env \<Rightarrow> u32 \<Rightarrow> u32 \<Rightarrow> uptr \<Rightarrow> mod_state \<Rightarrow> int \<times> mod_state" where
  "mod_table_invoke e handle sc pra s =
     (case mod_table_add_lookup e s of
        (nErr, s) \<Rightarrow>
          if nErr \<noteq> 0 then (nErr, s)
          else (case open_mod_table_handle_invoke e handle sc pra s of (nErr, s) \<Rightarrow> (nErr, store_table s)))"

definition mod_table_close :: "mod_env \<Rightarrow> u32 \<Rightarrow> mod_state \<Rightarrow> int \<times> int \<times> string option \<times> mod_state" where
  "mod_table_close e handle s =
     (case pls_lookup mod_table_type 0 (ms_gpls s) of
        (nErr, None) \<Rightarrow> (nErr, 0, None, s)
      | (nErr, Some t) \<Rightarrow>
          (case open_mod_table_close e (ucast handle) (load_table (ms_gpls s) t s) of
             (nErr, dlErr, str, s) \<Rightarrow> (nErr, dlErr, str, store_table s)))"

definition mod_table_ctor :: "mod_state \<Rightarrow> int \<times> mod_state" where
  "mod_table_ctor s = static_mod_table_ctor s"

definition mod_table_dtor :: "mod_state \<Rightarrow> mod_state" where
  "mod_table_dtor s = static_mod_table_dtor_imp s"

text \<open>The end of the process-local storage runs the destructor of the open table.\<close>

definition mod_table_gpls_deinit :: "mod_env \<Rightarrow> mod_state \<Rightarrow> mod_state" where
  "mod_table_gpls_deinit e s =
     (case gpls_deinit (ms_gpls s) of
        (ds, g) \<Rightarrow> fold (\<lambda>d s. open_mod_table_dtor_imp e (load_table g d s)) ds (s\<lparr>ms_gpls := g\<rparr>))"

end
