(* ===== verification/ModTableInv.thy ===== *)
theory ModTableInv
  imports ModTable "HOL-Library.Multiset"
begin

text \<open>
  The invariant of the module table. \<open>mods_ok\<close> ties the slots to the table of open modules: a slot
  has a key exactly if it is linked, the key is its address, its count is positive and it can be
  called. \<open>balanced\<close> accounts for what the modules hold: every library that was loaded and every
  handle that a module handed out has been given back exactly once, or is in a slot that is in
  use. \<open>owns\<close> is the invariant while an operation works on a slot that is not linked.
\<close>

section \<open>Slots\<close>

lemma set_slot_simps [simp]:
  "smt (set_slot i f s) = smt s" "openMods (set_slot i f s) = openMods s" "ms_gpls (set_slot i f s) = ms_gpls s"
  "ms_log (set_slot i f s) = ms_log s" "length (rev_handle_table (set_slot i f s)) = length (rev_handle_table s)"
  by (simp_all add: set_slot_def)

lemma slot_set_slot: "i < length (rev_handle_table s) \<Longrightarrow> slot (set_slot i f s) j = (if j = i then f (slot s i) else slot s j)"
  by (simp add: set_slot_def)

lemma add_log_simps [simp]:
  "smt (add_log ev s) = smt s" "openMods (add_log ev s) = openMods s" "ms_gpls (add_log ev s) = ms_gpls s"
  "rev_handle_table (add_log ev s) = rev_handle_table s" "ms_log (add_log ev s) = ms_log s @ [ev]"
  by (simp_all add: add_log_def)

lemma ucast_u32_u64_plus: "(ucast (a + b :: u64) :: u32) = ucast a + ucast b"
proof -
  have "uint (ucast (a + b) :: u32) = uint (ucast a + ucast b :: u32)"
    by (simp add: unsigned_ucast_eq uint_word_ariths take_bit_eq_mod mod_mod_cancel mod_add_eq)
  then show ?thesis by (rule unsigned_word_eqI)
qed

lemma low32_slot_key: "low32 (slot_key e i) = ucast (rev_base e) + of_nat (REV_HANDLE_SIZE * i)"
proof -
  have "ucast (ucast (x :: u32) :: u64) = x" for x
    by (rule bit_word_eqI) (simp add: bit_ucast_iff)
  then have "low32 (slot_key e i) = ucast (rev_base e + of_nat (REV_HANDLE_SIZE * i))"
    by (simp add: low32_def slot_key_def)
  moreover have "(ucast (of_nat n :: u64) :: u32) = of_nat n" for n
    by transfer simp
  ultimately show ?thesis by (simp only: ucast_u32_u64_plus)
qed

lemma slot_key_inj:
  assumes "i < MAX_REV_HANDLES" and "j < MAX_REV_HANDLES"
  shows "low32 (slot_key e i) = low32 (slot_key e j) \<longleftrightarrow> i = j"
proof -
  have "(of_nat (REV_HANDLE_SIZE * i) :: u32) = of_nat (REV_HANDLE_SIZE * j) \<longleftrightarrow> REV_HANDLE_SIZE * i = REV_HANDLE_SIZE * j"
    using assms by (subst word_of_nat_eq_iff) (simp add: take_bit_nat_eq_self)
  then show ?thesis by (simp add: low32_slot_key)
qed

text \<open>The slots do not lie at addresses whose low half is zero.\<close>

definition env_ok :: "mod_env \<Rightarrow> bool" where
  "env_ok e \<longleftrightarrow> (\<forall>i < MAX_REV_HANDLES. slot_key e i \<noteq> 0)"

section \<open>The invariant\<close>

definition callable :: "open_mod \<Rightarrow> bool" where
  "callable m \<longleftrightarrow> om_invoke m \<noteq> 0 \<or> om_handle_invoke m \<noteq> 0"

definition linked_ok :: "mod_env \<Rightarrow> nat \<Rightarrow> open_mod \<Rightarrow> bool" where
  "linked_ok e i m \<longleftrightarrow> om_key m = slot_key e i \<and> om_refs m \<ge> 1 \<and> callable m"

definition statics_ok :: "static_mod_table \<Rightarrow> bool" where
  "statics_ok t \<longleftrightarrow> (\<forall>m \<in> set (staticModOverrides t) \<union> set (staticMods t). sm_invoke m \<noteq> 0 \<or> sm_handle_invoke m \<noteq> 0)"

text \<open>\<open>X\<close> are the slots that an operation works on.\<close>

definition mods_but :: "mod_env \<Rightarrow> nat set \<Rightarrow> mod_state \<Rightarrow> bool" where
  "mods_but e X s \<longleftrightarrow>
     length (rev_handle_table s) = MAX_REV_HANDLES \<and> distinct (openMods s) \<and> statics_ok (smt s) \<and>
     set (openMods s) = {j. j < MAX_REV_HANDLES \<and> j \<notin> X \<and> om_key (slot s j) \<noteq> 0} \<and>
     (\<forall>j \<in> set (openMods s). linked_ok e j (slot s j))"

abbreviation mods_ok :: "mod_env \<Rightarrow> mod_state \<Rightarrow> bool" where
  "mods_ok e s \<equiv> mods_but e {} s"

text \<open>What a module can hold, what a slot holds, and what the calls of the log gain and release.\<close>

datatype res = Lib uptr | Hnd uptr u64

definition res_of :: "open_mod \<Rightarrow> res multiset" where
  "res_of m = (if om_dlhandle m \<noteq> 0 then {#Lib (om_dlhandle m)#} else {#}) +
              (if om_h64 m \<noteq> 0 then {#Hnd (om_handle_invoke m) (om_h64 m)#} else {#})"

fun gained :: "mod_event \<Rightarrow> res multiset" where
  "gained (Dlopen n h) = (if h \<noteq> 0 then {#Lib h#} else {#})"
| "gained (ModOpen f n r h) = (if r = 0 \<and> h \<noteq> 0 then {#Hnd f h#} else {#})"
| "gained _ = {#}"

fun released :: "mod_event \<Rightarrow> res multiset" where
  "released (Dlclose h r) = {#Lib h#}"
| "released (ModClose f h) = {#Hnd f h#}"
| "released _ = {#}"

definition log_gain :: "mod_log \<Rightarrow> res multiset" where
  "log_gain l = sum_list (map gained l)"

definition log_release :: "mod_log \<Rightarrow> res multiset" where
  "log_release l = sum_list (map released l)"

definition held :: "mod_state \<Rightarrow> res multiset" where
  "held s = (\<Sum>j \<in> {j. j < MAX_REV_HANDLES \<and> om_key (slot s j) \<noteq> 0}. res_of (slot s j))"

definition held_but :: "nat \<Rightarrow> mod_state \<Rightarrow> res multiset" where
  "held_but i s = (\<Sum>j \<in> {j. j < MAX_REV_HANDLES \<and> j \<noteq> i \<and> om_key (slot s j) \<noteq> 0}. res_of (slot s j))"

definition balanced :: "mod_state \<Rightarrow> bool" where
  "balanced s \<longleftrightarrow> log_gain (ms_log s) = log_release (ms_log s) + held s"

definition table_good :: "mod_env \<Rightarrow> mod_state \<Rightarrow> bool" where
  "table_good e s \<longleftrightarrow> mods_ok e s \<and> balanced s"

definition owns :: "mod_env \<Rightarrow> nat \<Rightarrow> mod_state \<Rightarrow> bool" where
  "owns e i s \<longleftrightarrow> i < MAX_REV_HANDLES \<and> mods_but e {i} s \<and>
     log_gain (ms_log s) = log_release (ms_log s) + held_but i s + res_of (slot s i)"

lemma log_simps [simp]:
  "log_gain [] = {#}" "log_gain (ev # l) = gained ev + log_gain l" "log_gain (l @ l') = log_gain l + log_gain l'"
  "log_release [] = {#}" "log_release (ev # l) = released ev + log_release l"
  "log_release (l @ l') = log_release l + log_release l'"
  by (simp_all add: log_gain_def log_release_def)

lemma held_but_set_slot [simp]:
  "i < length (rev_handle_table s) \<Longrightarrow> held_but i (set_slot i f s) = held_but i s"
  unfolding held_but_def by (rule sum.cong) (auto simp: slot_set_slot)

lemma held_but_add_log [simp]: "held_but i (add_log ev s) = held_but i s"
  by (simp add: held_but_def)

lemma held_split:
  assumes "i < MAX_REV_HANDLES"
  shows "held s = held_but i s + (if om_key (slot s i) \<noteq> 0 then res_of (slot s i) else {#})"
proof (cases "om_key (slot s i) \<noteq> 0")
  case True
  have "{j. j < MAX_REV_HANDLES \<and> om_key (slot s j) \<noteq> 0} =
      insert i {j. j < MAX_REV_HANDLES \<and> j \<noteq> i \<and> om_key (slot s j) \<noteq> 0}"
    using assms True by auto
  then show ?thesis using True by (simp add: held_def held_but_def add.commute)
next
  case False
  then have "{j. j < MAX_REV_HANDLES \<and> om_key (slot s j) \<noteq> 0} =
      {j. j < MAX_REV_HANDLES \<and> j \<noteq> i \<and> om_key (slot s j) \<noteq> 0}" by auto
  then show ?thesis using False by (simp add: held_def held_but_def)
qed

lemma mods_but_set_slot [simp]:
  "mods_but e {i} s \<Longrightarrow> i < MAX_REV_HANDLES \<Longrightarrow> mods_but e {i} (set_slot i f s)"
  by (auto simp: mods_but_def slot_set_slot)

lemma mods_but_add_log [simp]: "mods_but e X (add_log ev s) = mods_but e X s"
  by (simp add: mods_but_def)

lemma mods_but_length: "mods_but e X s \<Longrightarrow> length (rev_handle_table s) = MAX_REV_HANDLES"
  by (simp add: mods_but_def)

lemma mods_linked:
  assumes "mods_but e X s" and "j \<in> set (openMods s)"
  shows "j < MAX_REV_HANDLES" and "j \<notin> X" and "linked_ok e j (slot s j)"
  using assms unfolding mods_but_def by blast+

lemma good_linked:
  assumes "table_good e s" and "j < MAX_REV_HANDLES" and "om_key (slot s j) \<noteq> 0"
  shows "j \<in> set (openMods s)"
  using assms unfolding table_good_def mods_but_def by blast

lemma owns_slot: "owns e i s \<Longrightarrow> i < length (rev_handle_table s)"
  by (simp add: owns_def mods_but_def)

text \<open>Taking a free slot, working on it, and giving it up or linking it.\<close>

lemma owns_start:
  assumes "table_good e s" and "i < MAX_REV_HANDLES" and "om_key (slot s i) = 0" and "res_of m = {#}"
  shows "owns e i (set_slot i (\<lambda>_. m) s)"
proof -
  have "mods_but e {i} s" using assms by (auto simp: table_good_def mods_but_def)
  then show ?thesis
    using assms held_split [OF assms(2), of s]
    by (simp add: owns_def table_good_def balanced_def mods_but_length slot_set_slot)
qed

lemma owns_set_slot:
  assumes "owns e i s" and "res_of (f (slot s i)) = res_of (slot s i)"
  shows "owns e i (set_slot i f s)"
  using assms owns_slot [OF assms(1)] by (simp add: owns_def slot_set_slot)

lemma owns_add_log:
  assumes "owns e i s" and "gained ev = {#}" and "released ev = {#}"
  shows "owns e i (add_log ev s)"
  using assms by (simp add: owns_def)

lemma owns_dlopen:
  assumes "owns e i s" and "om_dlhandle (slot s i) = 0"
  shows "owns e i (snd (do_dlopen e i n s))"
  using assms owns_slot [OF assms(1)]
  by (auto simp: do_dlopen_def owns_def slot_set_slot res_of_def split: prod.splits)

lemma owns_handle_open:
  assumes "owns e i s" and "om_h64 (slot s i) = 0"
  shows "owns e i (snd (open_mod_handle_open e i n s))"
  using assms owns_slot [OF assms(1)]
  by (auto simp: open_mod_handle_open_def owns_def slot_set_slot res_of_def Let_def split: prod.splits)

lemma owns_give_up:
  assumes "owns e i s"
  shows "table_good e (free_slot i (snd (close_module_library e i (close_module_handle i s))))"
proof -
  let ?s = "snd (close_module_library e i (close_module_handle i s))"
  have i: "i < MAX_REV_HANDLES" "i < length (rev_handle_table s)" using assms owns_slot by (auto simp: owns_def)
  have rev: "rev_handle_table ?s = rev_handle_table s" "openMods ?s = openMods s" "smt ?s = smt s"
    by (simp_all add: close_module_library_def close_module_handle_def do_dlclose_def open_mod_handle_close_def Let_def)
  have hb: "held_but i ?s = held_but i s" by (simp add: held_but_def rev)
  have "log_gain (ms_log ?s) = log_gain (ms_log s)"
    "log_release (ms_log ?s) = log_release (ms_log s) + res_of (slot s i)"
    by (simp_all add: close_module_library_def close_module_handle_def do_dlclose_def open_mod_handle_close_def Let_def res_of_def)
  then have "log_gain (ms_log ?s) = log_release (ms_log ?s) + held_but i ?s"
    using assms hb by (simp add: owns_def)
  moreover have "mods_but e {i} ?s" using assms rev by (simp add: owns_def mods_but_def)
  then have "mods_ok e (free_slot i ?s)"
    using i rev by (auto simp: free_slot_def mods_but_def slot_set_slot)
  ultimately show ?thesis
    using i rev held_split [OF i(1), of "free_slot i ?s"]
    by (simp add: table_good_def balanced_def free_slot_def slot_set_slot)
qed

lemma owns_link:
  assumes "owns e i s" and "linked_ok e i (slot s i)" and "env_ok e"
  shows "table_good e (s\<lparr>openMods := i # openMods s\<rparr>)"
proof -
  have i: "i < MAX_REV_HANDLES" and k: "om_key (slot s i) \<noteq> 0"
    using assms by (auto simp: owns_def linked_ok_def env_ok_def)
  have "mods_ok e (s\<lparr>openMods := i # openMods s\<rparr>)"
    using assms i k by (auto simp: owns_def mods_but_def)
  moreover have "held (s\<lparr>openMods := i # openMods s\<rparr>) = held s" by (simp add: held_def)
  ultimately show ?thesis
    using assms(1) k held_split [OF i, of s] by (simp add: table_good_def balanced_def owns_def)
qed

lemma owns_unlink:
  assumes "table_good e s" and "i \<in> set (openMods s)"
  shows "owns e i (unlink_open i s)"
proof -
  have i: "i < MAX_REV_HANDLES" "om_key (slot s i) \<noteq> 0"
    using assms by (auto simp: table_good_def mods_but_def)
  have "mods_but e {i} (unlink_open i s)"
    using assms by (auto simp: table_good_def mods_but_def unlink_open_def)
  moreover have "held_but i (unlink_open i s) = held_but i s" by (simp add: held_but_def unlink_open_def)
  ultimately show ?thesis
    using assms(1) i held_split [OF i(1), of s]
    by (simp add: owns_def table_good_def balanced_def unlink_open_def)
qed

lemma good_refs:
  assumes "table_good e s" and "i \<in> set (openMods s)" and "om_refs (slot s i) + d \<ge> 1"
  shows "table_good e (set_slot i (\<lambda>m. m\<lparr>om_refs := om_refs m + d\<rparr>) s)"
proof -
  have i: "i < MAX_REV_HANDLES" and len: "length (rev_handle_table s) = MAX_REV_HANDLES"
    using assms by (auto simp: table_good_def mods_but_def)
  have r: "res_of (m\<lparr>om_refs := x\<rparr>) = res_of m" for m x by (simp add: res_of_def)
  let ?s = "set_slot i (\<lambda>m. m\<lparr>om_refs := om_refs m + d\<rparr>) s"
  have k: "om_key (slot ?s j) = om_key (slot s j)" for j using i len by (simp add: slot_set_slot)
  have "held ?s = held s" using i len by (simp add: held_split [OF i] slot_set_slot r)
  moreover have "linked_ok e j (slot ?s j)" if "j \<in> set (openMods s)" for j
  proof -
    have "linked_ok e j (slot s j)" using that assms(1) by (simp add: table_good_def mods_but_def)
    then show ?thesis using assms(3) i len by (cases "j = i") (simp_all add: slot_set_slot linked_ok_def callable_def)
  qed
  then have "mods_ok e ?s" using assms(1) k by (simp add: table_good_def mods_but_def)
  ultimately show ?thesis using assms(1) by (simp add: table_good_def balanced_def)
qed

section \<open>The operations keep it\<close>

text \<open>The slot in hand carries no handle of its module yet.\<close>

definition fresh :: "mod_env \<Rightarrow> nat \<Rightarrow> mod_state \<Rightarrow> bool" where
  "fresh e i s \<longleftrightarrow> owns e i s \<and> om_h64 (slot s i) = 0"

lemma fresh_owns: "fresh e i s \<Longrightarrow> owns e i s"
  by (simp add: fresh_def)

lemma fresh_start:
  assumes "table_good e s" and "next_available_rev_handle s = Some i"
  shows "fresh e i (set_slot i (\<lambda>_. no_open_mod\<lparr>om_uri := u\<rparr>) s)"
    and "om_dlhandle (slot (set_slot i (\<lambda>_. no_open_mod\<lparr>om_uri := u\<rparr>) s) i) = 0"
proof -
  have "i < MAX_REV_HANDLES \<and> om_key (slot s i) = 0"
    using assms(2) by (auto simp: next_available_rev_handle_def find_Some_iff simp del: upt_rec_numeral)
  moreover have "length (rev_handle_table s) = MAX_REV_HANDLES" using assms(1) by (simp add: table_good_def mods_but_def)
  ultimately show "fresh e i (set_slot i (\<lambda>_. no_open_mod\<lparr>om_uri := u\<rparr>) s)"
    and "om_dlhandle (slot (set_slot i (\<lambda>_. no_open_mod\<lparr>om_uri := u\<rparr>) s) i) = 0"
    using owns_start [OF assms(1), of i "no_open_mod\<lparr>om_uri := u\<rparr>"]
    by (auto simp: fresh_def slot_set_slot no_open_mod_def res_of_def)
qed

lemma fresh_slot: "fresh e i s \<Longrightarrow> i < length (rev_handle_table s)"
  using owns_slot [OF fresh_owns] .

lemma fresh_dlopen:
  assumes "do_dlopen e i n s = (r, s')" and "fresh e i s" and "om_dlhandle (slot s i) = 0"
  shows "fresh e i s'"
  using assms owns_dlopen [OF fresh_owns [OF assms(2)] assms(3), of n] fresh_slot [OF assms(2)]
  by (auto simp: fresh_def do_dlopen_def slot_set_slot split: prod.splits)

lemma fresh_library:
  assumes "fresh e i s" and "om_dlhandle (slot s i) = 0" and "dynamic_library e i uri vals s = (nErr, dlErr, s')"
  shows "fresh e i s'"
  using assms by (auto simp: dynamic_library_def Let_def split: if_splits prod.splits dest: fresh_dlopen)

lemma fresh_symbol:
  assumes "fresh e i s" and "dynamic_symbol e i uri vals s = (nErr, dlErr, s')"
  shows "fresh e i s' \<and> (nErr = 0 \<longrightarrow> callable (slot s' i))"
proof -
  have len: "i < length (rev_handle_table s)" by (rule fresh_slot [OF assms(1)])
  have log: "fresh e i (add_log (Dlsym h t f) s)" for h t f
    using assms(1) owns_add_log by (simp add: fresh_def)
  have set: "fresh e i (set_slot i g (add_log (Dlsym h t f) s))"
    if "\<And>m. om_h64 (g m) = om_h64 m" "\<And>m. om_dlhandle (g m) = om_dlhandle m" for g h t f
    using log [of h t f] that len by (auto simp: fresh_def slot_set_slot res_of_def intro!: owns_set_slot)
  show ?thesis
    using assms by (auto simp: dynamic_symbol_def Let_def callable_def intro!: set split: if_splits)
qed

lemma take_slot_spec:
  assumes "fresh e i s" and "callable (slot s i)" and "take_slot e i uri s = (nErr, s')"
  shows "owns e i s' \<and> (nErr = 0 \<longrightarrow> linked_ok e i (slot s' i))"
proof -
  let ?s = "set_slot i (\<lambda>m. m\<lparr>om_key := slot_key e i, om_refs := 1\<rparr>) s"
  have len: "i < length (rev_handle_table s)" by (rule fresh_slot [OF assms(1)])
  have o: "owns e i ?s" and h: "om_h64 (slot ?s i) = 0" and l: "linked_ok e i (slot ?s i)"
    using assms(1,2) len
    by (auto simp: fresh_def slot_set_slot res_of_def linked_ok_def callable_def intro!: owns_set_slot)
  show ?thesis
  proof (cases "om_handle_invoke (slot ?s i) \<noteq> 0")
    case True
    then have "open_mod_handle_open e i uri ?s = (nErr, s')" using assms(3) by (simp add: take_slot_def)
    moreover have "linked_ok e i (slot (snd (open_mod_handle_open e i uri ?s)) i)"
      using l len by (auto simp: open_mod_handle_open_def Let_def slot_set_slot linked_ok_def callable_def split: prod.splits)
    ultimately show ?thesis using owns_handle_open [OF o h, of uri] by simp
  next
    case False
    then show ?thesis using assms(3) o l by (simp add: take_slot_def)
  qed
qed

lemma find_open_None:
  assumes "mods_but e {i} s" and "i < MAX_REV_HANDLES"
  shows "find_open (low32 (slot_key e i)) s = None"
proof -
  have "low32 (om_key (slot s j)) \<noteq> low32 (slot_key e i)" if "j \<in> set (openMods s)" for j
    using mods_linked [OF assms(1) that] assms(2) slot_key_inj [of j i e] by (auto simp: linked_ok_def)
  then show ?thesis by (simp add: find_open_def find_None_iff)
qed

lemma unused_key_free:
  assumes "owns e i s" and "om_key (slot s i) = slot_key e i"
  shows "unused_key i s = slot_key e i"
proof -
  have "find_open (low32 (slot_key e i)) s = None"
    using assms(1) find_open_None by (simp add: owns_def)
  then show ?thesis
    using assms(2) by (simp add: unused_key_def upt_conv_Cons del: upt_Suc)
qed

lemma dynamic_register_spec:
  assumes "fresh e i s" and "callable (slot s i)" and "env_ok e" and "dynamic_register e i uri s = (nErr, s')"
  shows "if nErr = 0 then table_good e s' else owns e i s'"
proof -
  obtain n1 s1 where t: "take_slot e i uri s = (n1, s1)" by (cases "take_slot e i uri s")
  have o: "owns e i s1" "n1 = 0 \<longrightarrow> linked_ok e i (slot s1 i)" using take_slot_spec [OF assms(1,2) t] by auto
  show ?thesis
  proof (cases "n1 = 0")
    case False
    then show ?thesis using assms(4) t o by (simp add: dynamic_register_def)
  next
    case True
    let ?s = "set_slot i (\<lambda>m. m\<lparr>om_key := slot_key e i\<rparr>) s1"
    have l: "linked_ok e i (slot s1 i)" using True o by simp
    then have k: "unused_key i s1 = slot_key e i" using unused_key_free [OF o(1)] by (simp add: linked_ok_def)
    have o': "owns e i ?s" "linked_ok e i (slot ?s i)"
      using o(1) l owns_slot [OF o(1)]
      by (auto simp: res_of_def slot_set_slot linked_ok_def callable_def intro!: owns_set_slot)
    then show ?thesis
      using assms(4) t True k owns_link [OF o' assms(3)] by (auto simp: dynamic_register_def Let_def split: option.splits)
  qed
qed

lemma dynamic_bail_good: "owns e i s \<Longrightarrow> dynamic_bail e i nErr dlErr s = (r, h, d, str, s') \<Longrightarrow> table_good e s'"
  using owns_give_up [of e i s] by (auto simp: dynamic_bail_def Let_def)

lemma is_reverse_handle_opened_good:
  assumes "table_good e s" and "is_reverse_handle_opened uri s = (r, s')"
  shows "table_good e s'"
proof (cases "find (\<lambda>i. om_key (slot s i) \<noteq> 0 \<and> om_uri (slot s i) = uri) [0..<MAX_REV_HANDLES]")
  case None
  then show ?thesis using assms by (simp add: is_reverse_handle_opened_def)
next
  case (Some i)
  then have "i < MAX_REV_HANDLES" "om_key (slot s i) \<noteq> 0" by (auto simp: find_Some_iff simp del: upt_rec_numeral)
  then have i: "i \<in> set (openMods s)" by (rule good_linked [OF assms(1)])
  then have "om_refs (slot s i) + 1 \<ge> 1"
    using assms(1) mods_linked(3) [of e "{}" s i] by (simp add: table_good_def linked_ok_def)
  from good_refs [OF assms(1) i this] show ?thesis
    using assms(2) Some by (auto simp: is_reverse_handle_opened_def simp del: upt_rec_numeral)
qed

lemma open_dynamic_good:
  assumes "table_good e s" and "env_ok e" and "open_mod_table_open_dynamic e uri s = (nErr, h, dlErr, str, s')"
  shows "table_good e s'"
proof (cases "is_reverse_handle_opened uri s")
  case (Pair r s1)
  have g1: "table_good e s1" using is_reverse_handle_opened_good [OF assms(1) Pair] .
  show ?thesis
  proof (cases "alloc_r e (ms_log s) \<and> \<not> REV_HANDLE_SIZE < sizeof_open_mod + length uri + 1 \<and> r = None \<and>
      next_available_rev_handle s1 \<noteq> None")
    case False
    then show ?thesis
      using assms(1,3) g1 Pair by (auto simp: open_mod_table_open_dynamic_def split: if_splits option.splits)
  next
    case True
    then obtain i where i: "next_available_rev_handle s1 = Some i" by auto
    let ?s2 = "set_slot i (\<lambda>_. no_open_mod\<lparr>om_uri := uri\<rparr>) s1"
    obtain n3 d3 s3 where 3: "dynamic_library e i uri (snd (uri_vals uri)) ?s2 = (n3, d3, s3)" by (metis prod_cases3)
    have f3: "fresh e i s3" using fresh_library [OF fresh_start [OF g1 i] 3] .
    obtain n4 d4 s4 where 4: "dynamic_symbol e i uri (snd (uri_vals uri)) s3 = (n4, d4, s4)" by (metis prod_cases3)
    have f4: "fresh e i s4" "n4 = 0 \<longrightarrow> callable (slot s4 i)" using fresh_symbol [OF f3 4] by auto
    obtain n5 s5 where 5: "dynamic_register e i uri s4 = (n5, s5)" by (cases "dynamic_register e i uri s4")
    show ?thesis
      using assms(3) True Pair i 3 4 5 dynamic_bail_good [OF fresh_owns [OF f3]] dynamic_bail_good [OF fresh_owns [OF f4(1)]]
        dynamic_bail_good [of e i s5] dynamic_register_spec [OF f4(1) _ assms(2) 5] f4(2)
      by (auto simp: open_mod_table_open_dynamic_def split: if_splits)
  qed
qed

lemma find_static_mod_fresh:
  assumes "fresh e i s" and "find_static_mod i uri tbl s = (nErr, sm, s')"
  shows "fresh e i s' \<and> (\<forall>m. sm = Some m \<longrightarrow> m \<in> set tbl)"
proof -
  have "fresh e i (set_slot i (\<lambda>m. m\<lparr>om_uri := u\<rparr>) s)" for u
    using assms(1) fresh_slot [OF assms(1)] by (auto simp: fresh_def slot_set_slot res_of_def intro!: owns_set_slot)
  then show ?thesis
    using assms by (auto simp: find_static_mod_def find_static_def find_Some_iff Let_def split: option.splits if_splits prod.splits)
qed

lemma owns_free_only:
  assumes "owns e i s" and "om_dlhandle (slot s i) = 0"
  shows "table_good e (free_slot i (close_module_handle i s))"
proof -
  have "om_dlhandle (slot (close_module_handle i s) i) = 0"
    using assms(2) by (simp add: close_module_handle_def open_mod_handle_close_def)
  then show ?thesis using owns_give_up [OF assms(1)] by (simp add: close_module_library_def)
qed

lemma slot_dlhandle_static:
  "find_static_mod i uri tbl s = (nErr, sm, s') \<Longrightarrow> i < length (rev_handle_table s) \<Longrightarrow>
     om_dlhandle (slot s' i) = om_dlhandle (slot s i) \<and> length (rev_handle_table s') = length (rev_handle_table s)"
  "take_slot e i uri s = (nErr, s') \<Longrightarrow> i < length (rev_handle_table s) \<Longrightarrow> om_dlhandle (slot s' i) = om_dlhandle (slot s i)"
  by (auto simp: find_static_mod_def take_slot_def open_mod_handle_open_def Let_def slot_set_slot
      split: option.splits if_splits prod.splits)

lemma open_from_static_good:
  assumes "table_good e s" and "env_ok e" and "open_mod_table_open_from_static e tbl uri s = (nErr, h, s')"
    and tbl: "\<forall>m \<in> set tbl. sm_invoke m \<noteq> 0 \<or> sm_handle_invoke m \<noteq> 0"
  shows "table_good e s'"
proof (cases "is_reverse_handle_opened uri s")
  case (Pair r s1)
  have g1: "table_good e s1" using is_reverse_handle_opened_good [OF assms(1) Pair] .
  show ?thesis
  proof (cases "\<not> REV_HANDLE_SIZE < sizeof_open_mod + tmp_len uri \<and> r = None \<and> next_available_rev_handle s1 \<noteq> None")
    case False
    then show ?thesis
      using assms(1,3) g1 Pair by (auto simp: open_mod_table_open_from_static_def split: if_splits option.splits)
  next
    case True
    then obtain i where i: "next_available_rev_handle s1 = Some i" by auto
    let ?s2 = "set_slot i (\<lambda>_. no_open_mod\<lparr>om_uri := uri\<rparr>) s1"
    note f2 = fresh_start [OF g1 i, of uri]
    obtain n3 sm s3 where 3: "find_static_mod i uri tbl ?s2 = (n3, sm, s3)" by (metis prod_cases3)
    have f3: "fresh e i s3" "\<And>m. sm = Some m \<Longrightarrow> m \<in> set tbl" using find_static_mod_fresh [OF f2(1) 3] by auto
    have d3: "om_dlhandle (slot s3 i) = 0" using slot_dlhandle_static(1) [OF 3 fresh_slot [OF f2(1)]] f2(2) by simp
    have stop: "table_good e (free_slot i (close_module_handle i s3))" using owns_free_only [OF fresh_owns [OF f3(1)] d3] .
    show ?thesis
    proof (cases "n3 = 0 \<and> sm \<noteq> None")
      case False
      then show ?thesis
        using assms(3) True Pair i 3 stop by (auto simp: open_mod_table_open_from_static_def Let_def split: if_splits)
    next
      case sm: True
      then obtain m where m: "sm = Some m" by auto
      let ?s4 = "set_slot i (\<lambda>x. x\<lparr>om_handle_invoke := sm_handle_invoke m, om_invoke := sm_invoke m\<rparr>) s3"
      have f4: "fresh e i ?s4"
        using f3(1) fresh_slot [OF f3(1)] by (auto simp: fresh_def slot_set_slot res_of_def intro!: owns_set_slot)
      have c4: "callable (slot ?s4 i)"
        using tbl f3(2) [OF m] fresh_slot [OF f3(1)] by (auto simp: callable_def slot_set_slot)
      obtain n5 s5 where 5: "take_slot e i uri ?s4 = (n5, s5)" by (cases "take_slot e i uri ?s4")
      note t5 = take_slot_spec [OF f4 c4 5]
      have "om_dlhandle (slot s5 i) = 0"
        using slot_dlhandle_static(2) [OF 5] d3 fresh_slot [OF f3(1)] by (simp add: slot_set_slot)
      then show ?thesis
        using assms(3) True Pair i 3 sm m 5 t5 owns_free_only [of e i s5] owns_link [of e i s5] assms(2)
        by (auto simp: open_mod_table_open_from_static_def Let_def split: if_splits)
    qed
  qed
qed

lemma statics_good: "table_good e s \<Longrightarrow> statics_ok (smt s)"
  by (simp add: table_good_def mods_but_def)

lemma open_good:
  assumes "table_good e s" and "env_ok e" and "open_mod_table_open e uri s = (nErr, h, dlErr, str, s')"
  shows "table_good e s'"
proof -
  obtain e1 h1 s1 where 1: "open_mod_table_open_static_override e uri s = (e1, h1, s1)" by (metis prod_cases3)
  have g1: "table_good e s1"
    using open_from_static_good [OF assms(1,2) 1 [unfolded open_mod_table_open_static_override_def]] statics_good [OF assms(1)]
    by (auto simp: statics_ok_def)
  obtain n2 h2 d2 str2 s2 where 2: "open_mod_table_open_dynamic e uri s1 = (n2, h2, d2, str2, s2)" by (metis prod_cases5)
  have g2: "table_good e s2" using open_dynamic_good [OF g1 assms(2) 2] .
  obtain e3 h3 s3 where 3: "open_mod_table_open_static e uri s2 = (e3, h3, s3)" by (metis prod_cases3)
  have g3: "table_good e s3"
    using open_from_static_good [OF g2 assms(2) 3 [unfolded open_mod_table_open_static_def]] statics_good [OF g2]
    by (auto simp: statics_ok_def)
  show ?thesis using assms(3) 1 2 3 g1 g2 g3 by (auto simp: open_mod_table_open_def split: if_splits)
qed

lemma close_rest_free:
  "i < length (rev_handle_table s) \<Longrightarrow>
   snd (open_mod_table_close_rest e i (free_slot i s)) =
     free_slot i (snd (close_module_library e i (close_module_handle i s)))"
  by (simp add: open_mod_table_close_rest_def close_module_library_def close_module_handle_def do_dlclose_def
      open_mod_handle_close_def free_slot_def slot_set_slot Let_def add_log_def set_slot_def)

lemma drop_ref_cases:
  assumes "table_good e s" and "i \<in> set (openMods s)"
  shows "i < length (rev_handle_table s)"
    and "om_refs (slot s i) \<noteq> 1 \<Longrightarrow> table_good e (set_slot i (\<lambda>m. m\<lparr>om_refs := om_refs m - 1\<rparr>) s)"
    and "owns e i (unlink_open i (set_slot i (\<lambda>m. m\<lparr>om_refs := om_refs m - 1\<rparr>) s))"
proof -
  have m: "mods_ok e s" using assms(1) by (simp add: table_good_def)
  show len: "i < length (rev_handle_table s)" using mods_linked(1) [OF m assms(2)] mods_but_length [OF m] by simp
  show "table_good e (set_slot i (\<lambda>m. m\<lparr>om_refs := om_refs m - 1\<rparr>) s)" if "om_refs (slot s i) \<noteq> 1"
    using good_refs [OF assms, of "-1"] mods_linked(3) [OF m assms(2)] that by (simp add: linked_ok_def)
  have "unlink_open i (set_slot i f s) = set_slot i f (unlink_open i s)" for f
    by (simp add: unlink_open_def set_slot_def)
  then show "owns e i (unlink_open i (set_slot i (\<lambda>m. m\<lparr>om_refs := om_refs m - 1\<rparr>) s))"
    using owns_unlink [OF assms] by (auto simp: res_of_def intro!: owns_set_slot)
qed

lemma find_open_member: "find_open h s = Some i \<Longrightarrow> i \<in> set (openMods s) \<and> low32 (om_key (slot s i)) = h"
  by (auto simp: find_open_def find_Some_iff)

lemma close_good:
  assumes "table_good e s" and "open_mod_table_close e h s = (nErr, dlErr, str, s')"
  shows "table_good e s'"
proof (cases "find_open (low32 h) s")
  case None
  then show ?thesis using assms by (simp add: open_mod_table_close_def open_mod_table_close_locked_def)
next
  case (Some i)
  then have i: "i \<in> set (openMods s)" by (simp add: find_open_member)
  let ?s1 = "set_slot i (\<lambda>m. m\<lparr>om_refs := om_refs m - 1\<rparr>) s"
  note d = drop_ref_cases [OF assms(1) i]
  show ?thesis
  proof (cases "om_refs (slot s i) = 1")
    case False
    then show ?thesis
      using assms(2) Some d(1,2) by (simp add: open_mod_table_close_def open_mod_table_close_locked_def Let_def slot_set_slot)
  next
    case True
    have "s' = snd (open_mod_table_close_rest e i (free_slot i (unlink_open i ?s1)))"
      using assms(2) Some True d(1)
      by (auto simp: open_mod_table_close_def open_mod_table_close_locked_def Let_def slot_set_slot split: prod.splits if_splits)
    then show ?thesis
      using owns_give_up [OF d(3)] owns_slot [OF d(3)] by (simp add: close_rest_free)
  qed
qed

lemma open_mod_close_good:
  assumes "table_good e s" and "i \<in> set (openMods s)"
  shows "table_good e (open_mod_close e i s)"
  using drop_ref_cases [OF assms] owns_give_up [OF drop_ref_cases(3) [OF assms]]
  by (auto simp: open_mod_close_def open_mod_close_locked_def open_mod_close_rest_def Let_def slot_set_slot)

lemma good_add_log:
  "table_good e s \<Longrightarrow> gained ev = {#} \<Longrightarrow> released ev = {#} \<Longrightarrow> table_good e (add_log ev s)"
  by (simp add: table_good_def balanced_def held_def)

lemma call_module_good:
  assumes "table_good e s" and "call_module e f g h sc pra s = (r, s')"
  shows "table_good e s' \<and> rev_handle_table s' = rev_handle_table s \<and> openMods s' = openMods s"
  using assms by (auto simp: call_module_def Let_def intro!: good_add_log split: if_splits)

lemma invoke_good:
  assumes "table_good e s" and "open_mod_table_handle_invoke e handle sc pra s = (nErr, s')"
  shows "table_good e s'"
proof (cases "find_const handle s")
  case (Some cm)
  then show ?thesis
    using assms call_module_good [OF assms(1)]
    by (auto simp: open_mod_table_handle_invoke_def open_mod_table_get_const_def)
next
  case None
  show ?thesis
  proof (cases "find_open handle s")
    case find: None
    then show ?thesis
      using assms None by (simp add: open_mod_table_handle_invoke_def open_mod_table_get_const_def open_mod_table_get_open_def)
  next
    case (Some i)
    then have i: "i \<in> set (openMods s)" by (simp add: find_open_member)
    let ?s1 = "set_slot i (\<lambda>m. m\<lparr>om_refs := om_refs m + 1\<rparr>) s"
    have "om_refs (slot s i) + 1 \<ge> 1"
      using assms(1) mods_linked(3) [of e "{}" s i] i by (simp add: table_good_def linked_ok_def)
    then have g1: "table_good e ?s1" by (rule good_refs [OF assms(1) i])
    let ?m = "slot ?s1 i"
    obtain r s2 where 2: "call_module e (om_invoke ?m) (om_handle_invoke ?m) (om_h64 ?m) sc pra ?s1 = (r, s2)"
      by (cases "call_module e (om_invoke ?m) (om_handle_invoke ?m) (om_h64 ?m) sc pra ?s1")
    have "s' = open_mod_close e i s2"
      using assms(2) None Some 2
      by (simp add: open_mod_table_handle_invoke_def open_mod_table_get_const_def open_mod_table_get_open_def Let_def)
    then show ?thesis using open_mod_close_good [of e s2 i] call_module_good [OF g1 2] i by simp
  qed
qed

section \<open>Sequences of calls\<close>

lemma close_rest_unlink:
  "open_mod_close_rest e i (s\<lparr>openMods := t\<rparr>) = (open_mod_close_rest e i s)\<lparr>openMods := t\<rparr>"
  "openMods (open_mod_close_rest e i s) = openMods s"
  by (simp_all add: open_mod_close_rest_def close_module_library_def close_module_handle_def do_dlclose_def
      open_mod_handle_close_def free_slot_def Let_def add_log_def set_slot_def)

lemma dtor_fold_good:
  assumes "table_good e s" and "distinct xs" and "set xs \<subseteq> set (openMods s)"
  shows "table_good e ((fold (open_mod_close_rest e) xs s)\<lparr>openMods := fold remove1 xs (openMods s)\<rparr>)"
  using assms
proof (induction xs arbitrary: s)
  case Nil
  then show ?case by simp
next
  case (Cons x xs)
  let ?s = "open_mod_close_rest e x (unlink_open x s)"
  have d: "distinct (openMods s)" using Cons.prems(1) by (simp add: table_good_def mods_but_def)
  have "table_good e ?s"
    using owns_give_up [OF owns_unlink [OF Cons.prems(1)]] Cons.prems(3) by (simp add: open_mod_close_rest_def)
  moreover have "set xs \<subseteq> set (openMods ?s)"
    using Cons.prems(2,3) d by (auto simp: close_rest_unlink unlink_open_def)
  ultimately have "table_good e ((fold (open_mod_close_rest e) xs ?s)\<lparr>openMods := fold remove1 xs (openMods ?s)\<rparr>)"
    using Cons.IH Cons.prems(2) by simp
  moreover have "fold (open_mod_close_rest e) xs (s\<lparr>openMods := t\<rparr>) = (fold (open_mod_close_rest e) xs s)\<lparr>openMods := t\<rparr>" for s t
    by (induction xs arbitrary: s) (simp_all add: close_rest_unlink)
  ultimately show ?case
    by (simp add: unlink_open_def close_rest_unlink)
qed

lemma fold_remove1_self: "set xs = set ys \<Longrightarrow> distinct xs \<Longrightarrow> distinct ys \<Longrightarrow> fold remove1 xs ys = []"
proof (induction xs arbitrary: ys)
  case (Cons x xs)
  then have "set xs = set (remove1 x ys)" by auto
  then show ?case using Cons by (simp add: distinct_remove1)
qed simp

lemma dtor_good:
  assumes "table_good e s"
  shows "table_good e (open_mod_table_dtor_imp e s) \<and> openMods (open_mod_table_dtor_imp e s) = []"
proof -
  have "distinct (openMods s)" using assms by (simp add: table_good_def mods_but_def)
  then have "fold remove1 (rev (openMods s)) (openMods s) = []" by (intro fold_remove1_self) simp_all
  then show ?thesis
    using dtor_fold_good [OF assms, of "rev (openMods s)"] \<open>distinct (openMods s)\<close>
    by (simp add: open_mod_table_dtor_imp_def)
qed

lemma dtor_empties [simp]: "(open_mod_table_dtor_imp e s)\<lparr>openMods := []\<rparr> = open_mod_table_dtor_imp e s"
  by (simp add: open_mod_table_dtor_imp_def)

definition stored :: "nat list pls_table \<Rightarrow> nat list" where
  "stored g = (case pls_lst g of [] \<Rightarrow> [] | it # _ \<Rightarrow> pls_data it)"

definition table_item :: "nat list \<Rightarrow> nat list pls_item" where
  "table_item t = \<lparr>pls_type = mod_table_type, pls_key = 0, pls_dtor = True, pls_data = t\<rparr>"

definition storage_ok :: "nat list pls_table \<Rightarrow> bool" where
  "storage_ok g \<longleftrightarrow> (pls_lst g = [] \<or> (\<exists>t. pls_lst g = [table_item t])) \<and> (pls_uRefs g = 0 \<longrightarrow> pls_lst g = [])"

text \<open>The invariant between two calls.\<close>

definition entry_ok :: "mod_env \<Rightarrow> mod_state \<Rightarrow> bool" where
  "entry_ok e s \<longleftrightarrow> storage_ok (ms_gpls s) \<and> table_good e (s\<lparr>openMods := stored (ms_gpls s)\<rparr>)"

lemma table_good_gpls [simp]:
  "table_good e (s\<lparr>ms_gpls := g\<rparr>) = table_good e s" "table_good e (s\<lparr>openMods := t, ms_gpls := g\<rparr>) = table_good e (s\<lparr>openMods := t\<rparr>)"
  "table_good e (s\<lparr>ms_gpls := g, openMods := t\<rparr>) = table_good e (s\<lparr>openMods := t\<rparr>)"
  by (simp_all add: table_good_def mods_but_def balanced_def held_def)

lemma mods_same [simp]: "s\<lparr>openMods := openMods s\<rparr> = s" by simp

lemma storage_lookup:
  assumes "storage_ok g"
  shows "pls_lookup mod_table_type 0 g = (if pls_lst g = [] then (-1, None) else (0, Some (stored g)))"
  using assms by (auto simp: storage_ok_def pls_lookup_def stored_def table_item_def)

lemma storage_update:
  assumes "storage_ok g" and "pls_lst g \<noteq> []"
  shows "storage_ok (pls_update mod_table_type 0 t g) \<and> stored (pls_update mod_table_type 0 t g) = t"
  using assms by (auto simp: storage_ok_def pls_update_def stored_def table_item_def)

lemma store_table_ok:
  assumes "table_good e s" and "storage_ok (ms_gpls s)" and "pls_lst (ms_gpls s) \<noteq> []"
  shows "entry_ok e (store_table s)"
  using assms storage_update [OF assms(2,3), of "openMods s"] by (simp add: entry_ok_def store_table_def)

lemma add_lookup_ok:
  assumes "entry_ok e s" and "mod_table_add_lookup e s = (nErr, s')"
  shows "if nErr = 0 then table_good e s' \<and> storage_ok (ms_gpls s') \<and> pls_lst (ms_gpls s') \<noteq> [] \<and>
      openMods s' = stored (ms_gpls s) else s' = s"
proof (cases "pls_lst (ms_gpls s) = []")
  case True
  then show ?thesis
    using assms
    by (auto simp: entry_ok_def mod_table_add_lookup_def pls_add_lookup_singleton_def storage_lookup pls_add_def
        load_table_def storage_ok_def stored_def table_item_def split: if_splits)
next
  case False
  then show ?thesis
    using assms by (auto simp: entry_ok_def mod_table_add_lookup_def pls_add_lookup_singleton_def storage_lookup load_table_def)
qed

text \<open>No operation on the open table touches the storage or the static tables.\<close>

definition rest_same :: "mod_state \<Rightarrow> mod_state \<Rightarrow> bool" where
  "rest_same s s' \<longleftrightarrow> ms_gpls s' = ms_gpls s \<and> smt s' = smt s"

named_theorems rest_intros "operations that leave the storage and the static tables alone"

lemma rest_refl [simp, rest_intros]: "rest_same s s"
  by (simp add: rest_same_def)

lemma rest_trans: "rest_same a b \<Longrightarrow> rest_same b c \<Longrightarrow> rest_same a c"
  by (simp add: rest_same_def)

lemma rest_basic [simp]:
  "rest_same a (set_slot i f s) = rest_same a s" "rest_same a (add_log ev s) = rest_same a s"
  "rest_same a (s\<lparr>openMods := t\<rparr>) = rest_same a s" "rest_same a (free_slot i s) = rest_same a s"
  "rest_same a (unlink_open i s) = rest_same a s" "rest_same a (close_module_handle i s) = rest_same a s"
  "rest_same a (snd (close_module_library e i s)) = rest_same a s"
  by (simp_all add: rest_same_def free_slot_def unlink_open_def close_module_handle_def open_mod_handle_close_def
      close_module_library_def do_dlclose_def Let_def)

lemma rest_steps:
  "do_dlopen e i n s = (r, s') \<Longrightarrow> rest_same a s' = rest_same a s"
  "open_mod_handle_open e i n s = (r', s') \<Longrightarrow> rest_same a s' = rest_same a s"
  "take_slot e i uri s = (r', s') \<Longrightarrow> rest_same a s' = rest_same a s"
  "is_reverse_handle_opened uri s = (h, s') \<Longrightarrow> rest_same a s' = rest_same a s"
  "call_module e f g hh sc pra s = (r', s') \<Longrightarrow> rest_same a s' = rest_same a s"
  by (auto simp: do_dlopen_def open_mod_handle_open_def take_slot_def is_reverse_handle_opened_def call_module_def Let_def
      split: prod.splits option.splits if_splits)

lemma rest_dynamic_phases:
  "dynamic_library e i uri vals s = (n, d, s') \<Longrightarrow> rest_same a s' = rest_same a s"
  "dynamic_symbol e i uri vals s = (n, d, s') \<Longrightarrow> rest_same a s' = rest_same a s"
  "dynamic_register e i uri s = (n, s') \<Longrightarrow> rest_same a s' = rest_same a s"
  "dynamic_bail e i nErr dlErr s = (n, h, d, str, s') \<Longrightarrow> rest_same a s' = rest_same a s"
  "find_static_mod i uri tbl s = (n, sm, s') \<Longrightarrow> rest_same a s' = rest_same a s"
  by (auto simp: dynamic_library_def dynamic_symbol_def dynamic_register_def dynamic_bail_def find_static_mod_def Let_def
      rest_steps split: prod.splits option.splits if_splits)

lemma rest_open_dynamic: "open_mod_table_open_dynamic e uri s = (n, h, d, str, s') \<Longrightarrow> rest_same a s' = rest_same a s"
  by (auto simp: open_mod_table_open_dynamic_def Let_def rest_steps rest_dynamic_phases split: prod.splits option.splits if_splits)

lemma rest_open_from_static: "open_mod_table_open_from_static e tbl uri s = (n, h, s') \<Longrightarrow> rest_same a s' = rest_same a s"
  by (auto simp: open_mod_table_open_from_static_def Let_def rest_steps rest_dynamic_phases split: prod.splits option.splits if_splits)

lemma rest_open: "open_mod_table_open e uri s = (n, h, d, str, s') \<Longrightarrow> rest_same a s' = rest_same a s"
  by (auto simp: open_mod_table_open_def open_mod_table_open_static_override_def open_mod_table_open_static_def
      rest_open_dynamic rest_open_from_static split: prod.splits if_splits)

lemma rest_close: "open_mod_table_close e h s = (n, d, str, s') \<Longrightarrow> rest_same a s' = rest_same a s"
proof -
  have "open_mod_table_close_rest e i s = (r, s') \<Longrightarrow> rest_same a s' = rest_same a s" for i r s s'
    using rest_basic(7) [of a e i "close_module_handle i s"] by (simp add: open_mod_table_close_rest_def)
  moreover have "open_mod_table_close_locked h s = (r, i, s') \<Longrightarrow> rest_same a s' = rest_same a s" for r i s s'
    by (auto simp: open_mod_table_close_locked_def Let_def split: option.splits if_splits)
  ultimately show "open_mod_table_close e h s = (n, d, str, s') \<Longrightarrow> rest_same a s' = rest_same a s"
    by (auto simp: open_mod_table_close_def split: prod.splits option.splits if_splits)
qed

lemma rest_open_mod_close [simp]: "rest_same a (open_mod_close e i s) = rest_same a s"
  by (auto simp: open_mod_close_def open_mod_close_locked_def open_mod_close_rest_def Let_def)

lemma rest_invoke: "open_mod_table_handle_invoke e h sc pra s = (n, s') \<Longrightarrow> rest_same a s' = rest_same a s"
  by (auto simp: open_mod_table_handle_invoke_def open_mod_table_get_open_def Let_def rest_steps split: prod.splits option.splits)

section \<open>Reachable states\<close>

text \<open>Registrations, and the calls on the open table, in any order. A registered function is not null.\<close>

inductive mod_step :: "mod_env \<Rightarrow> mod_state \<Rightarrow> mod_state \<Rightarrow> bool" for e where
  reg_override: "pfn \<noteq> 0 \<Longrightarrow> mod_step e s (snd (mod_table_register_static_override e name pfn s))"
| reg_override1: "pfn \<noteq> 0 \<Longrightarrow> mod_step e s (snd (mod_table_register_static_override1 e name pfn s))"
| reg_static: "pfn \<noteq> 0 \<Longrightarrow> mod_step e s (snd (mod_table_register_static e name pfn s))"
| reg_static1: "pfn \<noteq> 0 \<Longrightarrow> mod_step e s (snd (mod_table_register_static1 e name pfn s))"
| reg_const: "mod_step e s (snd (mod_table_register_const_handle e h uri pfn s))"
| reg_const1: "mod_step e s (snd (mod_table_register_const_handle1 e h l uri pfn s))"
| open_uri: "mod_table_open e uri s = (n, h, d, str, s') \<Longrightarrow> mod_step e s s'"
| invoke: "mod_table_invoke e h sc pra s = (n, s') \<Longrightarrow> mod_step e s s'"
| close_handle: "mod_table_close e h s = (n, d, str, s') \<Longrightarrow> mod_step e s s'"
| ctor: "mod_step e s (snd (mod_table_ctor s))"
| dtor: "mod_step e s (mod_table_dtor s)"
| storage_init: "mod_step e s (s\<lparr>ms_gpls := snd (gpls_init (ms_gpls s))\<rparr>)"
| storage_deinit: "mod_step e s (mod_table_gpls_deinit e s)"

definition mods_start :: mod_state where
  "mods_start = \<lparr>smt = \<lparr>staticModOverrides = [], staticMods = [], constMods = [], smt_bInit = False\<rparr>,
     rev_handle_table = replicate MAX_REV_HANDLES no_open_mod, openMods = [],
     ms_gpls = \<lparr>pls_lst = [], pls_uRefs = 0, pls_primThread = 0\<rparr>, ms_log = []\<rparr>"

inductive mod_reach :: "mod_env \<Rightarrow> mod_state \<Rightarrow> bool" for e where
  start: "mod_reach e mods_start"
| step: "mod_reach e s \<Longrightarrow> mod_step e s s' \<Longrightarrow> mod_reach e s'"

lemma entry_start: "entry_ok e mods_start"
  by (auto simp: entry_ok_def mods_start_def storage_ok_def stored_def table_good_def mods_but_def balanced_def held_def
      statics_ok_def no_open_mod_def res_of_def)

lemma table_good_smt:
  assumes "table_good e s" and "statics_ok t"
  shows "table_good e (s\<lparr>smt := t\<rparr>)"
  using assms by (simp add: table_good_def mods_but_def balanced_def held_def)

lemma entry_smt:
  assumes "entry_ok e s" and "statics_ok t"
  shows "entry_ok e (s\<lparr>smt := t\<rparr>)"
  using assms table_good_smt [of e "s\<lparr>openMods := stored (ms_gpls s)\<rparr>" t] by (cases s) (simp add: entry_ok_def)

lemma entry_statics: "entry_ok e s \<Longrightarrow> statics_ok (smt s)"
  using statics_good [of e "s\<lparr>openMods := stored (ms_gpls s)\<rparr>"] by (simp add: entry_ok_def)

lemma entry_ctor: "entry_ok e s \<Longrightarrow> entry_ok e (snd (static_mod_table_ctor s))"
  by (auto simp: static_mod_table_ctor_def statics_ok_def intro: entry_smt)

lemma entry_register:
  assumes "entry_ok e s" and "f \<noteq> 0 \<or> g \<noteq> 0"
  shows "entry_ok e (snd (static_mod_add e ov uri f g (snd (static_mod_table_ctor s))))"
  using entry_ctor [OF assms(1)] assms(2) entry_statics [OF entry_ctor [OF assms(1)]]
  by (auto simp: static_mod_add_def Let_def statics_ok_def intro!: entry_smt)

lemma entry_const:
  assumes "entry_ok e s"
  shows "entry_ok e (snd (static_mod_table_register_const_handle e h r uri f g (snd (static_mod_table_ctor s))))"
  using entry_ctor [OF assms] entry_statics [OF entry_ctor [OF assms]]
  by (auto simp: static_mod_table_register_const_handle_def statics_ok_def intro!: entry_smt split: option.splits)

lemma entry_call:
  assumes "entry_ok e s" and "mod_table_add_lookup e s = (0, s1)"
    and "table_good e s1 \<Longrightarrow> table_good e s2" and "rest_same s1 s2"
  shows "entry_ok e (store_table s2)"
  using add_lookup_ok [OF assms(1,2)] assms(3,4) by (intro store_table_ok) (simp_all add: rest_same_def)

lemma entry_open:
  assumes "entry_ok e s" and "env_ok e" and "mod_table_open e uri s = (n, h, d, str, s')"
  shows "entry_ok e s'"
proof (cases uri)
  case None
  then show ?thesis using assms by (simp add: mod_table_open_def)
next
  case (Some u)
  obtain n1 s1 where 1: "mod_table_add_lookup e s = (n1, s1)" by (cases "mod_table_add_lookup e s")
  obtain n2 h2 d2 str2 s2 where 2: "open_mod_table_open e u s1 = (n2, h2, d2, str2, s2)" by (metis prod_cases5)
  show ?thesis
  proof (cases "n1 = 0")
    case False
    then show ?thesis using assms Some 1 add_lookup_ok [OF assms(1) 1] by (auto simp: mod_table_open_def)
  next
    case True
    have "rest_same s1 s2" using rest_open [OF 2, of s1] by simp
    then have "entry_ok e (store_table s2)"
      using entry_call [OF assms(1), of s1 s2] 1 True open_good [OF _ assms(2) 2] by blast
    then show ?thesis using assms(3) Some 1 2 True by (simp add: mod_table_open_def)
  qed
qed

lemma entry_invoke:
  assumes "entry_ok e s" and "mod_table_invoke e h sc pra s = (n, s')"
  shows "entry_ok e s'"
proof -
  obtain n1 s1 where 1: "mod_table_add_lookup e s = (n1, s1)" by (cases "mod_table_add_lookup e s")
  obtain n2 s2 where 2: "open_mod_table_handle_invoke e h sc pra s1 = (n2, s2)"
    by (cases "open_mod_table_handle_invoke e h sc pra s1")
  show ?thesis
  proof (cases "n1 = 0")
    case False
    then show ?thesis using assms 1 add_lookup_ok [OF assms(1) 1] by (auto simp: mod_table_invoke_def)
  next
    case True
    have "rest_same s1 s2" using rest_invoke [OF 2, of s1] by simp
    then have "entry_ok e (store_table s2)"
      using entry_call [OF assms(1), of s1 s2] 1 True invoke_good [OF _ 2] by blast
    then show ?thesis using assms(2) 1 2 True by (simp add: mod_table_invoke_def)
  qed
qed

lemma entry_close:
  assumes "entry_ok e s" and "mod_table_close e h s = (n, d, str, s')"
  shows "entry_ok e s'"
proof (cases "pls_lst (ms_gpls s) = []")
  case True
  then show ?thesis using assms by (simp add: entry_ok_def mod_table_close_def storage_lookup)
next
  case False
  let ?s1 = "load_table (ms_gpls s) (stored (ms_gpls s)) s"
  have st: "storage_ok (ms_gpls s)" and g1: "table_good e ?s1" using assms(1) by (simp_all add: entry_ok_def load_table_def)
  obtain n2 d2 str2 s2 where 2: "open_mod_table_close e (ucast h) ?s1 = (n2, d2, str2, s2)" by (metis prod_cases4)
  have "rest_same ?s1 s2" using rest_close [OF 2, of ?s1] by simp
  then have "entry_ok e (store_table s2)"
    using close_good [OF g1 2] st False by (intro store_table_ok) (simp_all add: rest_same_def load_table_def)
  then show ?thesis using assms(2) 2 False st by (simp add: mod_table_close_def storage_lookup)
qed

lemma dtor_gpls: "ms_gpls (open_mod_table_dtor_imp e s) = ms_gpls s"
proof -
  have "rest_same s (open_mod_close_rest e i s)" for i s by (simp add: open_mod_close_rest_def)
  then have "ms_gpls (open_mod_close_rest e i s) = ms_gpls s" for i s by (simp add: rest_same_def)
  then have "ms_gpls (fold (open_mod_close_rest e) xs s) = ms_gpls s" for xs
    by (induction xs arbitrary: s) simp_all
  then show ?thesis by (simp add: open_mod_table_dtor_imp_def)
qed

lemma entry_storage_deinit:
  assumes "entry_ok e s"
  shows "entry_ok e (mod_table_gpls_deinit e s)"
proof -
  have st: "storage_ok (ms_gpls s)" and g: "table_good e (s\<lparr>openMods := stored (ms_gpls s)\<rparr>)"
    using assms by (simp_all add: entry_ok_def)
  consider "pls_lst (ms_gpls s) = [] \<or> pls_uRefs (ms_gpls s) \<noteq> 1"
    | t where "pls_lst (ms_gpls s) = [table_item t]" "pls_uRefs (ms_gpls s) = 1"
    using st by (auto simp: storage_ok_def)
  then show ?thesis
  proof cases
    case 1
    then show ?thesis
      using st g by (auto simp: entry_ok_def mod_table_gpls_deinit_def gpls_deinit_def pls_thread_deinit_def storage_ok_def
          stored_def table_item_def)
  next
    case 2
    let ?g = "(ms_gpls s)\<lparr>pls_uRefs := 0, pls_lst := []\<rparr>"
    have "table_good e (load_table ?g t (s\<lparr>ms_gpls := ?g\<rparr>))"
      using g 2 by (simp add: load_table_def stored_def table_item_def)
    from dtor_good [OF this] show ?thesis
      using 2 by (simp add: entry_ok_def mod_table_gpls_deinit_def gpls_deinit_def pls_thread_deinit_def table_item_def dtor_gpls
          load_table_def storage_ok_def stored_def)
  qed
qed

lemma dtor_storage:
  assumes "entry_ok e s" and "pls_uRefs (ms_gpls s) = 1"
  shows "pls_lst (ms_gpls (mod_table_gpls_deinit e s)) = []"
proof -
  have "ms_gpls s = g \<Longrightarrow> ms_gpls (fold (\<lambda>d s. open_mod_table_dtor_imp e (load_table g d s)) ds s) = g" for ds g s
    by (induction ds arbitrary: s) (simp_all add: dtor_gpls load_table_def)
  then show ?thesis using assms(2) by (simp add: mod_table_gpls_deinit_def gpls_deinit_def pls_thread_deinit_def)
qed

lemma entry_storage_init: "entry_ok e s \<Longrightarrow> entry_ok e (s\<lparr>ms_gpls := snd (gpls_init (ms_gpls s))\<rparr>)"
  by (auto simp: entry_ok_def gpls_init_def pls_ctor_def storage_ok_def stored_def)

lemma mod_step_ok:
  assumes "mod_step e s s'" and "env_ok e" and "entry_ok e s"
  shows "entry_ok e s'"
  using assms
proof cases
  case dtor
  then show ?thesis
    using assms(3) by (auto simp: mod_table_dtor_def static_mod_table_dtor_imp_def statics_ok_def intro!: entry_smt)
qed (auto simp: mod_table_register_static_override_def mod_table_register_static_override1_def mod_table_register_static_def
    mod_table_register_static1_def mod_table_register_const_handle_def mod_table_register_const_handle1_def mod_table_ctor_def
    intro: entry_register entry_const entry_open entry_invoke entry_close entry_ctor entry_storage_init entry_storage_deinit)

lemma mod_reach_ok: "mod_reach e s \<Longrightarrow> env_ok e \<Longrightarrow> entry_ok e s"
  by (induction rule: mod_reach.induct) (auto intro: entry_start mod_step_ok)

end
