(* ===== verification/ModTableProps.thy ===== *)
theory ModTableProps
  imports ModTableInv
begin

text \<open>
  What the module table promises. The counts of open handles (\<open>refs_of\<close>) are the abstract state:
  opening adds one, closing takes one off, invoking leaves them, and no operation changes the count
  of another handle. Then the bounds of the table, the length of the URIs that the static tables
  can serve, and two interleavings in which the lock is released too early.
\<close>

section \<open>Frame\<close>

text \<open>The modules that are linked are the same, with the same contents.\<close>

definition same_mods :: "mod_state \<Rightarrow> mod_state \<Rightarrow> bool" where
  "same_mods s s' \<longleftrightarrow> openMods s' = openMods s \<and> (\<forall>j \<in> set (openMods s). slot s' j = slot s j)"

definition refs_of :: "mod_state \<Rightarrow> u32 \<Rightarrow> int" where
  "refs_of s h = (case find_open h s of Some i \<Rightarrow> om_refs (slot s i) | None \<Rightarrow> 0)"

lemma same_mods_refl [simp]: "same_mods s s"
  by (simp add: same_mods_def)

lemma same_mods_trans: "same_mods a b \<Longrightarrow> same_mods b c \<Longrightarrow> same_mods a c"
  by (simp add: same_mods_def)

lemma find_cong_set: "(\<And>x. x \<in> set xs \<Longrightarrow> P x = Q x) \<Longrightarrow> find P xs = find Q xs"
  by (induction xs) auto

lemma same_mods_find: "same_mods s s' \<Longrightarrow> find_open h s' = find_open h s"
  by (auto simp: same_mods_def find_open_def intro: find_cong_set)

lemma same_mods_refs:
  assumes "same_mods s s'"
  shows "refs_of s' h = refs_of s h"
  using assms same_mods_find [OF assms, of h] find_open_member [of h s]
  by (auto simp: refs_of_def same_mods_def split: option.splits)

text \<open>Work on a slot that is not linked.\<close>

lemma same_mods_slot:
  assumes "i \<notin> set (openMods s)"
  shows "same_mods s (set_slot i f s)"
  using assms by (auto simp: same_mods_def set_slot_def nth_list_update_neq intro!: nth_list_update_neq)

lemma same_mods_log [simp]: "same_mods a (add_log ev s) = same_mods a s"
  by (simp add: same_mods_def)

lemma same_mods_set [simp]: "i \<notin> set (openMods a) \<Longrightarrow> same_mods a (set_slot i f s) = same_mods a s"
  by (auto simp: same_mods_def set_slot_def nth_list_update_neq) (metis nth_list_update_neq)+

lemma same_mods_basic [simp]:
  "i \<notin> set (openMods a) \<Longrightarrow> same_mods a (free_slot i s) = same_mods a s"
  "same_mods a (close_module_handle i s) = same_mods a s"
  "same_mods a (snd (close_module_library e i s)) = same_mods a s"
  by (simp_all add: free_slot_def close_module_handle_def open_mod_handle_close_def close_module_library_def do_dlclose_def Let_def)

lemma same_mods_steps:
  assumes "i \<notin> set (openMods a)"
  shows "do_dlopen e i n s = (r, s') \<Longrightarrow> same_mods a s' = same_mods a s"
    and "take_slot e i uri s = (r', s') \<Longrightarrow> same_mods a s' = same_mods a s"
    and "find_static_mod i uri tbl s = (n1, sm, s') \<Longrightarrow> same_mods a s' = same_mods a s"
    and "dynamic_symbol e i uri vals s = (n2, d2, s') \<Longrightarrow> same_mods a s' = same_mods a s"
    and "dynamic_bail e i nErr dlErr s = (n3, h3, d3, str, s') \<Longrightarrow> same_mods a s' = same_mods a s"
  using assms
  by (auto simp: do_dlopen_def take_slot_def open_mod_handle_open_def find_static_mod_def dynamic_symbol_def dynamic_bail_def
      Let_def split: prod.splits option.splits if_splits)

lemma same_mods_library:
  "i \<notin> set (openMods a) \<Longrightarrow> dynamic_library e i uri vals s = (n, d, s') \<Longrightarrow> same_mods a s' = same_mods a s"
  by (auto simp: dynamic_library_def Let_def same_mods_steps split: prod.splits if_splits)

section \<open>The counts\<close>

lemma find_open_iff:
  assumes "mods_but e X s"
  shows "find_open h s = Some i \<longleftrightarrow> i \<in> set (openMods s) \<and> low32 (slot_key e i) = h"
proof
  assume "find_open h s = Some i"
  then show "i \<in> set (openMods s) \<and> low32 (slot_key e i) = h"
    using find_open_member [of h s i] mods_linked(3) [OF assms, of i] by (simp add: linked_ok_def)
next
  assume i: "i \<in> set (openMods s) \<and> low32 (slot_key e i) = h"
  then have "low32 (om_key (slot s i)) = h" using mods_linked(3) [OF assms, of i] by (simp add: linked_ok_def)
  then have "find_open h s \<noteq> None" using i by (auto simp: find_open_def find_None_iff)
  then obtain j where j: "find_open h s = Some j" by auto
  then have "j \<in> set (openMods s)" "low32 (slot_key e j) = h"
    using find_open_member [of h s j] mods_linked(3) [OF assms, of j] by (simp_all add: linked_ok_def)
  then have "j = i" using i mods_linked(1) [OF assms] slot_key_inj by blast
  then show "find_open h s = Some i" using j by simp
qed

text \<open>One more, or one less, open reference to a handle, and nothing else changed.\<close>

definition bump :: "int \<Rightarrow> u32 \<Rightarrow> mod_state \<Rightarrow> mod_state \<Rightarrow> bool" where
  "bump d h s s' \<longleftrightarrow> (\<forall>h'. refs_of s' h' = refs_of s h' + (if h' = h then d else 0))"

lemma bump_same: "same_mods s s1 \<Longrightarrow> bump d h s1 s2 \<Longrightarrow> bump d h s s2"
  by (simp add: bump_def same_mods_refs)

lemma bump_refs:
  assumes "mods_ok e s" and "i \<in> set (openMods s)" and "f (slot s i) = (slot s i)\<lparr>om_refs := om_refs (slot s i) + d\<rparr>"
  shows "bump d (low32 (slot_key e i)) s (set_slot i f s)"
proof -
  have len: "i < length (rev_handle_table s)" using mods_linked(1) [OF assms(1,2)] mods_but_length [OF assms(1)] by simp
  have sl: "slot (set_slot i f s) j = (if j = i then (slot s i)\<lparr>om_refs := om_refs (slot s i) + d\<rparr> else slot s j)" for j
    using len assms(3) by (simp add: slot_set_slot)
  have "find (\<lambda>j. low32 (om_key (slot (set_slot i f s) j)) = h) (openMods s) =
      find (\<lambda>j. low32 (om_key (slot s j)) = h) (openMods s)" for h
    by (rule find_cong_set) (simp add: sl)
  then have fo: "find_open h (set_slot i f s) = find_open h s" for h by (simp add: find_open_def)
  have "refs_of (set_slot i f s) h = refs_of s h + (if h = low32 (slot_key e i) then d else 0)" for h
  proof -
    have fi: "find_open h s = Some i \<longleftrightarrow> h = low32 (slot_key e i)"
      unfolding find_open_iff [OF assms(1)] using assms(2) by auto
    show ?thesis
    proof (cases "find_open h s")
      case None
      then show ?thesis using fi by (simp add: refs_of_def fo)
    next
      case (Some j)
      then show ?thesis using fi by (cases "j = i") (simp_all add: refs_of_def fo sl)
    qed
  qed
  then show ?thesis by (simp add: bump_def)
qed

lemma bump_link:
  assumes "owns e i s" and "om_key (slot s i) = slot_key e i" and "om_refs (slot s i) = 1"
  shows "bump 1 (low32 (slot_key e i)) s (s\<lparr>openMods := i # openMods s\<rparr>)"
proof -
  have none: "find_open (low32 (slot_key e i)) s = None" using assms(1) find_open_None by (simp add: owns_def)
  have "find_open h (s\<lparr>openMods := i # openMods s\<rparr>) = (if h = low32 (slot_key e i) then Some i else find_open h s)" for h
    using assms(2) by (simp add: find_open_def)
  then show ?thesis using none assms(3) by (auto simp: bump_def refs_of_def split: option.splits)
qed

lemma bump_unlink:
  assumes "mods_ok e s" and "i \<in> set (openMods s)" and "om_refs (slot s i) = 1"
    and "mods_but e {i} s'" and "openMods s' = remove1 i (openMods s)" and "\<And>j. j \<noteq> i \<Longrightarrow> slot s' j = slot s j"
  shows "bump (-1) (low32 (slot_key e i)) s s'"
proof -
  have d: "distinct (openMods s)" using assms(1) by (simp add: mods_but_def)
  have "find_open h s' = (if h = low32 (slot_key e i) then None else find_open h s)" for h
  proof -
    have 1: "find_open h s' = Some j \<longleftrightarrow> j \<noteq> i \<and> find_open h s = Some j" for j
      unfolding find_open_iff [OF assms(4)] find_open_iff [OF assms(1)] using assms(5) d by auto
    have 2: "find_open h s = Some i \<longleftrightarrow> h = low32 (slot_key e i)"
      unfolding find_open_iff [OF assms(1)] using assms(2) by auto
    show ?thesis
    proof (cases "find_open h s")
      case None
      then have "find_open h s' = None" using 1 by (metis not_Some_eq)
      then show ?thesis using None by simp
    next
      case (Some j)
      show ?thesis
      proof (cases "j = i")
        case True
        then have "find_open h s' = None" using 1 Some by (metis not_Some_eq option.inject)
        then show ?thesis using True 2 Some by simp
      next
        case False
        with 1 2 Some show ?thesis by simp
      qed
    qed
  qed
  moreover have "find_open (low32 (slot_key e i)) s = Some i" unfolding find_open_iff [OF assms(1)] using assms(2) by simp
  moreover have "find_open h s = Some j \<Longrightarrow> h \<noteq> low32 (slot_key e i) \<Longrightarrow> slot s' j = slot s j" for h j
    unfolding find_open_iff [OF assms(1)] using assms(6) by metis
  ultimately show ?thesis using assms(3) by (auto simp: bump_def refs_of_def split: option.splits)
qed

lemma is_reverse_handle_opened_bump:
  assumes "table_good e s" and "is_reverse_handle_opened uri s = (r, s')"
  shows "case r of None \<Rightarrow> s' = s | Some h \<Rightarrow> bump 1 h s s'"
proof (cases "find (\<lambda>i. om_key (slot s i) \<noteq> 0 \<and> om_uri (slot s i) = uri) [0..<MAX_REV_HANDLES]")
  case None
  then show ?thesis using assms by (simp add: is_reverse_handle_opened_def)
next
  case (Some i)
  have m: "mods_ok e s" using assms(1) by (simp add: table_good_def)
  have "i < MAX_REV_HANDLES" "om_key (slot s i) \<noteq> 0" using Some by (auto simp: find_Some_iff simp del: upt_rec_numeral)
  then have i: "i \<in> set (openMods s)" by (rule good_linked [OF assms(1)])
  then have "om_key (slot s i) = slot_key e i" using mods_linked(3) [OF m] by (simp add: linked_ok_def)
  then show ?thesis
    using assms(2) Some bump_refs [OF m i, of "\<lambda>m. m\<lparr>om_refs := om_refs m + 1\<rparr>" 1]
    by (auto simp: is_reverse_handle_opened_def simp del: upt_rec_numeral)
qed

lemma take_slot_key:
  assumes "take_slot e i uri s = (0, s')" and "i < length (rev_handle_table s)"
  shows "om_key (slot s' i) = slot_key e i \<and> om_refs (slot s' i) = 1"
  using assms by (auto simp: take_slot_def open_mod_handle_open_def Let_def slot_set_slot split: if_splits prod.splits)

lemma free_not_linked:
  assumes "table_good e s" and "next_available_rev_handle s = Some i"
  shows "i \<notin> set (openMods s)"
proof -
  have "om_key (slot s i) = 0"
    using assms(2) by (auto simp: next_available_rev_handle_def find_Some_iff simp del: upt_rec_numeral)
  then show ?thesis using assms(1) by (auto simp: table_good_def mods_but_def)
qed

lemma dynamic_register_bump:
  assumes "fresh e i s" and "callable (slot s i)" and "i \<notin> set (openMods a)" and "dynamic_register e i uri s = (nErr, s')"
    and "same_mods a s"
  shows "if nErr = 0 then bump 1 (low32 (om_key (slot s' i))) a s' else same_mods a s'"
proof -
  obtain n1 s1 where t: "take_slot e i uri s = (n1, s1)" by (cases "take_slot e i uri s")
  have o: "owns e i s1" "n1 = 0 \<longrightarrow> linked_ok e i (slot s1 i)" using take_slot_spec [OF assms(1,2) t] by auto
  have same: "same_mods a s1" using same_mods_steps(2) [OF assms(3) t] assms(5) by simp
  show ?thesis
  proof (cases "n1 = 0")
    case False
    then show ?thesis using assms(4) t same by (simp add: dynamic_register_def)
  next
    case True
    let ?s = "set_slot i (\<lambda>m. m\<lparr>om_key := slot_key e i\<rparr>) s1"
    have k: "om_key (slot s1 i) = slot_key e i" "om_refs (slot s1 i) = 1"
      using take_slot_key [OF t [unfolded True] fresh_slot [OF assms(1)]] by auto
    have len: "i < length (rev_handle_table s1)" by (rule owns_slot [OF o(1)])
    have o': "owns e i ?s" using o(1) by (auto simp: res_of_def intro!: owns_set_slot)
    have "bump 1 (low32 (slot_key e i)) ?s (?s\<lparr>openMods := i # openMods ?s\<rparr>)"
      using k len by (intro bump_link [OF o']) (simp_all add: slot_set_slot)
    moreover have "same_mods a ?s" using same assms(3) by simp
    ultimately show ?thesis
      using assms(4) t True unused_key_free [OF o(1) k(1)] len bump_same
      by (auto simp: dynamic_register_def Let_def slot_set_slot split: option.splits)
  qed
qed

definition open_result :: "mod_state \<Rightarrow> mod_state \<Rightarrow> u32 option \<Rightarrow> bool" where
  "open_result s s' h = (case h of Some x \<Rightarrow> bump 1 x s s' | None \<Rightarrow> (\<forall>x. refs_of s' x = refs_of s x))"

lemma dynamic_bail_result:
  "dynamic_bail e i nErr dlErr s = (r, h, d, str, s') \<Longrightarrow> nErr \<noteq> 0 \<Longrightarrow> h = None \<and> (r \<noteq> 0 \<or> d \<noteq> 0)"
  by (auto simp: dynamic_bail_def Let_def split: if_splits)

lemma open_dynamic_counts:
  assumes "table_good e s" and "open_mod_table_open_dynamic e uri s = (nErr, h, dlErr, str, s')"
  shows "open_result s s' h \<and> (h \<noteq> None \<longleftrightarrow> nErr = 0 \<and> dlErr = 0)"
proof (cases "is_reverse_handle_opened uri s")
  case (Pair r s1)
  note found = is_reverse_handle_opened_bump [OF assms(1) Pair]
  show ?thesis
  proof (cases "alloc_r e (ms_log s) \<and> \<not> REV_HANDLE_SIZE < sizeof_open_mod + length uri + 1 \<and> r = None \<and>
      next_available_rev_handle s1 \<noteq> None")
    case False
    then show ?thesis
      using assms(2) Pair found
      by (auto simp: open_mod_table_open_dynamic_def open_result_def split: if_splits option.splits)
  next
    case True
    then have s1: "s1 = s" using found by simp
    obtain i where i: "next_available_rev_handle s = Some i" using True s1 by auto
    have ni: "i \<notin> set (openMods s)" by (rule free_not_linked [OF assms(1) i])
    let ?s2 = "set_slot i (\<lambda>_. no_open_mod\<lparr>om_uri := uri\<rparr>) s"
    obtain n3 d3 s3 where 3: "dynamic_library e i uri (snd (uri_vals uri)) ?s2 = (n3, d3, s3)" by (metis prod_cases3)
    obtain n4 d4 s4 where 4: "dynamic_symbol e i uri (snd (uri_vals uri)) s3 = (n4, d4, s4)" by (metis prod_cases3)
    obtain n5 s5 where 5: "dynamic_register e i uri s4 = (n5, s5)" by (cases "dynamic_register e i uri s4")
    have f4: "fresh e i s4" "n4 = 0 \<longrightarrow> callable (slot s4 i)"
      using fresh_symbol [OF fresh_library [OF fresh_start [OF assms(1) i] 3] 4] by auto
    have 34: "same_mods s s3" "same_mods s s4"
      using same_mods_library [OF ni 3] same_mods_steps(4) [OF ni 4] ni by simp_all
    have bail: "open_result s s' h \<and> (h \<noteq> None \<longleftrightarrow> nErr = 0 \<and> dlErr = 0)"
      if "dynamic_bail e i n d sx = (nErr, h, dlErr, str, s')" "n \<noteq> 0" "same_mods s sx" for n d sx
      using dynamic_bail_result [OF that(1,2)] same_mods_steps(5) [OF ni that(1)] that(3) same_mods_refs [of s s']
      by (auto simp: open_result_def)
    show ?thesis
    proof (cases "n3 = 0 \<and> n4 = 0 \<and> n5 = 0")
      case ok: True
      then show ?thesis
        using assms(2) True Pair i s1 3 4 5 dynamic_register_bump [OF f4(1) _ ni 5 34(2)] f4(2)
        by (auto simp: open_mod_table_open_dynamic_def open_result_def)
    next
      case False
      then show ?thesis
        using assms(2) True Pair i s1 3 4 5 bail 34 dynamic_register_bump [OF f4(1) _ ni 5 34(2)] f4(2)
        by (auto simp: open_mod_table_open_dynamic_def split: if_splits)
    qed
  qed
qed

lemma open_from_static_counts:
  assumes "table_good e s" and "open_mod_table_open_from_static e tbl uri s = (nErr, h, s')"
    and tbl: "\<forall>m \<in> set tbl. sm_invoke m \<noteq> 0 \<or> sm_handle_invoke m \<noteq> 0"
  shows "open_result s s' h \<and> (h \<noteq> None \<longleftrightarrow> nErr = 0)"
proof (cases "is_reverse_handle_opened uri s")
  case (Pair r s1)
  note found = is_reverse_handle_opened_bump [OF assms(1) Pair]
  show ?thesis
  proof (cases "\<not> REV_HANDLE_SIZE < sizeof_open_mod + tmp_len uri \<and> r = None \<and> next_available_rev_handle s1 \<noteq> None")
    case False
    then show ?thesis
      using assms(2) Pair found
      by (auto simp: open_mod_table_open_from_static_def open_result_def split: if_splits option.splits)
  next
    case True
    then have s1: "s1 = s" using found by simp
    obtain i where i: "next_available_rev_handle s = Some i" using True s1 by auto
    have ni: "i \<notin> set (openMods s)" by (rule free_not_linked [OF assms(1) i])
    let ?s2 = "set_slot i (\<lambda>_. no_open_mod\<lparr>om_uri := uri\<rparr>) s"
    note f2 = fresh_start(1) [OF assms(1) i, of uri]
    obtain n3 sm s3 where 3: "find_static_mod i uri tbl ?s2 = (n3, sm, s3)" by (metis prod_cases3)
    have f3: "fresh e i s3" "\<And>m. sm = Some m \<Longrightarrow> m \<in> set tbl" using find_static_mod_fresh [OF f2 3] by auto
    have same3: "same_mods s s3" using same_mods_steps(3) [OF ni 3] ni by simp
    have fail: "open_result s (free_slot i (close_module_handle i sx)) None" if "same_mods s sx" for sx
      using same_mods_refs [of s "free_slot i (close_module_handle i sx)"] that ni by (simp add: open_result_def)
    show ?thesis
    proof (cases "n3 = 0 \<and> sm \<noteq> None")
      case False
      then show ?thesis
        using assms(2) True Pair i s1 3 fail [OF same3] by (auto simp: open_mod_table_open_from_static_def Let_def split: if_splits)
    next
      case sm: True
      then obtain m where m: "sm = Some m" by auto
      let ?s4 = "set_slot i (\<lambda>x. x\<lparr>om_handle_invoke := sm_handle_invoke m, om_invoke := sm_invoke m\<rparr>) s3"
      have f4: "fresh e i ?s4"
        using f3(1) fresh_slot [OF f3(1)] by (auto simp: fresh_def slot_set_slot res_of_def intro!: owns_set_slot)
      have c4: "callable (slot ?s4 i)"
        using tbl f3(2) [OF m] fresh_slot [OF f3(1)] by (auto simp: callable_def slot_set_slot)
      obtain n5 s5 where 5: "take_slot e i uri ?s4 = (n5, s5)" by (cases "take_slot e i uri ?s4")
      have same5: "same_mods s s5" using same_mods_steps(2) [OF ni 5] same3 ni by simp
      show ?thesis
      proof (cases "n5 = 0")
        case False
        then show ?thesis
          using assms(2) True Pair i s1 3 sm m 5 fail [OF same5] by (auto simp: open_mod_table_open_from_static_def Let_def)
      next
        case ok: True
        have k: "om_key (slot s5 i) = slot_key e i" "om_refs (slot s5 i) = 1"
          using take_slot_key [OF 5 [unfolded ok] fresh_slot [OF f4]] by auto
        have "bump 1 (low32 (slot_key e i)) s5 (s5\<lparr>openMods := i # openMods s5\<rparr>)"
          using take_slot_spec [OF f4 c4 5] k by (intro bump_link) simp_all
        from bump_same [OF same5 this] show ?thesis
          using assms(2) True Pair i s1 3 sm m 5 ok k by (auto simp: open_mod_table_open_from_static_def open_result_def Let_def)
      qed
    qed
  qed
qed

lemma open_result_trans:
  "open_result s s1 None \<Longrightarrow> open_result s1 s2 h \<Longrightarrow> open_result s s2 h"
  by (auto simp: open_result_def bump_def split: option.splits)

lemma open_counts:
  assumes "table_good e s" and "env_ok e" and "open_mod_table_open e uri s = (nErr, h, dlErr, str, s')"
  shows "open_result s s' h \<and> (h \<noteq> None \<longleftrightarrow> nErr = 0 \<and> dlErr = 0)"
proof -
  obtain e1 h1 s1 where 1: "open_mod_table_open_static_override e uri s = (e1, h1, s1)" by (metis prod_cases3)
  have t: "\<forall>m \<in> set (staticModOverrides (smt s)). sm_invoke m \<noteq> 0 \<or> sm_handle_invoke m \<noteq> 0"
    using statics_good [OF assms(1)] by (auto simp: statics_ok_def)
  note ov = 1 [unfolded open_mod_table_open_static_override_def]
  have g1: "table_good e s1" by (rule open_from_static_good [OF assms(1,2) ov t])
  have c1: "open_result s s1 h1 \<and> (h1 \<noteq> None \<longleftrightarrow> e1 = 0)" by (rule open_from_static_counts [OF assms(1) ov t])
  obtain n2 h2 d2 str2 s2 where 2: "open_mod_table_open_dynamic e uri s1 = (n2, h2, d2, str2, s2)" by (metis prod_cases5)
  have g2: "table_good e s2" using open_dynamic_good [OF g1 assms(2) 2] .
  have c2: "open_result s1 s2 h2 \<and> (h2 \<noteq> None \<longleftrightarrow> n2 = 0 \<and> d2 = 0)" by (rule open_dynamic_counts [OF g1 2])
  obtain e3 h3 s3 where 3: "open_mod_table_open_static e uri s2 = (e3, h3, s3)" by (metis prod_cases3)
  have "\<forall>m \<in> set (staticMods (smt s2)). sm_invoke m \<noteq> 0 \<or> sm_handle_invoke m \<noteq> 0"
    using statics_good [OF g2] by (auto simp: statics_ok_def)
  then have c3: "open_result s2 s3 h3 \<and> (h3 \<noteq> None \<longleftrightarrow> e3 = 0)"
    by (rule open_from_static_counts [OF g2 3 [unfolded open_mod_table_open_static_def]])
  show ?thesis
    using assms(3) 1 2 3 c1 c2 c3 open_result_trans [of s s1] open_result_trans [of s1 s2]
    by (auto simp: open_mod_table_open_def split: if_splits)
qed

lemma drop_ref_bump:
  assumes "table_good e s" and "i \<in> set (openMods s)"
  shows "om_refs (slot s i) \<noteq> 1 \<Longrightarrow> bump (-1) (low32 (slot_key e i)) s (set_slot i (\<lambda>m. m\<lparr>om_refs := om_refs m - 1\<rparr>) s)"
    and "om_refs (slot s i) = 1 \<Longrightarrow> same_mods (unlink_open i s) s' \<Longrightarrow> bump (-1) (low32 (slot_key e i)) s s'"
proof -
  have m: "mods_ok e s" using assms(1) by (simp add: table_good_def)
  show "bump (-1) (low32 (slot_key e i)) s (set_slot i (\<lambda>m. m\<lparr>om_refs := om_refs m - 1\<rparr>) s)"
    by (rule bump_refs [OF m assms(2)]) simp
  assume "om_refs (slot s i) = 1" and same: "same_mods (unlink_open i s) s'"
  then have "bump (-1) (low32 (slot_key e i)) s (unlink_open i s)"
    using owns_unlink [OF assms] by (intro bump_unlink [OF m assms(2)]) (simp_all add: owns_def unlink_open_def)
  then show "bump (-1) (low32 (slot_key e i)) s s'"
    using same by (simp add: bump_def same_mods_refs [OF same])
qed

lemma close_counts:
  assumes "table_good e s" and "open_mod_table_close e h s = (nErr, dlErr, str, s')"
  shows "if find_open (low32 h) s = None then nErr = AEE_ENOSUCHMOD \<and> s' = s else bump (-1) (low32 h) s s'"
proof (cases "find_open (low32 h) s")
  case None
  then show ?thesis using assms by (simp add: open_mod_table_close_def open_mod_table_close_locked_def)
next
  case (Some i)
  have m: "mods_ok e s" using assms(1) by (simp add: table_good_def)
  have i: "i \<in> set (openMods s)" "low32 h = low32 (slot_key e i)" using Some find_open_iff [OF m] by auto
  let ?s1 = "set_slot i (\<lambda>m. m\<lparr>om_refs := om_refs m - 1\<rparr>) s"
  note d = drop_ref_cases [OF assms(1) i(1)]
  show ?thesis
  proof (cases "om_refs (slot s i) = 1")
    case False
    then show ?thesis
      using assms(2) Some d(1) i drop_ref_bump(1) [OF assms(1) i(1)]
      by (simp add: open_mod_table_close_def open_mod_table_close_locked_def Let_def slot_set_slot)
  next
    case True
    have ni: "i \<notin> set (openMods (unlink_open i s))" using m by (simp add: mods_but_def unlink_open_def)
    have "same_mods (unlink_open i s) (unlink_open i ?s1)"
      using ni by (auto simp: same_mods_def unlink_open_def set_slot_def) (metis nth_list_update_neq)
    then have "same_mods (unlink_open i s) (snd (open_mod_table_close_rest e i (free_slot i (unlink_open i ?s1))))"
      using ni by (simp add: open_mod_table_close_rest_def)
    moreover have "s' = snd (open_mod_table_close_rest e i (free_slot i (unlink_open i ?s1)))"
      using assms(2) Some True d(1)
      by (auto simp: open_mod_table_close_def open_mod_table_close_locked_def Let_def slot_set_slot split: prod.splits if_splits)
    ultimately show ?thesis using drop_ref_bump(2) [OF assms(1) i(1) True] Some i(2) by simp
  qed
qed

text \<open>An invocation borrows a reference and gives it back: the table is as it was.\<close>

lemma invoke_open_exact:
  assumes "table_good e s" and "find_const h s = None" and "find_open h s = Some i"
  shows "open_mod_table_handle_invoke e h sc pra s =
    call_module e (om_invoke (slot s i)) (om_handle_invoke (slot s i)) (om_h64 (slot s i)) sc pra s"
proof -
  have i: "i \<in> set (openMods s)" using find_open_member [OF assms(3)] by simp
  have len: "i < length (rev_handle_table s)" by (rule drop_ref_cases(1) [OF assms(1) i])
  let ?s1 = "set_slot i (\<lambda>m. m\<lparr>om_refs := om_refs m + 1\<rparr>) s"
  have refs: "om_refs (slot s i) \<ge> 1"
    using assms(1) mods_linked(3) [of e "{}" s i] i by (simp add: table_good_def linked_ok_def)
  have m1: "om_invoke (slot ?s1 i) = om_invoke (slot s i)" "om_handle_invoke (slot ?s1 i) = om_handle_invoke (slot s i)"
      "om_h64 (slot ?s1 i) = om_h64 (slot s i)"
    using len by (simp_all add: slot_set_slot)
  have undone: "set_slot i (\<lambda>m. m\<lparr>om_refs := om_refs m - 1\<rparr>) (add_log ev ?s1) = add_log ev s" for ev
    using len by (simp add: set_slot_def add_log_def)
  have "open_mod_close e i (add_log ev ?s1) = add_log ev s" for ev
    using refs len by (simp add: open_mod_close_def open_mod_close_locked_def Let_def undone)
  then show ?thesis
    using assms(2,3) by (simp add: open_mod_table_handle_invoke_def open_mod_table_get_const_def open_mod_table_get_open_def
        call_module_def m1 Let_def)
qed

lemma invoke_counts:
  assumes "table_good e s" and "open_mod_table_handle_invoke e h sc pra s = (nErr, s')"
  shows "same_mods s s'"
proof (cases "find_const h s")
  case (Some cm)
  then show ?thesis
    using assms(2) call_module_good [OF assms(1)]
    by (auto simp: open_mod_table_handle_invoke_def open_mod_table_get_const_def same_mods_def)
next
  case None
  show ?thesis
  proof (cases "find_open h s")
    case find: None
    then show ?thesis
      using assms None by (simp add: open_mod_table_handle_invoke_def open_mod_table_get_const_def open_mod_table_get_open_def)
  next
    case (Some i)
    then show ?thesis
      using assms(2) invoke_open_exact [OF assms(1) None Some] call_module_good [OF assms(1)] by (auto simp: same_mods_def)
  qed
qed

section \<open>The contract of the table\<close>

text \<open>The number of open references to a handle, between two calls.\<close>

definition handle_count :: "mod_state \<Rightarrow> u32 \<Rightarrow> int" where
  "handle_count s h = refs_of (s\<lparr>openMods := stored (ms_gpls s)\<rparr>) h"

locale counted_handles =
  fixes ok :: "'s \<Rightarrow> bool" and cnt :: "'s \<Rightarrow> 'h \<Rightarrow> int"
    and opn :: "'u \<Rightarrow> 's \<Rightarrow> 'h option \<times> 's" and cls :: "'h \<Rightarrow> 's \<Rightarrow> 's"
  assumes opn_ok: "ok s \<Longrightarrow> ok (snd (opn u s))" and cls_ok: "ok s \<Longrightarrow> ok (cls h s)"
    and cnt_nonneg: "ok s \<Longrightarrow> cnt s h \<ge> 0"
    and opn_cnt: "ok s \<Longrightarrow> cnt (snd (opn u s)) h = cnt s h + (if fst (opn u s) = Some h then 1 else 0)"
    and cls_cnt: "ok s \<Longrightarrow> cnt (cls h s) h' = cnt s h' - (if h' = h \<and> cnt s h > 0 then 1 else 0)"
begin

lemma open_close:
  assumes "ok s" and "opn u s = (Some h, s')"
  shows "cnt (cls h s') h' = cnt s h'"
  using opn_ok [OF assms(1), of u] opn_cnt [OF assms(1), of u] cls_cnt [of s' h h'] cnt_nonneg [OF assms(1), of h] assms(2)
  by simp

text \<open>A handle that is open \<open>n\<close> times is gone after \<open>n\<close> closes, and no other handle is affected.\<close>

lemma closes:
  assumes "ok s" and "int n \<le> cnt s h"
  shows "ok ((cls h ^^ n) s) \<and> cnt ((cls h ^^ n) s) h' = cnt s h' - (if h' = h then int n else 0)"
  using assms
proof (induction n arbitrary: h')
  case (Suc n)
  then have "ok ((cls h ^^ n) s)" "cnt ((cls h ^^ n) s) h = cnt s h - int n" by auto
  then show ?case using Suc cls_ok cls_cnt [of "(cls h ^^ n) s" h] by auto
qed simp

end

definition reopen :: "mod_env \<Rightarrow> string \<Rightarrow> mod_state \<Rightarrow> u32 option \<times> mod_state" where
  "reopen e uri s = (case mod_table_open e (Some uri) s of (n, h, d, str, s') \<Rightarrow> (h, s'))"

definition reclose :: "mod_env \<Rightarrow> u32 \<Rightarrow> mod_state \<Rightarrow> mod_state" where
  "reclose e h s = (case mod_table_close e h s of (n, d, str, s') \<Rightarrow> s')"

lemma refs_gpls [simp]: "refs_of (s\<lparr>ms_gpls := g\<rparr>) h = refs_of s h" "find_open h (s\<lparr>ms_gpls := g\<rparr>) = find_open h s"
  by (simp_all add: refs_of_def find_open_def cong: option.case_cong)

lemma store_count:
  assumes "storage_ok (ms_gpls s)" and "pls_lst (ms_gpls s) \<noteq> []"
  shows "handle_count (store_table s) h = refs_of s h"
  using storage_update [OF assms, of "openMods s"] refs_gpls(1)
  by (simp add: handle_count_def store_table_def)

lemma loaded_count:
  assumes "entry_ok e s" and "mod_table_add_lookup e s = (0, s1)"
  shows "refs_of s1 h = handle_count s h"
proof -
  have "openMods s1 = stored (ms_gpls s)" using add_lookup_ok [OF assms] by simp
  moreover have "rev_handle_table s1 = rev_handle_table s"
    using assms(2) by (auto simp: mod_table_add_lookup_def load_table_def split: prod.splits option.splits)
  ultimately show ?thesis by (simp add: handle_count_def refs_of_def find_open_def split: option.splits)
qed

lemma mod_table_open_counts:
  assumes "entry_ok e s" and "env_ok e" and "mod_table_open e (Some uri) s = (n, h, d, str, s')"
  shows "handle_count s' x = handle_count s x + (if h = Some x then 1 else 0) \<and> (h \<noteq> None \<longleftrightarrow> n = 0 \<and> d = 0)"
proof -
  obtain n1 s1 where 1: "mod_table_add_lookup e s = (n1, s1)" by (cases "mod_table_add_lookup e s")
  note al = add_lookup_ok [OF assms(1) 1]
  show ?thesis
  proof (cases "n1 = 0")
    case False
    then show ?thesis using assms(3) 1 al by (auto simp: mod_table_open_def)
  next
    case True
    obtain n2 h2 d2 str2 s2 where 2: "open_mod_table_open e uri s1 = (n2, h2, d2, str2, s2)" by (metis prod_cases5)
    have g1: "table_good e s1" using al True by simp
    have "rest_same s1 s2" using rest_open [OF 2, of s1] by simp
    then have "handle_count (store_table s2) x = refs_of s2 x" using al True by (intro store_count) (simp_all add: rest_same_def)
    moreover have "n = n2 \<and> h = h2 \<and> d = d2 \<and> s' = store_table s2" using assms(3) 1 2 True by (simp add: mod_table_open_def)
    ultimately show ?thesis
      using open_counts [OF g1 assms(2) 2] loaded_count [OF assms(1), of s1 x] 1 True
      by (auto simp: open_result_def bump_def split: option.splits if_splits)
  qed
qed

lemma mod_table_close_counts:
  assumes "entry_ok e s" and "mod_table_close e h s = (n, d, str, s')"
  shows "handle_count s' x = handle_count s x - (if x = h \<and> handle_count s h > 0 then 1 else 0)"
proof (cases "pls_lst (ms_gpls s) = []")
  case True
  have "handle_count s h = 0" using True by (simp add: handle_count_def refs_of_def find_open_def stored_def)
  moreover have "s' = s" using assms True by (simp add: entry_ok_def mod_table_close_def storage_lookup)
  ultimately show ?thesis by simp
next
  case False
  let ?s1 = "load_table (ms_gpls s) (stored (ms_gpls s)) s"
  have st: "storage_ok (ms_gpls s)" and g1: "table_good e ?s1" using assms(1) by (simp_all add: entry_ok_def load_table_def)
  have h32: "low32 (ucast h) = h" unfolding low32_def by (rule bit_word_eqI) (simp add: bit_ucast_iff)
  obtain n2 d2 str2 s2 where 2: "open_mod_table_close e (ucast h) ?s1 = (n2, d2, str2, s2)" by (metis prod_cases4)
  have rs: "rest_same ?s1 s2" using rest_close [OF 2, of ?s1] by simp
  have "handle_count s' x = refs_of s2 x"
    using assms(2) 2 False st rs by (subst store_count [symmetric])
      (simp_all add: mod_table_close_def storage_lookup rest_same_def load_table_def)
  moreover have hc: "refs_of ?s1 y = handle_count s y" for y by (simp add: handle_count_def load_table_def refs_of_def find_open_def)
  moreover have "refs_of ?s1 h > 0 \<longleftrightarrow> find_open h ?s1 \<noteq> None"
  proof (cases "find_open h ?s1")
    case (Some i)
    then have "om_refs (slot ?s1 i) \<ge> 1"
      using g1 mods_linked(3) [of e "{}" ?s1 i] find_open_member [OF Some] by (simp add: table_good_def linked_ok_def)
    then show ?thesis using Some by (simp add: refs_of_def)
  qed (simp add: refs_of_def)
  ultimately show ?thesis using close_counts [OF g1 2] h32 by (auto simp: bump_def split: if_splits)
qed

lemma handle_count_nonneg: "entry_ok e s \<Longrightarrow> handle_count s h \<ge> 0"
proof -
  assume "entry_ok e s"
  then have m: "mods_ok e (s\<lparr>openMods := stored (ms_gpls s)\<rparr>)" by (simp add: entry_ok_def table_good_def)
  show ?thesis
  proof (cases "find_open h (s\<lparr>openMods := stored (ms_gpls s)\<rparr>)")
    case (Some i)
    then show ?thesis using mods_linked(3) [OF m, of i] find_open_member [OF Some] by (simp add: handle_count_def refs_of_def linked_ok_def)
  qed (simp add: handle_count_def refs_of_def)
qed

interpretation mod_handles: counted_handles "\<lambda>s. env_ok e \<and> entry_ok e s" handle_count "reopen e" "reclose e" for e
proof unfold_locales
  fix s u h h'
  assume ok: "env_ok e \<and> entry_ok e s"
  obtain n1 h1 d1 str1 s1 where 1: "mod_table_open e (Some u) s = (n1, h1, d1, str1, s1)" by (metis prod_cases5)
  obtain n2 d2 str2 s2 where 2: "mod_table_close e h s = (n2, d2, str2, s2)" by (metis prod_cases4)
  show "env_ok e \<and> entry_ok e (snd (reopen e u s))" using ok 1 entry_open [of e s] by (simp add: reopen_def)
  show "env_ok e \<and> entry_ok e (reclose e h s)" using ok 2 entry_close [of e s] by (simp add: reclose_def)
  show "0 \<le> handle_count s h" using ok handle_count_nonneg by blast
  show "handle_count (snd (reopen e u s)) h = handle_count s h + (if fst (reopen e u s) = Some h then 1 else 0)"
    using ok 1 mod_table_open_counts [of e s] by (simp add: reopen_def)
  show "handle_count (reclose e h s) h' = handle_count s h' - (if h' = h \<and> 0 < handle_count s h then 1 else 0)"
    using ok 2 mod_table_close_counts [of e s] by (simp add: reclose_def)
qed

end
