(* ===== verification/ModTableSpec.thy ===== *)
theory ModTableSpec
  imports ModTableProps
begin

text \<open>
  The properties of the module table, and the runs that show what its locks leave open. The demo
  environment answers \<^verbatim>\<open>dlopen\<close> for two libraries.
\<close>

section \<open>A concrete environment\<close>

definition demo_mod_env :: mod_env where
  "demo_mod_env = \<lparr>rev_base = 0x10000, alloc_r = (\<lambda>_. True),
     dlopen_r = (\<lambda>_ n. (if n = ''libA_skel.so'' then 0x100 else if n = ''libB_skel.so'' then 0x200 else 0, True)),
     dlsym_r = (\<lambda>_ h n. h + 1), dlclose_r = (\<lambda>_ _. 0), dlerror_r = (\<lambda>_. None),
     mod_open_r = (\<lambda>_ _ _. (0, 5)), invoke_r = (\<lambda>_ _ _ _. 7), handle_invoke_r = (\<lambda>_ _ _ _ _. 0)\<rparr>"

definition demo_mods :: mod_state where
  "demo_mods = mods_start\<lparr>ms_gpls := snd (gpls_init (ms_gpls mods_start))\<rparr>"

definition demo_opened :: mod_state where
  "demo_opened = snd (reopen demo_mod_env ''A'' demo_mods)"

lemma demo_env_ok: "env_ok demo_mod_env"
proof -
  have "\<forall>i \<in> set [0..<MAX_REV_HANDLES]. slot_key demo_mod_env i \<noteq> 0" by code_simp
  then show ?thesis by (simp add: env_ok_def del: upt_rec_numeral)
qed

lemma demo_reach: "mod_reach demo_mod_env demo_mods"
  unfolding demo_mods_def by (rule mod_reach.step [OF mod_reach.start mod_step.storage_init])

lemma demo_open: "mod_table_open demo_mod_env (Some ''A'') demo_mods = (0, Some 0x10000, 0, None, demo_opened)"
proof -
  have "(case mod_table_open demo_mod_env (Some ''A'') demo_mods of (n, h, d, str, s) \<Rightarrow> (n, h, d, str)) = (0, Some 0x10000, 0, None)"
    by code_simp
  then show ?thesis by (auto simp: demo_opened_def reopen_def split: prod.splits)
qed

lemma demo_opened_reach: "mod_reach demo_mod_env demo_opened"
  by (rule mod_reach.step [OF demo_reach mod_step.open_uri [OF demo_open]])

lemma demo_opened_values:
  "stored (ms_gpls demo_opened) = [0]" "om_uri (slot demo_opened 0) = ''A''" "om_key (slot demo_opened 0) = 0x10000"
  "ms_log demo_opened = [Dlopen ''libA_skel.so'' 0x100, Dlsym 0x100 ''A_skel_invoke'' 0x101]"
  "constMods (smt demo_opened) = []" "pls_uRefs (ms_gpls demo_opened) = 1"
  by code_simp+

section \<open>Properties\<close>

text \<open>C5: \<^bold>\<open>the table of reverse modules is consistent\<close>. After any sequence of registrations, opens,
  closes and invocations, the open table lists exactly the slots that are in use, each once; each of
  them has the address of its slot as its handle, at least one reference and a function to call.\<close>

theorem module_table_consistent:
  assumes "mod_reach e s" and "env_ok e"
  shows "distinct (stored (ms_gpls s)) \<and> length (rev_handle_table s) = MAX_REV_HANDLES \<and>
    set (stored (ms_gpls s)) = {i. i < MAX_REV_HANDLES \<and> om_key (slot s i) \<noteq> 0} \<and>
    (\<forall>i \<in> set (stored (ms_gpls s)). om_key (slot s i) = slot_key e i \<and> om_refs (slot s i) \<ge> 1 \<and>
       (om_invoke (slot s i) \<noteq> 0 \<or> om_handle_invoke (slot s i) \<noteq> 0))"
proof -
  have m: "mods_ok e (s\<lparr>openMods := stored (ms_gpls s)\<rparr>)"
    using mod_reach_ok [OF assms] by (simp add: entry_ok_def table_good_def)
  then have "distinct (stored (ms_gpls s))" "length (rev_handle_table s) = MAX_REV_HANDLES"
    "set (stored (ms_gpls s)) = {i. i < MAX_REV_HANDLES \<and> om_key (slot s i) \<noteq> 0}"
    by (simp_all add: mods_but_def)
  moreover have "linked_ok e i (slot s i)" if "i \<in> set (stored (ms_gpls s))" for i
    using mods_linked(3) [OF m, of i] that by simp
  ultimately show ?thesis unfolding linked_ok_def callable_def by blast
qed

theorem module_table_consistent_witness:
  "mod_reach demo_mod_env demo_opened \<and> om_refs (slot demo_opened 0) \<ge> 1 \<and> om_key (slot demo_opened 0) = slot_key demo_mod_env 0"
  using module_table_consistent [OF demo_opened_reach demo_env_ok] demo_opened_reach demo_opened_values(1) by simp

text \<open>C14: \<^bold>\<open>nothing is leaked and nothing is closed twice\<close>. After any sequence of calls, the libraries
  loaded and the module handles opened are those closed together with those of the slots in use, as
  multisets; when the process-local storage ends, everything opened has been closed.\<close>

theorem modules_released_once:
  assumes "mod_reach e s" and "env_ok e"
  shows "log_gain (ms_log s) = log_release (ms_log s) + held s \<and>
    (pls_uRefs (ms_gpls s) = 1 \<longrightarrow>
       log_gain (ms_log (mod_table_gpls_deinit e s)) = log_release (ms_log (mod_table_gpls_deinit e s)))"
proof -
  have bal: "log_gain (ms_log s) = log_release (ms_log s) + held s" if "entry_ok e s" for s
    using that by (simp add: entry_ok_def table_good_def balanced_def held_def)
  let ?s = "mod_table_gpls_deinit e s"
  have ok: "entry_ok e s" "entry_ok e ?s" using mod_reach_ok [OF assms] entry_storage_deinit by auto
  have "held ?s = {#}" if "pls_uRefs (ms_gpls s) = 1"
  proof -
    have "stored (ms_gpls ?s) = []"
      using ok(2) that dtor_storage [OF ok(1) that] by (simp add: stored_def)
    then have "{i. i < MAX_REV_HANDLES \<and> om_key (slot ?s i) \<noteq> 0} = {}"
      using ok(2) by (simp add: entry_ok_def table_good_def mods_but_def)
    then show ?thesis by (simp only: held_def sum.empty)
  qed
  then show ?thesis using bal [OF ok(1)] bal [OF ok(2)] by simp
qed

theorem modules_released_once_witness:
  "log_gain (ms_log demo_opened) = {#Lib 0x100#} \<and> held demo_opened = {#Lib 0x100#} \<and>
   log_gain (ms_log (mod_table_gpls_deinit demo_mod_env demo_opened)) =
     log_release (ms_log (mod_table_gpls_deinit demo_mod_env demo_opened))"
  using modules_released_once [OF demo_opened_reach demo_env_ok] demo_opened_values(4,6) by simp

text \<open>C15: \<^bold>\<open>handles are counted\<close>. Opening a URI either hands out one handle, whose count grows by one, or
  reports an error; closing takes one off an open handle and fails on any other; invoking changes no
  count. In no case does the count of another handle change.\<close>

theorem handles_are_counted:
  assumes "mod_reach e s" and "env_ok e"
  shows "(case mod_table_open e (Some uri) s of (n, h, d, str, s') \<Rightarrow>
            (h \<noteq> None \<longleftrightarrow> n = 0 \<and> d = 0) \<and>
            handle_count s' x = handle_count s x + (if h = Some x then 1 else 0)) \<and>
    (case mod_table_close e y s of (n, d, str, s') \<Rightarrow>
            handle_count s' x = handle_count s x - (if x = y \<and> handle_count s y > 0 then 1 else 0)) \<and>
    handle_count (snd (mod_table_invoke e y sc pra s)) x = handle_count s x"
proof -
  have ok: "entry_ok e s" by (rule mod_reach_ok [OF assms])
  obtain n1 s1 where 1: "mod_table_add_lookup e s = (n1, s1)" by (cases "mod_table_add_lookup e s")
  note al = add_lookup_ok [OF ok 1]
  have "handle_count (snd (mod_table_invoke e y sc pra s)) x = handle_count s x"
  proof (cases "n1 = 0")
    case False
    then show ?thesis using 1 al by (simp add: mod_table_invoke_def)
  next
    case True
    obtain n2 s2 where 2: "open_mod_table_handle_invoke e y sc pra s1 = (n2, s2)"
      by (cases "open_mod_table_handle_invoke e y sc pra s1")
    have g1: "table_good e s1" using al True by simp
    have "rest_same s1 s2" using rest_invoke [OF 2, of s1] by simp
    then have "handle_count (store_table s2) x = refs_of s2 x" using al True by (intro store_count) (simp_all add: rest_same_def)
    then show ?thesis
      using 1 2 True same_mods_refs [OF invoke_counts [OF g1 2], of x] loaded_count [OF ok, of s1 x]
      by (simp add: mod_table_invoke_def)
  qed
  then show ?thesis
    using mod_table_open_counts [OF ok assms(2)] mod_table_close_counts [OF ok] by (auto split: prod.splits)
qed

theorem handles_are_counted_witness:
  "mod_reach demo_mod_env demo_mods \<and> handle_count demo_opened 0x10000 = handle_count demo_mods 0x10000 + 1"
  using handles_are_counted [OF demo_reach demo_env_ok, where uri = "''A''" and x = "0x10000"] demo_open demo_reach by simp

text \<open>\<^bold>\<open>As many closes as opens\<close>. A handle that is open \<open>n\<close> times is no longer open after \<open>n\<close> closes, and an
  open followed by the close of its handle leaves every count as it was.\<close>

theorem opens_and_closes_balance:
  assumes "mod_reach e s" and "env_ok e"
  shows "handle_count ((reclose e h ^^ nat (handle_count s h)) s) h = 0 \<and>
    (\<forall>x s'. reopen e uri s = (Some x, s') \<longrightarrow> handle_count (reclose e x s') = handle_count s)"
proof -
  have ok: "env_ok e \<and> entry_ok e s" using mod_reach_ok [OF assms] assms(2) by simp
  then have "handle_count s h \<ge> 0" using handle_count_nonneg by blast
  then have "handle_count ((reclose e h ^^ nat (handle_count s h)) s) h = 0"
    using mod_handles.closes [OF ok, of "nat (handle_count s h)" h h] by simp
  then show ?thesis using mod_handles.open_close [OF ok] by blast
qed

theorem opens_and_closes_balance_witness:
  "handle_count (reclose demo_mod_env 0x10000 demo_opened) = handle_count demo_mods"
proof -
  have "reopen demo_mod_env ''A'' demo_mods = (Some 0x10000, demo_opened)" using demo_open by (simp add: reopen_def)
  then show ?thesis using opens_and_closes_balance [OF demo_reach demo_env_ok, where uri = "''A''"] by blast
qed

section \<open>What a handle is opened for\<close>

text \<open>The calls made since a state, and what the steps on slot \<open>i\<close> leave alone.\<close>

definition made_since :: "mod_state \<Rightarrow> mod_state \<Rightarrow> mod_event set" where
  "made_since a s = set (drop (length (ms_log a)) (ms_log s))"

definition elsewhere :: "nat \<Rightarrow> mod_state \<Rightarrow> mod_state \<Rightarrow> bool" where
  "elsewhere i a s \<longleftrightarrow> smt s = smt a \<and> length (rev_handle_table s) = length (rev_handle_table a) \<and>
     i < length (rev_handle_table a) \<and> (\<exists>evs. ms_log s = ms_log a @ evs) \<and> (\<forall>j. j \<noteq> i \<longrightarrow> slot s j = slot a j)"

definition untouched :: "mod_state \<Rightarrow> mod_state \<Rightarrow> bool" where
  "untouched a s \<longleftrightarrow> smt s = smt a \<and> (\<exists>evs. ms_log s = ms_log a @ evs) \<and> (\<forall>j < MAX_REV_HANDLES. om_key (slot s j) \<noteq> 0 \<longrightarrow> slot s j = slot a j)"

text \<open>A module from the static tables has the functions of an entry for the URI, as given or as printed back from its
  parts; one from the dynamic linker has the symbol of the URI in the library of the URI. The handle passed to it is the one that it
  returned when it was opened for the URI.\<close>

definition static_origin :: "string \<Rightarrow> mod_state \<Rightarrow> open_mod \<Rightarrow> bool" where
  "static_origin uri a m \<longleftrightarrow> (\<exists>sm \<in> set (staticModOverrides (smt a)) \<union> set (staticMods (smt a)). sm_uri sm = om_uri m \<and>
     om_uri m \<in> {uri, take (tmp_len uri - 1) (canonical_uri (snd (uri_vals uri)))} \<and>
     om_invoke m = sm_invoke sm \<and> om_handle_invoke m = sm_handle_invoke sm)"

definition dynamic_origin :: "string \<Rightarrow> mod_event set \<Rightarrow> open_mod \<Rightarrow> bool" where
  "dynamic_origin uri evs m \<longleftrightarrow> (let vals = snd (uri_vals uri); lib = library_name uri vals in
     \<exists>f. (Dlopen lib (om_dlhandle m) \<in> evs \<or> Dlopen (system_name (tmp_len uri) lib) (om_dlhandle m) \<in> evs) \<and>
       Dlsym (om_dlhandle m) (symbol_name uri vals) f \<in> evs \<and>
       (if ut_ver vals \<noteq> [] \<and> take (length (ut_ver vals)) ''1.0'' = ut_ver vals
        then om_invoke m = 0 \<and> om_handle_invoke m = f else om_invoke m = f \<and> om_handle_invoke m = 0))"

definition started_for :: "string \<Rightarrow> mod_event set \<Rightarrow> open_mod \<Rightarrow> bool" where
  "started_for uri evs m \<longleftrightarrow> om_handle_invoke m \<noteq> 0 \<longrightarrow> ModOpen (om_handle_invoke m) uri 0 (om_h64 m) \<in> evs"

text \<open>A URI that is open already shares its module; another one gets a module of its own.\<close>

definition opened_for :: "string \<Rightarrow> mod_state \<Rightarrow> mod_state \<Rightarrow> nat \<Rightarrow> bool" where
  "opened_for uri a s i \<longleftrightarrow> i < MAX_REV_HANDLES \<and>
     (om_key (slot a i) \<noteq> 0 \<and> om_uri (slot a i) = uri \<and> slot s i = (slot a i)\<lparr>om_refs := om_refs (slot a i) + 1\<rparr> \<or>
      (static_origin uri a (slot s i) \<or> dynamic_origin uri (made_since a s) (slot s i)) \<and> started_for uri (made_since a s) (slot s i))"

lemma elsewhere_set [simp]: "elsewhere i a (set_slot i f s) = elsewhere i a s"
  unfolding elsewhere_def set_slot_def by auto

lemma elsewhere_log: "elsewhere i a s \<Longrightarrow> elsewhere i a (add_log ev s)"
  by (auto simp: elsewhere_def add_log_def)

lemma elsewhere_slot: "elsewhere i a s \<Longrightarrow> slot (set_slot i f s) i = f (slot s i)"
  by (simp add: elsewhere_def slot_set_slot)

lemma made_add_log: "elsewhere i a s \<Longrightarrow> made_since a (add_log ev s) = insert ev (made_since a s)"
  by (auto simp: made_since_def elsewhere_def add_log_def)

lemma made_set [simp]: "made_since a (set_slot i f s) = made_since a s"
  by (simp add: made_since_def)

lemma elsewhere_free:
  assumes "elsewhere i a s"
  shows "untouched a (free_slot i (close_module_handle i s))"
    and "untouched a (free_slot i (snd (close_module_library e i (close_module_handle i s))))"
proof -
  have u: "untouched a (free_slot i s)" if "elsewhere i a s" for s
    using that by (auto simp: untouched_def free_slot_def slot_set_slot elsewhere_def)
  have c: "elsewhere i a (close_module_handle i s)"
    using assms by (simp add: close_module_handle_def open_mod_handle_close_def elsewhere_log)
  then show "untouched a (free_slot i (close_module_handle i s))" by (rule u)
  have "elsewhere i a (snd (close_module_library e i (close_module_handle i s)))"
    using c by (simp add: close_module_library_def do_dlclose_def Let_def elsewhere_log)
  then show "untouched a (free_slot i (snd (close_module_library e i (close_module_handle i s))))" by (rule u)
qed

lemma dlopen_origin:
  assumes "do_dlopen e i n s = (b, s')" and "elsewhere i a s"
  shows "elsewhere i a s' \<and> made_since a s' = insert (Dlopen n (om_dlhandle (slot s' i))) (made_since a s) \<and>
    (\<exists>h. slot s' i = (slot s i)\<lparr>om_dlhandle := h\<rparr>)"
proof -
  obtain h en where d: "dlopen_r e (ms_log s) n = (h, en)" by (metis surj_pair)
  note l = elsewhere_log [OF assms(2), of "Dlopen n h"]
  have "s' = set_slot i (\<lambda>m. m\<lparr>om_dlhandle := h\<rparr>) (add_log (Dlopen n h) s)" using assms(1) d by (simp add: do_dlopen_def)
  then show ?thesis using l elsewhere_slot [OF l] made_add_log [OF assms(2), of "Dlopen n h"] by auto
qed

lemma library_origin:
  assumes "dynamic_library e i uri vals s = (nErr, d, s')" and "elsewhere i a s"
  shows "elsewhere i a s' \<and> (nErr = 0 \<longrightarrow> (\<exists>h. slot s' i = (slot s i)\<lparr>om_dlhandle := h\<rparr>) \<and>
    (Dlopen (library_name uri vals) (om_dlhandle (slot s' i)) \<in> made_since a s' \<or>
     Dlopen (system_name (tmp_len uri) (library_name uri vals)) (om_dlhandle (slot s' i)) \<in> made_since a s'))"
proof -
  let ?lib = "library_name uri vals"
  obtain b s1 where 1: "do_dlopen e i ?lib s = (b, s1)" by (metis surj_pair)
  obtain c s2 where 2: "do_dlopen e i (system_name (tmp_len uri) ?lib) s1 = (c, s2)" by (metis surj_pair)
  note o1 = dlopen_origin [OF 1 assms(2)]
  note o2 = dlopen_origin [OF 2 conjunct1 [OF o1]]
  have e2: "elsewhere i a s2" "\<exists>h. slot s2 i = (slot s i)\<lparr>om_dlhandle := h\<rparr>"
    "Dlopen (system_name (tmp_len uri) ?lib) (om_dlhandle (slot s2 i)) \<in> made_since a s2"
    using o1 o2 by auto
  have e1: "elsewhere i a s1" "\<exists>h. slot s1 i = (slot s i)\<lparr>om_dlhandle := h\<rparr>"
    "Dlopen ?lib (om_dlhandle (slot s1 i)) \<in> made_since a s1" using o1 by auto
  have "(nErr \<noteq> 0 \<and> s' = s) \<or> s' = s1 \<or> s' = s2"
    using assms(1) 1 2 by (auto simp: dynamic_library_def Let_def split: if_splits prod.splits)
  then show ?thesis using e1 e2 assms(2) by blast
qed

lemma symbol_origin:
  assumes "dynamic_symbol e i uri vals s = (nErr, d, s')" and "elsewhere i a s"
  shows "elsewhere i a s' \<and> made_since a s \<subseteq> made_since a s' \<and> (nErr = 0 \<longrightarrow>
    (\<exists>f. Dlsym (om_dlhandle (slot s i)) (symbol_name uri vals) f \<in> made_since a s' \<and>
      slot s' i = (if ut_ver vals \<noteq> [] \<and> take (length (ut_ver vals)) ''1.0'' = ut_ver vals
                   then (slot s i)\<lparr>om_handle_invoke := f\<rparr> else (slot s i)\<lparr>om_invoke := f\<rparr>)))"
proof -
  let ?f = "dlsym_r e (ms_log s) (om_dlhandle (slot s i)) (symbol_name uri vals)"
  let ?ev = "Dlsym (om_dlhandle (slot s i)) (symbol_name uri vals) ?f"
  note l = elsewhere_log [OF assms(2), of ?ev]
  note m = made_add_log [OF assms(2), of ?ev]
  show ?thesis
    using assms l m elsewhere_slot [OF l] by (auto simp: dynamic_symbol_def Let_def split: if_splits)
qed

lemma take_slot_origin:
  assumes "take_slot e i uri s = (nErr, s')" and "elsewhere i a s"
  shows "elsewhere i a s' \<and> made_since a s \<subseteq> made_since a s' \<and> (nErr = 0 \<longrightarrow>
    (\<exists>h. slot s' i = (slot s i)\<lparr>om_key := slot_key e i, om_refs := 1, om_h64 := h\<rparr>) \<and> started_for uri (made_since a s') (slot s' i))"
proof -
  let ?s = "set_slot i (\<lambda>m. m\<lparr>om_key := slot_key e i, om_refs := 1\<rparr>) s"
  have s: "elsewhere i a ?s" "slot ?s i = (slot s i)\<lparr>om_key := slot_key e i, om_refs := 1\<rparr>" "made_since a ?s = made_since a s"
    using assms(2) elsewhere_slot [OF assms(2)] by simp_all
  show ?thesis
  proof (cases "om_handle_invoke (slot ?s i) \<noteq> 0")
    case False
    moreover have "slot s i = (slot s i)\<lparr>om_h64 := om_h64 (slot s i)\<rparr>" by simp
    then have "\<exists>h. slot ?s i = (slot s i)\<lparr>om_key := slot_key e i, om_refs := 1, om_h64 := h\<rparr>"
      unfolding s(2) by (intro exI [of _ "om_h64 (slot s i)"]) simp
    ultimately show ?thesis using assms(1) s by (auto simp: take_slot_def started_for_def Let_def)
  next
    case True
    let ?f = "om_handle_invoke (slot ?s i)"
    obtain k h where o: "mod_open_r e (ms_log ?s) ?f uri = (k, h)" by (metis surj_pair)
    note l = elsewhere_log [OF s(1), of "ModOpen ?f uri k h"]
    have s': "nErr = k" "s' = (if k = 0 then set_slot i (\<lambda>m. m\<lparr>om_h64 := h\<rparr>) (add_log (ModOpen ?f uri k h) ?s) else add_log (ModOpen ?f uri k h) ?s)"
      using assms(1) True o by (auto simp: take_slot_def open_mod_handle_open_def Let_def)
    show ?thesis
      using s' l s made_add_log [OF s(1), of "ModOpen ?f uri k h"] elsewhere_slot [OF l] by (auto simp: started_for_def)
  qed
qed

lemma start_elsewhere:
  assumes "table_good e s" and "next_available_rev_handle s = Some i"
  shows "i < MAX_REV_HANDLES" and "elsewhere i s (set_slot i f s)" and "slot (set_slot i f s) i = f (slot s i)"
proof -
  show i: "i < MAX_REV_HANDLES"
    using assms(2) by (auto simp: next_available_rev_handle_def find_Some_iff simp del: upt_rec_numeral)
  moreover have "length (rev_handle_table s) = MAX_REV_HANDLES" using assms(1) by (simp add: table_good_def mods_but_def)
  ultimately have "elsewhere i s s" by (simp add: elsewhere_def)
  then show "elsewhere i s (set_slot i f s)" "slot (set_slot i f s) i = f (slot s i)" using elsewhere_slot by auto
qed

text \<open>The outcome of one way to open: a module for the URI, or nothing.\<close>

definition opens_for :: "string \<Rightarrow> mod_state \<Rightarrow> u32 option \<Rightarrow> mod_state \<Rightarrow> bool" where
  "opens_for uri s h s' \<longleftrightarrow>
     (case h of None \<Rightarrow> untouched s s'
      | Some x \<Rightarrow> \<exists>i. opened_for uri s s' i \<and> low32 (om_key (slot s' i)) = x \<and> om_key (slot s' i) \<noteq> 0)"

lemma opened_already:
  assumes "table_good e s" and "is_reverse_handle_opened uri s = (r, s1)"
  shows "case r of None \<Rightarrow> s1 = s | Some x \<Rightarrow> opens_for uri s (Some x) s1"
proof (cases "find (\<lambda>i. om_key (slot s i) \<noteq> 0 \<and> om_uri (slot s i) = uri) [0..<MAX_REV_HANDLES]")
  case None
  then show ?thesis using assms(2) by (simp add: is_reverse_handle_opened_def)
next
  case (Some i)
  then have i: "i < MAX_REV_HANDLES" "om_key (slot s i) \<noteq> 0" "om_uri (slot s i) = uri"
    by (auto simp: find_Some_iff simp del: upt_rec_numeral)
  have "i < length (rev_handle_table s)" using assms(1) i(1) by (simp add: table_good_def mods_but_def)
  then have "slot (set_slot i (\<lambda>m. m\<lparr>om_refs := om_refs m + 1\<rparr>) s) i = (slot s i)\<lparr>om_refs := om_refs (slot s i) + 1\<rparr>"
    by (simp add: slot_set_slot)
  then show ?thesis
    using assms(2) Some i
    by (auto simp: is_reverse_handle_opened_def opens_for_def opened_for_def simp del: upt_rec_numeral intro!: exI [of _ i])
qed

lemma find_static_origin:
  assumes "find_static_mod i uri tbl s = (nErr, Some sm, s')" and "elsewhere i a s" and "om_uri (slot s i) = uri"
  shows "elsewhere i a s' \<and> (nErr = 0 \<longrightarrow> sm \<in> set tbl \<and> sm_uri sm = om_uri (slot s' i) \<and>
    om_uri (slot s' i) \<in> {uri, take (tmp_len uri - 1) (canonical_uri (snd (uri_vals uri)))} \<and>
    made_since a s' = made_since a s)"
  using assms elsewhere_slot [OF assms(2)]
  by (auto simp: find_static_mod_def find_static_def find_Some_iff Let_def split: option.splits prod.splits if_splits)

lemma find_static_elsewhere:
  "find_static_mod i uri tbl s = (nErr, sm, s') \<Longrightarrow> elsewhere i a s \<Longrightarrow> elsewhere i a s'"
  by (auto simp: find_static_mod_def Let_def split: option.splits prod.splits if_splits)

lemma open_from_static_for:
  assumes "table_good e s" and "env_ok e" and "open_mod_table_open_from_static e tbl uri s = (nErr, h, s')"
    and tbl: "set tbl \<subseteq> set (staticModOverrides (smt s)) \<union> set (staticMods (smt s))"
  shows "opens_for uri s h s'"
proof (cases "is_reverse_handle_opened uri s")
  case (Pair r s1)
  note found = opened_already [OF assms(1) Pair]
  have refl: "opens_for uri s None s" by (simp add: opens_for_def untouched_def)
  show ?thesis
  proof (cases "\<not> REV_HANDLE_SIZE < sizeof_open_mod + tmp_len uri \<and> r = None \<and> next_available_rev_handle s1 \<noteq> None")
    case False
    then show ?thesis
      using assms(3) Pair found refl
      by (auto simp: open_mod_table_open_from_static_def split: if_splits option.splits)
  next
    case True
    then have s1: "s1 = s" using found by simp
    obtain i where i: "next_available_rev_handle s = Some i" using True s1 by auto
    note st = start_elsewhere [OF assms(1) i]
    let ?s2 = "set_slot i (\<lambda>_. no_open_mod\<lparr>om_uri := uri\<rparr>) s"
    obtain n3 sm s3 where 3: "find_static_mod i uri tbl ?s2 = (n3, sm, s3)" by (metis prod_cases3)
    have e3: "elsewhere i s s3" by (rule find_static_elsewhere [OF 3 st(2)])
    have fail: "opens_for uri s None (free_slot i (close_module_handle i sx))" if "elsewhere i s sx" for sx
      using elsewhere_free(1) [OF that] by (simp add: opens_for_def)
    show ?thesis
    proof (cases "n3 = 0 \<and> sm \<noteq> None")
      case False
      then show ?thesis
        using assms(3) True Pair i s1 3 fail [OF e3] by (auto simp: open_mod_table_open_from_static_def Let_def split: if_splits)
    next
      case sm: True
      then obtain m where m: "sm = Some m" by auto
      have o3: "m \<in> set tbl" "sm_uri m = om_uri (slot s3 i)"
        "om_uri (slot s3 i) \<in> {uri, take (tmp_len uri - 1) (canonical_uri (snd (uri_vals uri)))}"
        using find_static_origin [OF 3 [unfolded m] st(2)] st(3) sm by simp_all
      let ?s4 = "set_slot i (\<lambda>x. x\<lparr>om_handle_invoke := sm_handle_invoke m, om_invoke := sm_invoke m\<rparr>) s3"
      have e4: "elsewhere i s ?s4" using e3 by simp
      obtain n5 s5 where 5: "take_slot e i uri ?s4 = (n5, s5)" by (cases "take_slot e i uri ?s4")
      note o5 = take_slot_origin [OF 5 e4]
      show ?thesis
      proof (cases "n5 = 0")
        case False
        then show ?thesis
          using assms(3) True Pair i s1 3 sm m 5 fail [of s5] o5 by (auto simp: open_mod_table_open_from_static_def Let_def)
      next
        case ok: True
        then obtain hd where sl: "slot s5 i = (slot ?s4 i)\<lparr>om_key := slot_key e i, om_refs := 1, om_h64 := hd\<rparr>"
          and sf: "started_for uri (made_since s s5) (slot s5 i)" using o5 by auto
        have so: "static_origin uri s (slot s5 i)"
          using o3 tbl elsewhere_slot [OF e3] unfolding static_origin_def sl by (intro bexI [of _ m]) auto
        have "om_key (slot s5 i) = slot_key e i" "slot_key e i \<noteq> 0"
          using sl assms(2) st(1) by (simp_all add: env_ok_def)
        moreover have "made_since s (s5\<lparr>openMods := x\<rparr>) = made_since s s5" for x by (simp add: made_since_def)
        ultimately have "opens_for uri s (Some (low32 (om_key (slot s5 i)))) (s5\<lparr>openMods := i # openMods s5\<rparr>)"
          using so sf st(1) by (auto simp: opens_for_def opened_for_def intro!: exI [of _ i])
        then show ?thesis
          using assms(3) True Pair i s1 3 sm m 5 ok by (simp add: open_mod_table_open_from_static_def Let_def)
      qed
    qed
  qed
qed

lemma open_dynamic_for:
  assumes "table_good e s" and "env_ok e" and "open_mod_table_open_dynamic e uri s = (nErr, h, dlErr, str, s')"
  shows "opens_for uri s h s'"
proof (cases "is_reverse_handle_opened uri s")
  case (Pair r s1)
  note found = opened_already [OF assms(1) Pair]
  have refl: "opens_for uri s None s" by (simp add: opens_for_def untouched_def)
  show ?thesis
  proof (cases "alloc_r e (ms_log s) \<and> \<not> REV_HANDLE_SIZE < sizeof_open_mod + length uri + 1 \<and> r = None \<and>
      next_available_rev_handle s1 \<noteq> None")
    case False
    then show ?thesis
      using assms(3) Pair found refl by (auto simp: open_mod_table_open_dynamic_def split: if_splits option.splits)
  next
    case True
    then have s1: "s1 = s" using found by simp
    obtain i where i: "next_available_rev_handle s = Some i" using True s1 by auto
    note st = start_elsewhere [OF assms(1) i]
    let ?s2 = "set_slot i (\<lambda>_. no_open_mod\<lparr>om_uri := uri\<rparr>) s" and ?vals = "snd (uri_vals uri)"
    obtain n3 d3 s3 where 3: "dynamic_library e i uri ?vals ?s2 = (n3, d3, s3)" by (metis prod_cases3)
    obtain n4 d4 s4 where 4: "dynamic_symbol e i uri ?vals s3 = (n4, d4, s4)" by (metis prod_cases3)
    obtain n5 s5 where 5: "take_slot e i uri s4 = (n5, s5)" by (metis prod.collapse)
    obtain n6 s6 where 6: "dynamic_register e i uri s4 = (n6, s6)" by (metis prod.collapse)
    note o3 = library_origin [OF 3 st(2)]
    note o4 = symbol_origin [OF 4 conjunct1 [OF o3]]
    note o5 = take_slot_origin [OF 5 conjunct1 [OF o4]]
    have g: "fresh e i s4" using fresh_symbol [OF fresh_library [OF fresh_start [OF assms(1) i] 3] 4] by auto
    have bail: "opens_for uri s h s'" if "dynamic_bail e i n d sx = (nErr, h, dlErr, str, s')" "elsewhere i s sx" for n d sx
      using that elsewhere_free(2) [OF that(2), of e] by (auto simp: dynamic_bail_def opens_for_def Let_def)
    have e6: "elsewhere i s s6"
      using 6 5 o5 by (auto simp: dynamic_register_def elsewhere_def set_slot_def Let_def split: if_splits option.splits)
    show ?thesis
    proof (cases "n3 = 0 \<and> n4 = 0 \<and> n6 = 0")
      case False
      then show ?thesis
        using assms(3) True Pair i s1 3 4 6 bail o3 o4 e6
        by (auto simp: open_mod_table_open_dynamic_def split: if_splits)
    next
      case ok: True
      then have n5: "n5 = 0" using 5 6 by (auto simp: dynamic_register_def split: if_splits)
      have len: "i < length (rev_handle_table s5)" using o5 by (simp add: elsewhere_def)
      from n5 obtain hd where sl: "slot s5 i = (slot s4 i)\<lparr>om_key := slot_key e i, om_refs := 1, om_h64 := hd\<rparr>"
        and sf: "started_for uri (made_since s s5) (slot s5 i)" using o5 by auto
      have k: "om_key (slot s5 i) = slot_key e i" using sl by simp
      moreover have "owns e i s5"
        using take_slot_spec [OF g _ 5] fresh_symbol [OF fresh_library [OF fresh_start [OF assms(1) i] 3] 4] ok by auto
      ultimately have uk: "unused_key i s5 = slot_key e i" using unused_key_free by auto
      have "(slot s5 i)\<lparr>om_key := slot_key e i\<rparr> = slot s5 i" using k by (cases "slot s5 i") simp
      then have "set_slot i (\<lambda>m. m\<lparr>om_key := slot_key e i\<rparr>) s5 = s5" by (simp add: set_slot_def)
      then have s6: "s6 = s5\<lparr>openMods := i # openMods s5\<rparr>"
        using 6 5 n5 ok uk by (auto simp: dynamic_register_def Let_def split: option.splits)
      obtain dl where s3: "slot s3 i = no_open_mod\<lparr>om_uri := uri, om_dlhandle := dl\<rparr>" using o3 ok st(3) by auto
      obtain f where f: "Dlsym dl (symbol_name uri ?vals) f \<in> made_since s s4"
          "slot s4 i = (if ut_ver ?vals \<noteq> [] \<and> take (length (ut_ver ?vals)) ''1.0'' = ut_ver ?vals
                       then (slot s3 i)\<lparr>om_handle_invoke := f\<rparr> else (slot s3 i)\<lparr>om_invoke := f\<rparr>)"
        using o4 ok s3 by auto
      have dl: "om_dlhandle (slot s5 i) = dl" "om_invoke (slot s5 i) = om_invoke (slot s4 i)"
          "om_handle_invoke (slot s5 i) = om_handle_invoke (slot s4 i)"
        using sl f(2) s3 by (auto split: if_splits)
      have inv: "if ut_ver ?vals \<noteq> [] \<and> take (length (ut_ver ?vals)) ''1.0'' = ut_ver ?vals
          then om_invoke (slot s5 i) = 0 \<and> om_handle_invoke (slot s5 i) = f else om_invoke (slot s5 i) = f \<and> om_handle_invoke (slot s5 i) = 0"
        using f(2) s3 dl(2,3) by (simp add: no_open_mod_def)
      have lib: "Dlopen (library_name uri ?vals) dl \<in> made_since s s5 \<or> Dlopen (system_name (tmp_len uri) (library_name uri ?vals)) dl \<in> made_since s s5"
        using o3 ok s3 o4 o5 by auto
      have "Dlsym dl (symbol_name uri ?vals) f \<in> made_since s s5" using f(1) o5 by blast
      with inv lib dl(1) have "dynamic_origin uri (made_since s s5) (slot s5 i)"
        unfolding dynamic_origin_def Let_def by metis
      moreover have "slot_key e i \<noteq> 0" using assms(2) st(1) by (simp add: env_ok_def)
      moreover have "made_since s s6 = made_since s s5" by (simp add: s6 made_since_def)
      ultimately have "opens_for uri s (Some (low32 (om_key (slot s6 i)))) s6"
        using sf st(1) sl by (auto simp: s6 opens_for_def opened_for_def intro!: exI [of _ i])
      then show ?thesis
        using assms(3) True Pair i s1 3 4 6 ok by (auto simp: open_mod_table_open_dynamic_def Let_def)
    qed
  qed
qed

lemma opens_trans:
  assumes "opens_for uri a None s" and "opens_for uri s h s'"
  shows "opens_for uri a h s'"
proof -
  have u: "untouched a s" using assms(1) by (simp add: opens_for_def)
  then obtain evs where evs: "smt s = smt a" "ms_log s = ms_log a @ evs" by (auto simp: untouched_def)
  show ?thesis
  proof (cases h)
    case None
    then have "untouched s s'" using assms(2) by (simp add: opens_for_def)
    then show ?thesis using u None by (fastforce simp: opens_for_def untouched_def)
  next
    case (Some x)
    then obtain i where i: "opened_for uri s s' i" "low32 (om_key (slot s' i)) = x" "om_key (slot s' i) \<noteq> 0"
      using assms(2) by (auto simp: opens_for_def)
    have sub: "made_since s s' \<subseteq> made_since a s'"
      using evs(2) set_drop_subset_set_drop [of "length (ms_log a)" "length (ms_log s)" "ms_log s'"] by (simp add: made_since_def)
    have "static_origin uri a m = static_origin uri s m" for m using evs(1) by (simp add: static_origin_def)
    moreover have "dynamic_origin uri (made_since s s') m \<Longrightarrow> dynamic_origin uri (made_since a s') m" for m
      using sub unfolding dynamic_origin_def Let_def by (meson subsetD)
    moreover have "started_for uri (made_since s s') m \<Longrightarrow> started_for uri (made_since a s') m" for m
      using sub by (auto simp: started_for_def)
    moreover have "om_key (slot s i) \<noteq> 0 \<Longrightarrow> slot s i = slot a i" using u i(1) by (auto simp: untouched_def opened_for_def)
    ultimately have "opened_for uri a s' i" using i(1) unfolding opened_for_def by metis
    then show ?thesis using Some i(2,3) by (auto simp: opens_for_def)
  qed
qed

lemma open_for:
  assumes "table_good e s" and "env_ok e" and "open_mod_table_open e uri s = (nErr, h, dlErr, str, s')"
  shows "opens_for uri s h s'"
proof -
  obtain e1 h1 s1 where 1: "open_mod_table_open_static_override e uri s = (e1, h1, s1)" by (metis prod_cases3)
  have t: "\<forall>m \<in> set (staticModOverrides (smt s)). sm_invoke m \<noteq> 0 \<or> sm_handle_invoke m \<noteq> 0"
    using statics_good [OF assms(1)] by (auto simp: statics_ok_def)
  note ov = 1 [unfolded open_mod_table_open_static_override_def]
  have g1: "table_good e s1" by (rule open_from_static_good [OF assms(1,2) ov t])
  have c1: "opens_for uri s h1 s1" "h1 \<noteq> None \<longleftrightarrow> e1 = 0"
    using open_from_static_for [OF assms(1,2) ov] open_from_static_counts [OF assms(1) ov t] by auto
  obtain n2 h2 d2 str2 s2 where 2: "open_mod_table_open_dynamic e uri s1 = (n2, h2, d2, str2, s2)" by (metis prod_cases5)
  have g2: "table_good e s2" using open_dynamic_good [OF g1 assms(2) 2] .
  have c2: "opens_for uri s1 h2 s2" "h2 \<noteq> None \<longleftrightarrow> n2 = 0 \<and> d2 = 0"
    using open_dynamic_for [OF g1 assms(2) 2] open_dynamic_counts [OF g1 2] by auto
  obtain e3 h3 s3 where 3: "open_mod_table_open_static e uri s2 = (e3, h3, s3)" by (metis prod_cases3)
  have c3: "opens_for uri s2 h3 s3"
    using open_from_static_for [OF g2 assms(2) 3 [unfolded open_mod_table_open_static_def]] by simp
  show ?thesis
  proof (cases "e1 = 0")
    case True
    then show ?thesis using assms(3) 1 c1 by (simp add: open_mod_table_open_def)
  next
    case e1: False
    have c12: "opens_for uri s h2 s2" by (rule opens_trans [OF _ c2(1)]) (use c1 e1 in auto)
    show ?thesis
    proof (cases "n2 = 0 \<and> d2 \<noteq> 0")
      case True
      then have "h2 = None" using c2(2) by auto
      with c12 have "opens_for uri s h3 s3" by (intro opens_trans [OF _ c3]) simp
      then show ?thesis using assms(3) 1 2 3 e1 True by (simp add: open_mod_table_open_def)
    next
      case False
      then show ?thesis using assms(3) 1 2 e1 c12 by (auto simp: open_mod_table_open_def split: if_splits)
    qed
  qed
qed

text \<open>C38: \<^bold>\<open>an opened handle calls its module\<close>. Let an open of a URI return a handle that is not registered as a
  constant handle. The handle stands for one slot of the table. Either the URI was open already and the slot is the one
  that holds it, with one more reference, or the slot is new and holds the module of the URI: the functions of an entry of the static tables with
  this URI (or with the URI printed back from its parts), or the symbol of the URI in the library of the URI, as the
  linker returned them during this open, and the handle that the module returned when it was opened for the URI. An invocation
  of the handle calls exactly the function of this slot, once, with the scalars and arguments of the caller (and the handle of the module,
  if it wants one), and returns its result.\<close>

theorem opened_module_is_called:
  assumes "mod_reach e s" and "env_ok e" and "mod_table_open e (Some uri) s = (n, Some h, d, str, s')"
    and "find_const h s' = None"
  shows "\<exists>i. opened_for uri s s' i \<and> low32 (om_key (slot s' i)) = h \<and>
    (let m = slot s' i in case mod_table_invoke e h sc pra s' of (r, s'') \<Rightarrow>
       if om_invoke m \<noteq> 0
       then r = invoke_r e (ms_log s') (om_invoke m) sc pra \<and> ms_log s'' = ms_log s' @ [ModInvoke (om_invoke m) sc pra r]
       else om_handle_invoke m \<noteq> 0 \<and> r = handle_invoke_r e (ms_log s') (om_handle_invoke m) (om_h64 m) sc pra \<and>
            ms_log s'' = ms_log s' @ [ModHandleInvoke (om_handle_invoke m) (om_h64 m) sc pra r])"
proof -
  have ok0: "entry_ok e s" by (rule mod_reach_ok [OF assms(1,2)])
  obtain n1 s1 where 1: "mod_table_add_lookup e s = (n1, s1)" by (metis prod.collapse)
  then have n1: "n1 = 0" using assms(3) by (auto simp: mod_table_open_def split: if_splits)
  have g1: "table_good e s1" using add_lookup_ok [OF ok0 1] n1 by simp
  have same1: "smt s1 = smt s" "rev_handle_table s1 = rev_handle_table s" "ms_log s1 = ms_log s"
    using 1 n1 by (auto simp: mod_table_add_lookup_def load_table_def split: prod.splits option.splits)
  obtain n2 h2 d2 str2 s2 where 2: "open_mod_table_open e uri s1 = (n2, h2, d2, str2, s2)" by (metis prod_cases5)
  have r: "h2 = Some h" "s' = store_table s2" using assms(3) 1 n1 2 by (simp_all add: mod_table_open_def)
  have st: "rev_handle_table s' = rev_handle_table s2" "ms_log s' = ms_log s2" by (simp_all add: r store_table_def)
  obtain i where i: "opened_for uri s1 s2 i" "low32 (om_key (slot s2 i)) = h" "om_key (slot s2 i) \<noteq> 0"
    using open_for [OF g1 assms(2) 2] r(1) by (auto simp: opens_for_def)
  have "opened_for uri s s' i"
    using i(1) same1 st by (simp add: opened_for_def made_since_def static_origin_def)
  have reach': "mod_reach e s'" by (rule mod_reach.step [OF assms(1) mod_step.open_uri [OF assms(3)]])
  have ok: "entry_ok e s'" by (rule mod_reach_ok [OF reach' assms(2)])
  have pos: "handle_count s' h > 0"
    using mod_table_open_counts [OF ok0 assms(2,3), of h] handle_count_nonneg [OF ok0, of h] by simp
  then have "stored (ms_gpls s') \<noteq> []" by (auto simp: handle_count_def refs_of_def find_open_def)
  then have lst: "pls_lst (ms_gpls s') \<noteq> []" by (auto simp: stored_def)
  let ?s1 = "load_table (ms_gpls s') (stored (ms_gpls s')) s'"
  have al: "mod_table_add_lookup e s' = (0, ?s1)"
    using ok lst by (simp add: mod_table_add_lookup_def pls_add_lookup_singleton_def storage_lookup entry_ok_def)
  have g: "table_good e ?s1" using ok by (simp add: entry_ok_def load_table_def)
  then have m: "mods_ok e ?s1" by (simp add: table_good_def)
  have sl: "slot ?s1 i = slot s' i" "ms_log ?s1 = ms_log s'" by (simp_all add: load_table_def)
  have "i \<in> set (openMods ?s1)"
    by (rule good_linked [OF g]) (use i(1,3) st sl in \<open>auto simp: opened_for_def\<close>)
  then have f: "find_open h ?s1 = Some i" and c: "callable (slot s' i)"
    using find_open_iff [OF m] mods_linked(3) [OF m, of i] i(2) st sl by (auto simp: linked_ok_def)
  have nc: "find_const h ?s1 = None" using assms(4) by (simp add: find_const_def load_table_def)
  obtain r s3 where cm: "call_module e (om_invoke (slot s' i)) (om_handle_invoke (slot s' i)) (om_h64 (slot s' i)) sc pra ?s1 = (r, s3)"
    by (metis surj_pair)
  have "open_mod_table_handle_invoke e h sc pra ?s1 = (r, s3)"
    using invoke_open_exact [OF g nc f, of sc pra] cm unfolding sl(1) by (rule trans)
  then have inv: "mod_table_invoke e h sc pra s' = (r, store_table s3)" unfolding mod_table_invoke_def al by simp
  have lg: "ms_log (store_table s3) = ms_log s3" by (simp add: store_table_def)
  have "let m = slot s' i in
       if om_invoke m \<noteq> 0
       then r = invoke_r e (ms_log s') (om_invoke m) sc pra \<and> ms_log s3 = ms_log s' @ [ModInvoke (om_invoke m) sc pra r]
       else om_handle_invoke m \<noteq> 0 \<and> r = handle_invoke_r e (ms_log s') (om_handle_invoke m) (om_h64 m) sc pra \<and>
            ms_log s3 = ms_log s' @ [ModHandleInvoke (om_handle_invoke m) (om_h64 m) sc pra r]"
    using cm c sl(2) by (auto simp: Let_def call_module_def callable_def add_log_def split: if_splits)
  then have "let m = slot s' i in case mod_table_invoke e h sc pra s' of (r, s'') \<Rightarrow>
       if om_invoke m \<noteq> 0
       then r = invoke_r e (ms_log s') (om_invoke m) sc pra \<and> ms_log s'' = ms_log s' @ [ModInvoke (om_invoke m) sc pra r]
       else om_handle_invoke m \<noteq> 0 \<and> r = handle_invoke_r e (ms_log s') (om_handle_invoke m) (om_h64 m) sc pra \<and>
            ms_log s'' = ms_log s' @ [ModHandleInvoke (om_handle_invoke m) (om_h64 m) sc pra r]"
    unfolding inv prod.case lg .
  moreover have "low32 (om_key (slot s' i)) = h" using i(2) st by simp
  ultimately show ?thesis using \<open>opened_for uri s s' i\<close> by (intro exI [of _ i] conjI)
qed

theorem opened_module_is_called_witness:
  "\<exists>i. opened_for ''A'' demo_mods demo_opened i \<and> low32 (om_key (slot demo_opened i)) = 0x10000 \<and>
     fst (mod_table_invoke demo_mod_env 0x10000 1 0 demo_opened) \<in> {7, 0}"
proof -
  have "find_const 0x10000 demo_opened = None" using demo_opened_values(5) by (simp add: find_const_def)
  from opened_module_is_called [OF demo_reach demo_env_ok demo_open this, of 1 0]
  show ?thesis by (fastforce simp: Let_def demo_mod_env_def split: if_splits prod.splits)
qed

lemma open_dynamic_no_handle:
  "open_mod_table_open_dynamic e uri s = (n, h, d, str, s') \<Longrightarrow> d \<noteq> 0 \<Longrightarrow> h = None"
  by (auto simp: open_mod_table_open_dynamic_def dynamic_bail_def Let_def split: if_splits prod.splits option.splits)

text \<open>\<^bold>\<open>Long URIs never reach the static tables\<close>. The size check of the static open reserves twice the length of
  the URI and 53 bytes more in a slot of 256, so a URI of 30 characters or more is refused whatever
  is registered, such as the URI that the comment of \<^verbatim>\<open>parse_uri\<close> gives; only the dynamic linker can
  serve it.\<close>

theorem long_uri_not_static:
  assumes "length uri \<ge> 30"
  shows "open_mod_table_open_from_static e tbl uri s = (AEE_ENOMEMORY, None, s) \<and>
    open_mod_table_open e uri s =
      (case open_mod_table_open_dynamic e uri s of
         (nErr, h, dlErr, str, s') \<Rightarrow> (nErr, h, if nErr \<noteq> 0 then 0 else dlErr, str, s'))"
proof -
  have st: "open_mod_table_open_from_static e tbl uri s = (AEE_ENOMEMORY, None, s)" for tbl s
    using assms by (simp add: open_mod_table_open_from_static_def tmp_len_def)
  then show ?thesis
    using open_dynamic_no_handle [of e uri s]
    by (auto simp: open_mod_table_open_def open_mod_table_open_static_override_def open_mod_table_open_static_def split: prod.splits)
qed

theorem long_uri_not_static_witness:
  "open_mod_table_open_from_static demo_mod_env
     [\<lparr>sm_invoke = 1, sm_handle_invoke = 0, sm_uri = ''file:///librhtest_skel.so?rhtest_skel_handle_invoke&_modver=1.0''\<rparr>]
     ''file:///librhtest_skel.so?rhtest_skel_handle_invoke&_modver=1.0'' demo_mods = (AEE_ENOMEMORY, None, demo_mods)"
  using long_uri_not_static [of "''file:///librhtest_skel.so?rhtest_skel_handle_invoke&_modver=1.0''"] by simp

text \<open>\<^bold>\<open>The table is bounded\<close>. When all 20 slots are in use, a URI that none of them has cannot be opened:
  the open fails with an invalid handle, or for want of memory, and changes nothing.\<close>

theorem full_table_refuses:
  assumes "\<forall>i < MAX_REV_HANDLES. om_key (slot s i) \<noteq> 0 \<and> om_uri (slot s i) \<noteq> uri"
  shows "\<exists>r. open_mod_table_open e uri s = (r, None, 0, None, s) \<and> (r = AEE_EINVHANDLE \<or> r = AEE_ENOMEMORY)"
proof -
  have "next_available_rev_handle s = None" "is_reverse_handle_opened uri s = (None, s)"
    using assms by (auto simp: next_available_rev_handle_def is_reverse_handle_opened_def find_None_iff
        simp del: upt_rec_numeral split: option.splits dest!: find_Some_iff [THEN iffD1])
  then show ?thesis
    by (simp add: open_mod_table_open_def open_mod_table_open_static_override_def open_mod_table_open_from_static_def
        open_mod_table_open_dynamic_def)
qed

definition full_demo :: mod_state where
  "full_demo = demo_mods\<lparr>rev_handle_table := replicate MAX_REV_HANDLES (no_open_mod\<lparr>om_key := 1, om_uri := ''A''\<rparr>)\<rparr>"

theorem full_table_refuses_witness:
  "\<exists>r. open_mod_table_open demo_mod_env ''B'' full_demo = (r, None, 0, None, full_demo) \<and> (r = AEE_EINVHANDLE \<or> r = AEE_ENOMEMORY)"
  by (rule full_table_refuses) (simp add: full_demo_def)

section \<open>Where the lock is released too early\<close>

text \<open>Two threads, with the sections that hold the lock as the steps: thread 1 closes the module \<^verbatim>\<open>A\<close>, thread 2
  opens \<^verbatim>\<open>B\<close> between its two sections.\<close>

definition race_closed :: mod_state where
  "race_closed = (case open_mod_table_close_locked 0x10000 (demo_opened\<lparr>openMods := [0]\<rparr>) of (n, i, s) \<Rightarrow> s)"

definition race_reopened :: mod_state where
  "race_reopened = (case open_mod_table_open demo_mod_env ''B'' race_closed of (n, h, d, str, s) \<Rightarrow> s)"

text \<open>\<^bold>\<open>A close can take another module's library\<close>. \<^verbatim>\<open>open_mod_table_close\<close> frees the slot before it closes the
  module through it. If the slot is taken again in between, the new module's library is closed, the
  new module stays open without its library, and the old library stays loaded.\<close>

theorem close_races_with_open:
  "fst (open_mod_table_close_locked 0x10000 (demo_opened\<lparr>openMods := [0]\<rparr>)) = 0 \<and>
   fst (open_mod_table_open demo_mod_env ''B'' race_closed) = 0 \<and>
   find_open 0x10000 race_reopened = Some 0 \<and> om_dlhandle (slot race_reopened 0) = 0x200 \<and>
   last (ms_log (snd (open_mod_table_close_rest demo_mod_env 0 race_reopened))) = Dlclose 0x200 0 \<and>
   Dlclose 0x100 0 \<notin> set (ms_log (snd (open_mod_table_close_rest demo_mod_env 0 race_reopened)))"
  by code_simp

definition race_unlinked :: mod_state where
  "race_unlinked = snd (open_mod_close_locked 0 (demo_opened\<lparr>openMods := [0]\<rparr>))"

definition race_found :: mod_state where
  "race_found = (case open_mod_table_open demo_mod_env ''A'' race_unlinked of (n, h, d, str, s) \<Rightarrow> s)"

text \<open>\<^bold>\<open>An open can hand out a handle that is being closed\<close>. Thread 1 ends the last invocation of a module
  that was closed meanwhile: it unlinks the module, and the slot keeps its key until the module has
  been closed. If thread 2 opens the same URI in between, it gets the old handle, which no
  invocation finds any more.\<close>

theorem open_races_with_last_invoke:
  "fst (open_mod_close_locked 0 (demo_opened\<lparr>openMods := [0]\<rparr>)) \<and>
   (case open_mod_table_open demo_mod_env ''A'' race_unlinked of
      (n, h, d, str, s) \<Rightarrow> n = 0 \<and> h = Some 0x10000 \<and> d = 0) \<and>
   fst (open_mod_table_handle_invoke demo_mod_env 0x10000 1 0 (open_mod_close_rest demo_mod_env 0 race_found)) = AEE_ENOSUCHMOD"
  by code_simp

text \<open>The parts of a URI that the table works with are those of the reference.\<close>

lemma uri_vals_parts:
  assumes "length uri < 2 ^ 31" and "CHR 0x00 \<notin> set uri"
  shows "uri_vals uri = uri_parts uri"
proof -
  have "reads_text (text_mem 4096 uri) 4096 uri (sbuf_parser_init 4096 (int (length uri))) 0"
    using assms(1) by (intro reads_text_mem) simp_all
  from parse_uri_reference [OF this assms(2)] show ?thesis by (auto simp: uri_vals_def)
qed

text \<open>\<^bold>\<open>A static URI loses a slash\<close>. A static module registered by a URI with three slashes is not found by the
  same URI with a further query, since a URI without a version is printed back with two slashes.\<close>

theorem static_uri_loses_slash:
  "fst (open_mod_table_open_from_static demo_mod_env [\<lparr>sm_invoke = 1, sm_handle_invoke = 0, sm_uri = ''file:///a?b''\<rparr>]
     ''file:///a?b&_x=1'' demo_mods) = AEE_ENOSUCHMOD \<and>
   fst (open_mod_table_open_from_static demo_mod_env [\<lparr>sm_invoke = 1, sm_handle_invoke = 0, sm_uri = ''file://a?b''\<rparr>]
     ''file:///a?b&_x=1'' demo_mods) = AEE_SUCCESS"
proof -
  have "uri_parts ''file:///a?b&_x=1'' = (0, \<lparr>ut_file = ''a'', ut_sym = ''b'', ut_ver = []\<rparr>)" by code_simp
  then have u: "uri_vals ''file:///a?b&_x=1'' = (0, \<lparr>ut_file = ''a'', ut_sym = ''b'', ut_ver = []\<rparr>)"
    by (subst uri_vals_parts) simp_all
  have s: "is_reverse_handle_opened ''file:///a?b&_x=1'' demo_mods = (None, demo_mods)"
    "next_available_rev_handle demo_mods = Some 0" "length (rev_handle_table demo_mods) = MAX_REV_HANDLES"
    by code_simp+
  have t: "\<not> REV_HANDLE_SIZE < sizeof_open_mod + tmp_len ''file:///a?b&_x=1''" by (simp add: tmp_len_def)
  show ?thesis
    by (simp only: open_mod_table_open_from_static_def s t if_False prod.case option.case)
      (simp add: s find_static_mod_def find_static_def u canonical_uri_def snprintf_ok_def tmp_len_def slot_set_slot
        take_slot_def no_open_mod_def Let_def)
qed

end
