(* ===== verification/Crc.thy ===== *)
theory Crc
  imports Prelude
begin

text \<open>
  The checksum of \<^verbatim>\<open>src/fastrpc_apps_user.c\<close> that an invocation computes over its buffers when the
  process runs with \<^verbatim>\<open>FASTRPC_MODE_CRC\<close>: the table of \<^verbatim>\<open>GenCrc32Tab\<close> and the table-driven
  \<^verbatim>\<open>crc32_lut\<close>. The reference is the shift register that consumes one bit at a time. The table-driven
  routine computes the same register, it is linear, and it tells apart two buffers of one length
  that differ only within four consecutive bytes.
\<close>

abbreviation (input) POLY32 :: u32 where "POLY32 \<equiv> 0x04C11DB7"

section \<open>The code\<close>

text \<open>The body of the inner loop of \<^verbatim>\<open>GenCrc32Tab\<close>.\<close>

definition crc_bit :: "u32 \<Rightarrow> u32 \<Rightarrow> u32" where
  "crc_bit GenPoly crc = push_bit 1 crc XOR (if crc AND 0x80000000 \<noteq> 0 then GenPoly else 0)"

definition GenCrc32Tab :: "u32 \<Rightarrow> u32 list" where
  "GenCrc32Tab GenPoly = map (\<lambda>i. (crc_bit GenPoly ^^ 8) (push_bit 24 (of_nat i))) [0..<256]"

text \<open>One round of the loop of \<^verbatim>\<open>crc32_lut\<close>.\<close>

definition crc_round :: "u32 list \<Rightarrow> u32 \<Rightarrow> byte \<Rightarrow> u32" where
  "crc_round crctab crc b = push_bit 8 crc XOR crctab ! unat (drop_bit 24 crc XOR ucast b)"

text \<open>\<open>None\<close> is a null pointer; the list holds the \<^verbatim>\<open>nbyte\<close> bytes that \<^verbatim>\<open>data\<close> points to. (A length beyond
  \<^verbatim>\<open>INT_MAX\<close>, which would become a negative \<^verbatim>\<open>nbyte\<close> and run on behind the buffer, is not covered.)\<close>

definition crc32_lut :: "byte list option \<Rightarrow> u32 list option \<Rightarrow> u32" where
  "crc32_lut data crctab =
     (case (data, crctab) of (Some bs, Some t) \<Rightarrow> foldl (crc_round t) 0 bs | _ \<Rightarrow> 0)"

section \<open>The register, bit by bit\<close>

text \<open>The bits of a message from the most significant one of the first byte on.\<close>

definition byte_bits :: "byte \<Rightarrow> bool list" where
  "byte_bits b = map (\<lambda>i. bit b (7 - i)) [0..<8]"

definition crc_shift_in :: "u32 \<Rightarrow> u32 \<Rightarrow> bool \<Rightarrow> u32" where
  "crc_shift_in p crc b = crc_bit p (crc XOR (if b then 0x80000000 else 0))"

definition crc_bits :: "u32 \<Rightarrow> bool list \<Rightarrow> u32" where
  "crc_bits p bs = foldl (crc_shift_in p) 0 bs"

section \<open>Lemmas\<close>

lemma and_msb_iff: "crc AND (0x80000000 :: u32) \<noteq> 0 \<longleftrightarrow> bit crc 31"
proof -
  have "(0x80000000 :: u32) = 2 ^ 31" by simp
  then show ?thesis by (metis and_exp_eq_0_iff_not_bit)
qed

lemma crc_bit_alt: "crc_bit p c = push_bit 1 c XOR (if bit c 31 then p else 0)"
  unfolding crc_bit_def and_msb_iff ..

lemma crc_bit_xor: "crc_bit p (x XOR y) = crc_bit p x XOR crc_bit p y"
  by (auto simp: crc_bit_alt bit_xor_iff push_bit_xor xor.assoc xor.left_commute)

lemma crc_bits_xor: "(crc_bit p ^^ n) (x XOR y) = (crc_bit p ^^ n) x XOR (crc_bit p ^^ n) y"
  by (induction n) (simp_all add: crc_bit_xor)

text \<open>While the top bits are zero the register only shifts.\<close>

lemma crc_bit_shifts:
  assumes "n \<le> 32" and "\<And>k. k < n \<Longrightarrow> \<not> bit c (31 - k)"
  shows "(crc_bit p ^^ n) c = push_bit n c"
  using assms
proof (induction n)
  case 0
  then show ?case by simp
next
  case (Suc n)
  have "\<not> bit (push_bit n c) 31" using Suc.prems(1) Suc.prems(2) [of n] by (auto simp: bit_simps)
  moreover have "(crc_bit p ^^ n) c = push_bit n c" using Suc by simp
  ultimately have "(crc_bit p ^^ Suc n) c = push_bit 1 (push_bit n c)"
    by (simp add: crc_bit_alt del: push_bit_Suc)
  then show ?case by (simp only: push_bit_push_bit plus_1_eq_Suc)
qed

lemma split_top:
  fixes c :: u32
  assumes "n \<le> 32"
  shows "c = take_bit (32 - n) c XOR push_bit (32 - n) (drop_bit (32 - n) c)"
  using assms by (intro bit_word_eqI) (auto simp: bit_simps)

lemma crc_bit_split:
  assumes "n \<le> 32"
  shows "(crc_bit p ^^ n) c = push_bit n c XOR (crc_bit p ^^ n) (push_bit (32 - n) (drop_bit (32 - n) c))"
proof -
  have low: "(crc_bit p ^^ n) (take_bit (32 - n) c) = push_bit n (take_bit (32 - n) c)"
    using assms by (intro crc_bit_shifts) (auto simp: bit_simps)
  have "push_bit n (take_bit (32 - n) c) = push_bit n c"
    using assms by (intro bit_word_eqI) (auto simp: bit_simps)
  then show ?thesis by (subst split_top [OF assms, of c]) (simp add: crc_bits_xor low)
qed

lemma index_less: "unat (drop_bit 24 (crc :: u32) XOR ucast (b :: byte)) < 256"
proof -
  have "drop_bit 24 crc XOR ucast b = take_bit 8 (drop_bit 24 crc XOR ucast b)"
    by (intro bit_word_eqI) (auto simp: bit_simps dest: bit_imp_le_length)
  then have "unat (drop_bit 24 crc XOR ucast b) = take_bit 8 (unat (drop_bit 24 crc XOR ucast b))"
    by (metis unsigned_take_bit_eq)
  also have "\<dots> < 2 ^ 8" by (rule take_bit_nat_less_exp)
  finally show ?thesis by simp
qed

lemma round_is_eight_bits: "crc_round (GenCrc32Tab p) crc b = (crc_bit p ^^ 8) (crc XOR push_bit 24 (ucast b))"
proof -
  let ?i = "drop_bit 24 crc XOR ucast b"
  have "GenCrc32Tab p ! unat ?i = (crc_bit p ^^ 8) (push_bit 24 ?i)"
    using index_less [of crc b] by (simp add: GenCrc32Tab_def del: funpow.simps)
  moreover have "(crc_bit p ^^ 8) crc =
      push_bit 8 crc XOR (crc_bit p ^^ 8) (push_bit 24 (drop_bit 24 crc))"
    using crc_bit_split [of 8 p crc] by simp
  ultimately show ?thesis
    by (simp add: crc_round_def push_bit_xor crc_bits_xor xor.assoc)
qed


text \<open>The bits of a message chunk, left-aligned in a word.\<close>

fun top_bits :: "bool list \<Rightarrow> u32" where
  "top_bits [] = 0"
| "top_bits (b # bs) = (if b then 0x80000000 else 0) XOR drop_bit 1 (top_bits bs)"

lemma bit_msb_word: "bit (if b then 0x80000000 else 0 :: u32) n \<longleftrightarrow> b \<and> n = 31"
proof -
  have "(0x80000000 :: u32) = 2 ^ 31" by simp
  then have "bit (0x80000000 :: u32) n \<longleftrightarrow> n = 31" by (simp only: bit_exp_iff) auto
  then show ?thesis by simp
qed

lemma bit_top_bits: "length bs \<le> 32 \<Longrightarrow> bit (top_bits bs) n \<longleftrightarrow> n \<le> 31 \<and> 31 - n < length bs \<and> bs ! (31 - n)"
proof (induction bs arbitrary: n)
  case Nil
  then show ?case by simp
next
  case (Cons b bs)
  have "bit (top_bits (b # bs)) n \<longleftrightarrow> (b \<and> n = 31) \<noteq> bit (top_bits bs) (Suc n)"
    by (simp add: bit_xor_iff bit_drop_bit_eq bit_msb_word del: drop_bit_Suc)
  also have "bit (top_bits bs) (Suc n) \<longleftrightarrow> Suc n \<le> 31 \<and> 31 - Suc n < length bs \<and> bs ! (31 - Suc n)"
    using Cons by simp
  finally show ?case
    using Cons.prems by (cases "n = 31") (auto simp: nth_Cons' Suc_diff_Suc)
qed

lemma shift_in_word:
  "length bs \<le> 32 \<Longrightarrow> foldl (crc_shift_in p) c bs = (crc_bit p ^^ length bs) (c XOR top_bits bs)"
proof (induction bs arbitrary: c)
  case Nil
  then show ?case by simp
next
  case (Cons b bs)
  let ?m = "if b then 0x80000000 else 0 :: u32"
  have "\<not> bit (top_bits bs) 0" using Cons.prems by (simp add: bit_top_bits)
  then have "push_bit 1 (drop_bit 1 (top_bits bs)) = top_bits bs"
    by (intro bit_word_eqI, unfold bit_push_bit_iff bit_drop_bit_eq) (case_tac n; auto)
  moreover have "\<not> bit (drop_bit 1 (top_bits bs)) 31"
    by (auto simp: bit_drop_bit_eq dest: bit_imp_le_length)
  ultimately have "crc_bit p (c XOR ?m XOR drop_bit 1 (top_bits bs)) = crc_bit p (c XOR ?m) XOR top_bits bs"
    by (simp only: crc_bit_xor) (simp only: crc_bit_alt if_False xor.right_neutral xor.assoc)
  then show ?case
    using Cons.IH [of "crc_shift_in p c b"] Cons.prems
    by (simp only: foldl_Cons crc_shift_in_def top_bits.simps list.size add_Suc_right add_0_right
        funpow_Suc_right o_apply xor.assoc)
qed

lemma length_byte_bits [simp]: "length (byte_bits b) = 8"
  by (simp add: byte_bits_def)

lemma top_byte_bits: "top_bits (byte_bits b) = push_bit 24 (ucast b)"
  by (intro bit_word_eqI) (auto simp: bit_top_bits bit_simps byte_bits_def dest: bit_imp_le_length)

lemma round_shifts_in_byte: "crc_round (GenCrc32Tab p) crc b = foldl (crc_shift_in p) crc (byte_bits b)"
  by (simp add: round_is_eight_bits shift_in_word top_byte_bits del: funpow.simps)

lemma rounds_shift_in: "foldl (crc_round (GenCrc32Tab p)) c bs = foldl (crc_shift_in p) c (concat (map byte_bits bs))"
  by (induction bs arbitrary: c) (simp_all add: round_shifts_in_byte)

lemma xor_right_inj: "(a :: u32) XOR c = b XOR c \<longleftrightarrow> a = b"
  by (metis xor.assoc xor_self_eq xor.right_neutral)

text \<open>The register is a bijection of the state as soon as the constant term of the polynomial is one.\<close>

lemma inj_crc_bit:
  assumes "bit p 0"
  shows "inj (crc_bit p)"
proof (rule injI)
  fix x y
  assume eq: "crc_bit p x = crc_bit p y"
  have "bit (crc_bit p z) 0 \<longleftrightarrow> bit z 31" for z
    unfolding crc_bit_alt bit_xor_iff bit_push_bit_iff using assms by simp
  then have msb: "bit x 31 \<longleftrightarrow> bit y 31" using eq by metis
  then have sh: "push_bit 1 x = push_bit 1 y"
    using eq unfolding crc_bit_alt msb xor_right_inj by simp
  show "x = y"
  proof (rule bit_word_eqI)
    fix n
    assume "n < LENGTH(32)"
    then consider "n = 31" | "Suc n < 32" by fastforce
    then show "bit x n \<longleftrightarrow> bit y n"
    proof cases
      case 2
      have "bit (push_bit 1 x) (Suc n) \<longleftrightarrow> bit (push_bit 1 y) (Suc n)" using sh by simp
      then show ?thesis using 2 by (simp add: bit_push_bit_iff del: push_bit_Suc)
    qed (simp add: msb)
  qed
qed

lemma shift_in_same_inj:
  "bit p 0 \<Longrightarrow> foldl (crc_shift_in p) c bs = foldl (crc_shift_in p) d bs \<longleftrightarrow> c = d"
  by (induction bs arbitrary: c d) (auto simp: crc_shift_in_def inj_eq [OF inj_crc_bit] xor_right_inj)

lemma top_bits_inj:
  assumes "length u = length v" "length u \<le> 32" "top_bits u = top_bits v"
  shows "u = v"
proof (rule nth_equalityI)
  fix i
  assume i: "i < length u"
  have "bit (top_bits u) (31 - i) = bit (top_bits v) (31 - i)" using assms by simp
  then show "u ! i = v ! i" using i assms(1,2) by (simp add: bit_top_bits)
qed (rule assms)

section \<open>Properties\<close>

text \<open>C13: the table-driven routine computes the checksum of the bitwise shift register, for every
  generator polynomial and every buffer.\<close>

theorem crc32_lut_equiv:
  "crc32_lut (Some data) (Some (GenCrc32Tab p)) = crc_bits p (concat (map byte_bits data))"
  by (simp add: crc32_lut_def crc_bits_def rounds_shift_in)

text \<open>C33: two buffers whose bits differ only within a window of at most 32 consecutive bits have
  different checksums under the generator of the library.\<close>

theorem crc_detects_bursts:
  assumes x: "concat (map byte_bits xs) = pre @ u @ post"
    and y: "concat (map byte_bits ys) = pre @ v @ post"
    and len: "length u = length v" "length u \<le> 32"
    and "u \<noteq> v"
  shows "crc32_lut (Some xs) (Some (GenCrc32Tab POLY32)) \<noteq> crc32_lut (Some ys) (Some (GenCrc32Tab POLY32))"
proof -
  have p: "bit POLY32 0" by simp
  have "foldl (crc_shift_in POLY32) c u \<noteq> foldl (crc_shift_in POLY32) c v" for c
  proof
    assume "foldl (crc_shift_in POLY32) c u = foldl (crc_shift_in POLY32) c v"
    then have "c XOR top_bits u = c XOR top_bits v"
      using len by (simp add: shift_in_word inj_eq [OF inj_fn [OF inj_crc_bit [OF p]]])
    then show False using \<open>u \<noteq> v\<close> top_bits_inj [OF len] by (metis xor.commute xor_right_inj)
  qed
  then show ?thesis
    by (simp add: crc32_lut_def rounds_shift_in x y shift_in_same_inj [OF p])
qed

theorem crc_detects_bursts_witness:
  "crc32_lut (Some [1, 2, 3]) (Some (GenCrc32Tab POLY32)) \<noteq> crc32_lut (Some [1, 7, 3]) (Some (GenCrc32Tab POLY32))"
  by (rule crc_detects_bursts [where pre = "byte_bits 1" and u = "byte_bits 2" and v = "byte_bits 7"
      and post = "byte_bits 3"]) (simp_all add: byte_bits_def upt_rec)

end
