(* ===== verification/DomainUri.thy ===== *)
theory DomainUri
  imports Session
begin

text \<open>
  How \<^verbatim>\<open>src/fastrpc_apps_user.c\<close> and \<^verbatim>\<open>inc/fastrpc_internal.h\<close> name the remote processors: the domain
  and the session of an effective domain id, the domain in a URI or in a stand-alone name
  (\<^verbatim>\<open>get_domain_from_name\<close>), the URI that the request \<^verbatim>\<open>FASTRPC_GET_URI\<close> builds, the device
  nodes of a domain and the library name in a URI. Strings are the characters before the
  terminating null.
\<close>

section \<open>The string functions of the C library that the code uses\<close>

text \<open>\<open>strncmp(s, n, strlen(n)) == 0\<close>.\<close>

definition starts_with :: "string \<Rightarrow> string \<Rightarrow> bool" where
  "starts_with s n \<longleftrightarrow> take (length n) s = n"

text \<open>The rest of the text from the first occurrence on.\<close>

fun strstr :: "string \<Rightarrow> string \<Rightarrow> string option" where
  "strstr [] n = (if n = [] then Some [] else None)"
| "strstr (c # cs) n = (if starts_with (c # cs) n then Some (c # cs) else strstr cs n)"

definition is_space :: "char \<Rightarrow> bool" where
  "is_space c \<longleftrightarrow> of_char c = (32 :: int) \<or> (9 \<le> (of_char c :: int) \<and> of_char c \<le> (13 :: int))"

definition is_digit :: "char \<Rightarrow> bool" where
  "is_digit c \<longleftrightarrow> 48 \<le> (of_char c :: int) \<and> of_char c \<le> (57 :: int)"

definition digits_value :: "string \<Rightarrow> int" where
  "digits_value s = foldl (\<lambda>a c. 10 * a + (of_char c - 48)) 0 (takeWhile is_digit s)"

text \<open>\<open>strtol(s, NULL, 10)\<close>, which saturates at the range of \<^verbatim>\<open>long\<close>.\<close>

definition strtol10 :: "string \<Rightarrow> int" where
  "strtol10 s =
     (let s = dropWhile is_space s;
          v = (case s of
                 [] \<Rightarrow> 0
               | c # cs \<Rightarrow> if c = CHR ''-'' then - digits_value cs
                            else if c = CHR ''+'' then digits_value cs else digits_value s)
      in max (- 9223372036854775808) (min 9223372036854775807 v))"

section \<open>Domain ids\<close>

abbreviation (input) NUM_DOMAINS :: int where "NUM_DOMAINS \<equiv> 8"
abbreviation (input) NUM_SESSIONS :: int where "NUM_SESSIONS \<equiv> 4"
abbreviation (input) NUM_DOMAINS_EXTEND :: int where "NUM_DOMAINS_EXTEND \<equiv> 32"
abbreviation (input) ADSP_DOMAIN_ID :: int where "ADSP_DOMAIN_ID \<equiv> 0"
abbreviation (input) MDSP_DOMAIN_ID :: int where "MDSP_DOMAIN_ID \<equiv> 1"
abbreviation (input) SDSP_DOMAIN_ID :: int where "SDSP_DOMAIN_ID \<equiv> 2"
abbreviation (input) CDSP_DOMAIN_ID :: int where "CDSP_DOMAIN_ID \<equiv> 3"
abbreviation (input) CDSP1_DOMAIN_ID :: int where "CDSP1_DOMAIN_ID \<equiv> 4"
abbreviation (input) GDSP0_DOMAIN_ID :: int where "GDSP0_DOMAIN_ID \<equiv> 5"
abbreviation (input) GDSP1_DOMAIN_ID :: int where "GDSP1_DOMAIN_ID \<equiv> 6"
abbreviation (input) DEFAULT_DOMAIN_ID :: int where "DEFAULT_DOMAIN_ID \<equiv> 3"
abbreviation (input) INVALID_DOMAIN_ID :: int where "INVALID_DOMAIN_ID \<equiv> - 1"

definition GET_SESSION_ID_FROM_DOMAIN_ID :: "int \<Rightarrow> int" where
  "GET_SESSION_ID_FROM_DOMAIN_ID domain_id =
     (if domain_id < 0 then - (- domain_id div NUM_DOMAINS) else domain_id div NUM_DOMAINS)"

definition GET_EFFECTIVE_DOMAIN_ID :: "int \<Rightarrow> int \<Rightarrow> int" where
  "GET_EFFECTIVE_DOMAIN_ID domain session = int32 (domain + int32 (NUM_DOMAINS * session))"

definition GET_DOMAIN_FROM_EFFEC_DOMAIN_ID :: "int \<Rightarrow> int" where
  "GET_DOMAIN_FROM_EFFEC_DOMAIN_ID effec_dom_id = effec_dom_id AND 7"

definition IS_VALID_DOMAIN_ID :: "int \<Rightarrow> bool" where
  "IS_VALID_DOMAIN_ID domain \<longleftrightarrow> 0 \<le> domain \<and> domain < NUM_DOMAINS"

definition IS_EXTENDED_DOMAIN_ID :: "int \<Rightarrow> bool" where
  "IS_EXTENDED_DOMAIN_ID domain \<longleftrightarrow> NUM_DOMAINS \<le> domain \<and> domain < NUM_DOMAINS_EXTEND"

definition SUBSYSTEM_NAME :: "int \<Rightarrow> string" where
  "SUBSYSTEM_NAME domain =
     [''adsp'', ''mdsp'', ''sdsp'', ''cdsp'', ''cdsp1'', ''gdsp0'', ''gdsp1'', ''reserved''] ! nat domain"

abbreviation (input) FASTRPC_SESSION_URI :: string where "FASTRPC_SESSION_URI \<equiv> ''&_session=''"
abbreviation (input) FASTRPC_SESSION1_URI :: string where "FASTRPC_SESSION1_URI \<equiv> ''&_session=1''"
abbreviation (input) FASTRPC_DOMAIN_URI :: string where "FASTRPC_DOMAIN_URI \<equiv> ''&_dom=''"

section \<open>Names to domains\<close>

text \<open>The order in which the names are tried: \<^verbatim>\<open>cdsp1\<close> before its prefix \<^verbatim>\<open>cdsp\<close>.\<close>

definition get_domain_from_domain_name :: "string option \<Rightarrow> int \<Rightarrow> int" where
  "get_domain_from_domain_name domain_name domain_name_len =
     (if domain_name_len < int (length (SUBSYSTEM_NAME ADSP_DOMAIN_ID)) then INVALID_DOMAIN_ID
      else case domain_name of
        None \<Rightarrow> INVALID_DOMAIN_ID
      | Some name \<Rightarrow>
          if starts_with name (SUBSYSTEM_NAME ADSP_DOMAIN_ID) then ADSP_DOMAIN_ID
          else if starts_with name (SUBSYSTEM_NAME MDSP_DOMAIN_ID) then MDSP_DOMAIN_ID
          else if starts_with name (SUBSYSTEM_NAME SDSP_DOMAIN_ID) then SDSP_DOMAIN_ID
          else if starts_with name (SUBSYSTEM_NAME CDSP1_DOMAIN_ID) then CDSP1_DOMAIN_ID
          else if starts_with name (SUBSYSTEM_NAME CDSP_DOMAIN_ID) then CDSP_DOMAIN_ID
          else if starts_with name (SUBSYSTEM_NAME GDSP0_DOMAIN_ID) then GDSP0_DOMAIN_ID
          else if starts_with name (SUBSYSTEM_NAME GDSP1_DOMAIN_ID) then GDSP1_DOMAIN_ID
          else INVALID_DOMAIN_ID)"

definition get_domain_from_id :: "int \<Rightarrow> string" where
  "get_domain_from_id domain_id =
     (if domain_id = ADSP_DOMAIN_ID then ''&_dom=adsp''
      else if domain_id = CDSP_DOMAIN_ID then ''&_dom=cdsp''
      else if domain_id = CDSP1_DOMAIN_ID then ''&_dom=cdsp1''
      else if domain_id = MDSP_DOMAIN_ID then ''&_dom=mdsp''
      else if domain_id = SDSP_DOMAIN_ID then ''&_dom=sdsp''
      else if domain_id = GDSP0_DOMAIN_ID then ''&_dom=gdsp0''
      else if domain_id = GDSP1_DOMAIN_ID then ''&_dom=gdsp1''
      else ''invalid domain'')"

datatype domain_name_type = DOMAIN_NAME_IN_URI | DOMAIN_NAME_STAND_ALONE

text \<open>The two branches of \<^verbatim>\<open>get_domain_from_name\<close>, for a name on its own and for a name in a URI.\<close>

definition domain_of_standalone :: "string \<Rightarrow> int" where
  "domain_of_standalone uri =
     (if starts_with uri ''adsp'' then ADSP_DOMAIN_ID
      else if starts_with uri ''mdsp'' then MDSP_DOMAIN_ID
      else if starts_with uri ''sdsp'' then SDSP_DOMAIN_ID
      else if starts_with uri ''cdsp1'' then CDSP1_DOMAIN_ID
      else if starts_with uri ''cdsp'' then CDSP_DOMAIN_ID
      else if starts_with uri ''gdsp0'' then GDSP0_DOMAIN_ID
      else if starts_with uri ''gdsp1'' then GDSP1_DOMAIN_ID
      else INVALID_DOMAIN_ID)"

definition domain_in_uri :: "string \<Rightarrow> int" where
  "domain_in_uri uri =
     (if strstr uri ''&_dom=adsp'' \<noteq> None then ADSP_DOMAIN_ID
      else if strstr uri ''&_dom=mdsp'' \<noteq> None then MDSP_DOMAIN_ID
      else if strstr uri ''&_dom=sdsp'' \<noteq> None then SDSP_DOMAIN_ID
      else if strstr uri ''&_dom=cdsp1'' \<noteq> None then CDSP1_DOMAIN_ID
      else if strstr uri ''&_dom=cdsp'' \<noteq> None then CDSP_DOMAIN_ID
      else if strstr uri ''&_dom=gdsp0'' \<noteq> None then GDSP0_DOMAIN_ID
      else if strstr uri ''&_dom=gdsp1'' \<noteq> None then GDSP1_DOMAIN_ID
      else INVALID_DOMAIN_ID)"

definition get_domain_from_name :: "string option \<Rightarrow> domain_name_type \<Rightarrow> int" where
  "get_domain_from_name uri type =
     (case uri of
        None \<Rightarrow> DEFAULT_DOMAIN_ID
      | Some uri \<Rightarrow>
          (case type of
             DOMAIN_NAME_STAND_ALONE \<Rightarrow> domain_of_standalone uri
           | DOMAIN_NAME_IN_URI \<Rightarrow>
               let domain = domain_in_uri uri
               in if domain = INVALID_DOMAIN_ID then domain
                  else (case strstr uri FASTRPC_SESSION_URI of
                          None \<Rightarrow> domain
                        | Some r \<Rightarrow>
                            let session_id = int32 (strtol10 (drop (length FASTRPC_SESSION_URI) r))
                            in if session_id < NUM_SESSIONS then GET_EFFECTIVE_DOMAIN_ID domain session_id
                               else INVALID_DOMAIN_ID)))"

section \<open>The requests about effective domain ids\<close>

text \<open>The decimal digits that \<^verbatim>\<open>%d\<close> prints; session ids are small.\<close>

fun print_nat :: "nat \<Rightarrow> string" where
  "print_nat n =
     (if n < 10 then [''0123456789'' ! n] else print_nat (n div 10) @ [''0123456789'' ! (n mod 10)])"

declare print_nat.simps [simp del]

definition print_int :: "int \<Rightarrow> string" where
  "print_int i = (if i < 0 then CHR ''-'' # print_nat (nat (- i)) else print_nat (nat i))"

text \<open>What \<^verbatim>\<open>snprintf\<close> prints for a session of a domain, and the part that a buffer of \<open>n\<close> bytes keeps.\<close>

definition session_uri :: "string \<Rightarrow> int \<Rightarrow> int \<Rightarrow> string" where
  "session_uri module_uri domain session_id =
     module_uri @ FASTRPC_DOMAIN_URI @ SUBSYSTEM_NAME domain @ FASTRPC_SESSION_URI @ print_int session_id"

definition snprintf_keeps :: "nat \<Rightarrow> string \<Rightarrow> string" where
  "snprintf_keeps n s = take (n - 1) s"

abbreviation (input) AEE_EBADSIZE :: int where "AEE_EBADSIZE \<equiv> 77"
abbreviation (input) AEE_ENOSESSION :: int where "AEE_ENOSESSION \<equiv> 138"

text \<open>The cases of \<^verbatim>\<open>remote_session_control\<close>. \<^verbatim>\<open>None\<close> for a string is a null pointer; the results are the
  error and what is stored in the structure of the caller.\<close>

definition get_effective_domain_id :: "string option \<Rightarrow> u32 \<Rightarrow> u32 \<Rightarrow> int \<times> int option" where
  "get_effective_domain_id domain_name domain_name_len session_id =
     (if \<not> (domain_name \<noteq> None \<and> domain_name_len > 0 \<and> session_id < 4) then (AEE_EBADPARM, None)
      else let domain = get_domain_from_name domain_name DOMAIN_NAME_STAND_ALONE
           in if \<not> IS_VALID_DOMAIN_ID domain then (AEE_EBADPARM, None)
              else let e = GET_EFFECTIVE_DOMAIN_ID domain (uint session_id)
                   in (if \<not> IS_VALID_EFFECTIVE_DOMAIN_ID e then AEE_ENOSESSION else AEE_SUCCESS, Some e))"

text \<open>\<open>uri\<close> tells whether the buffer for the result is not null. A buffer that is too short is filled all
  the same, and the error is reported.\<close>

definition get_uri ::
  "string option \<Rightarrow> u32 \<Rightarrow> u32 \<Rightarrow> string option \<Rightarrow> u32 \<Rightarrow> bool \<Rightarrow> u32 \<Rightarrow> int \<times> string option" where
  "get_uri domain_name domain_name_len session_id module_uri module_uri_len uri uri_len =
     (if \<not> (domain_name \<noteq> None \<and> domain_name_len > 0 \<and> session_id < 4) then (AEE_EBADPARM, None)
      else let domain = get_domain_from_name domain_name DOMAIN_NAME_STAND_ALONE
           in if \<not> IS_VALID_DOMAIN_ID domain then (AEE_EBADPARM, None)
              else case module_uri of
                None \<Rightarrow> (AEE_EBADPARM, None)
              | Some m \<Rightarrow>
                  if \<not> module_uri_len > 0 then (AEE_EBADPARM, None)
                  else if \<not> (uri \<and> uri_len > module_uri_len) then (AEE_EBADPARM, None)
                  else let s = session_uri m domain (uint session_id)
                       in (if unat uri_len \<le> length s then AEE_EBADSIZE else AEE_SUCCESS,
                           Some (snprintf_keeps (unat uri_len) s)))"

section \<open>Device nodes and library names\<close>

text \<open>\<^verbatim>\<open>get_lib_name\<close>: from the first \<^verbatim>\<open>lib\<close> to the end of the first \<^verbatim>\<open>.so\<close> behind it. \<open>alloc\<close> tells whether
  the allocation succeeds.\<close>

definition get_lib_name :: "bool \<Rightarrow> string option \<Rightarrow> string option" where
  "get_lib_name alloc uri =
     (case uri of
        None \<Rightarrow> None
      | Some u \<Rightarrow>
          (case strstr u ''lib'' of
             None \<Rightarrow> None
           | Some start \<Rightarrow>
               (case strstr start ''.so'' of
                  None \<Rightarrow> None
                | Some e \<Rightarrow>
                    if length e < length start \<and> alloc
                    then Some (take (length start - length e + 3) start) else None)))"


text \<open>\<^verbatim>\<open>get_domain_device_names\<close>: the secure and the other node. \<^verbatim>\<open>open\<close> is an argument that returns the
  descriptor and \<^verbatim>\<open>errno\<close>.\<close>

definition get_domain_device_names :: "int \<Rightarrow> (string \<times> string) option" where
  "get_domain_device_names domain_id =
     (let domain = GET_DOMAIN_FROM_EFFEC_DOMAIN_ID domain_id;
          node = ''/dev/fastrpc-'' @ SUBSYSTEM_NAME domain
      in if domain \<in> {0, 1, 2, 3, 4, 5, 6} then Some (node @ ''-secure'', node) else None)"

definition open_device_node :: "(string \<Rightarrow> int \<times> int) \<Rightarrow> int \<Rightarrow> int" where
  "open_device_node open_file domain_id =
     (let domain = GET_DOMAIN_FROM_EFFEC_DOMAIN_ID domain_id
      in if \<not> IS_VALID_DOMAIN_ID domain then -1
         else case get_domain_device_names domain of
           None \<Rightarrow> -1
         | Some (secure_dev, non_secure_dev) \<Rightarrow>
             (case open_file secure_dev of (d, en) \<Rightarrow>
                if d < 0 \<and> (en = 2 \<or> en = 13) then fst (open_file non_secure_dev) else d))"

section \<open>Lemmas\<close>

lemma starts_with_shorter: "starts_with s (n @ m) \<Longrightarrow> starts_with s n"
  unfolding starts_with_def by (drule arg_cong [where f = "take (length n)"]) (simp add: min_def)

lemma strstr_longer: "strstr s n = None \<Longrightarrow> strstr s (n @ m) = None"
  by (induction s) (auto dest: starts_with_shorter split: if_splits)

text \<open>A search for a text whose first character does not recur in it: what precedes the next such
  character and what follows can be searched one after the other.\<close>

lemma strstr_append:
  assumes "c \<notin> set n" and "strstr a (c # n) = None"
  shows "strstr (a @ c # b) (c # n) = strstr (c # b) (c # n)"
  using assms(2)
proof (induction a)
  case Nil
  then show ?case by simp
next
  case (Cons x a)
  have "\<not> starts_with ((x # a) @ c # b) (c # n)"
  proof
    assume pre: "starts_with ((x # a) @ c # b) (c # n)"
    show False
    proof (cases "length n \<le> length a")
      case True
      then show False using pre Cons.prems by (auto simp: starts_with_def split: if_splits)
    next
      case False
      then have "n ! length a = c"
        using pre by (auto simp: starts_with_def take_Cons' nth_append dest!: arg_cong [where f = "\<lambda>l. l ! length a"] split: if_splits)
      then show False using False assms(1) by (metis not_le nth_mem)
    qed
  qed
  moreover have "strstr a (c # n) = None" using Cons.prems by (auto split: if_splits)
  ultimately show ?case using Cons.IH by simp
qed

lemma print_int_session: "s \<in> {0, 1, 2, 3} \<Longrightarrow> print_int s = [''0123'' ! nat s]"
  by (auto simp: print_int_def print_nat.simps)


section \<open>Properties\<close>

lemma domain_cases:
  assumes "IS_VALID_DOMAIN_ID d" and "d \<noteq> 7"
  shows "d \<in> {0, 1, 2, 3, 4, 5, 6}"
  using assms unfolding IS_VALID_DOMAIN_ID_def by auto

text \<open>Nothing in a module URI is taken for a domain or a session.\<close>

definition plain_uri :: "string \<Rightarrow> bool" where
  "plain_uri u \<longleftrightarrow> strstr u FASTRPC_DOMAIN_URI = None \<and> strstr u FASTRPC_SESSION_URI = None"

lemma plain_uri_domain:
  assumes "plain_uri u" and "CHR ''&'' \<notin> set n"
  shows "strstr (u @ CHR ''&'' # b) (''&_dom='' @ n) = strstr (CHR ''&'' # b) (''&_dom='' @ n)"
proof -
  have "strstr u (''&_dom='' @ n) = None" using assms unfolding plain_uri_def by (blast intro: strstr_longer)
  then show ?thesis using strstr_append [of "CHR ''&''" "''_dom='' @ n" u b] assms(2) by simp
qed

lemma plain_uri_session:
  assumes "plain_uri u"
  shows "strstr (u @ CHR ''&'' # b) FASTRPC_SESSION_URI = strstr (CHR ''&'' # b) FASTRPC_SESSION_URI"
  using strstr_append [of "CHR ''&''" "''_session=''" u b] assms by (simp add: plain_uri_def)

lemma session_uri_domain:
  assumes "plain_uri m" and "d \<in> {0, 1, 2, 3, 4, 5, 6}"
  shows "domain_in_uri (m @ ''&_dom='' @ SUBSYSTEM_NAME d @ ''&_session='' @ [c]) = d"
proof -
  note dom = plain_uri_domain [OF assms(1)]
  note skip = dom [of "''adsp''", simplified] dom [of "''mdsp''", simplified] dom [of "''sdsp''", simplified]
    dom [of "''cdsp1''", simplified] dom [of "''cdsp''", simplified] dom [of "''gdsp0''", simplified]
    dom [of "''gdsp1''", simplified]
  show ?thesis
    using assms(2)
    by (elim insertE emptyE) (simp_all add: domain_in_uri_def SUBSYSTEM_NAME_def starts_with_def skip)
qed

lemma session_uri_session:
  assumes "plain_uri m" and "d \<in> {0, 1, 2, 3, 4, 5, 6}"
  shows "strstr (m @ ''&_dom='' @ SUBSYSTEM_NAME d @ ''&_session='' @ [c]) FASTRPC_SESSION_URI = Some (''&_session='' @ [c])"
  using assms(2)
  by (elim insertE emptyE)
    (simp_all add: SUBSYSTEM_NAME_def starts_with_def plain_uri_session [OF assms(1), simplified])

lemma strtol_digit: "s \<in> {0, 1, 2, 3} \<Longrightarrow> strtol10 [''0123'' ! nat s] = s"
proof -
  have "strtol10 ''0'' = 0" "strtol10 ''1'' = 1" "strtol10 ''2'' = 2" "strtol10 ''3'' = 3" by code_simp+
  then show "s \<in> {0, 1, 2, 3} \<Longrightarrow> strtol10 [''0123'' ! nat s] = s" by auto
qed

lemma standalone_name: "d \<in> {0, 1, 2, 3, 4, 5, 6} \<Longrightarrow> domain_of_standalone (SUBSYSTEM_NAME d) = d"
  by (auto simp: domain_of_standalone_def SUBSYSTEM_NAME_def starts_with_def)


text \<open>C31: the URI that \<^verbatim>\<open>FASTRPC_GET_URI\<close> builds for a session of a domain is read back by
  \<^verbatim>\<open>get_domain_from_name\<close> as the effective domain id of this session, and the id is the one that
  \<^verbatim>\<open>FASTRPC_GET_EFFECTIVE_DOMAIN_ID\<close> reports.\<close>

theorem session_uri_roundtrip:
  assumes "plain_uri m" and "d \<in> {0, 1, 2, 3, 4, 5, 6}" and "s < 4"
    and "0 < nlen" and "0 < mlen" and "mlen < ulen"
    and fits: "length (session_uri m d (uint s)) < unat ulen"
  shows "\<exists>uri. get_uri (Some (SUBSYSTEM_NAME d)) nlen s (Some m) mlen True ulen = (AEE_SUCCESS, Some uri) \<and>
           get_domain_from_name (Some uri) DOMAIN_NAME_IN_URI = d + 8 * uint s \<and>
           get_effective_domain_id (Some (SUBSYSTEM_NAME d)) nlen s = (AEE_SUCCESS, Some (d + 8 * uint s)) \<and>
           GET_DOMAIN_FROM_EFFEC_DOMAIN_ID (d + 8 * uint s) = d \<and> GET_SESSION_ID_FROM_DOMAIN_ID (d + 8 * uint s) = uint s"
proof -
  have "uint s < 4" using assms(3) by (simp add: word_less_def)
  then have s: "uint s \<in> {0, 1, 2, 3}" by (smt (verit) insertCI uint_ge_0)
  let ?uri = "session_uri m d (uint s)"
  have uri: "?uri = m @ ''&_dom='' @ SUBSYSTEM_NAME d @ ''&_session='' @ [''0123'' ! nat (uint s)]"
    by (simp add: session_uri_def print_int_session [OF s])
  have e: "GET_EFFECTIVE_DOMAIN_ID d (uint s) = d + 8 * uint s"
    using assms(2) s by (auto simp: GET_EFFECTIVE_DOMAIN_ID_def int32_id)
  have "get_uri (Some (SUBSYSTEM_NAME d)) nlen s (Some m) mlen True ulen = (AEE_SUCCESS, Some ?uri)"
    using assms(2-6) fits
    by (simp add: get_uri_def get_domain_from_name_def standalone_name IS_VALID_DOMAIN_ID_def snprintf_keeps_def) auto
  moreover have "get_domain_from_name (Some ?uri) DOMAIN_NAME_IN_URI = d + 8 * uint s"
  proof -
    have "d \<noteq> INVALID_DOMAIN_ID" using assms(2) by auto
    moreover have "int32 (strtol10 [''0123'' ! nat (uint s)]) = uint s"
      using strtol_digit [OF s] s by (auto simp: int32_id)
    moreover have "uint s < NUM_SESSIONS" using s by auto
    ultimately show ?thesis
      unfolding get_domain_from_name_def uri
      by (simp add: session_uri_domain [OF assms(1,2), simplified] session_uri_session [OF assms(1,2), simplified] e)
  qed
  moreover have "get_effective_domain_id (Some (SUBSYSTEM_NAME d)) nlen s = (AEE_SUCCESS, Some (d + 8 * uint s))"
    using assms(2-4) s
    by (auto simp: get_effective_domain_id_def get_domain_from_name_def standalone_name IS_VALID_DOMAIN_ID_def e
        IS_VALID_EFFECTIVE_DOMAIN_ID_def)
  moreover have "GET_DOMAIN_FROM_EFFEC_DOMAIN_ID (d + 8 * uint s) = d \<and> GET_SESSION_ID_FROM_DOMAIN_ID (d + 8 * uint s) = uint s"
    using assms(2) s by (auto simp: GET_DOMAIN_FROM_EFFEC_DOMAIN_ID_def GET_SESSION_ID_FROM_DOMAIN_ID_def)
  ultimately show ?thesis by blast
qed


theorem session_uri_roundtrip_witness:
  "\<exists>uri. get_uri (Some (SUBSYSTEM_NAME 4)) 5 2 (Some ''file:///libx.so?x&_modver=1.0'') 29 True 64 = (AEE_SUCCESS, Some uri) \<and>
     get_domain_from_name (Some uri) DOMAIN_NAME_IN_URI = 4 + 8 * uint (2 :: u32) \<and>
     get_effective_domain_id (Some (SUBSYSTEM_NAME 4)) 5 2 = (AEE_SUCCESS, Some (4 + 8 * uint (2 :: u32))) \<and>
     GET_DOMAIN_FROM_EFFEC_DOMAIN_ID (4 + 8 * uint (2 :: u32)) = 4 \<and>
     GET_SESSION_ID_FROM_DOMAIN_ID (4 + 8 * uint (2 :: u32)) = uint (2 :: u32)"
  by (rule session_uri_roundtrip)
    (simp_all add: plain_uri_def starts_with_def session_uri_def SUBSYSTEM_NAME_def print_int_session)

text \<open>A negative session id passes the check of \<^verbatim>\<open>get_domain_from_name\<close>: the product with the number of
  domains overflows, and with wrap-around the result is an id behind the end of the session table.\<close>

lemma negative_session_leaves_table:
  "get_domain_from_name (Some ''f?x&_dom=cdsp&_session=-536870908'') DOMAIN_NAME_IN_URI = 35 \<and>
   \<not> IS_VALID_EFFECTIVE_DOMAIN_ID 35"
  by code_simp

end
