(* ===== verification/Wakelock.thy ===== *)
theory Wakelock
  imports Prelude
begin

text \<open>
  \<^verbatim>\<open>src/fastrpc_pm.c\<close>: the counted wake lock. Its state is the structure \<^verbatim>\<open>wakelock\<close>; the writes to the
  two power files are recorded in order, and their outcome is an argument that may depend on all that
  happened before. The name that is written is not part of the state.
\<close>

abbreviation (input) AEE_EUNSUPPORTEDAPI :: int where "AEE_EUNSUPPORTEDAPI \<equiv> 108"
abbreviation (input) ENOENT :: int where "ENOENT \<equiv> 2"

datatype wake_event = WakeLock | WakeUnlock

record wake_lock =
  wl_lock :: int
  wl_unlock :: int
  wl_count :: u32
  init_done :: bool
  deinit_started :: bool
  wmut :: bool            \<comment> \<open>the mutex is initialised\<close>
  wmut_int :: bool        \<comment> \<open>\<^verbatim>\<open>wakelock_wmut_int\<close>\<close>
  wl_events :: "wake_event list"

type_synonym write_outcome = "wake_lock \<Rightarrow> bool"

definition wake_start :: wake_lock where
  "wake_start = \<lparr>wl_lock = 0, wl_unlock = 0, wl_count = 0, init_done = False, deinit_started = False,
     wmut = False, wmut_int = False, wl_events = []\<rparr>"

definition wake_emit :: "wake_event \<Rightarrow> wake_lock \<Rightarrow> wake_lock" where
  "wake_emit e w = w\<lparr>wl_events := wl_events w @ [e]\<rparr>"

definition fastrpc_wake_lock :: "write_outcome \<Rightarrow> wake_lock \<Rightarrow> int \<times> wake_lock" where
  "fastrpc_wake_lock written w =
     (if \<not> init_done w then (AEE_ERPC, w)
      else if deinit_started w then (AEE_ERPC, w)
      else if wl_count w = 0 \<and> wl_lock w > 0
      then if written w then (AEE_SUCCESS, wake_emit WakeLock (w\<lparr>wl_count := wl_count w + 1\<rparr>))
           else (AEE_ERPC, w)
      else (AEE_SUCCESS, w\<lparr>wl_count := wl_count w + 1\<rparr>))"

definition fastrpc_wake_unlock :: "write_outcome \<Rightarrow> wake_lock \<Rightarrow> int \<times> wake_lock" where
  "fastrpc_wake_unlock written w =
     (if \<not> init_done w then (AEE_ERPC, w)
      else if wl_count w = 0 then (AEE_SUCCESS, w)
      else let w1 = w\<lparr>wl_count := wl_count w - 1\<rparr>
           in if wl_count w1 = 0 \<and> wl_unlock w > 0
              then if written w1 then (AEE_SUCCESS, wake_emit WakeUnlock w1)
                   else (AEE_ERPC, w1\<lparr>wl_count := wl_count w1 + 1\<rparr>)
              else (AEE_SUCCESS, w1))"

lemma unat_pred_less: "(c :: u32) \<noteq> 0 \<Longrightarrow> unat (c - 1) < unat c"
  by (metis measure_unat)

lemma unlock_decreases:
  "fastrpc_wake_unlock written w = (0, w') \<Longrightarrow> wl_count w \<noteq> 0 \<Longrightarrow> unat (wl_count w') < unat (wl_count w)"
  by (auto simp: fastrpc_wake_unlock_def Let_def wake_emit_def unat_pred_less split: if_splits)

text \<open>The loop of \<^verbatim>\<open>fastrpc_wake_lock_release\<close> ends: every round that does not leave it lowers the count.\<close>

function fastrpc_wake_lock_release :: "write_outcome \<Rightarrow> wake_lock \<Rightarrow> wake_lock" where
  "fastrpc_wake_lock_release written w =
     (if wl_count w = 0 then w
      else case fastrpc_wake_unlock written w of (nErr, w') \<Rightarrow>
             if nErr \<noteq> 0 then w' else fastrpc_wake_lock_release written w')"
  by pat_completeness auto

termination
  by (relation "measure (\<lambda>(written, w). unat (wl_count w))") (auto dest: unlock_decreases [OF sym])

declare fastrpc_wake_lock_release.simps [simp del]

text \<open>What closing a descriptor leaves: it is cleared when it was open and closing succeeds. The error is
  the last one.\<close>

definition wake_close :: "int \<Rightarrow> int \<Rightarrow> int \<Rightarrow> int \<times> int" where
  "wake_close fd ret nErr = (if fd > 0 then (if ret \<noteq> 0 then fd else 0, ret) else (fd, nErr))"

text \<open>The answers of the system during the initialisation: whether the mutex, the process id and the
  program name can be had, the two descriptors, \<^verbatim>\<open>errno\<close> and the results of closing.\<close>

record wake_env =
  we_mutex :: int
  we_pid :: bool
  we_prog :: bool
  we_lock :: int
  we_unlock :: int
  we_errno :: int
  we_close1 :: int
  we_close2 :: int

text \<open>The part up to the label \<^verbatim>\<open>bail\<close>.\<close>

definition wake_lock_open :: "wake_env \<Rightarrow> wake_lock \<Rightarrow> int \<times> wake_lock" where
  "wake_lock_open e w =
     (if \<not> we_pid e \<or> \<not> we_prog e then (AEE_ERPC, w)
      else let w = w\<lparr>wl_lock := we_lock e\<rparr>
           in if \<not> 0 < wl_lock w then (AEE_ERPC, w)
              else let w = w\<lparr>wl_unlock := we_unlock e\<rparr>
                   in (if \<not> 0 < wl_unlock w then AEE_ERPC else AEE_SUCCESS, w))"

definition fastrpc_wake_lock_init :: "wake_env \<Rightarrow> wake_lock \<Rightarrow> int \<times> wake_lock" where
  "fastrpc_wake_lock_init e w =
     (if init_done w then (AEE_SUCCESS, w)
      else let w = w\<lparr>deinit_started := False\<rparr>;
               mErr = (if wmut_int w then 0 else we_mutex e);
               w = w\<lparr>wmut := (if wmut_int w then wmut w else mErr = 0), wmut_int := True\<rparr>
           in case (if mErr \<noteq> 0 then (mErr, w) else wake_lock_open e w) of (nErr, w) \<Rightarrow>
                if nErr \<noteq> 0
                then (if nErr = AEE_ERPC \<and> we_errno e = ENOENT then AEE_EUNSUPPORTEDAPI else nErr,
                      w\<lparr>wl_lock := fst (wake_close (wl_lock w) (we_close1 e) 0),
                        wl_unlock := fst (wake_close (wl_unlock w) (we_close2 e) 0), wmut := False\<rparr>)
                else (nErr, w\<lparr>init_done := True\<rparr>))"

definition fastrpc_wake_lock_deinit :: "write_outcome \<Rightarrow> int \<Rightarrow> int \<Rightarrow> wake_lock \<Rightarrow> int \<times> wake_lock" where
  "fastrpc_wake_lock_deinit written close1 close2 w =
     (if \<not> init_done w then (AEE_SUCCESS, w)
      else let w = fastrpc_wake_lock_release written (w\<lparr>deinit_started := True\<rparr>);
               (lock, nErr) = wake_close (wl_lock w) close1 0;
               (unlock, nErr) = wake_close (wl_unlock w) close2 nErr
           in (nErr, w\<lparr>wl_lock := lock, wl_unlock := unlock, init_done := False\<rparr>))"

section \<open>The lock is held while the count is positive\<close>

text \<open>What the kernel has seen: the last write decides.\<close>

definition wake_held :: "wake_event list \<Rightarrow> bool" where
  "wake_held evs \<longleftrightarrow> evs \<noteq> [] \<and> List.last evs = WakeLock"

definition wake_inv :: "wake_lock \<Rightarrow> bool" where
  "wake_inv w \<longleftrightarrow> (init_done w \<longrightarrow> wl_lock w > 0 \<and> wl_unlock w > 0) \<and> (wake_held (wl_events w) \<longleftrightarrow> wl_count w \<noteq> 0)"

text \<open>The calls of a program; the outcomes of the writes come with each call.\<close>

inductive wake_step :: "wake_lock \<Rightarrow> wake_lock \<Rightarrow> bool" where
  lock: "wl_count w \<noteq> - 1 \<Longrightarrow> wake_step w (snd (fastrpc_wake_lock written w))"
| unlock: "wake_step w (snd (fastrpc_wake_unlock written w))"
| init: "wake_step w (snd (fastrpc_wake_lock_init e w))"
| deinit: "wake_step w (snd (fastrpc_wake_lock_deinit written c1 c2 w))"

lemma wake_held_snoc [simp]: "wake_held (evs @ [e]) \<longleftrightarrow> e = WakeLock" "\<not> wake_held []"
  by (auto simp: wake_held_def)

lemma count_succ: "(c :: u32) \<noteq> - 1 \<Longrightarrow> c + 1 \<noteq> 0"
  by (metis add_eq_0_iff2)

lemma lock_inv: "wake_inv w \<Longrightarrow> wl_count w \<noteq> - 1 \<Longrightarrow> wake_inv (snd (fastrpc_wake_lock written w))"
  by (auto simp: fastrpc_wake_lock_def wake_inv_def wake_emit_def count_succ)

lemma unlock_inv: "wake_inv w \<Longrightarrow> wake_inv (snd (fastrpc_wake_unlock written w))"
  by (auto simp: fastrpc_wake_unlock_def wake_inv_def wake_emit_def Let_def)

lemma unlock_keeps: "init_done (snd (fastrpc_wake_unlock written w)) = init_done w"
  by (auto simp: fastrpc_wake_unlock_def wake_emit_def Let_def)

lemma release_inv: "wake_inv w \<Longrightarrow> wake_inv (fastrpc_wake_lock_release written w)"
proof (induction written w rule: fastrpc_wake_lock_release.induct)
  case (1 written w)
  show ?case
    using 1 unlock_inv [OF 1(2), of written]
    by (subst fastrpc_wake_lock_release.simps) (auto split: prod.splits)
qed

lemma wake_init_inv: "wake_inv w \<Longrightarrow> wake_inv (snd (fastrpc_wake_lock_init e w))"
  by (auto simp: fastrpc_wake_lock_init_def wake_lock_open_def wake_inv_def Let_def wake_close_def)

lemma wake_deinit_inv: "wake_inv w \<Longrightarrow> wake_inv (snd (fastrpc_wake_lock_deinit written c1 c2 w))"
  using release_inv [of "w\<lparr>deinit_started := True\<rparr>" written]
  by (auto simp: fastrpc_wake_lock_deinit_def wake_inv_def Let_def split: prod.splits)

text \<open>C29: whatever the program calls and whatever the power files answer, the system is kept awake
  exactly while the count of the wake lock is positive.\<close>

theorem wake_lock_tracks_count:
  assumes "wake_step\<^sup>*\<^sup>* wake_start w"
  shows "wake_held (wl_events w) \<longleftrightarrow> wl_count w \<noteq> 0"
proof -
  have "wake_inv w"
    using assms
  proof (induction rule: rtranclp_induct)
    case base
    then show ?case by (simp add: wake_inv_def wake_start_def)
  next
    case (step y z)
    from step.hyps(2) step.IH show ?case
      by (cases rule: wake_step.cases) (auto intro: lock_inv unlock_inv wake_init_inv wake_deinit_inv)
  qed
  then show ?thesis by (simp add: wake_inv_def)
qed

definition demo_wake_env :: wake_env where
  "demo_wake_env = \<lparr>we_mutex = 0, we_pid = True, we_prog = True, we_lock = 5, we_unlock = 6, we_errno = 0,
     we_close1 = 0, we_close2 = 0\<rparr>"

definition demo_wakelock :: wake_lock where
  "demo_wakelock = snd (fastrpc_wake_lock (\<lambda>_. True) (snd (fastrpc_wake_lock_init demo_wake_env wake_start)))"

theorem wake_lock_tracks_count_witness:
  "wake_held (wl_events demo_wakelock) \<longleftrightarrow> wl_count demo_wakelock \<noteq> 0"
proof (rule wake_lock_tracks_count)
  have "wake_step wake_start (snd (fastrpc_wake_lock_init demo_wake_env wake_start))" by (rule wake_step.init)
  moreover have "wl_count (snd (fastrpc_wake_lock_init demo_wake_env wake_start)) \<noteq> - 1" by code_simp
  then have "wake_step (snd (fastrpc_wake_lock_init demo_wake_env wake_start)) demo_wakelock"
    unfolding demo_wakelock_def by (rule wake_step.lock)
  ultimately show "wake_step\<^sup>*\<^sup>* wake_start demo_wakelock" by simp
qed

text \<open>A failed initialisation destroys the mutex but leaves the mark that it was initialised: the next
  attempt succeeds with a mutex that is not.\<close>

lemma reinit_uses_destroyed_mutex:
  "let w = snd (fastrpc_wake_lock_init (demo_wake_env\<lparr>we_lock := -1\<rparr>) wake_start);
       (nErr, w') = fastrpc_wake_lock_init demo_wake_env w
   in nErr = AEE_SUCCESS \<and> init_done w' \<and> \<not> wmut w'"
  by code_simp

end
