(* ===== verification/Handles.thy ===== *)
theory Handles
  imports FastrpcMem ModTable DomainUri Wakelock
begin

text \<open>
  The handle lists of \<^verbatim>\<open>src/fastrpc_apps_user.c\<close>: for every effective domain the open handles of
  modules on the DSP, with and without a domain, and the reverse handles that the DSP has opened here,
  with their counts; the checks that turn a local handle into its domain and its remote handle; the
  static handles of the library's own stubs; and the reverse handles of
  \<^verbatim>\<open>src/listener_android.c\<close>, which join these lists with the module table.

  A local handle is the address of its \<^verbatim>\<open>handle_info\<close>. Of \<^verbatim>\<open>struct handle_list\<close> the reference count, the
  state and the device are in the session table of \<open>Session\<close>; the other members are the record
  \<open>dom\<close> here. Each list is only touched with the mutex of its domain held.
\<close>

section \<open>State\<close>

record handle_info =
  h_addr :: u64
  h_hlist :: int
  h_remote :: u64
  h_name :: "string option"

record fastrpc_thread_params =
  thread_priority :: u32
  stack_size :: u32
  reqID :: int
  update_requested :: bool

record dom =
  ql :: "handle_info list"
  nql :: "handle_info list"
  rql :: "handle_info list"
  constCount :: u32
  domainsCount :: u32
  nondomainsCount :: u32
  reverseCount :: u32
  dsppd :: int
  dsppdname :: string
  sessionname :: string
  setmode :: bool
  mode :: u32
  info :: u32
  cphandle :: u64
  msghandle :: u64
  listenerhandle :: u64
  remotectlhandle :: u64
  adspperfhandle :: u64
  procattrs :: u32
  adaptive_qos :: bool
  th_params :: fastrpc_thread_params
  unsigned_module :: int
  pd_dump :: bool
  first_revrpc_done :: bool
  disable_exit_logs :: bool
  trace_marker_fd :: int
  dma_handle_reverse_rpc_map_capability :: bool
  pd_initmem_size :: u32
  is_session_reserved :: bool

text \<open>The request of an invocation to the driver.\<close>

record fastrpc_invoke_args =
  ia_ptr :: u64
  ia_length :: u64
  ia_fd :: int
  ia_attr :: u32

record fastrpc_ioctl_invoke =
  ki_dev :: int
  ki_handle :: u32
  ki_sc :: u32
  ki_args :: "fastrpc_invoke_args list"

text \<open>The calls into parts of the library whose state is not in this record, when a session starts and ends.\<close>

datatype comp_call =
    LISTENER_DOMAIN_INIT int | LISTENER_DOMAIN_DEINIT int | DSPSIGNAL_DOMAIN_DEINIT int
  | NOTIF_DOMAIN_INIT int | NOTIF_DOMAIN_DEINIT int | PERF_INIT int | PERF_DEINIT
  | TRACE_MARKER_INIT int | TRACE_MARKER_DEINIT int | FILE_WATCHER_INIT int | FILE_WATCHER_DEINIT int
  | ADSPMSGD_INIT int | ADSPMSGD_STOP int | CURRENT_PROCESS nat | APPS_MEM_INIT int | APPS_MEM_DEINIT int | CLOSE_DEVICE int

text \<open>\<open>sent\<close> lists the invocations that reached the driver, in order; its answers may depend on them. \<open>calls\<close> lists
  the calls into other parts, \<open>notif_flag\<close> is \<^verbatim>\<open>fastrpc_notif_flag\<close>.\<close>

record apps =
  am :: memst
  doms :: "int \<Rightarrow> dom"
  mods :: mod_state
  wakelock :: wake_lock
  fastrpc_wake_lock_enable :: "int \<Rightarrow> u32"
  sent :: "fastrpc_ioctl_invoke list"
  calls :: "comp_call list"
  notif_flag :: bool

text \<open>What the environment answers: \<open>a_calloc\<close> the address of a new \<^verbatim>\<open>handle_info\<close> (0: no memory), which
  depends on the state, since it must not be one in use; \<open>a_alloc\<close> whether the other allocations of an
  operation succeed, by number; \<open>a_ioctl\<close> the answer of the driver to an invocation: the error,
  \<^verbatim>\<open>errno\<close> and the words that the remote side stores in the first output buffer.\<close>

text \<open>The requests by which the driver creates or attaches to the process on the DSP (\<^verbatim>\<open>ioctl_init\<close>).\<close>

datatype init_req =
    INIT_ATTACH int | INIT_ATTACH_SENSORS int
  | INIT_CREATE_STATIC int string u32      \<comment> \<open>device, name, memlen\<close>
  | INIT_CREATE int u32 int                \<comment> \<open>device, attributes, descriptor of the shell file\<close>

text \<open>What loading the shell file of a user process comes to: it was not found, an error, or the
  descriptor of the buffer that it was read into.\<close>

datatype shell = NoShell | ShellError int | Shell int

text \<open>The properties and the settings of the configuration file that make up the process attributes.\<close>

record proc_config =
  c_attrs :: u32
  c_attrs_persistent :: u32
  c_pddump :: bool
  c_debug_pddump :: bool
  c_perfkernel :: bool
  c_perfdsp :: bool
  c_iregion :: bool
  c_qtf :: bool
  c_caller_level :: u32
  c_uaf :: bool
  c_debug_logging :: bool
  c_system_library :: bool
  c_sysmon :: bool
  c_logpacket :: bool
  c_leak_detect :: u32
  c_stack_num :: u32
  c_errcodes :: nat

text \<open>Further answers: \<open>a_comp\<close> the result of a call into another part, \<open>a_open\<close> the opening of a device
  file (the descriptor and \<^verbatim>\<open>errno\<close>), \<open>a_init\<close> the error and \<^verbatim>\<open>errno\<close> of a process request, \<open>a_shell\<close> the shell file, \<open>a_close\<close> the closing of a file, \<open>a_stack\<close> the addresses of
  the argument buffers of the library's own stubs, \<open>a_eventfd\<close> the event descriptor of the listener.\<close>

record henv =
  a_calloc :: "apps \<Rightarrow> u64"
  a_namealloc :: bool
  a_mod :: mod_env
  a_mem :: menv
  a_alloc :: "apps \<Rightarrow> nat \<Rightarrow> bool"
  a_written :: write_outcome
  a_ioctl :: "apps \<Rightarrow> fastrpc_ioctl_invoke \<Rightarrow> int \<times> int \<times> u32 list"
  perf_v2_kernel :: bool
  perf_v2_dsp :: bool
  a_comp :: "apps \<Rightarrow> comp_call \<Rightarrow> int"
  a_open :: "string \<Rightarrow> int \<times> int"
  a_init :: "apps \<Rightarrow> init_req \<Rightarrow> int \<times> int"
  a_shell :: shell
  a_static_file :: bool
  a_close :: int
  a_stack :: "nat \<Rightarrow> u64"
  a_config :: proc_config
  a_eventfd :: "int \<times> u32 option"

abbreviation (input) INVALID_HANDLE :: u64 where "INVALID_HANDLE \<equiv> - 1"
abbreviation (input) remotectl1_const :: u64 where "remotectl1_const \<equiv> 8"
abbreviation (input) adsp_current_process1_const :: u64 where "adsp_current_process1_const \<equiv> 4"
abbreviation (input) adspmsgd_adsp1_const :: u64 where "adspmsgd_adsp1_const \<equiv> 5"
abbreviation (input) adsp_listener1_const :: u64 where "adsp_listener1_const \<equiv> 7"
abbreviation (input) adsp_perf1_const :: u64 where "adsp_perf1_const \<equiv> 9"

definition upd_dom :: "int \<Rightarrow> (dom \<Rightarrow> dom) \<Rightarrow> apps \<Rightarrow> apps" where
  "upd_dom d f s = s\<lparr>doms := (doms s)(d := f (doms s d))\<rparr>"

definition upd_sess :: "(session \<Rightarrow> session) \<Rightarrow> apps \<Rightarrow> apps" where
  "upd_sess f s = s\<lparr>am := (am s)\<lparr>sess := f (sess (am s))\<rparr>\<rparr>"

definition IS_CONST_HANDLE :: "u64 \<Rightarrow> bool" where
  "IS_CONST_HANDLE h \<longleftrightarrow> h < 0xff"

definition IS_STATICPD_HANDLE :: "u64 \<Rightarrow> bool" where
  "IS_STATICPD_HANDLE h \<longleftrightarrow> h > 0xff \<and> h \<le> 0x200"

section \<open>Validation of local handles\<close>

definition is_valid_local_handle :: "int \<Rightarrow> u64 \<Rightarrow> apps \<Rightarrow> bool" where
  "is_valid_local_handle domain hinfo s \<longleftrightarrow>
     (if domain = -1 then \<exists>ii \<in> set all_domains. \<exists>hi \<in> set (ql (doms s ii)). h_addr hi = hinfo
      else \<exists>hi \<in> set (ql (doms s domain)). h_addr hi = hinfo)"

text \<open>The structure that a valid local handle points to.\<close>

definition handle_at :: "u64 \<Rightarrow> apps \<Rightarrow> handle_info option" where
  "handle_at local s = find (\<lambda>hi. h_addr hi = local) (concat (map (\<lambda>ii. ql (doms s ii)) all_domains))"

definition verify_local_handle :: "int \<Rightarrow> u64 \<Rightarrow> apps \<Rightarrow> int" where
  "verify_local_handle domain local s =
     (if \<not> (local \<noteq> -1 \<and> local \<noteq> 0) then AEE_EINVHANDLE
      else if \<not> is_valid_local_handle domain local s then AEE_EINVHANDLE
      else case handle_at local s of
        None \<Rightarrow> AEE_EINVHANDLE
      | Some hi \<Rightarrow> if \<not> IS_VALID_EFFECTIVE_DOMAIN_ID (h_hlist hi) then AEE_ERPC else AEE_SUCCESS)"

definition get_domain_from_handle :: "u64 \<Rightarrow> apps \<Rightarrow> int \<times> int option" where
  "get_domain_from_handle local s =
     (let nErr = verify_local_handle (-1) local s
      in if nErr \<noteq> 0 then (nErr, None)
         else case handle_at local s of
           None \<Rightarrow> (AEE_EINVHANDLE, None)
         | Some hi \<Rightarrow> if \<not> IS_VALID_EFFECTIVE_DOMAIN_ID (h_hlist hi) then (AEE_EINVHANDLE, None)
                      else (AEE_SUCCESS, Some (h_hlist hi)))"

definition get_handle_remote :: "u64 \<Rightarrow> apps \<Rightarrow> int \<times> u64 option" where
  "get_handle_remote local s =
     (let nErr = verify_local_handle (-1) local s
      in if nErr \<noteq> 0 then (nErr, None)
         else case handle_at local s of None \<Rightarrow> (AEE_EINVHANDLE, None) | Some hi \<Rightarrow> (AEE_SUCCESS, Some (h_remote hi)))"

section \<open>Updating the lists\<close>

text \<open>\<^verbatim>\<open>fastrpc_alloc_handle\<close>: \<open>f\<close> updates the list \<^verbatim>\<open>me\<close> of the domain.\<close>

definition fastrpc_alloc_handle ::
  "henv \<Rightarrow> int \<Rightarrow> ((handle_info list \<Rightarrow> handle_info list) \<Rightarrow> dom \<Rightarrow> dom) \<Rightarrow> u64 \<Rightarrow> string option \<Rightarrow> apps \<Rightarrow>
     (int \<times> u64 option) \<times> apps" where
  "fastrpc_alloc_handle e domain f remote name s =
     (let hinfo = a_calloc e s
      in if hinfo = 0 then ((AEE_ENOMEMORY, None), s)
         else ((AEE_SUCCESS, Some hinfo),
               upd_dom domain (f (\<lambda>me. \<lparr>h_addr = hinfo, h_hlist = domain, h_remote = remote,
                                         h_name = get_lib_name (a_namealloc e) name\<rparr> # me)) s))"

text \<open>The first entry with the remote handle is taken off the list; there may be none.\<close>

definition fastrpc_free_handle ::
  "int \<Rightarrow> ((handle_info list \<Rightarrow> handle_info list) \<Rightarrow> dom \<Rightarrow> dom) \<Rightarrow> u64 \<Rightarrow> apps \<Rightarrow> apps" where
  "fastrpc_free_handle domain f remote s = upd_dom domain (f (del_first (\<lambda>hi. h_remote hi = remote))) s"

datatype handle_list_update_id =
    NON_DOMAIN_LIST_PREPEND | NON_DOMAIN_LIST_DEQUEUE
  | REVERSE_HANDLE_LIST_PREPEND | REVERSE_HANDLE_LIST_DEQUEUE
  | DOMAIN_LIST_PREPEND | DOMAIN_LIST_DEQUEUE

definition count_domain_handle :: "(u32 \<Rightarrow> u32) \<Rightarrow> u64 \<Rightarrow> dom \<Rightarrow> dom" where
  "count_domain_handle f h d =
     (if IS_CONST_HANDLE h then d\<lparr>constCount := f (constCount d)\<rparr> else d\<lparr>domainsCount := f (domainsCount d)\<rparr>)"

definition fastrpc_update_module_list ::
  "henv \<Rightarrow> handle_list_update_id \<Rightarrow> int \<Rightarrow> u64 \<Rightarrow> string option \<Rightarrow> apps \<Rightarrow> (int \<times> u64 option) \<times> apps" where
  "fastrpc_update_module_list e req domain h name s =
     (case req of
        DOMAIN_LIST_PREPEND \<Rightarrow>
          (case fastrpc_alloc_handle e domain ql_update h name s of ((nErr, local), s) \<Rightarrow>
             if nErr \<noteq> 0 then ((nErr, local), s)
             else ((nErr, local), upd_dom domain (count_domain_handle (\<lambda>c. c + 1) h) s))
      | DOMAIN_LIST_DEQUEUE \<Rightarrow>
          ((AEE_SUCCESS, None),
           upd_dom domain (count_domain_handle (\<lambda>c. c - 1) h) (fastrpc_free_handle domain ql_update h s))
      | NON_DOMAIN_LIST_PREPEND \<Rightarrow>
          (case fastrpc_alloc_handle e domain nql_update h name s of ((nErr, local), s) \<Rightarrow>
             if nErr \<noteq> 0 then ((nErr, local), s)
             else ((nErr, local), upd_dom domain (\<lambda>d. d\<lparr>nondomainsCount := nondomainsCount d + 1\<rparr>) s))
      | NON_DOMAIN_LIST_DEQUEUE \<Rightarrow>
          ((AEE_SUCCESS, None),
           upd_dom domain (\<lambda>d. d\<lparr>nondomainsCount := nondomainsCount d - 1\<rparr>) (fastrpc_free_handle domain nql_update h s))
      | REVERSE_HANDLE_LIST_PREPEND \<Rightarrow>
          (case fastrpc_alloc_handle e domain rql_update h name s of ((nErr, local), s) \<Rightarrow>
             if nErr \<noteq> 0 then ((nErr, local), s)
             else ((nErr, local), upd_dom domain (\<lambda>d. d\<lparr>reverseCount := reverseCount d + 1\<rparr>) s))
      | REVERSE_HANDLE_LIST_DEQUEUE \<Rightarrow>
          ((AEE_SUCCESS, None),
           upd_dom domain (\<lambda>d. d\<lparr>reverseCount := reverseCount d - 1\<rparr>) (fastrpc_free_handle domain rql_update h s)))"

section \<open>The handles of the library's own stubs\<close>

text \<open>The handle is allocated on first use and kept in the structure of the domain.\<close>

definition get_static_handle ::
  "henv \<Rightarrow> (dom \<Rightarrow> u64) \<Rightarrow> (u64 \<Rightarrow> dom \<Rightarrow> dom) \<Rightarrow> u64 \<Rightarrow> int \<Rightarrow> apps \<Rightarrow> u64 \<times> apps" where
  "get_static_handle e get put const domain s =
     (if get (doms s domain) \<noteq> 0 then (get (doms s domain), s)
      else case fastrpc_update_module_list e DOMAIN_LIST_PREPEND domain const None s of
             ((nErr, local), s) \<Rightarrow>
               if nErr \<noteq> 0 then (INVALID_HANDLE, s)
               else (case local of None \<Rightarrow> (INVALID_HANDLE, s) | Some l \<Rightarrow> (l, upd_dom domain (put l) s)))"

definition get_adsp_current_process1_handle :: "henv \<Rightarrow> int \<Rightarrow> apps \<Rightarrow> u64 \<times> apps" where
  "get_adsp_current_process1_handle e =
     get_static_handle e cphandle (\<lambda>l d. d\<lparr>cphandle := l\<rparr>) adsp_current_process1_const"

definition get_adspmsgd_adsp1_handle :: "henv \<Rightarrow> int \<Rightarrow> apps \<Rightarrow> u64 \<times> apps" where
  "get_adspmsgd_adsp1_handle e = get_static_handle e msghandle (\<lambda>l d. d\<lparr>msghandle := l\<rparr>) adspmsgd_adsp1_const"

definition get_adsp_listener1_handle :: "henv \<Rightarrow> int \<Rightarrow> apps \<Rightarrow> u64 \<times> apps" where
  "get_adsp_listener1_handle e =
     get_static_handle e listenerhandle (\<lambda>l d. d\<lparr>listenerhandle := l\<rparr>) adsp_listener1_const"

definition get_remotectl1_handle :: "henv \<Rightarrow> int \<Rightarrow> apps \<Rightarrow> u64 \<times> apps" where
  "get_remotectl1_handle e = get_static_handle e remotectlhandle (\<lambda>l d. d\<lparr>remotectlhandle := l\<rparr>) remotectl1_const"

definition get_adsp_perf1_handle :: "henv \<Rightarrow> int \<Rightarrow> apps \<Rightarrow> u64 \<times> apps" where
  "get_adsp_perf1_handle e = get_static_handle e adspperfhandle (\<lambda>l d. d\<lparr>adspperfhandle := l\<rparr>) adsp_perf1_const"

section \<open>Reverse handles\<close>

text \<open>\<^verbatim>\<open>apps_remotectl_open\<close> and \<^verbatim>\<open>apps_remotectl_close\<close>: the DSP opens and closes a module of this
  process. Return the error, the handle and the state.\<close>

definition apps_remotectl_open :: "henv \<Rightarrow> string option \<Rightarrow> apps \<Rightarrow> (int \<times> u32 option) \<times> apps" where
  "apps_remotectl_open e name s =
     (let domain = get_current_domain (default_domain (a_mem e)) (sess (am s))
      in case mod_table_open (a_mod e) name (mods s) of (nErr, handle, dlErr, str, m) \<Rightarrow>
           let s = s\<lparr>mods := m\<rparr>
           in if nErr \<noteq> 0 then ((nErr, handle), s)
              else let h = (case handle of Some h \<Rightarrow> h | None \<Rightarrow> 0)
                   in case fastrpc_update_module_list e REVERSE_HANDLE_LIST_PREPEND domain (ucast h) None s of
                        ((nErr, local), s) \<Rightarrow> ((nErr, handle), s))"

definition apps_remotectl_close :: "henv \<Rightarrow> u32 \<Rightarrow> apps \<Rightarrow> int \<times> apps" where
  "apps_remotectl_close e handle s =
     (let domain = get_current_domain (default_domain (a_mem e)) (sess (am s))
      in case mod_table_close (a_mod e) handle (mods s) of (nErr, dlErr, str, m) \<Rightarrow>
           let s = s\<lparr>mods := m\<rparr>
           in if nErr \<noteq> 0 then (nErr, s)
              else (case fastrpc_update_module_list e REVERSE_HANDLE_LIST_DEQUEUE domain (ucast handle) None s of
                      ((nErr, local), s) \<Rightarrow> (nErr, s)))"

definition close_reverse_handle :: "henv \<Rightarrow> u64 \<Rightarrow> apps \<Rightarrow> int \<times> apps" where
  "close_reverse_handle e h s = apps_remotectl_close e (ucast h) s"

section \<open>Clearing the lists\<close>

datatype handle_list_id = MULTI_DOMAIN_HANDLE_LIST_ID | NON_DOMAIN_HANDLE_LIST_ID | REVERSE_HANDLE_LIST_ID

text \<open>The loop over the reverse handles: each is taken off the list, then closed. \<open>n\<close> bounds the rounds;
  the length of the list is enough, see \<open>clear_reverse_empties\<close>.\<close>

fun clear_reverse :: "henv \<Rightarrow> int \<Rightarrow> nat \<Rightarrow> apps \<Rightarrow> apps" where
  "clear_reverse e domain 0 s = s"
| "clear_reverse e domain (Suc n) s =
     (case rql (doms s domain) of
        [] \<Rightarrow> s
      | hi # rest \<Rightarrow>
          clear_reverse e domain n
            (snd (close_reverse_handle e (h_addr hi) (upd_dom domain (\<lambda>d. d\<lparr>rql := rest\<rparr>) s))))"

definition fastrpc_clear_handle_list :: "henv \<Rightarrow> handle_list_id \<Rightarrow> int \<Rightarrow> apps \<Rightarrow> apps" where
  "fastrpc_clear_handle_list e req domain s =
     (case req of
        MULTI_DOMAIN_HANDLE_LIST_ID \<Rightarrow> upd_dom domain (\<lambda>d. d\<lparr>ql := []\<rparr>) s
      | NON_DOMAIN_HANDLE_LIST_ID \<Rightarrow> upd_dom domain (\<lambda>d. d\<lparr>nql := []\<rparr>) s
      | REVERSE_HANDLE_LIST_ID \<Rightarrow> clear_reverse e domain (length (rql (doms s domain))) s)"

end
