(* ===== verification/HandleProps.thy ===== *)
theory HandleProps
  imports Handles ModTableSpec MemProps
begin

text \<open>
  What the handle lists guarantee: addresses are handed out once, a local handle resolves to the domain
  and the remote handle it was made for until it is taken off its list, the handles of the library's
  stubs are allocated once per session, and the counts are the lengths of the lists.
\<close>

named_theorems apps_simps "reading a state after an update"

section \<open>Reading after updates\<close>

lemma doms_upd_dom [simp]: "doms (upd_dom d f s) = (doms s)(d := f (doms s d))"
  by (simp add: upd_dom_def)

lemma upd_dom_rest [simp]:
  "am (upd_dom d f s) = am s" "mods (upd_dom d f s) = mods s" "wakelock (upd_dom d f s) = wakelock s"
  "fastrpc_wake_lock_enable (upd_dom d f s) = fastrpc_wake_lock_enable s" "sent (upd_dom d f s) = sent s" "calls (upd_dom d f s) = calls s" "notif_flag (upd_dom d f s) = notif_flag s"
  by (simp_all add: upd_dom_def)

section \<open>The invariant\<close>

definition entries :: "dom \<Rightarrow> handle_info list" where
  "entries d = ql d @ nql d @ rql d"

abbreviation addrs :: "dom \<Rightarrow> u64 list" where
  "addrs d \<equiv> map h_addr (entries d)"

definition live :: "apps \<Rightarrow> u64 set" where
  "live s = (\<Union>d \<in> set all_domains. set (addrs (doms s d)))"

text \<open>What \<^verbatim>\<open>calloc\<close> promises: no memory, or an address that no block in use has.\<close>

definition fresh_calloc :: "henv \<Rightarrow> bool" where
  "fresh_calloc e \<longleftrightarrow> (\<forall>s. a_calloc e s = 0 \<or> a_calloc e s \<notin> live s \<and> a_calloc e s \<noteq> -1)"

definition dom_ok :: "int \<Rightarrow> dom \<Rightarrow> bool" where
  "dom_ok d D \<longleftrightarrow> distinct (addrs D) \<and> 0 \<notin> set (addrs D) \<and> -1 \<notin> set (addrs D) \<and> (\<forall>hi \<in> set (entries D). h_hlist hi = d)"

definition handles_ok :: "apps \<Rightarrow> bool" where
  "handles_ok s \<longleftrightarrow> (\<forall>d \<in> set all_domains. dom_ok d (doms s d)) \<and>
     (\<forall>d \<in> set all_domains. \<forall>d' \<in> set all_domains. d \<noteq> d' \<longrightarrow> set (addrs (doms s d)) \<inter> set (addrs (doms s d')) = {})"

lemma handles_ok_dom: "handles_ok s \<Longrightarrow> d \<in> set all_domains \<Longrightarrow> dom_ok d (doms s d)"
  by (simp add: handles_ok_def)

lemma handles_ok_upd:
  assumes "handles_ok s" and "d \<in> set all_domains" and "dom_ok d (f (doms s d))"
    and "set (addrs (f (doms s d))) \<inter> (live s - set (addrs (doms s d))) = {}"
  shows "handles_ok (upd_dom d f s)"
  unfolding handles_ok_def
proof (intro conjI ballI impI)
  fix x
  assume "x \<in> set all_domains"
  then show "dom_ok x (doms (upd_dom d f s) x)" using handles_ok_dom [OF assms(1)] assms(3) by simp
next
  fix x y
  assume xy: "x \<in> set all_domains" "y \<in> set all_domains" "x \<noteq> y"
  have apart: "set (addrs (doms s a)) \<inter> set (addrs (doms s b)) = {}"
    if "a \<in> set all_domains" "b \<in> set all_domains" "a \<noteq> b" for a b
    using assms(1) that by (simp add: handles_ok_def)
  have new: "set (addrs (f (doms s d))) \<inter> set (addrs (doms s z)) = {}" if "z \<in> set all_domains" "z \<noteq> d" for z
  proof -
    have "set (addrs (doms s z)) \<subseteq> live s" using that(1) unfolding live_def by (rule UN_upper)
    moreover have "set (addrs (doms s z)) \<inter> set (addrs (doms s d)) = {}" using apart that assms(2) by blast
    ultimately have "set (addrs (doms s z)) \<subseteq> live s - set (addrs (doms s d))" by blast
    then show ?thesis using assms(4) by blast
  qed
  show "set (addrs (doms (upd_dom d f s) x)) \<inter> set (addrs (doms (upd_dom d f s) y)) = {}"
  proof (cases "x = d")
    case True
    then show ?thesis using new [OF xy(2)] xy(3) by simp
  next
    case False
    then show ?thesis
      using new [OF xy(1)] apart [OF xy] by (cases "y = d") (simp_all add: Int_commute)
  qed
qed

lemma handles_ok_shrink:
  assumes "handles_ok s" and "d \<in> set all_domains"
    and "set (entries (f (doms s d))) \<subseteq> set (entries (doms s d))" and "distinct (addrs (f (doms s d)))"
  shows "handles_ok (upd_dom d f s)"
proof (rule handles_ok_upd)
  have "set (addrs (f (doms s d))) \<subseteq> set (addrs (doms s d))" using assms(3) by auto
  then show "dom_ok d (f (doms s d))"
    using handles_ok_dom [OF assms(1,2)] assms(3,4) unfolding dom_ok_def by blast
  show "set (addrs (f (doms s d))) \<inter> (live s - set (addrs (doms s d))) = {}" using assms(3) by auto
qed (rule assms)+

lemma handles_ok_same_entries:
  "handles_ok s \<Longrightarrow> entries (f (doms s d)) = entries (doms s d) \<Longrightarrow> handles_ok (upd_dom d f s)"
  unfolding handles_ok_def by (auto simp: dom_ok_def)

section \<open>Resolution\<close>

lemma ql_entries: "hi \<in> set (ql D) \<Longrightarrow> hi \<in> set (entries D)"
  by (simp add: entries_def)

lemma same_address:
  assumes "handles_ok s" and "d \<in> set all_domains" "d' \<in> set all_domains"
    and "hi \<in> set (entries (doms s d))" "hi' \<in> set (entries (doms s d'))" and "h_addr hi = h_addr hi'"
  shows "d = d' \<and> hi = hi'"
proof -
  have "d = d'"
    using assms unfolding handles_ok_def by (metis IntI emptyE image_eqI image_set)
  moreover have "hi = hi'"
    using handles_ok_dom [OF assms(1,2)] assms \<open>d = d'\<close> unfolding dom_ok_def distinct_map
    by (metis inj_onD)
  ultimately show ?thesis ..
qed

lemma handle_at_Some:
  "handle_at l s = Some hi \<Longrightarrow> \<exists>d \<in> set all_domains. hi \<in> set (ql (doms s d)) \<and> h_addr hi = l"
proof -
  assume "handle_at l s = Some hi"
  then obtain i where i: "i < length (concat (map (\<lambda>ii. ql (doms s ii)) all_domains))" "h_addr hi = l"
      "hi = concat (map (\<lambda>ii. ql (doms s ii)) all_domains) ! i"
    unfolding handle_at_def find_Some_iff by auto
  then have "hi \<in> set (concat (map (\<lambda>ii. ql (doms s ii)) all_domains))" using nth_mem by blast
  then show ?thesis using i(2) by auto
qed

lemma handle_at_eq:
  assumes "handles_ok s" and "d \<in> set all_domains" and "hi \<in> set (ql (doms s d))"
  shows "handle_at (h_addr hi) s = Some hi"
proof (cases "handle_at (h_addr hi) s")
  case None
  then show ?thesis using assms unfolding handle_at_def find_None_iff by auto
next
  case (Some hi')
  then obtain d' where "d' \<in> set all_domains" "hi' \<in> set (ql (doms s d'))" "h_addr hi' = h_addr hi"
    using handle_at_Some by blast
  then have "hi' = hi" using same_address [OF assms(1)] assms(2,3) ql_entries by metis
  then show ?thesis using Some by simp
qed

text \<open>The lists as a map from local handles to domains and remote handles.\<close>

definition handle_map :: "apps \<Rightarrow> u64 \<rightharpoonup> int \<times> u64" where
  "handle_map s l = map_option (\<lambda>hi. (h_hlist hi, h_remote hi)) (handle_at l s)"

lemma handle_at_props:
  assumes "handles_ok s" and "handle_at l s = Some hi"
  shows "l \<noteq> 0" "l \<noteq> -1" "h_addr hi = l" "IS_VALID_EFFECTIVE_DOMAIN_ID (h_hlist hi)"
    "hi \<in> set (ql (doms s (h_hlist hi)))" "h_hlist hi \<in> set all_domains"
proof -
  obtain d where d: "d \<in> set all_domains" "hi \<in> set (ql (doms s d))" "h_addr hi = l"
    using handle_at_Some [OF assms(2)] by blast
  have ok: "dom_ok d (doms s d)" by (rule handles_ok_dom [OF assms(1) d(1)])
  have e: "hi \<in> set (entries (doms s d))" by (rule ql_entries [OF d(2)])
  then have hd: "h_hlist hi = d" using ok by (simp add: dom_ok_def)
  show "l \<noteq> 0" "l \<noteq> -1" using ok e d(3) unfolding dom_ok_def by (metis image_eqI image_set)+
  show "h_addr hi = l" by (rule d(3))
  show "IS_VALID_EFFECTIVE_DOMAIN_ID (h_hlist hi)" "hi \<in> set (ql (doms s (h_hlist hi)))" "h_hlist hi \<in> set all_domains"
    using d hd by (simp_all add: valid_iff_all_domains)
qed

lemma valid_iff_handle_at: "is_valid_local_handle (-1) l s \<longleftrightarrow> handle_at l s \<noteq> None"
  unfolding is_valid_local_handle_def handle_at_def find_None_iff by auto

lemma verify_iff:
  "handles_ok s \<Longrightarrow> verify_local_handle (-1) l s = (if handle_map s l = None then AEE_EINVHANDLE else AEE_SUCCESS)"
  by (cases "handle_at l s")
    (auto simp: verify_local_handle_def valid_iff_handle_at handle_map_def dest: handle_at_props(1,2,4))

lemma get_domain_map:
  assumes "handles_ok s"
  shows "get_domain_from_handle l s =
     (case handle_map s l of None \<Rightarrow> (AEE_EINVHANDLE, None) | Some (d, r) \<Rightarrow> (AEE_SUCCESS, Some d))"
  unfolding get_domain_from_handle_def verify_iff [OF assms]
  by (cases "handle_at l s") (auto simp: handle_map_def dest: handle_at_props(4) [OF assms])

lemma get_remote_map:
  assumes "handles_ok s"
  shows "get_handle_remote l s =
     (case handle_map s l of None \<Rightarrow> (AEE_EINVHANDLE, None) | Some (d, r) \<Rightarrow> (AEE_SUCCESS, Some r))"
  unfolding get_handle_remote_def verify_iff [OF assms]
  by (cases "handle_at l s") (auto simp: handle_map_def)

lemma handle_map_eq:
  assumes "handles_ok s"
  shows "handle_map s l = Some (d, r) \<longleftrightarrow>
     d \<in> set all_domains \<and> (\<exists>hi \<in> set (ql (doms s d)). h_addr hi = l \<and> h_remote hi = r)"
proof
  assume "handle_map s l = Some (d, r)"
  then obtain hi where "handle_at l s = Some hi" "h_hlist hi = d" "h_remote hi = r"
    by (auto simp: handle_map_def)
  then show "d \<in> set all_domains \<and> (\<exists>hi \<in> set (ql (doms s d)). h_addr hi = l \<and> h_remote hi = r)"
    using handle_at_props [OF assms] by blast
next
  assume "d \<in> set all_domains \<and> (\<exists>hi \<in> set (ql (doms s d)). h_addr hi = l \<and> h_remote hi = r)"
  then obtain hi where hi: "d \<in> set all_domains" "hi \<in> set (ql (doms s d))" "h_addr hi = l" "h_remote hi = r" by auto
  then have "h_hlist hi = d" using handles_ok_dom [OF assms] ql_entries unfolding dom_ok_def by blast
  then show "handle_map s l = Some (d, r)" using handle_at_eq [OF assms hi(1,2)] hi by (simp add: handle_map_def)
qed


section \<open>A directory of handles\<close>

text \<open>A sequence of additions; a \<open>None\<close> among the results is an addition that failed.\<close>

fun add_seq :: "('v \<Rightarrow> 's \<Rightarrow> 'k option \<times> 's) \<Rightarrow> 'v list \<Rightarrow> 's \<Rightarrow> 'k option list \<times> 's" where
  "add_seq add [] s = ([], s)"
| "add_seq add (v # vs) s = (case add v s of (k, s) \<Rightarrow> case add_seq add vs s of (ks, s) \<Rightarrow> (k # ks, s))"

locale handle_directory =
  fixes inv :: "'s \<Rightarrow> bool"
    and dir :: "'s \<Rightarrow> 'k \<rightharpoonup> 'v"
    and valid :: "'v \<Rightarrow> bool"
    and add :: "'v \<Rightarrow> 's \<Rightarrow> 'k option \<times> 's"
  assumes add_inv: "inv s \<Longrightarrow> valid v \<Longrightarrow> add v s = (r, s') \<Longrightarrow> inv s'"
    and add_dir: "inv s \<Longrightarrow> valid v \<Longrightarrow> add v s = (Some k, s') \<Longrightarrow> dir s k = None \<and> dir s' = (dir s)(k \<mapsto> v)"
    and add_fail: "inv s \<Longrightarrow> valid v \<Longrightarrow> add v s = (None, s') \<Longrightarrow> dir s' = dir s"
begin

lemma add_extends:
  "inv s \<Longrightarrow> valid v \<Longrightarrow> add v s = (k, s') \<Longrightarrow> dir s \<subseteq>\<^sub>m dir s'"
  using add_dir [of s v _ s'] add_fail [of s v s'] by (cases k) (fastforce simp: map_le_def)+

text \<open>Every handle of a sequence is new, differs from the others and resolves to its value at the end.\<close>

lemma add_seq_resolves:
  assumes "inv s" and "\<forall>v \<in> set vs. valid v" and "add_seq add vs s = (ks, s')"
  shows "inv s' \<and> length ks = length vs \<and> dir s \<subseteq>\<^sub>m dir s' \<and>
    (\<forall>i < length vs. \<forall>k. ks ! i = Some k \<longrightarrow> dir s k = None \<and> dir s' k = Some (vs ! i)) \<and>
    (\<forall>i < length vs. \<forall>j < length vs. i \<noteq> j \<longrightarrow> ks ! i = None \<or> ks ! i \<noteq> ks ! j)"
  using assms
proof (induction vs arbitrary: s ks)
  case Nil
  then show ?case by simp
next
  case (Cons v vs)
  obtain k s1 where a: "add v s = (k, s1)" by fastforce
  obtain ks' where r: "add_seq add vs s1 = (ks', s')" "ks = k # ks'"
    using Cons.prems(3) a by (auto split: prod.splits)
  have v: "valid v" "\<forall>v \<in> set vs. valid v" using Cons.prems(2) by auto
  have i1: "inv s1" by (rule add_inv [OF Cons.prems(1) v(1) a])
  note IH = Cons.IH [OF i1 v(2) r(1)]
  have le: "dir s \<subseteq>\<^sub>m dir s1" by (rule add_extends [OF Cons.prems(1) v(1) a])
  have new: "dir s x = None" if "dir s1 x = None" for x
    using le that unfolding map_le_def by (metis domIff)
  have first: "dir s x = None \<and> dir s1 x = Some v" if "k = Some x" for x
    using add_dir [OF Cons.prems(1) v(1)] a that by simp
  have here: "dir s' x = Some v" if "k = Some x" for x
    using first [OF that] IH unfolding map_le_def by (metis domI)
  have other: "ks' ! j \<noteq> Some x" if "k = Some x" "j < length vs" for x j
    using first [OF that(1)] IH that(2) by fastforce
  show ?case
  proof (intro conjI allI impI)
    show "inv s'" "length ks = length (v # vs)" using IH r(2) by auto
    show "dir s \<subseteq>\<^sub>m dir s'" using le IH map_le_trans by blast
  next
    fix i x
    assume i: "i < length (v # vs)" and k: "ks ! i = Some x"
    show "dir s x = None" "dir s' x = Some ((v # vs) ! i)"
      using i k r(2) first here IH new by (cases i; fastforce)+
  next
    fix i j
    assume ij: "i < length (v # vs)" "j < length (v # vs)" "i \<noteq> j"
    show "ks ! i = None \<or> ks ! i \<noteq> ks ! j"
    proof (cases "i = 0 \<or> j = 0")
      case True
      have "k = None \<or> ks' ! n \<noteq> k" if "n < length vs" for n using other that by (cases k) auto
      then show ?thesis using True ij r(2) by (cases i; cases j) (auto dest: not_sym)
    next
      case False
      then show ?thesis using ij IH r(2) by (cases i; cases j) auto
    qed
  qed
qed

end

section \<open>The lists implement the directory\<close>

lemma prepend_entries:
  assumes "fresh_calloc e" and "handles_ok s" and "d \<in> set all_domains" and "a_calloc e s \<noteq> 0"
    and "set (entries (f (doms s d))) = insert hi (set (entries (doms s d)))"
    and "distinct (addrs (doms s d)) \<Longrightarrow> h_addr hi \<notin> set (addrs (doms s d)) \<Longrightarrow> distinct (addrs (f (doms s d)))"
    and "h_addr hi = a_calloc e s" and "h_hlist hi = d"
  shows "handles_ok (upd_dom d f s)"
proof (rule handles_ok_upd [OF assms(2,3)])
  have new: "h_addr hi \<notin> live s" "h_addr hi \<noteq> -1" "h_addr hi \<noteq> 0"
    using assms(1,4,7) unfolding fresh_calloc_def by metis+
  have sub: "set (addrs (doms s d)) \<subseteq> live s" using assms(3) unfolding live_def by (rule UN_upper)
  have a: "set (addrs (f (doms s d))) = insert (h_addr hi) (set (addrs (doms s d)))" using assms(5) by simp
  show "dom_ok d (f (doms s d))"
    using handles_ok_dom [OF assms(2,3)] assms(5,6,8) new sub unfolding dom_ok_def a by auto
  show "set (addrs (f (doms s d))) \<inter> (live s - set (addrs (doms s d))) = {}"
    unfolding a using new by blast
qed

definition is_prepend :: "handle_list_update_id \<Rightarrow> bool" where
  "is_prepend req \<longleftrightarrow> req \<in> {NON_DOMAIN_LIST_PREPEND, REVERSE_HANDLE_LIST_PREPEND, DOMAIN_LIST_PREPEND}"

lemma entries_count [simp]:
  "entries (count_domain_handle g h D) = entries D" "entries (D\<lparr>nondomainsCount := c\<rparr>) = entries D"
  "entries (D\<lparr>reverseCount := c\<rparr>) = entries D"
  by (simp_all add: entries_def count_domain_handle_def)

lemma upd_dom_twice: "upd_dom d g (upd_dom d f s) = upd_dom d (\<lambda>D. g (f D)) s"
  by (simp add: upd_dom_def)

lemmas update_list_defs = fastrpc_update_module_list_def fastrpc_alloc_handle_def fastrpc_free_handle_def

definition new_handle :: "henv \<Rightarrow> int \<Rightarrow> u64 \<Rightarrow> string option \<Rightarrow> apps \<Rightarrow> handle_info" where
  "new_handle e d h name s =
     \<lparr>h_addr = a_calloc e s, h_hlist = d, h_remote = h, h_name = get_lib_name (a_namealloc e) name\<rparr>"

lemma new_handle_simps [simp]:
  "h_addr (new_handle e d h name s) = a_calloc e s" "h_hlist (new_handle e d h name s) = d"
  "h_remote (new_handle e d h name s) = h"
  by (simp_all add: new_handle_def)

lemma update_prepend:
  "fastrpc_update_module_list e DOMAIN_LIST_PREPEND d h name s =
     (if a_calloc e s = 0 then ((AEE_ENOMEMORY, None), s)
      else ((AEE_SUCCESS, Some (a_calloc e s)),
            upd_dom d (\<lambda>D. count_domain_handle (\<lambda>c. c + 1) h (D\<lparr>ql := new_handle e d h name s # ql D\<rparr>)) s))"
  "fastrpc_update_module_list e NON_DOMAIN_LIST_PREPEND d h name s =
     (if a_calloc e s = 0 then ((AEE_ENOMEMORY, None), s)
      else ((AEE_SUCCESS, Some (a_calloc e s)),
            upd_dom d (\<lambda>D. D\<lparr>nql := new_handle e d h name s # nql D, nondomainsCount := nondomainsCount D + 1\<rparr>) s))"
  "fastrpc_update_module_list e REVERSE_HANDLE_LIST_PREPEND d h name s =
     (if a_calloc e s = 0 then ((AEE_ENOMEMORY, None), s)
      else ((AEE_SUCCESS, Some (a_calloc e s)),
            upd_dom d (\<lambda>D. D\<lparr>rql := new_handle e d h name s # rql D, reverseCount := reverseCount D + 1\<rparr>) s))"
  by (cases "doms s d"; simp add: update_list_defs upd_dom_def new_handle_def Let_def count_domain_handle_def)+

lemma update_dequeue:
  "fastrpc_update_module_list e DOMAIN_LIST_DEQUEUE d h name s =
     ((AEE_SUCCESS, None),
      upd_dom d (\<lambda>D. count_domain_handle (\<lambda>c. c - 1) h (D\<lparr>ql := del_first (\<lambda>hi. h_remote hi = h) (ql D)\<rparr>)) s)"
  "fastrpc_update_module_list e NON_DOMAIN_LIST_DEQUEUE d h name s =
     ((AEE_SUCCESS, None),
      upd_dom d (\<lambda>D. D\<lparr>nql := del_first (\<lambda>hi. h_remote hi = h) (nql D), nondomainsCount := nondomainsCount D - 1\<rparr>) s)"
  "fastrpc_update_module_list e REVERSE_HANDLE_LIST_DEQUEUE d h name s =
     ((AEE_SUCCESS, None),
      upd_dom d (\<lambda>D. D\<lparr>rql := del_first (\<lambda>hi. h_remote hi = h) (rql D), reverseCount := reverseCount D - 1\<rparr>) s)"
  by (cases "doms s d"; simp add: update_list_defs upd_dom_def count_domain_handle_def)+

lemma entries_prepend:
  "set (entries (D\<lparr>ql := hi # ql D\<rparr>)) = insert hi (set (entries D))"
  "set (entries (D\<lparr>nql := hi # nql D\<rparr>)) = insert hi (set (entries D))"
  "set (entries (D\<lparr>rql := hi # rql D\<rparr>)) = insert hi (set (entries D))"
  "distinct (addrs D) \<Longrightarrow> h_addr hi \<notin> set (addrs D) \<Longrightarrow> distinct (addrs (D\<lparr>ql := hi # ql D\<rparr>))"
  "distinct (addrs D) \<Longrightarrow> h_addr hi \<notin> set (addrs D) \<Longrightarrow> distinct (addrs (D\<lparr>nql := hi # nql D\<rparr>))"
  "distinct (addrs D) \<Longrightarrow> h_addr hi \<notin> set (addrs D) \<Longrightarrow> distinct (addrs (D\<lparr>rql := hi # rql D\<rparr>))"
  by (auto simp: entries_def)

lemma prepend_ok:
  assumes "fresh_calloc e" and "handles_ok s" and "d \<in> set all_domains" and "is_prepend req"
    and "fastrpc_update_module_list e req d h name s = (r, s')"
  shows "handles_ok s'"
proof (cases "a_calloc e s = 0")
  case True
  then show ?thesis using assms(2,4,5) by (auto simp: update_prepend is_prepend_def)
next
  case False
  note add = prepend_entries [OF assms(1-3) False, where hi = "new_handle e d h name s"]
  from assms(4) consider "req = DOMAIN_LIST_PREPEND" | "req = NON_DOMAIN_LIST_PREPEND" | "req = REVERSE_HANDLE_LIST_PREPEND"
    by (auto simp: is_prepend_def)
  then show ?thesis
  proof cases
    case 1
    then have "s' = upd_dom d (\<lambda>D. count_domain_handle (\<lambda>c. c + 1) h (D\<lparr>ql := new_handle e d h name s # ql D\<rparr>)) s"
      using assms(5) False by (simp add: update_prepend)
    then show ?thesis by (auto intro!: add simp: entries_prepend)
  next
    case 2
    then have "s' = upd_dom d (\<lambda>D. D\<lparr>nql := new_handle e d h name s # nql D, nondomainsCount := nondomainsCount D + 1\<rparr>) s"
      using assms(5) False by (simp add: update_prepend)
    then show ?thesis by (auto intro!: add simp: entries_prepend)
  next
    case 3
    then have "s' = upd_dom d (\<lambda>D. D\<lparr>rql := new_handle e d h name s # rql D, reverseCount := reverseCount D + 1\<rparr>) s"
      using assms(5) False by (simp add: update_prepend)
    then show ?thesis by (auto intro!: add simp: entries_prepend)
  qed
qed

lemma distinct_append3:
  assumes "distinct (xs @ ys @ zs)"
  shows "distinct xs' \<Longrightarrow> set xs' \<subseteq> set xs \<Longrightarrow> distinct (xs' @ ys @ zs)"
    and "distinct ys' \<Longrightarrow> set ys' \<subseteq> set ys \<Longrightarrow> distinct (xs @ ys' @ zs)"
    and "distinct zs' \<Longrightarrow> set zs' \<subseteq> set zs \<Longrightarrow> distinct (xs @ ys @ zs')"
  using assms by auto

lemma addrs_upd:
  "addrs (D\<lparr>ql := x\<rparr>) = map h_addr x @ map h_addr (nql D) @ map h_addr (rql D)"
  "addrs (D\<lparr>nql := x\<rparr>) = map h_addr (ql D) @ map h_addr x @ map h_addr (rql D)"
  "addrs (D\<lparr>rql := x\<rparr>) = map h_addr (ql D) @ map h_addr (nql D) @ map h_addr x"
  by (simp_all add: entries_def)

lemma entries_del:
  assumes "distinct (addrs D)"
  shows "distinct (addrs (D\<lparr>ql := del_first P (ql D)\<rparr>))" "distinct (addrs (D\<lparr>nql := del_first P (nql D)\<rparr>))"
    "distinct (addrs (D\<lparr>rql := del_first P (rql D)\<rparr>))"
    and "set (entries (D\<lparr>ql := del_first P (ql D)\<rparr>)) \<subseteq> set (entries D)"
    "set (entries (D\<lparr>nql := del_first P (nql D)\<rparr>)) \<subseteq> set (entries D)"
    "set (entries (D\<lparr>rql := del_first P (rql D)\<rparr>)) \<subseteq> set (entries D)"
proof -
  have sub: "set (map h_addr (del_first P xs)) \<subseteq> set (map h_addr xs)" for xs by (auto dest: set_del_first)
  have d: "distinct (map h_addr (ql D) @ map h_addr (nql D) @ map h_addr (rql D))" using assms by (simp add: entries_def)
  then have m: "distinct (map h_addr (del_first P (ql D)))" "distinct (map h_addr (del_first P (nql D)))"
    "distinct (map h_addr (del_first P (rql D)))"
    unfolding distinct_append by (blast intro: distinct_map_del_first)+
  show "distinct (addrs (D\<lparr>ql := del_first P (ql D)\<rparr>))" "distinct (addrs (D\<lparr>nql := del_first P (nql D)\<rparr>))"
    "distinct (addrs (D\<lparr>rql := del_first P (rql D)\<rparr>))"
    unfolding addrs_upd using distinct_append3 [OF d] m sub by blast+
  show "set (entries (D\<lparr>ql := del_first P (ql D)\<rparr>)) \<subseteq> set (entries D)"
    "set (entries (D\<lparr>nql := del_first P (nql D)\<rparr>)) \<subseteq> set (entries D)"
    "set (entries (D\<lparr>rql := del_first P (rql D)\<rparr>)) \<subseteq> set (entries D)"
    by (auto simp: entries_def dest: set_del_first)
qed

lemma dequeue_ok:
  assumes "handles_ok s" and "d \<in> set all_domains" and "\<not> is_prepend req"
    and "fastrpc_update_module_list e req d h name s = (r, s')"
  shows "handles_ok s'"
proof -
  have dd: "distinct (addrs (doms s d))" using handles_ok_dom [OF assms(1,2)] by (simp add: dom_ok_def)
  note del = entries_del [OF dd]
  have s': "s' = snd (fastrpc_update_module_list e req d h name s)" using assms(4) by simp
  from assms(3) consider "req = DOMAIN_LIST_DEQUEUE" | "req = NON_DOMAIN_LIST_DEQUEUE" | "req = REVERSE_HANDLE_LIST_DEQUEUE"
    by (cases req) (auto simp: is_prepend_def)
  then show ?thesis
    unfolding s'
    by cases (simp_all add: update_dequeue handles_ok_shrink [OF assms(1,2)] del)
qed


text \<open>The map after an addition and after a removal.\<close>

lemma ql_count [simp]: "ql (count_domain_handle g h D) = ql D"
  by (simp add: count_domain_handle_def)

lemma handle_map_prepend:
  assumes "fresh_calloc e" and "handles_ok s" and "d \<in> set all_domains"
    and "fastrpc_update_module_list e DOMAIN_LIST_PREPEND d h name s = ((nErr, Some l), s')"
  shows "handle_map s l = None" and "handle_map s' = (handle_map s)(l \<mapsto> (d, h))"
proof -
  have l: "l = a_calloc e s" "a_calloc e s \<noteq> 0" and
    s': "s' = upd_dom d (\<lambda>D. count_domain_handle (\<lambda>c. c + 1) h (D\<lparr>ql := new_handle e d h name s # ql D\<rparr>)) s"
    using assms(4) by (auto simp: update_prepend split: if_splits)
  have ok': "handles_ok s'" by (rule prepend_ok [OF assms(1-3) _ assms(4)]) (simp add: is_prepend_def)
  have "l \<notin> live s" using assms(1) l unfolding fresh_calloc_def by metis
  moreover have "h_addr hi \<in> live s" if "x \<in> set all_domains" "hi \<in> set (ql (doms s x))" for x hi
    using that ql_entries unfolding live_def by fastforce
  ultimately have new: "h_addr hi \<noteq> l" if "x \<in> set all_domains" "hi \<in> set (ql (doms s x))" for x hi
    using that by metis
  show none: "handle_map s l = None"
  proof (rule ccontr)
    assume "handle_map s l \<noteq> None"
    then obtain x r where "handle_map s l = Some (x, r)" by auto
    then show False using new unfolding handle_map_eq [OF assms(2)] by blast
  qed
  have "handle_map s' k = Some (x, r) \<longleftrightarrow> ((handle_map s)(l \<mapsto> (d, h))) k = Some (x, r)" for k x r
  proof (cases "k = l")
    case True
    have "handle_map s' l = Some (x, r) \<longleftrightarrow> x = d \<and> r = h"
      unfolding handle_map_eq [OF ok'] using new assms(3) l(1) by (auto simp: s' split: if_splits)
    then show ?thesis using True by auto
  next
    case False
    then show ?thesis using assms(3) l(1) unfolding fun_upd_apply handle_map_eq [OF ok']
      by (auto simp: handle_map_eq [OF assms(2)] s' split: if_splits)
  qed
  then show "handle_map s' = (handle_map s)(l \<mapsto> (d, h))"
    by (intro ext) (metis not_None_eq old.prod.exhaust option.exhaust)
qed

lemma prepend_fail: "fastrpc_update_module_list e DOMAIN_LIST_PREPEND d h name s = ((nErr, None), s') \<Longrightarrow> s' = s"
  by (auto simp: update_prepend split: if_splits)

text \<open>The addition of a domain handle, in the form of the interface.\<close>

definition add_domain_handle :: "henv \<Rightarrow> string option \<Rightarrow> int \<times> u64 \<Rightarrow> apps \<Rightarrow> u64 option \<times> apps" where
  "add_domain_handle e name v s =
     (case fastrpc_update_module_list e DOMAIN_LIST_PREPEND (fst v) (snd v) name s of ((nErr, l), s) \<Rightarrow> (l, s))"

interpretation handle_dir: handle_directory "\<lambda>s. fresh_calloc e \<and> handles_ok s" handle_map
  "\<lambda>v. fst v \<in> set all_domains" "add_domain_handle e name" for e name
proof (unfold_locales, goal_cases)
  case (1 s v r s')
  then show ?case
    using prepend_ok [of e s "fst v" DOMAIN_LIST_PREPEND "snd v" name]
    by (auto simp: add_domain_handle_def is_prepend_def split: prod.splits)
next
  case (2 s v k s')
  then show ?case
    using handle_map_prepend [of e s "fst v" "snd v" name]
    by (auto simp: add_domain_handle_def split: prod.splits)
next
  case (3 s v s')
  then show ?case
    using prepend_fail [of e "fst v" "snd v" name s] by (auto simp: add_domain_handle_def split: prod.splits)
qed

text \<open>An allocator that keeps the promise: one of a few addresses, or no memory.\<close>

definition next_free :: "apps \<Rightarrow> u64" where
  "next_free s =
     (let used = concat (map (\<lambda>d. addrs (doms s d)) all_domains)
      in case filter (\<lambda>a. a \<notin> set used) [0x1000, 0x1040, 0x1080, 0x10c0] of [] \<Rightarrow> 0 | a # _ \<Rightarrow> a)"

lemma fresh_next_free: "a_calloc e = next_free \<Longrightarrow> fresh_calloc e"
proof -
  have "next_free s = 0 \<or> next_free s \<notin> live s \<and> next_free s \<noteq> -1" for s
  proof -
    let ?used = "concat (map (\<lambda>d. addrs (doms s d)) all_domains)"
    have used: "set ?used = live s" by (simp add: live_def)
    show ?thesis
    proof (cases "filter (\<lambda>a. a \<notin> set ?used) [0x1000, 0x1040, 0x1080, 0x10c0]")
      case Nil
      then show ?thesis by (simp only: next_free_def Let_def list.case simp_thms)
    next
      case (Cons a as)
      then have "a \<in> set (filter (\<lambda>a. a \<notin> set ?used) [0x1000, 0x1040, 0x1080, 0x10c0])" by simp
      then have "a \<notin> set ?used" "a \<in> {0x1000, 0x1040, 0x1080, 0x10c0}"
        unfolding set_filter by (blast, simp only: mem_Collect_eq list.set)
      moreover have "next_free s = a" using Cons by (simp only: next_free_def Let_def list.case)
      moreover have "a \<noteq> -1" using \<open>a \<in> {0x1000, 0x1040, 0x1080, 0x10c0}\<close> by auto
      ultimately show ?thesis using used by (simp only: simp_thms)
    qed
  qed
  then show "a_calloc e = next_free \<Longrightarrow> fresh_calloc e" by (simp add: fresh_calloc_def)
qed


section \<open>Static handles\<close>

lemma handle_map_same_ql: "(\<And>x. ql (doms s' x) = ql (doms s x)) \<Longrightarrow> handle_map s' = handle_map s"
  by (intro ext) (simp add: handle_map_def handle_at_def)

lemma static_handle_again:
  assumes put: "\<And>l D. get (put l D) = l" and "get_static_handle e get put c d s = (l, s')" and "l \<noteq> INVALID_HANDLE"
  shows "l \<noteq> 0 \<Longrightarrow> get_static_handle e get put c d s' = (l, s')"
  using assms by (auto simp: get_static_handle_def update_prepend split: if_splits)

lemma static_handle_fresh:
  assumes "fresh_calloc e" and "handles_ok s" and "d \<in> set all_domains" and "get (doms s d) = 0"
    and keeps: "\<And>l D. ql (put l D) = ql D \<and> entries (put l D) = entries D"
    and "get_static_handle e get put c d s = (l, s')" and "l \<noteq> INVALID_HANDLE"
  shows "handles_ok s' \<and> handle_map s' = (handle_map s)(l \<mapsto> (d, c)) \<and> l \<noteq> 0"
proof -
  obtain r s1 where u: "fastrpc_update_module_list e DOMAIN_LIST_PREPEND d c None s = (r, s1)" by fastforce
  have nz: "a_calloc e s \<noteq> 0" and s': "s' = upd_dom d (put l) s1" and r: "r = (0, Some l)"
    using assms(4,6,7) u by (auto simp: get_static_handle_def update_prepend split: if_splits)
  have ok1: "handles_ok s1" by (rule prepend_ok [OF assms(1-3) _ u]) (simp add: is_prepend_def)
  have m1: "handle_map s1 = (handle_map s)(l \<mapsto> (d, c))" using handle_map_prepend [OF assms(1-3)] u r by blast
  have "handles_ok s'" unfolding s' by (rule handles_ok_same_entries [OF ok1]) (simp add: keeps)
  moreover have "handle_map s' = handle_map s1"
    unfolding s' by (rule handle_map_same_ql) (simp add: keeps)
  moreover have "l \<noteq> 0" using u r nz by (auto simp: update_prepend)
  ultimately show ?thesis using m1 by simp
qed

section \<open>Counts\<close>

definition counts_ok :: "dom \<Rightarrow> bool" where
  "counts_ok D \<longleftrightarrow>
     constCount D = of_nat (length (filter (\<lambda>hi. IS_CONST_HANDLE (h_remote hi)) (ql D))) \<and>
     domainsCount D = of_nat (length (filter (\<lambda>hi. \<not> IS_CONST_HANDLE (h_remote hi)) (ql D))) \<and>
     nondomainsCount D = of_nat (length (nql D)) \<and> reverseCount D = of_nat (length (rql D))"

text \<open>The handle that a removal names is on the list of the request.\<close>

definition on_list :: "handle_list_update_id \<Rightarrow> u64 \<Rightarrow> dom \<Rightarrow> bool" where
  "on_list req h D \<longleftrightarrow>
     (case req of
        DOMAIN_LIST_DEQUEUE \<Rightarrow> \<exists>hi \<in> set (ql D). h_remote hi = h
      | NON_DOMAIN_LIST_DEQUEUE \<Rightarrow> \<exists>hi \<in> set (nql D). h_remote hi = h
      | REVERSE_HANDLE_LIST_DEQUEUE \<Rightarrow> \<exists>hi \<in> set (rql D). h_remote hi = h
      | _ \<Rightarrow> True)"

lemma length_del_first: "\<exists>x \<in> set xs. P x \<Longrightarrow> Suc (length (del_first P xs)) = length xs"
  by (induction xs) auto

lemma filter_del_first_other:
  "(\<And>x. P x \<Longrightarrow> \<not> Q x) \<Longrightarrow> filter Q (del_first P xs) = filter Q xs"
  by (induction xs) auto

lemma filter_del_first_same:
  "(\<And>x. P x \<Longrightarrow> Q x) \<Longrightarrow> \<exists>x \<in> set xs. P x \<Longrightarrow> Suc (length (filter Q (del_first P xs))) = length (filter Q xs)"
  by (induction xs) auto

lemma of_nat_pred: "Suc n = m \<Longrightarrow> (of_nat m :: u32) - 1 = of_nat n"
  by auto

lemma update_list_counts:
  assumes "\<And>d. counts_ok (doms s d)" and "on_list req h (doms s d)"
    and "fastrpc_update_module_list e req d h name s = (r, s')"
  shows "counts_ok (doms s' x)"
proof -
  have s': "s' = snd (fastrpc_update_module_list e req d h name s)" using assms(3) by simp
  let ?D = "doms s d"
  let ?P = "\<lambda>hi. h_remote hi = h"
  have c: "counts_ok ?D" by (rule assms(1))
  have const: "IS_CONST_HANDLE (h_remote hi) \<longleftrightarrow> IS_CONST_HANDLE h" if "?P hi" for hi using that by simp
  show ?thesis
  proof (cases req)
    case DOMAIN_LIST_DEQUEUE
    then have ex: "\<exists>hi \<in> set (ql ?D). ?P hi" using assms(2) by (simp add: on_list_def)
    show ?thesis
    proof (cases "IS_CONST_HANDLE h")
      case True
      have "Suc (length (filter (\<lambda>hi. IS_CONST_HANDLE (h_remote hi)) (del_first ?P (ql ?D)))) =
          length (filter (\<lambda>hi. IS_CONST_HANDLE (h_remote hi)) (ql ?D))"
        by (rule filter_del_first_same) (use True ex in auto)
      moreover have "filter (\<lambda>hi. \<not> IS_CONST_HANDLE (h_remote hi)) (del_first ?P (ql ?D)) =
          filter (\<lambda>hi. \<not> IS_CONST_HANDLE (h_remote hi)) (ql ?D)"
        by (rule filter_del_first_other) (use True in auto)
      ultimately show ?thesis
        using True c assms(1) [of x] unfolding s' DOMAIN_LIST_DEQUEUE update_dequeue
        by (auto simp: counts_ok_def count_domain_handle_def intro: of_nat_pred)
    next
      case False
      have "Suc (length (filter (\<lambda>hi. \<not> IS_CONST_HANDLE (h_remote hi)) (del_first ?P (ql ?D)))) =
          length (filter (\<lambda>hi. \<not> IS_CONST_HANDLE (h_remote hi)) (ql ?D))"
        by (rule filter_del_first_same) (use False ex in auto)
      moreover have "filter (\<lambda>hi. IS_CONST_HANDLE (h_remote hi)) (del_first ?P (ql ?D)) =
          filter (\<lambda>hi. IS_CONST_HANDLE (h_remote hi)) (ql ?D)"
        by (rule filter_del_first_other) (use False in auto)
      ultimately show ?thesis
        using False c assms(1) [of x] unfolding s' DOMAIN_LIST_DEQUEUE update_dequeue
        by (auto simp: counts_ok_def count_domain_handle_def intro: of_nat_pred)
    qed
  next
    case NON_DOMAIN_LIST_DEQUEUE
    then have "Suc (length (del_first ?P (nql ?D))) = length (nql ?D)"
      using assms(2) by (intro length_del_first) (simp add: on_list_def)
    then show ?thesis
      using c assms(1) [of x] unfolding s' NON_DOMAIN_LIST_DEQUEUE update_dequeue
      by (auto simp: counts_ok_def intro: of_nat_pred)
  next
    case REVERSE_HANDLE_LIST_DEQUEUE
    then have "Suc (length (del_first ?P (rql ?D))) = length (rql ?D)"
      using assms(2) by (intro length_del_first) (simp add: on_list_def)
    then show ?thesis
      using c assms(1) [of x] unfolding s' REVERSE_HANDLE_LIST_DEQUEUE update_dequeue
      by (auto simp: counts_ok_def intro: of_nat_pred)
  qed (use assms(1) [of x] c in \<open>auto simp: s' update_prepend counts_ok_def count_domain_handle_def\<close>)
qed

section \<open>Clearing the reverse handles\<close>

lemma rql_after_close:
  "length (rql (doms (snd (close_reverse_handle e h s)) d)) \<le> length (rql (doms s d))"
proof -
  have "length (del_first P xs) \<le> length xs" for P and xs :: "handle_info list" by (induction xs) auto
  then show ?thesis
    by (auto simp: close_reverse_handle_def apps_remotectl_close_def update_dequeue Let_def split: prod.splits)
qed

lemma clear_reverse_empties: "length (rql (doms s d)) \<le> n \<Longrightarrow> rql (doms (clear_reverse e d n s) d) = []"
proof (induction n arbitrary: s)
  case 0
  then show ?case by simp
next
  case (Suc n)
  show ?case
  proof (cases "rql (doms s d)")
    case Nil
    then show ?thesis by simp
  next
    case (Cons hi rest)
    let ?s = "upd_dom d (\<lambda>D. D\<lparr>rql := rest\<rparr>) s"
    have "length (rql (doms ?s d)) \<le> n" using Suc.prems Cons by simp
    then have "length (rql (doms (snd (close_reverse_handle e (h_addr hi) ?s)) d)) \<le> n"
      using rql_after_close [of e "h_addr hi" ?s d] by linarith
    then show ?thesis using Suc.IH Cons by simp
  qed
qed


section \<open>Properties\<close>

text \<open>C12: the local handles that a sequence of module openings hands out are new and pairwise different,
  and at its end each of them resolves to the domain and the remote handle it was made for.\<close>

theorem opened_handles_resolve:
  assumes "fresh_calloc e" and "handles_ok s" and "\<forall>v \<in> set vs. fst v \<in> set all_domains"
    and "add_seq (add_domain_handle e name) vs s = (ks, s')"
  shows "handles_ok s' \<and>
    (\<forall>i < length vs. \<forall>l. ks ! i = Some l \<longrightarrow>
       get_domain_from_handle l s = (AEE_EINVHANDLE, None) \<and>
       get_domain_from_handle l s' = (AEE_SUCCESS, Some (fst (vs ! i))) \<and>
       get_handle_remote l s' = (AEE_SUCCESS, Some (snd (vs ! i)))) \<and>
    (\<forall>i < length vs. \<forall>j < length vs. i \<noteq> j \<longrightarrow> ks ! i = None \<or> ks ! i \<noteq> ks ! j)"
proof -
  note r = handle_dir.add_seq_resolves [OF conjI [OF assms(1,2)] assms(3,4)]
  then have ok: "handles_ok s'" by blast
  have "get_domain_from_handle l s = (AEE_EINVHANDLE, None) \<and>
       get_domain_from_handle l s' = (AEE_SUCCESS, Some (fst (vs ! i))) \<and>
       get_handle_remote l s' = (AEE_SUCCESS, Some (snd (vs ! i)))"
    if "i < length vs" "ks ! i = Some l" for i l
  proof -
    have "handle_map s l = None" "handle_map s' l = Some (vs ! i)" using r that by blast+
    then show ?thesis
      by (simp add: get_domain_map [OF assms(2)] get_domain_map [OF ok] get_remote_map [OF ok] split_beta)
  qed
  then show ?thesis using r ok by blast
qed

definition no_thread_params :: fastrpc_thread_params where
  "no_thread_params = \<lparr>thread_priority = 0xC0, stack_size = 16384, reqID = 0, update_requested = False\<rparr>"

text \<open>A domain as \<^verbatim>\<open>fastrpc_apps_user_init\<close> leaves it.\<close>

definition clean_dom :: dom where
  "clean_dom = \<lparr>ql = [], nql = [], rql = [], constCount = 0, domainsCount = 0, nondomainsCount = 0, reverseCount = 0,
     dsppd = 7, dsppdname = [], sessionname = [], setmode = False, mode = 0, info = -1, cphandle = 0, msghandle = 0,
     listenerhandle = 0, remotectlhandle = 0, adspperfhandle = 0, procattrs = 0, adaptive_qos = False,
     th_params = no_thread_params, unsigned_module = 0, pd_dump = False, first_revrpc_done = False,
     disable_exit_logs = False, trace_marker_fd = -1, dma_handle_reverse_rpc_map_capability = False,
     pd_initmem_size = 0x300000, is_session_reserved = False\<rparr>"


definition no_config :: proc_config where
  "no_config = \<lparr>c_attrs = 0, c_attrs_persistent = 0, c_pddump = False, c_debug_pddump = False, c_perfkernel = False,
     c_perfdsp = False, c_iregion = False, c_qtf = False, c_caller_level = 0, c_uaf = False, c_debug_logging = False,
     c_system_library = False, c_sysmon = False, c_logpacket = False, c_leak_detect = 0, c_stack_num = 0, c_errcodes = 0\<rparr>"

definition demo_henv :: henv where
  "demo_henv = \<lparr>a_calloc = next_free, a_namealloc = True, a_mod = demo_mod_env, a_mem = demo_env,
     a_alloc = (\<lambda>_ _. True), a_written = (\<lambda>_. True), a_ioctl = (\<lambda>_ _. (0, 0, [0x100000, 0])), perf_v2_kernel = False, perf_v2_dsp = False,
     a_comp = (\<lambda>_ _. 0), a_open = (\<lambda>_. (7, 0)), a_init = (\<lambda>_ _. (0, 0)), a_shell = Shell 11, a_static_file = True, a_close = 0,
     a_stack = (\<lambda>i. 0x7f000000 + of_nat i * 0x100), a_config = no_config, a_eventfd = (0, Some 21)\<rparr>"

definition demo_handles :: apps where
  "demo_handles = \<lparr>am = demo_st, doms = (\<lambda>_. clean_dom), mods = demo_mods, wakelock = wake_start,
     fastrpc_wake_lock_enable = (\<lambda>_. 0), sent = [], calls = [], notif_flag = False\<rparr>"

lemma demo_henv_fresh: "fresh_calloc demo_henv"
  by (rule fresh_next_free) (simp add: demo_henv_def)

lemma demo_handles_ok: "handles_ok demo_handles"
  by (simp add: handles_ok_def demo_handles_def dom_ok_def clean_dom_def entries_def)

theorem opened_handles_resolve_witness:
  "\<exists>ks s'. add_seq (add_domain_handle demo_henv None) [(3, 0x100000), (0, 0x200000)] demo_handles = (ks, s') \<and>
    ks = [Some 0x1000, Some 0x1040] \<and> get_domain_from_handle 0x1000 s' = (AEE_SUCCESS, Some 3) \<and>
    get_handle_remote 0x1040 s' = (AEE_SUCCESS, Some 0x200000)"
proof -
  let ?vs = "[(3, 0x100000), (0, 0x200000)] :: (int \<times> u64) list"
  obtain ks s' where r: "add_seq (add_domain_handle demo_henv None) ?vs demo_handles = (ks, s')" by fastforce
  have "fst (add_seq (add_domain_handle demo_henv None) ?vs demo_handles) = [Some 0x1000, Some 0x1040]" by code_simp
  then have ks: "ks = [Some 0x1000, Some 0x1040]" using r by simp
  have "\<forall>v \<in> set ?vs. fst v \<in> set all_domains" by code_simp
  note t = opened_handles_resolve [OF demo_henv_fresh demo_handles_ok this r]
  have "get_domain_from_handle 0x1000 s' = (AEE_SUCCESS, Some 3)" "get_handle_remote 0x1040 s' = (AEE_SUCCESS, Some 0x200000)"
    using t ks by (auto simp: nth_Cons' dest: spec [of _ 0] spec [of _ "Suc 0"])
  then show ?thesis using r ks by blast
qed

text \<open>C27: as long as every removal names a handle that is on its list, the counts of every domain are the
  numbers of its constant, other, non-domain and reverse handles.\<close>

theorem handle_counts_exact:
  assumes "\<And>d. counts_ok (doms s d)" and "on_list req h (doms s d)"
    and "fastrpc_update_module_list e req d h name s = (r, s')"
  shows "counts_ok (doms s' x)"
  using assms by (rule update_list_counts)

theorem handle_counts_exact_witness:
  "counts_ok (doms (snd (fastrpc_update_module_list demo_henv DOMAIN_LIST_PREPEND 3 0x100000 None demo_handles)) 3)"
proof (rule handle_counts_exact)
  show "counts_ok (doms demo_handles d)" for d by (simp add: counts_ok_def demo_handles_def clean_dom_def)
  show "on_list DOMAIN_LIST_PREPEND 0x100000 (doms demo_handles 3)" by (simp add: on_list_def)
qed (rule surjective_pairing)

end
