(* ===== verification/Invoke.thy ===== *)
theory Invoke
  imports Handles
begin

text \<open>
  Invocation of a method on the DSP, \<^verbatim>\<open>src/fastrpc_apps_user.c\<close>: \<^verbatim>\<open>remote_handle_invoke_domain\<close>, which
  turns the arguments of the caller into the request of the driver (descriptors and attributes of
  registered buffers, DMA handles, checksums, wake lock), and its two entry points for remote and for
  local handles. Trace markers, performance records, the timeout timer and the log are not part of the
  state. A write behind the end of a buffer is the result \<open>None\<close>.
\<close>

abbreviation (input) ECONNRESET :: int where "ECONNRESET \<equiv> 104"
abbreviation (input) FASTRPC_MODE_CRC :: u32 where "FASTRPC_MODE_CRC \<equiv> 4"
abbreviation (input) FASTRPC_MODE_PERF_KERNEL :: u32 where "FASTRPC_MODE_PERF_KERNEL \<equiv> 0x200"
abbreviation (input) FASTRPC_MODE_PERF_DSP :: u32 where "FASTRPC_MODE_PERF_DSP \<equiv> 0x400"
abbreviation (input) FASTRPC_ATTR_NOVA :: u32 where "FASTRPC_ATTR_NOVA \<equiv> 256"
abbreviation (input) M_CRCLIST :: nat where "M_CRCLIST \<equiv> 64"

section \<open>Scalars and handles\<close>

definition REMOTE_SCALARS_METHOD :: "u32 \<Rightarrow> nat" where
  "REMOTE_SCALARS_METHOD sc = unat (drop_bit 24 sc AND 0x1f)"

definition REMOTE_SCALARS_INBUFS :: "u32 \<Rightarrow> nat" where
  "REMOTE_SCALARS_INBUFS sc = unat (drop_bit 16 sc AND 0xff)"

definition REMOTE_SCALARS_OUTBUFS :: "u32 \<Rightarrow> nat" where
  "REMOTE_SCALARS_OUTBUFS sc = unat (drop_bit 8 sc AND 0xff)"

definition REMOTE_SCALARS_INHANDLES :: "u32 \<Rightarrow> nat" where
  "REMOTE_SCALARS_INHANDLES sc = unat (drop_bit 4 sc AND 0x0f)"

definition REMOTE_SCALARS_OUTHANDLES :: "u32 \<Rightarrow> nat" where
  "REMOTE_SCALARS_OUTHANDLES sc = unat (sc AND 0x0f)"

definition REMOTE_SCALARS_MAKEX :: "u32 \<Rightarrow> u32 \<Rightarrow> u32 \<Rightarrow> u32 \<Rightarrow> u32 \<Rightarrow> u32 \<Rightarrow> u32" where
  "REMOTE_SCALARS_MAKEX nAttr nMethod nIn nOut noIn noOut =
     push_bit 29 (nAttr AND 0x7) OR push_bit 24 (nMethod AND 0x1f) OR push_bit 16 (nIn AND 0xff) OR
     push_bit 8 (nOut AND 0xff) OR push_bit 4 (noIn AND 0x0f) OR (noOut AND 0x0f)"

definition scalars_bufs :: "u32 \<Rightarrow> nat" where
  "scalars_bufs sc = REMOTE_SCALARS_INBUFS sc + REMOTE_SCALARS_OUTBUFS sc"

definition scalars_handles :: "u32 \<Rightarrow> nat" where
  "scalars_handles sc = REMOTE_SCALARS_INHANDLES sc + REMOTE_SCALARS_OUTHANDLES sc"

definition IS_STATIC_HANDLE :: "u32 \<Rightarrow> bool" where
  "IS_STATIC_HANDLE handle \<longleftrightarrow> handle \<le> 10"

definition IS_REVERSE_RPC_CALL :: "u32 \<Rightarrow> u32 \<Rightarrow> bool" where
  "IS_REVERSE_RPC_CALL handle sc \<longleftrightarrow> handle = 3 \<and> sc = 0x04020200"

section \<open>Arguments\<close>

text \<open>The two views of the union \<^verbatim>\<open>remote_arg\<close> that an invocation reads.\<close>

record remote_arg =
  buf_pv :: u64
  buf_nLen :: u64
  dma_fd :: int
  dma_offset :: u32

datatype fastrpc_invoke_type = INVOKE | INVOKE_ATTRS | INVOKE_FD | INVOKE_CRC | INVOKE_PERF

text \<open>The attributes of a registered buffer that are passed on, in the order of the tests:
  \<^verbatim>\<open>NON_COHERENT\<close>, \<^verbatim>\<open>COHERENT\<close>, \<^verbatim>\<open>FORCE_NOFLUSH\<close>, \<^verbatim>\<open>FORCE_NOINVALIDATE\<close>, \<^verbatim>\<open>KEEP_MAP\<close>.\<close>

definition passed_attrs :: "int list" where
  "passed_attrs = [2, 4, 32, 64, 8]"

definition append_attrs :: "int \<Rightarrow> fastrpc_invoke_type \<times> fastrpc_invoke_args \<Rightarrow> fastrpc_invoke_type \<times> fastrpc_invoke_args" where
  "append_attrs attr acc =
     fold (\<lambda>f (req, a). if attr AND f \<noteq> 0 then (INVOKE_ATTRS, a\<lparr>ia_attr := ia_attr a OR word_of_int f\<rparr>) else (req, a))
       passed_attrs acc"

text \<open>One round of the loop over the buffers.\<close>

definition set_buffer ::
  "memst \<Rightarrow> remote_arg \<Rightarrow> fastrpc_invoke_type \<Rightarrow> int + fastrpc_invoke_type \<times> fastrpc_invoke_args" where
  "set_buffer st p req =
     (let a = \<lparr>ia_ptr = buf_pv p, ia_length = buf_nLen p, ia_fd = -1, ia_attr = 0\<rparr>
      in if buf_nLen p = 0 then Inr (req, a)
         else case fdlist_fd_from_buf (buf_pv p) (int32 (uint (buf_nLen p))) st of (nErr, out, ofd) \<Rightarrow>
           if nErr \<noteq> 0 then Inl nErr
           else let (nova, attr) = (case out of Some (nova, base, attr) \<Rightarrow> (nova, attr) | None \<Rightarrow> (0, 0));
                    fd = (case ofd of Some fd \<Rightarrow> fd | None \<Rightarrow> -1);
                    (req, a) = (if fd \<noteq> -1 then (INVOKE_FD, a\<lparr>ia_fd := fd\<rparr>) else (req, a));
                    (req, a) = (if nova \<noteq> 0 then (INVOKE_ATTRS, a\<lparr>ia_attr := ia_attr a OR FASTRPC_ATTR_NOVA\<rparr>) else (req, a))
                in Inr (append_attrs attr (req, a)))"

fun set_buffers ::
  "memst \<Rightarrow> remote_arg list \<Rightarrow> fastrpc_invoke_type \<Rightarrow> int + fastrpc_invoke_type \<times> fastrpc_invoke_args list" where
  "set_buffers st [] req = Inr (req, [])"
| "set_buffers st (p # ps) req =
     (case set_buffer st p req of
        Inl nErr \<Rightarrow> Inl nErr
      | Inr (req, a) \<Rightarrow>
          (case set_buffers st ps req of Inl nErr \<Rightarrow> Inl nErr | Inr (req, as) \<Rightarrow> Inr (req, a # as)))"

text \<open>One round of the loop over the DMA handles: the handle is unregistered, and registered again when
  the remote side will ask for it.\<close>

definition set_dma_handle :: "bool \<Rightarrow> remote_arg \<Rightarrow> memst \<Rightarrow> fastrpc_invoke_args \<times> memst" where
  "set_dma_handle cap p st =
     (case unregister_dma_handle (dma_fd p) st of ((len, attr), st) \<Rightarrow>
        let st = (if cap \<and> attr AND FASTRPC_ATTR_NOMAP \<noteq> 0
                  then snd (remote_register_dma_handle_attr (dma_fd p) len FASTRPC_ATTR_NOMAP st) else st)
        in (\<lparr>ia_ptr = ucast (dma_offset p), ia_length = ucast len, ia_fd = dma_fd p, ia_attr = attr OR FASTRPC_ATTR_NOVA\<rparr>, st))"

fun set_dma_handles :: "bool \<Rightarrow> remote_arg list \<Rightarrow> memst \<Rightarrow> fastrpc_invoke_args list \<times> memst" where
  "set_dma_handles cap [] st = ([], st)"
| "set_dma_handles cap (p # ps) st =
     (case set_dma_handle cap p st of (a, st) \<Rightarrow> case set_dma_handles cap ps st of (as, st) \<Rightarrow> (a # as, st))"

text \<open>From the test of \<^verbatim>\<open>pra\<close> to the end of the second loop.\<close>

definition marshal_args ::
  "int \<Rightarrow> u32 \<Rightarrow> remote_arg list option \<Rightarrow> apps \<Rightarrow> (int + fastrpc_invoke_type \<times> fastrpc_invoke_args list) \<times> apps" where
  "marshal_args domain sc pra s =
     (let bufs = scalars_bufs sc; total = bufs + scalars_handles sc; ps = (case pra of Some ps \<Rightarrow> ps | None \<Rightarrow> [])
      in if pra = None \<and> total > 0 then (Inl AEE_EBADPARM, s)
         else case set_buffers (am s) (take bufs ps) INVOKE of
           Inl nErr \<Rightarrow> (Inl nErr, s)
         | Inr (req, as) \<Rightarrow>
             (case set_dma_handles (dma_handle_reverse_rpc_map_capability (doms s domain)) (drop bufs (take total ps)) (am s) of
                (hs, st) \<Rightarrow> (Inr (if hs = [] then req else INVOKE_ATTRS, as @ hs), s\<lparr>am := st\<rparr>)))"

section \<open>The wake lock\<close>

definition is_first_reverse_rpc_call :: "int \<Rightarrow> u32 \<Rightarrow> u32 \<Rightarrow> apps \<Rightarrow> bool \<times> apps" where
  "is_first_reverse_rpc_call domain handle sc s =
     (if IS_REVERSE_RPC_CALL handle sc \<and> (case hlist (sess (am s)) of Some h \<Rightarrow> dev (h domain) \<noteq> -1 | None \<Rightarrow> False)
         \<and> \<not> first_revrpc_done (doms s domain)
      then (True, upd_dom domain (\<lambda>d. d\<lparr>first_revrpc_done := True\<rparr>) s) else (False, s))"

definition take_wake_lock :: "henv \<Rightarrow> apps \<Rightarrow> bool \<times> apps" where
  "take_wake_lock e s =
     (case fastrpc_wake_lock (a_written e) (wakelock s) of (nErr, w) \<Rightarrow> (nErr = 0, s\<lparr>wakelock := w\<rparr>))"

definition drop_wake_lock :: "henv \<Rightarrow> apps \<Rightarrow> apps" where
  "drop_wake_lock e s = s\<lparr>wakelock := snd (fastrpc_wake_unlock (a_written e) (wakelock s))\<rparr>"

definition invoke_wake_begin :: "henv \<Rightarrow> int \<Rightarrow> u32 \<Rightarrow> u32 \<Rightarrow> apps \<Rightarrow> bool \<times> apps" where
  "invoke_wake_begin e domain handle sc s =
     (if fastrpc_wake_lock_enable s domain = 0 then (False, s)
      else if \<not> IS_REVERSE_RPC_CALL handle sc then take_wake_lock e s
      else case is_first_reverse_rpc_call domain handle sc s of (first, s) \<Rightarrow>
             if first then take_wake_lock e s else (True, s))"

section \<open>The driver\<close>

text \<open>\<^verbatim>\<open>ioctl_setmode\<close> and \<^verbatim>\<open>ioctl_invoke\<close> of \<^verbatim>\<open>src/fastrpc_ioctl.c\<close>. The driver is not asked for the two request
  types that it does not have.\<close>

definition ioctl_setmode :: "int \<Rightarrow> u32 \<Rightarrow> int" where
  "ioctl_setmode d m = (if m = 4 then AEE_SUCCESS else AEE_EUNSUPPORTED)"

definition ioctl_invoke ::
  "henv \<Rightarrow> int \<Rightarrow> fastrpc_invoke_type \<Rightarrow> u32 \<Rightarrow> u32 \<Rightarrow> fastrpc_invoke_args list \<Rightarrow> apps \<Rightarrow> (int \<times> u32 list) \<times> apps" where
  "ioctl_invoke e d req handle sc args s =
     (if req \<in> {INVOKE, INVOKE_ATTRS, INVOKE_FD}
      then let inv = \<lparr>ki_dev = d, ki_handle = handle, ki_sc = sc, ki_args = args\<rparr>
           in case a_ioctl e s inv of (ioErr, en, out) \<Rightarrow>
                ((ioErr, out), s\<lparr>sent := sent s @ [inv], am := (am s)\<lparr>errno := en\<rparr>\<rparr>)
      else ((AEE_EUNSUPPORTED, []), s))"

section \<open>Invocation\<close>

definition crc_enabled :: "int \<Rightarrow> u32 \<Rightarrow> apps \<Rightarrow> bool" where
  "crc_enabled domain handle s \<longleftrightarrow> procattrs (doms s domain) AND FASTRPC_MODE_CRC \<noteq> 0 \<and> \<not> IS_STATIC_HANDLE handle"

definition kernel_perf_enabled :: "henv \<Rightarrow> int \<Rightarrow> u32 \<Rightarrow> apps \<Rightarrow> bool" where
  "kernel_perf_enabled e domain handle s \<longleftrightarrow>
     procattrs (doms s domain) AND FASTRPC_MODE_PERF_KERNEL \<noteq> 0 \<and> perf_v2_kernel e \<and> \<not> IS_STATIC_HANDLE handle"

definition dsp_perf_enabled :: "henv \<Rightarrow> int \<Rightarrow> u32 \<Rightarrow> apps \<Rightarrow> bool" where
  "dsp_perf_enabled e domain handle s \<longleftrightarrow>
     procattrs (doms s domain) AND FASTRPC_MODE_PERF_DSP \<noteq> 0 \<and> perf_v2_dsp e \<and> \<not> IS_STATIC_HANDLE handle"

text \<open>The buffers for checksums and performance counters: an allocation that fails ends the call.\<close>

definition invoke_extras :: "henv \<Rightarrow> int \<Rightarrow> u32 \<Rightarrow> fastrpc_invoke_type \<Rightarrow> apps \<Rightarrow> int + fastrpc_invoke_type" where
  "invoke_extras e domain handle req s =
     (if crc_enabled domain handle s \<and> \<not> (a_alloc e s 1 \<and> a_alloc e s 2) then Inl AEE_ENOMEMORY
      else let req = (if crc_enabled domain handle s then INVOKE_CRC else req)
           in if kernel_perf_enabled e domain handle s \<and> \<not> a_alloc e s 3 then Inl AEE_ENOMEMORY
              else let req = (if kernel_perf_enabled e domain handle s then INVOKE_PERF else req)
                   in if dsp_perf_enabled e domain handle s \<and> \<not> a_alloc e s 4 then Inl AEE_ENOMEMORY
                      else Inr (if dsp_perf_enabled e domain handle s then INVOKE_PERF else req))"

text \<open>The label \<^verbatim>\<open>bail\<close>.\<close>

definition invoke_bail :: "henv \<Rightarrow> u32 \<Rightarrow> u32 \<Rightarrow> bool \<Rightarrow> int \<Rightarrow> apps \<Rightarrow> int \<times> apps" where
  "invoke_bail e handle sc wake_lock nErr s =
     (let s = (if wake_lock \<and> \<not> IS_REVERSE_RPC_CALL handle sc then drop_wake_lock e s else s)
      in (if nErr = -1 \<and> errno (am s) = ECONNRESET then AEE_ECONNRESET else nErr, s))"

text \<open>From the marshalled arguments on. The checksums of the output buffers are stored without a check of
  their index.\<close>

definition invoke_send ::
  "henv \<Rightarrow> int \<Rightarrow> int \<Rightarrow> u32 \<Rightarrow> u32 \<Rightarrow> fastrpc_invoke_type \<Rightarrow> fastrpc_invoke_args list \<Rightarrow> bool \<Rightarrow> apps \<Rightarrow>
     ((int \<times> u32 list) \<times> apps) option" where
  "invoke_send e domain d handle sc req args wake_lock s =
     (let s = (if wake_lock then drop_wake_lock e s else s)
      in case ioctl_invoke e d req handle sc args s of ((ioErr, out), s) \<Rightarrow>
           let nErr = (if ioErr \<noteq> 0 then convert_kernel_to_user_error ioErr (errno (am s)) else ioErr);
               (wake_lock, s) = (if fastrpc_wake_lock_enable s domain \<noteq> 0 then take_wake_lock e s else (False, s))
           in if crc_enabled domain handle s \<and> scalars_bufs sc > M_CRCLIST \<and> REMOTE_SCALARS_OUTBUFS sc > 0 then None
              else (case invoke_bail e handle sc wake_lock nErr s of (nErr, s) \<Rightarrow> Some ((nErr, out), s)))"

text \<open>The allocation of \<^verbatim>\<open>INITIALIZE_REMOTE_ARGS\<close> (number 0) jumps to \<^verbatim>\<open>bail\<close> without setting \<^verbatim>\<open>nErr\<close>. Returns the
  error, the words that the remote side returned and the state.\<close>

definition remote_handle_invoke_domain ::
  "henv \<Rightarrow> int \<Rightarrow> u32 \<Rightarrow> u32 \<Rightarrow> remote_arg list option \<Rightarrow> apps \<Rightarrow> ((int \<times> u32 list) \<times> apps) option" where
  "remote_handle_invoke_domain e domain handle sc pra s =
     (let bail = (\<lambda>wake_lock nErr s. case invoke_bail e handle sc wake_lock nErr s of (nErr, s) \<Rightarrow> Some ((nErr, []), s))
      in case fastrpc_session_dev domain (sess (am s)) of (nErr, d) \<Rightarrow>
        if nErr \<noteq> 0 then bail False nErr s
        else case invoke_wake_begin e domain handle sc (s\<lparr>am := (am s)\<lparr>errno := 0\<rparr>\<rparr>) of (wake_lock, s) \<Rightarrow>
          let mErr = (if setmode (doms s domain) then ioctl_setmode d (mode (doms s domain)) else 0);
              s = upd_dom domain (\<lambda>D. D\<lparr>setmode := False\<rparr>) s
          in if mErr \<noteq> 0 then bail wake_lock (convert_kernel_to_user_error mErr (errno (am s))) s
             else if \<not> a_alloc e s 0 then bail wake_lock 0 s
             else case marshal_args domain sc pra s of
               (Inl nErr, s) \<Rightarrow> bail wake_lock nErr s
             | (Inr (req, args), s) \<Rightarrow>
                 (case invoke_extras e domain handle req s of
                    Inl nErr \<Rightarrow> bail wake_lock nErr s
                  | Inr req \<Rightarrow> invoke_send e domain d handle sc req args wake_lock s))"

section \<open>Entry points\<close>

text \<open>A domain that is not valid counts as exiting.\<close>

definition is_process_exiting :: "int \<Rightarrow> apps \<Rightarrow> bool" where
  "is_process_exiting domain s \<longleftrightarrow>
     (if \<not> IS_VALID_EFFECTIVE_DOMAIN_ID domain then True
      else case hlist (sess (am s)) of
        None \<Rightarrow> True
      | Some h \<Rightarrow> state (h domain) \<noteq> FASTRPC_DOMAIN_STATE_INIT)"

text \<open>The common end of the two entry points: the error of a call on a domain that is exiting is dropped.\<close>

definition invoke_result :: "int \<Rightarrow> int \<Rightarrow> apps \<Rightarrow> int" where
  "invoke_result domain nErr s = (if nErr \<noteq> 0 \<and> is_process_exiting domain s then 0 else nErr)"

definition get_ref :: "int \<Rightarrow> apps \<Rightarrow> int \<times> apps" where
  "get_ref domain s =
     (case fastrpc_session_get domain (sess (am s)) of (nErr, se) \<Rightarrow> (nErr, upd_sess (\<lambda>_. se) s))"

definition put_ref :: "int \<Rightarrow> apps \<Rightarrow> apps" where
  "put_ref domain s = upd_sess (\<lambda>se. snd (fastrpc_session_put domain se)) s"

definition remote_handle_invoke ::
  "henv \<Rightarrow> u32 \<Rightarrow> u32 \<Rightarrow> remote_arg list option \<Rightarrow> apps \<Rightarrow> ((int \<times> u32 list) \<times> apps) option" where
  "remote_handle_invoke e handle sc pra s =
     (let fin = (\<lambda>domain nErr out s. Some ((invoke_result domain nErr s, out), s))
      in if fastrpc_init_once (am s) \<noteq> 0 then fin (-1) (fastrpc_init_once (am s)) [] s
         else if handle = -1 then fin (-1) AEE_EINVHANDLE [] s
         else let domain = get_current_domain (default_domain (a_mem e)) (sess (am s))
              in case get_ref domain s of (nErr, s) \<Rightarrow>
                   if nErr \<noteq> 0 then fin domain nErr [] s
                   else map_option (\<lambda>((nErr, out), s). let s = put_ref domain s in ((invoke_result domain nErr s, out), s))
                          (remote_handle_invoke_domain e domain handle sc pra s))"

definition remote_handle64_invoke ::
  "henv \<Rightarrow> u64 \<Rightarrow> u32 \<Rightarrow> remote_arg list option \<Rightarrow> apps \<Rightarrow> ((int \<times> u32 list) \<times> apps) option" where
  "remote_handle64_invoke e local sc pra s =
     (let fin = (\<lambda>domain nErr out s. Some ((invoke_result domain nErr s, out), s))
      in if IS_STATICPD_HANDLE local then fin (-1) AEE_EINVHANDLE [] s
         else if fastrpc_init_once (am s) \<noteq> 0 then fin (-1) (fastrpc_init_once (am s)) [] s
         else if local = -1 then fin (-1) AEE_EINVHANDLE [] s
         else case get_domain_from_handle local s of
           (nErr, None) \<Rightarrow> fin (-1) nErr [] s
         | (nErr, Some domain) \<Rightarrow>
             (case get_ref domain s of (nErr, s) \<Rightarrow>
                if nErr \<noteq> 0 then fin domain nErr [] s
                else case get_handle_remote local s of
                  (nErr, None) \<Rightarrow> fin domain nErr [] (put_ref domain s)
                | (nErr, Some remote) \<Rightarrow>
                    map_option (\<lambda>((nErr, out), s). let s = put_ref domain s in ((invoke_result domain nErr s, out), s))
                      (remote_handle_invoke_domain e domain (ucast remote) sc pra s)))"

end
