(* ===== verification/InvokeProps.thy ===== *)
theory InvokeProps
  imports HandleProps Invoke
begin

text \<open>
  What an invocation does: the request that reaches the driver carries the arguments of the caller, the
  session references and the wake lock are balanced, and what the entry points report when there is
  nothing to call.
\<close>

section \<open>Scalars\<close>

lemma scalar_masks: "(0x7 :: u32) = mask 3" "(0x1f :: u32) = mask 5" "(0xff :: u32) = mask 8" "(0x0f :: u32) = mask 4"
  by (simp_all add: mask_eq_exp_minus_1)

lemmas scalar_bits = bit_and_iff bit_or_iff bit_push_bit_iff bit_drop_bit_eq bit_mask_iff comp_def

lemma scalars_fields:
  "REMOTE_SCALARS_METHOD (REMOTE_SCALARS_MAKEX a m i ou hi ho) = unat (m AND 0x1f)"
  "REMOTE_SCALARS_INBUFS (REMOTE_SCALARS_MAKEX a m i ou hi ho) = unat (i AND 0xff)"
  "REMOTE_SCALARS_OUTBUFS (REMOTE_SCALARS_MAKEX a m i ou hi ho) = unat (ou AND 0xff)"
  "REMOTE_SCALARS_INHANDLES (REMOTE_SCALARS_MAKEX a m i ou hi ho) = unat (hi AND 0x0f)"
  "REMOTE_SCALARS_OUTHANDLES (REMOTE_SCALARS_MAKEX a m i ou hi ho) = unat (ho AND 0x0f)"
  unfolding REMOTE_SCALARS_MAKEX_def REMOTE_SCALARS_METHOD_def REMOTE_SCALARS_INBUFS_def REMOTE_SCALARS_OUTBUFS_def
    REMOTE_SCALARS_INHANDLES_def REMOTE_SCALARS_OUTHANDLES_def scalar_masks
  by ((rule arg_cong [of _ _ unat], rule bit_word_eqI, simp only: scalar_bits, simp cong: conj_cong, (rule iffI; force))+)

section \<open>The arguments of the request\<close>

text \<open>An argument describes a buffer of the caller: its address, its length and the descriptor of the first registered
  region that holds its first byte, \<open>-1\<close> when there is none; the region holds the last byte, too.\<close>

definition region_of :: "memst \<Rightarrow> remote_arg \<Rightarrow> mem_to_fd option" where
  "region_of st p = find (\<lambda>t. t_fd t \<noteq> -1 \<and> STD_BETWEEN (buf_pv p) (t_buf t) (t_buf t + t_size t)) (fdlist st)"

definition buffer_arg :: "memst \<Rightarrow> remote_arg \<Rightarrow> fastrpc_invoke_args \<Rightarrow> bool" where
  "buffer_arg st p a \<longleftrightarrow> ia_ptr a = buf_pv p \<and> ia_length a = buf_nLen p \<and>
     (case (if buf_nLen p = 0 then None else region_of st p) of
        None \<Rightarrow> ia_fd a = -1
      | Some t \<Rightarrow> ia_fd a = t_fd t \<and>
          STD_BETWEEN (buf_pv p + word_of_int (int32 (uint (buf_nLen p))) - 1) (t_buf t) (t_buf t + t_size t))"

lemma fdlist_scan_fd:
  assumes "fdlist_scan buf lst (-1) out ts = (0, r, Some fd)"
  shows "case find (\<lambda>t. t_fd t \<noteq> -1 \<and> STD_BETWEEN buf (t_buf t) (t_buf t + t_size t)) ts of
      None \<Rightarrow> fd = -1
    | Some t \<Rightarrow> fd = t_fd t \<and> STD_BETWEEN lst (t_buf t) (t_buf t + t_size t)"
  using assms
proof (induction ts arbitrary: out)
  case (Cons t ts)
  show ?case
  proof (cases "t_fd t \<noteq> -1 \<and> STD_BETWEEN buf (t_buf t) (t_buf t + t_size t)")
    case True
    with Cons.prems show ?thesis by (auto simp: fdlist_scan_found split: if_splits)
  next
    case False
    with Cons show ?thesis by (auto split: if_splits)
  qed
qed simp

lemma fdlist_scan_Some: "fdlist_scan buf lst fd out ts = (0, r, x) \<Longrightarrow> x \<noteq> None"
  by (induction buf lst fd out ts rule: fdlist_scan.induct) (auto split: if_splits)

lemma append_attrs_keeps:
  "ia_ptr (snd (append_attrs attr (req, a))) = ia_ptr a" "ia_length (snd (append_attrs attr (req, a))) = ia_length a"
  "ia_fd (snd (append_attrs attr (req, a))) = ia_fd a"
  by (simp_all add: append_attrs_def passed_attrs_def)

lemma set_buffer_arg:
  assumes "set_buffer st p req = Inr (req', a)"
  shows "buffer_arg st p a"
proof (cases "buf_nLen p = 0")
  case True
  with assms show ?thesis by (auto simp: set_buffer_def buffer_arg_def)
next
  case False
  obtain nErr out ofd where f: "fdlist_fd_from_buf (buf_pv p) (int32 (uint (buf_nLen p))) st = (nErr, out, ofd)"
    by (metis surj_pair)
  have z: "nErr = 0" using assms False f by (auto simp: set_buffer_def Let_def split: if_splits)
  have fd: "ia_ptr a = buf_pv p \<and> ia_length a = buf_nLen p \<and> ia_fd a = (case ofd of Some fd \<Rightarrow> fd | None \<Rightarrow> -1)"
    using assms False f z append_attrs_keeps
    by (auto simp: set_buffer_def Let_def split: prod.splits option.splits if_splits) (metis snd_conv fastrpc_invoke_args.select_convs fastrpc_invoke_args.simps)+
  show ?thesis
  proof (cases ofd)
    case None
    with f z show ?thesis
      by (auto simp: fdlist_fd_from_buf_def dest!: fdlist_scan_Some)
  next
    case (Some fd')
    with f z have "fdlist_scan (buf_pv p) (buf_pv p + word_of_int (int32 (uint (buf_nLen p))) - 1) (-1) None (fdlist st) = (0, out, Some fd')"
      by (simp add: fdlist_fd_from_buf_def)
    from fdlist_scan_fd [OF this] fd Some False show ?thesis by (auto simp: buffer_arg_def region_of_def split: option.splits)
  qed
qed

lemma set_buffers_args: "set_buffers st ps req = Inr (req', as) \<Longrightarrow> list_all2 (buffer_arg st) ps as"
  by (induction ps arbitrary: req as) (auto split: sum.splits prod.splits dest: set_buffer_arg)

text \<open>The entry of a DMA handle: its descriptor and offset, and the length and attributes that the handle is registered
  with (0 for one that is not registered). The first entry takes the registration, so another entry for the same
  descriptor has this length or 0.\<close>

definition dma_entry :: "memst \<Rightarrow> int \<Rightarrow> u32 \<times> u32" where
  "dma_entry st fd = fst (dma_unregister fd (dma_abs (dhandles st)))"

definition dma_arg :: "memst \<Rightarrow> int set \<Rightarrow> remote_arg \<Rightarrow> fastrpc_invoke_args \<Rightarrow> bool" where
  "dma_arg st earlier p a \<longleftrightarrow> ia_fd a = dma_fd p \<and> ia_ptr a = ucast (dma_offset p) \<and> ia_attr a AND FASTRPC_ATTR_NOVA = FASTRPC_ATTR_NOVA \<and>
     (case dma_entry st (dma_fd p) of (len, attr) \<Rightarrow>
        if dma_fd p \<notin> earlier then ia_length a = ucast len \<and> ia_attr a = attr OR FASTRPC_ATTR_NOVA
        else ia_length a \<in> {ucast len, 0})"

text \<open>The table while the handles of a request are taken: only their entries change, and keep their length or go.\<close>

definition taking :: "int set \<Rightarrow> memst \<Rightarrow> memst \<Rightarrow> bool" where
  "taking E st st' \<longleftrightarrow> dma_wf st' \<and> (\<forall>fd. fd \<notin> E \<longrightarrow> dma_entry st' fd = dma_entry st fd) \<and>
     (\<forall>fd \<in> E. fst (dma_entry st' fd) \<in> {fst (dma_entry st fd), 0})"

lemma word_of_int_int32: "(word_of_int (int32 (uint (x :: u32))) :: u32) = x"
proof -
  have "(word_of_int (int32 (uint x)) :: u32) = word_of_int (uint x)"
    unfolding int32_def by (simp only: word_of_int_eq_iff) (simp add: take_bit_signed_take_bit del: word_of_int_uint)
  then show ?thesis by simp
qed

lemma unregister_entry:
  assumes "dma_wf st" and "unregister_dma_handle fd st = (out, st')"
  shows "dma_wf st'" and "out = dma_entry st fd" and "fd' \<noteq> fd \<Longrightarrow> dma_entry st' fd' = dma_entry st fd'"
    and "fst (dma_entry st' fd) \<in> {fst (dma_entry st fd), 0}"
  using unregister_dma_refines [OF assms] by (auto simp: dma_entry_def dma_unregister_def split: option.splits if_splits)

lemma register_entry:
  assumes "dma_wf st" and "remote_register_dma_handle_attr fd len attr st = (e, st')" and "fst (dma_entry st fd) \<in> {len, 0}"
    and "dma_abs (dhandles st) fd \<noteq> None \<Longrightarrow> fst (dma_entry st fd) = len"
  shows "dma_wf st'" and "fd' \<noteq> fd \<Longrightarrow> dma_entry st' fd' = dma_entry st fd'" and "fst (dma_entry st' fd) \<in> {len, 0}"
  using register_dma_refines [OF assms(1,2)] assms(3,4)
  by (auto simp: dma_entry_def dma_unregister_def dma_register_def word_of_int_int32 split: option.splits if_splits)

lemma set_dma_handle_takes:
  assumes "taking E st st1" and "set_dma_handle cap p st1 = (a, st2)"
  shows "dma_arg st E p a \<and> taking (insert (dma_fd p) E) st st2"
proof -
  let ?fd = "dma_fd p"
  obtain len attr st' where u: "unregister_dma_handle ?fd st1 = ((len, attr), st')" by (metis surj_pair)
  note U = unregister_entry [OF _ u]
  have w: "dma_wf st1" and o: "(len, attr) = dma_entry st1 ?fd" using assms(1) U(2) by (simp_all add: taking_def)
  have len: "len \<in> {fst (dma_entry st ?fd), 0}" "?fd \<notin> E \<Longrightarrow> (len, attr) = dma_entry st ?fd"
    using assms(1) o by (auto simp: taking_def) (metis fst_conv)+
  have a: "a = \<lparr>ia_ptr = ucast (dma_offset p), ia_length = ucast len, ia_fd = ?fd, ia_attr = attr OR FASTRPC_ATTR_NOVA\<rparr>"
    using assms(2) u by (simp add: set_dma_handle_def Let_def)
  have 1: "dma_arg st E p a"
    using len by (auto simp: a dma_arg_def bit.conj_disj_distrib2 split: prod.splits)
  have st': "dma_wf st'" "\<And>fd'. fd' \<noteq> ?fd \<Longrightarrow> dma_entry st' fd' = dma_entry st1 fd'" "fst (dma_entry st' ?fd) \<in> {len, 0}"
    using U(1,3,4) w o by (auto simp: prod_eq_iff)
  have same: "fst (dma_entry st' ?fd) = len" if "dma_abs (dhandles st') ?fd \<noteq> None"
    using unregister_dma_refines [OF w u] that by (auto simp: dma_entry_def dma_unregister_def split: option.splits if_splits)
  have "dma_wf st2 \<and> (\<forall>fd'. fd' \<noteq> ?fd \<longrightarrow> dma_entry st2 fd' = dma_entry st1 fd') \<and> fst (dma_entry st2 ?fd) \<in> {len, 0}"
  proof (cases "cap \<and> attr AND FASTRPC_ATTR_NOMAP \<noteq> 0")
    case True
    obtain e where r: "remote_register_dma_handle_attr ?fd len FASTRPC_ATTR_NOMAP st' = (e, st2)"
      using assms(2) u True by (auto simp: set_dma_handle_def Let_def) (metis prod.collapse)
    from register_entry [OF st'(1) r st'(3) same] st'(2) show ?thesis by auto
  next
    case False
    then show ?thesis using assms(2) u st' by (auto simp: set_dma_handle_def Let_def)
  qed
  then have "dma_wf st2" "fst (dma_entry st2 ?fd) \<in> {fst (dma_entry st ?fd), 0}"
    and "\<And>fd'. fd' \<noteq> ?fd \<Longrightarrow> dma_entry st2 fd' = dma_entry st1 fd'" using len(1) by auto
  then have "taking (insert ?fd E) st st2" using assms(1) unfolding taking_def by (metis insertCI insertE)
  with 1 show ?thesis by blast
qed

lemma set_dma_handles_args:
  assumes "taking E st st1" and "set_dma_handles cap ps st1 = (as, st2)"
  shows "length as = length ps \<and>
    (\<forall>i < length ps. dma_arg st (E \<union> set (map dma_fd (take i ps))) (ps ! i) (as ! i))"
  using assms
proof (induction ps arbitrary: E st1 as st2)
  case (Cons p ps)
  obtain a st' where a: "set_dma_handle cap p st1 = (a, st')" by (metis surj_pair)
  obtain as' st'' where as: "set_dma_handles cap ps st' = (as', st'')" by (metis surj_pair)
  from set_dma_handle_takes [OF Cons.prems(1) a] have h: "dma_arg st E p a" "taking (insert (dma_fd p) E) st st'" by auto
  from Cons.IH [OF h(2) as] Cons.prems(2) a as h(1) show ?case by (auto simp: nth_Cons split: nat.splits)
qed simp

definition request_of :: "memst \<Rightarrow> u32 \<Rightarrow> remote_arg list \<Rightarrow> fastrpc_invoke_args list \<Rightarrow> bool" where
  "request_of st sc ps as \<longleftrightarrow> length as = scalars_bufs sc + scalars_handles sc \<and>
     (\<forall>i < scalars_bufs sc. buffer_arg st (ps ! i) (as ! i)) \<and>
     (let hs = drop (scalars_bufs sc) ps in
      \<forall>i < scalars_handles sc. dma_arg st (set (map dma_fd (take i hs))) (hs ! i) (as ! (scalars_bufs sc + i)))"

lemma marshal_request:
  assumes "marshal_args domain sc (Some ps) s = (Inr (req, args), s')" and len: "length ps = scalars_bufs sc + scalars_handles sc"
    and "dma_wf (am s)"
  shows "request_of (am s) sc ps args"
proof -
  let ?b = "scalars_bufs sc"
  from assms(1,2) obtain as hs req1 st2 where args: "args = as @ hs" and b: "set_buffers (am s) (take ?b ps) INVOKE = Inr (req1, as)"
    and h: "set_dma_handles (dma_handle_reverse_rpc_map_capability (doms s domain)) (drop ?b ps) (am s) = (hs, st2)"
    by (auto simp: marshal_args_def Let_def split: sum.splits prod.splits)
  from set_buffers_args [OF b] have 1: "list_all2 (buffer_arg (am s)) (take ?b ps) as" .
  have "taking {} (am s) (am s)" using assms(3) by (simp add: taking_def)
  note 2 = set_dma_handles_args [OF this h]
  have l: "length as = ?b" "length hs = scalars_handles sc"
    using list_all2_lengthD [OF 1] 2 len by auto
  show ?thesis
    unfolding request_of_def args
    using l len list_all2_nthD [OF 1] 2
    by (auto simp: nth_append Let_def)
qed

section \<open>What the steps leave alone\<close>

definition counts :: "dom \<Rightarrow> u32 \<times> u32" where
  "counts D = (domainsCount D, nondomainsCount D)"

text \<open>The part of the state that only the driver request and the session references change.\<close>

definition quiet :: "apps \<Rightarrow> apps \<Rightarrow> bool" where
  "quiet s s' \<longleftrightarrow> sess (am s') = sess (am s) \<and> fdlist (am s') = fdlist (am s) \<and> sent s' = sent s \<and>
     fastrpc_wake_lock_enable s' = fastrpc_wake_lock_enable s \<and>
     (\<forall>d. ql (doms s' d) = ql (doms s d) \<and> entries (doms s' d) = entries (doms s d) \<and> counts (doms s' d) = counts (doms s d) \<and> procattrs (doms s' d) = procattrs (doms s d))"

lemma quiet_refl [simp]: "quiet s s"
  by (simp add: quiet_def)

lemma quiet_trans: "quiet s s' \<Longrightarrow> quiet s' s'' \<Longrightarrow> quiet s s''"
  by (simp add: quiet_def)

lemma quiet_intros [simp]:
  "quiet s (s\<lparr>am := (am s)\<lparr>errno := x\<rparr>\<rparr>)" "quiet s (s\<lparr>wakelock := w\<rparr>)"
  "quiet s (upd_dom d (\<lambda>D. D\<lparr>setmode := b\<rparr>) s)" "quiet s (upd_dom d (\<lambda>D. D\<lparr>first_revrpc_done := b\<rparr>) s)"
  by (simp_all add: quiet_def entries_def counts_def)

lemma dma_register_frame:
  "sess (snd (remote_register_dma_handle_attr fd len attr st)) = sess st"
  "fdlist (snd (remote_register_dma_handle_attr fd len attr st)) = fdlist st"
  by (simp_all add: remote_register_dma_handle_attr_def Let_def)

lemma dma_unregister_frame:
  "sess (snd (unregister_dma_handle fd st)) = sess st" "fdlist (snd (unregister_dma_handle fd st)) = fdlist st"
  by (simp_all add: unregister_dma_handle_def Let_def)

lemma set_dma_handle_frame:
  "sess (snd (set_dma_handle cap p st)) = sess st \<and> fdlist (snd (set_dma_handle cap p st)) = fdlist st"
  by (auto simp: set_dma_handle_def dma_register_frame Let_def split: prod.splits)
     (metis dma_unregister_frame snd_conv)+

lemma set_dma_handles_frame:
  "sess (snd (set_dma_handles cap ps st)) = sess st \<and> fdlist (snd (set_dma_handles cap ps st)) = fdlist st"
proof (induction ps arbitrary: st)
  case (Cons p ps)
  then show ?case using set_dma_handle_frame [of cap p st] by (auto split: prod.splits) (metis snd_conv)+
qed simp

lemma marshal_quiet: "marshal_args domain sc pra s = (r, s') \<Longrightarrow> quiet s s' \<and> wakelock s' = wakelock s"
  using set_dma_handles_frame
  by (auto simp: marshal_args_def Let_def quiet_def split: sum.splits prod.splits if_splits) (metis snd_conv)+

lemma drop_wake_lock_quiet [simp]: "quiet s (drop_wake_lock e s)"
  by (simp add: drop_wake_lock_def)

lemma take_wake_lock_quiet: "take_wake_lock e s = (b, s') \<Longrightarrow> quiet s s'"
  by (auto simp: take_wake_lock_def split: prod.splits)

lemma invoke_wake_begin_quiet: "invoke_wake_begin e domain handle sc s = (b, s') \<Longrightarrow> quiet s s'"
  by (auto simp: invoke_wake_begin_def is_first_reverse_rpc_call_def split: if_splits prod.splits
      dest: take_wake_lock_quiet intro: quiet_trans [rotated])

lemma invoke_bail_quiet: "invoke_bail e handle sc w nErr s = (r, s') \<Longrightarrow> quiet s s'"
  by (auto simp: invoke_bail_def Let_def)


text \<open>The tables that the arguments are looked up in do not change before they are.\<close>

definition tables :: "memst \<Rightarrow> mem_to_fd list \<times> dma_handle_info list \<times> nat" where
  "tables st = (fdlist st, dhandles st, dma_handle_count st)"

lemma tables_simps [simp]: "tables (st\<lparr>errno := x\<rparr>) = tables st" "tables (st\<lparr>sess := y\<rparr>) = tables st"
  by (simp_all add: tables_def)

lemma tables_request:
  assumes "tables st' = tables st"
  shows "request_of st' sc ps as \<longleftrightarrow> request_of st sc ps as" and "dma_wf st' \<longleftrightarrow> dma_wf st"
  using assms by (simp_all add: tables_def request_of_def buffer_arg_def region_of_def dma_arg_def dma_entry_def dma_wf_def)

lemma invoke_wake_begin_am: "invoke_wake_begin e domain handle sc s = (b, s') \<Longrightarrow> am s' = am s"
  by (auto simp: invoke_wake_begin_def take_wake_lock_def is_first_reverse_rpc_call_def split: if_splits prod.splits)

section \<open>The request that is sent\<close>

lemma ioctl_invoke_effect:
  assumes "ioctl_invoke e d req handle sc args s = (r, s')"
  shows "sess (am s') = sess (am s)" and "wakelock s' = wakelock s"
    and "sent s' = sent s \<or> sent s' = sent s @ [\<lparr>ki_dev = d, ki_handle = handle, ki_sc = sc, ki_args = args\<rparr>]"
    and "fastrpc_wake_lock_enable s' = fastrpc_wake_lock_enable s"
    and "doms s' = doms s"
  using assms by (auto simp: ioctl_invoke_def Let_def split: if_splits prod.splits)

lemma invoke_send_effect:
  assumes "invoke_send e domain d handle sc req args w s = Some (r, s')"
  shows "sess (am s') = sess (am s)" and "ql (doms s' x) = ql (doms s x)" and "entries (doms s' x) = entries (doms s x)" and "counts (doms s' x) = counts (doms s x)"
    and "sent s' = sent s \<or> sent s' = sent s @ [\<lparr>ki_dev = d, ki_handle = handle, ki_sc = sc, ki_args = args\<rparr>]"
proof -
  let ?s1 = "if w then drop_wake_lock e s else s"
  obtain ioErr out s2 where i: "ioctl_invoke e d req handle sc args ?s1 = ((ioErr, out), s2)" by (metis surj_pair)
  obtain w' s3 where t: "(if fastrpc_wake_lock_enable s2 domain \<noteq> 0 then take_wake_lock e s2 else (False, s2)) = (w', s3)"
    by (metis surj_pair)
  have q1: "quiet s ?s1" by simp
  have q3: "quiet s2 s3" using t by (auto split: if_splits dest: take_wake_lock_quiet)
  obtain nErr where q4: "quiet s3 s'" and "r = (nErr, out)"
    using assms i t by (auto simp: invoke_send_def Let_def split: prod.splits if_splits dest: invoke_bail_quiet)
  note eff = ioctl_invoke_effect [OF i]
  show "sess (am s') = sess (am s)" using eff q1 q3 q4 by (simp add: quiet_def)
  show "ql (doms s' x) = ql (doms s x)" using eff q1 q3 q4 by (simp add: quiet_def)
  show "entries (doms s' x) = entries (doms s x)" using eff q1 q3 q4 by (simp add: quiet_def)
  show "counts (doms s' x) = counts (doms s x)" using eff q1 q3 q4 by (simp add: quiet_def)
  show "sent s' = sent s \<or> sent s' = sent s @ [\<lparr>ki_dev = d, ki_handle = handle, ki_sc = sc, ki_args = args\<rparr>]"
    using eff q1 q3 q4 by (auto simp: quiet_def)
qed

text \<open>An invocation either ends before the driver is asked or comes to \<open>invoke_send\<close> with marshalled arguments.\<close>

lemma invoke_domain_cases:
  assumes "remote_handle_invoke_domain e domain handle sc pra s = Some (r, s')"
  obtains (unsent) "quiet s s'"
  | (send) d s1 s2 req req' args w where "fastrpc_session_dev domain (sess (am s)) = (0, d)"
      "quiet s s1" "tables (am s1) = tables (am s)" "marshal_args domain sc pra s1 = (Inr (req, args), s2)" "invoke_extras e domain handle req s2 = Inr req'"
      "invoke_send e domain d handle sc req' args w s2 = Some (r, s')"
proof (cases "fst (fastrpc_session_dev domain (sess (am s))) = 0")
  case False
  then show ?thesis using assms that(1)
    by (auto simp: remote_handle_invoke_domain_def Let_def split: prod.splits dest: invoke_bail_quiet)
next
  case True
  then obtain d where d: "fastrpc_session_dev domain (sess (am s)) = (0, d)" by (metis prod.collapse)
  let ?s0 = "s\<lparr>am := (am s)\<lparr>errno := 0\<rparr>\<rparr>"
  obtain w s1 where wk: "invoke_wake_begin e domain handle sc ?s0 = (w, s1)" by (metis surj_pair)
  let ?s1 = "upd_dom domain (\<lambda>D. D\<lparr>setmode := False\<rparr>) s1"
  have q: "quiet s ?s1"
    by (rule quiet_trans [OF quiet_trans [OF quiet_intros(1) invoke_wake_begin_quiet [OF wk]] quiet_intros(3)])
  obtain x s2 where m: "marshal_args domain sc pra ?s1 = (x, s2)" by (metis surj_pair)
  have q2: "quiet s s2" using marshal_quiet [OF m] q by (blast intro: quiet_trans)
  have early: ?thesis if "quiet s sx" "invoke_bail e handle sc w' nErr sx = (k, s')" for sx w' nErr k
    using that invoke_bail_quiet that(1) by (metis unsent quiet_trans)
  show ?thesis
  proof (cases "\<exists>req args req'. x = Inr (req, args) \<and> invoke_extras e domain handle req s2 = Inr req' \<and>
       invoke_send e domain d handle sc req' args w s2 = Some (r, s')")
    case True
    then show ?thesis using send [OF d q] m invoke_wake_begin_am [OF wk] by auto
  next
    case False
    then show ?thesis
      using assms d wk m early [OF q] early [OF q2]
      by (auto simp: remote_handle_invoke_domain_def Let_def split: prod.splits if_splits sum.splits)
  qed
qed

lemma invoke_domain_frame:
  assumes "remote_handle_invoke_domain e domain handle sc pra s = Some (r, s')"
  shows "sess (am s') = sess (am s)" and "ql (doms s' x) = ql (doms s x)" and "entries (doms s' x) = entries (doms s x)"
    and "counts (doms s' x) = counts (doms s x)"
  by (rule invoke_domain_cases [OF assms];
      auto simp: quiet_def dest!: marshal_quiet dest: invoke_send_effect(1) invoke_send_effect(2,3,4) [of _ _ _ _ _ _ _ _ _ _ _ x])+

lemma invoke_domain_sends:
  assumes "remote_handle_invoke_domain e domain handle sc (Some ps) s = Some (r, s')"
    and "length ps = scalars_bufs sc + scalars_handles sc" and "dma_wf (am s)"
  shows "sent s' = sent s \<or>
    (\<exists>d args. fastrpc_session_dev domain (sess (am s)) = (0, d) \<and> request_of (am s) sc ps args \<and>
       sent s' = sent s @ [\<lparr>ki_dev = d, ki_handle = handle, ki_sc = sc, ki_args = args\<rparr>])"
  using assms(1)
proof (cases rule: invoke_domain_cases)
  case unsent
  then show ?thesis by (simp add: quiet_def)
next
  case (send d s1 s2 req req' args w)
  have "request_of (am s) sc ps args"
    using marshal_request [OF send(4) assms(2)] tables_request [OF send(3)] assms(3) by simp
  moreover have "sent s2 = sent s" using send(2) marshal_quiet [OF send(4)] by (simp add: quiet_def)
  ultimately show ?thesis using invoke_send_effect(5) [OF send(6)] send(1) by auto
qed


section \<open>The entry points\<close>

lemma session_get_dev:
  "fastrpc_session_get d s = (0, s') \<Longrightarrow> fastrpc_session_dev x s' = fastrpc_session_dev x s"
  by (auto simp: fastrpc_session_get_def fastrpc_session_dev_def split: option.splits if_splits)

lemma get_ref_frame:
  assumes "get_ref d s = (nErr, s')"
  shows "sent s' = sent s" and "tables (am s') = tables (am s)" and "doms s' = doms s"
    and "fastrpc_session_get d (sess (am s)) = (nErr, sess (am s'))"
  using assms by (auto simp: get_ref_def upd_sess_def split: prod.splits)

lemma put_ref_frame [simp]:
  "sent (put_ref d s) = sent s" "doms (put_ref d s) = doms s" "wakelock (put_ref d s) = wakelock s"
  "sess (am (put_ref d s)) = snd (fastrpc_session_put d (sess (am s)))"
  by (simp_all add: put_ref_def upd_sess_def)

text \<open>A call on a local handle ends before its domain is referenced, before the driver is asked, or is an
  invocation between \<open>get_ref\<close> and \<open>put_ref\<close>.\<close>

lemma handle64_invoke_cases:
  assumes "remote_handle64_invoke e local sc pra s = Some ((nErr, out), s')"
  obtains (refused) "s' = s"
  | (call) domain remote s1 s2 r where "get_domain_from_handle local s = (0, Some domain)"
      "get_ref domain s = (0, s1)" "get_handle_remote local s1 = (0, Some remote)"
      "remote_handle_invoke_domain e domain (ucast remote) sc pra s1 = Some (r, s2)" "s' = put_ref domain s2"
  | (unresolved) domain s1 where "get_domain_from_handle local s = (0, Some domain)" "get_ref domain s = (0, s1)"
      "s' = put_ref domain s1"
proof -
  have z: "x = 0" if "get_domain_from_handle local s = (x, Some d)" for x d
    using that by (auto simp: get_domain_from_handle_def Let_def split: if_splits option.splits)
  have z': "x = 0" if "get_handle_remote local s1 = (x, Some d)" for x d s1
    using that by (auto simp: get_handle_remote_def Let_def split: if_splits option.splits)
  show ?thesis
    using assms that session_get_error
    by (auto simp: remote_handle64_invoke_def Let_def get_ref_def upd_sess_def
        split: if_splits prod.splits option.splits dest!: z z') 
qed


lemma handle_map_doms: "(\<And>d. ql (doms s' d) = ql (doms s d)) \<Longrightarrow> handle_map s' = handle_map s"
  by (rule handle_map_same_ql)

lemma get_remote_doms: "(\<And>d. ql (doms s' d) = ql (doms s d)) \<Longrightarrow> get_handle_remote l s' = get_handle_remote l s"
  by (simp add: get_handle_remote_def verify_local_handle_def is_valid_local_handle_def handle_at_def Let_def)

text \<open>C6: when an invocation on a local handle reaches the driver, it does so once, for the domain and the
  remote handle that the local handle stands for, with one entry per buffer and handle of the scalars. The entry of a
  buffer carries its address and length and the descriptor of the first registered region that holds its first
  byte (\<open>-1\<close> for none or for an empty buffer), and that region holds its last byte; the entry of a DMA handle carries its
  descriptor and offset and the length and attributes it is registered with, 0 when it is not; when a request names
  a descriptor again, the later entry has the registered length or 0. (The table of DMA handles is well formed in
  every reachable state.)\<close>

theorem invoke_request_faithful:
  assumes "handles_ok s" and "length ps = scalars_bufs sc + scalars_handles sc"
    and "remote_handle64_invoke e local sc (Some ps) s = Some ((nErr, out), s')" and "dma_wf (am s)"
  shows "sent s' = sent s \<or>
    (\<exists>domain remote d args. handle_map s local = Some (domain, remote) \<and>
       fastrpc_session_dev domain (sess (am s)) = (0, d) \<and> request_of (am s) sc ps args \<and>
       sent s' = sent s @ [\<lparr>ki_dev = d, ki_handle = ucast remote, ki_sc = sc, ki_args = args\<rparr>])"
  using assms(3)
proof (cases rule: handle64_invoke_cases)
  case (call domain remote s1 s2 r)
  note f = get_ref_frame [OF call(2)]
  have "get_handle_remote local s = (0, Some remote)"
    using call(3) get_remote_doms [of s1 s] f(3) by simp
  then have "handle_map s local = Some (domain, remote)"
    using call(1) by (auto simp: get_domain_map [OF assms(1)] get_remote_map [OF assms(1)] split: option.splits)
  moreover have "fastrpc_session_dev domain (sess (am s1)) = fastrpc_session_dev domain (sess (am s))"
    by (rule session_get_dev [OF f(4)])
  ultimately show ?thesis
    using invoke_domain_sends [OF call(4) assms(2)] assms(4) call(5) f(1) tables_request [OF f(2)] by auto
next
  case (unresolved domain s1)
  then show ?thesis using get_ref_frame(1) by auto
qed simp

text \<open>C25: an invocation gives back the session reference that it takes, whatever happens on its way.\<close>

theorem invoke_keeps_references:
  assumes "remote_handle64_invoke e local sc pra s = Some ((nErr, out), s')"
    and "\<And>d. Session.refs_of (sess (am s)) d \<noteq> Some (- 1)"
  shows "hlist (sess (am s')) = hlist (sess (am s))"
  using assms(1)
proof (cases rule: handle64_invoke_cases)
  case (call domain remote s1 s2 r)
  then show ?thesis
    using session_get_put [OF get_ref_frame(4) [OF call(2)] assms(2)] invoke_domain_frame(1) [OF call(4)] by simp
next
  case (unresolved domain s1)
  then show ?thesis using session_get_put [OF get_ref_frame(4) [OF unresolved(2)] assms(2)] by simp
qed simp

text \<open>An invocation on a handle that is no open local handle, or on the handle of a static process
  domain, reports success, stores nothing and asks nobody.\<close>

theorem invoke_on_bad_handle_reports_success:
  assumes "IS_STATICPD_HANDLE local \<or> verify_local_handle (-1) local s \<noteq> 0"
  shows "remote_handle64_invoke e local sc pra s = Some ((0, []), s)"
  using assms
  by (auto simp: remote_handle64_invoke_def Let_def invoke_result_def is_process_exiting_def
      IS_VALID_EFFECTIVE_DOMAIN_ID_def get_domain_from_handle_def)

section \<open>The wake lock\<close>

lemma take_drop_count:
  assumes "take_wake_lock e s = (w, s')"
  shows "wl_count (wakelock s') = wl_count (wakelock s) + (if w then 1 else 0)"
    and "init_done (wakelock s') = init_done (wakelock s)" and "w \<Longrightarrow> init_done (wakelock s)"
  using assms by (auto simp: take_wake_lock_def fastrpc_wake_lock_def wake_emit_def split: prod.splits if_splits)

lemma drop_count:
  assumes "\<And>w. a_written e w" and "init_done (wakelock s)" and "wl_count (wakelock s) \<noteq> 0"
  shows "wl_count (wakelock (drop_wake_lock e s)) = wl_count (wakelock s) - 1"
    and "init_done (wakelock (drop_wake_lock e s))"
  using assms by (auto simp: drop_wake_lock_def fastrpc_wake_unlock_def wake_emit_def Let_def)


text \<open>The count while the flag \<^verbatim>\<open>wake_lock\<close> is set is one above the count before the call.\<close>

definition wake_balance :: "wake_lock \<Rightarrow> bool \<Rightarrow> apps \<Rightarrow> bool" where
  "wake_balance w0 w s \<longleftrightarrow> wl_count (wakelock s) = wl_count w0 + (if w then 1 else 0) \<and> (w \<longrightarrow> init_done (wakelock s))"

lemma balance_take: "wake_balance w0 False s \<Longrightarrow> take_wake_lock e s = (w, s') \<Longrightarrow> wake_balance w0 w s'"
  using take_drop_count [of e s w s'] by (auto simp: wake_balance_def)

lemma balance_drop:
  assumes "\<And>w. a_written e w" and "wl_count w0 \<noteq> -1" and "wake_balance w0 True s"
  shows "wake_balance w0 False (drop_wake_lock e s)"
proof -
  from assms have "wl_count (wakelock s) = wl_count w0 + 1" "init_done (wakelock s)" by (simp_all add: wake_balance_def)
  moreover have "wl_count w0 + 1 \<noteq> 0" by (rule count_succ [OF assms(2)])
  ultimately show ?thesis using drop_count(1) [of e s] assms(1) by (simp add: wake_balance_def)
qed

lemma balance_bail:
  assumes "\<And>w. a_written e w" and "wl_count w0 \<noteq> -1" and "\<not> IS_REVERSE_RPC_CALL handle sc"
    and "wake_balance w0 w s" and "invoke_bail e handle sc w nErr s = (r, s')"
  shows "wl_count (wakelock s') = wl_count w0"
  using assms balance_drop [OF assms(1,2)] by (auto simp: invoke_bail_def Let_def wake_balance_def split: if_splits)

lemma balance_same: "wakelock s' = wakelock s \<Longrightarrow> wake_balance w0 w s \<Longrightarrow> wake_balance w0 w s'"
  by (simp add: wake_balance_def)

lemma invoke_send_balance:
  assumes "\<And>w. a_written e w" and "wl_count w0 \<noteq> -1" and "\<not> IS_REVERSE_RPC_CALL handle sc"
    and "wake_balance w0 w s" and "invoke_send e domain d handle sc req args w s = Some (r, s')"
  shows "wl_count (wakelock s') = wl_count w0"
proof -
  let ?s1 = "if w then drop_wake_lock e s else s"
  obtain ioErr out s2 where i: "ioctl_invoke e d req handle sc args ?s1 = ((ioErr, out), s2)" by (metis surj_pair)
  obtain w' s3 where t: "(if fastrpc_wake_lock_enable s2 domain \<noteq> 0 then take_wake_lock e s2 else (False, s2)) = (w', s3)"
    by (metis surj_pair)
  have b1: "wake_balance w0 False ?s1" using assms(4) balance_drop [OF assms(1,2)] by (cases w) auto
  have b2: "wake_balance w0 False s2" by (rule balance_same [OF ioctl_invoke_effect(2) [OF i] b1])
  have b3: "wake_balance w0 w' s3" using t b2 by (auto split: if_splits intro: balance_take)
  obtain nErr nErr' where "invoke_bail e handle sc w' nErr s3 = (nErr', s')"
    using assms(5) i t by (auto simp: invoke_send_def Let_def split: prod.splits if_splits)
  from balance_bail [OF assms(1-3) b3 this] show ?thesis .
qed

text \<open>C26: a call that is not the listener's leaves the wake lock as it found it, on every path, when the
  power files can be written.\<close>

theorem invoke_balances_wake_lock:
  assumes "\<And>w. a_written e w" and "wl_count (wakelock s) \<noteq> -1" and "\<not> IS_REVERSE_RPC_CALL handle sc"
    and "remote_handle_invoke_domain e domain handle sc pra s = Some (r, s')"
  shows "wl_count (wakelock s') = wl_count (wakelock s)"
proof -
  let ?w0 = "wakelock s" and ?s0 = "s\<lparr>am := (am s)\<lparr>errno := 0\<rparr>\<rparr>"
  have b0: "wake_balance ?w0 False s" "wake_balance ?w0 False ?s0" by (simp_all add: wake_balance_def)
  obtain w s1 where wk: "invoke_wake_begin e domain handle sc ?s0 = (w, s1)" by (metis surj_pair)
  let ?s1 = "upd_dom domain (\<lambda>D. D\<lparr>setmode := False\<rparr>) s1"
  have "wake_balance ?w0 w s1"
    using wk b0(2) assms(3) by (auto simp: invoke_wake_begin_def split: if_splits intro: balance_take)
  then have b1: "wake_balance ?w0 w ?s1" by (rule balance_same [rotated]) simp
  obtain x s2 where m: "marshal_args domain sc pra ?s1 = (x, s2)" by (metis surj_pair)
  have b2: "wake_balance ?w0 w s2" using balance_same [OF _ b1] marshal_quiet [OF m] by simp
  note bail = balance_bail [OF assms(1-3)] and send = invoke_send_balance [OF assms(1-3)]
  show ?thesis
    using assms(4) wk m bail [OF b0(1)] bail [OF b1] bail [OF b2] send [OF b2]
    by (auto simp: remote_handle_invoke_domain_def Let_def split: prod.splits if_splits sum.splits)
qed


section \<open>Delivery\<close>

abbreviation (input) driver_requests :: "fastrpc_invoke_type set" where
  "driver_requests \<equiv> {INVOKE, INVOKE_ATTRS, INVOKE_FD}"

lemma append_attrs_request: "req \<in> driver_requests \<Longrightarrow> fst (append_attrs attr (req, a)) \<in> driver_requests"
  by (simp add: append_attrs_def passed_attrs_def)

lemma set_buffer_total:
  assumes "set_buffer st p INVOKE = Inr x" and "req \<in> driver_requests" and "fdlist st' = fdlist st"
  shows "\<exists>req' a. set_buffer st' p req = Inr (req', a) \<and> req' \<in> driver_requests"
proof (cases "buf_nLen p = 0")
  case True
  with assms(2) show ?thesis by (simp add: set_buffer_def)
next
  case False
  obtain nErr out ofd where f: "fdlist_fd_from_buf (buf_pv p) (int32 (uint (buf_nLen p))) st = (nErr, out, ofd)"
    by (metis surj_pair)
  have f': "fdlist_fd_from_buf (buf_pv p) (int32 (uint (buf_nLen p))) st' = (nErr, out, ofd)"
    using f assms(3) by (simp add: fdlist_fd_from_buf_def)
  have z: "nErr = 0" using assms(1) False f by (auto simp: set_buffer_def Let_def split: if_splits)
  define nova where "nova = (case out of Some (nova, base, attr) \<Rightarrow> nova | None \<Rightarrow> 0)"
  define attr where "attr = (case out of Some (nova, base, attr) \<Rightarrow> attr | None \<Rightarrow> 0)"
  define fd where "fd = (case ofd of Some fd \<Rightarrow> fd | None \<Rightarrow> -1)"
  let ?a = "\<lparr>ia_ptr = buf_pv p, ia_length = buf_nLen p, ia_fd = -1, ia_attr = 0\<rparr>"
  define ra where "ra = (if fd \<noteq> -1 then (INVOKE_FD, ?a\<lparr>ia_fd := fd\<rparr>) else (req, ?a))"
  define rb where "rb = (if nova \<noteq> 0 then (INVOKE_ATTRS, (snd ra)\<lparr>ia_attr := ia_attr (snd ra) OR FASTRPC_ATTR_NOVA\<rparr>) else ra)"
  have "set_buffer st' p req = Inr (append_attrs attr rb)"
    using False f' z
    by (auto simp: set_buffer_def Let_def nova_def attr_def fd_def ra_def rb_def split: option.splits)
  moreover have "fst rb \<in> driver_requests" using assms(2) by (simp add: rb_def ra_def)
  ultimately show ?thesis using append_attrs_request [of "fst rb" attr "snd rb"] by (metis prod.collapse)
qed

lemma set_buffers_total:
  assumes "\<And>p. p \<in> set ps \<Longrightarrow> \<exists>x. set_buffer st p INVOKE = Inr x" and "req \<in> driver_requests" and "fdlist st' = fdlist st"
  shows "\<exists>req' as. set_buffers st' ps req = Inr (req', as) \<and> req' \<in> driver_requests"
  using assms
proof (induction ps arbitrary: req)
  case (Cons p ps)
  obtain x where "set_buffer st p INVOKE = Inr x" using Cons.prems(1) by fastforce
  from set_buffer_total [OF this Cons.prems(2,3)] obtain r1 a1
    where r: "set_buffer st' p req = Inr (r1, a1)" "r1 \<in> driver_requests" by blast
  have "\<And>q. q \<in> set ps \<Longrightarrow> \<exists>x. set_buffer st q INVOKE = Inr x" using Cons.prems(1) by simp
  from Cons.IH [OF this r(2) Cons.prems(3)] obtain r2 as where "set_buffers st' ps r1 = Inr (r2, as)" "r2 \<in> driver_requests"
    by blast
  with r(1) show ?case by simp
qed simp

lemma marshal_total:
  assumes "length ps = scalars_bufs sc + scalars_handles sc" and "\<And>p. p \<in> set (take (scalars_bufs sc) ps) \<Longrightarrow> \<exists>x. set_buffer st p INVOKE = Inr x"
    and "fdlist (am s) = fdlist st"
  shows "\<exists>req args s'. marshal_args domain sc (Some ps) s = (Inr (req, args), s') \<and> req \<in> driver_requests"
proof -
  obtain req as where b: "set_buffers (am s) (take (scalars_bufs sc) ps) INVOKE = Inr (req, as)" "req \<in> driver_requests"
    using set_buffers_total [OF assms(2) _ assms(3), where req = INVOKE and ps = "take (scalars_bufs sc) ps"] by auto
  obtain hs st2 where "set_dma_handles (dma_handle_reverse_rpc_map_capability (doms s domain))
      (drop (scalars_bufs sc) (take (scalars_bufs sc + scalars_handles sc) ps)) (am s) = (hs, st2)" by (metis surj_pair)
  with b show ?thesis by (simp add: marshal_args_def)
qed

abbreviation (input) measured :: u32 where
  "measured \<equiv> FASTRPC_MODE_CRC OR FASTRPC_MODE_PERF_KERNEL OR FASTRPC_MODE_PERF_DSP"

lemma unmeasured:
  assumes "procattrs (doms s domain) AND measured = 0"
  shows "\<not> crc_enabled domain handle s" and "\<not> kernel_perf_enabled e domain handle s" and "\<not> dsp_perf_enabled e domain handle s"
proof -
  let ?p = "procattrs (doms s domain)"
  have "?p AND x = 0" if "x = (FASTRPC_MODE_CRC OR FASTRPC_MODE_PERF_KERNEL OR FASTRPC_MODE_PERF_DSP) AND x" for x
  proof -
    have "?p AND x = (?p AND (FASTRPC_MODE_CRC OR FASTRPC_MODE_PERF_KERNEL OR FASTRPC_MODE_PERF_DSP)) AND x"
      using that by (metis and.assoc)
    then show ?thesis using assms by simp
  qed
  from this [of FASTRPC_MODE_CRC] this [of FASTRPC_MODE_PERF_KERNEL] this [of FASTRPC_MODE_PERF_DSP]
  show "\<not> crc_enabled domain handle s" "\<not> kernel_perf_enabled e domain handle s" "\<not> dsp_perf_enabled e domain handle s"
    by (simp_all add: crc_enabled_def kernel_perf_enabled_def dsp_perf_enabled_def)
qed

lemma invoke_send_delivers:
  assumes "req \<in> driver_requests" and "procattrs (doms s domain) AND measured = 0"
  shows "\<exists>r s'. invoke_send e domain d handle sc req args w s = Some (r, s') \<and>
    sent s' = sent s @ [\<lparr>ki_dev = d, ki_handle = handle, ki_sc = sc, ki_args = args\<rparr>]"
proof -
  let ?s1 = "if w then drop_wake_lock e s else s"
  have q1: "quiet s ?s1" by simp
  obtain ioErr out s2 where i: "ioctl_invoke e d req handle sc args ?s1 = ((ioErr, out), s2)" by (metis surj_pair)
  have s2: "sent s2 = sent ?s1 @ [\<lparr>ki_dev = d, ki_handle = handle, ki_sc = sc, ki_args = args\<rparr>]"
    using i assms(1) by (auto simp: ioctl_invoke_def Let_def split: prod.splits if_splits)
  obtain w' s3 where t: "(if fastrpc_wake_lock_enable s2 domain \<noteq> 0 then take_wake_lock e s2 else (False, s2)) = (w', s3)"
    by (metis surj_pair)
  have q3: "quiet s2 s3" using t by (auto split: if_splits dest: take_wake_lock_quiet)
  define nErr where "nErr = (if ioErr \<noteq> 0 then convert_kernel_to_user_error ioErr (errno (am s2)) else ioErr)"
  obtain k s' where b: "invoke_bail e handle sc w' nErr s3 = (k, s')" by (metis surj_pair)
  have "procattrs (doms s3 domain) AND measured = 0"
    using q1 q3 ioctl_invoke_effect(5) [OF i] assms(2) by (simp add: quiet_def)
  then have "invoke_send e domain d handle sc req args w s = Some ((k, out), s')"
    using i t b unmeasured(1) by (simp add: invoke_send_def Let_def nErr_def)
  moreover have "sent s' = sent s2" using q3 invoke_bail_quiet [OF b] by (simp add: quiet_def)
  ultimately show ?thesis using s2 q1 by (simp add: quiet_def)
qed

lemma invoke_domain_delivers:
  assumes "fastrpc_session_dev domain (sess (am s)) = (0, d)"
    and "\<And>s. a_alloc e s 0" and "setmode (doms s domain) \<longrightarrow> mode (doms s domain) = 4" and "procattrs (doms s domain) AND measured = 0"
    and "length ps = scalars_bufs sc + scalars_handles sc"
    and "\<And>p. p \<in> set (take (scalars_bufs sc) ps) \<Longrightarrow> \<exists>x. set_buffer st p INVOKE = Inr x"
    and "fdlist (am s) = fdlist st" and "dma_wf (am s)"
  shows "\<exists>r s' args. remote_handle_invoke_domain e domain handle sc (Some ps) s = Some (r, s') \<and> request_of (am s) sc ps args \<and>
    sent s' = sent s @ [\<lparr>ki_dev = d, ki_handle = handle, ki_sc = sc, ki_args = args\<rparr>]"
proof -
  let ?s0 = "s\<lparr>am := (am s)\<lparr>errno := 0\<rparr>\<rparr>"
  obtain w s1 where wk: "invoke_wake_begin e domain handle sc ?s0 = (w, s1)" by (metis surj_pair)
  have k: "setmode (doms s1 domain) = setmode (doms s domain)" "mode (doms s1 domain) = mode (doms s domain)"
    using wk by (auto simp: invoke_wake_begin_def take_wake_lock_def is_first_reverse_rpc_call_def split: if_splits prod.splits)
  let ?s1 = "upd_dom domain (\<lambda>D. D\<lparr>setmode := False\<rparr>) s1"
  have q1: "quiet s ?s1"
    by (rule quiet_trans [OF quiet_trans [OF quiet_intros(1) invoke_wake_begin_quiet [OF wk]] quiet_intros(3)])
  have tb: "tables (am ?s1) = tables (am s)" using invoke_wake_begin_am [OF wk] by simp
  then have "fdlist (am ?s1) = fdlist st" using assms(7) by (simp add: tables_def)
  from marshal_total [OF assms(5,6) this] obtain req args s2
    where m: "marshal_args domain sc (Some ps) ?s1 = (Inr (req, args), s2)" "req \<in> driver_requests" by blast
  have q: "quiet s s2" using marshal_quiet [OF m(1)] q1 by (blast intro: quiet_trans)
  then have pa: "procattrs (doms s2 domain) AND measured = 0" "sent s2 = sent s" using assms(4) by (simp_all add: quiet_def)
  with invoke_send_delivers [OF m(2) pa(1), of e d handle sc args w] obtain r s' where
    send: "invoke_send e domain d handle sc req args w s2 = Some (r, s')"
      "sent s' = sent s @ [\<lparr>ki_dev = d, ki_handle = handle, ki_sc = sc, ki_args = args\<rparr>]" by auto
  have x: "invoke_extras e domain handle req s2 = Inr req" using unmeasured [OF pa(1)] by (simp add: invoke_extras_def)
  have "remote_handle_invoke_domain e domain handle sc (Some ps) s = Some (r, s')"
    using assms(1-3) k wk m(1) x send(1) by (auto simp: remote_handle_invoke_domain_def ioctl_setmode_def)
  moreover have "request_of (am s) sc ps args"
    using marshal_request [OF m(1) assms(5)] tables_request [OF tb] assms(8) by simp
  ultimately show ?thesis using send(2) by blast
qed

text \<open>C7: an invocation on an open handle of a session that is up is sent to the driver exactly once and with its
  arguments, whatever the state of the wake lock, provided that memory for the arguments is there, no buffer crosses the end
  of a registered region, a pending mode is the one that the driver accepts, and neither checksums nor performance
  records are asked for (with checksums on, no call to a module is sent, see \<open>crc_mode_blocks_calls\<close>).\<close>

theorem invoke_delivers:
  assumes "handles_ok s" and "handle_map s local = Some (domain, remote)" and "\<not> IS_STATICPD_HANDLE local"
    and "fastrpc_init_once (am s) = 0" and "fastrpc_session_dev domain (sess (am s)) = (0, d)"
    and "\<And>s. a_alloc e s 0" and "setmode (doms s domain) \<longrightarrow> mode (doms s domain) = 4"
    and "procattrs (doms s domain) AND (FASTRPC_MODE_CRC OR FASTRPC_MODE_PERF_KERNEL OR FASTRPC_MODE_PERF_DSP) = 0"
    and "length ps = scalars_bufs sc + scalars_handles sc"
    and "\<And>p. p \<in> set (take (scalars_bufs sc) ps) \<Longrightarrow> \<exists>x. set_buffer (am s) p INVOKE = Inr x" and "dma_wf (am s)"
  shows "\<exists>r s' args. remote_handle64_invoke e local sc (Some ps) s = Some (r, s') \<and> request_of (am s) sc ps args \<and>
    sent s' = sent s @ [\<lparr>ki_dev = d, ki_handle = ucast remote, ki_sc = sc, ki_args = args\<rparr>]"
proof -
  have l: "local \<noteq> -1"
    using assms(1,2) handle_at_props(2) by (force simp: handle_map_def)
  have gd: "get_domain_from_handle local s = (0, Some domain)" using get_domain_map [OF assms(1)] assms(2) by simp
  obtain h where h: "hlist (sess (am s)) = Some h" and st: "state (h domain) \<noteq> FASTRPC_DOMAIN_STATE_DEINIT"
    using assms(5) by (auto simp: fastrpc_session_dev_def split: option.splits if_splits)
  then obtain s1 where g: "get_ref domain s = (0, s1)" by (simp add: get_ref_def fastrpc_session_get_def)
  note f = get_ref_frame [OF g]
  have gr: "get_handle_remote local s1 = (0, Some remote)"
    using get_remote_map [OF assms(1)] assms(2) get_remote_doms [of s1 s] f(3) by simp
  have dv: "fastrpc_session_dev domain (sess (am s1)) = (0, d)" using session_get_dev [OF f(4)] assms(5) by simp
  have "fdlist (am s1) = fdlist (am s)" "dma_wf (am s1)" using f(2) assms(11) tables_request(2) [OF f(2)] by (simp_all add: tables_def)
  moreover have "setmode (doms s1 domain) \<longrightarrow> mode (doms s1 domain) = 4" "procattrs (doms s1 domain) AND measured = 0"
    using assms(7,8) f(3) by simp_all
  ultimately obtain r s' args where inv: "remote_handle_invoke_domain e domain (ucast remote) sc (Some ps) s1 = Some (r, s')"
      "request_of (am s1) sc ps args"
      "sent s' = sent s1 @ [\<lparr>ki_dev = d, ki_handle = ucast remote, ki_sc = sc, ki_args = args\<rparr>]"
    using invoke_domain_delivers [OF dv assms(6) _ _ assms(9,10)] by metis
  obtain nErr out where r: "r = (nErr, out)" by (cases r)
  have "remote_handle64_invoke e local sc (Some ps) s =
      Some ((invoke_result domain nErr (put_ref domain s'), out), put_ref domain s')"
    using assms(3,4) l gd g gr inv(1) r by (simp add: remote_handle64_invoke_def Let_def)
  then show ?thesis using inv(2,3) f(1) tables_request [OF f(2)] by auto
qed


section \<open>Checksums\<close>

lemma crc_extras: "crc_enabled domain handle s \<Longrightarrow> invoke_extras e domain handle req s = Inr req' \<Longrightarrow> req' \<notin> driver_requests"
  by (auto simp: invoke_extras_def Let_def split: if_splits)

lemma invoke_send_unsupported:
  assumes "req \<notin> driver_requests" and "invoke_send e domain d handle sc req args w s = Some ((nErr, out), s')"
  shows "sent s' = sent s \<and> nErr \<noteq> 0"
proof -
  let ?s1 = "if w then drop_wake_lock e s else s"
  have i: "ioctl_invoke e d req handle sc args ?s1 = ((AEE_EUNSUPPORTED, []), ?s1)"
    using assms(1) by (simp add: ioctl_invoke_def)
  obtain w' s3 where t: "(if fastrpc_wake_lock_enable ?s1 domain \<noteq> 0 then take_wake_lock e ?s1 else (False, ?s1)) = (w', s3)"
    by (metis surj_pair)
  have "invoke_bail e handle sc w' AEE_EUNSUPPORTED s3 = (nErr, s')"
    using assms(2) i t by (auto simp: invoke_send_def Let_def convert_kernel_to_user_error_def split: prod.splits if_splits)
  then have "quiet s3 s' \<and> nErr = AEE_EUNSUPPORTED" by (auto simp: invoke_bail_def Let_def)
  moreover have "quiet ?s1 s3" using t by (auto split: if_splits dest: take_wake_lock_quiet)
  moreover have "quiet s ?s1" by simp
  ultimately show ?thesis by (simp add: quiet_def)
qed

text \<open>In checksum mode no call to a module reaches the driver, because the driver interface has no such request.\<close>

theorem crc_mode_blocks_calls:
  assumes "procattrs (doms s domain) AND FASTRPC_MODE_CRC \<noteq> 0" and "\<not> IS_STATIC_HANDLE handle"
    and "remote_handle_invoke_domain e domain handle sc pra s = Some (r, s')"
  shows "sent s' = sent s"
  using assms(3)
proof (cases rule: invoke_domain_cases)
  case unsent
  then show ?thesis by (simp add: quiet_def)
next
  case (send d s1 s2 req req' args w)
  have q: "quiet s s2" using send(2) marshal_quiet [OF send(4)] by (blast intro: quiet_trans)
  then have "crc_enabled domain handle s2" using assms(1,2) by (simp add: crc_enabled_def quiet_def)
  from crc_extras [OF this send(5)] have "sent s' = sent s2"
    using invoke_send_unsupported send(6) by (metis surj_pair)
  with q show ?thesis by (simp add: quiet_def)
qed

section \<open>Instances\<close>

definition demo_open :: apps where
  "demo_open = snd (fastrpc_update_module_list demo_henv DOMAIN_LIST_PREPEND 3 0x100000 None demo_handles)"

text \<open>A request with one input buffer and one DMA handle.\<close>

definition demo_sc :: u32 where
  "demo_sc = REMOTE_SCALARS_MAKEX 0 2 1 0 1 0"

definition demo_args :: "remote_arg list" where
  "demo_args = [\<lparr>buf_pv = 0x5000, buf_nLen = 16, dma_fd = 0, dma_offset = 0\<rparr>,
                \<lparr>buf_pv = 0, buf_nLen = 0, dma_fd = 12, dma_offset = 64\<rparr>]"

lemma demo_open_ok: "handles_ok demo_open" "handle_map demo_open 0x1000 = Some (3, 0x100000)"
proof -
  have "(3 :: int) \<in> set all_domains" by code_simp
  obtain r s' where u: "fastrpc_update_module_list demo_henv DOMAIN_LIST_PREPEND 3 0x100000 None demo_handles = (r, s')"
    by (metis surj_pair)
  from prepend_ok [OF demo_henv_fresh demo_handles_ok \<open>3 \<in> set all_domains\<close> _ u]
  show "handles_ok demo_open" by (simp add: is_prepend_def demo_open_def u)
  show "handle_map demo_open 0x1000 = Some (3, 0x100000)" by code_simp
qed

lemma demo_open_am: "am demo_open = demo_st"
  by (auto simp: demo_open_def update_list_defs demo_handles_def upd_dom_def Let_def)

lemma demo_open_wf: "dma_wf (am demo_open)"
  unfolding demo_open_am by (auto simp: dma_wf_def dma_uniq_def demo_st_def)

theorem invoke_delivers_witness:
  "\<exists>r s' args. remote_handle64_invoke demo_henv 0x1000 demo_sc (Some demo_args) demo_open = Some (r, s') \<and>
    request_of (am demo_open) demo_sc demo_args args \<and>
    sent s' = sent demo_open @ [\<lparr>ki_dev = 7, ki_handle = ucast (0x100000 :: u64), ki_sc = demo_sc, ki_args = args\<rparr>]"
proof (rule invoke_delivers [OF demo_open_ok])
  show "\<And>s. a_alloc demo_henv s 0" by (simp add: demo_henv_def)
  have "list_all (\<lambda>p. case set_buffer (am demo_open) p INVOKE of Inr x \<Rightarrow> True | Inl x \<Rightarrow> False) (take (scalars_bufs demo_sc) demo_args)"
    by code_simp
  then show "\<And>p. p \<in> set (take (scalars_bufs demo_sc) demo_args) \<Longrightarrow> \<exists>x. set_buffer (am demo_open) p INVOKE = Inr x"
    unfolding list_all_iff by (metis (mono_tags, lifting) sum.case(1) sum.exhaust)
  show "dma_wf (am demo_open)" by (rule demo_open_wf)
qed code_simp+


definition demo_call :: "((int \<times> u32 list) \<times> apps) option" where
  "demo_call = remote_handle64_invoke demo_henv 0x1000 demo_sc (Some demo_args) demo_open"

lemma demo_call_some: "demo_call = Some ((0, [0x100000, 0]), snd (the demo_call))"
proof -
  have "demo_call \<noteq> None \<and> fst (the demo_call) = (0, [0x100000, 0])" by code_simp
  then show ?thesis by (metis option.collapse prod.collapse)
qed

lemmas demo_call_result = demo_call_some [unfolded demo_call_def]

theorem invoke_request_faithful_witness:
  "sent (snd (the demo_call)) = sent demo_open \<or>
    (\<exists>domain remote d args. handle_map demo_open 0x1000 = Some (domain, remote) \<and>
       fastrpc_session_dev domain (sess (am demo_open)) = (0, d) \<and> request_of (am demo_open) demo_sc demo_args args \<and>
       sent (snd (the demo_call)) = sent demo_open @ [\<lparr>ki_dev = d, ki_handle = ucast remote, ki_sc = demo_sc, ki_args = args\<rparr>])"
  unfolding demo_call_def
  by (rule invoke_request_faithful [OF demo_open_ok(1) _ demo_call_result demo_open_wf]) code_simp

lemma demo_open_refs: "Session.refs_of (sess (am demo_open)) d \<noteq> Some (- 1)"
  by (simp add: demo_open_am Session.refs_of_def demo_st_def)

theorem invoke_keeps_references_witness:
  "hlist (sess (am (snd (the demo_call)))) = hlist (sess (am demo_open))"
  unfolding demo_call_def by (rule invoke_keeps_references [OF demo_call_result demo_open_refs])

theorem invoke_on_bad_handle_reports_success_witness:
  "remote_handle64_invoke demo_henv 0x2000 demo_sc (Some demo_args) demo_open = Some ((0, []), demo_open)"
  by (rule invoke_on_bad_handle_reports_success) code_simp

definition demo_awake :: apps where
  "demo_awake = demo_open\<lparr>wakelock := demo_wakelock, fastrpc_wake_lock_enable := (\<lambda>_. 1)\<rparr>"

definition demo_awake_call :: "((int \<times> u32 list) \<times> apps) option" where
  "demo_awake_call = remote_handle_invoke_domain demo_henv 3 0x100000 demo_sc (Some demo_args) demo_awake"

theorem invoke_balances_wake_lock_witness:
  "demo_awake_call \<noteq> None \<and> wl_count (wakelock (snd (the demo_awake_call))) = wl_count (wakelock demo_awake)"
proof -
  have n: "demo_awake_call \<noteq> None" by code_simp
  then have r: "remote_handle_invoke_domain demo_henv 3 0x100000 demo_sc (Some demo_args) demo_awake =
      Some (fst (the demo_awake_call), snd (the demo_awake_call))"
    by (simp add: demo_awake_call_def)
  have a: "a_written demo_henv w" for w by (simp add: demo_henv_def)
  have "wl_count (wakelock demo_awake) \<noteq> -1" "\<not> IS_REVERSE_RPC_CALL 0x100000 demo_sc" by code_simp+
  from invoke_balances_wake_lock [OF a this r] n show ?thesis by blast
qed

definition demo_crc :: apps where
  "demo_crc = upd_dom 3 (\<lambda>D. D\<lparr>procattrs := FASTRPC_MODE_CRC\<rparr>) demo_open"

definition demo_crc_call :: "((int \<times> u32 list) \<times> apps) option" where
  "demo_crc_call = remote_handle_invoke_domain demo_henv 3 0x100000 demo_sc (Some demo_args) demo_crc"

theorem crc_mode_blocks_calls_witness:
  "demo_crc_call \<noteq> None \<and> fst (fst (the demo_crc_call)) = AEE_EUNSUPPORTED \<and> sent (snd (the demo_crc_call)) = sent demo_crc"
proof -
  have n: "demo_crc_call \<noteq> None" "fst (fst (the demo_crc_call)) = AEE_EUNSUPPORTED" by code_simp+
  then have r: "remote_handle_invoke_domain demo_henv 3 0x100000 demo_sc (Some demo_args) demo_crc =
      Some (fst (the demo_crc_call), snd (the demo_crc_call))"
    by (simp add: demo_crc_call_def)
  have "procattrs (doms demo_crc 3) AND FASTRPC_MODE_CRC \<noteq> 0" "\<not> IS_STATIC_HANDLE 0x100000" by code_simp+
  from crc_mode_blocks_calls [OF this r] n show ?thesis by simp
qed

text \<open>With more than 64 buffers the checksums are stored behind the end of their list.\<close>

lemma crc_list_overflow:
  "remote_handle_invoke_domain demo_henv 3 0x100000 (REMOTE_SCALARS_MAKEX 0 2 64 1 0 0)
     (Some (replicate 65 \<lparr>buf_pv = 0x5000, buf_nLen = 0, dma_fd = 0, dma_offset = 0\<rparr>)) demo_crc = None"
proof -
  have "(case remote_handle_invoke_domain demo_henv 3 0x100000 (REMOTE_SCALARS_MAKEX 0 2 64 1 0 0)
     (Some (replicate 65 \<lparr>buf_pv = 0x5000, buf_nLen = 0, dma_fd = 0, dma_offset = 0\<rparr>)) demo_crc of None \<Rightarrow> True | Some x \<Rightarrow> False)"
    by code_simp
  then show ?thesis by (simp split: option.splits)
qed

text \<open>When the arguments cannot be allocated, the invocation reports success.\<close>

lemma no_memory_reports_success:
  "fst (the (remote_handle_invoke_domain (demo_henv\<lparr>a_alloc := \<lambda>_ _. False\<rparr>) 3 0x100000 demo_sc (Some demo_args) demo_open)) = (0, [])"
  by code_simp

end
