(* ===== verification/Domain.thy ===== *)
theory Domain
  imports Invoke "HOL-Library.Monad_Syntax"
begin

text \<open>
  The session of a domain, \<^verbatim>\<open>src/fastrpc_apps_user.c\<close>: the process attributes, the creation of the
  process on the DSP (\<^verbatim>\<open>remote_init\<close>), the start and the end of a session (\<^verbatim>\<open>domain_init\<close>,
  \<^verbatim>\<open>domain_deinit\<close>), together with the calls that they make on the DSP through the library's own
  stubs (\<^verbatim>\<open>src/remotectl1_stub.c\<close>, \<^verbatim>\<open>src/remotectl_stub.c\<close>, \<^verbatim>\<open>src/adsp_current_process1_stub.c\<close>).

  An operation returns \<open>None\<close> when an invocation in it writes behind a buffer. Calls into parts whose state is
  not here are recorded in \<open>calls\<close>. The shell file and the shared buffer of process parameters are not
  part of the state; the interface of the driver is the one of \<^verbatim>\<open>src/fastrpc_ioctl.c\<close>, which does not support
  the control requests.
\<close>

abbreviation (input) EACCES :: int where "EACCES \<equiv> 13"
abbreviation (input) ROOT_PD :: int where "ROOT_PD \<equiv> 1"
abbreviation (input) SENSORS_STATICPD :: int where "SENSORS_STATICPD \<equiv> 3"
abbreviation (input) SECURE_STATICPD :: int where "SECURE_STATICPD \<equiv> 4"
abbreviation (input) OIS_STATICPD :: int where "OIS_STATICPD \<equiv> 5"
abbreviation (input) USERPD :: int where "USERPD \<equiv> 7"
abbreviation (input) GUEST_OS_SHARED :: int where "GUEST_OS_SHARED \<equiv> 8"
abbreviation (input) AUDIOPD :: int where "AUDIOPD \<equiv> 2"

text \<open>\<^verbatim>\<open>DSP_AEE_EOFFSET\<close> as an \<^verbatim>\<open>int\<close>.\<close>

abbreviation (input) DSP_AEE_EOFFSET :: int where "DSP_AEE_EOFFSET \<equiv> 0x80000400 - 2 ^ 32"

section \<open>Stubs\<close>

definition stub_args :: "henv \<Rightarrow> u64 list \<Rightarrow> remote_arg list" where
  "stub_args e lens =
     map (\<lambda>(i, n). \<lparr>buf_pv = a_stack e i, buf_nLen = n, dma_fd = 0, dma_offset = 0\<rparr>) (enumerate 0 lens)"

text \<open>A word of the first output buffer, which is zero before the call.\<close>

definition word_at :: "u32 list \<Rightarrow> nat \<Rightarrow> u32" where
  "word_at out i = (if i < length out then out ! i else 0)"

definition stub_call64 ::
  "henv \<Rightarrow> u64 \<Rightarrow> u32 \<Rightarrow> u64 list \<Rightarrow> u64 list \<Rightarrow> apps \<Rightarrow> ((int \<times> u32 list) \<times> apps) option" where
  "stub_call64 e h mid ins outs s =
     remote_handle64_invoke e h (REMOTE_SCALARS_MAKEX 0 mid (of_nat (length ins)) (of_nat (length outs)) 0 0)
       (if ins = [] \<and> outs = [] then None else Some (stub_args e (ins @ outs))) s"

definition stub_call ::
  "henv \<Rightarrow> u32 \<Rightarrow> u32 \<Rightarrow> u64 list \<Rightarrow> u64 list \<Rightarrow> apps \<Rightarrow> ((int \<times> u32 list) \<times> apps) option" where
  "stub_call e h mid ins outs s =
     remote_handle_invoke e h (REMOTE_SCALARS_MAKEX 0 mid (of_nat (length ins)) (of_nat (length outs)) 0 0)
       (Some (stub_args e (ins @ outs))) s"

text \<open>Opening returns the error, the handle and the error of loading, which are only set when the call succeeds.\<close>

definition remotectl1_open1 :: "henv \<Rightarrow> u64 \<Rightarrow> string \<Rightarrow> apps \<Rightarrow> ((int \<times> u32 \<times> u32) \<times> apps) option" where
  "remotectl1_open1 e h name s =
     do { ((nErr, out), s) \<leftarrow> stub_call64 e h 2 [8, of_nat (length name + 1)] [8, 255] s;
          Some ((nErr, word_at out 0, word_at out 1), s) }"

definition remotectl_open :: "henv \<Rightarrow> string \<Rightarrow> apps \<Rightarrow> ((int \<times> u32 \<times> u32) \<times> apps) option" where
  "remotectl_open e name s =
     do { ((nErr, out), s) \<leftarrow> stub_call e 0 0 [8, of_nat (length name + 1)] [8, 255] s;
          Some ((nErr, word_at out 0, word_at out 1), s) }"

definition remotectl1_close1 :: "henv \<Rightarrow> u64 \<Rightarrow> apps \<Rightarrow> ((int \<times> u32) \<times> apps) option" where
  "remotectl1_close1 e h s =
     do { ((nErr, out), s) \<leftarrow> stub_call64 e h 3 [8] [4, 255] s; Some ((nErr, word_at out 0), s) }"

definition remotectl_close :: "henv \<Rightarrow> apps \<Rightarrow> ((int \<times> u32) \<times> apps) option" where
  "remotectl_close e s = do { ((nErr, out), s) \<leftarrow> stub_call e 0 1 [8] [4, 255] s; Some ((nErr, word_at out 0), s) }"

definition remotectl1_set_param :: "henv \<Rightarrow> u64 \<Rightarrow> nat \<Rightarrow> apps \<Rightarrow> (int \<times> apps) option" where
  "remotectl1_set_param e h n s = do { ((nErr, out), s) \<leftarrow> stub_call64 e h 5 [8, 4 * of_nat n] [] s; Some (nErr, s) }"

definition remotectl_set_param :: "henv \<Rightarrow> nat \<Rightarrow> apps \<Rightarrow> (int \<times> apps) option" where
  "remotectl_set_param e n s = do { ((nErr, out), s) \<leftarrow> stub_call e 0 3 [8, 4 * of_nat n] [] s; Some (nErr, s) }"

text \<open>A method of \<^verbatim>\<open>adsp_current_process1\<close> on the handle of the domain; when there is none, the call goes
  through the stub without a handle, \<^verbatim>\<open>adsp_current_process\<close>.\<close>

definition current_process_call :: "henv \<Rightarrow> u32 \<Rightarrow> u64 list \<Rightarrow> u64 \<Rightarrow> apps \<Rightarrow> (int \<times> apps) option" where
  "current_process_call e mid ins handle s =
     (if handle \<noteq> INVALID_HANDLE
      then do { ((nErr, out), s) \<leftarrow> stub_call64 e handle mid ins [] s; Some (nErr, s) }
      else Some (a_comp e s (CURRENT_PROCESS (unat mid)), s\<lparr>calls := calls s @ [CURRENT_PROCESS (unat mid)]\<rparr>))"

definition comp :: "henv \<Rightarrow> comp_call \<Rightarrow> apps \<Rightarrow> int \<times> apps" where
  "comp e c s = (a_comp e s c, s\<lparr>calls := calls s @ [c]\<rparr>)"

text \<open>Calls whose result is not looked at.\<close>

definition comps :: "comp_call list \<Rightarrow> apps \<Rightarrow> apps" where
  "comps cs s = s\<lparr>calls := calls s @ cs\<rparr>"

section \<open>Attributes of the process\<close>

definition bool_attr :: "bool \<Rightarrow> u32 \<Rightarrow> u32" where
  "bool_attr b a = (if b then a else 0)"

definition get_process_attrs :: "henv \<Rightarrow> int \<Rightarrow> apps \<Rightarrow> u32" where
  "get_process_attrs e domain s =
     (let c = a_config e; D = doms s domain in
        c_attrs c OR c_attrs_persistent c
        OR bool_attr (adaptive_qos D) 0x10
        OR bool_attr (unsigned_module D \<noteq> 0) 0x8
        OR bool_attr (pd_dump D \<or> c_pddump c) 0x80
        OR bool_attr (c_debug_pddump c) 0x100
        OR bool_attr (c_perfkernel c) 0x200
        OR bool_attr (c_perfdsp c) 0x400
        OR bool_attr (c_iregion c) 0x800
        OR bool_attr (c_qtf c) 0x1000
        OR (push_bit 13 (c_caller_level c) AND 0xE000)
        OR bool_attr (c_uaf c) 0x10000
        OR bool_attr (c_debug_logging c) 0x2000
        OR bool_attr (c_system_library c) 0x20
        OR bool_attr (c_sysmon c) 0x40000000
        OR bool_attr (c_logpacket c) 0x40000
        OR (push_bit 19 (c_leak_detect c) AND 0x180000)
        OR (push_bit 21 (c_stack_num c) AND 0xE00000))"

definition attach_guestos :: "int \<Rightarrow> int" where
  "attach_guestos domain = (if GET_DOMAIN_FROM_EFFEC_DOMAIN_ID domain \<in> {0, 1, 2, 3, 4, 5, 6} then USERPD else ROOT_PD)"

section \<open>Creating the process\<close>

definition session_dev :: "int \<Rightarrow> apps \<Rightarrow> int" where
  "session_dev domain s = (case hlist (sess (am s)) of Some h \<Rightarrow> dev (h domain) | None \<Rightarrow> -1)"

definition set_dev :: "int \<Rightarrow> int \<Rightarrow> apps \<Rightarrow> apps" where
  "set_dev domain d = upd_sess (upd_domain domain (\<lambda>h. h\<lparr>dev := d\<rparr>))"

definition set_state :: "int \<Rightarrow> domain_state \<Rightarrow> apps \<Rightarrow> apps" where
  "set_state domain x = upd_sess (upd_domain domain (\<lambda>h. h\<lparr>state := x\<rparr>))"

definition set_errno :: "int \<Rightarrow> apps \<Rightarrow> apps" where
  "set_errno en s = s\<lparr>am := (am s)\<lparr>errno := en\<rparr>\<rparr>"

text \<open>A request of \<^verbatim>\<open>ioctl_init\<close>: the error and the state with the new \<^verbatim>\<open>errno\<close>.\<close>

definition ioctl_init :: "henv \<Rightarrow> init_req \<Rightarrow> apps \<Rightarrow> int \<times> apps" where
  "ioctl_init e r s = (case a_init e s r of (ioErr, en) \<Rightarrow> (ioErr, set_errno en s))"

text \<open>The branches on the type of the process, from the open device on.\<close>

definition create_process :: "henv \<Rightarrow> int \<Rightarrow> int \<Rightarrow> int \<Rightarrow> apps \<Rightarrow> int \<times> apps" where
  "create_process e domain pd_type d s =
     (if pd_type \<in> {ROOT_PD, GUEST_OS_SHARED, SECURE_STATICPD}
      then if pd_type = SECURE_STATICPD \<and> \<not> a_static_file e then (AEE_ENOMEMORY, s)
           else case ioctl_init e (INIT_ATTACH d) s of (ioErr, s) \<Rightarrow>
                  (if ioErr = 0 \<or> errno (am s) \<in> {25, 6, 22} then 0 else AEE_ERPC, s)
      else if pd_type \<in> {AUDIOPD, OIS_STATICPD}
      then if \<not> a_static_file e then (AEE_ENORPCMEMORY, s)
           else case ioctl_init e (INIT_CREATE_STATIC d (dsppdname (doms s domain)) (if pd_type = AUDIOPD then 0x300000 else 0)) s of
                  (ioErr, s) \<Rightarrow> (if ioErr \<noteq> 0 then convert_kernel_to_user_error ioErr (errno (am s)) else 0, s)
      else if pd_type = SENSORS_STATICPD
      then case ioctl_init e (INIT_ATTACH_SENSORS d) s of (ioErr, s) \<Rightarrow>
             (if ioErr = 0 \<or> errno (am s) \<in> {25, 6, 22} then 0 else AEE_ERPC, s)
      else if pd_type = USERPD
      then let s = upd_dom domain (\<lambda>D. D\<lparr>procattrs := get_process_attrs e domain s\<rparr>) s in
           (case a_shell e of
              ShellError nErr \<Rightarrow> (nErr, s)
            | x \<Rightarrow> (case ioctl_init e (INIT_CREATE d (procattrs (doms s domain)) (case x of Shell fd \<Rightarrow> fd | _ \<Rightarrow> -1)) s of
                      (ioErr, s) \<Rightarrow> (if ioErr \<noteq> 0 then if errno (am s) = 111 then AEE_ECONNREFUSED else ioErr else 0, s)))
      else (0, s))"

definition remote_init :: "henv \<Rightarrow> int \<Rightarrow> apps \<Rightarrow> int \<times> apps" where
  "remote_init e domain s =
     (let s = upd_sess (set_thread_context domain) s;
          pd_type = dsppd (doms s domain)
      in if \<not> (0 < pd_type \<and> pd_type < 9) then (AEE_EBADITEM, s)
         else if session_dev domain s \<noteq> -1 then (0, s)
         else let d = open_device_node (a_open e) domain
              in if \<not> d \<ge> 0 then (AEE_ECONNREFUSED, s)
                 else case create_process e domain pd_type d (upd_dom domain (\<lambda>D. D\<lparr>info := 1\<rparr>) s) of (nErr, s) \<Rightarrow>
                   if nErr \<noteq> 0
                   then (if nErr = -1 \<and> errno (am s) = ECONNRESET then AEE_ECONNRESET else nErr, comps [CLOSE_DEVICE d] s)
                   else (0, upd_dom domain (\<lambda>D. D\<lparr>disable_exit_logs := False\<rparr>) (set_dev domain d s)))"

section \<open>The wake lock of a session\<close>

definition ioctl_control :: int where
  "ioctl_control = AEE_EUNSUPPORTED"

text \<open>The control request fails as unsupported, which is the first branch of the source.\<close>

definition update_kernel_wakelock_status :: "henv \<Rightarrow> int \<Rightarrow> apps \<Rightarrow> int \<times> apps" where
  "update_kernel_wakelock_status e domain s =
     (if ioctl_control = 0 then (0, s)
      else if errno (am s) \<in> {56, 25, 6, 22} \<or> ioctl_control = AEE_EUNSUPPORTED
      then (AEE_SUCCESS,
            s\<lparr>fastrpc_wake_lock_enable := (fastrpc_wake_lock_enable s)(domain := 0),
              wakelock := snd (fastrpc_wake_lock_deinit (a_written e) (a_close e) (a_close e) (wakelock s))\<rparr>)
      else (ioctl_control, s))"

definition wakelock_control :: "henv \<Rightarrow> wake_env \<Rightarrow> int \<Rightarrow> u32 \<Rightarrow> apps \<Rightarrow> int \<times> apps" where
  "wakelock_control e we domain wl_enable s =
     (if fastrpc_wake_lock_enable s domain = wl_enable then (AEE_SUCCESS, s)
      else case (if wl_enable \<noteq> 0 then fastrpc_wake_lock_init we (wakelock s)
                 else fastrpc_wake_lock_deinit (a_written e) (a_close e) (a_close e) (wakelock s)) of (nErr, w) \<Rightarrow>
        let s = s\<lparr>wakelock := w\<rparr>
        in if nErr \<noteq> 0 then (nErr, s)
           else case (if session_dev domain s \<noteq> -1 then update_kernel_wakelock_status e domain s else (0, s)) of (nErr, s) \<Rightarrow>
             if nErr \<noteq> 0 then (nErr, s)
             else (0, s\<lparr>fastrpc_wake_lock_enable := (fastrpc_wake_lock_enable s)(domain := wl_enable)\<rparr>))"

section \<open>The end of a session\<close>

definition clear_domain :: "int \<Rightarrow> apps \<Rightarrow> apps" where
  "clear_domain domain =
     upd_dom domain (\<lambda>D. D\<lparr>cphandle := 0, msghandle := 0, remotectlhandle := 0, listenerhandle := 0, info := -1,
                          dsppd := attach_guestos domain, dsppdname := [], sessionname := []\<rparr>)
     \<circ> set_dev domain INVALID_DEVICE
     \<circ> upd_sess (upd_domain domain (\<lambda>h. h\<lparr>state := FASTRPC_DOMAIN_STATE_CLEAN, ref := 0\<rparr>))"

text \<open>From the state \<^verbatim>\<open>DEINIT\<close> to the closed device.\<close>

definition shut_down :: "henv \<Rightarrow> int \<Rightarrow> int \<Rightarrow> apps \<Rightarrow> apps" where
  "shut_down e domain olddev s =
     (let s = set_state domain FASTRPC_DOMAIN_STATE_DEINIT s;
          s = comps [DSPSIGNAL_DOMAIN_DEINIT domain, LISTENER_DOMAIN_DEINIT domain] s;
          s = upd_dom domain (\<lambda>D. D\<lparr>first_revrpc_done := False\<rparr>) s;
          s = comps [NOTIF_DOMAIN_DEINIT domain] s;
          s = fastrpc_clear_handle_list e MULTI_DOMAIN_HANDLE_LIST_ID domain s;
          s = fastrpc_clear_handle_list e REVERSE_HANDLE_LIST_ID domain s;
          s = (if domain = default_domain (a_mem e) then fastrpc_clear_handle_list e NON_DOMAIN_HANDLE_LIST_ID domain s else s);
          s = comps [PERF_DEINIT, TRACE_MARKER_DEINIT domain, FILE_WATCHER_DEINIT domain, ADSPMSGD_STOP domain] s;
          s = s\<lparr>am := snd (fastrpc_mem_close domain (am s))\<rparr>;
          s = comps [APPS_MEM_DEINIT domain] s
      in comps [CLOSE_DEVICE olddev] (clear_domain domain s))"

definition domain_deinit :: "henv \<Rightarrow> int \<Rightarrow> apps \<Rightarrow> apps option" where
  "domain_deinit e domain s =
     (if hlist (sess (am s)) = None then Some s
      else do {
        s \<leftarrow> (if session_dev domain s \<noteq> -1
             then let olddev = session_dev domain s in
                  case get_adsp_current_process1_handle e domain s of (handle, s) \<Rightarrow>
                    do { (nErr, s) \<leftarrow> current_process_call e 2 [] handle s; Some (shut_down e domain olddev s) }
             else Some s);
        Some (set_state domain FASTRPC_DOMAIN_STATE_CLEAN (upd_dom domain (\<lambda>D. D\<lparr>is_session_reserved := False\<rparr>) s)) })"

section \<open>The start of a session\<close>

definition enable_process_state_notif_on_dsp :: "henv \<Rightarrow> int \<Rightarrow> apps \<Rightarrow> (int \<times> apps) option" where
  "enable_process_state_notif_on_dsp e domain s =
     (let s = comps [NOTIF_DOMAIN_INIT domain] s in
      case get_adsp_current_process1_handle e domain s of (handle, s) \<Rightarrow> current_process_call e 10 [] handle s)"

definition send_errcodes :: "henv \<Rightarrow> int \<Rightarrow> apps \<Rightarrow> apps option" where
  "send_errcodes e domain s =
     (if GET_DOMAIN_FROM_EFFEC_DOMAIN_ID domain \<in> {3, 4, 5, 6}
      then case get_adsp_current_process1_handle e domain s of (handle, s) \<Rightarrow>
        if handle \<noteq> INVALID_HANDLE \<and> c_errcodes (a_config e) \<noteq> 0
        then do { (ret, s) \<leftarrow> current_process_call e 11 [4, 4 * of_nat (c_errcodes (a_config e))] handle s; Some s }
        else Some s
      else Some s)"

text \<open>The steps that start a session, in order, until the first error: the process and its memory; the
  messages to the process; the listener.\<close>

definition prepare_session :: "henv \<Rightarrow> int \<Rightarrow> apps \<Rightarrow> int \<times> apps" where
  "prepare_session e domain s =
     (case remote_init e domain s of (nErr, s) \<Rightarrow>
        if nErr \<noteq> 0 then (nErr, s)
        else case (if fastrpc_wake_lock_enable s domain \<noteq> 0 then update_kernel_wakelock_status e domain s else (0, s)) of (nErr, s) \<Rightarrow>
          if nErr \<noteq> 0 then (nErr, s)
          else case fastrpc_mem_open (a_mem e) domain (am s) of (nErr, st) \<Rightarrow>
            if nErr \<noteq> 0 then (nErr, s\<lparr>am := st\<rparr>)
            else comp e (APPS_MEM_INIT domain) (s\<lparr>am := st\<rparr>))"

definition announce_session :: "henv \<Rightarrow> int \<Rightarrow> apps \<Rightarrow> (int \<times> apps) option" where
  "announce_session e domain s =
     do {
       s \<leftarrow> send_errcodes e domain s;
       let s = comps [FILE_WATCHER_INIT domain, TRACE_MARKER_INIT domain] s;
       if notif_flag s
       then do {
         (ret, s) \<leftarrow> enable_process_state_notif_on_dsp e domain s;
         Some (if ret = AEE_SUCCESS \<or> ret = DSP_AEE_EOFFSET + AEE_EUNSUPPORTED then 0 else ret, s) }
       else Some (0, s) }"

definition run_session :: "henv \<Rightarrow> int \<Rightarrow> apps \<Rightarrow> int \<times> apps" where
  "run_session e domain s =
     (let s = comps [PERF_INIT domain] s;
          s = upd_sess (upd_domain domain (\<lambda>h. h\<lparr>state := FASTRPC_DOMAIN_STATE_INIT, ref := 0\<rparr>)) s
      in case comp e (LISTENER_DOMAIN_INIT domain) s of (nErr, s) \<Rightarrow>
           if nErr \<noteq> 0 then (nErr, s)
           else if GET_DOMAIN_FROM_EFFEC_DOMAIN_ID domain \<noteq> SDSP_DOMAIN_ID \<and> dsppd (doms s domain) = ROOT_PD
           then case get_adspmsgd_adsp1_handle e domain s of (handle, s) \<Rightarrow>
                  (0, if handle \<noteq> INVALID_HANDLE then comps [ADSPMSGD_INIT domain] s else s)
           else (0, s))"

definition start_session :: "henv \<Rightarrow> int \<Rightarrow> apps \<Rightarrow> (int \<times> apps) option" where
  "start_session e domain s =
     (let s = upd_dom domain (\<lambda>D. D\<lparr>ql := [], nql := [], rql := [], is_session_reserved := True\<rparr>) s
      in case prepare_session e domain s of (nErr, s) \<Rightarrow>
           if nErr \<noteq> 0 then Some (nErr, s)
           else do {
             (nErr, s) \<leftarrow> announce_session e domain s;
             Some (if nErr \<noteq> 0 then (nErr, s) else run_session e domain s) })"

text \<open>Returns the error, the device and the state.\<close>

definition domain_init :: "henv \<Rightarrow> int \<Rightarrow> apps \<Rightarrow> ((int \<times> int) \<times> apps) option" where
  "domain_init e domain s =
     (case hlist (sess (am s)) of
        None \<Rightarrow> None
      | Some h \<Rightarrow>
          if state (h domain) \<noteq> FASTRPC_DOMAIN_STATE_CLEAN then Some ((AEE_SUCCESS, dev (h domain)), s)
          else do {
            (nErr, s) \<leftarrow> start_session e domain s;
            if nErr \<noteq> 0 then do { s \<leftarrow> domain_deinit e domain s; Some ((nErr, -1), s) }
            else Some ((0, session_dev domain s), s) })"

end
