(* ===== verification/DomainProps.thy ===== *)
theory DomainProps
  imports Domain InvokeProps
begin

text \<open>
  The life of a session: starting it either opens its device or leaves nothing behind, ending it always
  closes everything, and the calls made on the way change neither. The specification is a machine with
  two phases per domain.
\<close>

section \<open>Devices and states\<close>

definition devs :: "apps \<Rightarrow> (int \<Rightarrow> domain_state \<times> int) option" where
  "devs s = map_option (\<lambda>h d. (state (h d), dev (h d))) (hlist (sess (am s)))"

lemma devs_simps [simp]:
  "devs (upd_dom d f s) = devs s" "devs (comps cs s) = devs s" "devs (set_errno en s) = devs s"
  "devs (s\<lparr>wakelock := w\<rparr>) = devs s" "devs (s\<lparr>fastrpc_wake_lock_enable := x\<rparr>) = devs s" "devs (s\<lparr>calls := cs\<rparr>) = devs s"
  "devs (s\<lparr>mods := m\<rparr>) = devs s"
  by (simp_all add: devs_def comps_def set_errno_def)

lemma devs_am: "hlist (sess st) = hlist (sess (am s)) \<Longrightarrow> devs (s\<lparr>am := st\<rparr>) = devs s"
  by (simp add: devs_def)

lemma devs_upd_sess:
  "devs (upd_sess (upd_domain d f) s) =
     map_option (\<lambda>h. (\<lambda>x. (state (h x), dev (h x)))(d := (state (f (h d)), dev (f (h d))))) (hlist (sess (am s)))"
  by (cases "hlist (sess (am s))") (auto simp: devs_def upd_sess_def fun_eq_iff)

lemma devs_session_get: "devs (upd_sess (\<lambda>_. snd (fastrpc_session_get d (sess (am s)))) s) = devs s"
  by (auto simp: devs_def upd_sess_def fastrpc_session_get_def split: option.splits)

lemma devs_put_ref [simp]: "devs (put_ref d s) = devs s"
  by (auto simp: devs_def put_ref_def upd_sess_def fastrpc_session_put_def Let_def split: option.splits)

lemma devs_get_ref: "get_ref d s = (nErr, s') \<Longrightarrow> devs s' = devs s"
  using devs_session_get [of d s] by (auto simp: get_ref_def split: prod.splits)

lemma session_dev_devs: "session_dev d s = (case devs s of None \<Rightarrow> -1 | Some h \<Rightarrow> snd (h d))"
  by (auto simp: session_dev_def devs_def split: option.splits)

lemma devs_cong: "devs s' = devs s \<Longrightarrow> session_dev d s' = session_dev d s"
  by (simp add: session_dev_devs)

lemma devs_invoke_domain: "remote_handle_invoke_domain e domain handle sc pra s = Some (r, s') \<Longrightarrow> devs s' = devs s"
  using invoke_domain_frame(1) by (simp add: devs_def)

lemma devs_invoke64:
  assumes "remote_handle64_invoke e local sc pra s = Some ((nErr, out), s')"
  shows "devs s' = devs s"
  using assms
proof (cases rule: handle64_invoke_cases)
  case (call domain remote s1 s2 r)
  then show ?thesis using devs_get_ref [OF call(2)] devs_invoke_domain [OF call(4)] by simp
next
  case (unresolved domain s1)
  then show ?thesis using devs_get_ref by simp
qed simp

lemma devs_invoke:
  assumes "remote_handle_invoke e handle sc pra s = Some ((nErr, out), s')"
  shows "devs s' = devs s"
proof (cases "fastrpc_init_once (am s) \<noteq> 0 \<or> handle = -1")
  case True
  with assms show ?thesis by (auto simp: remote_handle_invoke_def Let_def split: if_splits)
next
  case False
  let ?d = "get_current_domain (default_domain (a_mem e)) (sess (am s))"
  obtain k s1 where g: "get_ref ?d s = (k, s1)" by (metis surj_pair)
  show ?thesis
    using assms False g devs_get_ref [OF g]
    by (auto simp: remote_handle_invoke_def Let_def split: if_splits dest!: devs_invoke_domain)
qed

lemma devs_stub [simp]:
  "stub_call64 e h mid ins outs s = Some ((nErr, out), s') \<Longrightarrow> devs s' = devs s"
  "stub_call e k mid ins outs s = Some ((nErr, out), s') \<Longrightarrow> devs s' = devs s"
  by (auto simp: stub_call64_def stub_call_def dest: devs_invoke64 devs_invoke)

lemma devs_current_process: "current_process_call e mid ins handle s = Some (nErr, s') \<Longrightarrow> devs s' = devs s"
  by (auto simp: current_process_call_def split: if_splits Option.bind_splits dest: devs_stub)

lemma devs_update_list: "fastrpc_update_module_list e req d h name s = (r, s') \<Longrightarrow> devs s' = devs s"
  by (auto simp: update_list_defs Let_def split: handle_list_update_id.splits if_splits)

lemma devs_static: "get_static_handle e get put const d s = (h, s') \<Longrightarrow> devs s' = devs s"
  by (auto simp: get_static_handle_def split: if_splits prod.splits option.splits dest: devs_update_list)

lemmas static_handle_defs = get_adsp_current_process1_handle_def get_adspmsgd_adsp1_handle_def
  get_adsp_listener1_handle_def get_remotectl1_handle_def get_adsp_perf1_handle_def

lemma devs_static_handles:
  "get_adsp_current_process1_handle e d s = (h, s') \<Longrightarrow> devs s' = devs s"
  "get_adspmsgd_adsp1_handle e d s = (h, s') \<Longrightarrow> devs s' = devs s"
  "get_remotectl1_handle e d s = (h, s') \<Longrightarrow> devs s' = devs s"
  by (auto simp: static_handle_defs dest: devs_static)

lemma close_reverse_am: "am (snd (close_reverse_handle e h s)) = am s"
  by (auto simp: close_reverse_handle_def apps_remotectl_close_def update_list_defs Let_def split: prod.splits)

lemma clear_reverse_am: "am (clear_reverse e d n s) = am s"
  by (induction e d n s rule: clear_reverse.induct) (auto simp: close_reverse_am split: list.splits)

lemma clear_list_am [simp]: "am (fastrpc_clear_handle_list e req d s) = am s"
  by (cases req) (simp_all add: fastrpc_clear_handle_list_def clear_reverse_am)

lemma mem_close_sess [simp]: "sess (snd (fastrpc_mem_close d st)) = sess st"
  by (simp add: fastrpc_mem_close_def upd_smap_def)


section \<open>Ending a session\<close>

text \<open>What a domain without a session looks like.\<close>

definition closed_domain :: "int \<Rightarrow> apps \<Rightarrow> bool" where
  "closed_domain domain s \<longleftrightarrow> session_dev domain s = -1 \<and> \<not> is_session_reserved (doms s domain) \<and>
     ql (doms s domain) = [] \<and> rql (doms s domain) = []"

text \<open>The phase of a domain: \<open>None\<close> while it is being started or ended.\<close>

datatype phase = Closed | Running int

definition phase_of :: "int \<Rightarrow> apps \<Rightarrow> phase option" where
  "phase_of domain s =
     (case devs s of
        None \<Rightarrow> None
      | Some h \<Rightarrow>
          if h domain = (FASTRPC_DOMAIN_STATE_CLEAN, -1) then Some Closed
          else if fst (h domain) = FASTRPC_DOMAIN_STATE_INIT \<and> snd (h domain) \<noteq> -1 then Some (Running (snd (h domain)))
          else None)"

lemma phase_cong: "devs s' = devs s \<Longrightarrow> phase_of d s' = phase_of d s"
  by (simp add: phase_of_def)

lemma doms_upd_sess [simp]: "doms (upd_sess f s) = doms s" "calls (upd_sess f s) = calls s"
  by (simp_all add: upd_sess_def)

lemma doms_comps [simp]: "doms (comps cs s) = doms s" "calls (comps cs s) = calls s @ cs" "am (comps cs s) = am s"
  by (simp_all add: comps_def)

lemma calls_clear_reverse: "calls (clear_reverse e d n s) = calls s"
proof -
  have c: "calls (snd (close_reverse_handle e h s)) = calls s" for e h s
    by (auto simp: close_reverse_handle_def apps_remotectl_close_def update_list_defs Let_def split: prod.splits)
  show ?thesis by (induction e d n s rule: clear_reverse.induct) (auto simp: c split: list.splits)
qed

lemma calls_clear_list [simp]: "calls (fastrpc_clear_handle_list e req d s) = calls s"
  by (cases req) (simp_all add: fastrpc_clear_handle_list_def calls_clear_reverse)

lemma ql_clear_reverse: "ql (doms (clear_reverse e d n s) x) = ql (doms s x)"
proof -
  have c: "ql (doms (snd (close_reverse_handle e h s)) x) = ql (doms s x)" for e h s
    by (auto simp: close_reverse_handle_def apps_remotectl_close_def update_list_defs Let_def split: prod.splits)
  show ?thesis by (induction e d n s rule: clear_reverse.induct) (auto simp: c split: list.splits)
qed

lemma handle_list_fields: "(h :: handle_list)\<lparr>state := a, ref := b, dev := c\<rparr> = \<lparr>state = a, ref = b, dev = c\<rparr>"
  by (cases h) simp

lemma shut_down_closed:
  assumes "hlist (sess (am s)) = Some h"
  shows "session_dev domain (shut_down e domain olddev s) = -1"
    and "ql (doms (shut_down e domain olddev s) domain) = []" and "rql (doms (shut_down e domain olddev s) domain) = []"
    and "\<exists>cs. calls (shut_down e domain olddev s) = calls s @ cs @ [CLOSE_DEVICE olddev]"
    and "hlist (sess (am (shut_down e domain olddev s))) =
      Some (h(domain := \<lparr>state = FASTRPC_DOMAIN_STATE_CLEAN, ref = 0, dev = -1\<rparr>))"
    and "domain = default_domain (a_mem e) \<Longrightarrow> nql (doms (shut_down e domain olddev s) domain) = []"
proof -
  show hl: "hlist (sess (am (shut_down e domain olddev s))) =
      Some (h(domain := \<lparr>state = FASTRPC_DOMAIN_STATE_CLEAN, ref = 0, dev = -1\<rparr>))"
    using assms by (simp add: shut_down_def Let_def clear_domain_def set_dev_def set_state_def upd_sess_def handle_list_fields)
  then show "session_dev domain (shut_down e domain olddev s) = -1" by (simp add: session_dev_def)
  show "ql (doms (shut_down e domain olddev s) domain) = []"
    by (simp add: shut_down_def Let_def clear_domain_def set_dev_def fastrpc_clear_handle_list_def ql_clear_reverse)
  show "rql (doms (shut_down e domain olddev s) domain) = []"
    by (simp add: shut_down_def Let_def clear_domain_def set_dev_def fastrpc_clear_handle_list_def clear_reverse_empties)
  show "nql (doms (shut_down e domain olddev s) domain) = []" if "domain = default_domain (a_mem e)"
    using that by (simp add: shut_down_def Let_def clear_domain_def set_dev_def fastrpc_clear_handle_list_def)
  show "\<exists>cs. calls (shut_down e domain olddev s) = calls s @ cs @ [CLOSE_DEVICE olddev]"
    by (simp add: shut_down_def Let_def clear_domain_def set_dev_def set_state_def)
qed


lemma domain_deinit_closed:
  assumes "domain_deinit e domain s = Some s'" and "devs s = Some h"
  shows "session_dev domain s' = -1" and "\<not> is_session_reserved (doms s' domain)"
    and "devs s' = Some (h(domain := (FASTRPC_DOMAIN_STATE_CLEAN, -1)))"
    and "snd (h domain) \<noteq> -1 \<Longrightarrow> ql (doms s' domain) = [] \<and> rql (doms s' domain) = [] \<and>
           (\<exists>cs. calls s' = cs @ [CLOSE_DEVICE (snd (h domain))])"
    and "snd (h domain) = -1 \<Longrightarrow> ql (doms s' domain) = ql (doms s domain) \<and> rql (doms s' domain) = rql (doms s domain) \<and> calls s' = calls s"
    and "snd (h domain) \<noteq> -1 \<Longrightarrow> Session.refs_of (sess (am s')) domain = Some 0 \<and>
           (domain = default_domain (a_mem e) \<longrightarrow> nql (doms s' domain) = [])"
proof -
  obtain H where H: "hlist (sess (am s)) = Some H" "h = (\<lambda>x. (state (H x), dev (H x)))"
    using assms(2) by (auto simp: devs_def)
  have d: "session_dev domain s = snd (h domain)" by (simp add: session_dev_devs assms(2))
  obtain s1 where s': "s' = set_state domain FASTRPC_DOMAIN_STATE_CLEAN (upd_dom domain (\<lambda>D. D\<lparr>is_session_reserved := False\<rparr>) s1)"
    and cases1: "snd (h domain) = -1 \<and> s1 = s \<or> snd (h domain) \<noteq> -1 \<and> (\<exists>s0. devs s0 = devs s \<and> s1 = shut_down e domain (snd (h domain)) s0)"
  proof (cases "snd (h domain) = -1")
    case True
    then show ?thesis using that [of s] assms(1) H(1) d by (simp add: domain_deinit_def)
  next
    case False
    obtain handle s2 where g: "get_adsp_current_process1_handle e domain s = (handle, s2)" by (metis surj_pair)
    from assms(1) H(1) d False g obtain nErr s3 where c: "current_process_call e 2 [] handle s2 = Some (nErr, s3)"
      and s'': "s' = set_state domain FASTRPC_DOMAIN_STATE_CLEAN (upd_dom domain (\<lambda>D. D\<lparr>is_session_reserved := False\<rparr>) (shut_down e domain (snd (h domain)) s3))"
      by (auto simp: domain_deinit_def split: Option.bind_splits)
    show ?thesis using that [OF s''] False devs_current_process [OF c] devs_static_handles(1) [OF g] by auto
  qed
  show devs': "devs s' = Some (h(domain := (FASTRPC_DOMAIN_STATE_CLEAN, -1)))"
    using cases1
  proof
    assume c: "snd (h domain) = -1 \<and> s1 = s"
    then show ?thesis using H by (auto simp: s' set_state_def devs_upd_sess)
  next
    assume "snd (h domain) \<noteq> -1 \<and> (\<exists>s0. devs s0 = devs s \<and> s1 = shut_down e domain (snd (h domain)) s0)"
    then obtain s0 where s0: "devs s0 = devs s" "s1 = shut_down e domain (snd (h domain)) s0" by blast
    then obtain H0 where H0: "hlist (sess (am s0)) = Some H0" "h = (\<lambda>x. (state (H0 x), dev (H0 x)))"
      using assms(2) by (auto simp: devs_def)
    show ?thesis using shut_down_closed(5) [OF H0(1)] s0(2) H0(2) by (auto simp: s' set_state_def devs_upd_sess)
  qed
  then show "session_dev domain s' = -1" by (simp add: session_dev_devs)
  show "\<not> is_session_reserved (doms s' domain)" by (simp add: s' set_state_def)
  show "ql (doms s' domain) = [] \<and> rql (doms s' domain) = [] \<and> (\<exists>cs. calls s' = cs @ [CLOSE_DEVICE (snd (h domain))])"
    if n: "snd (h domain) \<noteq> -1"
  proof -
    obtain s0 where s0: "devs s0 = devs s" "s1 = shut_down e domain (snd (h domain)) s0" using cases1 n by blast
    then obtain H0 where H0: "hlist (sess (am s0)) = Some H0" using assms(2) by (auto simp: devs_def)
    from shut_down_closed(4) [OF H0, of e domain "snd (h domain)"] obtain cs
      where "calls s1 = calls s0 @ cs @ [CLOSE_DEVICE (snd (h domain))]" using s0(2) by blast
    then have "calls s' = (calls s0 @ cs) @ [CLOSE_DEVICE (snd (h domain))]" by (simp add: s' set_state_def)
    then show ?thesis using shut_down_closed(2,3) [OF H0] s0(2) by (auto simp: s' set_state_def)
  qed
  show "ql (doms s' domain) = ql (doms s domain) \<and> rql (doms s' domain) = rql (doms s domain) \<and> calls s' = calls s"
    if "snd (h domain) = -1"
    using cases1 that by (auto simp: s' set_state_def)
  show "Session.refs_of (sess (am s')) domain = Some 0 \<and> (domain = default_domain (a_mem e) \<longrightarrow> nql (doms s' domain) = [])"
    if n: "snd (h domain) \<noteq> -1"
  proof -
    obtain s0 where s0: "devs s0 = devs s" "s1 = shut_down e domain (snd (h domain)) s0" using cases1 n by blast
    then obtain H0 where H0: "hlist (sess (am s0)) = Some H0" using assms(2) by (auto simp: devs_def)
    show ?thesis
      using shut_down_closed(5,6) [OF H0, where e = e and domain = domain and olddev = "snd (h domain)"] s0(2)
      by (auto simp: s' set_state_def upd_sess_def Session.refs_of_def)
  qed
qed


section \<open>Starting a session\<close>

definition sdevs :: "session \<Rightarrow> (int \<Rightarrow> domain_state \<times> int) option" where
  "sdevs se = map_option (\<lambda>h d. (state (h d), dev (h d))) (hlist se)"

lemma devs_sdevs: "devs s = sdevs (sess (am s))"
  by (simp add: devs_def sdevs_def)

lemma sdevs_get: "fastrpc_session_get d se = (nErr, se') \<Longrightarrow> sdevs se' = sdevs se"
  by (auto simp: sdevs_def fastrpc_session_get_def intro!: ext split: option.splits if_splits)

lemma sdevs_put: "sdevs (snd (fastrpc_session_put d se)) = sdevs se"
  by (auto simp: sdevs_def fastrpc_session_put_def Let_def intro!: ext split: option.splits)

lemma sdevs_mmap: "sdevs (sess (snd (fastrpc_mmap env d fd va off len fl st))) = sdevs (sess st)"
proof -
  have w: "sdevs (sess st') = sdevs (sess st)"
    if "with_session x f (mmap_locked env x fd va off len fl' attrs) st = (r, st')" for x f off fl' attrs r st'
    using that by (auto simp: with_session_def sdevs_put dest!: mmap_locked_sess dest: sdevs_get split: prod.splits if_splits)
  show ?thesis
    by (auto simp: fastrpc_mmap_def fastrpc_mmap_helper_def Let_def clear_errno_def split: prod.splits dest: w)
qed

lemma sdevs_mem_open:
  assumes "fastrpc_mem_open env d st = (nErr, st')"
  shows "sdevs (sess st') = sdevs (sess st)"
proof -
  have "sdevs (sess (snd (fold (mem_open1 env d) ts acc))) = sdevs (sess (snd acc))" for ts acc
  proof (induction ts arbitrary: acc)
    case (Cons t ts)
    have "sdevs (sess (snd (mem_open1 env d t acc))) = sdevs (sess (snd acc))"
      by (cases acc) (auto simp: mem_open1_def split: prod.splits, metis sdevs_mmap snd_conv)
    then show ?case using Cons by simp
  qed simp
  from this [of "fdlist st" "([], st)"] show ?thesis
    using assms by (auto simp: fastrpc_mem_open_def split: if_splits prod.splits)
qed

lemma create_process_frame:
  assumes "create_process e domain t d s = (nErr, s')"
  shows "devs s' = devs s" and "ql (doms s' x) = ql (doms s x)" and "rql (doms s' x) = rql (doms s x)"
  using assms by (auto simp: create_process_def ioctl_init_def Let_def set_errno_def devs_def
      split: if_splits prod.splits shell.splits)

lemma set_thread_sdevs [simp]: "devs (upd_sess (set_thread_context d) s) = devs s"
  by (simp add: devs_def upd_sess_def)

lemma remote_init_effect:
  assumes "remote_init e domain s = (nErr, s')" and "devs s = Some h"
  shows "nErr \<noteq> 0 \<Longrightarrow> devs s' = devs s \<and> ql (doms s' domain) = ql (doms s domain) \<and> rql (doms s' domain) = rql (doms s domain)"
    and "nErr = 0 \<Longrightarrow> \<exists>d \<noteq> -1. devs s' = Some (h(domain := (fst (h domain), d))) \<and> (snd (h domain) \<noteq> -1 \<longrightarrow> d = snd (h domain))"
proof -
  let ?s1 = "upd_sess (set_thread_context domain) s"
  let ?s2 = "upd_dom domain (\<lambda>D. D\<lparr>info := 1\<rparr>) ?s1"
  let ?d = "open_device_node (a_open e) domain"
  obtain k s3 where c: "create_process e domain (dsppd (doms ?s1 domain)) ?d ?s2 = (k, s3)" by (metis surj_pair)
  note f = create_process_frame [OF c]
  have sd: "session_dev domain ?s1 = snd (h domain)" by (simp add: session_dev_devs assms(2))
  show "devs s' = devs s \<and> ql (doms s' domain) = ql (doms s domain) \<and> rql (doms s' domain) = rql (doms s domain)" if "nErr \<noteq> 0"
    using assms(1) c f(1) f(2,3) [of domain] that by (auto simp: remote_init_def Let_def split: if_splits)
  show "\<exists>d \<noteq> -1. devs s' = Some (h(domain := (fst (h domain), d))) \<and> (snd (h domain) \<noteq> -1 \<longrightarrow> d = snd (h domain))" if "nErr = 0"
  proof (cases "snd (h domain) = -1")
    case False
    then have "devs s' = devs s" using assms(1) sd that by (auto simp: remote_init_def Let_def split: if_splits)
    then show ?thesis using False assms(2) by (auto intro!: exI [of _ "snd (h domain)"])
  next
    case True
    then have s': "?d \<noteq> -1" "devs s' = devs (set_dev domain ?d s3)"
      using assms(1) sd c that by (auto simp: remote_init_def Let_def split: if_splits)
    obtain H where "hlist (sess (am s3)) = Some H" "h = (\<lambda>x. (state (H x), dev (H x)))"
      using f(1) assms(2) by (auto simp: devs_def upd_sess_def)
    then have "devs (set_dev domain ?d s3) = Some (h(domain := (fst (h domain), ?d)))"
      by (auto simp: set_dev_def devs_upd_sess)
    then show ?thesis using s' True by auto
  qed
qed

lemma update_wakelock_devs: "update_kernel_wakelock_status e domain s = (nErr, s') \<Longrightarrow> devs s' = devs s"
  by (auto simp: update_kernel_wakelock_status_def devs_def split: if_splits)

lemma send_errcodes_devs: "send_errcodes e domain s = Some s' \<Longrightarrow> devs s' = devs s"
  by (auto simp: send_errcodes_def split: if_splits prod.splits Option.bind_splits
      dest!: devs_current_process dest: devs_static_handles(1))

lemma notif_devs: "enable_process_state_notif_on_dsp e domain s = Some (r, s') \<Longrightarrow> devs s' = devs s"
  by (auto simp: enable_process_state_notif_on_dsp_def Let_def split: prod.splits
      dest!: devs_current_process devs_static_handles(1))


definition opened :: "(int \<Rightarrow> domain_state \<times> int) \<Rightarrow> int \<Rightarrow> domain_state \<Rightarrow> apps \<Rightarrow> bool" where
  "opened h domain x s \<longleftrightarrow>
     (\<exists>d \<noteq> -1. devs s = Some (h(domain := (x, d))) \<and> (snd (h domain) \<noteq> -1 \<longrightarrow> d = snd (h domain)))"

lemma opened_cong: "devs s' = devs s \<Longrightarrow> opened h d x s' \<longleftrightarrow> opened h d x s"
  by (simp add: opened_def)

lemma opened_run:
  "opened h d x s \<Longrightarrow> opened h d y (upd_sess (upd_domain d (\<lambda>h. h\<lparr>state := y, ref := 0\<rparr>)) s)"
proof -
  assume "opened h d x s"
  then obtain dv H where "dv \<noteq> -1" "snd (h d) \<noteq> -1 \<longrightarrow> dv = snd (h d)" "hlist (sess (am s)) = Some H"
    "(\<lambda>z. (state (H z), dev (H z))) = h(d := (x, dv))" by (auto simp: opened_def devs_def)
  moreover from this have "dev (H d) = dv" by (metis fun_upd_same snd_conv)
  ultimately show ?thesis
    by (auto simp: opened_def devs_upd_sess intro!: exI [of _ dv])
qed

lemma prepare_session_effect:
  assumes "prepare_session e domain s = (nErr, s')" and h: "devs s = Some h" "fst (h domain) = FASTRPC_DOMAIN_STATE_CLEAN"
  shows "nErr \<noteq> 0 \<and> devs s' = devs s \<and> ql (doms s' domain) = ql (doms s domain) \<and> rql (doms s' domain) = rql (doms s domain)
    \<or> opened h domain FASTRPC_DOMAIN_STATE_CLEAN s'"
proof -
  obtain k1 s1 where r1: "remote_init e domain s = (k1, s1)" by (metis surj_pair)
  note eff = remote_init_effect [OF r1 h(1)]
  show ?thesis
  proof (cases "k1 = 0")
    case False
    then show ?thesis using assms(1) eff(1) r1 by (simp add: prepare_session_def)
  next
    case True
    then have o1: "opened h domain FASTRPC_DOMAIN_STATE_CLEAN s1" using eff(2) h(2) by (auto simp: opened_def)
    obtain k2 s2 where r2: "(if fastrpc_wake_lock_enable s1 domain \<noteq> 0 then update_kernel_wakelock_status e domain s1 else (0, s1)) = (k2, s2)"
      by (metis surj_pair)
    have "devs s2 = devs s1" using r2 update_wakelock_devs [of e domain s1 k2 s2] by (simp split: if_splits)
    then have o2: "opened h domain FASTRPC_DOMAIN_STATE_CLEAN s2" using o1 opened_cong [of s2 s1] by simp
    obtain k3 st where r3: "fastrpc_mem_open (a_mem e) domain (am s2) = (k3, st)" by (metis surj_pair)
    have o3: "opened h domain FASTRPC_DOMAIN_STATE_CLEAN (s2\<lparr>am := st\<rparr>)"
      using o2 opened_cong [of "s2\<lparr>am := st\<rparr>" s2] sdevs_mem_open [OF r3] by (simp add: devs_sdevs)
    obtain k4 s4 where r4: "comp e (APPS_MEM_INIT domain) (s2\<lparr>am := st\<rparr>) = (k4, s4)" by (metis surj_pair)
    have "devs s4 = devs (s2\<lparr>am := st\<rparr>)" using r4 by (auto simp: comp_def)
    then have o4: "opened h domain FASTRPC_DOMAIN_STATE_CLEAN s4" using o3 opened_cong by blast
    have "s' = s2 \<or> s' = s2\<lparr>am := st\<rparr> \<or> s' = s4"
      using assms(1) r1 True r2 r3 r4 by (simp add: prepare_session_def split: if_splits)
    then show ?thesis using o2 o3 o4 by blast
  qed
qed

lemma announce_session_devs: "announce_session e domain s = Some (nErr, s') \<Longrightarrow> devs s' = devs s"
  by (auto simp: announce_session_def Let_def split: Option.bind_splits if_splits dest!: notif_devs send_errcodes_devs)

lemma run_session_effect:
  assumes "run_session e domain s = (nErr, s')" and "opened h domain x s"
  shows "opened h domain FASTRPC_DOMAIN_STATE_INIT s'"
proof -
  let ?s1 = "upd_sess (upd_domain domain (\<lambda>h. h\<lparr>state := FASTRPC_DOMAIN_STATE_INIT, ref := 0\<rparr>)) (comps [PERF_INIT domain] s)"
  have o1: "opened h domain FASTRPC_DOMAIN_STATE_INIT ?s1"
    using assms(2) opened_cong [of "comps [PERF_INIT domain] s" s] by (auto intro: opened_run)
  obtain k s2 where r2: "comp e (LISTENER_DOMAIN_INIT domain) ?s1 = (k, s2)" by (metis surj_pair)
  then have d2: "devs s2 = devs ?s1" by (auto simp: comp_def)
  obtain handle s3 where r3: "get_adspmsgd_adsp1_handle e domain s2 = (handle, s3)" by (metis surj_pair)
  have "s' = s2 \<or> s' = s3 \<or> s' = comps [ADSPMSGD_INIT domain] s3"
    using assms(1) r2 r3 by (auto simp: run_session_def Let_def split: if_splits)
  then have "devs s' = devs ?s1" using d2 devs_static_handles(2) [OF r3] by auto
  then show ?thesis using o1 opened_cong by blast
qed

lemma start_session_effect:
  assumes "start_session e domain s = Some (nErr, s')" and h: "devs s = Some h" "fst (h domain) = FASTRPC_DOMAIN_STATE_CLEAN"
  shows "nErr \<noteq> 0 \<and> devs s' = devs s \<and> ql (doms s' domain) = [] \<and> rql (doms s' domain) = []
    \<or> nErr \<noteq> 0 \<and> (\<exists>x. opened h domain x s') \<or> nErr = 0 \<and> opened h domain FASTRPC_DOMAIN_STATE_INIT s'"
proof -
  let ?s0 = "upd_dom domain (\<lambda>D. D\<lparr>ql := [], nql := [], rql := [], is_session_reserved := True\<rparr>) s"
  obtain k1 s1 where r1: "prepare_session e domain ?s0 = (k1, s1)" by (metis surj_pair)
  have h0: "devs ?s0 = Some h" using h by simp
  note p = prepare_session_effect [OF r1 h0 h(2)]
  show ?thesis
  proof (cases "k1 = 0")
    case False
    then have "nErr = k1 \<and> s' = s1" using assms(1) r1 by (simp add: start_session_def)
    with p False show ?thesis by auto
  next
    case True
    then have o1: "opened h domain FASTRPC_DOMAIN_STATE_CLEAN s1" using p by simp
    obtain k2 s2 where a: "announce_session e domain s1 = Some (k2, s2)"
      using assms(1) r1 True by (auto simp: start_session_def split: Option.bind_splits)
    have o2: "opened h domain FASTRPC_DOMAIN_STATE_CLEAN s2" using o1 opened_cong [OF announce_session_devs [OF a]] by simp
    show ?thesis
    proof (cases "k2 = 0")
      case False
      then have "nErr = k2 \<and> s' = s2" using assms(1) r1 True a by (simp add: start_session_def)
      with o2 False show ?thesis by auto
    next
      case ok: True
      then have "run_session e domain s2 = (nErr, s')" using assms(1) r1 True a by (simp add: start_session_def)
      from run_session_effect [OF this o2] show ?thesis by auto
    qed
  qed
qed

text \<open>C8: a session is either closed or running. Starting a closed session leads to a running one on its
  device or, on every error, back to a closed one with nothing left open, reserved or listed; starting a running
  session only reports its device; other domains are not affected.\<close>

theorem domain_init_refines:
  assumes "phase_of domain s = Some p" and "domain_init e domain s = Some ((nErr, d), s')"
  shows "case p of
      Running d0 \<Rightarrow> s' = s \<and> nErr = 0 \<and> d = d0
    | Closed \<Rightarrow> (if nErr = 0 then phase_of domain s' = Some (Running d)
                else d = -1 \<and> phase_of domain s' = Some Closed \<and> closed_domain domain s') \<and>
               (\<forall>x. x \<noteq> domain \<longrightarrow> phase_of x s' = phase_of x s)"
proof -
  obtain h where h: "devs s = Some h" using assms(1) by (auto simp: phase_of_def split: option.splits)
  then obtain H where H: "hlist (sess (am s)) = Some H" "h = (\<lambda>x. (state (H x), dev (H x)))" by (auto simp: devs_def)
  show ?thesis
  proof (cases p)
    case (Running d0)
    then show ?thesis using assms H h by (auto simp: phase_of_def domain_init_def split: if_splits)
  next
    case Closed
    then have c: "h domain = (FASTRPC_DOMAIN_STATE_CLEAN, -1)" using assms(1) h by (auto simp: phase_of_def split: if_splits)
    then obtain k s1 where st: "start_session e domain s = Some (k, s1)"
      using assms(2) H by (auto simp: domain_init_def split: Option.bind_splits)
    note eff = start_session_effect [OF st h] 
    show ?thesis
    proof (cases "k = 0")
      case True
      then have o: "opened h domain FASTRPC_DOMAIN_STATE_INIT s1" using eff c by auto
      then have "nErr = 0 \<and> d = session_dev domain s1 \<and> s' = s1" using assms(2) H c st True by (auto simp: domain_init_def)
      then show ?thesis using o Closed h by (auto simp: opened_def phase_of_def session_dev_devs)
    next
      case False
      then obtain s2 where d: "domain_deinit e domain s1 = Some s2" and r: "nErr = k \<and> d = -1 \<and> s' = s2"
        using assms(2) H c st by (auto simp: domain_init_def split: Option.bind_splits)
      from eff c False consider (early) "devs s1 = devs s" "ql (doms s1 domain) = []" "rql (doms s1 domain) = []"
        | (late) x dv where "dv \<noteq> -1" "devs s1 = Some (h(domain := (x, dv)))" by (auto simp: opened_def)
      then show ?thesis
      proof cases
        case early
        note dc = domain_deinit_closed [OF d early(1) [unfolded h]]
        show ?thesis using dc(1,2,3,5) early c r Closed h False by (auto simp: closed_domain_def phase_of_def)
      next
        case late
        note dc = domain_deinit_closed [OF d late(2)]
        show ?thesis using dc(1-4) late(1) c r Closed h False by (auto simp: closed_domain_def phase_of_def)
      qed
    qed
  qed
qed

section \<open>What the calls on the way report\<close>

lemma invoke_result_running: "invoke_result domain nErr s \<noteq> 0 \<Longrightarrow> \<exists>h. devs s = Some h \<and> fst (h domain) = FASTRPC_DOMAIN_STATE_INIT"
  by (auto simp: invoke_result_def is_process_exiting_def devs_def split: if_splits option.splits)

text \<open>An invocation reports an error only for a handle of a session that is running; during the start and
  the end of a session every failure of a call looks like success.\<close>

theorem errors_need_running_session:
  assumes "remote_handle64_invoke e local sc pra s = Some ((nErr, out), s')" and "nErr \<noteq> 0"
  shows "\<exists>domain d. get_domain_from_handle local s = (0, Some domain) \<and> session_dev domain s' = d \<and>
    (\<exists>h. devs s = Some h \<and> fst (h domain) = FASTRPC_DOMAIN_STATE_INIT)"
proof -
  have dv: "devs s' = devs s" by (rule devs_invoke64 [OF assms(1)])
  have z: "x = 0" if "get_domain_from_handle local s = (x, Some d)" for x d
    using that by (auto simp: get_domain_from_handle_def Let_def split: if_splits option.splits)
  obtain domain k where r: "nErr = invoke_result domain k s'" "domain \<noteq> -1 \<longrightarrow> get_domain_from_handle local s = (0, Some domain)"
    using assms(1)
    by (auto simp: remote_handle64_invoke_def Let_def split: if_splits prod.splits option.splits dest!: z)
  then have "domain \<noteq> -1"
    using assms(2) by (auto simp: invoke_result_def is_process_exiting_def IS_VALID_EFFECTIVE_DOMAIN_ID_def split: if_splits)
  then show ?thesis using r invoke_result_running [of domain k s'] assms(2) dv by auto
qed

text \<open>So the answer of the DSP to the request for notifications is lost when a session starts, and the test of
  it in \<^verbatim>\<open>domain_init\<close> can only fail without a handle.\<close>

lemma notif_error_lost:
  assumes "enable_process_state_notif_on_dsp e domain s = Some (ret, s')" and "devs s = Some h"
    and "\<And>d. fst (h d) \<noteq> FASTRPC_DOMAIN_STATE_INIT"
    and "fst (get_adsp_current_process1_handle e domain (comps [NOTIF_DOMAIN_INIT domain] s)) \<noteq> INVALID_HANDLE"
  shows "ret = 0"
proof -
  obtain l s1 where g: "get_adsp_current_process1_handle e domain (comps [NOTIF_DOMAIN_INIT domain] s) = (l, s1)" by (metis surj_pair)
  obtain out where i: "stub_call64 e l 10 [] [] s1 = Some ((ret, out), s')"
    using assms(1,4) g by (auto simp: enable_process_state_notif_on_dsp_def current_process_call_def split: Option.bind_splits)
  have "devs s1 = Some h" using devs_static_handles(1) [OF g] assms(2) by simp
  then show ?thesis
    using errors_need_running_session [OF i [unfolded stub_call64_def]] assms(3) by auto
qed

text \<open>Asking for the wake lock on an open session succeeds and leaves it marked as enabled, but taken down: no
  call after it can hold the lock.\<close>

theorem wakelock_enabled_but_gone:
  assumes "wl_enable \<noteq> 0" and "fastrpc_wake_lock_enable s domain \<noteq> wl_enable" and "session_dev domain s \<noteq> -1"
    and "fst (fastrpc_wake_lock_init we (wakelock s)) = 0"
  shows "\<exists>s'. wakelock_control e we domain wl_enable s = (0, s') \<and> fastrpc_wake_lock_enable s' domain = wl_enable \<and>
    \<not> init_done (wakelock s') \<and> (\<forall>written. fst (fastrpc_wake_lock written (wakelock s')) = AEE_ERPC)"
proof -
  obtain w where i: "fastrpc_wake_lock_init we (wakelock s) = (0, w)" using assms(4) by (metis prod.collapse)
  have d: "\<not> init_done (snd (fastrpc_wake_lock_deinit written c c w))" for written c w
    by (auto simp: fastrpc_wake_lock_deinit_def Let_def split: prod.splits)
  have "session_dev domain (s\<lparr>wakelock := w\<rparr>) = session_dev domain s" by (simp add: session_dev_def)
  then show ?thesis
    using assms(1-3) i d by (auto simp: wakelock_control_def update_kernel_wakelock_status_def ioctl_control_def
        fastrpc_wake_lock_def Let_def)
qed

text \<open>The bit for debug logging is the lowest bit of the caller level.\<close>

lemma debug_logging_is_caller_level:
  "get_process_attrs (e\<lparr>a_config := no_config\<lparr>c_debug_logging := True\<rparr>\<rparr>) domain s =
   get_process_attrs (e\<lparr>a_config := no_config\<lparr>c_caller_level := 1\<rparr>\<rparr>) domain s"
  by (simp add: get_process_attrs_def no_config_def bool_attr_def Let_def)

section \<open>The library's own calls never overflow\<close>

lemma invoke_domain_total: "scalars_bufs sc \<le> M_CRCLIST \<Longrightarrow> remote_handle_invoke_domain e domain handle sc pra s \<noteq> None"
  by (auto simp: remote_handle_invoke_domain_def invoke_send_def Let_def split: prod.splits sum.splits)

lemma invoke64_total: "scalars_bufs sc \<le> M_CRCLIST \<Longrightarrow> remote_handle64_invoke e local sc pra s \<noteq> None"
  using invoke_domain_total
  by (auto simp: remote_handle64_invoke_def Let_def simp del: not_None_eq split: prod.splits option.splits)

lemma invoke_total: "scalars_bufs sc \<le> M_CRCLIST \<Longrightarrow> remote_handle_invoke e handle sc pra s \<noteq> None"
  using invoke_domain_total by (auto simp: remote_handle_invoke_def Let_def simp del: not_None_eq split: prod.splits)

lemma stub_bufs:
  assumes "length ins + length outs \<le> 64"
  shows "scalars_bufs (REMOTE_SCALARS_MAKEX 0 mid (of_nat (length ins)) (of_nat (length outs)) 0 0) \<le> M_CRCLIST"
proof -
  have "unat (of_nat n AND 0xff :: u32) = n" if "n \<le> 64" for n
  proof -
    have "(of_nat n :: u32) AND mask 8 = of_nat n"
      using that by (simp add: take_bit_eq_mask [symmetric] take_bit_of_nat take_bit_nat_eq_self)
    then show ?thesis using that by (simp add: mask_eq_exp_minus_1 unat_of_nat)
  qed
  then show ?thesis using assms by (simp add: scalars_bufs_def scalars_fields)
qed

lemma stub_total: "length ins + length outs \<le> 64 \<Longrightarrow> stub_call64 e h mid ins outs s \<noteq> None"
  "length ins + length outs \<le> 64 \<Longrightarrow> stub_call e k mid ins outs s \<noteq> None"
  unfolding stub_call64_def stub_call_def by (intro invoke64_total invoke_total stub_bufs; assumption)+

lemma current_process_total: "length ins \<le> 64 \<Longrightarrow> current_process_call e mid ins handle s \<noteq> None"
  using stub_total(1) [of ins "[]" e handle mid s] by (auto simp: current_process_call_def)

lemma domain_deinit_total: "domain_deinit e domain s \<noteq> None"
  using current_process_total [of "[]"]
  by (auto simp: domain_deinit_def bind_eq_None_conv simp del: not_None_eq split: prod.splits)

text \<open>C9: ending a running session always returns and closes its device as the last thing. It leaves the domain closed and
  free to be reserved, with no session reference and no handle in its lists (the list of handles without a domain is
  emptied for the default domain only, as in the source), and does not touch another domain.\<close>

theorem domain_deinit_refines:
  assumes "phase_of domain s = Some (Running d)"
  shows "\<exists>s'. domain_deinit e domain s = Some s' \<and> phase_of domain s' = Some Closed \<and> closed_domain domain s' \<and>
    Session.refs_of (sess (am s')) domain = Some 0 \<and> (domain = default_domain (a_mem e) \<longrightarrow> nql (doms s' domain) = []) \<and>
    (\<exists>cs. calls s' = cs @ [CLOSE_DEVICE d]) \<and> (\<forall>x. x \<noteq> domain \<longrightarrow> phase_of x s' = phase_of x s)"
proof -
  obtain s' where s': "domain_deinit e domain s = Some s'" using domain_deinit_total by blast
  obtain h where h: "devs s = Some h" using assms(1) by (auto simp: phase_of_def split: option.splits)
  then have d: "snd (h domain) = d" "d \<noteq> -1" using assms(1) by (auto simp: phase_of_def split: if_splits)
  note dc = domain_deinit_closed [OF s' h]
  show ?thesis using s' dc(1-4,6) d h by (auto simp: closed_domain_def phase_of_def)
qed


section \<open>Instances\<close>

definition demo_closed :: apps where
  "demo_closed = upd_sess (\<lambda>se. se\<lparr>hlist := Some (\<lambda>_. \<lparr>state = FASTRPC_DOMAIN_STATE_CLEAN, ref = 0, dev = -1\<rparr>)\<rparr>) demo_handles"

definition demo_init :: "henv \<Rightarrow> ((int \<times> int) \<times> apps) option" where
  "demo_init e = domain_init e 3 demo_closed"

lemma demo_closed_phase: "phase_of 3 demo_closed = Some Closed"
  by (simp add: demo_closed_def upd_sess_def phase_of_def devs_def)

lemma demo_init_ok: "domain_init demo_henv 3 demo_closed = Some ((0, 7), snd (the (demo_init demo_henv)))"
proof -
  have "demo_init demo_henv \<noteq> None \<and> fst (the (demo_init demo_henv)) = (0, 7)" by code_simp
  then show ?thesis unfolding demo_init_def by (metis option.collapse prod.collapse)
qed

theorem domain_init_refines_witness:
  "phase_of 3 (snd (the (demo_init demo_henv))) = Some (Running 7)"
  using domain_init_refines [OF demo_closed_phase demo_init_ok] by simp

lemma demo_running: "phase_of 3 (snd (the (demo_init demo_henv))) = Some (Running 7)"
  by code_simp

theorem domain_deinit_refines_witness:
  "\<exists>s' cs. domain_deinit demo_henv 3 (snd (the (demo_init demo_henv))) = Some s' \<and> closed_domain 3 s' \<and>
     Session.refs_of (sess (am s')) 3 = Some 0 \<and> calls s' = cs @ [CLOSE_DEVICE 7]"
  using domain_deinit_refines [OF demo_running, of demo_henv] by blast

definition demo_refused :: "((int \<times> u32 list) \<times> apps) option" where
  "demo_refused = remote_handle64_invoke (demo_henv\<lparr>a_ioctl := \<lambda>_ _. (5, 0, [])\<rparr>) 0x1000 demo_sc (Some demo_args) demo_open"

theorem errors_need_running_session_witness:
  "fst (fst (the demo_refused)) = 5 \<and>
   (\<exists>domain. get_domain_from_handle 0x1000 demo_open = (0, Some domain) \<and>
      (\<exists>h. devs demo_open = Some h \<and> fst (h domain) = FASTRPC_DOMAIN_STATE_INIT))"
proof -
  have n: "demo_refused \<noteq> None \<and> fst (fst (the demo_refused)) = 5" by code_simp
  then have r: "remote_handle64_invoke (demo_henv\<lparr>a_ioctl := \<lambda>_ _. (5, 0, [])\<rparr>) 0x1000 demo_sc (Some demo_args) demo_open =
      Some ((5, snd (fst (the demo_refused))), snd (the demo_refused))"
    unfolding demo_refused_def by (metis option.collapse prod.collapse)
  from errors_need_running_session [OF r] n show ?thesis by auto
qed

theorem wakelock_enabled_but_gone_witness:
  "\<exists>s'. wakelock_control demo_henv demo_wake_env 3 1 demo_open = (0, s') \<and> fastrpc_wake_lock_enable s' 3 = 1 \<and>
     \<not> init_done (wakelock s')"
proof -
  have "fastrpc_wake_lock_enable demo_open 3 \<noteq> 1" "session_dev 3 demo_open \<noteq> -1"
    "fst (fastrpc_wake_lock_init demo_wake_env (wakelock demo_open)) = 0" by code_simp+
  from wakelock_enabled_but_gone [OF _ this, of demo_henv] show ?thesis by auto
qed

end
