(* ===== verification/OpenClose.thy ===== *)
theory OpenClose
  imports Domain
begin

text \<open>
  Opening and closing modules on the DSP, \<^verbatim>\<open>src/fastrpc_apps_user.c\<close>: the special names that attach to a
  process, the loading of the module through \<^verbatim>\<open>remotectl\<close> with its fallback, the lists of open handles and the
  end of the session when the last module is closed; \<^verbatim>\<open>close_domain_session\<close> closes everything at once.

  Results are \<open>None\<close> when memory is accessed outside of an object. The library is assumed to be loaded once
  (\<^verbatim>\<open>total_dsp_lib_refcnt\<close>).
\<close>

section \<open>Special names\<close>

text \<open>\<^verbatim>\<open>ITRANSPORT_PREFIX\<close>.\<close>

definition ITRANSPORT :: "string \<Rightarrow> string" where
  "ITRANSPORT n = [CHR 0x27, CHR 0x22, CHR 0x3A, CHR 0x3B, CHR 0x2E, CHR 0x2F, CHR 0x5C] @ n"

definition cut_end :: "nat \<Rightarrow> string \<Rightarrow> string" where
  "cut_end n s = (if n \<le> length s then take (length s - n) s else s)"

text \<open>The name of the process without its domain and session. The name may end before the colon of
  \<^verbatim>\<open>createstaticpd:\<close>: then it is read behind its end. A name that holds the domain and \<^verbatim>\<open>&_session=\<close>
  without a digit may be one character shorter than what is cut off. The code then writes the zero over the colon in
  front of the name, in its own copy, which leaves the name itself as it is.\<close>

definition static_pd_name :: "int \<Rightarrow> string \<Rightarrow> string option" where
  "static_pd_name domain name =
     (let p = length (ITRANSPORT ''createstaticpd:'') in
      if length name < p then None
      else let pdName = drop p name; dom = get_domain_from_id (GET_DOMAIN_FROM_EFFEC_DOMAIN_ID domain) in
        Some (if strstr pdName dom \<noteq> None \<and> strstr pdName FASTRPC_SESSION_URI \<noteq> None
              then cut_end (length dom + length FASTRPC_SESSION1_URI) pdName
              else if strstr pdName (get_domain_from_id domain) \<noteq> None
              then cut_end (length (get_domain_from_id domain)) pdName
              else pdName))"

text \<open>The handle and the type of process that a name stands for; another name sets neither.\<close>

definition static_pd :: "string \<Rightarrow> (u32 \<times> int) option" where
  "static_pd pdName =
     (if starts_with pdName ''audiopd'' then Some (257, AUDIOPD)
      else if starts_with pdName ''securepd'' then Some (261, SECURE_STATICPD)
      else if starts_with pdName ''sensorspd'' then Some (258, SENSORS_STATICPD)
      else if starts_with pdName ''rootpd'' then Some (260, GUEST_OS_SHARED)
      else if starts_with pdName ''oispd'' then Some (256, OIS_STATICPD)
      else None)"

definition create_static_pd :: "henv \<Rightarrow> int \<Rightarrow> string \<Rightarrow> u32 \<Rightarrow> apps \<Rightarrow> ((int \<times> u32) \<times> apps) option" where
  "create_static_pd e domain name ph s =
     (if \<not> a_alloc e s 6 then Some ((AEE_ENOMEMORY, ph), s)
      else do {
        pdName \<leftarrow> static_pd_name domain name;
        if \<not> 30 > length pdName then Some ((AEE_EBADPARM, ph), s)
        else let s = upd_dom domain (\<lambda>D. D\<lparr>dsppdname := pdName\<rparr>) s
             in Some (case static_pd pdName of
                        None \<Rightarrow> ((AEE_SUCCESS, ph), s)
                      | Some (h, pd) \<Rightarrow> ((AEE_SUCCESS, h), upd_dom domain (\<lambda>D. D\<lparr>dsppd := pd\<rparr>) s)) })"

section \<open>Opening\<close>

text \<open>The stub with a handle is given up for good when it fails once.\<close>

definition drop_remotectl1 :: "henv \<Rightarrow> int \<Rightarrow> apps \<Rightarrow> apps" where
  "drop_remotectl1 e domain s =
     upd_dom domain (\<lambda>D. D\<lparr>remotectlhandle := INVALID_HANDLE\<rparr>)
       (snd (fastrpc_update_module_list e DOMAIN_LIST_DEQUEUE domain remotectl1_const None s))"

text \<open>Returns the error and the handle; a call that fails does not set the handle.\<close>

definition load_module :: "henv \<Rightarrow> int \<Rightarrow> string \<Rightarrow> u32 \<Rightarrow> apps \<Rightarrow> ((int \<times> u32) \<times> apps) option" where
  "load_module e domain name ph s =
     (let fallback = (\<lambda>s. do {
            ((nErr, h, dlerr), s) \<leftarrow> remotectl_open e name s;
            Some (if nErr \<noteq> 0 then ((nErr, ph), s) else ((sint dlerr, h), s)) })
      in case get_remotectl1_handle e domain s of (handle, s) \<Rightarrow>
           if handle \<noteq> INVALID_HANDLE
           then do {
             ((nErr, h, dlerr), s) \<leftarrow> remotectl1_open1 e handle name s;
             if nErr \<noteq> 0 then fallback (drop_remotectl1 e domain s) else Some ((sint dlerr, h), s) }
           else fallback s)"

definition open_bail :: "henv \<Rightarrow> int \<Rightarrow> int \<Rightarrow> apps \<Rightarrow> apps option" where
  "open_bail e domain nErr s =
     (if nErr = AEE_ECONNRESET \<and> domainsCount (doms s domain) = 0 \<and> nondomainsCount (doms s domain) = 0
      then domain_deinit e domain (upd_dom domain (\<lambda>D. D\<lparr>disable_exit_logs := True\<rparr>) s) else Some s)"

text \<open>\<open>ph\<close> is what \<^verbatim>\<open>*ph\<close> holds before the call.\<close>

definition remote_handle_open_domain :: "henv \<Rightarrow> int \<Rightarrow> string \<Rightarrow> u32 \<Rightarrow> apps \<Rightarrow> ((int \<times> u32) \<times> apps) option" where
  "remote_handle_open_domain e domain name ph s =
     (let bail = (\<lambda>((nErr, ph), s). do { s \<leftarrow> open_bail e domain nErr s; Some ((nErr, ph), s) })
      in if starts_with name (ITRANSPORT ''geteventfd'')
         then (case a_eventfd e of (nErr, fd) \<Rightarrow> Some ((nErr, case fd of Some fd \<Rightarrow> fd | None \<Rightarrow> ph), s))
         else if starts_with name (ITRANSPORT ''attachguestos'')
         then Some ((AEE_SUCCESS, 259), upd_dom domain (\<lambda>D. D\<lparr>dsppd := ROOT_PD\<rparr>) s)
         else if starts_with name (ITRANSPORT ''createstaticpd'')
         then create_static_pd e domain name ph s
         else if starts_with name (ITRANSPORT ''attachuserpd'')
         then Some ((AEE_SUCCESS, ph), upd_dom domain (\<lambda>D. D\<lparr>dsppd := USERPD\<rparr>) s)
         else do {
           ((nErr, d), s) \<leftarrow> domain_init e domain s;
           if nErr \<noteq> 0 then bail ((nErr, ph), s)
           else if d = -1 then bail ((AEE_ERPC, ph), s)
           else do { r \<leftarrow> load_module e domain name ph s; bail r } })"

section \<open>Closing a module on the DSP\<close>

text \<open>An error of the fallback is overwritten by the error of unloading, which it has not set.\<close>

definition remote_handle_close_domain :: "henv \<Rightarrow> int \<Rightarrow> u32 \<Rightarrow> apps \<Rightarrow> (int \<times> apps) option" where
  "remote_handle_close_domain e domain h s =
     (if h = -1 then Some (AEE_EINVHANDLE, s)
      else if \<not> a_alloc e s 5 then Some (AEE_ENOMEMORY, s)
      else case get_remotectl1_handle e domain s of (handle, s) \<Rightarrow>
        if handle \<noteq> INVALID_HANDLE
        then do {
          ((nErr, dlerr), s) \<leftarrow> remotectl1_close1 e handle s;
          if nErr \<noteq> 0
          then do { ((nErr, dlerr), s) \<leftarrow> remotectl_close e (drop_remotectl1 e domain s); Some (if nErr \<noteq> 0 then 0 else sint dlerr, s) }
          else Some (sint dlerr, s) }
        else do { ((nErr, dlerr), s) \<leftarrow> remotectl_close e s; Some (if nErr \<noteq> 0 then nErr else sint dlerr, s) })"

definition remote_handle_close :: "henv \<Rightarrow> u32 \<Rightarrow> apps \<Rightarrow> (int \<times> apps) option" where
  "remote_handle_close e h s =
     (let domain = get_current_domain (default_domain (a_mem e)) (sess (am s))
      in do {
        (nErr, s) \<leftarrow> remote_handle_close_domain e domain h s;
        if nErr \<noteq> 0 then Some (if is_process_exiting domain s then 0 else nErr, s)
        else Some (0, snd (fastrpc_update_module_list e NON_DOMAIN_LIST_DEQUEUE domain (ucast h) None (put_ref domain s))) })"

text \<open>The part of \<^verbatim>\<open>remote_handle64_close\<close> with a valid handle: the list is searched for the \<^emph>\<open>local\<close> handle, and
  the entries are compared by their remote handle.\<close>

definition close_valid :: "henv \<Rightarrow> int \<Rightarrow> u64 \<Rightarrow> u64 \<Rightarrow> apps \<Rightarrow> (int \<times> apps) option" where
  "close_valid e domain handle remote s =
     (let start_deinit = (domainsCount (doms s domain) \<le> 1 \<and> nondomainsCount (doms s domain) = 0)
      in do {
        (nErr, s) \<leftarrow> (if \<not> start_deinit \<and> remote \<noteq> 0 then remote_handle_close_domain e domain (ucast remote) s else Some (0, s));
        let s = (if nErr \<noteq> 0 then s
                 else put_ref domain (snd (fastrpc_update_module_list e DOMAIN_LIST_DEQUEUE domain handle None s)));
        s \<leftarrow> (if nErr \<noteq> AEE_EINVHANDLE \<and> IS_VALID_EFFECTIVE_DOMAIN_ID domain \<and> start_deinit
             then domain_deinit e domain (upd_dom domain (\<lambda>D. D\<lparr>disable_exit_logs := True\<rparr>) s) else Some s);
        Some (if nErr \<noteq> AEE_EINVHANDLE \<and> IS_VALID_EFFECTIVE_DOMAIN_ID domain \<and> nErr \<noteq> 0 \<and> is_process_exiting domain s
              then 0 else nErr, s) })"

definition remote_handle64_close :: "henv \<Rightarrow> u64 \<Rightarrow> apps \<Rightarrow> (int \<times> apps) option" where
  "remote_handle64_close e handle s =
     (if IS_STATICPD_HANDLE handle then Some (AEE_SUCCESS, s)
      else if handle = -1 then Some (AEE_EINVHANDLE, s)
      else case get_domain_from_handle handle s of
        (nErr, None) \<Rightarrow> Some (nErr, s)
      | (nErr, Some domain) \<Rightarrow>
          (case get_handle_remote handle s of
             (nErr, None) \<Rightarrow> Some (nErr, s)
           | (nErr, Some remote) \<Rightarrow> close_valid e domain handle remote (upd_sess (set_thread_context domain) s)))"

section \<open>The entry points for opening\<close>

definition remote_handle_open :: "henv \<Rightarrow> string option \<Rightarrow> u32 \<Rightarrow> apps \<Rightarrow> ((int \<times> u32) \<times> apps) option" where
  "remote_handle_open e name ph s =
     (let fail = (\<lambda>nErr ph s. do { (k, s) \<leftarrow> remote_handle64_close e (ucast ph) s; Some ((nErr, ph), s) })
      in if fastrpc_init_once (am s) \<noteq> 0
         then (if ph \<noteq> 0 then fail (fastrpc_init_once (am s)) ph s else Some ((fastrpc_init_once (am s), ph), s))
         else case name of
           None \<Rightarrow> Some ((AEE_EBADPARM, ph), s)
         | Some name \<Rightarrow>
             let domain = get_current_domain (default_domain (a_mem e)) (sess (am s))
             in case get_ref domain s of (nErr, s) \<Rightarrow>
                  if nErr \<noteq> 0 then (if ph \<noteq> 0 then fail nErr ph s else Some ((nErr, ph), s))
                  else do {
                    ((nErr, ph), s) \<leftarrow> remote_handle_open_domain e domain name ph s;
                    if nErr \<noteq> 0 then (if ph \<noteq> 0 then fail nErr ph s else Some ((nErr, ph), put_ref domain s))
                    else Some ((0, ph), snd (fastrpc_update_module_list e NON_DOMAIN_LIST_PREPEND domain (ucast ph) (Some name) s)) })"

text \<open>The handle is \<open>None\<close> when it is not set, also after a success whose list entry could not be allocated.\<close>

definition remote_handle64_open :: "henv \<Rightarrow> string option \<Rightarrow> apps \<Rightarrow> ((int \<times> u64 option) \<times> apps) option" where
  "remote_handle64_open e name s =
     (if fastrpc_init_once (am s) \<noteq> 0 then Some ((fastrpc_init_once (am s), None), s)
      else case name of
        None \<Rightarrow> Some ((AEE_EBADPARM, None), s)
      | Some name \<Rightarrow>
          let domain = get_domain_from_name (Some name) DOMAIN_NAME_IN_URI
          in if \<not> domain \<ge> 0 then Some ((AEE_EBADPARM, None), s)
             else if \<not> IS_VALID_EFFECTIVE_DOMAIN_ID domain then None
             else case get_ref domain s of (nErr, s) \<Rightarrow>
               if nErr \<noteq> 0 then Some ((nErr, None), s)
               else do {
                 ((nErr, h), s) \<leftarrow> remote_handle_open_domain e domain name 0 s;
                 if nErr \<noteq> 0
                 then if h \<noteq> 0 then do { (k, s) \<leftarrow> remote_handle_close e h s; Some ((nErr, None), s) }
                      else Some ((nErr, None), put_ref domain s)
                 else if starts_with name (ITRANSPORT ''geteventfd'') \<or> IS_STATICPD_HANDLE (ucast h)
                 then Some ((0, Some (ucast h)), s)
                 else case fastrpc_update_module_list e DOMAIN_LIST_PREPEND domain (ucast h) (Some name) s of
                   ((nErr, local), s) \<Rightarrow> Some ((0, if nErr \<noteq> 0 then None else local), s) })"

section \<open>Closing a session\<close>

text \<open>A loop over a list takes the successor of a node before the node is closed. The closed node may leave the list;
  when the successor has left it too, it is freed and the loop reads freed memory: the result is \<open>None\<close>. Nodes
  are only removed or put in front, so that what follows the successor is what is left of the old rest.\<close>

function walk_list :: "(apps \<Rightarrow> handle_info list) \<Rightarrow> (handle_info \<Rightarrow> apps \<Rightarrow> apps option) \<Rightarrow> handle_info list \<Rightarrow> apps \<Rightarrow> apps option" where
  "walk_list lst f [] s = Some s"
| "walk_list lst f (hi # rest) s =
     (case f hi s of
        None \<Rightarrow> None
      | Some s' \<Rightarrow>
          (case rest of
             [] \<Rightarrow> Some s'
           | nxt # rest' \<Rightarrow>
               if nxt \<in> set (lst s') then walk_list lst f (nxt # filter (\<lambda>x. x \<in> set (lst s')) rest') s' else None))"
  by pat_completeness auto

termination
  by (relation "measure (\<lambda>(lst, f, xs, s). length xs)") (auto simp: le_imp_less_Suc)

text \<open>Without a session, \<^verbatim>\<open>VERIFY\<close> makes the error \<^verbatim>\<open>-1\<close>.\<close>

definition close_domain_session :: "henv \<Rightarrow> int \<Rightarrow> apps \<Rightarrow> (int \<times> apps) option" where
  "close_domain_session e domain s =
     (if session_dev domain s = -1 then Some (-1, s)
      else case get_adsp_current_process1_handle e domain s of (handle, s) \<Rightarrow>
        do {
          (k, s) \<leftarrow> current_process_call e 2 [] handle s;
          s \<leftarrow> walk_list (\<lambda>s. nql (doms s domain))
                 (\<lambda>hi s. do { (k, s) \<leftarrow> remote_handle_close e (ucast (h_remote hi)) s; Some s }) (nql (doms s domain)) s;
          s \<leftarrow> walk_list (\<lambda>s. rql (doms s domain))
                 (\<lambda>hi s. Some (snd (close_reverse_handle e (h_addr hi) s))) (rql (doms s domain)) s;
          s \<leftarrow> walk_list (\<lambda>s. ql (doms s domain))
                 (\<lambda>hi s. do { (k, s) \<leftarrow> remote_handle64_close e (h_addr hi) s; Some s }) (ql (doms s domain)) s;
          Some (0, s) })"

end
