(* ===== verification/OpenCloseProps.thy ===== *)
theory OpenCloseProps
  imports OpenClose DomainProps
begin

text \<open>
  Opening and closing keep the lists of handles in order, an opened handle stands for the module that was
  loaded, and the last close ends the session. The bookkeeping of closed handles is shown as it is: the
  entry of a closed handle stays.
\<close>

section \<open>The lists of handles\<close>

lemma handles_ok_cong: "(\<And>d. entries (doms s' d) = entries (doms s d)) \<Longrightarrow> handles_ok s' \<longleftrightarrow> handles_ok s"
  by (simp add: handles_ok_def dom_ok_def)

lemma handles_ok_doms: "doms s' = doms s \<Longrightarrow> handles_ok s' \<longleftrightarrow> handles_ok s"
  by (rule handles_ok_cong) simp

lemma handles_ok_simps [simp]:
  "handles_ok (upd_sess f s) \<longleftrightarrow> handles_ok s" "handles_ok (comps cs s) \<longleftrightarrow> handles_ok s"
  "handles_ok (put_ref d s) \<longleftrightarrow> handles_ok s" "handles_ok (set_state d x s) \<longleftrightarrow> handles_ok s"
  "handles_ok (set_dev d k s) \<longleftrightarrow> handles_ok s" "handles_ok (s\<lparr>am := st\<rparr>) \<longleftrightarrow> handles_ok s"
  "handles_ok (set_errno n s) \<longleftrightarrow> handles_ok s"
  by (rule handles_ok_doms, simp add: set_state_def set_dev_def set_errno_def)+

lemma invoke_domain_ok: "remote_handle_invoke_domain e d h sc pra s = Some (r, s') \<Longrightarrow> handles_ok s' \<longleftrightarrow> handles_ok s"
  by (rule handles_ok_cong) (rule invoke_domain_frame(3))

lemma get_ref_ok: "get_ref d s = (k, s') \<Longrightarrow> handles_ok s' \<longleftrightarrow> handles_ok s"
  by (rule handles_ok_doms) (rule get_ref_frame(3))

lemma invoke64_ok:
  assumes "remote_handle64_invoke e l sc pra s = Some ((nErr, out), s')"
  shows "handles_ok s' \<longleftrightarrow> handles_ok s"
  using assms
proof (cases rule: handle64_invoke_cases)
  case (call domain remote s1 s2 r)
  then show ?thesis using get_ref_ok [OF call(2)] invoke_domain_ok [OF call(4)] by simp
next
  case (unresolved domain s1)
  then show ?thesis using get_ref_ok [OF unresolved(2)] by simp
qed simp

lemma invoke_ok:
  assumes "remote_handle_invoke e h sc pra s = Some ((nErr, out), s')"
  shows "handles_ok s' \<longleftrightarrow> handles_ok s"
proof (cases "fastrpc_init_once (am s) \<noteq> 0 \<or> h = -1")
  case True
  with assms show ?thesis by (auto simp: remote_handle_invoke_def Let_def split: if_splits)
next
  case False
  let ?d = "get_current_domain (default_domain (a_mem e)) (sess (am s))"
  obtain k s1 where g: "get_ref ?d s = (k, s1)" by (metis surj_pair)
  show ?thesis
    using assms False g get_ref_ok [OF g]
    by (auto simp: remote_handle_invoke_def Let_def split: if_splits dest!: invoke_domain_ok)
qed

lemma stub_ok:
  "stub_call64 e h mid ins outs s = Some ((nErr, out), s') \<Longrightarrow> handles_ok s' \<longleftrightarrow> handles_ok s"
  "stub_call e k mid ins outs s = Some ((nErr, out), s') \<Longrightarrow> handles_ok s' \<longleftrightarrow> handles_ok s"
  by (auto simp: stub_call64_def stub_call_def dest: invoke64_ok invoke_ok)

lemma remotectl_ok:
  "remotectl1_open1 e h name s = Some ((k, a, b), s') \<Longrightarrow> handles_ok s' \<longleftrightarrow> handles_ok s"
  "remotectl_open e name s = Some ((k, a, b), s') \<Longrightarrow> handles_ok s' \<longleftrightarrow> handles_ok s"
  "remotectl1_close1 e h s = Some ((k, a), s') \<Longrightarrow> handles_ok s' \<longleftrightarrow> handles_ok s"
  "remotectl_close e s = Some ((k, a), s') \<Longrightarrow> handles_ok s' \<longleftrightarrow> handles_ok s"
  by (auto simp: remotectl1_open1_def remotectl_open_def remotectl1_close1_def remotectl_close_def
      split: Option.bind_splits dest: stub_ok)

lemma current_process_ok: "current_process_call e mid ins h s = Some (k, s') \<Longrightarrow> handles_ok s' \<longleftrightarrow> handles_ok s"
  by (cases "h = -1", rule handles_ok_doms) (auto simp: current_process_call_def split: Option.bind_splits dest: stub_ok)

text \<open>The steps that touch the lists, for a domain in the table.\<close>

lemma static_ok:
  assumes "fresh_calloc e" and "handles_ok s" and "d \<in> set all_domains"
    and "get_static_handle e get put const d s = (h, s')" and "\<And>l D. entries (put l D) = entries D"
  shows "handles_ok s'"
proof (cases "get (doms s d) \<noteq> 0")
  case True
  with assms(2,4) show ?thesis by (simp add: get_static_handle_def)
next
  case False
  obtain r s1 where u: "fastrpc_update_module_list e DOMAIN_LIST_PREPEND d const None s = (r, s1)" by (metis surj_pair)
  have "handles_ok s1" by (rule prepend_ok [OF assms(1-3) _ u]) (simp add: is_prepend_def)
  then show ?thesis
    using assms(4,5) False u
    by (auto simp: get_static_handle_def split: if_splits prod.splits option.splits intro: handles_ok_same_entries)
qed

lemma static_handles_ok:
  assumes "fresh_calloc e" and "handles_ok s" and "d \<in> set all_domains"
  shows "get_adsp_current_process1_handle e d s = (h, s') \<Longrightarrow> handles_ok s'"
    and "get_adspmsgd_adsp1_handle e d s = (h, s') \<Longrightarrow> handles_ok s'"
    and "get_remotectl1_handle e d s = (h, s') \<Longrightarrow> handles_ok s'"
  unfolding static_handle_defs by (erule static_ok [OF assms], simp add: entries_def)+


text \<open>An allocator that returns fresh blocks, and a default domain that exists.\<close>

definition env_ok :: "henv \<Rightarrow> bool" where
  "env_ok e \<longleftrightarrow> fresh_calloc e \<and> default_domain (a_mem e) \<in> set all_domains"

lemma current_domain_valid: "env_ok e \<Longrightarrow> get_current_domain (default_domain (a_mem e)) se \<in> set all_domains"
  by (auto simp: get_current_domain_def env_ok_def Let_def valid_iff_all_domains)

lemma dequeue_keeps:
  "handles_ok s \<Longrightarrow> d \<in> set all_domains \<Longrightarrow> \<not> is_prepend req \<Longrightarrow>
     handles_ok (snd (fastrpc_update_module_list e req d h name s))"
  by (rule dequeue_ok) (auto intro: prod.collapse [symmetric])

lemma close_reverse_ok: "env_ok e \<Longrightarrow> handles_ok s \<Longrightarrow> handles_ok (snd (close_reverse_handle e h s))"
proof -
  assume e: "env_ok e" and s: "handles_ok s"
  let ?d = "get_current_domain (default_domain (a_mem e)) (sess (am s))"
  obtain nErr dlErr str m where m: "mod_table_close (a_mod e) (ucast h) (mods s) = (nErr, dlErr, str, m)" by (metis surj_pair)
  have "handles_ok (s\<lparr>mods := m\<rparr>)" using s handles_ok_doms [of "s\<lparr>mods := m\<rparr>" s] by simp
  from dequeue_keeps [OF this current_domain_valid [OF e], of REVERSE_HANDLE_LIST_DEQUEUE e _ "ucast (ucast h :: u32)" None]
  have "handles_ok (snd (fastrpc_update_module_list e REVERSE_HANDLE_LIST_DEQUEUE ?d (ucast (ucast h :: u32)) None (s\<lparr>mods := m\<rparr>)))"
    by (simp add: is_prepend_def)
  with \<open>handles_ok (s\<lparr>mods := m\<rparr>)\<close> show ?thesis using m
    by (simp add: close_reverse_handle_def apps_remotectl_close_def Let_def split_beta)
qed

lemma drop_list_ok:
  assumes "handles_ok s" and "d \<in> set all_domains"
  shows "handles_ok (upd_dom d (\<lambda>D. D\<lparr>ql := []\<rparr>) s)" "handles_ok (upd_dom d (\<lambda>D. D\<lparr>nql := []\<rparr>) s)"
    "rql (doms s d) = hi # rest \<Longrightarrow> handles_ok (upd_dom d (\<lambda>D. D\<lparr>rql := rest\<rparr>) s)"
    "handles_ok (upd_dom d (\<lambda>D. D\<lparr>ql := [], nql := [], rql := [], is_session_reserved := b\<rparr>) s)"
proof -
  have "distinct (addrs (doms s d))" using handles_ok_dom [OF assms] by (simp add: dom_ok_def)
  then have "distinct (map h_addr (ql (doms s d)) @ map h_addr (nql (doms s d)) @ map h_addr (rql (doms s d)))"
    by (simp add: entries_def)
  then have "distinct (map h_addr (nql (doms s d)) @ map h_addr (rql (doms s d)))"
    "distinct (map h_addr (ql (doms s d)) @ map h_addr (rql (doms s d)))"
    "rql (doms s d) = hi # rest \<Longrightarrow> distinct (map h_addr (ql (doms s d)) @ map h_addr (nql (doms s d)) @ map h_addr rest)"
    by auto
  then show "handles_ok (upd_dom d (\<lambda>D. D\<lparr>ql := []\<rparr>) s)" "handles_ok (upd_dom d (\<lambda>D. D\<lparr>nql := []\<rparr>) s)"
    "rql (doms s d) = hi # rest \<Longrightarrow> handles_ok (upd_dom d (\<lambda>D. D\<lparr>rql := rest\<rparr>) s)"
    "handles_ok (upd_dom d (\<lambda>D. D\<lparr>ql := [], nql := [], rql := [], is_session_reserved := b\<rparr>) s)"
    by (auto simp: entries_def simp del: distinct_append intro!: handles_ok_shrink [OF assms])
qed

lemma clear_reverse_ok: "env_ok e \<Longrightarrow> handles_ok s \<Longrightarrow> d \<in> set all_domains \<Longrightarrow> handles_ok (clear_reverse e d n s)"
  by (induction e d n s rule: clear_reverse.induct) (auto split: list.splits intro: close_reverse_ok drop_list_ok)

lemma clear_list_ok:
  "env_ok e \<Longrightarrow> handles_ok s \<Longrightarrow> d \<in> set all_domains \<Longrightarrow> handles_ok (fastrpc_clear_handle_list e req d s)"
  by (cases req) (auto simp: fastrpc_clear_handle_list_def intro: drop_list_ok clear_reverse_ok)

lemma plain_field_ok:
  assumes "handles_ok s"
  shows "handles_ok (upd_dom d (\<lambda>D. D\<lparr>is_session_reserved := b\<rparr>) s)" "handles_ok (upd_dom d (\<lambda>D. D\<lparr>disable_exit_logs := b\<rparr>) s)"
    "handles_ok (upd_dom d (\<lambda>D. D\<lparr>remotectlhandle := l\<rparr>) s)" "handles_ok (upd_dom d (\<lambda>D. D\<lparr>dsppd := p\<rparr>) s)"
    "handles_ok (upd_dom d (\<lambda>D. D\<lparr>dsppdname := n\<rparr>) s)" "handles_ok (upd_dom d (\<lambda>D. D\<lparr>info := i\<rparr>) s)"
    "handles_ok (upd_dom d (\<lambda>D. D\<lparr>procattrs := a\<rparr>) s)" "handles_ok (upd_dom d (\<lambda>D. D\<lparr>first_revrpc_done := b\<rparr>) s)"
    "handles_ok (upd_dom d (\<lambda>D. D\<lparr>cphandle := 0, msghandle := 0, remotectlhandle := 0, listenerhandle := 0, info := i,
                          dsppd := p, dsppdname := n, sessionname := n'\<rparr>) s)"
  by (rule handles_ok_same_entries [OF assms], simp add: entries_def)+

lemma shut_down_ok:
  assumes "env_ok e" and "handles_ok s" and "d \<in> set all_domains"
  shows "handles_ok (shut_down e d olddev s)"
  using assms(2,3)
  by (auto simp: shut_down_def Let_def clear_domain_def intro!: plain_field_ok clear_list_ok [OF assms(1)])

lemma domain_deinit_ok:
  assumes "env_ok e" and "handles_ok s" and "d \<in> set all_domains" and "domain_deinit e d s = Some s'"
  shows "handles_ok s'"
proof -
  obtain h s1 where g: "get_adsp_current_process1_handle e d s = (h, s1)" by (metis surj_pair)
  have "handles_ok s1" using static_handles_ok(1) [OF _ assms(2,3) g] assms(1) by (simp add: env_ok_def)
  then show ?thesis
    using assms(2,4) g shut_down_ok [OF assms(1) _ assms(3)]
    by (auto simp: domain_deinit_def Let_def split: if_splits Option.bind_splits dest!: current_process_ok intro!: plain_field_ok)
qed

text \<open>The end of a session leaves the lists of the other domains alone.\<close>

lemma static_handle_ql:
  assumes "get_static_handle e get put const d s = (h, s')" and "x \<noteq> d"
  shows "ql (doms s' x) = ql (doms s x)"
  using assms by (auto simp: get_static_handle_def update_list_defs Let_def split: if_splits prod.splits option.splits)

lemma current_process_ql:
  assumes "current_process_call e mid ins handle s = Some (k, s')"
  shows "ql (doms s' x) = ql (doms s x)"
proof -
  have i: "ql (doms s2 x) = ql (doms s1 x)" if "remote_handle64_invoke e l sc pra s1 = Some ((n, out), s2)" for l sc pra s1 n out s2
    using that by (cases rule: handle64_invoke_cases) (auto simp: get_ref_frame(3) dest!: invoke_domain_frame(2) [of _ _ _ _ _ _ _ _ x])
  have j: "ql (doms s2 x) = ql (doms s1 x)" if "remote_handle_invoke e h sc pra s1 = Some ((n, out), s2)" for h sc pra s1 n out s2
    using that by (auto simp: remote_handle_invoke_def Let_def get_ref_frame(3) split: if_splits prod.splits
        dest!: invoke_domain_frame(2) [of _ _ _ _ _ _ _ _ x])
  show ?thesis
    using assms by (auto simp: current_process_call_def stub_call64_def stub_call_def split: if_splits Option.bind_splits dest: i j)
qed

lemma shut_down_ql: "x \<noteq> d \<Longrightarrow> ql (doms (shut_down e d olddev s) x) = ql (doms s x)"
  by (simp add: shut_down_def Let_def clear_domain_def set_dev_def set_state_def fastrpc_clear_handle_list_def ql_clear_reverse)

lemma domain_deinit_ql:
  assumes "domain_deinit e d s = Some s'" and "x \<noteq> d"
  shows "ql (doms s' x) = ql (doms s x)"
  using assms(1) static_handle_ql [OF _ assms(2)] shut_down_ql [OF assms(2)]
  by (auto simp: domain_deinit_def get_adsp_current_process1_handle_def set_state_def Let_def assms(2)
      split: if_splits Option.bind_splits prod.splits dest!: current_process_ql [where x = x])

text \<open>C34: when a session has ended, none of the handles that were open on it is valid any more, whoever holds it still:
  an invocation on one sends nothing to any device, stores no result and changes nothing.\<close>

theorem ended_session_sends_nothing:
  assumes "env_ok e" and "handles_ok s" and "handle_map s l = Some (domain, remote)" and "phase_of domain s = Some (Running d)"
  shows "\<exists>s'. domain_deinit e domain s = Some s' \<and> handles_ok s' \<and> handle_map s' l = None \<and>
    (\<forall>e' sc pra. \<exists>r. remote_handle64_invoke e' l sc pra s' = Some ((r, []), s'))"
proof -
  obtain s' where s': "domain_deinit e domain s = Some s'" using domain_deinit_total by blast
  obtain hi where hi: "domain \<in> set all_domains" "hi \<in> set (ql (doms s domain))" "h_addr hi = l"
    using assms(3) handle_map_eq [OF assms(2)] by blast
  have ok: "handles_ok s'" by (rule domain_deinit_ok [OF assms(1,2) hi(1) s'])
  obtain h where h: "devs s = Some h" "snd (h domain) \<noteq> -1"
    using assms(4) by (auto simp: phase_of_def split: option.splits if_splits)
  have gone: "ql (doms s' domain) = []" using domain_deinit_closed(4) [OF s' h] by blast
  have no: "hj \<notin> set (ql (doms s' x))" if x: "x \<in> set all_domains" and l: "h_addr hj = l" for x hj
  proof
    assume j: "hj \<in> set (ql (doms s' x))"
    then have ne: "x \<noteq> domain" using gone by auto
    then have "hj \<in> set (ql (doms s x))" using j domain_deinit_ql [OF s'] by simp
    then have "l \<in> set (addrs (doms s x)) \<inter> set (addrs (doms s domain))" using hi l by (auto simp: entries_def intro: rev_image_eqI)
    then show False using assms(2) x hi(1) ne unfolding handles_ok_def by blast
  qed
  have "handle_map s' l = None"
    using no handle_map_eq [OF ok] by (metis option.exhaust surj_pair)
  moreover have "verify_local_handle (-1) l s' \<noteq> 0"
    using no by (auto simp: verify_local_handle_def is_valid_local_handle_def)
  ultimately show ?thesis using s' ok invoke_on_bad_handle_reports_success by blast
qed

lemma create_process_ok: "create_process e d t dv s = (k, s') \<Longrightarrow> handles_ok s' \<longleftrightarrow> handles_ok s"
  by (rule handles_ok_cong)
    (auto simp: create_process_def ioctl_init_def Let_def set_errno_def entries_def
      split: if_splits prod.splits shell.splits)

lemma remote_init_ok: "handles_ok s \<Longrightarrow> remote_init e d s = (k, s') \<Longrightarrow> handles_ok s'"
  by (auto simp: remote_init_def Let_def split: if_splits prod.splits dest!: create_process_ok intro: plain_field_ok)

lemma wakelock_status_ok: "update_kernel_wakelock_status e d s = (k, s') \<Longrightarrow> handles_ok s' \<longleftrightarrow> handles_ok s"
  by (rule handles_ok_doms) (auto simp: update_kernel_wakelock_status_def split: if_splits)

lemma prepare_session_ok: "handles_ok s \<Longrightarrow> prepare_session e d s = (k, s') \<Longrightarrow> handles_ok s'"
proof -
  assume ok: "handles_ok s" and p: "prepare_session e d s = (k, s')"
  obtain k1 s1 where r1: "remote_init e d s = (k1, s1)" by (metis surj_pair)
  obtain k2 s2 where r2: "(if fastrpc_wake_lock_enable s1 d \<noteq> 0 then update_kernel_wakelock_status e d s1 else (0, s1)) = (k2, s2)"
    by (metis surj_pair)
  obtain k3 st where r3: "fastrpc_mem_open (a_mem e) d (am s2) = (k3, st)" by (metis surj_pair)
  obtain k4 s4 where r4: "comp e (APPS_MEM_INIT d) (s2\<lparr>am := st\<rparr>) = (k4, s4)" by (metis surj_pair)
  have o1: "handles_ok s1" by (rule remote_init_ok [OF ok r1])
  then have o2: "handles_ok s2" using r2 wakelock_status_ok [of e d s1 k2 s2] by (simp split: if_splits)
  then have "handles_ok s4" using r4 handles_ok_doms [of s4 s2] by (auto simp: comp_def)
  moreover have "handles_ok (s2\<lparr>am := st\<rparr>)" using o2 by simp
  ultimately show ?thesis using p r1 r2 r3 r4 o1 o2 by (auto simp del: handles_ok_simps simp: prepare_session_def split: if_splits)
qed

lemma announce_session_ok:
  assumes "env_ok e" and "handles_ok s" and "d \<in> set all_domains" and "announce_session e d s = Some (k, s')"
  shows "handles_ok s'"
proof -
  have fc: "fresh_calloc e" using assms(1) by (simp add: env_ok_def)
  have err: "handles_ok s2" if "send_errcodes e d s = Some s2" for s2
    using that assms(2) static_handles_ok(1) [OF fc assms(2,3)]
    by (auto simp: send_errcodes_def split: if_splits prod.splits Option.bind_splits dest!: current_process_ok)
  have notif: "handles_ok s3" if s2: "handles_ok s2" and n: "enable_process_state_notif_on_dsp e d s2 = Some (r, s3)" for s2 s3 r
  proof -
    obtain h s4 where g: "get_adsp_current_process1_handle e d (comps [NOTIF_DOMAIN_INIT d] s2) = (h, s4)" by (metis surj_pair)
    have "handles_ok s4" using static_handles_ok(1) [OF fc _ assms(3) g] s2 by simp
    then show ?thesis using n g by (simp add: enable_process_state_notif_on_dsp_def current_process_ok)
  qed
  obtain s2 where s2: "send_errcodes e d s = Some s2" using assms(4) by (auto simp: announce_session_def split: Option.bind_splits)
  from err [OF s2] have c: "handles_ok (comps [FILE_WATCHER_INIT d, TRACE_MARKER_INIT d] s2)" by simp
  then show ?thesis using assms(4) s2 notif [OF c] by (auto simp: announce_session_def Let_def split: Option.bind_splits if_splits)
qed

lemma run_session_ok:
  assumes "env_ok e" and "handles_ok s" and "d \<in> set all_domains" and "run_session e d s = (k, s')"
  shows "handles_ok s'"
proof -
  let ?s1 = "upd_sess (upd_domain d (\<lambda>h. h\<lparr>state := FASTRPC_DOMAIN_STATE_INIT, ref := 0\<rparr>)) (comps [PERF_INIT d] s)"
  obtain k2 s2 where r2: "comp e (LISTENER_DOMAIN_INIT d) ?s1 = (k2, s2)" by (metis surj_pair)
  have o2: "handles_ok s2" using r2 assms(2) handles_ok_doms [of s2 s] by (auto simp: comp_def)
  obtain h s3 where r3: "get_adspmsgd_adsp1_handle e d s2 = (h, s3)" by (metis surj_pair)
  have "handles_ok s3" using static_handles_ok(2) [OF _ o2 assms(3) r3] assms(1) by (simp add: env_ok_def)
  then show ?thesis using assms(4) r2 r3 o2 by (auto simp: run_session_def Let_def split: if_splits)
qed

lemma domain_init_ok:
  assumes "env_ok e" and "handles_ok s" and "d \<in> set all_domains" and "domain_init e d s = Some ((k, dv), s')"
  shows "handles_ok s'"
proof -
  have start: "handles_ok s2" if st: "start_session e d s = Some (n, s2)" for n s2
  proof -
    let ?s0 = "upd_dom d (\<lambda>D. D\<lparr>ql := [], nql := [], rql := [], is_session_reserved := True\<rparr>) s"
    obtain k1 s1 where p: "prepare_session e d ?s0 = (k1, s1)" by (metis surj_pair)
    have o1: "handles_ok s1" by (rule prepare_session_ok [OF drop_list_ok(4) [OF assms(2,3)] p])
    show ?thesis
    proof (cases "k1 = 0")
      case False
      then show ?thesis using st p o1 by (simp add: start_session_def)
    next
      case True
      obtain k2 s3 where a: "announce_session e d s1 = Some (k2, s3)"
        using st p True by (auto simp: start_session_def split: Option.bind_splits)
      have o3: "handles_ok s3" by (rule announce_session_ok [OF assms(1) o1 assms(3) a])
      then show ?thesis using st p True a run_session_ok [OF assms(1) o3 assms(3)]
        by (auto simp: start_session_def split: if_splits)
    qed
  qed
  show ?thesis
    using assms(2,4) start domain_deinit_ok [OF assms(1) _ assms(3)]
    by (auto simp: domain_init_def split: option.splits if_splits Option.bind_splits)
qed


section \<open>Opening and closing keep the lists\<close>

lemma drop_remotectl1_ok: "handles_ok s \<Longrightarrow> d \<in> set all_domains \<Longrightarrow> handles_ok (drop_remotectl1 e d s)"
  unfolding drop_remotectl1_def by (intro plain_field_ok dequeue_keeps) (simp_all add: is_prepend_def)

lemma load_module_ok:
  assumes "env_ok e" and "handles_ok s" and "d \<in> set all_domains" and "load_module e d name ph s = Some ((k, h), s')"
  shows "handles_ok s'"
proof -
  obtain l s1 where g: "get_remotectl1_handle e d s = (l, s1)" by (metis surj_pair)
  have "handles_ok s1" using static_handles_ok(3) [OF _ assms(2,3) g] assms(1) by (simp add: env_ok_def)
  then show ?thesis
    using assms(4) g drop_remotectl1_ok [OF _ assms(3), of _ e]
    by (auto simp: load_module_def Let_def split: if_splits Option.bind_splits dest!: remotectl_ok)
qed

lemma open_bail_ok:
  assumes "env_ok e" and "handles_ok s" and "d \<in> set all_domains" and "open_bail e d k s = Some s'"
  shows "handles_ok s'"
  using assms(4) domain_deinit_ok [OF assms(1) plain_field_ok(2) [OF assms(2)] assms(3)] assms(2)
  by (auto simp: open_bail_def split: if_splits)

lemma create_static_pd_ok: "handles_ok s \<Longrightarrow> create_static_pd e d name ph s = Some ((k, h), s') \<Longrightarrow> handles_ok s'"
  by (auto simp: create_static_pd_def Let_def split: if_splits Option.bind_splits option.splits intro!: plain_field_ok)

lemma open_domain_ok:
  assumes "env_ok e" and "handles_ok s" and "d \<in> set all_domains"
    and "remote_handle_open_domain e d name ph s = Some ((k, h), s')"
  shows "handles_ok s'"
proof -
  note init = domain_init_ok [OF assms(1-3)]
  note load = load_module_ok [OF assms(1) _ assms(3)]
  note bail = open_bail_ok [OF assms(1) _ assms(3)]
  show ?thesis
    using assms(2,4) create_static_pd_ok [OF assms(2)]
    by (auto simp: remote_handle_open_domain_def Let_def split: if_splits Option.bind_splits prod.splits
        dest!: init dest: load bail intro: plain_field_ok)
qed

lemma close_domain_ok:
  assumes "env_ok e" and "handles_ok s" and "d \<in> set all_domains" and "remote_handle_close_domain e d h s = Some (k, s')"
  shows "handles_ok s'"
proof -
  obtain l s1 where g: "get_remotectl1_handle e d s = (l, s1)" by (metis surj_pair)
  have "handles_ok s1" using static_handles_ok(3) [OF _ assms(2,3) g] assms(1) by (simp add: env_ok_def)
  then show ?thesis
    using assms(2,4) g drop_remotectl1_ok [OF _ assms(3), of _ e]
    by (auto simp: remote_handle_close_domain_def split: if_splits Option.bind_splits dest!: remotectl_ok)
qed

lemma close_ok:
  assumes "env_ok e" and "handles_ok s" and "remote_handle_close e h s = Some (k, s')"
  shows "handles_ok s'"
proof -
  let ?d = "get_current_domain (default_domain (a_mem e)) (sess (am s))"
  note d = current_domain_valid [OF assms(1), of "sess (am s)"]
  obtain k1 s1 where c: "remote_handle_close_domain e ?d h s = Some (k1, s1)"
    using assms(3) by (auto simp: remote_handle_close_def Let_def split: Option.bind_splits)
  have o1: "handles_ok s1" by (rule close_domain_ok [OF assms(1,2) d c])
  then have "handles_ok (snd (fastrpc_update_module_list e NON_DOMAIN_LIST_DEQUEUE ?d (ucast h) None (put_ref ?d s1)))"
    by (intro dequeue_keeps [OF _ d]) (simp_all add: is_prepend_def)
  then show ?thesis using assms(3) c o1 by (auto simp: remote_handle_close_def Let_def split: if_splits)
qed

lemma close_valid_ok:
  assumes "env_ok e" and "handles_ok s" and "d \<in> set all_domains" and "close_valid e d handle remote s = Some (k, s')"
  shows "handles_ok s'"
proof -
  obtain k1 s1 where c: "(if \<not> (domainsCount (doms s d) \<le> 1 \<and> nondomainsCount (doms s d) = 0) \<and> remote \<noteq> 0
      then remote_handle_close_domain e d (ucast remote) s else Some (0, s)) = Some (k1, s1)"
    using assms(4) by (auto simp: close_valid_def Let_def split: Option.bind_splits)
  have o1: "handles_ok s1" using c assms(2) close_domain_ok [OF assms(1-3)] by (simp split: if_splits)
  let ?s2 = "if k1 \<noteq> 0 then s1 else put_ref d (snd (fastrpc_update_module_list e DOMAIN_LIST_DEQUEUE d handle None s1))"
  have o2: "handles_ok ?s2" using o1 dequeue_keeps [OF o1 assms(3), of DOMAIN_LIST_DEQUEUE] by (simp add: is_prepend_def)
  then show ?thesis
    using assms(4) c domain_deinit_ok [OF assms(1) plain_field_ok(2) [OF o2] assms(3)]
    by (auto simp: close_valid_def Let_def split: Option.bind_splits if_splits)
qed

lemma handle_domain_valid: "get_domain_from_handle h s = (k, Some d) \<Longrightarrow> d \<in> set all_domains"
  by (auto simp: get_domain_from_handle_def Let_def valid_iff_all_domains split: if_splits option.splits)

lemma close64_ok:
  assumes "env_ok e" and "handles_ok s" and "remote_handle64_close e h s = Some (k, s')"
  shows "handles_ok s'"
  using assms(2,3) close_valid_ok [OF assms(1), of "upd_sess (set_thread_context d) s" d for d]
  by (auto simp: remote_handle64_close_def split: if_splits prod.splits option.splits dest: handle_domain_valid)


section \<open>Opening\<close>

text \<open>C10: a successful open returns a handle that resolves to the domain of the name and to the remote handle that the
  module was loaded under (or, for the name of a static process, the handle of that process), and the lists
  of handles stay in order.\<close>

theorem open_registers_module:
  assumes "env_ok e" and "handles_ok s" and "\<not> starts_with name (ITRANSPORT ''geteventfd'')"
    and "remote_handle64_open e (Some name) s = Some ((0, Some l), s')"
  shows "handles_ok s' \<and>
    (\<exists>domain r s1 s2. domain = get_domain_from_name (Some name) DOMAIN_NAME_IN_URI \<and>
       remote_handle_open_domain e domain name 0 s1 = Some ((0, r), s2) \<and>
       (if IS_STATICPD_HANDLE (ucast r) then l = ucast r
        else handle_map s' l = Some (domain, ucast r) \<and>
             get_domain_from_handle l s' = (0, Some domain) \<and> get_handle_remote l s' = (0, Some (ucast r))))"
proof -
  let ?d = "get_domain_from_name (Some name) DOMAIN_NAME_IN_URI"
  from assms(3,4) have v: "IS_VALID_EFFECTIVE_DOMAIN_ID ?d" "?d \<ge> 0" "fastrpc_init_once (am s) = 0"
    by (auto simp: remote_handle64_open_def Let_def split: if_splits)
  obtain k s1 where g: "get_ref ?d s = (k, s1)" by (metis surj_pair)
  have k: "k = 0" using assms(4) v g by (auto simp: remote_handle64_open_def Let_def split: if_splits)
  have o1: "handles_ok s1" using get_ref_ok [OF g] assms(2) by simp
  have dd: "?d \<in> set all_domains" using v(1) by (simp add: valid_iff_all_domains)
  obtain n r s2 where o: "remote_handle_open_domain e ?d name 0 s1 = Some ((n, r), s2)"
    using assms(4) v g k by (auto simp: remote_handle64_open_def Let_def split: Option.bind_splits)
  have n: "n = 0" using assms(4) v g k o by (auto simp: remote_handle64_open_def Let_def split: if_splits Option.bind_splits)
  have o2: "handles_ok s2" by (rule open_domain_ok [OF assms(1) o1 dd o])
  show ?thesis
  proof (cases "IS_STATICPD_HANDLE (ucast r)")
    case True
    then have "l = ucast r \<and> s' = s2" using assms(4) v g k o n by (simp add: remote_handle64_open_def Let_def)
    then show ?thesis using True o o2 n by auto
  next
    case False
    obtain m lo s3 where u: "fastrpc_update_module_list e DOMAIN_LIST_PREPEND ?d (ucast r) (Some name) s2 = ((m, lo), s3)"
      by (metis surj_pair)
    have "m = 0 \<and> lo = Some l \<and> s' = s3"
      using assms(3,4) v g k o n u False by (auto simp: remote_handle64_open_def Let_def split: if_splits)
    then have u: "fastrpc_update_module_list e DOMAIN_LIST_PREPEND ?d (ucast r) (Some name) s2 = ((0, Some l), s')" using u by simp
    have fc: "fresh_calloc e" using assms(1) by (simp add: env_ok_def)
    have ok: "handles_ok s'" by (rule prepend_ok [OF fc o2 dd _ u]) (simp add: is_prepend_def)
    have "handle_map s' l = Some (?d, ucast r)" using handle_map_prepend(2) [OF fc o2 dd u] by simp
    then show ?thesis using False o n ok get_domain_map [OF ok] get_remote_map [OF ok] by auto
  qed
qed

section \<open>Closing\<close>

lemma devs_close_domain:
  assumes "remote_handle_close_domain e d h s = Some (k, s')"
  shows "devs s' = devs s"
proof -
  have drop: "devs (drop_remotectl1 e d s1) = devs s1" for s1
    by (simp add: drop_remotectl1_def devs_update_list [OF prod.collapse [symmetric]])
  obtain l s1 where g: "get_remotectl1_handle e d s = (l, s1)" by (metis surj_pair)
  have r: "remotectl1_close1 e x sa = Some ((a, b), sb) \<Longrightarrow> devs sb = devs sa"
    "remotectl_close e sa = Some ((a, b), sb) \<Longrightarrow> devs sb = devs sa" for x sa sb a b
    by (auto simp: remotectl1_close1_def remotectl_close_def split: Option.bind_splits dest: devs_stub)
  show ?thesis
    using assms g devs_static_handles(3) [OF g] drop
    by (auto simp: remote_handle_close_domain_def split: if_splits Option.bind_splits dest!: r)
qed

lemma last_close:
  assumes "handles_ok s" and "handle_map s l = Some (domain, remote)" and "\<not> IS_STATICPD_HANDLE l"
    and "domainsCount (doms s domain) \<le> 1" and "nondomainsCount (doms s domain) = 0" and "phase_of domain s = Some (Running d)"
  shows "\<exists>s'. remote_handle64_close e l s = Some (0, s') \<and> phase_of domain s' = Some Closed \<and> closed_domain domain s' \<and>
    (\<exists>cs. calls s' = cs @ [CLOSE_DEVICE d])"
proof -
  have l: "l \<noteq> -1" "IS_VALID_EFFECTIVE_DOMAIN_ID domain"
    using assms(1,2) handle_at_props(2,4) by (force simp: handle_map_def)+
  have gd: "get_domain_from_handle l s = (0, Some domain)" using get_domain_map [OF assms(1)] assms(2) by simp
  have gr: "get_handle_remote l s = (0, Some remote)" using get_remote_map [OF assms(1)] assms(2) by simp
  let ?s1 = "upd_sess (set_thread_context domain) s"
  let ?s2 = "put_ref domain (snd (fastrpc_update_module_list e DOMAIN_LIST_DEQUEUE domain l None ?s1))"
  let ?s3 = "upd_dom domain (\<lambda>D. D\<lparr>disable_exit_logs := True\<rparr>) ?s2"
  have dv: "devs ?s3 = devs s"
    using devs_update_list [OF prod.collapse [symmetric], of e DOMAIN_LIST_DEQUEUE domain l None ?s1] by simp
  obtain s' where s': "domain_deinit e domain ?s3 = Some s'" using domain_deinit_total by blast
  obtain h where h: "devs s = Some h" using assms(6) by (auto simp: phase_of_def split: option.splits)
  then have hd: "snd (h domain) = d" "d \<noteq> -1" using assms(6) by (auto simp: phase_of_def split: if_splits)
  have "close_valid e domain l remote ?s1 = Some (0, s')"
    using assms(4,5) l(2) s' by (simp add: close_valid_def)
  then have "remote_handle64_close e l s = Some (0, s')"
    using assms(3) l(1) gd gr by (simp add: remote_handle64_close_def)
  moreover note domain_deinit_closed [OF s' dv [unfolded h]]
  ultimately show ?thesis using hd by (auto simp: closed_domain_def phase_of_def)
qed

lemma del_first_keeps: "x \<in> set xs \<Longrightarrow> \<not> P x \<Longrightarrow> x \<in> set (del_first P xs)"
  by (induction xs) auto

text \<open>C23: closing the last handle of a session ends the session: its device is closed, and the domain is free again.\<close>

theorem last_close_ends_session:
  assumes "handles_ok s" and "handle_map s l = Some (domain, remote)" and "\<not> IS_STATICPD_HANDLE l"
    and "domainsCount (doms s domain) \<le> 1" and "nondomainsCount (doms s domain) = 0" and "phase_of domain s = Some (Running d)"
  shows "\<exists>s'. remote_handle64_close e l s = Some (0, s') \<and> phase_of domain s' = Some Closed \<and> closed_domain domain s' \<and>
    (\<exists>cs. calls s' = cs @ [CLOSE_DEVICE d])"
  by (rule last_close [OF assms])

text \<open>What closing a module on the DSP leaves alone.\<close>

lemma invoke_domain_doms:
  assumes "remote_handle_invoke_domain e domain handle sc pra s = Some (r, s')"
  shows "ql (doms s' x) = ql (doms s x) \<and> counts (doms s' x) = counts (doms s x)"
  using invoke_domain_frame(2,4) [OF assms] by simp

lemma invoke_doms:
  assumes "remote_handle64_invoke e l sc pra s = Some ((n, out), s') \<or> remote_handle_invoke e k sc pra s = Some ((n, out), s')"
  shows "ql (doms s' x) = ql (doms s x) \<and> counts (doms s' x) = counts (doms s x)"
  using assms
proof
  assume "remote_handle64_invoke e l sc pra s = Some ((n, out), s')"
  then show ?thesis
    by (cases rule: handle64_invoke_cases)
      (auto simp: get_ref_frame(3) dest!: invoke_domain_doms [where x = x])
next
  assume "remote_handle_invoke e k sc pra s = Some ((n, out), s')"
  then show ?thesis
    by (auto simp: remote_handle_invoke_def Let_def get_ref_frame(3) split: if_splits prod.splits
        dest!: invoke_domain_doms [where x = x])
qed

lemma remotectl_doms:
  assumes "remotectl1_close1 e l s = Some ((a, b), s') \<or> remotectl_close e s = Some ((a, b), s')"
  shows "ql (doms s' x) = ql (doms s x) \<and> counts (doms s' x) = counts (doms s x)"
  using assms by (auto simp: remotectl1_close1_def remotectl_close_def stub_call64_def stub_call_def
      split: Option.bind_splits dest: invoke_doms [OF disjI1] invoke_doms [OF disjI2])

lemma close_domain_keeps:
  assumes "remote_handle_close_domain e d h s = Some (k, s')"
  shows "counts (doms s' x) = counts (doms s x)"
    and "hi \<in> set (ql (doms s x)) \<Longrightarrow> h_remote hi \<noteq> remotectl1_const \<Longrightarrow> hi \<in> set (ql (doms s' x))"
proof -
  obtain l s1 where g: "get_remotectl1_handle e d s = (l, s1)" by (metis surj_pair)
  have c1: "counts (doms s1 x) = counts (doms s x)"
    using g by (auto simp: get_remotectl1_handle_def get_static_handle_def update_prepend counts_def count_domain_handle_def
        IS_CONST_HANDLE_def split: if_splits prod.splits option.splits)
  have m1: "hi \<in> set (ql (doms s1 x))" if "hi \<in> set (ql (doms s x))"
    using g that by (auto simp: get_remotectl1_handle_def get_static_handle_def update_prepend
        split: if_splits prod.splits option.splits)
  have dc: "counts (doms (drop_remotectl1 e d s2) x) = counts (doms s2 x)" for s2
    by (simp add: drop_remotectl1_def update_dequeue counts_def count_domain_handle_def IS_CONST_HANDLE_def)
  have dm: "hi \<in> set (ql (doms (drop_remotectl1 e d s2) x))" if "hi \<in> set (ql (doms s2 x))" "h_remote hi \<noteq> remotectl1_const" for s2
    using that by (cases "x = d") (auto simp: drop_remotectl1_def update_dequeue intro: del_first_keeps)
  show "counts (doms s' x) = counts (doms s x)"
    using assms g c1 dc
    by (auto simp: remote_handle_close_domain_def split: if_splits Option.bind_splits
        dest!: remotectl_doms [OF disjI1, of _ _ _ _ _ _ x] remotectl_doms [OF disjI2, of _ _ _ _ _ x])
  show "hi \<in> set (ql (doms s' x))" if "hi \<in> set (ql (doms s x))" "h_remote hi \<noteq> remotectl1_const"
    using assms g m1 [OF that(1)] dm that
    by (auto simp: remote_handle_close_domain_def split: if_splits Option.bind_splits
        dest!: remotectl_doms [OF disjI1, of _ _ _ _ _ _ x] remotectl_doms [OF disjI2, of _ _ _ _ _ x])
qed

text \<open>The close of a handle that is not the last one of its session, when it succeeds: the entries stay in their
  lists but for one whose remote handle is the number of the closed local handle, or the one of the loader.\<close>

lemma close_not_last:
  assumes "handles_ok s" and "handle_map s l = Some (domain, remote)"
    and "\<not> IS_STATICPD_HANDLE l" "\<not> IS_CONST_HANDLE l"
    and "domainsCount (doms s domain) > 1" and "remote_handle64_close e l s = Some (0, s')"
    and "phase_of domain s = Some (Running d)"
  shows "hi \<in> set (ql (doms s x)) \<Longrightarrow> h_remote hi \<noteq> l \<Longrightarrow> h_remote hi \<noteq> remotectl1_const \<Longrightarrow> hi \<in> set (ql (doms s' x))"
    and "domainsCount (doms s' domain) = domainsCount (doms s domain) - 1"
    and "nondomainsCount (doms s' domain) = nondomainsCount (doms s domain)"
    and "phase_of domain s' = phase_of domain s"
proof -
  have l: "l \<noteq> -1" "domain \<in> set all_domains" "IS_VALID_EFFECTIVE_DOMAIN_ID domain"
    using assms(1,2) handle_at_props(2,4,6) by (force simp: handle_map_def)+
  have gd: "get_domain_from_handle l s = (0, Some domain)" using get_domain_map [OF assms(1)] assms(2) by simp
  have gr: "get_handle_remote l s = (0, Some remote)" using get_remote_map [OF assms(1)] assms(2) by simp
  let ?s0 = "upd_sess (set_thread_context domain) s"
  have nd: "\<not> (domainsCount (doms ?s0 domain) \<le> 1 \<and> nondomainsCount (doms ?s0 domain) = 0)" using assms(5) by (auto dest: leD)
  have "close_valid e domain l remote ?s0 = Some (0, s')" using assms(3,6) l gd gr by (simp add: remote_handle64_close_def)
  then have cv: "(if remote \<noteq> 0 then remote_handle_close_domain e domain (ucast remote) ?s0 else Some (0, ?s0)) \<bind>
      (\<lambda>(k1, s2). Some (if k1 \<noteq> AEE_EINVHANDLE \<and> k1 \<noteq> 0 \<and> is_process_exiting domain
          (if k1 \<noteq> 0 then s2 else put_ref domain (snd (fastrpc_update_module_list e DOMAIN_LIST_DEQUEUE domain l None s2))) then 0 else k1,
        if k1 \<noteq> 0 then s2 else put_ref domain (snd (fastrpc_update_module_list e DOMAIN_LIST_DEQUEUE domain l None s2)))) = Some (0, s')"
    using nd l(3) unfolding close_valid_def Let_def by (simp only: if_False simp_thms bind.simps)
  then obtain k1 s2 where c: "(if remote \<noteq> 0 then remote_handle_close_domain e domain (ucast remote) ?s0 else Some (0, ?s0)) = Some (k1, s2)"
    by (cases "if remote \<noteq> 0 then remote_handle_close_domain e domain (ucast remote) ?s0 else Some (0, ?s0)") auto
  from cv have s1: "k1 \<noteq> 0 \<Longrightarrow> s' = s2 \<and> is_process_exiting domain s2"
      "k1 = 0 \<Longrightarrow> s' = put_ref domain (snd (fastrpc_update_module_list e DOMAIN_LIST_DEQUEUE domain l None s2))"
    unfolding c by (simp_all split: if_splits)
  have d2: "devs s2 = devs s" using c devs_close_domain [of e domain _ ?s0 k1 s2] by (auto split: if_splits)
  have "\<not> is_process_exiting domain s2"
  proof -
    obtain h where "devs s2 = Some h" "fst (h domain) = FASTRPC_DOMAIN_STATE_INIT"
      using assms(7) d2 by (auto simp: phase_of_def split: option.splits if_splits)
    then show ?thesis using l(3) by (auto simp: is_process_exiting_def devs_def)
  qed
  then have k1: "k1 = 0" using s1(1) by blast
  then have s': "s' = put_ref domain (snd (fastrpc_update_module_list e DOMAIN_LIST_DEQUEUE domain l None s2))" by (rule s1(2))
  have k: "counts (doms s2 domain) = counts (doms s domain)"
    "\<And>hi. hi \<in> set (ql (doms s x)) \<Longrightarrow> h_remote hi \<noteq> remotectl1_const \<Longrightarrow> hi \<in> set (ql (doms s2 x))"
    using c close_domain_keeps(1) [of e domain "ucast remote" ?s0 k1 s2 domain] close_domain_keeps(2) [of e domain "ucast remote" ?s0 k1 s2 _ x]
    by (auto split: if_splits)
  show "hi \<in> set (ql (doms s' x))" if "hi \<in> set (ql (doms s x))" "h_remote hi \<noteq> l" "h_remote hi \<noteq> remotectl1_const"
    using k(2) [OF that(1,3)] that(2) by (cases "x = domain") (auto simp: s' update_dequeue intro: del_first_keeps)
  show "domainsCount (doms s' domain) = domainsCount (doms s domain) - 1"
    "nondomainsCount (doms s' domain) = nondomainsCount (doms s domain)"
    using k(1) assms(4) by (simp_all add: s' update_dequeue counts_def count_domain_handle_def)
  have "devs s' = devs s" using d2 devs_update_list [OF prod.collapse [symmetric]] by (simp add: s')
  then show "phase_of domain s' = phase_of domain s" by (rule phase_cong)
qed

lemma close_keeps_entry:
  assumes "env_ok e" and "handles_ok s" and "handle_map s l = Some (domain, remote)"
    and "\<not> IS_STATICPD_HANDLE l" "\<not> IS_CONST_HANDLE l"
    and "domainsCount (doms s domain) > 1" and "remote_handle64_close e l s = Some (0, s')"
    and "phase_of domain s = Some (Running d)"
    and "handle_map s m = Some (d2, r2)" and "r2 \<noteq> l" "r2 \<noteq> remotectl1_const"
  shows "handle_map s' m = Some (d2, r2)"
proof -
  have ok: "handles_ok s'" by (rule close64_ok [OF assms(1,2,7)])
  obtain hi where "d2 \<in> set all_domains" "hi \<in> set (ql (doms s d2))" "h_addr hi = m" "h_remote hi = r2"
    using assms(9) handle_map_eq [OF assms(2)] by blast
  then show ?thesis using close_not_last(1) [OF assms(2-8), of hi d2] assms(10,11) handle_map_eq [OF ok] by blast
qed

text \<open>C11: closing a handle that is not the last one of its session takes one off the number of open handles, lets the
  session run on and leaves the other handles alone: every other open handle, of this or of another session, resolves to the
  same domain and remote handle as before, if its remote handle is not by chance the number of the closed local handle
  (which the removal from the list compares it with) and not the handle of the loader.\<close>

theorem close_spares_others:
  assumes "env_ok e" and "handles_ok s" and "handle_map s l = Some (domain, remote)"
    and "\<not> IS_STATICPD_HANDLE l" "\<not> IS_CONST_HANDLE l"
    and "domainsCount (doms s domain) > 1" and "remote_handle64_close e l s = Some (0, s')"
    and "phase_of domain s = Some (Running d)"
  shows "phase_of domain s' = Some (Running d) \<and> domainsCount (doms s' domain) = domainsCount (doms s domain) - 1 \<and>
    handles_ok s' \<and>
    (\<forall>m d2 r2. handle_map s m = Some (d2, r2) \<and> m \<noteq> l \<and> r2 \<noteq> l \<and> r2 \<noteq> remotectl1_const \<longrightarrow> handle_map s' m = Some (d2, r2))"
  using close_not_last(2,4) [OF assms(2-8)] assms(8) close64_ok [OF assms(1,2,7)] close_keeps_entry [OF assms] by auto

text \<open>Closing a handle that is not the last one of its session leaves its entry in the list, because the entries are
  compared by the remote handle: the closed handle still resolves and can be closed a second time. When only one other
  handle is open, the second close ends the session under it.\<close>

theorem closed_handle_stays_valid:
  assumes "env_ok e" and "handles_ok s" and "handle_map s l = Some (domain, remote)"
    and "\<not> IS_STATICPD_HANDLE l" "\<not> IS_CONST_HANDLE l" and "remote \<noteq> l" "remote \<noteq> remotectl1_const"
    and "domainsCount (doms s domain) > 1" and "phase_of domain s = Some (Running d)"
    and "remote_handle64_close e l s = Some (0, s')"
  shows "get_domain_from_handle l s' = (0, Some domain) \<and> get_handle_remote l s' = (0, Some remote) \<and>
    phase_of domain s' = Some (Running d) \<and> domainsCount (doms s' domain) = domainsCount (doms s domain) - 1 \<and>
    (domainsCount (doms s domain) = 2 \<and> nondomainsCount (doms s domain) = 0 \<longrightarrow>
       (\<exists>s''. remote_handle64_close e l s' = Some (0, s'') \<and> phase_of domain s'' = Some Closed \<and> ql (doms s'' domain) = []))"
proof -
  note k = close_keeps_entry [OF assms(1-5,8,10,9,3,6,7)] close_not_last(2-4) [OF assms(2-5,8,10,9)]
  have ok: "handles_ok s'" by (rule close64_ok [OF assms(1,2,10)])
  have "\<exists>s''. remote_handle64_close e l s' = Some (0, s'') \<and> phase_of domain s'' = Some Closed \<and> ql (doms s'' domain) = []"
    if "domainsCount (doms s domain) = 2" "nondomainsCount (doms s domain) = 0"
    using last_close [OF ok k(1) assms(4), of d e] k(2-4) that assms(9) by (auto simp: closed_domain_def)
  then show ?thesis using k get_domain_map [OF ok] get_remote_map [OF ok] assms(9) by simp
qed

section \<open>Errors in the bookkeeping\<close>

text \<open>An open that fails after the handle was set closes it as a handle without a domain, whose count was never raised.\<close>

lemma failed_open_miscounts:
  assumes "fastrpc_init_once (am s) = 0" and "domain = get_domain_from_name (Some name) DOMAIN_NAME_IN_URI" and "domain \<ge> 0"
    and "IS_VALID_EFFECTIVE_DOMAIN_ID domain" and "get_ref domain s = (0, s1)"
    and "remote_handle_open_domain e domain name 0 s1 = Some ((n, h), s2)" and "n \<noteq> 0" "h \<noteq> 0"
    and "get_current_domain (default_domain (a_mem e)) (sess (am s2)) = domain"
    and "remote_handle_close_domain e domain h s2 = Some (0, s3)"
  shows "\<exists>s'. remote_handle64_open e (Some name) s = Some ((n, None), s') \<and>
    nondomainsCount (doms s' domain) = nondomainsCount (doms s2 domain) - 1"
proof -
  have "nondomainsCount (doms s3 domain) = nondomainsCount (doms s2 domain)"
    using close_domain_keeps(1) [OF assms(10), of domain] by (simp add: counts_def)
  moreover have "remote_handle_close e h s2 =
      Some (0, snd (fastrpc_update_module_list e NON_DOMAIN_LIST_DEQUEUE domain (ucast h) None (put_ref domain s3)))"
    using assms(9,10) by (simp add: remote_handle_close_def)
  moreover have "remote_handle64_open e (Some name) s = Some ((n, None),
      snd (fastrpc_update_module_list e NON_DOMAIN_LIST_DEQUEUE domain (ucast h) None (put_ref domain s3)))"
    using assms(1-8) calculation(2) by (simp add: remote_handle64_open_def Let_def)
  ultimately show ?thesis by (simp add: update_dequeue)
qed

text \<open>Closing the handles of a session one by one: when the close of one ends the session, the list is emptied and the
  loop goes on with an entry that was freed.\<close>

lemma walk_reads_freed_entry:
  assumes "handles_ok s" and "handle_map s (h_addr hi) = Some (domain, remote)" and "\<not> IS_STATICPD_HANDLE (h_addr hi)"
    and "domainsCount (doms s domain) \<le> 1" and "nondomainsCount (doms s domain) = 0" and "phase_of domain s = Some (Running d)"
  shows "walk_list (\<lambda>s. ql (doms s domain)) (\<lambda>hi s. do { (k, s) \<leftarrow> remote_handle64_close e (h_addr hi) s; Some s })
    (hi # nxt # rest) s = None"
  using last_close [OF assms, of e] by (auto simp: closed_domain_def)

text \<open>Attaching to the user process succeeds without a handle; the handle that is registered is 0.\<close>

lemma attach_has_no_handle:
  "remote_handle_open_domain e domain (ITRANSPORT ''attachuserpd&_dom=cdsp'') 0 s =
     Some ((0, 0), upd_dom domain (\<lambda>D. D\<lparr>dsppd := USERPD\<rparr>) s)"
  by (simp add: remote_handle_open_domain_def ITRANSPORT_def starts_with_def)

text \<open>A name that ends before the colon is read behind its end.\<close>

lemma static_pd_name_overread: "static_pd_name 3 (ITRANSPORT ''createstaticpd'') = None"
  by (simp add: static_pd_name_def ITRANSPORT_def)

text \<open>An error of the fallback of a close is lost.\<close>

lemma close_error_lost:
  assumes "h \<noteq> -1" and "a_alloc e s 5" and "get_remotectl1_handle e domain s = (l, s1)" and "l \<noteq> INVALID_HANDLE"
    and "remotectl1_close1 e l s1 = Some ((n, a), s2)" and "n \<noteq> 0"
    and "remotectl_close e (drop_remotectl1 e domain s2) = Some ((m, b), s3)" and "m \<noteq> 0"
  shows "remote_handle_close_domain e domain h s = Some (0, s3)"
  using assms by (simp add: remote_handle_close_domain_def)

section \<open>Instances\<close>

lemma demo_henv_ok: "env_ok demo_henv"
proof -
  have "default_domain (a_mem demo_henv) \<in> set all_domains" by code_simp
  then show ?thesis by (simp add: env_ok_def demo_henv_fresh)
qed

text \<open>The session of domain 3 runs on device 7 with one open module.\<close>

lemma demo_open_one: "domainsCount (doms demo_open 3) \<le> 1" "nondomainsCount (doms demo_open 3) = 0"
    "phase_of 3 demo_open = Some (Running 7)" "\<not> IS_STATICPD_HANDLE 0x1000"
  by code_simp+

theorem last_close_ends_session_witness:
  "\<exists>s'. remote_handle64_close demo_henv 0x1000 demo_open = Some (0, s') \<and> phase_of 3 s' = Some Closed \<and> closed_domain 3 s' \<and>
    (\<exists>cs. calls s' = cs @ [CLOSE_DEVICE 7])"
  by (rule last_close_ends_session [OF demo_open_ok demo_open_one(4,1-3)])

text \<open>Two open modules; the stub with a handle has been given up.\<close>

definition demo_two :: apps where
  "demo_two = upd_dom 3 (\<lambda>D. D\<lparr>remotectlhandle := INVALID_HANDLE\<rparr>)
     (snd (fastrpc_update_module_list demo_henv DOMAIN_LIST_PREPEND 3 0x200000 None demo_open))"

definition demo_closing :: henv where
  "demo_closing = demo_henv\<lparr>a_ioctl := \<lambda>_ _. (0, 0, [0])\<rparr>"

lemma demo_closing_ok: "env_ok demo_closing"
proof -
  have "fresh_calloc demo_closing" by (rule fresh_next_free) (simp add: demo_closing_def demo_henv_def)
  moreover have "default_domain (a_mem demo_closing) \<in> set all_domains" by code_simp
  ultimately show ?thesis by (simp add: env_ok_def)
qed

lemma demo_two_ok: "handles_ok demo_two" "handle_map demo_two 0x1000 = Some (3, 0x100000)"
proof -
  have d: "(3 :: int) \<in> set all_domains" by code_simp
  obtain r s' where u: "fastrpc_update_module_list demo_henv DOMAIN_LIST_PREPEND 3 0x200000 None demo_open = (r, s')"
    by (metis surj_pair)
  from prepend_ok [OF demo_henv_fresh demo_open_ok(1) d _ u]
  show "handles_ok demo_two" unfolding demo_two_def u by (intro plain_field_ok) (simp add: is_prepend_def)
  show "handle_map demo_two 0x1000 = Some (3, 0x100000)" by code_simp
qed

definition demo_closed_once :: "(int \<times> apps) option" where
  "demo_closed_once = remote_handle64_close demo_closing 0x1000 demo_two"

theorem closed_handle_stays_valid_witness:
  "get_domain_from_handle 0x1000 (snd (the demo_closed_once)) = (0, Some 3) \<and>
   (\<exists>s''. remote_handle64_close demo_closing 0x1000 (snd (the demo_closed_once)) = Some (0, s'') \<and>
      phase_of 3 s'' = Some Closed)"
proof -
  have "demo_closed_once \<noteq> None \<and> fst (the demo_closed_once) = 0" by code_simp
  then have r: "remote_handle64_close demo_closing 0x1000 demo_two = Some (0, snd (the demo_closed_once))"
    unfolding demo_closed_once_def by (metis option.collapse prod.collapse)
  have n: "\<not> IS_STATICPD_HANDLE 0x1000" "\<not> IS_CONST_HANDLE 0x1000" "(0x100000 :: u64) \<noteq> 0x1000" "(0x100000 :: u64) \<noteq> remotectl1_const"
    by code_simp+
  have c: "domainsCount (doms demo_two 3) > 1" "phase_of 3 demo_two = Some (Running 7)"
    "domainsCount (doms demo_two 3) = 2 \<and> nondomainsCount (doms demo_two 3) = 0" by code_simp+
  from closed_handle_stays_valid [OF demo_closing_ok demo_two_ok n c(1,2) r] c(3) show ?thesis by auto
qed

theorem close_spares_others_witness:
  "handle_map (snd (the demo_closed_once)) 0x1040 = Some (3, 0x200000) \<and> phase_of 3 (snd (the demo_closed_once)) = Some (Running 7)"
proof -
  have "demo_closed_once \<noteq> None \<and> fst (the demo_closed_once) = 0" by code_simp
  then have r: "remote_handle64_close demo_closing 0x1000 demo_two = Some (0, snd (the demo_closed_once))"
    unfolding demo_closed_once_def by (metis option.collapse prod.collapse)
  have n: "\<not> IS_STATICPD_HANDLE 0x1000" "\<not> IS_CONST_HANDLE 0x1000" by code_simp+
  have c: "domainsCount (doms demo_two 3) > 1" "phase_of 3 demo_two = Some (Running 7)" by code_simp+
  have o: "handle_map demo_two 0x1040 = Some (3, 0x200000)" "(0x1040 :: u64) \<noteq> 0x1000" "(0x200000 :: u64) \<noteq> 0x1000" "(0x200000 :: u64) \<noteq> remotectl1_const"
    by code_simp+
  from close_spares_others [OF demo_closing_ok demo_two_ok n c(1) r c(2)] o show ?thesis by blast
qed

theorem ended_session_sends_nothing_witness:
  "\<exists>s' r. domain_deinit demo_closing 3 demo_two = Some s' \<and>
     remote_handle64_invoke demo_closing 0x1000 demo_sc (Some demo_args) s' = Some ((r, []), s')"
proof -
  have "phase_of 3 demo_two = Some (Running 7)" by code_simp
  from ended_session_sends_nothing [OF demo_closing_ok demo_two_ok this] show ?thesis by blast
qed

text \<open>Opening a module when the session runs already.\<close>

definition demo_lib :: string where
  "demo_lib = ''libx.so&_dom=cdsp''"

definition demo_opened :: "((int \<times> u64 option) \<times> apps) option" where
  "demo_opened = remote_handle64_open demo_henv (Some demo_lib) (upd_dom 3 (\<lambda>D. D\<lparr>remotectlhandle := INVALID_HANDLE\<rparr>) demo_handles)"

lemma demo_opened_result: "demo_opened \<noteq> None \<and> fst (the demo_opened) = (0, Some 0x1000)"
  by code_simp

theorem open_registers_module_witness:
  "handles_ok (snd (the demo_opened)) \<and> get_domain_from_handle 0x1000 (snd (the demo_opened)) = (0, Some 3)"
proof -
  let ?s = "upd_dom 3 (\<lambda>D. D\<lparr>remotectlhandle := INVALID_HANDLE\<rparr>) demo_handles"
  have ok: "handles_ok ?s" by (intro plain_field_ok demo_handles_ok)
  have n: "\<not> starts_with demo_lib (ITRANSPORT ''geteventfd'')" by code_simp
  have r: "remote_handle64_open demo_henv (Some demo_lib) ?s = Some ((0, Some 0x1000), snd (the demo_opened))"
    using demo_opened_result unfolding demo_opened_def by (metis option.collapse prod.collapse)
  have d: "get_domain_from_name (Some demo_lib) DOMAIN_NAME_IN_URI = 3" "\<And>r :: u32. 0x1000 = (ucast r :: u64) \<Longrightarrow> \<not> IS_STATICPD_HANDLE (ucast r)"
    by code_simp (simp add: IS_STATICPD_HANDLE_def)
  from open_registers_module [OF demo_henv_ok ok n r] d show ?thesis by (auto split: if_splits)
qed

end
