(* ===== verification/Cap.thy ===== *)
theory Cap
  imports Domain
begin

text \<open>
  The capabilities of the DSPs, \<^verbatim>\<open>src/fastrpc_cap.c\<close>: the search for a DSP among the remote processors of
  the system, the query of an attribute through the device of a session, and the answers that are kept for the
  life of the process. The query of the driver is the one of \<^verbatim>\<open>src/fastrpc_ioctl.c\<close>.
\<close>

abbreviation (input) PERF_V2_DRIVER_SUPPORT :: nat where "PERF_V2_DRIVER_SUPPORT \<equiv> 256"
abbreviation (input) FASTRPC_MAX_ATTRIBUTES :: nat where "FASTRPC_MAX_ATTRIBUTES \<equiv> 260"
abbreviation (input) STATUS_NOTIFICATION_SUPPORT :: nat where "STATUS_NOTIFICATION_SUPPORT \<equiv> 10"
abbreviation (input) STATUS_NOTIF_V2 :: u32 where "STATUS_NOTIF_V2 \<equiv> 3"

section \<open>Is a DSP present?\<close>

definition RPROC_SUBSYSTEM_NAME :: "int \<Rightarrow> string" where
  "RPROC_SUBSYSTEM_NAME d =
     (if d = 0 then ''adsp'' else if d = 1 then ''mss'' else if d = 2 then ''spss'' else if d = 3 then ''cdsp''
      else if d = 4 then ''cdsp1'' else if d = 5 then ''gdsp0'' else if d = 6 then ''gdsp1'' else ''reserved'')"

definition SUBSYSTEM_DEV_NAME :: "int \<Rightarrow> string" where
  "SUBSYSTEM_DEV_NAME d =
     (if d = 0 then ''/dev/subsys_adsp'' else if d = 1 then '''' else if d = 2 then ''/dev/subsys_slpi''
      else if d = 3 then ''/dev/subsys_cdsp'' else if d = 4 then ''/dev/subsys_cdsp1''
      else if d = 5 then ''/dev/subsys_gdsp0'' else if d = 6 then ''/dev/subsys_gdsp1'' else ''reserved'')"

text \<open>The name file of a remote processor that could be opened: its descriptor, and what reading comes to.\<close>

datatype rproc_name = NoStream | NoLine | Line string

text \<open>The environment: which files exist, the name files in the order of the directories up to the first that
  cannot be opened, whether the buffer for the names is allocated, and the answer of the driver: the error and the capability.\<close>

record cap_env =
  ce_stat :: "string \<Rightarrow> bool"
  ce_rproc :: "(int \<times> rproc_name) list"
  ce_malloc :: bool
  ce_dspinfo :: "int \<Rightarrow> int \<Rightarrow> nat \<Rightarrow> int \<times> u32"

definition fastrpc_check_if_dsp_present_pil :: "cap_env \<Rightarrow> int \<Rightarrow> u32" where
  "fastrpc_check_if_dsp_present_pil ce domain = (if ce_stat ce (SUBSYSTEM_DEV_NAME domain) then 1 else 0)"

text \<open>The rounds of the loop, with the descriptors in the order in which they are closed: \<^verbatim>\<open>fclose\<close> closes the
  descriptor of its stream. A line is at most 49 characters of the file.\<close>

fun rproc_loop :: "string \<Rightarrow> (int \<times> rproc_name) list \<Rightarrow> u32 \<times> int list" where
  "rproc_loop search [] = (0, [])"
| "rproc_loop search ((fd, r) # rs) =
     (case r of
        Line l \<Rightarrow>
          if strstr (take 49 l) search \<noteq> None then (1, [fd])
          else (case rproc_loop search rs of (k, fds) \<Rightarrow> (k, fd # fd # fds))
      | NoLine \<Rightarrow> (case rproc_loop search rs of (k, fds) \<Rightarrow> (k, fd # fd # fds))
      | NoStream \<Rightarrow> (case rproc_loop search rs of (k, fds) \<Rightarrow> (k, fd # fds)))"

definition fastrpc_check_if_dsp_present_rproc :: "cap_env \<Rightarrow> int \<Rightarrow> u32 \<times> int list" where
  "fastrpc_check_if_dsp_present_rproc ce domain =
     (if domain < ADSP_DOMAIN_ID \<or> domain > GDSP1_DOMAIN_ID then (0, [])
      else if \<not> ce_malloc ce then (0, [])
      else rproc_loop (RPROC_SUBSYSTEM_NAME domain) (ce_rproc ce))"

section \<open>Queries\<close>

definition ioctl_getdspinfo :: "cap_env \<Rightarrow> int \<Rightarrow> int \<Rightarrow> nat \<Rightarrow> int \<times> u32" where
  "ioctl_getdspinfo ce d domain attr =
     (if attr \<ge> PERF_V2_DRIVER_SUPPORT \<and> attr < FASTRPC_MAX_ATTRIBUTES then (0, 0) else ce_dspinfo ce d domain attr)"

text \<open>Closing a device: the descriptor that is closed joins the calls.\<close>

definition session_close :: "int \<Rightarrow> int \<Rightarrow> apps \<Rightarrow> apps" where
  "session_close domain d s =
     (case fastrpc_session_close domain d (sess (am s)) of (se, fd) \<Rightarrow>
        comps (case fd of Some fd \<Rightarrow> [CLOSE_DEVICE fd] | None \<Rightarrow> []) (upd_sess (\<lambda>_. se) s))"

text \<open>Returns the error, the capability and the state. The caller's variable is not written when an argument is refused;
  the callers start from 0.\<close>

definition fastrpc_get_cap :: "henv \<Rightarrow> cap_env \<Rightarrow> int \<Rightarrow> nat \<Rightarrow> apps \<Rightarrow> (int \<times> u32) \<times> apps" where
  "fastrpc_get_cap e ce domain attr s =
     (let dom = GET_DOMAIN_FROM_EFFEC_DOMAIN_ID domain
      in if \<not> IS_VALID_EFFECTIVE_DOMAIN_ID domain then ((AEE_EBADPARM, 0), s)
         else if \<not> attr < FASTRPC_MAX_ATTRIBUTES then ((AEE_EBADPARM, 0), s)
         else if attr = 0
         then let c = fastrpc_check_if_dsp_present_pil ce dom
              in ((0, if c = 0 then fst (fastrpc_check_if_dsp_present_rproc ce dom) else c), s)
         else case fastrpc_session_open dom (open_device_node (a_open e) dom) (sess (am s)) of (nErr, d) \<Rightarrow>
           if nErr \<noteq> 0 then ((nErr, 0), s)
           else let d = (case d of Some d \<Rightarrow> d | None \<Rightarrow> -1);
                    s = set_errno 0 s;
                    (nErr, c) = ioctl_getdspinfo ce d dom attr;
                    c = (if nErr = 0 \<and> attr = STATUS_NOTIFICATION_SUPPORT then (if c = STATUS_NOTIF_V2 then 1 else 0) else c)
                in ((nErr, c), if d \<noteq> -1 then session_close dom d s else s))"

definition get_dsp_dma_reverse_rpc_map_capability :: "henv \<Rightarrow> cap_env \<Rightarrow> int \<Rightarrow> apps \<Rightarrow> u32 \<times> apps" where
  "get_dsp_dma_reverse_rpc_map_capability e ce domain s =
     (case fastrpc_get_cap e ce domain 129 s of ((nErr, c), s) \<Rightarrow> (if nErr = 0 then c else 0, s))"

definition check_status_notif_version2_capability :: "henv \<Rightarrow> cap_env \<Rightarrow> int \<Rightarrow> apps \<Rightarrow> int \<times> apps" where
  "check_status_notif_version2_capability e ce domain s =
     (case fastrpc_get_cap e ce (GET_DOMAIN_FROM_EFFEC_DOMAIN_ID domain) STATUS_NOTIFICATION_SUPPORT s of
        ((nErr, c), s) \<Rightarrow> (if nErr = 0 then sint c else 0, s))"

definition check_userspace_allocation_capability :: "henv \<Rightarrow> cap_env \<Rightarrow> apps \<Rightarrow> int \<times> apps" where
  "check_userspace_allocation_capability e ce s =
     (case fastrpc_get_cap e ce DEFAULT_DOMAIN_ID 258 s of ((nErr, c), s) \<Rightarrow> (if nErr = 0 then sint c else 0, s))"

section \<open>Answers that are kept\<close>

text \<open>The static variables of the functions, \<open>- 1\<close> at first.\<close>

record caps =
  status_notif_version2_capability :: int
  userspace_allocation_capability :: int
  proc_sharedbuf_capability :: int
  driver_error_code_capability :: int

definition no_caps :: caps where
  "no_caps = \<lparr>status_notif_version2_capability = -1, userspace_allocation_capability = -1,
     proc_sharedbuf_capability = -1, driver_error_code_capability = -1\<rparr>"

definition is_status_notif_version2_supported :: "henv \<Rightarrow> cap_env \<Rightarrow> int \<Rightarrow> caps \<times> apps \<Rightarrow> int \<times> caps \<times> apps" where
  "is_status_notif_version2_supported e ce domain cs =
     (case cs of (c, s) \<Rightarrow>
        if status_notif_version2_capability c = -1
        then (case check_status_notif_version2_capability e ce domain s of (k, s) \<Rightarrow>
                (k, c\<lparr>status_notif_version2_capability := k\<rparr>, s))
        else (status_notif_version2_capability c, c, s))"

definition is_userspace_allocation_supported :: "henv \<Rightarrow> cap_env \<Rightarrow> caps \<times> apps \<Rightarrow> int \<times> caps \<times> apps" where
  "is_userspace_allocation_supported e ce cs =
     (case cs of (c, s) \<Rightarrow>
        if userspace_allocation_capability c = -1
        then (case check_userspace_allocation_capability e ce s of (k, s) \<Rightarrow>
                (k, c\<lparr>userspace_allocation_capability := k\<rparr>, s))
        else (userspace_allocation_capability c, c, s))"

definition is_proc_sharedbuf_supported_dsp :: "henv \<Rightarrow> cap_env \<Rightarrow> int \<Rightarrow> caps \<times> apps \<Rightarrow> int \<times> caps \<times> apps" where
  "is_proc_sharedbuf_supported_dsp e ce domain cs =
     (case cs of (c, s) \<Rightarrow>
        if proc_sharedbuf_capability c = -1
        then (case fastrpc_get_cap e ce domain 131 s of ((nErr, k), s) \<Rightarrow>
                let k = (if nErr = 0 then sint k else 0) in (k, c\<lparr>proc_sharedbuf_capability := k\<rparr>, s))
        else (proc_sharedbuf_capability c, c, s))"

text \<open>Here an error leaves the variable as it is: \<open>- 1\<close> is returned, which a caller takes for a capability.\<close>

definition check_error_code_change_present :: "henv \<Rightarrow> cap_env \<Rightarrow> caps \<times> apps \<Rightarrow> int \<times> caps \<times> apps" where
  "check_error_code_change_present e ce cs =
     (case cs of (c, s) \<Rightarrow>
        if driver_error_code_capability c = -1
        then (case fastrpc_get_cap e ce DEFAULT_DOMAIN_ID 257 s of ((nErr, k), s) \<Rightarrow>
                let c = (if nErr = 0 then c\<lparr>driver_error_code_capability := sint k\<rparr> else c)
                in (driver_error_code_capability c, c, s))
        else (driver_error_code_capability c, c, s))"

end
