(* ===== verification/Context.thy ===== *)
theory Context
  imports Cap
begin

text \<open>
  Contexts over several sessions, \<^verbatim>\<open>src/fastrpc_context.c\<close>: the list of domains of a request is checked, a
  device is found or opened for every session, the driver is asked for a context and the context joins a table.
  The driver of \<^verbatim>\<open>src/fastrpc_ioctl.c\<close> does not support the request (\<^verbatim>\<open>ioctl_mdctx_manage\<close>).
\<close>

abbreviation (input) AEE_EMEMPTR :: int where "AEE_EMEMPTR \<equiv> 29"
abbreviation (input) AEE_EINVALIDDEVICE :: int where "AEE_EINVALIDDEVICE \<equiv> 59"
abbreviation (input) AEE_EBADCONTEXT :: int where "AEE_EBADCONTEXT \<equiv> 84"

section \<open>State\<close>

text \<open>\<open>cx_devs\<close> holds 0 for a session that was not opened; the members for the domains without their session are
  a function of \<open>cx_ids\<close>. The hash table is the list of its entries.\<close>

record fastrpc_context =
  cx_ids :: "int list"
  cx_devs :: "int list"
  cx_ctxid :: u64

record fastrpc_context_table =
  ct_init :: bool
  ct_table :: "fastrpc_context list"

record fastrpc_context_create =
  cc_ids :: "u32 list option"
  cc_num :: u32
  cc_flags :: u64

definition cx_domains :: "fastrpc_context \<Rightarrow> int list" where
  "cx_domains ctx = map GET_DOMAIN_FROM_EFFEC_DOMAIN_ID (cx_ids ctx)"

definition fastrpc_context_add_to_table :: "fastrpc_context \<Rightarrow> fastrpc_context_table \<Rightarrow> fastrpc_context_table" where
  "fastrpc_context_add_to_table ctx t = t\<lparr>ct_table := ctx # ct_table t\<rparr>"

definition fastrpc_context_remove_from_table :: "fastrpc_context \<Rightarrow> fastrpc_context_table \<Rightarrow> fastrpc_context_table" where
  "fastrpc_context_remove_from_table ctx t = t\<lparr>ct_table := del_first (\<lambda>c. c = ctx) (ct_table t)\<rparr>"

definition fastrpc_context_validate :: "u64 \<Rightarrow> fastrpc_context_table \<Rightarrow> fastrpc_context option" where
  "fastrpc_context_validate ctxid t = find (\<lambda>c. cx_ctxid c = ctxid) (ct_table t)"

section \<open>The domains of a request\<close>

text \<open>Either several sessions of one domain, or several domains, each once.\<close>

definition fastrpc_context_init_domains :: "int list \<Rightarrow> int" where
  "fastrpc_context_init_domains ids =
     (if \<not> list_all IS_VALID_EFFECTIVE_DOMAIN_ID ids then AEE_EBADDOMAIN
      else let domain_ids = map GET_DOMAIN_FROM_EFFEC_DOMAIN_ID ids
           in if list_all (\<lambda>d. d = hd domain_ids) domain_ids then 0
              else if distinct domain_ids then 0
              else AEE_EBADPARM)"

section \<open>Setting up and taking down\<close>

text \<open>The sessions of a context are closed without naming a device: only the device of an open session is closed.\<close>

fun close_sessions :: "(int \<times> int) list \<Rightarrow> apps \<Rightarrow> apps" where
  "close_sessions [] s = s"
| "close_sessions ((domain, d) # ds) s = close_sessions ds (if d = 0 then s else session_close domain INVALID_DEVICE s)"

definition fastrpc_context_deinit :: "fastrpc_context \<Rightarrow> apps \<Rightarrow> apps" where
  "fastrpc_context_deinit ctx = close_sessions (zip (cx_ids ctx) (cx_devs ctx))"

definition fastrpc_context_init :: "henv \<Rightarrow> apps \<Rightarrow> int list \<Rightarrow> fastrpc_context option" where
  "fastrpc_context_init e s ids =
     (if a_alloc e s 7 \<and> a_alloc e s 8 \<and> a_alloc e s 9 \<and> a_alloc e s 10
      then Some \<lparr>cx_ids = ids, cx_devs = replicate (length ids) 0, cx_ctxid = 0\<rparr> else None)"

text \<open>The device of every session, until the first that cannot be opened; \<open>opens i\<close> answers the opening of device
  nodes for the \<open>i\<close>-th session.\<close>

fun open_sessions :: "(nat \<Rightarrow> string \<Rightarrow> int \<times> int) \<Rightarrow> session \<Rightarrow> nat \<Rightarrow> int list \<Rightarrow> int \<times> int list" where
  "open_sessions opens se i [] = (0, [])"
| "open_sessions opens se i (d # ds) =
     (case fastrpc_session_open d (open_device_node (opens i) d) se of
        (nErr, Some x) \<Rightarrow> (case open_sessions opens se (Suc i) ds of (nErr, xs) \<Rightarrow> (nErr, x # xs))
      | (nErr, None) \<Rightarrow> (nErr, replicate (Suc (length ds)) 0))"

text \<open>The error and the id of the context.\<close>

definition ioctl_mdctx_manage :: "int \<times> u64" where
  "ioctl_mdctx_manage = (AEE_EUNSUPPORTED, 0)"

text \<open>From the context with its domains on; an error takes the context down.\<close>

definition setup_context ::
  "(nat \<Rightarrow> string \<Rightarrow> int \<times> int) \<Rightarrow> fastrpc_context \<Rightarrow> fastrpc_context_table \<Rightarrow> apps \<Rightarrow>
     (int \<times> u64 option) \<times> fastrpc_context_table \<times> apps" where
  "setup_context opens ctx t s =
     (let bail = (\<lambda>nErr ctx. ((nErr, None), t, fastrpc_context_deinit ctx s))
      in case open_sessions opens (sess (am s)) 0 (cx_ids ctx) of (nErr, devs) \<Rightarrow>
           let ctx = ctx\<lparr>cx_devs := devs\<rparr>
           in if nErr \<noteq> 0 then bail nErr ctx
              else if get_device_fd (hd (cx_ids ctx)) (sess (am s)) = -1 then bail AEE_EINVALIDDEVICE ctx
              else case ioctl_mdctx_manage of (nErr, ctxid) \<Rightarrow>
                let ctx = ctx\<lparr>cx_ctxid := ctxid\<rparr>
                in if nErr \<noteq> 0 then bail nErr ctx
                   else ((0, Some ctxid), fastrpc_context_add_to_table ctx t, s))"

text \<open>\<open>None\<close>: the list of domains is shorter than its length says.\<close>

definition fastrpc_create_context ::
  "henv \<Rightarrow> (nat \<Rightarrow> string \<Rightarrow> int \<times> int) \<Rightarrow> fastrpc_context_create \<Rightarrow> fastrpc_context_table \<times> apps \<Rightarrow>
     ((int \<times> u64 option) \<times> fastrpc_context_table \<times> apps) option" where
  "fastrpc_create_context e opens create ts =
     (case ts of (t, s) \<Rightarrow>
        if \<not> ct_init t then Some ((AEE_ENOTINITIALIZED, None), t, s)
        else case cc_ids create of
          None \<Rightarrow> Some ((AEE_EBADPARM, None), t, s)
        | Some ids \<Rightarrow>
            if cc_flags create \<noteq> 0 then Some ((AEE_EBADPARM, None), t, s)
            else if \<not> (cc_num create \<noteq> 0 \<and> cc_num create < 32) then Some ((AEE_EBADPARM, None), t, s)
            else if length ids < unat (cc_num create) then None
            else let ids = map uint (take (unat (cc_num create)) ids)
                 in case fastrpc_context_init e s ids of
                   None \<Rightarrow> Some ((AEE_EBADCONTEXT, None), t, s)
                 | Some ctx \<Rightarrow>
                     if fastrpc_context_init_domains ids \<noteq> 0
                     then Some ((AEE_EBADPARM, None), t, fastrpc_context_deinit ctx s)
                     else Some (setup_context opens ctx t s))"

section \<open>The other operations\<close>

definition fastrpc_destroy_context :: "u64 \<Rightarrow> fastrpc_context_table \<times> apps \<Rightarrow> int \<times> fastrpc_context_table \<times> apps" where
  "fastrpc_destroy_context ctxid ts =
     (case ts of (t, s) \<Rightarrow>
        if \<not> ct_init t then (AEE_ENOTINITIALIZED, t, s)
        else case fastrpc_context_validate ctxid t of
          None \<Rightarrow> (AEE_EBADCONTEXT, t, s)
        | Some ctx \<Rightarrow>
            let t = fastrpc_context_remove_from_table ctx t
            in if get_device_fd (hd (cx_ids ctx)) (sess (am s)) = -1 then (AEE_EINVALIDDEVICE, t, s)
               else case ioctl_mdctx_manage of (nErr, x) \<Rightarrow>
                 if nErr \<noteq> 0 then (nErr, t, s) else (0, t, fastrpc_context_deinit ctx s))"

text \<open>\<open>out\<close> tells whether the two results are asked for.\<close>

definition fastrpc_context_get_domains :: "u64 \<Rightarrow> bool \<Rightarrow> fastrpc_context_table \<Rightarrow> int \<times> int list option" where
  "fastrpc_context_get_domains ctxid out t =
     (case fastrpc_context_validate ctxid t of
        None \<Rightarrow> (AEE_EBADCONTEXT, None)
      | Some ctx \<Rightarrow> if \<not> out then (AEE_EMEMPTR, None) else (0, Some (cx_ids ctx)))"

definition fastrpc_context_table_init :: "fastrpc_context_table \<Rightarrow> int \<times> fastrpc_context_table" where
  "fastrpc_context_table_init t = (0, t\<lparr>ct_init := True\<rparr>)"

text \<open>All contexts are taken down through a copy of the pointer to the table, which itself is not reset: it keeps
  pointing to the freed entries.\<close>

definition fastrpc_context_table_deinit :: "fastrpc_context_table \<times> apps \<Rightarrow> int \<times> fastrpc_context_table \<times> apps" where
  "fastrpc_context_table_deinit ts =
     (case ts of (t, s) \<Rightarrow>
        if \<not> ct_init t then (AEE_ENOTINITIALIZED, t, s)
        else (0, t\<lparr>ct_init := False\<rparr>, fold fastrpc_context_deinit (ct_table t) s))"

end
