(* ===== verification/Control.thy ===== *)
theory Control
  imports OpenClose Context
begin

text \<open>
  The control requests of \<^verbatim>\<open>src/fastrpc_apps_user.c\<close>: parameters of the processes on the DSPs, reservation and closing of
  sessions, queries, contexts and notifications through \<^verbatim>\<open>remote_session_control\<close>; quality of service,
  capabilities and the wake lock through \<^verbatim>\<open>remote_handle_control\<close> and \<^verbatim>\<open>remote_handle64_control\<close>. The list of
  the notifications is the one of \<^verbatim>\<open>src/fastrpc_notif.c\<close>.

  A request comes with a pointer to a structure and its length: \<open>None\<close> stands for a null pointer and for a wrong length,
  which are refused with the same error.
\<close>

abbreviation (input) AEE_EALREADYLOADED :: int where "AEE_EALREADYLOADED \<equiv> 5"
abbreviation (input) DEFAULT_UTHREAD_PRIORITY :: int where "DEFAULT_UTHREAD_PRIORITY \<equiv> 192"
abbreviation (input) MIN_THREAD_PRIORITY :: int where "MIN_THREAD_PRIORITY \<equiv> 1"
abbreviation (input) MAX_THREAD_PRIORITY :: int where "MAX_THREAD_PRIORITY \<equiv> 255"
abbreviation (input) MIN_UTHREAD_STACK_SIZE :: int where "MIN_UTHREAD_STACK_SIZE \<equiv> 16384"
abbreviation (input) MAX_UTHREAD_STACK_SIZE :: int where "MAX_UTHREAD_STACK_SIZE \<equiv> 8388608"
abbreviation (input) MIN_PD_INITMEM_SIZE :: u32 where "MIN_PD_INITMEM_SIZE \<equiv> 3145728"
abbreviation (input) MAX_PD_INITMEM_SIZE :: u32 where "MAX_PD_INITMEM_SIZE \<equiv> 209715200"

section \<open>Parameters of a process\<close>

text \<open>The parameters are sent to the process; a stub with a handle that fails is given up.\<close>

definition set_param :: "henv \<Rightarrow> nat \<Rightarrow> int \<Rightarrow> apps \<Rightarrow> (int \<times> apps) option" where
  "set_param e n domain s =
     (case get_remotectl1_handle e domain s of (handle, s) \<Rightarrow>
        if handle \<noteq> INVALID_HANDLE
        then do {
          (nErr, s) \<leftarrow> remotectl1_set_param e handle n s;
          if nErr \<noteq> 0 then remotectl_set_param e n (drop_remotectl1 e domain s) else Some (0, s) }
        else remotectl_set_param e n s)"

definition fastrpc_set_remote_uthread_params :: "henv \<Rightarrow> int \<Rightarrow> apps \<Rightarrow> (int \<times> apps) option" where
  "fastrpc_set_remote_uthread_params e domain s = set_param e 2 domain s"

definition upd_th :: "int \<Rightarrow> (fastrpc_thread_params \<Rightarrow> fastrpc_thread_params) \<Rightarrow> apps \<Rightarrow> apps" where
  "upd_th domain f = upd_dom domain (\<lambda>D. D\<lparr>th_params := f (th_params D)\<rparr>)"

text \<open>The priority is stored before the size of the stack is checked.\<close>

definition store_domain_thread_params :: "henv \<Rightarrow> int \<Rightarrow> int \<Rightarrow> int \<Rightarrow> apps \<Rightarrow> (int \<times> apps) option" where
  "store_domain_thread_params e domain prio stack s =
     (if hlist (sess (am s)) = None \<or> \<not> IS_VALID_EFFECTIVE_DOMAIN_ID domain then Some (AEE_EBADPARM, s)
      else if prio \<noteq> -1 \<and> (prio < MIN_THREAD_PRIORITY \<or> prio > MAX_THREAD_PRIORITY) then Some (AEE_EBADPARM, s)
      else let s = (if prio \<noteq> -1 then upd_th domain (\<lambda>p. p\<lparr>thread_priority := of_int prio\<rparr>) s else s)
           in if stack \<noteq> -1 \<and> (stack < MIN_UTHREAD_STACK_SIZE \<or> stack > MAX_UTHREAD_STACK_SIZE) then Some (AEE_EBADPARM, s)
              else let s = (if stack \<noteq> -1 then upd_th domain (\<lambda>p. p\<lparr>stack_size := of_int stack\<rparr>) s else s);
                       s = upd_th domain (\<lambda>p. p\<lparr>reqID := 1, update_requested := True\<rparr>) s
                   in if session_dev domain s \<noteq> -1 then fastrpc_set_remote_uthread_params e domain s else Some (0, s))"

definition set_unsigned_pd_attribute :: "int \<Rightarrow> int \<Rightarrow> apps \<Rightarrow> int \<times> apps" where
  "set_unsigned_pd_attribute domain enable s =
     (if hlist (sess (am s)) = None \<or> \<not> IS_VALID_EFFECTIVE_DOMAIN_ID domain then (AEE_EBADPARM, s)
      else if session_dev domain s \<noteq> -1
      then (if unsigned_module (doms s domain) = enable then 0 else AEE_EALREADYLOADED, s)
      else (0, upd_dom domain (\<lambda>D. D\<lparr>unsigned_module := if enable \<noteq> 0 then 1 else 0\<rparr>) s))"

definition set_pd_dump_attribute :: "int \<Rightarrow> int \<Rightarrow> apps \<Rightarrow> int \<times> apps" where
  "set_pd_dump_attribute domain enable s =
     (if hlist (sess (am s)) = None then (AEE_ERPC, s)
      else if \<not> IS_VALID_EFFECTIVE_DOMAIN_ID domain then (AEE_EBADPARM, s)
      else if session_dev domain s \<noteq> -1 then (AEE_ERPC, s)
      else (0, upd_dom domain (\<lambda>D. D\<lparr>pd_dump := enable \<noteq> 0\<rparr>) s))"

definition store_domain_pd_initmem_size :: "int \<Rightarrow> u32 \<Rightarrow> apps \<Rightarrow> int \<times> apps" where
  "store_domain_pd_initmem_size domain sz s =
     (if sz < MIN_PD_INITMEM_SIZE \<or> sz > MAX_PD_INITMEM_SIZE then (AEE_EBADPARM, s)
      else (0, upd_dom domain (\<lambda>D. D\<lparr>pd_initmem_size := sz\<rparr>) s))"

text \<open>The size is not set for a process without signature: an error for one domain, ignored when all domains are asked for.\<close>

definition pd_initmem_request :: "bool \<Rightarrow> u32 \<Rightarrow> int \<Rightarrow> apps \<Rightarrow> int \<times> apps" where
  "pd_initmem_request all sz domain s =
     (if unsigned_module (doms s domain) \<noteq> 0 then (if all then 0 else AEE_EUNSUPPORTED, s)
      else store_domain_pd_initmem_size domain sz s)"

text \<open>The priority that a relative priority stands for; \<^verbatim>\<open>~r\<close> is \<open>- r - 1\<close>.\<close>

definition relative_priority :: "int \<Rightarrow> int" where
  "relative_priority r =
     (if r < 0 then if - r - 1 \<ge> DEFAULT_UTHREAD_PRIORITY - 1 then MIN_THREAD_PRIORITY else DEFAULT_UTHREAD_PRIORITY + r
      else if r > MAX_THREAD_PRIORITY - DEFAULT_UTHREAD_PRIORITY then MAX_THREAD_PRIORITY else DEFAULT_UTHREAD_PRIORITY + r)"

text \<open>A request for one domain, or with \<open>- 1\<close> for all of them until the first error.\<close>

fun for_domains :: "(int \<Rightarrow> apps \<Rightarrow> (int \<times> apps) option) \<Rightarrow> int list \<Rightarrow> apps \<Rightarrow> (int \<times> apps) option" where
  "for_domains f [] s = Some (0, s)"
| "for_domains f (d # ds) s = do { (nErr, s) \<leftarrow> f d s; if nErr \<noteq> 0 then Some (nErr, s) else for_domains f ds s }"

definition on_domains :: "(int \<Rightarrow> apps \<Rightarrow> (int \<times> apps) option) \<Rightarrow> int \<Rightarrow> apps \<Rightarrow> (int \<times> apps) option" where
  "on_domains f domain s =
     (if domain \<noteq> -1 then if \<not> IS_VALID_EFFECTIVE_DOMAIN_ID domain then Some (AEE_EBADPARM, s) else f domain s
      else for_domains f all_domains s)"

section \<open>Sessions\<close>

text \<open>The domain is not checked: \<open>None\<close> is an access outside of the table.\<close>

definition fastrpc_dsp_process_clean :: "int \<Rightarrow> apps \<Rightarrow> int option" where
  "fastrpc_dsp_process_clean domain s =
     (if hlist (sess (am s)) = None then Some AEE_ERPC
      else if \<not> IS_VALID_EFFECTIVE_DOMAIN_ID domain then None
      else Some (if session_dev domain s = -1 then AEE_ERPC else ioctl_control))"

text \<open>The first session of the list that is free is taken, with the name that \<^verbatim>\<open>strlcpy\<close> leaves of the name of the session.\<close>

fun reserve_first :: "string \<Rightarrow> int list \<Rightarrow> apps \<Rightarrow> int option \<times> apps" where
  "reserve_first name [] s = (None, s)"
| "reserve_first name (ii # iis) s =
     (if \<not> is_session_reserved (doms s ii)
      then (Some ii, upd_dom ii (\<lambda>D. D\<lparr>is_session_reserved := True, sessionname := name\<rparr>) s)
      else reserve_first name iis s)"

definition stored_name :: "string \<Rightarrow> u32 \<Rightarrow> string" where
  "stored_name name len = take (min (unat len) 29 - 1) name"

definition reserve_session :: "int \<Rightarrow> string \<Rightarrow> u32 \<Rightarrow> apps \<Rightarrow> int option \<times> apps" where
  "reserve_session domain name len =
     reserve_first (stored_name name len) [domain + NUM_DOMAINS, domain + 2 * NUM_DOMAINS, domain + 3 * NUM_DOMAINS]"

text \<open>The mode is sent with the next invocation on each domain.\<close>

definition remote_set_mode :: "u32 \<Rightarrow> apps \<Rightarrow> (int \<times> apps) option" where
  "remote_set_mode m s =
     (if hlist (sess (am s)) = None then None
      else Some (AEE_SUCCESS, fold (\<lambda>i. upd_dom i (\<lambda>D. D\<lparr>mode := m, setmode := True\<rparr>)) all_domains s))"

section \<open>Notifications\<close>

record remote_rpc_notif_register =
  nf_domain :: int
  nf_context :: u64

definition fastrpc_notif_register ::
  "henv \<Rightarrow> apps \<Rightarrow> int \<Rightarrow> remote_rpc_notif_register \<Rightarrow> remote_rpc_notif_register list \<Rightarrow> int \<times> remote_rpc_notif_register list" where
  "fastrpc_notif_register e s domain n ns =
     (if \<not> IS_VALID_EFFECTIVE_DOMAIN_ID domain then (AEE_EBADPARM, ns)
      else if \<not> a_alloc e s 11 then (AEE_ENOMEMORY, ns)
      else (0, ns @ [n]))"

text \<open>The calls of the clients: context, domain, session and status.\<close>

definition fastrpc_notify_status :: "int \<Rightarrow> int \<Rightarrow> int \<Rightarrow> remote_rpc_notif_register list \<Rightarrow> (u64 \<times> int \<times> int \<times> int) list" where
  "fastrpc_notify_status domain session status ns =
     map (\<lambda>n. (nf_context n, domain, session, status)) (filter (\<lambda>n. nf_domain n = domain) ns)"

text \<open>The driver does not support the request.\<close>

definition ioctl_invoke2_notif :: int where
  "ioctl_invoke2_notif = AEE_EUNSUPPORTED"

definition get_remote_notif_response ::
  "int \<Rightarrow> apps \<Rightarrow> remote_rpc_notif_register list \<Rightarrow> int \<times> (u64 \<times> int \<times> int \<times> int) list" where
  "get_remote_notif_response domain s ns =
     (case fastrpc_session_dev domain (sess (am s)) of (nErr, d) \<Rightarrow>
        if nErr \<noteq> 0 then (nErr, [])
        else if ioctl_invoke2_notif \<noteq> 0 then (convert_kernel_to_user_error ioctl_invoke2_notif (errno (am s)), [])
        else (0, fastrpc_notify_status (-1) (-1) (-1) ns))"

definition fastrpc_exit_notif_thread :: "int \<Rightarrow> apps \<Rightarrow> int" where
  "fastrpc_exit_notif_thread domain s =
     (case fastrpc_session_dev domain (sess (am s)) of (nErr, d) \<Rightarrow> if nErr \<noteq> 0 then nErr else ioctl_control)"

section \<open>Requests of sessions\<close>

text \<open>The state that the requests work on: the sessions, the capabilities, the contexts and the notifications.\<close>

record ctl =
  ct_apps :: apps
  ct_caps :: caps
  ct_ctx :: fastrpc_context_table
  ct_notifs :: "remote_rpc_notif_register list"

record remote_rpc_reserve_new_session =
  rs_domain_name :: "string option"
  rs_domain_name_len :: u32
  rs_session_name :: "string option"
  rs_session_name_len :: u32

record remote_rpc_get_uri =
  gu_domain_name :: "string option"
  gu_domain_name_len :: u32
  gu_session_id :: u32
  gu_module_uri :: "string option"
  gu_module_uri_len :: u32
  gu_uri :: bool
  gu_uri_len :: u32

datatype session_req =
    FASTRPC_THREAD_PARAMS "(int \<times> int \<times> int) option"          \<comment> \<open>domain, priority, size of the stack\<close>
  | DSPRPC_CONTROL_UNSIGNED_MODULE "(int \<times> int) option"        \<comment> \<open>domain, enable\<close>
  | FASTRPC_RELATIVE_THREAD_PRIORITY "(int \<times> int) option"
  | FASTRPC_REMOTE_PROCESS_KILL "int option"
  | FASTRPC_SESSION_CLOSE "int option"
  | FASTRPC_CONTROL_PD_DUMP "(int \<times> int) option"
  | FASTRPC_REMOTE_PROCESS_EXCEPTION "int option"
  | FASTRPC_REMOTE_PROCESS_TYPE "int option"
  | FASTRPC_REGISTER_STATUS_NOTIFICATIONS "remote_rpc_notif_register option"
  | FASTRPC_PD_INITMEM_SIZE "(int \<times> u32) option"
  | FASTRPC_RESERVE_NEW_SESSION "remote_rpc_reserve_new_session option"
  | FASTRPC_GET_EFFECTIVE_DOMAIN_ID "(string option \<times> u32 \<times> u32) option"
  | FASTRPC_GET_URI "remote_rpc_get_uri option"
  | FASTRPC_CONTEXT_CREATE "fastrpc_context_create option"
  | FASTRPC_CONTEXT_DESTROY "(u64 \<times> u64) option"               \<comment> \<open>context, flags\<close>
  | UNKNOWN_REQUEST

text \<open>What is stored in the structure of the caller.\<close>

datatype session_out =
    NoOut | ProcessType int | Reserved "int \<times> int" | EffectiveDomain "int option" | UriText "string option" | ContextId "u64 option"

definition lift_apps :: "ctl \<Rightarrow> (int \<times> apps) option \<Rightarrow> ((int \<times> session_out) \<times> ctl) option" where
  "lift_apps c r = map_option (\<lambda>(nErr, s). ((nErr, NoOut), c\<lparr>ct_apps := s\<rparr>)) r"

definition process_exception :: "henv \<Rightarrow> int \<Rightarrow> apps \<Rightarrow> (int \<times> apps) option" where
  "process_exception e domain s =
     (if \<not> IS_VALID_EFFECTIVE_DOMAIN_ID domain then Some (AEE_EBADPARM, s)
      else case get_adsp_current_process1_handle e domain s of (handle, s) \<Rightarrow>
        do {
          (ret, s) \<leftarrow> current_process_call e 7 [] handle s;
          let ret = (if ret = AEE_SUCCESS then AEE_ERPC else ret);
          Some (if ret = DSP_AEE_EOFFSET + AEE_EBADSTATE then 0 else ret, s) })"

definition process_type :: "int \<Rightarrow> apps \<Rightarrow> int \<times> session_out" where
  "process_type domain s =
     (if \<not> IS_VALID_EFFECTIVE_DOMAIN_ID domain then (AEE_EBADPARM, NoOut)
      else let u = unsigned_module (doms s domain)
           in if u \<noteq> 0 \<and> u \<noteq> 1 then (AEE_EBADPARM, ProcessType (-1)) else (0, ProcessType u))"

definition register_status_notif :: "henv \<Rightarrow> cap_env \<Rightarrow> remote_rpc_notif_register \<Rightarrow> ctl \<Rightarrow> int \<times> ctl" where
  "register_status_notif e ce n c =
     (if \<not> IS_VALID_EFFECTIVE_DOMAIN_ID (nf_domain n) then (AEE_EBADPARM, c)
      else case is_status_notif_version2_supported e ce (nf_domain n) (ct_caps c, ct_apps c) of (k, cs, s) \<Rightarrow>
        let c = c\<lparr>ct_caps := cs, ct_apps := s\<rparr>
        in if k = 0 then (AEE_EUNSUPPORTED, c)
           else case fastrpc_notif_register e s (nf_domain n) n (ct_notifs c) of (nErr, ns) \<Rightarrow> (nErr, c\<lparr>ct_notifs := ns\<rparr>))"

text \<open>The domain that a request for a new session names; \<open>None\<close> when the structure is refused before.\<close>

definition reserve_domain :: "remote_rpc_reserve_new_session \<Rightarrow> int option" where
  "reserve_domain r =
     (if rs_domain_name r \<noteq> None \<and> rs_domain_name_len r > 0 \<and> rs_session_name r \<noteq> None \<and> rs_session_name_len r > 0
      then Some (get_domain_from_name (rs_domain_name r) DOMAIN_NAME_STAND_ALONE) else None)"

definition reserve_new_session :: "remote_rpc_reserve_new_session \<Rightarrow> apps \<Rightarrow> (int \<times> session_out) \<times> apps" where
  "reserve_new_session r s =
     (case reserve_domain r of
        None \<Rightarrow> ((AEE_EBADPARM, NoOut), s)
      | Some domain \<Rightarrow>
          if \<not> IS_VALID_DOMAIN_ID domain then ((AEE_EBADPARM, NoOut), s)
          else case reserve_session domain (case rs_session_name r of Some n \<Rightarrow> n | None \<Rightarrow> []) (rs_session_name_len r) s of
            (None, s) \<Rightarrow> ((AEE_ENOSESSION, Reserved (NUM_DOMAINS_EXTEND, NUM_SESSIONS)), s)
          | (Some ii, s) \<Rightarrow> ((0, Reserved (ii, (ii - domain) div NUM_DOMAINS)), s))"

text \<open>The domain of a query for an effective domain or a URI.\<close>

definition query_domain :: "string option \<Rightarrow> u32 \<Rightarrow> u32 \<Rightarrow> int option" where
  "query_domain name len session_id =
     (if name \<noteq> None \<and> len > 0 \<and> session_id < 4 then Some (get_domain_from_name name DOMAIN_NAME_STAND_ALONE) else None)"

text \<open>The variable \<^verbatim>\<open>domain\<close> when the request is done: it decides which session gives back a reference.\<close>

definition final_domain :: "session_req \<Rightarrow> int" where
  "final_domain req =
     (case req of
        FASTRPC_REMOTE_PROCESS_KILL (Some d) \<Rightarrow> d
      | FASTRPC_REMOTE_PROCESS_EXCEPTION (Some d) \<Rightarrow> d
      | FASTRPC_REMOTE_PROCESS_TYPE (Some d) \<Rightarrow> d
      | FASTRPC_REGISTER_STATUS_NOTIFICATIONS (Some n) \<Rightarrow> nf_domain n
      | FASTRPC_RESERVE_NEW_SESSION (Some r) \<Rightarrow> (case reserve_domain r of Some d \<Rightarrow> d | None \<Rightarrow> DEFAULT_DOMAIN_ID)
      | FASTRPC_GET_EFFECTIVE_DOMAIN_ID (Some (name, len, sid)) \<Rightarrow>
          (case query_domain name len sid of Some d \<Rightarrow> d | None \<Rightarrow> DEFAULT_DOMAIN_ID)
      | FASTRPC_GET_URI (Some u) \<Rightarrow>
          (case query_domain (gu_domain_name u) (gu_domain_name_len u) (gu_session_id u) of Some d \<Rightarrow> d | None \<Rightarrow> DEFAULT_DOMAIN_ID)
      | _ \<Rightarrow> DEFAULT_DOMAIN_ID)"

text \<open>The \<^verbatim>\<open>switch\<close> over the requests.\<close>

definition session_request ::
  "henv \<Rightarrow> cap_env \<Rightarrow> (nat \<Rightarrow> string \<Rightarrow> int \<times> int) \<Rightarrow> session_req \<Rightarrow> ctl \<Rightarrow> ((int \<times> session_out) \<times> ctl) option" where
  "session_request e ce opens req c =
     (let s = ct_apps c; bad = Some ((AEE_EBADPARM, NoOut), c)
      in case req of
        FASTRPC_THREAD_PARAMS (Some (domain, prio, stack)) \<Rightarrow>
          lift_apps c (on_domains (\<lambda>d. store_domain_thread_params e d prio stack) domain s)
      | DSPRPC_CONTROL_UNSIGNED_MODULE (Some (domain, enable)) \<Rightarrow>
          lift_apps c (on_domains (\<lambda>d s. Some (set_unsigned_pd_attribute d enable s)) domain s)
      | FASTRPC_RELATIVE_THREAD_PRIORITY (Some (domain, r)) \<Rightarrow>
          lift_apps c (on_domains (\<lambda>d. store_domain_thread_params e d (relative_priority r) (-1)) domain s)
      | FASTRPC_REMOTE_PROCESS_KILL (Some domain) \<Rightarrow>
          map_option (\<lambda>nErr. ((nErr, NoOut), c)) (fastrpc_dsp_process_clean domain s)
      | FASTRPC_SESSION_CLOSE (Some domain) \<Rightarrow> lift_apps c (on_domains (close_domain_session e) domain s)
      | FASTRPC_CONTROL_PD_DUMP (Some (domain, enable)) \<Rightarrow>
          lift_apps c (on_domains (\<lambda>d s. Some (set_pd_dump_attribute d enable s)) domain s)
      | FASTRPC_REMOTE_PROCESS_EXCEPTION (Some domain) \<Rightarrow> lift_apps c (process_exception e domain s)
      | FASTRPC_REMOTE_PROCESS_TYPE (Some domain) \<Rightarrow> Some (process_type domain s, c)
      | FASTRPC_REGISTER_STATUS_NOTIFICATIONS (Some n) \<Rightarrow>
          (case register_status_notif e ce n c of (nErr, c) \<Rightarrow> Some ((nErr, NoOut), c))
      | FASTRPC_PD_INITMEM_SIZE (Some (domain, sz)) \<Rightarrow>
          lift_apps c (on_domains (\<lambda>d s. Some (pd_initmem_request (domain = -1) sz d s)) domain s)
      | FASTRPC_RESERVE_NEW_SESSION (Some r) \<Rightarrow>
          (case reserve_new_session r s of (out, s) \<Rightarrow> Some (out, c\<lparr>ct_apps := s\<rparr>))
      | FASTRPC_GET_EFFECTIVE_DOMAIN_ID (Some (name, len, sid)) \<Rightarrow>
          (case get_effective_domain_id name len sid of (nErr, d) \<Rightarrow> Some ((nErr, EffectiveDomain d), c))
      | FASTRPC_GET_URI (Some u) \<Rightarrow>
          (case get_uri (gu_domain_name u) (gu_domain_name_len u) (gu_session_id u) (gu_module_uri u) (gu_module_uri_len u)
                  (gu_uri u) (gu_uri_len u) of (nErr, x) \<Rightarrow> Some ((nErr, UriText x), c))
      | FASTRPC_CONTEXT_CREATE (Some create) \<Rightarrow>
          map_option (\<lambda>((nErr, ctx), t, s). ((nErr, ContextId ctx), c\<lparr>ct_ctx := t, ct_apps := s\<rparr>))
            (fastrpc_create_context e opens create (ct_ctx c, s))
      | FASTRPC_CONTEXT_DESTROY (Some (ctx, flags)) \<Rightarrow>
          if flags \<noteq> 0 then bad
          else (case fastrpc_destroy_context ctx (ct_ctx c, s) of (nErr, t, s) \<Rightarrow>
                  Some ((nErr, NoOut), c\<lparr>ct_ctx := t, ct_apps := s\<rparr>))
      | UNKNOWN_REQUEST \<Rightarrow> Some ((AEE_EUNSUPPORTED, NoOut), c)
      | _ \<Rightarrow> bad)"

text \<open>A reference is taken on the default domain, and given back on the domain that the request ends with.\<close>

definition remote_session_control ::
  "henv \<Rightarrow> cap_env \<Rightarrow> (nat \<Rightarrow> string \<Rightarrow> int \<times> int) \<Rightarrow> session_req \<Rightarrow> ctl \<Rightarrow> ((int \<times> session_out) \<times> ctl) option" where
  "remote_session_control e ce opens req c =
     (if fastrpc_init_once (am (ct_apps c)) \<noteq> 0 then Some ((fastrpc_init_once (am (ct_apps c)), NoOut), c)
      else case get_ref DEFAULT_DOMAIN_ID (ct_apps c) of (nErr, s) \<Rightarrow>
        if nErr \<noteq> 0 then Some ((nErr, NoOut), c\<lparr>ct_apps := s\<rparr>)
        else do {
          (out, c) \<leftarrow> session_request e ce opens req (c\<lparr>ct_apps := s\<rparr>);
          if \<not> IS_VALID_EFFECTIVE_DOMAIN_ID (final_domain req) then None
          else Some (out, c\<lparr>ct_apps := put_ref (final_domain req) (ct_apps c)\<rparr>) })"

section \<open>Quality of service and the requests of handles\<close>

definition manage_adaptive_qos :: "henv \<Rightarrow> int \<Rightarrow> u32 \<Rightarrow> apps \<Rightarrow> (int \<times> apps) option" where
  "manage_adaptive_qos e domain enable s =
     (let set_qos = upd_dom domain (\<lambda>D. D\<lparr>adaptive_qos := enable = 2\<rparr>)
      in if adaptive_qos (doms s domain) = (enable \<noteq> 0) then Some (0, s)
         else if session_dev domain s \<noteq> -1
         then do { (nErr, s) \<leftarrow> set_param e 1 domain s; Some (nErr, if nErr \<noteq> 0 then s else set_qos s) }
         else Some (0, set_qos s))"

definition manage_poll_qos :: "henv \<Rightarrow> int \<Rightarrow> u64 \<Rightarrow> u32 \<Rightarrow> u32 \<Rightarrow> apps \<Rightarrow> (int \<times> apps) option" where
  "manage_poll_qos e domain h enable latency s =
     do {
       (nErr, s) \<leftarrow> (if h = INVALID_HANDLE \<and> session_dev domain s = -1
                     then do { ((nErr, d), s) \<leftarrow> domain_init e domain s; Some (if nErr = 0 \<and> d = -1 then AEE_ERPC else nErr, s) }
                     else Some (0, s));
       if nErr \<noteq> 0 then Some (nErr, s)
       else if session_dev domain s = -1 then Some (AEE_ERPC, s)
       else if \<not> latency < 10000 then Some (AEE_EBADPARM, s)
       else if ioctl_control \<noteq> 0 then Some (convert_kernel_to_user_error ioctl_control (errno (am s)), s)
       else if h = INVALID_HANDLE then Some (comp e (CURRENT_PROCESS 9) s)
       else case get_adsp_current_process1_handle e domain s of (handle, s) \<Rightarrow>
              do { ((nErr, out), s) \<leftarrow> stub_call64 e handle 9 [8] [] s; Some (nErr, s) } }"

text \<open>The result is not looked at by the callers.\<close>

definition fastrpc_set_qos_latency :: "henv \<Rightarrow> int \<Rightarrow> u64 \<Rightarrow> apps \<Rightarrow> (int \<times> apps) option" where
  "fastrpc_set_qos_latency e domain h s =
     (if h = INVALID_HANDLE then Some (comp e (CURRENT_PROCESS 6) s)
      else case get_adsp_current_process1_handle e domain s of (handle, s) \<Rightarrow>
        do { ((nErr, out), s) \<leftarrow> stub_call64 e handle 6 [4] [] s; Some (nErr, s) })"

datatype control_req =
    DSPRPC_CONTROL_LATENCY "(u32 \<times> u32) option"     \<comment> \<open>enable, latency\<close>
  | DSPRPC_GET_DSP_INFO "(int \<times> nat) option"         \<comment> \<open>domain, attribute\<close>
  | DSPRPC_CONTROL_WAKELOCK "u32 option"
  | DSPRPC_GET_DOMAIN "unit option"
  | UNKNOWN_CONTROL

datatype control_out = NoResult | Capability u32 | DomainId int

definition control_latency :: "henv \<Rightarrow> int \<Rightarrow> u64 \<Rightarrow> u32 \<Rightarrow> u32 \<Rightarrow> apps \<Rightarrow> (int \<times> apps) option" where
  "control_latency e domain h enable latency s =
     (if enable = 0
      then do {
        (nErr, s) \<leftarrow> manage_adaptive_qos e domain 0 s;
        if nErr \<noteq> 0 then Some (nErr, s)
        else do {
          (nErr, s) \<leftarrow> manage_poll_qos e domain h 0 latency s;
          if nErr \<noteq> 0 then Some (nErr, s)
          else do { (k, s) \<leftarrow> fastrpc_set_qos_latency e domain h s; Some (0, s) } } }
      else if enable = 1 then Some (0, s)
      else if enable = 2
      then do {
        (nErr, s) \<leftarrow> manage_adaptive_qos e domain 2 s;
        if nErr \<noteq> 0 then Some (nErr, s)
        else do { (k, s) \<leftarrow> fastrpc_set_qos_latency e domain h s; Some (0, s) } }
      else if enable = 3 then manage_poll_qos e domain h 3 latency s
      else Some (AEE_EBADPARM, s))"

definition remote_handle_control_domain ::
  "henv \<Rightarrow> cap_env \<Rightarrow> wake_env \<Rightarrow> int \<Rightarrow> u64 \<Rightarrow> control_req \<Rightarrow> apps \<Rightarrow> ((int \<times> control_out) \<times> apps) option" where
  "remote_handle_control_domain e ce we domain h req s =
     (case req of
        DSPRPC_CONTROL_LATENCY (Some (enable, latency)) \<Rightarrow>
          map_option (\<lambda>(nErr, s). ((nErr, NoResult), s)) (control_latency e domain h enable latency s)
      | DSPRPC_GET_DSP_INFO (Some (d, attr)) \<Rightarrow>
          if \<not> IS_VALID_EFFECTIVE_DOMAIN_ID d then Some ((AEE_EBADPARM, NoResult), s)
          else (case fastrpc_get_cap e ce d attr s of ((nErr, c), s) \<Rightarrow> Some ((nErr, Capability c), s))
      | DSPRPC_CONTROL_WAKELOCK (Some enable) \<Rightarrow>
          (case wakelock_control e we domain enable s of (nErr, s) \<Rightarrow> Some ((nErr, NoResult), s))
      | DSPRPC_GET_DOMAIN (Some _) \<Rightarrow> Some ((0, DomainId domain), s)
      | UNKNOWN_CONTROL \<Rightarrow> Some ((AEE_EUNSUPPORTED, NoResult), s)
      | _ \<Rightarrow> Some ((AEE_EBADPARM, NoResult), s))"

definition with_ref :: "int \<Rightarrow> (apps \<Rightarrow> ((int \<times> control_out) \<times> apps) option) \<Rightarrow> apps \<Rightarrow> ((int \<times> control_out) \<times> apps) option" where
  "with_ref domain f s =
     (case get_ref domain s of (nErr, s) \<Rightarrow>
        if nErr \<noteq> 0 then Some ((nErr, NoResult), s)
        else map_option (\<lambda>(r, s). (r, put_ref domain s)) (f s))"

definition remote_handle_control ::
  "henv \<Rightarrow> cap_env \<Rightarrow> wake_env \<Rightarrow> control_req \<Rightarrow> apps \<Rightarrow> ((int \<times> control_out) \<times> apps) option" where
  "remote_handle_control e ce we req s =
     (if fastrpc_init_once (am s) \<noteq> 0 then Some ((fastrpc_init_once (am s), NoResult), s)
      else let domain = get_current_domain (default_domain (a_mem e)) (sess (am s))
           in with_ref domain (remote_handle_control_domain e ce we domain INVALID_HANDLE req) s)"

definition remote_handle64_control ::
  "henv \<Rightarrow> cap_env \<Rightarrow> wake_env \<Rightarrow> u64 \<Rightarrow> control_req \<Rightarrow> apps \<Rightarrow> ((int \<times> control_out) \<times> apps) option" where
  "remote_handle64_control e ce we handle req s =
     (if fastrpc_init_once (am s) \<noteq> 0 then Some ((fastrpc_init_once (am s), NoResult), s)
      else case get_domain_from_handle handle s of
        (nErr, None) \<Rightarrow> Some ((nErr, NoResult), s)
      | (nErr, Some domain) \<Rightarrow> with_ref domain (remote_handle_control_domain e ce we domain handle req) s)"

end
