(* ===== verification/CapProps.thy ===== *)
theory CapProps
  imports Cap DomainProps
begin

text \<open>
  Queries of capabilities do not touch the sessions and close the devices that they open; the answers that are
  kept are those of the first domain that is asked.
\<close>

section \<open>Properties\<close>

lemma present_once: "set (snd (rproc_loop n rs)) \<subseteq> fst ` set rs"
  by (induction rs rule: rproc_loop.induct) (auto split: rproc_name.splits prod.splits if_splits)

text \<open>A query leaves the sessions as they are, and it closes the device exactly when it has opened it
  itself, which it does when the domain has no session.\<close>

theorem query_closes_what_it_opens:
  assumes "hlist (sess (am s)) = Some h" and "fastrpc_get_cap e ce domain attr s = ((nErr, c), s')"
    and "b = GET_DOMAIN_FROM_EFFEC_DOMAIN_ID domain"
  shows "sess (am s') = sess (am s) \<and>
    calls s' = calls s @
      (if IS_VALID_EFFECTIVE_DOMAIN_ID domain \<and> 0 < attr \<and> attr < FASTRPC_MAX_ATTRIBUTES \<and>
          dev (h b) = -1 \<and> open_device_node (a_open e) b \<ge> 0
       then [CLOSE_DEVICE (open_device_node (a_open e) b)] else [])"
  using assms
  by (auto simp: fastrpc_get_cap_def Let_def fastrpc_session_open_def session_close_def fastrpc_session_close_def
      set_errno_def comps_def upd_sess_def split: if_splits prod.splits)

text \<open>The answer for the notifications of the first domain that is asked for is given for every domain from then on.\<close>

theorem first_domain_answers_for_all:
  assumes "is_status_notif_version2_supported e ce d1 (no_caps, s) = (k1, c1, s1)"
    and "is_status_notif_version2_supported e' ce' d2 (c1, s2) = (k2, c2, s3)"
  shows "k2 = k1"
proof -
  have "k1 \<noteq> -1"
    using assms(1) sint_greater_eq
    by (auto simp: is_status_notif_version2_supported_def no_caps_def check_status_notif_version2_capability_def
        fastrpc_get_cap_def Let_def split: prod.splits if_splits)
  then show ?thesis using assms
    by (auto simp: is_status_notif_version2_supported_def no_caps_def split: prod.splits if_splits)
qed

text \<open>The capabilities of the driver are never asked for: they are 0 as soon as the device can be opened.\<close>

lemma driver_capabilities_are_zero:
  assumes "fastrpc_get_cap e ce domain attr s = ((0, c), s')" and "attr \<ge> PERF_V2_DRIVER_SUPPORT"
  shows "c = 0"
  using assms by (auto simp: fastrpc_get_cap_def Let_def ioctl_getdspinfo_def split: if_splits prod.splits)

text \<open>A name file that does not match is closed twice: once with its stream and once more.\<close>

lemma rproc_double_close: "rproc_loop ''cdsp'' [(5, Line ''adsp''), (5, Line ''cdsp'')] = (1, [5, 5, 5])"
  by code_simp

lemma error_code_unknown:
  assumes "open_device_node (a_open e) 3 < 0" and "hlist (sess (am s)) = None"
  shows "fst (check_error_code_change_present e ce (no_caps, s)) = -1"
  using assms by (simp add: check_error_code_change_present_def no_caps_def fastrpc_get_cap_def Let_def fastrpc_session_open_def
      GET_DOMAIN_FROM_EFFEC_DOMAIN_ID_def IS_VALID_EFFECTIVE_DOMAIN_ID_def)

section \<open>Instances\<close>

definition demo_caps :: cap_env where
  "demo_caps = \<lparr>ce_stat = (\<lambda>_. False), ce_rproc = [(5, Line ''adsp''), (6, Line ''cdsp'')], ce_malloc = True,
     ce_dspinfo = (\<lambda>_ d _. (0, if d = 3 then 3 else 0))\<rparr>"

text \<open>The closed session of domain 3 is asked for an attribute: device 7 is opened and closed again.\<close>

theorem query_closes_what_it_opens_witness:
  "calls (snd (fastrpc_get_cap demo_henv demo_caps 3 6 demo_closed)) = calls demo_closed @ [CLOSE_DEVICE 7]"
proof -
  let ?h = "\<lambda>_. \<lparr>state = FASTRPC_DOMAIN_STATE_CLEAN, ref = 0, dev = -1\<rparr> :: handle_list"
  have h: "hlist (sess (am demo_closed)) = Some ?h" by (simp add: demo_closed_def upd_sess_def)
  have d: "open_device_node (a_open demo_henv) 3 = 7" "GET_DOMAIN_FROM_EFFEC_DOMAIN_ID 3 = 3" by code_simp+
  obtain r s' where r: "fastrpc_get_cap demo_henv demo_caps 3 6 demo_closed = (r, s')" by (metis surj_pair)
  obtain n c where "r = (n, c)" by (metis surj_pair)
  with r have "fastrpc_get_cap demo_henv demo_caps 3 6 demo_closed = ((n, c), s')" by simp
  from query_closes_what_it_opens [OF h this refl] show ?thesis by (simp add: d IS_VALID_EFFECTIVE_DOMAIN_ID_def r)
qed

text \<open>Domain 0 does not support the notifications; asked after domain 3, it seems to.\<close>

theorem first_domain_answers_for_all_witness:
  "fst (is_status_notif_version2_supported demo_henv demo_caps 0
     (snd (is_status_notif_version2_supported demo_henv demo_caps 3 (no_caps, demo_closed)))) = 1 \<and>
   fst (is_status_notif_version2_supported demo_henv demo_caps 0 (no_caps, demo_closed)) = 0"
proof -
  obtain k1 c1 s1 where 1: "is_status_notif_version2_supported demo_henv demo_caps 3 (no_caps, demo_closed) = (k1, c1, s1)"
    by (metis prod_cases3)
  obtain k2 c2 s2 where 2: "is_status_notif_version2_supported demo_henv demo_caps 0 (c1, s1) = (k2, c2, s2)"
    by (metis prod_cases3)
  have "fst (is_status_notif_version2_supported demo_henv demo_caps 3 (no_caps, demo_closed)) = 1" by code_simp
  moreover have "fst (is_status_notif_version2_supported demo_henv demo_caps 0 (no_caps, demo_closed)) = 0" by code_simp
  ultimately show ?thesis using first_domain_answers_for_all [OF 1 2] 1 2 by simp
qed

end
