(* ===== verification/ContextProps.thy ===== *)
theory ContextProps
  imports Context CapProps
begin

text \<open>
  With a driver that does not support contexts, no context is ever created; the failed attempt closes the devices of the
  sessions that were open before it.
\<close>

lemma session_close_invalid:
  assumes "hlist (sess (am s)) = Some h"
  shows "hlist (sess (am (session_close d (-1) s))) = Some (h(d := (h d)\<lparr>dev := -1\<rparr>))"
    and "calls (session_close d (-1) s) = calls s @ (if dev (h d) = -1 then [] else [CLOSE_DEVICE (dev (h d))])"
proof -
  have "h = h(d := (h d)\<lparr>dev := -1\<rparr>)" if "dev (h d) = -1"
    using that by (metis handle_list.update_convs(3) handle_list.surjective fun_upd_triv handle_list.select_convs(3))
  then show "hlist (sess (am (session_close d (-1) s))) = Some (h(d := (h d)\<lparr>dev := -1\<rparr>))"
    using assms by (auto simp: session_close_def fastrpc_session_close_def comps_def upd_sess_def)
  show "calls (session_close d (-1) s) = calls s @ (if dev (h d) = -1 then [] else [CLOSE_DEVICE (dev (h d))])"
    using assms by (auto simp: session_close_def fastrpc_session_close_def comps_def upd_sess_def)
qed

text \<open>The sessions of a list of different domains after they have been closed.\<close>

definition without_devs :: "int list \<Rightarrow> (int \<Rightarrow> handle_list) \<Rightarrow> int \<Rightarrow> handle_list" where
  "without_devs ids h d = (if d \<in> set ids then (h d)\<lparr>dev := -1\<rparr> else h d)"

lemma close_sessions_all:
  assumes "hlist (sess (am s)) = Some h" and "distinct ids" and "length fds = length ids" and "0 \<notin> set fds"
  shows "hlist (sess (am (close_sessions (zip ids fds) s))) = Some (without_devs ids h) \<and>
    calls (close_sessions (zip ids fds) s) = calls s @ [CLOSE_DEVICE (dev (h d)). d \<leftarrow> ids, dev (h d) \<noteq> -1]"
  using assms
proof (induction ids arbitrary: fds s h)
  case Nil
  then show ?case by (simp add: without_devs_def)
next
  case (Cons d ids)
  then obtain x xs where fds: "fds = x # xs" "x \<noteq> 0" "length xs = length ids" "0 \<notin> set xs" "d \<notin> set ids" "distinct ids"
    by (auto simp: length_Suc_conv)
  note c = session_close_invalid [OF Cons.prems(1), of d]
  have eq: "[CLOSE_DEVICE (dev ((h(d := (h d)\<lparr>dev := -1\<rparr>)) a)). a \<leftarrow> ids, dev ((h(d := (h d)\<lparr>dev := -1\<rparr>)) a) \<noteq> -1] =
      [CLOSE_DEVICE (dev (h a)). a \<leftarrow> ids, dev (h a) \<noteq> -1]"
    using fds(5) by (intro arg_cong [where f = concat] map_cong) auto
  have "without_devs ids (h(d := (h d)\<lparr>dev := -1\<rparr>)) = without_devs (d # ids) h"
    using fds(5) by (auto simp: without_devs_def fun_eq_iff)
  then show ?case
    using Cons.IH [OF c(1) fds(6,3,4)] c(2) fds(1,2) by (simp only: eq zip_Cons_Cons close_sessions.simps if_False) simp
qed

lemma close_none: "close_sessions (zip ids (replicate n 0)) s = s"
proof (induction n arbitrary: ids)
  case (Suc n)
  then show ?case by (cases ids) simp_all
qed simp

lemma open_sessions_length: "length (snd (open_sessions opens se i ids)) = length ids"
proof (induction ids arbitrary: i)
  case (Cons d ids)
  show ?case using Cons.IH [of "Suc i"] by (auto split: prod.splits option.splits)
qed simp

lemma open_sessions_ok:
  assumes "hlist se = Some h" and "\<And>i d. d \<in> set ids \<Longrightarrow> i < n + length ids \<Longrightarrow> dev (h d) > 0 \<or> dev (h d) = -1 \<and> open_device_node (opens i) d > 0"
  shows "fst (open_sessions opens se n ids) = 0 \<and> 0 \<notin> set (snd (open_sessions opens se n ids))"
  using assms(2)
proof (induction ids arbitrary: n)
  case (Cons d ids)
  have "dev (h d) > 0 \<or> dev (h d) = -1 \<and> open_device_node (opens n) d > 0" using Cons.prems [of d n] by simp
  moreover have "fst (open_sessions opens se (Suc n) ids) = 0 \<and> 0 \<notin> set (snd (open_sessions opens se (Suc n) ids))"
    using Cons.prems by (intro Cons.IH) auto
  ultimately show ?case using assms(1) by (auto simp: fastrpc_session_open_def split: prod.splits)
qed simp

text \<open>No context is ever created, whatever is asked for: the operation fails and the table stays as it is.\<close>

theorem create_context_always_fails:
  assumes "fastrpc_create_context e opens create (t, s) = Some ((nErr, ctx), t', s')"
  shows "nErr \<noteq> 0 \<and> ctx = None \<and> t' = t"
  using assms
  by (auto simp: fastrpc_create_context_def setup_context_def ioctl_mdctx_manage_def Let_def
      split: if_splits option.splits prod.splits)

text \<open>C28: the attempt to create a context over sessions of which the first is open ends with the devices of all open
  sessions closed, although they were opened before it and are still in use; the devices that were opened by the
  attempt itself stay open.\<close>

theorem failed_context_closes_sessions:
  assumes "ct_init t" and "hlist (sess (am s)) = Some h" and "\<And>n. a_alloc e s n"
    and "cc_ids create = Some (map of_int ids)" "cc_num create = of_nat (length ids)" "cc_flags create = 0"
    and "ids \<noteq> []" "length ids < 32" "distinct ids" "fastrpc_context_init_domains ids = 0"
    and "\<And>d i. d \<in> set ids \<Longrightarrow> dev (h d) > 0 \<or> dev (h d) = -1 \<and> open_device_node (opens i) d > 0"
    and "dev (h (hd ids)) \<noteq> -1"
  shows "\<exists>s'. fastrpc_create_context e opens create (t, s) = Some ((AEE_EUNSUPPORTED, None), t, s') \<and>
    hlist (sess (am s')) = Some (\<lambda>d. if d \<in> set ids then (h d)\<lparr>dev := -1\<rparr> else h d) \<and>
    calls s' = calls s @ [CLOSE_DEVICE (dev (h d)). d \<leftarrow> ids, dev (h d) \<noteq> -1]"
proof -
  have v: "\<forall>d \<in> set ids. IS_VALID_EFFECTIVE_DOMAIN_ID d"
    using assms(10) by (auto simp: fastrpc_context_init_domains_def list_all_iff split: if_splits)
  have ids: "map uint (map of_int ids :: u32 list) = ids"
  proof (rule nth_equalityI)
    fix i assume "i < length (map uint (map of_int ids :: u32 list))"
    then have i: "i < length ids" by simp
    then have "0 \<le> ids ! i \<and> ids ! i < 32" using v by (auto simp: IS_VALID_EFFECTIVE_DOMAIN_ID_def)
    then have "uint (word_of_int (ids ! i) :: u32) = ids ! i" by (simp add: uint_word_of_int_eq take_bit_int_eq_self)
    then show "map uint (map of_int ids :: u32 list) ! i = ids ! i" using i by simp
  qed simp
  have n: "unat (cc_num create) = length ids"
    using assms(5,8) by (simp add: unat_of_nat)
  have num: "cc_num create \<noteq> 0 \<and> cc_num create < 32"
    using n assms(7,8) by (auto simp: word_less_nat_alt)
  let ?o = "open_sessions opens (sess (am s)) 0 ids"
  obtain fds where o: "?o = (0, fds)" "0 \<notin> set fds" "length fds = length ids"
    using open_sessions_ok [OF assms(2), of ids 0 opens] assms(11) open_sessions_length [of opens "sess (am s)" 0 ids]
    by (metis prod.collapse)
  have g: "get_device_fd (hd ids) (sess (am s)) \<noteq> -1" using assms(2,12) by (simp add: get_device_fd_def)
  let ?s = "close_sessions (zip ids fds) s"
  have "setup_context opens \<lparr>cx_ids = ids, cx_devs = replicate (length ids) 0, cx_ctxid = 0\<rparr> t s =
      ((AEE_EUNSUPPORTED, None), t, ?s)"
    using o(1) g by (simp add: setup_context_def ioctl_mdctx_manage_def fastrpc_context_deinit_def)
  then have "fastrpc_create_context e opens create (t, s) = Some ((AEE_EUNSUPPORTED, None), t, ?s)"
    using assms(1,3,4,6,10) num n ids by (simp add: fastrpc_create_context_def fastrpc_context_init_def)
  moreover have "without_devs ids h = (\<lambda>d. if d \<in> set ids then (h d)\<lparr>dev := -1\<rparr> else h d)"
    by (simp add: without_devs_def fun_eq_iff)
  ultimately show ?thesis using close_sessions_all [OF assms(2,9) o(3,2)] by simp
qed

text \<open>A request that mixes sessions and domains is refused before any device is touched, and a domain that is not valid
  is reported as a bad parameter.\<close>

lemma refused_context_touches_nothing:
  assumes "fastrpc_create_context e opens create (t, s) = Some ((nErr, ctx), t', s')" and "cc_ids create = Some ids"
    and "fastrpc_context_init_domains (map uint (take (unat (cc_num create)) ids)) \<noteq> 0"
  shows "s' = s"
  using assms
  by (auto simp: fastrpc_create_context_def fastrpc_context_init_def fastrpc_context_deinit_def close_none Let_def
      split: if_splits option.splits)

section \<open>Instances\<close>

definition demo_table :: fastrpc_context_table where
  "demo_table = \<lparr>ct_init = True, ct_table = []\<rparr>"

definition demo_create :: fastrpc_context_create where
  "demo_create = \<lparr>cc_ids = Some [3, 11], cc_num = 2, cc_flags = 0\<rparr>"

text \<open>The session of domain 3 runs on device 7; the second session of the domain is not open.\<close>

definition demo_live :: apps where
  "demo_live = upd_sess (\<lambda>se. se\<lparr>hlist := Some (\<lambda>d. \<lparr>state = FASTRPC_DOMAIN_STATE_INIT, ref = 0, dev = if d = 3 then 7 else -1\<rparr>)\<rparr>) demo_handles"

theorem failed_context_closes_sessions_witness:
  "\<exists>s'. fastrpc_create_context demo_henv (\<lambda>i _. (8, 0)) demo_create (demo_table, demo_live) = Some ((AEE_EUNSUPPORTED, None), demo_table, s') \<and>
    calls s' = calls demo_live @ [CLOSE_DEVICE 7]"
proof -
  let ?h = "\<lambda>d. \<lparr>state = FASTRPC_DOMAIN_STATE_INIT, ref = 0, dev = if d = 3 then 7 else -1\<rparr> :: handle_list"
  have h: "hlist (sess (am demo_live)) = Some ?h" by (simp add: demo_live_def upd_sess_def)
  have o: "open_device_node (\<lambda>_. (8, 0)) 3 = 8" "open_device_node (\<lambda>_. (8, 0)) 11 = 8" by code_simp+
  have c: "fastrpc_context_init_domains [3, 11] = 0" by code_simp
  have "\<exists>s'. fastrpc_create_context demo_henv (\<lambda>i _. (8, 0)) demo_create (demo_table, demo_live) = Some ((AEE_EUNSUPPORTED, None), demo_table, s') \<and>
      hlist (sess (am s')) = Some (\<lambda>d. if d \<in> set [3 :: int, 11] then (?h d)\<lparr>dev := -1\<rparr> else ?h d) \<and>
      calls s' = calls demo_live @ [CLOSE_DEVICE (dev (?h d)). d \<leftarrow> [3 :: int, 11], dev (?h d) \<noteq> -1]"
    by (rule failed_context_closes_sessions)
      (use h o c in \<open>auto simp: demo_table_def demo_create_def demo_henv_def\<close>)
  then show ?thesis by auto
qed

theorem create_context_always_fails_witness:
  "\<exists>nErr s'. fastrpc_create_context demo_henv (\<lambda>i _. (8, 0)) demo_create (demo_table, demo_live) = Some ((nErr, None), demo_table, s') \<and> nErr \<noteq> 0"
proof -
  have "fastrpc_create_context demo_henv (\<lambda>i _. (8, 0)) demo_create (demo_table, demo_live) \<noteq> None" by code_simp
  then obtain nErr ctx t' s' where
    r: "fastrpc_create_context demo_henv (\<lambda>i _. (8, 0)) demo_create (demo_table, demo_live) = Some ((nErr, ctx), t', s')"
    by auto
  from create_context_always_fails [OF r] r show ?thesis by auto
qed

end
