(* ===== verification/ControlProps.thy ===== *)
theory ControlProps
  imports Control ContextProps OpenCloseProps
begin

text \<open>
  Reserved sessions are new and different, priorities are clamped and stored; a query moves a reference from one domain to
  another, a mode that the driver does not know costs every domain one invocation, and polling is never switched.
\<close>

section \<open>Reserving sessions\<close>

abbreviation free_session :: "apps \<Rightarrow> int \<Rightarrow> bool" where
  "free_session s d \<equiv> \<not> is_session_reserved (doms s d)"

lemma reserve_first_cases:
  assumes "reserve_first name iis s = (r, s')"
  obtains (none) "r = None" "s' = s" "\<forall>i \<in> set iis. is_session_reserved (doms s i)"
  | (some) pre i post where "r = Some i" "iis = pre @ i # post" "\<forall>j \<in> set pre. is_session_reserved (doms s j)"
      "free_session s i" "s' = upd_dom i (\<lambda>D. D\<lparr>is_session_reserved := True, sessionname := name\<rparr>) s"
  using assms
proof (induction iis arbitrary: thesis)
  case Nil
  then show ?case by simp
next
  case (Cons i iis)
  show ?case
  proof (cases "free_session s i")
    case True
    then show ?thesis using Cons.prems(2) [of i "[]" iis] Cons.prems(3) by simp
  next
    case False
    then have r: "reserve_first name iis s = (r, s')" using Cons.prems(3) by simp
    show ?thesis
    proof (rule Cons.IH [OF _ _ r])
      assume "r = None" "s' = s" "\<forall>i \<in> set iis. is_session_reserved (doms s i)"
      then show ?thesis using Cons.prems(1) False by simp
    next
      fix pre j post
      assume "r = Some j" "iis = pre @ j # post" "\<forall>j \<in> set pre. is_session_reserved (doms s j)"
        "free_session s j" "s' = upd_dom j (\<lambda>D. D\<lparr>is_session_reserved := True, sessionname := name\<rparr>) s"
      then show ?thesis using Cons.prems(2) [of j "i # pre" post] False by simp
    qed
  qed
qed

text \<open>The four sessions of a domain; the first is the default one and is never reserved.\<close>

lemma reserve_new_session_cases:
  assumes "reserve_new_session r s = ((nErr, out), s')"
  obtains (refused) "nErr = AEE_EBADPARM" "s' = s" "\<forall>d. reserve_domain r = Some d \<longrightarrow> \<not> IS_VALID_DOMAIN_ID d"
  | (none) d where "nErr = AEE_ENOSESSION" "s' = s" "reserve_domain r = Some d"
      "out = Reserved (32, 4)" "\<forall>k \<in> {1, 2, 3}. is_session_reserved (doms s (d + 8 * k))"
  | (some) d k name where "nErr = 0" "reserve_domain r = Some d" "IS_VALID_DOMAIN_ID d" "k \<in> {1, 2, 3}"
      "out = Reserved (d + 8 * k, k)" "free_session s (d + 8 * k)"
      "\<forall>j \<in> {1 ..< k}. is_session_reserved (doms s (d + 8 * j))"
      "s' = upd_dom (d + 8 * k) (\<lambda>D. D\<lparr>is_session_reserved := True, sessionname := name\<rparr>) s"
proof (cases "\<exists>d. reserve_domain r = Some d \<and> IS_VALID_DOMAIN_ID d")
  case False
  then show ?thesis using assms refused by (auto simp: reserve_new_session_def split: option.splits)
next
  case True
  then obtain d where d: "reserve_domain r = Some d" "IS_VALID_DOMAIN_ID d" by blast
  let ?n = "stored_name (case rs_session_name r of Some n \<Rightarrow> n | None \<Rightarrow> []) (rs_session_name_len r)"
  have l: "[d + NUM_DOMAINS, d + 2 * NUM_DOMAINS, d + 3 * NUM_DOMAINS] = [d + 8, d + 16, d + 24]" by simp
  obtain i s1 where f: "reserve_first ?n [d + 8, d + 16, d + 24] s = (i, s1)" by (metis surj_pair)
  from f show ?thesis
  proof (cases rule: reserve_first_cases)
    case none
    then show ?thesis using assms d f that(2) [of d]
      by (simp add: reserve_new_session_def reserve_session_def)
  next
    case (some pre j post)
    have "(pre = [] \<and> j = d + 8) \<or> (pre = [d + 8] \<and> j = d + 16) \<or> (pre = [d + 8, d + 16] \<and> j = d + 24)"
      using some(2) by (auto simp: Cons_eq_append_conv)
    moreover have "{1 ..< 1 :: int} = {}" "{1 ..< 2 :: int} = {1}" "{1 ..< 3 :: int} = {1, 2}" by auto
    ultimately show ?thesis
      using assms d f some that(3) [of d 1 ?n] that(3) [of d 2 ?n] that(3) [of d 3 ?n]
      by (simp add: reserve_new_session_def reserve_session_def) (elim disjE; simp)
  qed
qed

text \<open>A sequence of requests, with the sessions that were reserved.\<close>

fun reserve_all :: "remote_rpc_reserve_new_session list \<Rightarrow> apps \<Rightarrow> int list \<times> apps" where
  "reserve_all [] s = ([], s)"
| "reserve_all (r # rs) s =
     (case reserve_new_session r s of ((nErr, out), s1) \<Rightarrow>
        case reserve_all rs s1 of (ids, s2) \<Rightarrow>
          (case out of Reserved (i, k) \<Rightarrow> if nErr = 0 then i # ids else ids | _ \<Rightarrow> ids, s2))"

text \<open>C24: however many sessions are asked for, no session is given out twice, none that was reserved before is given out,
  each is one of the sessions 1 to 3 of a domain, and exactly the sessions given out are reserved from then on.\<close>

theorem reservations_distinct:
  assumes "reserve_all rs s = (ids, s')"
  shows "distinct ids \<and> (\<forall>i \<in> set ids. IS_VALID_EFFECTIVE_DOMAIN_ID i \<and> GET_SESSION_ID_FROM_DOMAIN_ID i \<noteq> 0 \<and> free_session s i) \<and>
    (\<forall>d. is_session_reserved (doms s' d) \<longleftrightarrow> is_session_reserved (doms s d) \<or> d \<in> set ids) \<and> am s' = am s"
  using assms
proof (induction rs arbitrary: s ids)
  case (Cons r rs)
  obtain nErr out s1 where r: "reserve_new_session r s = ((nErr, out), s1)" by (metis surj_pair)
  obtain is2 where a: "reserve_all rs s1 = (is2, s')"
    using Cons.prems r by (cases "reserve_all rs s1") simp
  note IH = Cons.IH [OF a]
  from r show ?case
  proof (cases rule: reserve_new_session_cases)
    case refused
    then show ?thesis using Cons.prems r a IH by (auto split: session_out.splits)
  next
    case (none d)
    then show ?thesis using Cons.prems r a IH by auto
  next
    case (some d k name)
    let ?i = "d + 8 * k"
    have "IS_VALID_EFFECTIVE_DOMAIN_ID ?i \<and> GET_SESSION_ID_FROM_DOMAIN_ID ?i \<noteq> 0"
      using some(3,4) by (auto simp: IS_VALID_EFFECTIVE_DOMAIN_ID_def IS_VALID_DOMAIN_ID_def GET_SESSION_ID_FROM_DOMAIN_ID_def)
    moreover have "is_session_reserved (doms s1 x) \<longleftrightarrow> is_session_reserved (doms s x) \<or> x = ?i" "am s1 = am s" for x
      using some(8) by auto
    moreover have "ids = ?i # is2" using Cons.prems r a some(1,5) by auto
    ultimately show ?thesis using IH some(6) by auto
  qed
qed simp

text \<open>A session of a domain is found exactly when one of its three is free, and then it is the first of them.\<close>

theorem reserve_finds_first_free:
  assumes "reserve_domain r = Some d" and "IS_VALID_DOMAIN_ID d" and "reserve_new_session r s = ((nErr, out), s')"
  shows "(nErr = 0 \<longleftrightarrow> (\<exists>k \<in> {1, 2, 3}. free_session s (d + 8 * k))) \<and>
    (nErr = 0 \<longrightarrow> (\<exists>k \<in> {1, 2, 3}. out = Reserved (d + 8 * k, k) \<and> free_session s (d + 8 * k) \<and>
       (\<forall>j \<in> {1 ..< k}. \<not> free_session s (d + 8 * j)))) \<and>
    (nErr \<noteq> 0 \<longrightarrow> nErr = AEE_ENOSESSION \<and> s' = s)"
  using assms(3)
proof (cases rule: reserve_new_session_cases)
  case refused
  then show ?thesis using assms(1,2) by blast
next
  case (none x)
  then show ?thesis using assms(1) by auto
next
  case (some x k name)
  then show ?thesis using assms(1) by (auto intro!: bexI [of _ k])
qed

section \<open>Parameters\<close>

text \<open>C32: the relative priority for a valid domain that has no open session is added to the default priority, clamped to the
  range from 1 to 255 and stored with the request id, to be sent when the process is started (\<open>update_requested\<close>). The stack size
  and all the rest of the state stay as they were, nothing is sent and 0 is returned.\<close>

theorem relative_priority_stored:
  assumes "IS_VALID_EFFECTIVE_DOMAIN_ID d" and "hlist (sess (am (ct_apps c))) = Some h" and "dev (h d) = -1"
  shows "\<exists>p. uint p = max 1 (min 255 (192 + r)) \<and>
    session_request e ce opens (FASTRPC_RELATIVE_THREAD_PRIORITY (Some (d, r))) c =
      Some ((0, NoOut), c\<lparr>ct_apps := upd_dom d (\<lambda>D. D\<lparr>th_params := (th_params D)
        \<lparr>thread_priority := p, reqID := 1, update_requested := True\<rparr>\<rparr>) (ct_apps c)\<rparr>)"
proof -
  let ?s = "ct_apps c"
  have n: "relative_priority r = max 1 (min 255 (192 + r))" by (simp add: relative_priority_def max_def min_def)
  have b: "1 \<le> relative_priority r \<and> relative_priority r \<le> 255" unfolding n by simp
  have u: "uint (word_of_int (relative_priority r) :: u32) = relative_priority r"
    using b by (simp add: uint_word_of_int_eq take_bit_int_eq_self)
  have d: "d \<noteq> -1" using assms(1) by (auto simp: IS_VALID_EFFECTIVE_DOMAIN_ID_def)
  let ?p = "of_int (relative_priority r) :: u32"
  have o: "upd_dom d g (upd_dom d f x) = upd_dom d (\<lambda>D. g (f D)) x" for f g x by (simp add: upd_dom_twice comp_def)
  have "store_domain_thread_params e d (relative_priority r) (-1) ?s =
      Some (0, upd_dom d (\<lambda>D. D\<lparr>th_params := (th_params D)\<lparr>thread_priority := ?p, reqID := 1, update_requested := True\<rparr>\<rparr>) ?s)"
    using assms b by (simp add: store_domain_thread_params_def session_dev_def upd_th_def o)
  then show ?thesis using assms(1) d u n
    by (intro exI [of _ ?p]) (simp add: session_request_def on_domains_def lift_apps_def)
qed

text \<open>A size of the stack that is refused leaves the new priority behind.\<close>

lemma refused_stack_keeps_priority:
  assumes "hlist (sess (am s)) \<noteq> None" and "IS_VALID_EFFECTIVE_DOMAIN_ID d"
  shows "store_domain_thread_params e d 100 1 s = Some (AEE_EBADPARM, upd_th d (\<lambda>p. p\<lparr>thread_priority := 100\<rparr>) s)"
  using assms by (auto simp: store_domain_thread_params_def)

section \<open>References\<close>

text \<open>C30: a query for the effective domain id of a session of a named domain succeeds with the id of that domain and
  that session. Of the table of sessions only two reference counts change: the default domain's is one more, and from the
  named domain's one is taken off unless there is none (for the default domain the two cancel out).\<close>

theorem effective_domain_answered:
  assumes "hlist (sess (am (ct_apps c))) = Some h" and "state (h DEFAULT_DOMAIN_ID) \<noteq> FASTRPC_DOMAIN_STATE_DEINIT"
    and "fastrpc_init_once (am (ct_apps c)) = 0"
    and "query_domain (Some name) len sid = Some d" and "IS_VALID_DOMAIN_ID d"
  shows "\<exists>r c'. remote_session_control e ce opens (FASTRPC_GET_EFFECTIVE_DOMAIN_ID (Some (Some name, len, sid))) c =
      Some ((0, EffectiveDomain (Some r)), c') \<and> IS_VALID_EFFECTIVE_DOMAIN_ID r \<and>
    GET_DOMAIN_FROM_EFFEC_DOMAIN_ID r = d \<and> GET_SESSION_ID_FROM_DOMAIN_ID r = uint sid \<and>
    hlist (sess (am (ct_apps c'))) =
      Some (let h1 = h(DEFAULT_DOMAIN_ID := (h DEFAULT_DOMAIN_ID)\<lparr>ref := ref (h DEFAULT_DOMAIN_ID) + 1\<rparr>)
            in h1(d := (h1 d)\<lparr>ref := if ref (h1 d) > 0 then ref (h1 d) - 1 else ref (h1 d)\<rparr>))"
proof -
  let ?req = "FASTRPC_GET_EFFECTIVE_DOMAIN_ID (Some (Some name, len, sid))"
  let ?h1 = "h(DEFAULT_DOMAIN_ID := (h DEFAULT_DOMAIN_ID)\<lparr>ref := ref (h DEFAULT_DOMAIN_ID) + 1\<rparr>)"
  obtain s1 where g: "get_ref DEFAULT_DOMAIN_ID (ct_apps c) = (0, s1)" and h1: "hlist (sess (am s1)) = Some ?h1"
    using assms(1,2) by (simp add: get_ref_def fastrpc_session_get_def upd_sess_def)
  have v: "IS_VALID_EFFECTIVE_DOMAIN_ID d" "final_domain ?req = d"
    using assms(4,5) by (auto simp: IS_VALID_EFFECTIVE_DOMAIN_ID_def IS_VALID_DOMAIN_ID_def final_domain_def)
  have q: "len > 0" "sid < 4" "d = get_domain_from_name (Some name) DOMAIN_NAME_STAND_ALONE"
    using assms(4) by (auto simp: query_domain_def split: if_splits)
  have "uint sid < 4" using q(2) by (simp add: word_less_def)
  then have s: "uint sid \<in> {0, 1, 2, 3}" by (smt (verit) insertCI uint_ge_0)
  have "d = 0 \<or> d = 1 \<or> d = 2 \<or> d = 3 \<or> d = 4 \<or> d = 5 \<or> d = 6 \<or> d = 7"
    using assms(5) unfolding IS_VALID_DOMAIN_ID_def by arith
  with s have r: "GET_EFFECTIVE_DOMAIN_ID d (uint sid) = d + 8 * uint sid" "IS_VALID_EFFECTIVE_DOMAIN_ID (d + 8 * uint sid)"
      "GET_DOMAIN_FROM_EFFEC_DOMAIN_ID (d + 8 * uint sid) = d" "GET_SESSION_ID_FROM_DOMAIN_ID (d + 8 * uint sid) = uint sid"
    by (auto simp: GET_EFFECTIVE_DOMAIN_ID_def int32_id IS_VALID_EFFECTIVE_DOMAIN_ID_def IS_VALID_DOMAIN_ID_def
        GET_DOMAIN_FROM_EFFEC_DOMAIN_ID_def GET_SESSION_ID_FROM_DOMAIN_ID_def)
  have "get_effective_domain_id (Some name) len sid = (0, Some (d + 8 * uint sid))"
    using q assms(5) r by (simp add: get_effective_domain_id_def)
  then have "remote_session_control e ce opens ?req c =
      Some ((0, EffectiveDomain (Some (d + 8 * uint sid))), c\<lparr>ct_apps := put_ref d s1\<rparr>)"
    using g v assms(3) by (simp add: remote_session_control_def session_request_def)
  moreover have "hlist (sess (am (put_ref d s1))) =
      Some (?h1(d := (?h1 d)\<lparr>ref := if ref (?h1 d) > 0 then ref (?h1 d) - 1 else ref (?h1 d)\<rparr>))"
    using h1 by (auto simp: fastrpc_session_put_def Let_def fun_eq_iff)
  ultimately show ?thesis using r(2-4) unfolding Let_def by auto
qed

text \<open>A name that is no domain is refused, and then the reference is given back in front of the table.\<close>

lemma unknown_name_leaves_table:
  assumes "query_domain (Some name) len sid = Some INVALID_DOMAIN_ID" and "fastrpc_init_once (am (ct_apps c)) = 0"
    and "fst (get_ref DEFAULT_DOMAIN_ID (ct_apps c)) = 0"
  shows "remote_session_control e ce opens (FASTRPC_GET_EFFECTIVE_DOMAIN_ID (Some (Some name, len, sid))) c = None"
  using assms by (auto simp: remote_session_control_def final_domain_def IS_VALID_EFFECTIVE_DOMAIN_ID_def session_request_def
      get_effective_domain_id_def split: prod.splits)

section \<open>Modes\<close>

lemma fold_upd_doms:
  "distinct ds \<Longrightarrow> doms (fold (\<lambda>i. upd_dom i f) ds s) x = (if x \<in> set ds then f (doms s x) else doms s x)"
  "am (fold (\<lambda>i. upd_dom i f) ds s) = am s" "sent (fold (\<lambda>i. upd_dom i f) ds s) = sent s"
  by (induction ds arbitrary: s) auto

lemma invoke_domain_bad_mode:
  assumes "setmode (doms s d)" and "mode (doms s d) \<noteq> 4" and "fastrpc_session_dev d (sess (am s)) = (0, dv)"
    and "remote_handle_invoke_domain e d handle sc pra s = Some ((nErr, out), s')"
  shows "nErr = AEE_EUNSUPPORTED \<and> sent s' = sent s \<and> \<not> setmode (doms s' d)"
proof -
  let ?s0 = "s\<lparr>am := (am s)\<lparr>errno := 0\<rparr>\<rparr>"
  obtain w s1 where wk: "invoke_wake_begin e d handle sc ?s0 = (w, s1)" by (metis surj_pair)
  have q: "setmode (doms s1 d) = setmode (doms s d)" "mode (doms s1 d) = mode (doms s d)" "sent s1 = sent s"
    using wk by (auto simp: invoke_wake_begin_def is_first_reverse_rpc_call_def take_wake_lock_def Let_def split: if_splits prod.splits)
  let ?s2 = "upd_dom d (\<lambda>D. D\<lparr>setmode := False\<rparr>) s1"
  have "invoke_bail e handle sc w (convert_kernel_to_user_error AEE_EUNSUPPORTED (errno (am s1))) ?s2 = (nErr, s')"
    using assms wk q by (auto simp: remote_handle_invoke_domain_def ioctl_setmode_def split: prod.splits)
  then have "nErr = AEE_EUNSUPPORTED \<and> doms s' = doms ?s2 \<and> sent s' = sent ?s2"
    by (auto simp: invoke_bail_def Let_def drop_wake_lock_def convert_kernel_to_user_error_def split: if_splits prod.splits)
  then show ?thesis using q by simp
qed

text \<open>After a mode other than the one that the driver accepts has been set, the next invocation on every domain with a
  session fails without reaching the driver, and only that one: the mode is not tried again.\<close>

theorem refused_mode_costs_one_call:
  assumes "remote_set_mode m s = Some (0, s1)" and "m \<noteq> 4" and "IS_VALID_EFFECTIVE_DOMAIN_ID d"
    and "fastrpc_session_dev d (sess (am s)) = (0, dv)"
    and "remote_handle_invoke_domain e d handle sc pra s1 = Some ((nErr, out), s2)"
  shows "nErr = AEE_EUNSUPPORTED \<and> sent s2 = sent s \<and> \<not> setmode (doms s2 d)"
proof -
  have s1: "s1 = fold (\<lambda>i. upd_dom i (\<lambda>D. D\<lparr>mode := m, setmode := True\<rparr>)) all_domains s"
    using assms(1) by (simp add: remote_set_mode_def split: if_splits)
  have "d \<in> set all_domains" "distinct all_domains"
    using assms(3) by (auto simp: IS_VALID_EFFECTIVE_DOMAIN_ID_def all_domains_def)
  then have "doms s1 d = (doms s d)\<lparr>mode := m, setmode := True\<rparr>" "am s1 = am s" "sent s1 = sent s"
    by (simp_all add: s1 fold_upd_doms)
  then show ?thesis using invoke_domain_bad_mode [OF _ _ _ assms(5)] assms(2,4) by simp
qed

section \<open>Polling\<close>

lemma poll_refused: "manage_poll_qos e domain h enable latency s \<noteq> Some (0, s')"
  by (auto simp: manage_poll_qos_def ioctl_control_def convert_kernel_to_user_error_def split: if_splits Option.bind_splits)

text \<open>Polling is neither switched on nor off: every request that needs it fails, also the request to disable the quality of
  service.\<close>

theorem polling_always_refused:
  assumes "remote_handle64_control e ce we handle (DSPRPC_CONTROL_LATENCY (Some (enable, latency))) s = Some ((nErr, out), s')"
    and "enable = 0 \<or> enable = 3"
  shows "nErr \<noteq> 0"
proof -
  have c: "control_latency e d h enable latency x \<noteq> Some (0, x')" for d h x x'
    using assms(2) by (auto simp: control_latency_def poll_refused split: if_splits Option.bind_splits)
  then have "k \<noteq> 0" if "with_ref d (remote_handle_control_domain e ce we d handle (DSPRPC_CONTROL_LATENCY (Some (enable, latency)))) s =
      Some ((k, out), s')" for k d
    using that by (auto simp: c with_ref_def remote_handle_control_domain_def split: if_splits prod.splits)
  moreover have "get_domain_from_handle handle s \<noteq> (0, None)"
    by (auto simp: get_domain_from_handle_def verify_local_handle_def split: option.splits)
  ultimately show ?thesis using assms(1)
    by (auto simp: remote_handle64_control_def split: if_splits prod.splits option.splits)
qed

section \<open>Instances\<close>

definition demo_reserve :: remote_rpc_reserve_new_session where
  "demo_reserve = \<lparr>rs_domain_name = Some ''cdsp'', rs_domain_name_len = 4, rs_session_name = Some ''camera'', rs_session_name_len = 6\<rparr>"

text \<open>Four requests for a domain with three sessions.\<close>

theorem reservations_distinct_witness:
  "fst (reserve_all (replicate 4 demo_reserve) demo_handles) = [11, 19, 27] \<and>
   is_session_reserved (doms (snd (reserve_all (replicate 4 demo_reserve) demo_handles)) 19)"
proof -
  have "fst (reserve_all (replicate 4 demo_reserve) demo_handles) = [11, 19, 27]" by code_simp
  moreover from reservations_distinct [OF surjective_pairing [of "reserve_all (replicate 4 demo_reserve) demo_handles"]] this
  have "is_session_reserved (doms (snd (reserve_all (replicate 4 demo_reserve) demo_handles)) 19)" by simp
  ultimately show ?thesis by blast
qed

theorem reserve_finds_first_free_witness:
  "\<exists>out. fst (reserve_new_session demo_reserve demo_handles) = (0, out) \<and> (\<exists>k \<in> {1, 2, 3}. out = Reserved (3 + 8 * k, k))"
proof -
  obtain nErr out s' where r: "reserve_new_session demo_reserve demo_handles = ((nErr, out), s')" by (metis surj_pair)
  have "reserve_domain demo_reserve = Some 3" "IS_VALID_DOMAIN_ID 3" "free_session demo_handles (3 + 8 * 1)" by code_simp+
  then show ?thesis using reserve_finds_first_free [OF _ _ r, of 3] r by auto
qed

definition demo_ctl :: ctl where
  "demo_ctl = \<lparr>ct_apps = demo_closed, ct_caps = no_caps, ct_ctx = demo_table, ct_notifs = []\<rparr>"

theorem relative_priority_stored_witness:
  "\<exists>c'. session_request demo_henv demo_caps (\<lambda>_ _. (8, 0)) (FASTRPC_RELATIVE_THREAD_PRIORITY (Some (3, 100))) demo_ctl =
     Some ((0, NoOut), c') \<and> uint (thread_priority (th_params (doms (ct_apps c') 3))) = 255"
proof -
  have h: "hlist (sess (am (ct_apps demo_ctl))) = Some (\<lambda>_. \<lparr>state = FASTRPC_DOMAIN_STATE_CLEAN, ref = 0, dev = -1\<rparr>)"
    by (simp add: demo_ctl_def demo_closed_def upd_sess_def)
  have "IS_VALID_EFFECTIVE_DOMAIN_ID 3" by code_simp
  from relative_priority_stored [OF this h, of 100 demo_henv demo_caps "\<lambda>_ _. (8, 0)"] show ?thesis by auto
qed

text \<open>The first domain has one reference, domain 3 none.\<close>

definition demo_used :: ctl where
  "demo_used = demo_ctl\<lparr>ct_apps := upd_sess (\<lambda>se. se\<lparr>hlist := Some (\<lambda>d. \<lparr>state = FASTRPC_DOMAIN_STATE_INIT,
     ref = if d = 0 then 1 else 0, dev = 7\<rparr>)\<rparr>) demo_handles\<rparr>"

theorem effective_domain_answered_witness:
  "\<exists>r c' h'. remote_session_control demo_henv demo_caps (\<lambda>_ _. (8, 0))
       (FASTRPC_GET_EFFECTIVE_DOMAIN_ID (Some (Some ''adsp'', 4, 1))) demo_used = Some ((0, EffectiveDomain (Some r)), c') \<and>
     GET_DOMAIN_FROM_EFFEC_DOMAIN_ID r = 0 \<and> GET_SESSION_ID_FROM_DOMAIN_ID r = 1 \<and>
     hlist (sess (am (ct_apps c'))) = Some h' \<and> ref (h' 3) = 1 \<and> ref (h' 0) = 0"
proof -
  let ?h = "\<lambda>d. \<lparr>state = FASTRPC_DOMAIN_STATE_INIT, ref = if d = 0 then 1 else 0, dev = 7\<rparr> :: handle_list"
  have h: "hlist (sess (am (ct_apps demo_used))) = Some ?h" by (simp add: demo_used_def upd_sess_def)
  have i: "fastrpc_init_once (am (ct_apps demo_used)) = 0" by code_simp
  have q: "query_domain (Some ''adsp'') 4 1 = Some 0" "IS_VALID_DOMAIN_ID 0" by code_simp+
  have d: "state (?h 3) \<noteq> FASTRPC_DOMAIN_STATE_DEINIT" by simp
  from effective_domain_answered [OF h d i q, of demo_henv demo_caps "\<lambda>_ _. (8, 0)"] show ?thesis by force
qed

definition demo_moded :: apps where
  "demo_moded = snd (the (remote_set_mode 0 demo_open))"

definition demo_moded_call :: "((int \<times> u32 list) \<times> apps) option" where
  "demo_moded_call = remote_handle_invoke_domain demo_henv 3 0x100000 demo_sc (Some demo_args) demo_moded"

theorem refused_mode_costs_one_call_witness:
  "demo_moded_call \<noteq> None \<and> fst (fst (the demo_moded_call)) = AEE_EUNSUPPORTED \<and>
   sent (snd (the demo_moded_call)) = sent demo_open \<and> \<not> setmode (doms (snd (the demo_moded_call)) 3)"
proof -
  have n: "demo_moded_call \<noteq> None" by code_simp
  obtain nErr out s2 where c: "remote_handle_invoke_domain demo_henv 3 0x100000 demo_sc (Some demo_args) demo_moded = Some ((nErr, out), s2)"
    using n by (auto simp: demo_moded_call_def)
  have h: "hlist (sess (am demo_open)) \<noteq> None" "IS_VALID_EFFECTIVE_DOMAIN_ID 3" by code_simp+
  then have m: "remote_set_mode 0 demo_open = Some (0, demo_moded)" by (auto simp: demo_moded_def remote_set_mode_def)
  have d: "fastrpc_session_dev 3 (sess (am demo_open)) = (0, snd (fastrpc_session_dev 3 (sess (am demo_open))))" by code_simp
  have "(0 :: u32) \<noteq> 4" by simp
  from refused_mode_costs_one_call [OF m this h(2) d c] c n show ?thesis by (simp add: demo_moded_call_def)
qed

definition demo_disable :: "((int \<times> control_out) \<times> apps) option" where
  "demo_disable = remote_handle64_control demo_henv demo_caps demo_wake_env 0x1000 (DSPRPC_CONTROL_LATENCY (Some (0, 100))) demo_open"

theorem polling_always_refused_witness: "demo_disable \<noteq> None \<and> fst (fst (the demo_disable)) \<noteq> 0"
proof -
  have n: "demo_disable \<noteq> None" by code_simp
  then obtain nErr out s' where d: "demo_disable = Some ((nErr, out), s')" by auto
  from polling_always_refused [OF d [unfolded demo_disable_def]] show ?thesis by (simp add: d)
qed

text \<open>The name of the session loses its last character when its length is given without the terminator.\<close>

lemma session_name_cut: "stored_name ''camera'' 6 = ''camer''"
  by code_simp

end
