(* ===== verification/Spec2Isabelle.thy ===== *)
theory Spec2Isabelle
  imports QList StdPath MemProps LifeSpec ModTableSpec Crc DomainUri InvokeProps DomainProps OpenCloseProps ControlProps
begin

text \<open>
  A verification library for the FastRPC user-space library: the code under \<^verbatim>\<open>src/\<close> with which a process on the
  application processor loads modules on a DSP, calls their methods, shares memory with them and is called back.

  \<^bold>\<open>The program.\<close> A process has one session for each of 32 effective domains (8 DSPs, 4 sessions of each). The table
  \<^verbatim>\<open>hlist\<close> of \<^verbatim>\<open>src/fastrpc_apps_user.c\<close> holds for each of them the device, the state, the count of references and
  the lists of open handles. Opening a module finds the domain in its URI, starts the session when there is none, asks the
  DSP to load the module and returns a local handle. An invocation takes a reference on the session, marshals its buffers
  and DMA handles into a request to the driver and gives the reference back. Memory is registered and mapped by
  \<^verbatim>\<open>src/fastrpc_mem.c\<close>, allocated by \<^verbatim>\<open>src/rpcmem_linux.c\<close> and mapped on behalf of the DSP by
  \<^verbatim>\<open>src/apps_mem_imp.c\<close>. Calls of the DSP into this process go through the table of reverse modules,
  \<^verbatim>\<open>src/mod_table.c\<close>. Packets are exchanged without calls through the shared queues of \<^verbatim>\<open>src/dspqueue/dspqueue_cpu.c\<close>.

  \<^bold>\<open>How the code is modelled.\<close> An operation of the code is a definition with its name. Its state is a record that is passed
  and returned. The operations of \<^verbatim>\<open>src/mod_table.c\<close> and the calls on a queue, which give up a mutex in the middle, are
  split into the steps between. \<open>fastrpc_mmap_helper\<close>, \<open>remote_register_dma_handle\<close>, \<open>remote_register_buf_common\<close>
  and \<open>fastrpc_wake_lock_deinit\<close> give it up as well, and opening, closing and starting a session hold none over the whole
  of it, but they are one step here: what is proved of them holds when no other thread runs in between. Errors are the \<open>int\<close> of the code; an outcome \<open>None\<close> is an access outside of an object, a failed assertion or an
  abort, so a theorem that a result is \<open>Some\<close> excludes these. What the code is given by the kernel, the C library and the
  DSP is an argument of the definition, a record of answers that may depend on the state; lists in the state record what was
  asked of them. Fields of a fixed width are words, an \<open>int\<close> of the code is an \<open>int\<close> with its wrap-around written out where a
  value can leave the range (\<open>int32\<close>). Linked lists are lists, except in \<open>QList\<close>, which shows for an explicit store
  of link fields that the intrusive lists of \<^verbatim>\<open>inc/AEEQList.h\<close> are lists.

  \<^bold>\<open>The theories.\<close>
  \<^item> \<open>Prelude\<close>: widths, error codes and the lemmas that the components share.
  \<^item> \<open>QList\<close>: \<^verbatim>\<open>inc/AEEQList.h\<close> on a store. \<open>Bufbound\<close>: \<^verbatim>\<open>src/BufBound.c\<close>. \<open>StdPath\<close>: \<^verbatim>\<open>src/std_path.c\<close>.
    \<open>Sbuf\<close>: the serialisation buffer and parser of \<^verbatim>\<open>inc/sbuf.h\<close> and \<^verbatim>\<open>inc/sbuf_parser.h\<close>, with one locale for
    all consumers of a class of characters. \<open>Pls\<close>: process-local storage and the counted platform libraries. \<open>Crc\<close>: the
    checksum, table-driven and bitwise.
  \<^item> \<open>Session\<close>: devices, states, references and the current domain of a thread. \<open>FastrpcMem\<close> with
    \<open>FastrpcMemLaws\<close> and \<open>MemProps\<close>: \<^verbatim>\<open>src/fastrpc_mem.c\<close>, the registered buffers, the table of DMA
    handles, the static and remote mappings; every sequence of calls keeps the invariant of the tables, references balance,
    and the table of DMA handles is a map. \<open>Rpcmem\<close> and \<open>AppsMem\<close>: allocation, and mapping for the DSP.
  \<^item> \<open>PacketRing\<close>: a queue in shared memory as bytes and two positions, refined by a list of packets (locale
    \<open>packet_fifo\<close>). \<open>DspQueue\<close> and \<open>QueueProps\<close>: the packet operations with their buffer references,
    waiting and signalling. \<open>QueueDomain\<close>, \<open>QueueLife\<close>, \<open>LifeProps\<close> and \<open>LifeSpec\<close>: the table of
    queues of a domain, creation, export, close and the threads, with the invariant of the table. \<open>DspSignal\<close>: the
    signals of the driver.
  \<^item> \<open>ModUri\<close>: the parser of module URIs against a reference parser on texts. \<open>ModTable\<close>, \<open>ModTableInv\<close>,
    \<open>ModTableProps\<close> and \<open>ModTableSpec\<close>: the table of reverse modules; its counts are the abstract state
    (locale \<open>counted_handles\<close>), modules are released once, and the steps between two locks may interleave.
  \<^item> \<open>DomainUri\<close>: names of domains, sessions and URIs. \<open>Wakelock\<close>: \<^verbatim>\<open>src/fastrpc_pm.c\<close>.
    \<open>Handles\<close> and \<open>HandleProps\<close>: the lists of open handles (locale \<open>handle_directory\<close>). \<open>Invoke\<close> and
    \<open>InvokeProps\<close>: invocations. \<open>Domain\<close> and \<open>DomainProps\<close>: start and end of a session as a machine with two
    phases. \<open>OpenClose\<close> and \<open>OpenCloseProps\<close>: opening and closing modules.
  \<^item> \<open>Cap\<close>, \<open>CapProps\<close>: capabilities. \<open>Context\<close>, \<open>ContextProps\<close>: contexts over several sessions.
    \<open>Control\<close>, \<open>ControlProps\<close>: the requests of \<^verbatim>\<open>remote_session_control\<close> and \<^verbatim>\<open>remote_handle_control\<close>.

  Each theory with operations is followed by one with their laws. The numbered statements are the properties of the
  program; those that show a defect say so, and prove the run of the code as it is.

  \<^bold>\<open>Bounds, loops and fuel.\<close> The sizes are those of the code: 32 effective domains, 64 queues of a process, 256 DMA handles
  and so on; nothing is scaled down. Loops over lists are recursive on them. The loops of the parsers are
  \<open>partial_function\<close>s and proved to return for every position in memory; \<open>walk_list\<close> in \<open>OpenClose\<close>, which
  closes all handles of a session, and the release of the wake lock terminate by a measure. The waiting loops of the queues
  run over the list of the events that reach them, so their length plus one is enough fuel (\<open>wait_loop_fuel\<close>), and
  running out of events is a result of its own, still waiting. \<open>clear_reverse\<close> has the length of its list as fuel, which
  is shown to empty it (\<open>clear_reverse_empties\<close>).

  \<^bold>\<open>Not modelled.\<close> The kernel driver beyond the interface of \<^verbatim>\<open>src/fastrpc_ioctl.c\<close>, which answers several requests as
  unsupported; generated stubs and skeletons, except those stubs that the sessions call themselves; logging, tracing,
  performance counters, the reading of configuration files; the threads that wait for reverse calls, log messages and
  notifications; the daemon. The memory contents that an invocation carries are not looked at, only their addresses and
  lengths. True concurrency is only modelled in the steps named above; all other operations are taken as atomic, even
  those that give up their mutex on the way.
\<close>

end
